(* ===== verification/Prelude.thy ===== *)
theory Prelude
  imports Main "HOL-Library.Word" "HOL-Library.Monad_Syntax"
begin

text \<open>
  Shared vocabulary of the development: the machine integers of the Rust source, the
  panic monad in which every slice access of the source is written, big-endian wire
  words, decimal and hexadecimal formatting, and the two interface locales (byte codecs
  and operation systems) that the components instantiate.

  A computation of type \<open>'a option\<close> is a Rust computation that either panics
  (\<open>None\<close>) or yields a value. A Rust \<open>Result\<close> or \<open>Option\<close> is a value inside it.
\<close>

unbundle bit_operations_syntax

section \<open>Machine integers and byte strings\<close>

type_synonym u8 = "8 word"
type_synonym u16 = "16 word"
type_synonym u32 = "32 word"
type_synonym bytes = "u8 list"

named_theorems panic_simps \<open>rules that discharge the bounds checks of slice accesses\<close>
named_theorems wire_simps \<open>lengths and reads of encoded wire fields\<close>

section \<open>Slices: every access is checked, as in Rust\<close>

definition idx :: "'a list \<Rightarrow> nat \<Rightarrow> 'a option" where
  "idx xs i = (if i < length xs then Some (xs ! i) else None)"

definition sub_slice :: "'a list \<Rightarrow> nat \<Rightarrow> nat \<Rightarrow> 'a list option" where
  "sub_slice xs a b = (if a \<le> b \<and> b \<le> length xs then Some (take (b - a) (drop a xs)) else None)"

definition slice_from :: "'a list \<Rightarrow> nat \<Rightarrow> 'a list option" where
  "slice_from xs a = (if a \<le> length xs then Some (drop a xs) else None)"

definition set_idx :: "'a list \<Rightarrow> nat \<Rightarrow> 'a \<Rightarrow> 'a list option" where
  "set_idx xs i v = (if i < length xs then Some (xs[i := v]) else None)"

text \<open>\<open>dst[a..a + n].copy_from_slice(src)\<close>, which also panics when the lengths differ.\<close>

definition copy_into :: "'a list \<Rightarrow> nat \<Rightarrow> nat \<Rightarrow> 'a list \<Rightarrow> 'a list option" where
  "copy_into xs a n src =
     (if a + n \<le> length xs \<and> length src = n
      then Some (take a xs @ src @ drop (a + n) xs) else None)"

lemma idx_in [simp, panic_simps]: "i < length xs \<Longrightarrow> idx xs i = Some (xs ! i)"
  by (simp add: idx_def)

lemma idx_out: "length xs \<le> i \<Longrightarrow> idx xs i = None"
  by (simp add: idx_def)

lemma sub_slice_in [simp, panic_simps]:
  "a \<le> b \<Longrightarrow> b \<le> length xs \<Longrightarrow> sub_slice xs a b = Some (take (b - a) (drop a xs))"
  by (simp add: sub_slice_def)

lemma slice_from_in [simp, panic_simps]: "a \<le> length xs \<Longrightarrow> slice_from xs a = Some (drop a xs)"
  by (simp add: slice_from_def)

lemma set_idx_in [simp, panic_simps]: "i < length xs \<Longrightarrow> set_idx xs i v = Some (xs[i := v])"
  by (simp add: set_idx_def)

lemma copy_into_in [simp, panic_simps]:
  "a + n \<le> length xs \<Longrightarrow> length src = n \<Longrightarrow>
   copy_into xs a n src = Some (take a xs @ src @ drop (a + n) xs)"
  by (simp add: copy_into_def)

lemma length_set_idx: "set_idx xs i v = Some ys \<Longrightarrow> length ys = length xs"
  by (auto simp: set_idx_def split: if_splits)

lemma length_copy_into: "copy_into xs a n src = Some ys \<Longrightarrow> length ys = length xs"
  by (auto simp: copy_into_def split: if_splits)

section \<open>Panic freedom\<close>

text \<open>
  \<open>runs m P\<close>: the computation does not panic and its value satisfies \<open>P\<close>. The rules
  compose as the code does, so a bounds proof follows the program text.
\<close>

definition runs :: "'a option \<Rightarrow> ('a \<Rightarrow> bool) \<Rightarrow> bool" where
  "runs m P = (case m of None \<Rightarrow> False | Some x \<Rightarrow> P x)"

lemma runs_Some [simp]: "runs (Some x) P = P x"
  by (simp add: runs_def)

lemma runs_None [simp]: "\<not> runs None P"
  by (simp add: runs_def)

lemma runs_bind: "runs (Option.bind m f) P = runs m (\<lambda>x. runs (f x) P)"
  by (cases m) simp_all

lemma runs_mono: "runs m P \<Longrightarrow> (\<And>x. P x \<Longrightarrow> Q x) \<Longrightarrow> runs m Q"
  by (cases m) simp_all

lemma runs_iff: "runs m P \<longleftrightarrow> (\<exists>x. m = Some x \<and> P x)"
  by (cases m) simp_all

lemma runs_not_None: "runs m (\<lambda>_. True) \<longleftrightarrow> m \<noteq> None"
  by (cases m) simp_all

lemma runsI: "m = Some x \<Longrightarrow> P x \<Longrightarrow> runs m P"
  by simp

text \<open>The weakest preconditions of the slice accesses.\<close>

lemma runs_idx [simp]: "runs (Option.bind (idx xs i) f) P = (i < length xs \<and> runs (f (xs ! i)) P)"
  by (simp add: idx_def)

lemma runs_set_idx [simp]:
  "runs (Option.bind (set_idx xs i v) f) P = (i < length xs \<and> runs (f (xs[i := v])) P)"
  by (simp add: set_idx_def)

lemma runs_slice_from [simp]:
  "runs (Option.bind (slice_from xs a) f) P = (a \<le> length xs \<and> runs (f (drop a xs)) P)"
  by (simp add: slice_from_def)

lemma runs_sub_slice [simp]:
  "runs (Option.bind (sub_slice xs a b) f) P =
     (a \<le> b \<and> b \<le> length xs \<and> runs (f (take (b - a) (drop a xs))) P)"
  by (auto simp: sub_slice_def)

lemma runs_copy_into [simp]:
  "runs (Option.bind (copy_into xs a n src) f) P =
     (a + n \<le> length xs \<and> length src = n \<and> runs (f (take a xs @ src @ drop (a + n) xs)) P)"
  by (auto simp: copy_into_def)

section \<open>Big-endian wire words\<close>

definition to_be16 :: "u16 \<Rightarrow> bytes" where
  "to_be16 w = [ucast (drop_bit 8 w), ucast w]"

definition from_be16 :: "u8 \<Rightarrow> u8 \<Rightarrow> u16" where
  "from_be16 a b = push_bit 8 (ucast a) OR ucast b"

definition to_be32 :: "u32 \<Rightarrow> bytes" where
  "to_be32 w = [ucast (drop_bit 24 w), ucast (drop_bit 16 w), ucast (drop_bit 8 w), ucast w]"

definition from_be32 :: "u8 \<Rightarrow> u8 \<Rightarrow> u8 \<Rightarrow> u8 \<Rightarrow> u32" where
  "from_be32 a b c d =
     push_bit 24 (ucast a) OR push_bit 16 (ucast b) OR push_bit 8 (ucast c) OR ucast d"

text \<open>\<open>u16::from_be_bytes([d[off], d[off + 1]])\<close> and its 32-bit companion.\<close>

definition be16_at :: "bytes \<Rightarrow> nat \<Rightarrow> u16 option" where
  "be16_at d off = do { a \<leftarrow> idx d off; b \<leftarrow> idx d (off + 1); Some (from_be16 a b) }"

definition be32_at :: "bytes \<Rightarrow> nat \<Rightarrow> u32 option" where
  "be32_at d off = do {
     a \<leftarrow> idx d off; b \<leftarrow> idx d (off + 1); c \<leftarrow> idx d (off + 2); e \<leftarrow> idx d (off + 3);
     Some (from_be32 a b c e) }"

text \<open>The values those reads deliver once the bounds are known.\<close>

definition rd16 :: "bytes \<Rightarrow> nat \<Rightarrow> u16" where
  "rd16 d off = from_be16 (d ! off) (d ! (off + 1))"

definition rd32 :: "bytes \<Rightarrow> nat \<Rightarrow> u32" where
  "rd32 d off = from_be32 (d ! off) (d ! (off + 1)) (d ! (off + 2)) (d ! (off + 3))"

lemma be16_at_in [simp, panic_simps]: "off + 1 < length d \<Longrightarrow> be16_at d off = Some (rd16 d off)"
  by (simp add: be16_at_def rd16_def)

lemma be32_at_in [simp, panic_simps]: "off + 3 < length d \<Longrightarrow> be32_at d off = Some (rd32 d off)"
  by (simp add: be32_at_def rd32_def)

lemma length_to_be16 [simp, wire_simps]: "length (to_be16 w) = 2"
  by (simp add: to_be16_def)

lemma length_to_be32 [simp, wire_simps]: "length (to_be32 w) = 4"
  by (simp add: to_be32_def)

lemma from_to_be16 [simp]: "from_be16 (ucast (drop_bit 8 w)) (ucast w) = w"
  unfolding from_be16_def by (rule bit_word_eqI) (auto simp: bit_simps)

lemma from_to_be32 [simp]:
  "from_be32 (ucast (drop_bit 24 w)) (ucast (drop_bit 16 w)) (ucast (drop_bit 8 w)) (ucast w) = w"
proof (rule bit_word_eqI)
  fix n assume "n < LENGTH(32)"
  then show "bit (from_be32 (ucast (drop_bit 24 w)) (ucast (drop_bit 16 w)) (ucast (drop_bit 8 w)) (ucast w)) n
      \<longleftrightarrow> bit w n"
    by (cases "n < 8"; cases "n < 16"; cases "n < 24") (auto simp: from_be32_def bit_simps)
qed

lemma bit_u8_beyond: "8 \<le> n \<Longrightarrow> \<not> bit (b :: u8) n"
  using bit_imp_le_length [of b n] by auto

lemma to_from_be16 [simp]: "to_be16 (from_be16 a b) = [a, b]"
  unfolding to_be16_def from_be16_def
  by (auto intro!: bit_word_eqI simp: bit_simps bit_u8_beyond)

lemma to_from_be32 [simp]: "to_be32 (from_be32 a b c d) = [a, b, c, d]"
  unfolding to_be32_def from_be32_def
  by (auto intro!: bit_word_eqI simp: bit_simps bit_u8_beyond)

text \<open>Reading a field back out of an encoding: at its start, or behind a known prefix.\<close>

lemma rd16_here [simp, wire_simps]: "rd16 (to_be16 w @ ys) 0 = w"
  by (simp add: rd16_def to_be16_def)

lemma rd32_here [simp, wire_simps]: "rd32 (to_be32 w @ ys) 0 = w"
  by (simp add: rd32_def to_be32_def)

lemma nth_append_skip: "length xs \<le> i \<Longrightarrow> (xs @ ys) ! (i + k) = ys ! (i - length xs + k)"
  by (simp add: nth_append)

lemma rd16_skip [wire_simps]: "length xs \<le> i \<Longrightarrow> rd16 (xs @ ys) i = rd16 ys (i - length xs)"
  unfolding rd16_def using nth_append_skip [of xs i ys 0] nth_append_skip [of xs i ys 1] by simp

lemma rd32_skip [wire_simps]: "length xs \<le> i \<Longrightarrow> rd32 (xs @ ys) i = rd32 ys (i - length xs)"
  unfolding rd32_def
  using nth_append_skip [of xs i ys 0] nth_append_skip [of xs i ys 1]
    nth_append_skip [of xs i ys 2] nth_append_skip [of xs i ys 3] by simp

lemma rd16_skip1 [wire_simps]: "0 < i \<Longrightarrow> rd16 (x # ys) i = rd16 ys (i - 1)"
  using rd16_skip [of "[x]" i ys] by simp

lemma rd32_skip1 [wire_simps]: "0 < i \<Longrightarrow> rd32 (x # ys) i = rd32 ys (i - 1)"
  using rd32_skip [of "[x]" i ys] by simp

lemma rd16_single [wire_simps]: "rd16 (to_be16 w) 0 = w"
  using rd16_here [of w "[]"] by simp

lemma rd32_single [wire_simps]: "rd32 (to_be32 w) 0 = w"
  using rd32_here [of w "[]"] by simp

lemma rd16_take [wire_simps]: "i + 1 < n \<Longrightarrow> n \<le> length d \<Longrightarrow> rd16 (take n d) i = rd16 d i"
  by (simp add: rd16_def)

lemma rd32_take [wire_simps]: "i + 3 < n \<Longrightarrow> n \<le> length d \<Longrightarrow> rd32 (take n d) i = rd32 d i"
  by (simp add: rd32_def)

lemma rd16_drop [wire_simps]: "n \<le> length d \<Longrightarrow> rd16 (drop n d) i = rd16 d (n + i)"
  by (simp add: rd16_def add.assoc)

lemma rd32_drop [wire_simps]: "n \<le> length d \<Longrightarrow> rd32 (drop n d) i = rd32 d (n + i)"
  by (simp add: rd32_def add.assoc)

text \<open>The bytes a read consumed are the encoding of its value.\<close>

lemma to_be16_rd16: "off + 1 < length d \<Longrightarrow> to_be16 (rd16 d off) = take 2 (drop off d)"
  by (simp add: rd16_def take_Suc_conv_app_nth numeral_2_eq_2)

lemma to_be32_rd32: "off + 3 < length d \<Longrightarrow> to_be32 (rd32 d off) = take 4 (drop off d)"
  by (simp add: rd32_def take_Suc_conv_app_nth eval_nat_numeral)

section \<open>Casts\<close>

text \<open>\<open>n as u16\<close> on a \<open>usize\<close> truncates; \<open>usize\<close> is a natural number here.\<close>

definition as_u16 :: "nat \<Rightarrow> u16" where
  "as_u16 n = of_nat n"

definition as_u32 :: "nat \<Rightarrow> u32" where
  "as_u32 n = of_nat n"

lemma unat_as_u16 [simp]: "n < 65536 \<Longrightarrow> unat (as_u16 n) = n"
  by (simp add: as_u16_def unat_of_nat)

lemma unat_as_u32 [simp]: "n < 4294967296 \<Longrightarrow> unat (as_u32 n) = n"
  by (simp add: as_u32_def unat_of_nat)

lemma unat_of_nat_u8: "n < 256 \<Longrightarrow> unat (of_nat n :: u8) = n"
  by (simp add: unat_of_nat)

lemma unat_of_nat_u16: "n < 65536 \<Longrightarrow> unat (of_nat n :: u16) = n"
  by (simp add: unat_of_nat)

lemma of_nat_unat_u32: "(of_nat (unat (w :: u32)) :: u16) = ucast w"
  by (simp add: word_unat_eq_iff unat_of_nat unsigned_ucast_eq take_bit_eq_mod)

lemma unat_u8_lt: "unat (b :: u8) < 256"
  using unsigned_less [of b, where 'a = nat] by simp

lemma unat_u16_lt: "unat (w :: u16) < 65536"
  using unsigned_less [of w, where 'a = nat] by simp

lemma unat_ucast_u16: "unat (ucast (x :: u16) :: u32) = unat x"
  using unat_u16_lt [of x] by (simp add: unsigned_ucast_eq take_bit_nat_eq_self)

lemma minus_of_nat_u16:
  assumes "b \<le> 65536"
  shows "(- of_nat b :: u16) = of_nat (65536 - b)"
proof -
  have "(of_nat (65536 - b) :: u16) = of_nat 65536 - of_nat b" using assms by (rule of_nat_diff)
  then show ?thesis by simp
qed

lemma unat_u32_lt: "unat (w :: u32) < 4294967296"
  using unsigned_less [of w, where 'a = nat] by simp

section \<open>Results, collections and ordered maps\<close>

text \<open>The \<open>?\<close> operator on a \<open>Result\<close>, and \<open>collect::<Result<Vec<_>, _>>()\<close>.\<close>

definition rbind :: "'e + 'a \<Rightarrow> ('a \<Rightarrow> 'e + 'b) \<Rightarrow> 'e + 'b" where
  "rbind m f = (case m of Inl e \<Rightarrow> Inl e | Inr x \<Rightarrow> f x)"

lemma rbind_simps [simp]: "rbind (Inl e) f = Inl e" "rbind (Inr x) f = f x"
  by (simp_all add: rbind_def)

lemma rbind_Inr: "rbind m f = Inr y \<longleftrightarrow> (\<exists>x. m = Inr x \<and> f x = Inr y)"
  by (cases m) simp_all

fun traverse :: "('a \<Rightarrow> 'e + 'b) \<Rightarrow> 'a list \<Rightarrow> 'e + 'b list" where
  "traverse f [] = Inr []"
| "traverse f (x # xs) = rbind (f x) (\<lambda>y. rbind (traverse f xs) (\<lambda>ys. Inr (y # ys)))"

lemma traverse_Inr: "traverse f xs = Inr ys \<longleftrightarrow> list_all2 (\<lambda>x y. f x = Inr y) xs ys"
  by (induction xs arbitrary: ys) (auto simp: rbind_Inr list_all2_Cons1)

text \<open>\<open>BTreeMap::insert\<close>: the map as its key-ordered list of entries.\<close>

fun bt_insert :: "'k :: linorder \<Rightarrow> 'v \<Rightarrow> ('k \<times> 'v) list \<Rightarrow> ('k \<times> 'v) list" where
  "bt_insert k v [] = [(k, v)]"
| "bt_insert k v ((k', v') # m) =
     (if k < k' then (k, v) # (k', v') # m
      else if k = k' then (k, v) # m
      else (k', v') # bt_insert k v m)"

lemma set_keys_bt_insert [simp]: "fst ` set (bt_insert k v m) = insert k (fst ` set m)"
  by (induction k v m rule: bt_insert.induct) auto

lemma sorted_bt_insert: "sorted_wrt (<) (map fst m) \<Longrightarrow> sorted_wrt (<) (map fst (bt_insert k v m))"
proof (induction k v m rule: bt_insert.induct)
  case (2 k v k' v' m)
  then have "\<forall>x \<in> set (map fst m). k' < x" by simp
  then have "\<forall>x \<in> set (map fst (bt_insert k v m)). x = k \<or> k' < x"
    using set_keys_bt_insert [of k v m] by auto
  with 2 show ?case by auto
qed simp

lemma map_of_bt_insert: "sorted_wrt (<) (map fst m) \<Longrightarrow> map_of (bt_insert k v m) = (map_of m)(k \<mapsto> v)"
  by (induction k v m rule: bt_insert.induct) (auto simp: fun_upd_twist)

section \<open>Number formatting\<close>

text \<open>\<open>{n:0kX}\<close> for a number of at most \<open>k\<close> hexadecimal digits, and \<open>{n}\<close>.\<close>

definition hex_digit_upper :: "nat \<Rightarrow> char" where
  "hex_digit_upper n = char_of (if n < 10 then 48 + n else 55 + n)"

definition hex_upper :: "nat \<Rightarrow> nat \<Rightarrow> string" where
  "hex_upper k n = map (\<lambda>i. hex_digit_upper (n div 16 ^ i mod 16)) (rev [0..<k])"

fun dec_nat :: "nat \<Rightarrow> string" where
  "dec_nat n = (if n < 10 then [char_of (48 + n)] else dec_nat (n div 10) @ [char_of (48 + n mod 10)])"

declare dec_nat.simps [simp del]

text \<open>\<open>{n:X}\<close>, and \<open>{n:0kX}\<close> for a number that may need more than \<open>k\<close> digits.\<close>

fun hex_nat :: "nat \<Rightarrow> string" where
  "hex_nat n = (if n < 16 then [hex_digit_upper n] else hex_nat (n div 16) @ [hex_digit_upper (n mod 16)])"

declare hex_nat.simps [simp del]

definition hex_min :: "nat \<Rightarrow> nat \<Rightarrow> string" where
  "hex_min k n = (let h = hex_nat n in replicate (k - length h) CHR ''0'' @ h)"

section \<open>Interfaces\<close>

text \<open>
  A codec: what a builder puts on the wire, the matching parser reads back. \<open>wf\<close> is the
  provider's promise about the values it encodes (field widths, array lengths).
\<close>

locale wire_codec =
  fixes enc :: "'a \<Rightarrow> bytes"
    and dec :: "bytes \<Rightarrow> ('e + 'a) option"
    and wf :: "'a \<Rightarrow> bool"
  assumes dec_enc: "wf x \<Longrightarrow> dec (enc x) = Some (Inr x)"
begin

lemma enc_inj: "wf x \<Longrightarrow> wf y \<Longrightarrow> enc x = enc y \<Longrightarrow> x = y"
  by (metis dec_enc option.inject sum.inject(2))

lemma enc_inj_on: "inj_on enc {x. wf x}"
  by (rule inj_onI) (auto intro: enc_inj)

lemma dec_enc_runs: "wf x \<Longrightarrow> runs (dec (enc x)) (\<lambda>r. r = Inr x)"
  by (simp add: dec_enc)

end

text \<open>
  A total codec also decodes every input without panicking, and what it decodes
  re-encodes to the bytes it read.
\<close>

locale exact_codec = wire_codec +
  assumes dec_total: "dec d \<noteq> None"
    and enc_dec: "dec d = Some (Inr x) \<Longrightarrow> enc x = d"
begin

lemma dec_inj: "dec d = Some (Inr x) \<Longrightarrow> dec d' = Some (Inr x) \<Longrightarrow> d = d'"
  using enc_dec by metis

lemma dec_cases: "(\<exists>e. dec d = Some (Inl e)) \<or> (\<exists>x. dec d = Some (Inr x) \<and> enc x = d)"
proof (cases "dec d")
  case None
  then show ?thesis using dec_total by blast
next
  case (Some r)
  then show ?thesis by (cases r) (auto dest: enc_dec)
qed

end

text \<open>
  An operation system: a component's state with the operations its clients may call in any
  order. A client that knows one-step preservation knows it for every sequence of calls.
\<close>

locale op_system =
  fixes step :: "'op \<Rightarrow> 's \<Rightarrow> 's"
    and inv :: "'s \<Rightarrow> bool"
  assumes step_inv: "inv s \<Longrightarrow> inv (step op s)"
begin

lemma run_inv: "inv s \<Longrightarrow> inv (fold step ops s)"
  by (induction ops arbitrary: s) (auto intro: step_inv)

lemma run_prefix_inv: "inv s \<Longrightarrow> inv (fold step (take n ops) s)"
  by (rule run_inv)

end

text \<open>
  A block walk: the loop shape of every record parser of the source. It reads entries at
  an offset until the step refuses; the provider promises that each step starts inside the
  limit with room for a minimal entry and moves forward by at least that much, from which
  the number of entries is bounded by the buffer.
\<close>

locale block_walk =
  fixes walk :: "nat \<Rightarrow> 'r list"
    and step :: "nat \<Rightarrow> ('r \<times> nat) option"
    and lim :: nat
    and k :: nat
  assumes walk_unfold: "walk off = (case step off of None \<Rightarrow> [] | Some (r, off') \<Rightarrow> r # walk off')"
    and step_room: "step off = Some (r, off') \<Longrightarrow> off + k \<le> lim"
    and step_advance: "step off = Some (r, off') \<Longrightarrow> off + k \<le> off'"
    and k_pos: "0 < k"
begin

lemma walk_bound: "off \<le> lim \<Longrightarrow> length (walk off) * k \<le> lim - off"
proof (induction "lim - off" arbitrary: off rule: less_induct)
  case less
  show ?case
  proof (cases "step off")
    case None
    then show ?thesis by (subst walk_unfold) simp
  next
    case (Some p)
    then obtain r off' where p: "step off = Some (r, off')" by (cases p) auto
    have room: "off + k \<le> lim" and adv: "off + k \<le> off'"
      using step_room [OF p] step_advance [OF p] by auto
    have eq: "length (walk off) = Suc (length (walk off'))"
      by (subst walk_unfold) (simp add: p)
    show ?thesis
    proof (cases "off' \<le> lim")
      case True
      then have "length (walk off') * k \<le> lim - off'"
        using less.hyps [of off'] adv room k_pos by simp
      with True show ?thesis using adv room by (simp add: eq)
    next
      case False
      have "step off' = None"
        using step_room [of off'] False by (cases "step off'") auto
      then have "walk off' = []" by (subst walk_unfold) simp
      then show ?thesis using room by (simp add: eq)
    qed
  qed
qed

end

end
