(* ===== verification/Util.thy ===== *)
theory Util
  imports Prelude
begin

text \<open>
  Model of \<open>src/util.rs\<close>: MAC and IPv4 address text, and the Ethernet header walk that
  every receive path shares. A \<open>str\<close> is its UTF-8 byte string; \<open>len()\<close> counts bytes
  and the digit tests of the source reject every byte above ASCII.
\<close>

section \<open>Address text\<close>

datatype util_error =
    MacEmpty | MacFormat string | MacInvalid string | IpEmpty | IpInvalid string | IpTooShort nat
  | FrameTooShort nat | VlanTooShort
  | UnexpectedInnerEtherType u16 | UnexpectedEtherType u16

text \<open>\<open>str::split\<close>: one more piece than separators, empty pieces kept.\<close>

fun split_on :: "char \<Rightarrow> string \<Rightarrow> string list" where
  "split_on c [] = [[]]"
| "split_on c (x # xs) =
     (if x = c then [] # split_on c xs
      else (case split_on c xs of [] \<Rightarrow> [[x]] | p # ps \<Rightarrow> (x # p) # ps))"

fun join_with :: "char \<Rightarrow> string list \<Rightarrow> string" where
  "join_with c [] = []"
| "join_with c [p] = p"
| "join_with c (p # q # ps) = p @ [c] @ join_with c (q # ps)"

definition is_digit :: "char \<Rightarrow> bool" where
  "is_digit c = (48 \<le> (of_char c :: nat) \<and> (of_char c :: nat) \<le> 57)"

definition is_hexdigit :: "char \<Rightarrow> bool" where
  "is_hexdigit c = (is_digit c \<or> (97 \<le> (of_char c :: nat) \<and> (of_char c :: nat) \<le> 102)
     \<or> (65 \<le> (of_char c :: nat) \<and> (of_char c :: nat) \<le> 70))"

definition digit_val :: "char \<Rightarrow> nat" where
  "digit_val c = (let n = of_char c in
     if n \<le> 57 then n - 48 else if 97 \<le> n then n - 87 else n - 55)"

text \<open>
  \<open>u8::from_str_radix\<close> and \<open>parse::<u8>\<close> on a string the caller has checked to be all
  digits: \<open>None\<close> (the source's \<open>Err\<close>) on overflow of 255 and on the empty string.
\<close>

definition parse_u8_radix :: "nat \<Rightarrow> string \<Rightarrow> u8 option" where
  "parse_u8_radix r s =
     (let v = foldl (\<lambda>a c. a * r + digit_val c) 0 s
      in if s = [] \<or> 255 < v then None else Some (of_nat v))"

definition hex_char :: "nat \<Rightarrow> char" where
  "hex_char n = char_of (if n < 10 then 48 + n else 87 + n)"

text \<open>\<open>format!("{b:02x}")\<close>\<close>

definition hex2 :: "u8 \<Rightarrow> string" where
  "hex2 b = [hex_char (unat b div 16), hex_char (unat b mod 16)]"

text \<open>\<open>u8::to_string\<close>\<close>

definition dec_u8 :: "u8 \<Rightarrow> string" where
  "dec_u8 b = (let n = unat b in
     if n < 10 then [char_of (48 + n)]
     else if n < 100 then [char_of (48 + n div 10), char_of (48 + n mod 10)]
     else [char_of (48 + n div 100), char_of (48 + n div 10 mod 10), char_of (48 + n mod 10)])"

fun mac_parts :: "string \<Rightarrow> string list \<Rightarrow> util_error + bytes" where
  "mac_parts s [] = Inr []"
| "mac_parts s (p # ps) =
     (if length p \<noteq> 2 \<or> \<not> list_all is_hexdigit p then Inl (MacFormat s)
      else case parse_u8_radix 16 p of
        None \<Rightarrow> Inl (MacInvalid s)
      | Some b \<Rightarrow> (case mac_parts s ps of Inl e \<Rightarrow> Inl e | Inr bs \<Rightarrow> Inr (b # bs)))"

definition s2mac :: "string \<Rightarrow> util_error + bytes" where
  "s2mac s =
     (if s = [] then Inl MacEmpty
      else let parts = split_on (CHR '':'') s in
        if length parts \<noteq> 6 then Inl (MacFormat s) else mac_parts s parts)"

definition mac2s :: "bytes \<Rightarrow> string" where
  "mac2s mac = join_with (CHR '':'') (map hex2 mac)"

fun ip_parts :: "string \<Rightarrow> string list \<Rightarrow> util_error + bytes" where
  "ip_parts s [] = Inr []"
| "ip_parts s (p # ps) =
     (if p = [] \<or> 3 < length p \<or> \<not> list_all is_digit p then Inl (IpInvalid s)
      else if 1 < length p \<and> hd p = CHR ''0'' then Inl (IpInvalid s)
      else case parse_u8_radix 10 p of
        None \<Rightarrow> Inl (IpInvalid s)
      | Some b \<Rightarrow> (case ip_parts s ps of Inl e \<Rightarrow> Inl e | Inr bs \<Rightarrow> Inr (b # bs)))"

definition ip2s :: "string \<Rightarrow> util_error + bytes" where
  "ip2s s =
     (if s = [] then Inl IpEmpty
      else let parts = split_on (CHR ''.'') s in
        if length parts \<noteq> 4 then Inl (IpInvalid s) else ip_parts s parts)"

definition s2ip :: "bytes \<Rightarrow> util_error + string" where
  "s2ip ip =
     (if length ip < 4 then Inl (IpTooShort (length ip))
      else Inr (join_with (CHR ''.'') (map dec_u8 (take 4 ip))))"

section \<open>Ethernet header\<close>

definition VLAN_TPIDS :: "u16 list" where
  "VLAN_TPIDS = [0x8100, 0x88A8]"

function vlan_walk :: "bytes \<Rightarrow> nat \<Rightarrow> nat option" where
  "vlan_walk frame offset =
     (if offset + 4 \<le> length frame then do {
        tpid \<leftarrow> be16_at frame offset;
        if tpid \<in> set VLAN_TPIDS then vlan_walk frame (offset + 4) else Some offset }
      else Some offset)"
  by pat_completeness auto
termination
  by (relation "measure (\<lambda>(frame, offset). length frame - offset)") auto

declare vlan_walk.simps [simp del]

definition skip_vlan_tags :: "bytes \<Rightarrow> nat option" where
  "skip_vlan_tags frame = vlan_walk frame 12"

definition strip_eth :: "bytes \<Rightarrow> u16 \<Rightarrow> (util_error + bytes) option" where
  "strip_eth frame want =
     (if length frame < 14 then Some (Inl (FrameTooShort (length frame)))
      else do {
        at \<leftarrow> skip_vlan_tags frame;
        if length frame < at + 2 then Some (Inl VlanTooShort)
        else do {
          ethertype \<leftarrow> be16_at frame at;
          if ethertype \<noteq> want then
            Some (Inl (if 12 < at then UnexpectedInnerEtherType ethertype
                       else UnexpectedEtherType ethertype))
          else do { rest \<leftarrow> slice_from frame (at + 2); Some (Inr rest) } } })"

section \<open>Facts\<close>

lemma split_on_nonempty [simp]: "split_on c s \<noteq> []"
  by (induction s) (auto split: list.splits)

lemma join_with_Cons: "ps \<noteq> [] \<Longrightarrow> join_with c (p # ps) = p @ c # join_with c ps"
  by (cases ps) simp_all

lemma join_with_push: "join_with c ((x # p) # ps) = x # join_with c (p # ps)"
  by (cases ps) simp_all

lemma join_split: "join_with c (split_on c s) = s"
proof (induction s)
  case (Cons x xs)
  then show ?case
    by (cases "split_on c xs") (auto simp: join_with_Cons join_with_push)
qed simp

lemma split_on_plain: "c \<notin> set p \<Longrightarrow> split_on c p = [p]"
  by (induction p) auto

lemma split_on_append: "c \<notin> set p \<Longrightarrow> split_on c (p @ c # s) = p # split_on c s"
  by (induction p) (auto split: list.splits)

lemma split_join: "ps \<noteq> [] \<Longrightarrow> \<forall>p \<in> set ps. c \<notin> set p \<Longrightarrow> split_on c (join_with c ps) = ps"
  by (induction c ps rule: join_with.induct) (auto simp: split_on_plain split_on_append)

lemma of_char_lt [simp]: "of_char (c :: char) < (256 :: nat)"
  by simp

lemma digit_val_hex_char: "n < 16 \<Longrightarrow> digit_val (hex_char n) = n"
  by (auto simp: digit_val_def hex_char_def Let_def)

lemma is_hexdigit_hex_char: "n < 16 \<Longrightarrow> is_hexdigit (hex_char n)"
  by (auto simp: is_hexdigit_def is_digit_def hex_char_def)

lemma parse_hex2: "parse_u8_radix 16 (hex2 b) = Some b"
  using unat_u8_lt [of b]
  by (simp add: parse_u8_radix_def hex2_def digit_val_hex_char Let_def)

lemma not_hexdigit_colon: "\<not> is_hexdigit (CHR '':'')"
  by (simp add: is_hexdigit_def is_digit_def)

lemma hex2_facts: "length (hex2 b) = 2" "list_all is_hexdigit (hex2 b)"
  using unat_u8_lt [of b] by (simp_all add: hex2_def is_hexdigit_hex_char)

lemma hex2_no_colon: "CHR '':'' \<notin> set (hex2 b)"
  using hex2_facts(2) [of b] not_hexdigit_colon by (auto simp: list_all_iff)

lemma mac_parts_hex2: "mac_parts s (map hex2 bs) = Inr bs"
  by (induction bs) (simp_all add: parse_hex2 hex2_facts)

text \<open>MAC text is read case-insensitively and written in lower case.\<close>

definition ascii_lower :: "char \<Rightarrow> char" where
  "ascii_lower c = (if 65 \<le> (of_char c :: nat) \<and> (of_char c :: nat) \<le> 90
     then char_of ((of_char c :: nat) + 32) else c)"

lemma char_eq_nat: "c = d \<longleftrightarrow> (of_char c :: nat) = of_char d"
  by simp

lemma of_char_lower: "(of_char (ascii_lower c) :: nat) =
    (if 65 \<le> (of_char c :: nat) \<and> (of_char c :: nat) \<le> 90 then of_char c + 32 else of_char c)"
  by (simp add: ascii_lower_def)

lemma ascii_lower_colon: "ascii_lower c = CHR '':'' \<longleftrightarrow> c = CHR '':''"
  unfolding char_eq_nat of_char_lower by simp

lemma is_hexdigit_lower: "is_hexdigit (ascii_lower c) \<longleftrightarrow> is_hexdigit c"
  by (auto simp: is_hexdigit_def is_digit_def of_char_lower)

lemma digit_val_lower: "is_hexdigit c \<Longrightarrow> digit_val (ascii_lower c) = digit_val c"
  by (auto simp: is_hexdigit_def is_digit_def digit_val_def of_char_lower Let_def)

lemma digit_val_lt16: "is_hexdigit c \<Longrightarrow> digit_val c < 16"
  by (auto simp: is_hexdigit_def is_digit_def digit_val_def Let_def)

lemma hex_char_digit_val: "is_hexdigit c \<Longrightarrow> hex_char (digit_val c) = ascii_lower c"
  unfolding char_eq_nat of_char_lower
  by (auto simp: is_hexdigit_def is_digit_def digit_val_def hex_char_def Let_def)

lemma split_on_lower: "split_on (CHR '':'') (map ascii_lower s) = map (map ascii_lower) (split_on (CHR '':'') s)"
  by (induction s) (auto simp: ascii_lower_colon split: list.splits)

lemma parse_lower2:
  assumes "length p = 2" "list_all is_hexdigit p"
  shows "parse_u8_radix 16 (map ascii_lower p) = parse_u8_radix 16 p"
    and "\<exists>b. parse_u8_radix 16 p = Some b \<and> hex2 b = map ascii_lower p"
proof -
  obtain c d where p: "p = [c, d]" using assms(1) by (auto simp: length_Suc_conv eval_nat_numeral)
  have h: "is_hexdigit c" "is_hexdigit d" using assms(2) p by auto
  show "parse_u8_radix 16 (map ascii_lower p) = parse_u8_radix 16 p"
    by (simp add: p parse_u8_radix_def digit_val_lower h)
  let ?v = "digit_val c * 16 + digit_val d"
  have v: "?v < 256" using digit_val_lt16 [OF h(1)] digit_val_lt16 [OF h(2)] by simp
  have "unat (of_nat ?v :: u8) = ?v" by (rule unat_of_nat_u8 [OF v])
  then have "hex2 (of_nat ?v) = map ascii_lower p"
    using digit_val_lt16 [OF h(2)] by (simp add: hex2_def p hex_char_digit_val h)
  then show "\<exists>b. parse_u8_radix 16 p = Some b \<and> hex2 b = map ascii_lower p"
    using v by (auto simp: p parse_u8_radix_def)
qed

lemma mac_parts_lower: "mac_parts t (map (map ascii_lower) ps) = Inr bs \<longleftrightarrow> mac_parts s ps = Inr bs"
proof (induction ps arbitrary: bs)
  case (Cons p ps)
  have la: "list_all is_hexdigit (map ascii_lower p) = list_all is_hexdigit p"
    by (induction p) (simp_all add: is_hexdigit_lower)
  show ?case
  proof (cases "length p = 2 \<and> list_all is_hexdigit p")
    case True
    then obtain b where b: "parse_u8_radix 16 p = Some b" using parse_lower2(2) by blast
    have b': "parse_u8_radix 16 (map ascii_lower p) = Some b" using parse_lower2(1) True b by simp
    show ?thesis using Cons.IH [of "tl bs"] True
      by (cases bs) (auto simp: b b' la split: sum.splits)
  next
    case False
    then show ?thesis by (auto simp: la)
  qed
qed simp

lemma mac_parts_map_hex2: "mac_parts s ps = Inr bs \<Longrightarrow> map hex2 bs = map (map ascii_lower) ps"
proof (induction ps arbitrary: bs)
  case (Cons p ps)
  then have p: "length p = 2" "list_all is_hexdigit p" by (auto split: if_splits)
  obtain b where "parse_u8_radix 16 p = Some b" "hex2 b = map ascii_lower p"
    using parse_lower2(2) [OF p] by blast
  with Cons p show ?case by (auto split: sum.splits)
qed simp

lemma s2mac_mac2s: "length m = 6 \<Longrightarrow> s2mac (mac2s m) = Inr m"
proof -
  assume m: "length m = 6"
  then have ne: "map hex2 m \<noteq> []" by auto
  have "split_on (CHR '':'') (mac2s m) = map hex2 m"
    unfolding mac2s_def using ne hex2_no_colon by (intro split_join) auto
  moreover have "mac2s m \<noteq> []"
    using m calculation by (cases "mac2s m") (auto simp: length_Suc_conv)
  ultimately show ?thesis using m by (simp add: s2mac_def mac_parts_hex2)
qed

lemma s2mac_lower: "s2mac (map ascii_lower s) = Inr m \<longleftrightarrow> s2mac s = Inr m"
  by (auto simp: s2mac_def split_on_lower mac_parts_lower Let_def)

lemma mac_parts_length: "mac_parts s ps = Inr bs \<Longrightarrow> length bs = length ps"
  by (induction ps arbitrary: bs) (auto split: if_splits option.splits sum.splits)

lemma s2mac_exact:
  assumes "s2mac s = Inr m"
  shows "length m = 6" and "mac2s m = map ascii_lower s"
proof -
  let ?ps = "split_on (CHR '':'') s"
  from assms have ps: "length ?ps = 6" "mac_parts s ?ps = Inr m"
    by (auto simp: s2mac_def Let_def split: if_splits)
  show "length m = 6" using ps mac_parts_length by metis
  have "mac2s m = join_with (CHR '':'') (split_on (CHR '':'') (map ascii_lower s))"
    using mac_parts_map_hex2 [OF ps(2)] by (simp add: mac2s_def split_on_lower)
  then show "mac2s m = map ascii_lower s" by (simp add: join_split)
qed

text \<open>Dotted-decimal text: the octet writer produces exactly the text the reader accepts.\<close>

lemma not_digit_dot: "\<not> is_digit (CHR ''.'')"
  by (simp add: is_digit_def)

lemma digit_char: "n < 10 \<Longrightarrow> is_digit (char_of (48 + n)) \<and> digit_val (char_of (48 + n)) = n"
  by (auto simp: is_digit_def digit_val_def Let_def)

lemma digit_back: "is_digit c \<Longrightarrow> digit_val c < 10 \<and> char_of (48 + digit_val c) = c"
  by (auto simp: is_digit_def digit_val_def Let_def)

lemma digit_zero: "is_digit c \<Longrightarrow> digit_val c = 0 \<longleftrightarrow> c = CHR ''0''"
  unfolding char_eq_nat by (auto simp: is_digit_def digit_val_def Let_def)

definition ip_part_ok :: "string \<Rightarrow> bool" where
  "ip_part_ok p = (p \<noteq> [] \<and> length p \<le> 3 \<and> list_all is_digit p \<and> \<not> (1 < length p \<and> hd p = CHR ''0''))"

lemma dec_join: "(n div 100 * 10 + n div 10 mod 10) * 10 + n mod 10 = (n :: nat)"
proof -
  have "n div 100 = n div 10 div 10" by (simp flip: div_mult2_eq)
  then have "n div 100 * 10 + n div 10 mod 10 = n div 10" by (simp only: div_mult_mod_eq)
  then show ?thesis by (simp only: div_mult_mod_eq)
qed

lemma dec_digits:
  assumes "a < 10" "b < 10" "c < (10 :: nat)"
  shows "(100 * a + 10 * b + c) div 100 = a" and "(100 * a + 10 * b + c) div 10 mod 10 = b"
    and "(100 * a + 10 * b + c) mod 10 = c"
proof -
  show "(100 * a + 10 * b + c) div 100 = a" by (rule div_nat_eqI) (use assms in simp_all)
  have "(100 * a + 10 * b + c) div 10 = 10 * a + b" by (rule div_nat_eqI) (use assms in simp_all)
  then show "(100 * a + 10 * b + c) div 10 mod 10 = b" using assms by simp
  have "100 * a + 10 * b + c = c + 10 * (10 * a + b)" by simp
  then show "(100 * a + 10 * b + c) mod 10 = c" using assms by (simp only: mod_mult_self2) simp
qed

lemma dec_u8_ok: "ip_part_ok (dec_u8 b)" and parse_dec_u8: "parse_u8_radix 10 (dec_u8 b) = Some b"
proof -
  let ?n = "unat b"
  have n: "?n < 256" by (rule unat_u8_lt)
  consider (one) "?n < 10" | (two) "10 \<le> ?n" "?n < 100" | (three) "100 \<le> ?n" by linarith
  then have "ip_part_ok (dec_u8 b) \<and> parse_u8_radix 10 (dec_u8 b) = Some b"
  proof cases
    case one
    then show ?thesis
      by (simp add: ip_part_ok_def dec_u8_def parse_u8_radix_def digit_char Let_def)
  next
    case two
    have d: "?n div 10 < 10" "?n mod 10 < 10" "?n div 10 \<noteq> 0" using two by auto
    have "char_of (48 + ?n div 10) \<noteq> CHR ''0''"
      using digit_zero [of "char_of (48 + ?n div 10)"] digit_char [OF d(1)] d(3) by simp
    then show ?thesis using two digit_char [OF d(1)] digit_char [OF d(2)] n
      by (simp add: ip_part_ok_def dec_u8_def parse_u8_radix_def Let_def)
  next
    case three
    have d: "?n div 100 < 10" "?n div 10 mod 10 < 10" "?n mod 10 < 10" "?n div 100 \<noteq> 0"
      using three n by auto
    have ne: "char_of (48 + ?n div 100) \<noteq> CHR ''0''"
      using digit_zero [of "char_of (48 + ?n div 100)"] digit_char [OF d(1)] d(4) by simp
    have v: "(?n div 100 * 10 + ?n div 10 mod 10) * 10 + ?n mod 10 = ?n" by (rule dec_join)
    have eq: "dec_u8 b = [char_of (48 + ?n div 100), char_of (48 + ?n div 10 mod 10), char_of (48 + ?n mod 10)]"
      using three by (simp add: dec_u8_def Let_def)
    have "foldl (\<lambda>a c. a * 10 + digit_val c) 0 (dec_u8 b) = ?n"
      unfolding eq using v by (simp only: foldl.simps digit_char [OF d(1)] digit_char [OF d(2)]
          digit_char [OF d(3)] mult_zero_left add_0)
    moreover have "ip_part_ok (dec_u8 b)"
      unfolding eq using digit_char [OF d(1)] digit_char [OF d(2)] digit_char [OF d(3)] ne
      by (simp add: ip_part_ok_def)
    ultimately show ?thesis using n by (simp add: parse_u8_radix_def Let_def eq)
  qed
  then show "ip_part_ok (dec_u8 b)" and "parse_u8_radix 10 (dec_u8 b) = Some b" by auto
qed

lemma dec_parse_u8:
  assumes ok: "ip_part_ok p" and p: "parse_u8_radix 10 p = Some b"
  shows "dec_u8 b = p"
proof -
  let ?v = "foldl (\<lambda>a c. a * 10 + digit_val c) 0 p"
  have v: "?v < 256" "b = of_nat ?v"
    using p by (auto simp: parse_u8_radix_def Let_def split: if_splits)
  have n: "unat b = ?v" unfolding v(2) by (rule unat_of_nat_u8 [OF v(1)])
  consider (one) c where "p = [c]" | (two) c d where "p = [c, d]" | (three) c d e where "p = [c, d, e]"
    using ok by (cases p rule: remdups_adj.cases; fastforce simp: ip_part_ok_def neq_Nil_conv length_Suc_conv le_Suc_eq numeral_3_eq_3)
  then show ?thesis
  proof cases
    case one
    then show ?thesis using ok n digit_back [of c]
      by (simp add: ip_part_ok_def dec_u8_def Let_def)
  next
    case two
    have d: "is_digit c" "is_digit d" "c \<noteq> CHR ''0''" using ok two by (auto simp: ip_part_ok_def)
    have "digit_val c \<noteq> 0" "digit_val c < 10" "digit_val d < 10"
      using d digit_zero digit_back by auto
    then have "digit_val c * 10 + digit_val d < 100" by linarith
    with \<open>digit_val c \<noteq> 0\<close> \<open>digit_val d < 10\<close> show ?thesis
      using two n digit_back d by (simp add: dec_u8_def Let_def)
  next
    case three
    have d: "is_digit c" "is_digit d" "is_digit e" "c \<noteq> CHR ''0''"
      using ok three by (auto simp: ip_part_ok_def)
    have b: "digit_val c \<noteq> 0" "digit_val c < 10" "digit_val d < 10" "digit_val e < 10"
      using d digit_zero digit_back by auto
    have n3: "unat b = 100 * digit_val c + 10 * digit_val d + digit_val e"
      using n three by simp
    have "unat b div 100 = digit_val c" "unat b div 10 mod 10 = digit_val d" "unat b mod 10 = digit_val e"
      unfolding n3 using dec_digits [OF b(2-4)] by auto
    then show ?thesis using three n3 b digit_back d by (simp add: dec_u8_def Let_def)
  qed
qed

lemma ip_parts_cons: "ip_parts s (p # ps) = Inr bs \<longleftrightarrow>
    (\<exists>b bs'. ip_part_ok p \<and> parse_u8_radix 10 p = Some b \<and> ip_parts s ps = Inr bs' \<and> bs = b # bs')"
  by (auto simp: ip_part_ok_def split: option.splits sum.splits)

lemma ip_parts_iff: "ip_parts s ps = Inr bs \<longleftrightarrow> map dec_u8 bs = ps"
proof (induction ps arbitrary: bs)
  case (Cons p ps)
  show ?case unfolding ip_parts_cons
    by (auto simp: Cons.IH dec_parse_u8 dec_u8_ok parse_dec_u8)
qed (auto)

lemma dec_u8_no_dot: "CHR ''.'' \<notin> set (dec_u8 b)"
  using dec_u8_ok [of b] not_digit_dot by (auto simp: ip_part_ok_def list_all_iff)

lemma ip2s_iff: "ip2s s = Inr ip \<longleftrightarrow> length ip = 4 \<and> s2ip ip = Inr s"
proof
  assume "ip2s s = Inr ip"
  then have l: "length (split_on (CHR ''.'') s) = 4" and m: "map dec_u8 ip = split_on (CHR ''.'') s"
    by (auto simp: ip2s_def Let_def ip_parts_iff split: if_splits)
  have "length ip = 4" using l m by (metis length_map)
  then show "length ip = 4 \<and> s2ip ip = Inr s" using m by (simp add: s2ip_def join_split)
next
  assume a: "length ip = 4 \<and> s2ip ip = Inr s"
  then have s: "s = join_with (CHR ''.'') (map dec_u8 ip)" by (auto simp: s2ip_def)
  have "split_on (CHR ''.'') s = map dec_u8 ip"
    unfolding s using a dec_u8_no_dot by (intro split_join) auto
  moreover have "s \<noteq> []" using a calculation by (cases s) (auto simp: length_Suc_conv eval_nat_numeral)
  ultimately show "ip2s s = Inr ip" using a by (simp add: ip2s_def ip_parts_iff)
qed

text \<open>
  The VLAN walk never panics, moves in whole tags and leaves room for whatever the caller
  checks next.
\<close>

lemma vlan_walk_runs: "runs (vlan_walk frame offset) (\<lambda>r. offset \<le> r \<and> (r = offset \<or> r \<le> length frame))"
proof (induction frame offset rule: vlan_walk.induct)
  case (1 frame offset)
  show ?case
  proof (cases "offset + 4 \<le> length frame \<and> rd16 frame offset \<in> set VLAN_TPIDS")
    case True
    then have "runs (vlan_walk frame (offset + 4)) (\<lambda>r. offset + 4 \<le> r \<and> (r = offset + 4 \<or> r \<le> length frame))"
      using 1 by simp
    then have "runs (vlan_walk frame (offset + 4)) (\<lambda>r. offset \<le> r \<and> (r = offset \<or> r \<le> length frame))"
      by (rule runs_mono) (use True in auto)
    with True show ?thesis by (subst vlan_walk.simps) (simp add: runs_bind)
  next
    case False
    then show ?thesis by (subst vlan_walk.simps) (auto simp: runs_bind)
  qed
qed

lemma skip_vlan_tags_runs:
  "runs (skip_vlan_tags frame) (\<lambda>r. 12 \<le> r \<and> (r = 12 \<or> r \<le> length frame))"
  unfolding skip_vlan_tags_def by (rule vlan_walk_runs)

lemma skip_vlan_tags_Some:
  obtains at where "skip_vlan_tags frame = Some at" "12 \<le> at" "at = 12 \<or> at \<le> length frame"
  using skip_vlan_tags_runs [of frame] by (auto simp: runs_iff)

lemma vlan_walk_stop:
  "\<not> (offset + 4 \<le> length frame \<and> rd16 frame offset \<in> set VLAN_TPIDS) \<Longrightarrow> vlan_walk frame offset = Some offset"
  by (subst vlan_walk.simps) auto

lemma vlan_walk_tag:
  "offset + 4 \<le> length frame \<Longrightarrow> rd16 frame offset \<in> set VLAN_TPIDS \<Longrightarrow>
   vlan_walk frame offset = vlan_walk frame (offset + 4)"
  by (subst vlan_walk.simps) simp

text \<open>An 802.1Q tag: one of the two TPIDs and any tag control information.\<close>

definition vlan_tag :: "u16 \<times> u16 \<Rightarrow> bytes" where
  "vlan_tag t = to_be16 (fst t) @ to_be16 (snd t)"

lemma length_vlan_tags [simp]: "length (concat (map vlan_tag ts)) = 4 * length ts"
  by (induction ts) (simp_all add: vlan_tag_def)

lemma vlan_walk_tags:
  assumes "\<forall>t \<in> set ts. fst t \<in> set VLAN_TPIDS" and "w \<notin> set VLAN_TPIDS"
  shows "vlan_walk (pre @ concat (map vlan_tag ts) @ to_be16 w @ rest) (length pre)
         = Some (length pre + 4 * length ts)"
  using assms
proof (induction ts arbitrary: pre)
  case Nil
  then show ?case by (intro vlan_walk_stop [THEN trans]) (auto simp: rd16_skip)
next
  case (Cons t ts)
  let ?f = "pre @ concat (map vlan_tag (t # ts)) @ to_be16 w @ rest"
  have f: "?f = (pre @ vlan_tag t) @ concat (map vlan_tag ts) @ to_be16 w @ rest" by simp
  have l: "length (pre @ vlan_tag t) = length pre + 4" by (simp add: vlan_tag_def)
  have "rd16 ?f (length pre) = fst t" by (simp add: vlan_tag_def rd16_skip)
  then have "vlan_walk ?f (length pre) = vlan_walk ?f (length pre + 4)"
    using Cons.prems by (intro vlan_walk_tag) (auto simp: vlan_tag_def)
  also have "\<dots> = Some (length pre + 4 + 4 * length ts)"
    using Cons.IH [of "pre @ vlan_tag t"] Cons.prems unfolding f l by simp
  finally show ?case by simp
qed

lemma strip_eth_tagged:
  assumes "length dst = 6" and "length src = 6"
    and "\<forall>t \<in> set ts. fst t \<in> set VLAN_TPIDS" and "want \<notin> set VLAN_TPIDS"
  shows "strip_eth (dst @ src @ concat (map vlan_tag ts) @ to_be16 want @ payload) want
         = Some (Inr payload)"
proof -
  let ?f = "dst @ src @ concat (map vlan_tag ts) @ to_be16 want @ payload"
  have at: "skip_vlan_tags ?f = Some (12 + 4 * length ts)"
    using vlan_walk_tags [of ts want "dst @ src" payload] assms by (simp add: skip_vlan_tags_def)
  have rd: "rd16 ?f (12 + 4 * length ts) = want" using assms by (simp add: wire_simps)
  show ?thesis using assms(1,2) at rd by (simp add: strip_eth_def)
qed

text \<open>
  A tagged and an untagged frame are handled identically: whatever 802.1Q or 802.1ad tags
  stand between the addresses and the EtherType, \<open>strip_eth\<close> returns exactly the payload
  behind the requested EtherType.
\<close>

theorem strip_eth_tags:
  assumes "length dst = 6" and "length src = 6"
    and "\<forall>t \<in> set ts. fst t \<in> set VLAN_TPIDS" and "want \<notin> set VLAN_TPIDS"
  shows "strip_eth (dst @ src @ concat (map vlan_tag ts) @ to_be16 want @ payload) want
         = Some (Inr payload)"
  using assms by (rule strip_eth_tagged)

theorem strip_eth_tags_witness:
  "strip_eth ([1,2,3,4,5,6] @ [6,5,4,3,2,1] @ concat (map vlan_tag [(0x88A8, 5), (0x8100, 0xC000)])
     @ to_be16 0x8892 @ [7]) 0x8892 = Some (Inr [7])"
  by (rule strip_eth_tags) (simp_all add: VLAN_TPIDS_def)

lemma strip_eth_runs: "runs (strip_eth frame want)
    (\<lambda>r. \<forall>p. r = Inr p \<longrightarrow> 14 + length p \<le> length frame)"
proof -
  obtain at where "skip_vlan_tags frame = Some at" "12 \<le> at" "at = 12 \<or> at \<le> length frame"
    by (rule skip_vlan_tags_Some)
  then show ?thesis by (auto simp: strip_eth_def runs_bind)
qed

lemma strip_eth_Some: obtains r where "strip_eth frame want = Some r"
  using strip_eth_runs [of frame want] by (auto simp: runs_iff)

text \<open>
  \<open>ip2s\<close> accepts exactly the canonical dotted-decimal text that \<open>s2ip\<close> writes: reading
  and writing an address are inverse to each other, and every other text is an error.
\<close>

theorem ip_text_exact: "ip2s s = Inr ip \<longleftrightarrow> length ip = 4 \<and> s2ip ip = Inr s"
  by (rule ip2s_iff)

text \<open>
  \<open>s2mac\<close> accepts exactly the texts that are, up to letter case, what \<open>mac2s\<close> writes for
  six bytes, and returns those bytes.
\<close>

theorem mac_text_exact: "s2mac s = Inr m \<longleftrightarrow> length m = 6 \<and> mac2s m = map ascii_lower s"
proof
  assume "s2mac s = Inr m"
  then show "length m = 6 \<and> mac2s m = map ascii_lower s" by (simp add: s2mac_exact)
next
  assume "length m = 6 \<and> mac2s m = map ascii_lower s"
  then have "s2mac (map ascii_lower s) = Inr m" using s2mac_mac2s by metis
  then show "s2mac s = Inr m" by (simp add: s2mac_lower)
qed

section \<open>Strings of the standard library\<close>

text \<open>A \<open>str\<close> is its UTF-8 byte string, a character holding one byte.\<close>

definition byte_of :: "char \<Rightarrow> nat" where
  "byte_of c = of_char c"

text \<open>The length of the UTF-8 encoded whitespace character a string starts with, or 0.\<close>

fun ws_len :: "nat list \<Rightarrow> nat" where
  "ws_len (a # rest) =
     (if 9 \<le> a \<and> a \<le> 13 \<or> a = 32 then 1
      else (case rest of
          [] \<Rightarrow> 0
        | b # rest' \<Rightarrow>
            (if a = 0xC2 \<and> (b = 0x85 \<or> b = 0xA0) then 2
             else (case rest' of
                 [] \<Rightarrow> 0
               | c # _ \<Rightarrow>
                   (if a = 0xE1 \<and> b = 0x9A \<and> c = 0x80
                      \<or> a = 0xE2 \<and> b = 0x80 \<and> (0x80 \<le> c \<and> c \<le> 0x8A \<or> c = 0xA8 \<or> c = 0xA9 \<or> c = 0xAF)
                      \<or> a = 0xE2 \<and> b = 0x81 \<and> c = 0x9F
                      \<or> a = 0xE3 \<and> b = 0x80 \<and> c = 0x80
                    then 3 else 0)))))"
| "ws_len [] = 0"

lemma ws_len_le: "ws_len bs \<le> length bs"
  by (cases bs) (auto split: list.splits)

function trim_start :: "string \<Rightarrow> string" where
  "trim_start s = (let n = ws_len (map byte_of s) in if n = 0 then s else trim_start (drop n s))"
  by pat_completeness auto
termination
proof (relation "measure length")
  fix s and n
  assume "n = ws_len (map byte_of s)" and "n \<noteq> 0"
  then show "(drop n s, s) \<in> measure length" using ws_len_le [of "map byte_of s"] by auto
qed simp

declare trim_start.simps [simp del]

text \<open>The same at the end: the whitespace character the reversed byte string starts with.\<close>

definition ws_len_back :: "nat list \<Rightarrow> nat" where
  "ws_len_back bs =
     (if bs \<noteq> [] \<and> ws_len (rev (take 1 bs)) = 1 then 1
      else if 2 \<le> length bs \<and> ws_len (rev (take 2 bs)) = 2 then 2
      else if 3 \<le> length bs \<and> ws_len (rev (take 3 bs)) = 3 then 3 else 0)"

function trim_back :: "string \<Rightarrow> string" where
  "trim_back s = (let n = ws_len_back (map byte_of s) in if n = 0 then s else trim_back (drop n s))"
  by pat_completeness auto
termination
  by (relation "measure length") (auto simp: ws_len_back_def split: if_splits)

declare trim_back.simps [simp del]

definition trim_utf8 :: "string \<Rightarrow> string" where
  "trim_utf8 s = rev (trim_back (rev (trim_start s)))"

text \<open>
  \<open>String::from_utf8_lossy\<close>: the length of the well-formed sequence the bytes start with, or,
  marked \<open>False\<close>, of the ill-formed prefix that one replacement character stands for.
\<close>

definition cont :: "u8 \<Rightarrow> bool" where
  "cont b \<longleftrightarrow> 0x80 \<le> b \<and> b \<le> 0xBF"

definition second_ok :: "u8 \<Rightarrow> u8 \<Rightarrow> bool" where
  "second_ok a b \<longleftrightarrow>
     (if a = 0xE0 then 0xA0 \<le> b \<and> b \<le> 0xBF else if a = 0xED then 0x80 \<le> b \<and> b \<le> 0x9F
      else if a = 0xF0 then 0x90 \<le> b \<and> b \<le> 0xBF else if a = 0xF4 then 0x80 \<le> b \<and> b \<le> 0x8F else cont b)"

definition utf8_step :: "u8 \<Rightarrow> bytes \<Rightarrow> bool \<times> nat" where
  "utf8_step a bs =
     (let need_n = (if a < 0x80 then 0 else if 0xC2 \<le> a \<and> a \<le> 0xDF then 1 else if 0xE0 \<le> a \<and> a \<le> 0xEF then 2
                    else if 0xF0 \<le> a \<and> a \<le> 0xF4 then 3 else 9);
          got = (if need_n = 9 then 0
                 else case take need_n bs of [] \<Rightarrow> 0
                   | b # cs \<Rightarrow> if second_ok a b then 1 + length (takeWhile cont cs) else 0)
      in if got = need_n then (True, 1 + need_n) else (False, 1 + got))"

fun lossy_fuel :: "nat \<Rightarrow> bytes \<Rightarrow> bytes" where
  "lossy_fuel 0 bs = []"
| "lossy_fuel (Suc n) [] = []"
| "lossy_fuel (Suc n) (a # bs) =
     (case utf8_step a bs of
        (True, k) \<Rightarrow> take k (a # bs) @ lossy_fuel n (drop k (a # bs))
      | (False, k) \<Rightarrow> [0xEF, 0xBF, 0xBD] @ lossy_fuel n (drop k (a # bs)))"

definition from_utf8_lossy :: "bytes \<Rightarrow> bytes" where
  "from_utf8_lossy bs = lossy_fuel (length bs) bs"

definition string_of :: "bytes \<Rightarrow> string" where
  "string_of bs = map (\<lambda>b. char_of (unat b)) bs"

lemma utf8_step_ascii: "a < 0x80 \<Longrightarrow> utf8_step a bs = (True, 1)"
  by (simp add: utf8_step_def)

lemma lossy_ascii: "\<forall>b \<in> set bs. b < 0x80 \<Longrightarrow> from_utf8_lossy bs = bs"
  unfolding from_utf8_lossy_def by (induction bs) (simp_all add: utf8_step_ascii)

end
