(* ===== verification/Gsdml.thy ===== *)
theory Gsdml
  imports Util
begin

text \<open>
  Model of \<open>src/gsdml.rs\<close>: integer and slot-list attributes, the IO size of a submodule, the
  module catalog, and the IO-slot lists that cyclic setup consumes. The XML tree comes from
  the \<open>roxmltree\<close> package; its accessors are the parameter record \<open>xml_api\<close>. A text is
  its list of code points, restricted to those below 256.
\<close>

section \<open>Attribute syntax\<close>

datatype int_error = ParseEmpty | InvalidDigit | PosOverflow

datatype gsdml_error =
    InvalidInteger string int_error
  | InvalidLength string int_error
  | LengthCap string
  | InvalidSlotPart string int_error
  | SlotRangeCap string
  | SlotCap
  | NoDap
  | DapNotFound string
  | MalformedXml string

text \<open>\<open>char::is_whitespace\<close> below code point 256, \<open>str::trim\<close> and \<open>split_whitespace\<close>.\<close>

definition is_ws :: "char \<Rightarrow> bool" where
  "is_ws c = (let n = (of_char c :: nat) in 9 \<le> n \<and> n \<le> 13 \<or> n = 32 \<or> n = 133 \<or> n = 160)"

definition trim :: "string \<Rightarrow> string" where
  "trim s = rev (dropWhile is_ws (rev (dropWhile is_ws s)))"

fun words_acc :: "string \<Rightarrow> string \<Rightarrow> string list" where
  "words_acc acc [] = (if acc = [] then [] else [rev acc])"
| "words_acc acc (c # cs) =
     (if is_ws c then (if acc = [] then words_acc [] cs else rev acc # words_acc [] cs)
      else words_acc (c # acc) cs)"

definition split_whitespace :: "string \<Rightarrow> string list" where
  "split_whitespace s = words_acc [] s"

text \<open>The integer parser of the standard library for unsigned types with maximum \<open>mx\<close>.\<close>

definition digit_ok :: "nat \<Rightarrow> char \<Rightarrow> bool" where
  "digit_ok r c = (if r = 16 then is_hexdigit c else is_digit c)"

fun parse_digits :: "nat \<Rightarrow> nat \<Rightarrow> nat \<Rightarrow> string \<Rightarrow> int_error + nat" where
  "parse_digits r mx acc [] = Inr acc"
| "parse_digits r mx acc (c # cs) =
     (if \<not> digit_ok r c then Inl InvalidDigit
      else let v = acc * r + digit_val c in
        if mx < v then Inl PosOverflow else parse_digits r mx v cs)"

definition parse_uint :: "nat \<Rightarrow> nat \<Rightarrow> string \<Rightarrow> int_error + nat" where
  "parse_uint r mx s =
     (case s of [] \<Rightarrow> Inl ParseEmpty
      | c # cs \<Rightarrow> if c \<in> {CHR ''+'', CHR ''-''} \<and> cs = [] then Inl InvalidDigit
                  else parse_digits r mx 0 (if c = CHR ''+'' then cs else s))"

definition map_err :: "('e \<Rightarrow> 'f) \<Rightarrow> 'e + 'a \<Rightarrow> 'f + 'a" where
  "map_err f r = (case r of Inl e \<Rightarrow> Inl (f e) | Inr x \<Rightarrow> Inr x)"

definition parse_int :: "string option \<Rightarrow> gsdml_error + u32" where
  "parse_int value =
     (case value of None \<Rightarrow> Inr 0
      | Some value \<Rightarrow>
          (let value = trim value;
               parsed = (if take 2 value = ''0x'' \<or> take 2 value = ''0X''
                         then parse_uint 16 4294967295 (drop 2 value)
                         else parse_uint 10 4294967295 value)
           in map_err (InvalidInteger value) (map_sum id of_nat parsed)))"

definition gsdml_type_size :: "string \<Rightarrow> nat option" where
  "gsdml_type_size data_type = map_of
     [(''Boolean'', 1), (''Integer8'', 1), (''Integer16'', 2), (''Integer32'', 4),
      (''Integer64'', 8), (''Unsigned8'', 1), (''Unsigned16'', 2), (''Unsigned32'', 4),
      (''Unsigned64'', 8), (''Float32'', 4), (''Float64'', 8), (''TimeStamp'', 8)] data_type"

definition MAX_SLOTS :: nat where "MAX_SLOTS = 4096"
definition MAX_IO_DATA_LEN :: nat where "MAX_IO_DATA_LEN = 0x10000"

text \<open>\<open>str::split_once("..")\<close>: around the first occurrence.\<close>

fun split_dots :: "string \<Rightarrow> (string \<times> string) option" where
  "split_dots (a # b # s) =
     (if a = CHR ''.'' \<and> b = CHR ''.'' then Some ([], s)
      else map_option (\<lambda>(l, r). (a # l, r)) (split_dots (b # s)))"
| "split_dots _ = None"

definition parse_slot_num :: "string \<Rightarrow> string \<Rightarrow> gsdml_error + nat" where
  "parse_slot_num part s = map_err (InvalidSlotPart part) (parse_uint 10 65535 s)"

definition slot_spec_part :: "nat list \<Rightarrow> string \<Rightarrow> gsdml_error + nat list" where
  "slot_spec_part result part =
     (case split_dots part of
        Some (s, e) \<Rightarrow>
          rbind (parse_slot_num part s) (\<lambda>start. rbind (parse_slot_num part e) (\<lambda>en.
            let span = (en - start) + 1 in
            if start \<le> en \<and> MAX_SLOTS < length result + span then Inl (SlotRangeCap part)
            else Inr (result @ [start ..< Suc en])))
      | None \<Rightarrow>
          if MAX_SLOTS \<le> length result then Inl SlotCap
          else rbind (parse_slot_num part part) (\<lambda>n. Inr (result @ [n])))"

fun slot_spec_parts :: "nat list \<Rightarrow> string list \<Rightarrow> gsdml_error + nat list" where
  "slot_spec_parts result [] = Inr result"
| "slot_spec_parts result (p # ps) =
     rbind (slot_spec_part result p) (\<lambda>result. slot_spec_parts result ps)"

definition parse_slot_spec :: "string option \<Rightarrow> gsdml_error + u16 list" where
  "parse_slot_spec spec =
     (case spec of None \<Rightarrow> Inr []
      | Some spec \<Rightarrow>
          map_sum id (map of_nat)
            (slot_spec_parts [] (split_whitespace
               (map (\<lambda>c. if c = CHR '','' then CHR '' '' else c) spec))))"

section \<open>The XML tree\<close>

text \<open>
  What the parser asks of a node of the XML package: its children and all its descendants in
  document order, whether it is an element, its local tag name, and an attribute.
\<close>

record 'n xml_api =
  xa_children :: "'n \<Rightarrow> 'n list"
  xa_descendants :: "'n \<Rightarrow> 'n list"
  xa_is_element :: "'n \<Rightarrow> bool"
  xa_name :: "'n \<Rightarrow> string"
  xa_attribute :: "'n \<Rightarrow> string \<Rightarrow> string option"

definition is_named :: "'n xml_api \<Rightarrow> string \<Rightarrow> 'n \<Rightarrow> bool" where
  "is_named X local_name n = (xa_is_element X n \<and> xa_name X n = local_name)"

definition find_child :: "'n xml_api \<Rightarrow> 'n \<Rightarrow> string \<Rightarrow> 'n option" where
  "find_child X elem local_name = List.find (is_named X local_name) (xa_children X elem)"

definition findall :: "'n xml_api \<Rightarrow> 'n \<Rightarrow> string \<Rightarrow> 'n list" where
  "findall X elem local_name = filter (is_named X local_name) (xa_children X elem)"

definition find_deep :: "'n xml_api \<Rightarrow> 'n \<Rightarrow> string \<Rightarrow> 'n option" where
  "find_deep X elem local_name = List.find (is_named X local_name) (xa_descendants X elem)"

definition findall_deep :: "'n xml_api \<Rightarrow> 'n \<Rightarrow> string \<Rightarrow> 'n list" where
  "findall_deep X elem local_name = filter (is_named X local_name) (xa_descendants X elem)"

text \<open>\<open>attribute(name).unwrap_or("")\<close>\<close>

definition attr_or_empty :: "'n xml_api \<Rightarrow> 'n \<Rightarrow> string \<Rightarrow> string" where
  "attr_or_empty X n a = (case xa_attribute X n a of None \<Rightarrow> [] | Some t \<Rightarrow> t)"

definition data_item_size :: "'n xml_api \<Rightarrow> 'n \<Rightarrow> gsdml_error + nat" where
  "data_item_size X item =
     (case xa_attribute X item ''Length'' of
        Some l \<Rightarrow> map_err (InvalidLength l) (parse_uint 10 18446744073709551615 l)
      | None \<Rightarrow>
          Inr (case gsdml_type_size (attr_or_empty X item ''DataType'') of None \<Rightarrow> 0 | Some n \<Rightarrow> n))"

fun sum_data_items :: "'n xml_api \<Rightarrow> string \<Rightarrow> nat \<Rightarrow> 'n list \<Rightarrow> gsdml_error + nat" where
  "sum_data_items X direction tot [] = Inr tot"
| "sum_data_items X direction tot (i # is) =
     rbind (data_item_size X i) (\<lambda>add.
       if tot + add \<le> MAX_IO_DATA_LEN then sum_data_items X direction (tot + add) is
       else Inl (LengthCap direction))"

definition parse_io_data_size :: "'n xml_api \<Rightarrow> 'n \<Rightarrow> string \<Rightarrow> gsdml_error + nat" where
  "parse_io_data_size X submodule_elem direction =
     (case find_child X submodule_elem ''IOData'' of None \<Rightarrow> Inr 0
      | Some io_data \<Rightarrow>
          (case find_child X io_data direction of None \<Rightarrow> Inr 0
           | Some dir_elem \<Rightarrow> sum_data_items X direction 0 (findall X dir_elem ''DataItem'')))"

section \<open>The module catalog\<close>

record gsdml_submodule =
  sub_id :: string
  sub_ident :: u32
  sub_input_length :: nat
  sub_output_length :: nat

record item_ref =
  ref_target :: string
  ref_fixed :: "u16 list"
  ref_allowed :: "u16 list"

record gsdml_module =
  mod_id :: string
  mod_ident :: u32
  mod_submodules :: "gsdml_submodule list"
  mod_useable_submodules :: "item_ref list"

record gsdml_system_submodule =
  sys_subslot_number :: u16
  sys_submodule_ident :: u32

record gsdml_dap =
  dap_id :: string
  dap_module_ident :: u32
  dap_submodules :: "gsdml_submodule list"
  dap_system_submodules :: "gsdml_system_submodule list"
  dap_useable_modules :: "item_ref list"

record io_slot =
  ios_slot :: u16
  ios_subslot :: u16
  ios_module_ident :: u32
  ios_submodule_ident :: u32
  ios_input_length :: nat
  ios_output_length :: nat

record device_slot =
  ds_slot :: u16
  ds_subslot :: u16
  ds_module_ident :: u32
  ds_submodule_ident :: u32

record gsdml_device =
  gd_vendor_id :: u16
  gd_device_id :: u16
  gd_daps :: "gsdml_dap list"
  gd_modules :: "gsdml_module list"
  gd_submodule_catalog :: "gsdml_submodule list"

definition get_dap :: "gsdml_device \<Rightarrow> string option \<Rightarrow> gsdml_error + gsdml_dap" where
  "get_dap g id_opt =
     (case gd_daps g of [] \<Rightarrow> Inl NoDap
      | d # ds \<Rightarrow>
          (case id_opt of None \<Rightarrow> Inr d
           | Some i \<Rightarrow> (case List.find (\<lambda>d. dap_id d = i) (gd_daps g) of
                 None \<Rightarrow> Inl (DapNotFound i) | Some d \<Rightarrow> Inr d)))"

definition module_by_id :: "gsdml_device \<Rightarrow> string \<Rightarrow> gsdml_module option" where
  "module_by_id g i = List.find (\<lambda>m. mod_id m = i) (gd_modules g)"

definition catalog_submodule :: "gsdml_device \<Rightarrow> string \<Rightarrow> gsdml_submodule option" where
  "catalog_submodule g i = List.find (\<lambda>s. sub_id s = i) (gd_submodule_catalog g)"

text \<open>\<open>i as u16 + 1\<close> panics where overflow is checked and the cast yields 65535.\<close>

fun virtual_slots :: "u16 \<Rightarrow> u32 \<Rightarrow> nat \<Rightarrow> gsdml_submodule list \<Rightarrow> io_slot list option" where
  "virtual_slots slot_num ident i [] = Some []"
| "virtual_slots slot_num ident i (s # ss) =
     (if as_u16 i = 0xFFFF then None
      else do {
        rest \<leftarrow> virtual_slots slot_num ident (Suc i) ss;
        Some (\<lparr>ios_slot = slot_num, ios_subslot = as_u16 i + 1, ios_module_ident = ident,
               ios_submodule_ident = sub_ident s, ios_input_length = sub_input_length s,
               ios_output_length = sub_output_length s\<rparr> # rest) })"

definition fixed_refs :: "item_ref list \<Rightarrow> (u16 \<times> string) list" where
  "fixed_refs refs = concat (map (\<lambda>r. map (\<lambda>n. (n, ref_target r)) (ref_fixed r)) refs)"

definition resolve_subslots :: "gsdml_module \<Rightarrow> (u16 \<times> string) list \<Rightarrow> (u16 \<times> string) list" where
  "resolve_subslots m subslot_assign =
     fold (\<lambda>(n, i). bt_insert n i) (fixed_refs (mod_useable_submodules m) @ subslot_assign) []"

definition add_useable_submodule_slots ::
    "gsdml_device \<Rightarrow> io_slot list \<Rightarrow> gsdml_module \<Rightarrow> u16 \<Rightarrow> (u16 \<times> string) list \<Rightarrow> io_slot list" where
  "add_useable_submodule_slots g slots m slot_num subslot_assign =
     slots @ List.map_filter (\<lambda>(subslot_num, i).
       map_option (\<lambda>c. \<lparr>ios_slot = slot_num, ios_subslot = subslot_num, ios_module_ident = mod_ident m,
           ios_submodule_ident = sub_ident c, ios_input_length = sub_input_length c,
           ios_output_length = sub_output_length c\<rparr>) (catalog_submodule g i))
       (resolve_subslots m subslot_assign)"

text \<open>The slot assignment a caller gives, or the one of the FixedInSlots attributes.\<close>

definition slot_assignment_of ::
    "gsdml_dap \<Rightarrow> (u16 \<times> string) list option \<Rightarrow> (u16 \<times> string) list" where
  "slot_assignment_of dap slot_assignment =
     (case slot_assignment of Some a \<Rightarrow> a
      | None \<Rightarrow> fold (\<lambda>(n, i). bt_insert n i) (fixed_refs (dap_useable_modules dap)) [])"

fun module_slots ::
    "gsdml_device \<Rightarrow> (u16 \<times> (u16 \<times> string) list) list option \<Rightarrow> io_slot list
      \<Rightarrow> (u16 \<times> string) list \<Rightarrow> io_slot list option" where
  "module_slots g sub_assign slots [] = Some slots"
| "module_slots g sub_assign slots ((slot_num, i) # as) =
     (case module_by_id g i of
        None \<Rightarrow> module_slots g sub_assign slots as
      | Some m \<Rightarrow>
          (if mod_submodules m \<noteq> [] then do {
             vs \<leftarrow> virtual_slots slot_num (mod_ident m) 0 (mod_submodules m);
             module_slots g sub_assign (slots @ vs) as }
           else if mod_useable_submodules m \<noteq> [] then
             (let assign = (case sub_assign of None \<Rightarrow> []
                   | Some a \<Rightarrow> (case map_of a slot_num of None \<Rightarrow> [] | Some x \<Rightarrow> x))
              in module_slots g sub_assign (add_useable_submodule_slots g slots m slot_num assign) as)
           else module_slots g sub_assign slots as))"

definition build_io_slots ::
    "gsdml_device \<Rightarrow> (u16 \<times> string) list option \<Rightarrow> (u16 \<times> (u16 \<times> string) list) list option
      \<Rightarrow> string option \<Rightarrow> (gsdml_error + io_slot list) option" where
  "build_io_slots g slot_assignment sub_assign id_opt =
     (case get_dap g id_opt of Inl e \<Rightarrow> Some (Inl e)
      | Inr dap \<Rightarrow> do {
          vs \<leftarrow> virtual_slots 0 (dap_module_ident dap) 0 (dap_submodules dap);
          (let sys = map (\<lambda>s. \<lparr>ios_slot = 0, ios_subslot = sys_subslot_number s,
                 ios_module_ident = dap_module_ident dap, ios_submodule_ident = sys_submodule_ident s,
                 ios_input_length = 0, ios_output_length = 0\<rparr>) (dap_system_submodules dap)
           in do {
             slots \<leftarrow> module_slots g sub_assign (vs @ sys) (slot_assignment_of dap slot_assignment);
             Some (Inr slots) }) })"

text \<open>The two-level hash map from module ident and submodule ident to the IO lengths.\<close>

type_synonym ident_lookup = "u32 \<rightharpoonup> (u32 \<rightharpoonup> nat \<times> nat)"

definition register :: "u32 \<Rightarrow> u32 \<Rightarrow> nat \<times> nat \<Rightarrow> ident_lookup \<Rightarrow> ident_lookup" where
  "register m s lens lk =
     lk(m \<mapsto> (case lk m of None \<Rightarrow> Map.empty | Some subs \<Rightarrow> subs)(s \<mapsto> lens))"

definition register_submodules :: "u32 \<Rightarrow> gsdml_submodule list \<Rightarrow> ident_lookup \<Rightarrow> ident_lookup" where
  "register_submodules m subs lk =
     fold (\<lambda>s. register m (sub_ident s) (sub_input_length s, sub_output_length s)) subs lk"

definition register_module :: "gsdml_device \<Rightarrow> gsdml_module \<Rightarrow> ident_lookup \<Rightarrow> ident_lookup" where
  "register_module g m lk =
     fold (\<lambda>r lk. case catalog_submodule g (ref_target r) of None \<Rightarrow> lk
         | Some c \<Rightarrow> register (mod_ident m) (sub_ident c) (sub_input_length c, sub_output_length c) lk)
       (mod_useable_submodules m)
       (register_submodules (mod_ident m) (mod_submodules m) lk)"

definition device_lookup :: "gsdml_device \<Rightarrow> gsdml_dap \<Rightarrow> ident_lookup" where
  "device_lookup g dap =
     fold (register_module g) (gd_modules g)
       (fold (\<lambda>s. register (dap_module_ident dap) (sys_submodule_ident s) (0, 0))
          (dap_system_submodules dap)
          (register_submodules (dap_module_ident dap) (dap_submodules dap) Map.empty))"

definition build_io_slots_from_device ::
    "gsdml_device \<Rightarrow> device_slot list \<Rightarrow> string option \<Rightarrow> gsdml_error + io_slot list" where
  "build_io_slots_from_device g device_slots id_opt =
     rbind (get_dap g id_opt) (\<lambda>dap.
       let lk = device_lookup g dap in
       Inr (map (\<lambda>ds.
         let lens = (case lk (ds_module_ident ds) of None \<Rightarrow> (0, 0)
               | Some subs \<Rightarrow> (case subs (ds_submodule_ident ds) of None \<Rightarrow> (0, 0) | Some l \<Rightarrow> l))
         in \<lparr>ios_slot = ds_slot ds, ios_subslot = ds_subslot ds,
             ios_module_ident = ds_module_ident ds, ios_submodule_ident = ds_submodule_ident ds,
             ios_input_length = fst lens, ios_output_length = snd lens\<rparr>) device_slots))"

section \<open>Reading the document\<close>

definition parse_submodule :: "'n xml_api \<Rightarrow> 'n \<Rightarrow> gsdml_error + gsdml_submodule" where
  "parse_submodule X elem =
     rbind (parse_int (xa_attribute X elem ''SubmoduleIdentNumber'')) (\<lambda>ident.
     rbind (parse_io_data_size X elem ''Input'') (\<lambda>il.
     rbind (parse_io_data_size X elem ''Output'') (\<lambda>ol.
     Inr \<lparr>sub_id = attr_or_empty X elem ''ID'', sub_ident = ident,
          sub_input_length = il, sub_output_length = ol\<rparr>)))"

definition parse_virtual_submodules :: "'n xml_api \<Rightarrow> 'n \<Rightarrow> gsdml_error + gsdml_submodule list" where
  "parse_virtual_submodules X parent =
     (case find_child X parent ''VirtualSubmoduleList'' of None \<Rightarrow> Inr []
      | Some vsl \<Rightarrow> traverse (parse_submodule X) (findall X vsl ''VirtualSubmoduleItem''))"

definition parse_system_submodules :: "'n xml_api \<Rightarrow> 'n \<Rightarrow> gsdml_error + gsdml_system_submodule list" where
  "parse_system_submodules X dap_elem =
     (case find_child X dap_elem ''SystemDefinedSubmoduleList'' of None \<Rightarrow> Inr []
      | Some sdsl \<Rightarrow>
          traverse (\<lambda>item.
            rbind (parse_int (xa_attribute X item ''SubslotNumber'')) (\<lambda>n.
            rbind (parse_int (xa_attribute X item ''SubmoduleIdentNumber'')) (\<lambda>i.
            Inr \<lparr>sys_subslot_number = ucast n, sys_submodule_ident = i\<rparr>)))
          (concat (map (findall X sdsl) [''InterfaceSubmoduleItem'', ''PortSubmoduleItem''])))"

definition parse_item_refs ::
    "'n xml_api \<Rightarrow> 'n \<Rightarrow> string \<Rightarrow> string \<Rightarrow> string \<Rightarrow> string \<Rightarrow> string \<Rightarrow> gsdml_error + item_ref list" where
  "parse_item_refs X parent list_tag ref_tag target_attr fixed_attr allowed_attr =
     (case find_child X parent list_tag of None \<Rightarrow> Inr []
      | Some l \<Rightarrow>
          traverse (\<lambda>item.
            rbind (parse_slot_spec (xa_attribute X item fixed_attr)) (\<lambda>f.
            rbind (parse_slot_spec (xa_attribute X item allowed_attr)) (\<lambda>a.
            Inr \<lparr>ref_target = attr_or_empty X item target_attr, ref_fixed = f, ref_allowed = a\<rparr>)))
          (findall X l ref_tag))"

definition parse_dap :: "'n xml_api \<Rightarrow> 'n \<Rightarrow> gsdml_error + gsdml_dap" where
  "parse_dap X e =
     rbind (parse_int (xa_attribute X e ''ModuleIdentNumber'')) (\<lambda>mi.
     rbind (parse_virtual_submodules X e) (\<lambda>subs.
     rbind (parse_system_submodules X e) (\<lambda>sys.
     rbind (parse_item_refs X e ''UseableModules'' ''ModuleItemRef'' ''ModuleItemTarget''
              ''FixedInSlots'' ''AllowedInSlots'') (\<lambda>um.
     Inr \<lparr>dap_id = attr_or_empty X e ''ID'', dap_module_ident = mi, dap_submodules = subs,
          dap_system_submodules = sys, dap_useable_modules = um\<rparr>))))"

definition parse_module :: "'n xml_api \<Rightarrow> 'n \<Rightarrow> gsdml_error + gsdml_module" where
  "parse_module X e =
     rbind (parse_int (xa_attribute X e ''ModuleIdentNumber'')) (\<lambda>mi.
     rbind (parse_virtual_submodules X e) (\<lambda>subs.
     rbind (parse_item_refs X e ''UseableSubmodules'' ''SubmoduleItemRef'' ''SubmoduleItemTarget''
              ''FixedInSubslots'' ''AllowedInSubslots'') (\<lambda>us.
     Inr \<lparr>mod_id = attr_or_empty X e ''ID'', mod_ident = mi, mod_submodules = subs,
          mod_useable_submodules = us\<rparr>)))"

definition parse_gsdml_root :: "'n xml_api \<Rightarrow> 'n \<Rightarrow> gsdml_error + gsdml_device" where
  "parse_gsdml_root X root =
     rbind (case find_deep X root ''DeviceIdentity'' of None \<Rightarrow> Inr (0, 0)
        | Some di \<Rightarrow>
            rbind (parse_int (xa_attribute X di ''VendorID'')) (\<lambda>v.
            rbind (parse_int (xa_attribute X di ''DeviceID'')) (\<lambda>d. Inr (ucast v, ucast d)))) (\<lambda>ids.
     rbind (traverse (parse_submodule X) (findall_deep X root ''SubmoduleItem'')) (\<lambda>catalog.
     rbind (traverse (parse_dap X) (findall_deep X root ''DeviceAccessPointItem'')) (\<lambda>daps.
     rbind (traverse (parse_module X) (findall_deep X root ''ModuleItem'')) (\<lambda>mods.
     Inr \<lparr>gd_vendor_id = fst ids, gd_device_id = snd ids, gd_daps = daps, gd_modules = mods,
          gd_submodule_catalog = catalog\<rparr>))))"

definition parse_gsdml_str ::
    "'n xml_api \<Rightarrow> (string \<Rightarrow> string + 'n) \<Rightarrow> string \<Rightarrow> gsdml_error + gsdml_device" where
  "parse_gsdml_str X document_parse xml =
     (case document_parse xml of Inl e \<Rightarrow> Inl (MalformedXml e) | Inr root \<Rightarrow> parse_gsdml_root X root)"

section \<open>Facts\<close>

lemma slot_spec_part_cap:
  "slot_spec_part res p = Inr ns \<Longrightarrow> length res \<le> MAX_SLOTS \<Longrightarrow> length ns \<le> MAX_SLOTS"
  by (auto simp: slot_spec_part_def rbind_Inr Let_def split: option.splits if_splits prod.splits)

lemma slot_spec_parts_cap:
  "slot_spec_parts res ps = Inr ns \<Longrightarrow> length res \<le> MAX_SLOTS \<Longrightarrow> length ns \<le> MAX_SLOTS"
  by (induction ps arbitrary: res) (auto simp: rbind_Inr dest: slot_spec_part_cap)

lemma parse_slot_spec_cap: "parse_slot_spec spec = Inr ns \<Longrightarrow> length ns \<le> MAX_SLOTS"
  by (cases spec) (auto simp: parse_slot_spec_def map_sum_def split: sum.splits dest!: slot_spec_parts_cap)

lemma sum_data_items_cap:
  "sum_data_items X d t is = Inr n \<Longrightarrow> t \<le> MAX_IO_DATA_LEN \<Longrightarrow> n \<le> MAX_IO_DATA_LEN"
  by (induction "is" arbitrary: t) (auto simp: rbind_Inr split: if_splits)

lemma parse_io_data_size_cap: "parse_io_data_size X e d = Inr n \<Longrightarrow> n \<le> MAX_IO_DATA_LEN"
  by (auto simp: parse_io_data_size_def split: option.splits dest!: sum_data_items_cap)

text \<open>What every parsed catalog satisfies: the caps hold in each of its entries.\<close>

definition submodule_ok :: "gsdml_submodule \<Rightarrow> bool" where
  "submodule_ok s \<longleftrightarrow> sub_input_length s \<le> MAX_IO_DATA_LEN \<and> sub_output_length s \<le> MAX_IO_DATA_LEN"

definition device_ok :: "gsdml_device \<Rightarrow> bool" where
  "device_ok g \<longleftrightarrow> list_all submodule_ok (gd_submodule_catalog g)
     \<and> list_all (\<lambda>d. list_all submodule_ok (dap_submodules d)) (gd_daps g)
     \<and> list_all (\<lambda>m. list_all submodule_ok (mod_submodules m)) (gd_modules g)"

lemma parse_submodule_ok: "parse_submodule X e = Inr s \<Longrightarrow> submodule_ok s"
  by (auto simp: parse_submodule_def rbind_Inr submodule_ok_def dest: parse_io_data_size_cap)

lemma traverse_all: "traverse f xs = Inr ys \<Longrightarrow> (\<And>x y. f x = Inr y \<Longrightarrow> P y) \<Longrightarrow> list_all P ys"
  by (induction xs arbitrary: ys) (auto simp: rbind_Inr)

lemma parse_virtual_submodules_ok: "parse_virtual_submodules X e = Inr ss \<Longrightarrow> list_all submodule_ok ss"
  by (auto simp: parse_virtual_submodules_def parse_submodule_ok intro: traverse_all split: option.splits)

lemma parse_gsdml_root_ok:
  assumes "parse_gsdml_root X root = Inr g"
  shows "device_ok g"
proof -
  obtain ids catalog daps mods where
    g: "gd_submodule_catalog g = catalog" "gd_daps g = daps" "gd_modules g = mods" and
    c: "traverse (parse_submodule X) (findall_deep X root ''SubmoduleItem'') = Inr catalog" and
    d: "traverse (parse_dap X) (findall_deep X root ''DeviceAccessPointItem'') = Inr daps" and
    m: "traverse (parse_module X) (findall_deep X root ''ModuleItem'') = Inr mods"
    using assms by (auto simp: parse_gsdml_root_def rbind_Inr)
  have "list_all submodule_ok catalog"
    using c by (rule traverse_all) (rule parse_submodule_ok)
  moreover have "list_all (\<lambda>d. list_all submodule_ok (dap_submodules d)) daps"
    using d by (rule traverse_all) (auto simp: parse_dap_def rbind_Inr dest: parse_virtual_submodules_ok)
  moreover have "list_all (\<lambda>m. list_all submodule_ok (mod_submodules m)) mods"
    using m by (rule traverse_all) (auto simp: parse_module_def rbind_Inr dest: parse_virtual_submodules_ok)
  ultimately show ?thesis by (simp add: device_ok_def g)
qed

definition io_slot_ok :: "io_slot \<Rightarrow> bool" where
  "io_slot_ok s \<longleftrightarrow> ios_input_length s \<le> MAX_IO_DATA_LEN \<and> ios_output_length s \<le> MAX_IO_DATA_LEN"

lemma virtual_slots_ok:
  "virtual_slots n m i ss = Some vs \<Longrightarrow> list_all submodule_ok ss \<Longrightarrow> list_all io_slot_ok vs"
  by (induction ss arbitrary: i vs)
    (auto simp: io_slot_ok_def submodule_ok_def split: if_splits Option.bind_splits)

lemma find_all: "List.find P xs = Some x \<Longrightarrow> list_all Q xs \<Longrightarrow> Q x"
  by (auto simp: find_Some_iff list_all_length)

lemma catalog_submodule_ok: "device_ok g \<Longrightarrow> catalog_submodule g i = Some c \<Longrightarrow> submodule_ok c"
  by (auto simp: catalog_submodule_def device_ok_def dest: find_all)

lemma map_filter_all:
  "(\<And>x y. f x = Some y \<Longrightarrow> P y) \<Longrightarrow> list_all P (List.map_filter f xs)"
  by (induction xs) (auto simp: List.map_filter_simps split: option.splits)

lemma add_useable_ok: "device_ok g \<Longrightarrow> list_all io_slot_ok slots \<Longrightarrow>
    list_all io_slot_ok (add_useable_submodule_slots g slots m n a)"
  unfolding add_useable_submodule_slots_def
  by (auto intro!: map_filter_all simp: io_slot_ok_def submodule_ok_def dest!: catalog_submodule_ok)

lemma module_slots_ok: "module_slots g sa slots asg = Some r \<Longrightarrow> device_ok g \<Longrightarrow>
    list_all io_slot_ok slots \<Longrightarrow> list_all io_slot_ok r"
proof (induction g sa slots asg rule: module_slots.induct)
  case (2 g sa slots n i as)
  show ?case
  proof (cases "module_by_id g i")
    case None
    with 2 show ?thesis by simp
  next
    case (Some m)
    then have m: "list_all submodule_ok (mod_submodules m)"
      using 2(6) by (auto simp: module_by_id_def device_ok_def dest: find_all)
    consider (virt) "mod_submodules m \<noteq> []" | (use) "mod_submodules m = []" "mod_useable_submodules m \<noteq> []"
      | (none) "mod_submodules m = []" "mod_useable_submodules m = []" by blast
    then show ?thesis
    proof cases
      case virt
      with 2(5) Some obtain vs where vs: "virtual_slots n (mod_ident m) 0 (mod_submodules m) = Some vs"
        and r: "module_slots g sa (slots @ vs) as = Some r" by (auto split: Option.bind_splits)
      show ?thesis using 2(2) [OF Some virt vs r] 2(6,7) virtual_slots_ok [OF vs m] by simp
    next
      case use
      show ?thesis using 2(3) [OF Some _ use(2) refl] use 2(5-) Some by (simp add: add_useable_ok Let_def)
    next
      case none
      then show ?thesis using 2(4) [OF Some] 2(5-) Some by simp
    qed
  qed
qed simp

lemma build_io_slots_ok:
  assumes "device_ok g" and "build_io_slots g a sa i = Some (Inr slots)"
  shows "list_all io_slot_ok slots"
proof -
  from assms(2) obtain dap where dap: "get_dap g i = Inr dap"
    by (auto simp: build_io_slots_def split: sum.splits)
  with assms(2) obtain vs where vs: "virtual_slots 0 (dap_module_ident dap) 0 (dap_submodules dap) = Some vs"
    and m: "module_slots g sa (vs @ map (\<lambda>s. \<lparr>ios_slot = 0, ios_subslot = sys_subslot_number s,
          ios_module_ident = dap_module_ident dap, ios_submodule_ident = sys_submodule_ident s,
          ios_input_length = 0, ios_output_length = 0\<rparr>) (dap_system_submodules dap))
        (slot_assignment_of dap a) = Some slots"
    by (auto simp: build_io_slots_def Let_def split: Option.bind_splits)
  have "dap \<in> set (gd_daps g)"
    using dap by (auto simp: get_dap_def find_Some_iff split: list.splits option.splits if_splits)
  then have "list_all submodule_ok (dap_submodules dap)"
    using assms(1) by (auto simp: device_ok_def list_all_iff)
  from virtual_slots_ok [OF vs this] show ?thesis
    by (intro module_slots_ok [OF m assms(1)]) (auto simp: io_slot_ok_def list_all_iff)
qed

text \<open>
  The catalog as the flat list of its registrations, in the order the source makes them; the
  last registration of an ident pair decides its lengths.
\<close>

definition sub_entries :: "u32 \<Rightarrow> gsdml_submodule list \<Rightarrow> ((u32 \<times> u32) \<times> nat \<times> nat) list" where
  "sub_entries m subs = map (\<lambda>s. ((m, sub_ident s), (sub_input_length s, sub_output_length s))) subs"

definition module_entries :: "gsdml_device \<Rightarrow> gsdml_module \<Rightarrow> ((u32 \<times> u32) \<times> nat \<times> nat) list" where
  "module_entries g m = sub_entries (mod_ident m) (mod_submodules m)
     @ sub_entries (mod_ident m)
         (List.map_filter (\<lambda>r. catalog_submodule g (ref_target r)) (mod_useable_submodules m))"

definition catalog_entries :: "gsdml_device \<Rightarrow> gsdml_dap \<Rightarrow> ((u32 \<times> u32) \<times> nat \<times> nat) list" where
  "catalog_entries g dap = sub_entries (dap_module_ident dap) (dap_submodules dap)
     @ map (\<lambda>s. ((dap_module_ident dap, sys_submodule_ident s), (0, 0))) (dap_system_submodules dap)
     @ concat (map (module_entries g) (gd_modules g))"

definition lookup2 :: "ident_lookup \<Rightarrow> u32 \<times> u32 \<Rightarrow> (nat \<times> nat) option" where
  "lookup2 lk k = (case lk (fst k) of None \<Rightarrow> None | Some subs \<Rightarrow> subs (snd k))"

lemma lookup2_register: "lookup2 (register m s l lk) = (lookup2 lk)((m, s) \<mapsto> l)"
  by (auto simp: fun_eq_iff lookup2_def register_def split: option.splits)

definition put :: "(u32 \<times> u32) \<times> nat \<times> nat \<Rightarrow> ident_lookup \<Rightarrow> ident_lookup" where
  "put e = register (fst (fst e)) (snd (fst e)) (snd e)"

lemma lookup2_put: "lookup2 (fold put es lk) k =
    (case map_of (rev es) k of None \<Rightarrow> lookup2 lk k | Some l \<Rightarrow> Some l)"
  by (induction es rule: rev_induct) (auto simp: put_def lookup2_register)

lemma register_submodules_put: "register_submodules m subs lk = fold put (sub_entries m subs) lk"
  by (induction subs arbitrary: lk) (simp_all add: register_submodules_def sub_entries_def put_def)

lemma register_module_put: "register_module g m lk = fold put (module_entries g m) lk"
proof -
  have "fold (\<lambda>r lk. case catalog_submodule g (ref_target r) of None \<Rightarrow> lk
         | Some c \<Rightarrow> register (mod_ident m) (sub_ident c) (sub_input_length c, sub_output_length c) lk) rs lk
      = fold put (sub_entries (mod_ident m) (List.map_filter (\<lambda>r. catalog_submodule g (ref_target r)) rs)) lk"
    for rs lk
    by (induction rs arbitrary: lk)
      (auto simp: List.map_filter_simps sub_entries_def put_def split: option.splits)
  then show ?thesis
    by (simp add: register_module_def module_entries_def register_submodules_put)
qed

lemma device_lookup_put: "device_lookup g dap = fold put (catalog_entries g dap) Map.empty"
proof -
  have "fold (register_module g) ms lk = fold put (concat (map (module_entries g) ms)) lk" for ms lk
    by (induction ms arbitrary: lk) (simp_all add: register_module_put)
  moreover have "fold (\<lambda>s. register m (sys_submodule_ident s) (0, 0)) ss lk
      = fold put (map (\<lambda>s. ((m, sys_submodule_ident s), (0, 0))) ss) lk"
    for m lk and ss :: "gsdml_system_submodule list"
    by (induction ss arbitrary: lk) (simp_all add: put_def)
  ultimately show ?thesis
    by (simp add: device_lookup_def catalog_entries_def register_submodules_put)
qed

lemma from_device_eq:
  assumes "get_dap g i = Inr dap"
  shows "build_io_slots_from_device g dss i =
    Inr (map (\<lambda>ds. let l = (case map_of (rev (catalog_entries g dap))
                (ds_module_ident ds, ds_submodule_ident ds) of None \<Rightarrow> (0, 0) | Some l \<Rightarrow> l)
       in \<lparr>ios_slot = ds_slot ds, ios_subslot = ds_subslot ds,
           ios_module_ident = ds_module_ident ds, ios_submodule_ident = ds_submodule_ident ds,
           ios_input_length = fst l, ios_output_length = snd l\<rparr>) dss)"
proof -
  have "(case device_lookup g dap m of None \<Rightarrow> (0, 0)
        | Some subs \<Rightarrow> (case subs s of None \<Rightarrow> (0, 0) | Some l \<Rightarrow> l))
      = (case map_of (rev (catalog_entries g dap)) (m, s) of None \<Rightarrow> (0, 0) | Some l \<Rightarrow> l)" for m s
  proof -
    have "lookup2 (device_lookup g dap) (m, s) = map_of (rev (catalog_entries g dap)) (m, s)"
      unfolding device_lookup_put lookup2_put
      by (cases "map_of (rev (catalog_entries g dap)) (m, s)") (simp_all add: lookup2_def)
    then show ?thesis by (auto simp: lookup2_def split: option.splits)
  qed
  then show ?thesis by (simp add: build_io_slots_from_device_def assms Let_def)
qed

definition sample_dap :: gsdml_dap where
  "sample_dap = \<lparr>dap_id = ''D1'', dap_module_ident = 1,
     dap_submodules = [\<lparr>sub_id = ''S'', sub_ident = 2, sub_input_length = 3, sub_output_length = 4\<rparr>],
     dap_system_submodules = [], dap_useable_modules = []\<rparr>"

definition sample_device :: gsdml_device where
  "sample_device = \<lparr>gd_vendor_id = 0x2A, gd_device_id = 7, gd_daps = [sample_dap], gd_modules = [],
     gd_submodule_catalog = []\<rparr>"

text \<open>
  C11: Matching discovered slots against the catalog keeps every slot, in order and with its
  idents, and gives it the lengths of the last catalog registration of its ident pair, or no
  IO at all when the catalog does not know the pair: the nested hash maps of the source
  refine a flat association list.
\<close>

theorem io_slots_from_device_lookup:
  assumes "get_dap g i = Inr dap"
  shows "build_io_slots_from_device g dss i =
    Inr (map (\<lambda>ds. let l = (case map_of (rev (catalog_entries g dap))
                (ds_module_ident ds, ds_submodule_ident ds) of None \<Rightarrow> (0, 0) | Some l \<Rightarrow> l)
       in \<lparr>ios_slot = ds_slot ds, ios_subslot = ds_subslot ds,
           ios_module_ident = ds_module_ident ds, ios_submodule_ident = ds_submodule_ident ds,
           ios_input_length = fst l, ios_output_length = snd l\<rparr>) dss)"
  using assms by (rule from_device_eq)

lemma io_slots_from_device_witness:
  "build_io_slots_from_device sample_device
     [\<lparr>ds_slot = 0, ds_subslot = 1, ds_module_ident = 1, ds_submodule_ident = 2\<rparr>,
      \<lparr>ds_slot = 5, ds_subslot = 1, ds_module_ident = 9, ds_submodule_ident = 2\<rparr>] None
   = Inr [\<lparr>ios_slot = 0, ios_subslot = 1, ios_module_ident = 1, ios_submodule_ident = 2,
           ios_input_length = 3, ios_output_length = 4\<rparr>,
          \<lparr>ios_slot = 5, ios_subslot = 1, ios_module_ident = 9, ios_submodule_ident = 2,
           ios_input_length = 0, ios_output_length = 0\<rparr>]"
proof -
  have "get_dap sample_device None = Inr sample_dap" by (simp add: get_dap_def sample_device_def)
  from io_slots_from_device_lookup [OF this] show ?thesis
    by (simp add: catalog_entries_def sub_entries_def sample_device_def sample_dap_def)
qed

lemma from_device_slots_ok:
  assumes "device_ok g" and "build_io_slots_from_device g dss i = Inr slots"
  shows "list_all io_slot_ok slots"
proof -
  obtain dap where dap: "get_dap g i = Inr dap"
    using assms(2) by (auto simp: build_io_slots_from_device_def rbind_Inr)
  have dm: "dap \<in> set (gd_daps g)"
    using dap by (auto simp: get_dap_def find_Some_iff split: list.splits option.splits if_splits)
  have sub: "\<forall>e \<in> set (sub_entries m ss). fst (snd e) \<le> MAX_IO_DATA_LEN \<and> snd (snd e) \<le> MAX_IO_DATA_LEN"
    if "list_all submodule_ok ss" for m ss
    using that by (auto simp: sub_entries_def submodule_ok_def list_all_iff)
  have "list_all submodule_ok (List.map_filter (\<lambda>r. catalog_submodule g (ref_target r)) rs)" for rs
    by (rule map_filter_all) (rule catalog_submodule_ok [OF assms(1)])
  then have ok: "\<forall>e \<in> set (catalog_entries g dap). fst (snd e) \<le> MAX_IO_DATA_LEN \<and> snd (snd e) \<le> MAX_IO_DATA_LEN"
    using assms(1) dm
    by (auto simp: catalog_entries_def module_entries_def device_ok_def list_all_iff dest!: sub [unfolded list_all_iff, rule_format, rotated])
  have "fst (case map_of (rev (catalog_entries g dap)) k of None \<Rightarrow> (0, 0) | Some l \<Rightarrow> l) \<le> MAX_IO_DATA_LEN
      \<and> snd (case map_of (rev (catalog_entries g dap)) k of None \<Rightarrow> (0, 0) | Some l \<Rightarrow> l) \<le> MAX_IO_DATA_LEN" for k
    using ok by (fastforce split: option.splits dest!: map_of_SomeD)
  then show ?thesis
    using assms(2) unfolding from_device_eq [OF dap] Let_def
    by (auto simp only: list_all_iff io_slot_ok_def io_slot.simps sum.inject set_map)
qed

text \<open>
  No GSDML document, however hostile, makes an IO slot longer than 65,536 bytes in either
  direction: whatever the XML tree, a catalog that parses yields only slots within the cap,
  both from the catalog alone and when matched against a device.
\<close>

theorem gsdml_slots_bounded:
  assumes "parse_gsdml_str X document_parse xml = Inr g"
    and "build_io_slots g asg sub_asg i = Some (Inr slots) \<or> build_io_slots_from_device g dss i = Inr slots"
    and "s \<in> set slots"
  shows "ios_input_length s \<le> 65536 \<and> ios_output_length s \<le> 65536"
proof -
  have "device_ok g"
    using assms(1) by (auto simp: parse_gsdml_str_def parse_gsdml_root_ok split: sum.splits)
  then have "list_all io_slot_ok slots"
    using assms(2) build_io_slots_ok from_device_slots_ok by blast
  then show ?thesis using assms(3) by (auto simp: list_all_iff io_slot_ok_def MAX_IO_DATA_LEN_def)
qed

text \<open>A one-branch document: an access point with one submodule that has two input bytes.\<close>

definition sample_names :: "string list" where
  "sample_names = [''Profile'', ''DeviceAccessPointItem'', ''VirtualSubmoduleList'',
     ''VirtualSubmoduleItem'', ''IOData'', ''Input'', ''DataItem'']"

definition sample_xml :: "nat xml_api" where
  "sample_xml = \<lparr>xa_children = (\<lambda>n. if n < 6 then [Suc n] else []),
     xa_descendants = (\<lambda>n. [n ..< 7]), xa_is_element = (\<lambda>n. n < 7),
     xa_name = (\<lambda>n. sample_names ! n),
     xa_attribute = (\<lambda>n a. if n = 6 \<and> a = ''DataType'' then Some ''Integer16'' else None)\<rparr>"

lemma gsdml_slots_bounded_witness:
  "\<exists>g slots s. parse_gsdml_str sample_xml (\<lambda>_. Inr 0) '''' = Inr g
     \<and> build_io_slots g None None None = Some (Inr slots) \<and> s \<in> set slots \<and> ios_input_length s = 2
     \<and> ios_input_length s \<le> 65536 \<and> ios_output_length s \<le> 65536"
proof -
  define g where "g = \<lparr>gd_vendor_id = 0, gd_device_id = 0,
    gd_daps = [\<lparr>dap_id = '''', dap_module_ident = 0,
      dap_submodules = [\<lparr>sub_id = '''', sub_ident = 0, sub_input_length = 2, sub_output_length = 0\<rparr>],
      dap_system_submodules = [], dap_useable_modules = []\<rparr>],
    gd_modules = [], gd_submodule_catalog = []\<rparr>"
  define s where "s = \<lparr>ios_slot = 0, ios_subslot = 1, ios_module_ident = 0, ios_submodule_ident = 0,
    ios_input_length = 2, ios_output_length = 0\<rparr>"
  have p: "parse_gsdml_str sample_xml (\<lambda>_. Inr 0) '''' = Inr g"
    by (simp add: g_def parse_gsdml_str_def parse_gsdml_root_def find_deep_def findall_deep_def
        sample_xml_def sample_names_def is_named_def upt_rec parse_submodule_def parse_dap_def parse_int_def
        parse_io_data_size_def find_child_def findall_def parse_virtual_submodules_def data_item_size_def
        parse_system_submodules_def parse_item_refs_def attr_or_empty_def gsdml_type_size_def
        MAX_IO_DATA_LEN_def)
  have b: "build_io_slots g None None None = Some (Inr [s])"
    by (simp add: g_def s_def build_io_slots_def get_dap_def as_u16_def slot_assignment_of_def
        fixed_refs_def)
  show ?thesis
    using gsdml_slots_bounded [OF p disjI1 [OF b], of s] p b by (auto simp: s_def)
qed

end
