(* ===== verification/Blocks.thy ===== *)
theory Blocks
  imports Util
begin

text \<open>
  Model of \<open>src/blocks.rs\<close>: the PROFINET block header, the 64-byte IOD record header, the
  read, write and multiple-write request records, and the walk over a multiple-write
  response. A \<open>[u8; 16]\<close> is a byte list whose length the lemmas state.
\<close>

definition IOD_READ_REQUEST_HEADER :: u16 where "IOD_READ_REQUEST_HEADER = 0x0009"
definition IOD_WRITE_REQUEST_HEADER :: u16 where "IOD_WRITE_REQUEST_HEADER = 0x0008"
definition IOD_WRITE_RESPONSE_HEADER :: u16 where "IOD_WRITE_RESPONSE_HEADER = 0x8008"
definition IOD_WRITE_MULTIPLE_INDEX :: u16 where "IOD_WRITE_MULTIPLE_INDEX = 0xE040"

section \<open>Builders\<close>

definition block_header :: "u16 \<Rightarrow> u16 \<Rightarrow> u8 \<Rightarrow> u8 \<Rightarrow> bytes" where
  "block_header block_type block_length ver_high ver_low =
     to_be16 block_type @ to_be16 block_length @ [ver_high] @ [ver_low]"

definition pniod_header ::
    "u16 \<Rightarrow> u16 \<Rightarrow> bytes \<Rightarrow> u32 \<Rightarrow> u16 \<Rightarrow> u16 \<Rightarrow> u16 \<Rightarrow> u32 \<Rightarrow> bytes \<Rightarrow> bytes" where
  "pniod_header block_type sq ar_uuid api slot subslot index len payload =
     block_header block_type 60 1 0 @ to_be16 sq @ ar_uuid @ to_be32 api @ to_be16 slot
     @ to_be16 subslot @ to_be16 0 @ to_be16 index @ to_be32 len @ replicate 16 0
     @ replicate 8 0 @ payload"

definition iod_read_request :: "bytes \<Rightarrow> u32 \<Rightarrow> u16 \<Rightarrow> u16 \<Rightarrow> u16 \<Rightarrow> u32 \<Rightarrow> bytes" where
  "iod_read_request ar_uuid api slot subslot index len =
     pniod_header IOD_READ_REQUEST_HEADER 0 ar_uuid api slot subslot index len []"

definition iod_write_request :: "bytes \<Rightarrow> u32 \<Rightarrow> u16 \<Rightarrow> u16 \<Rightarrow> u16 \<Rightarrow> bytes \<Rightarrow> bytes" where
  "iod_write_request ar_uuid api slot subslot index payload =
     pniod_header IOD_WRITE_REQUEST_HEADER 0 ar_uuid api slot subslot index
       (as_u32 (length payload)) payload"

text \<open>A write in an IODWriteMultipleReq: (api, slot, subslot, index, data).\<close>

type_synonym multi_write = "u32 \<times> u16 \<times> u16 \<times> u16 \<times> bytes"

fun multi_block :: "bytes \<Rightarrow> nat \<Rightarrow> multi_write \<Rightarrow> bytes" where
  "multi_block ar_uuid i (api, slot, subslot, index, data) =
     pniod_header IOD_WRITE_REQUEST_HEADER (as_u16 i) ar_uuid api slot subslot index
       (as_u32 (length data)) data"

text \<open>The loop over \<open>writes.iter().enumerate()\<close>; every block but the last is padded.\<close>

fun multi_blocks :: "bytes \<Rightarrow> nat \<Rightarrow> multi_write list \<Rightarrow> bytes" where
  "multi_blocks ar_uuid i [] = []"
| "multi_blocks ar_uuid i (w # ws) =
     (let block = multi_block ar_uuid i w;
          pad = (4 - length block mod 4) mod 4
      in block @ (if ws \<noteq> [] then replicate pad 0 else []) @ multi_blocks ar_uuid (Suc i) ws)"

definition iod_write_multiple_payload :: "bytes \<Rightarrow> u16 \<Rightarrow> multi_write list \<Rightarrow> bytes" where
  "iod_write_multiple_payload ar_uuid seq_num writes =
     (let blocks = multi_blocks ar_uuid 0 writes
      in pniod_header IOD_WRITE_REQUEST_HEADER seq_num ar_uuid 0xFFFFFFFF 0xFFFF 0xFFFF
           IOD_WRITE_MULTIPLE_INDEX (as_u32 (length blocks)) [] @ blocks)"

section \<open>Multiple-write responses\<close>

record write_multiple_result =
  wm_seq_num :: u16
  wm_api :: u32
  wm_slot :: u16
  wm_subslot :: u16
  wm_index :: u16
  wm_status :: u32
  wm_additional_value1 :: u16
  wm_additional_value2 :: u16

definition wm_success :: "write_multiple_result \<Rightarrow> bool" where
  "wm_success r = (wm_status r = 0)"

definition wm_pad :: "nat \<Rightarrow> nat" where
  "wm_pad n = (4 - n mod 4) mod 4"

function wm_walk :: "bytes \<Rightarrow> nat \<Rightarrow> nat \<Rightarrow> write_multiple_result list option" where
  "wm_walk data lim offset =
     (if offset + 56 \<le> lim then do {
        entry \<leftarrow> sub_slice data offset (offset + 56);
        hdr \<leftarrow> be16_at entry 0;
        if hdr \<noteq> IOD_WRITE_RESPONSE_HEADER then Some []
        else do {
          sq \<leftarrow> be16_at entry 6;
          api \<leftarrow> be32_at entry 24;
          slot \<leftarrow> be16_at entry 28;
          subslot \<leftarrow> be16_at entry 30;
          index \<leftarrow> be16_at entry 34;
          status \<leftarrow> be32_at entry 44;
          v1 \<leftarrow> be16_at entry 40;
          v2 \<leftarrow> be16_at entry 42;
          bl \<leftarrow> be16_at entry 2;
          (let block_size = 4 + unat bl in do {
             rest \<leftarrow> wm_walk data lim (offset + (block_size + wm_pad block_size));
             Some (\<lparr>wm_seq_num = sq, wm_api = api, wm_slot = slot, wm_subslot = subslot,
                    wm_index = index, wm_status = status, wm_additional_value1 = v1,
                    wm_additional_value2 = v2\<rparr> # rest) }) } }
      else Some [])"
  by pat_completeness auto
termination
  by (relation "measure (\<lambda>(data, lim, offset). lim - offset)") auto

declare wm_walk.simps [simp del]

definition parse_write_multiple_response :: "bytes \<Rightarrow> write_multiple_result list option" where
  "parse_write_multiple_response data =
     (if length data < 64 then Some []
      else do {
        record_len \<leftarrow> be32_at data 36;
        wm_walk data (min (64 + unat record_len) (length data)) 64 })"

section \<open>Facts\<close>

lemma length_block_header [simp, wire_simps]: "length (block_header t l vh vl) = 6"
  by (simp add: block_header_def)

lemma length_pniod_header [simp, wire_simps]:
  "length u = 16 \<Longrightarrow> length (pniod_header t s u a sl ss ix l p) = 64 + length p"
  by (simp add: pniod_header_def)

text \<open>The record header read back field by field, at the offsets the response parser uses.\<close>

lemma pniod_header_fields [wire_simps]:
  assumes "length u = 16"
  shows "rd16 (pniod_header t s u a sl ss ix l p @ r) 0 = t"
    and "rd16 (pniod_header t s u a sl ss ix l p @ r) 2 = 60"
    and "rd16 (pniod_header t s u a sl ss ix l p @ r) 6 = s"
    and "take 16 (drop 8 (pniod_header t s u a sl ss ix l p @ r)) = u"
    and "rd32 (pniod_header t s u a sl ss ix l p @ r) 24 = a"
    and "rd16 (pniod_header t s u a sl ss ix l p @ r) 28 = sl"
    and "rd16 (pniod_header t s u a sl ss ix l p @ r) 30 = ss"
    and "rd16 (pniod_header t s u a sl ss ix l p @ r) 34 = ix"
    and "rd32 (pniod_header t s u a sl ss ix l p @ r) 36 = l"
    and "drop 64 (pniod_header t s u a sl ss ix l p @ r) = p @ r"
  using assms by (simp_all add: pniod_header_def block_header_def wire_simps)

text \<open>An abstract reader of a multiple-write request body: one aligned record per write.\<close>

fun read_writes :: "nat \<Rightarrow> bytes \<Rightarrow> multi_write list" where
  "read_writes 0 d = []"
| "read_writes (Suc n) d =
     (let len = unat (rd32 d 36)
      in (rd32 d 24, rd16 d 28, rd16 d 30, rd16 d 34, take len (drop 64 d))
         # read_writes n (drop (64 + len + wm_pad (64 + len)) d))"

lemma multi_blocks_fields:
  assumes "length u = 16" and "length d < 4294967296"
    and m: "m = multi_blocks u i ((a, s, ss, ix, d) # ws)"
  shows "unat (rd32 m 36) = length d" and "rd32 m 24 = a" and "rd16 m 28 = s"
    and "rd16 m 30 = ss" and "rd16 m 34 = ix" and "take (length d) (drop 64 m) = d"
    and "rd16 m 6 = as_u16 i" and "take 16 (drop 8 m) = u"
    and "ws \<noteq> [] \<Longrightarrow> drop (64 + length d + wm_pad (64 + length d)) m = multi_blocks u (Suc i) ws"
proof -
  let ?b = "multi_block u i (a, s, ss, ix, d)"
  let ?tl = "(if ws \<noteq> [] then replicate (wm_pad (length ?b)) 0 else []) @ multi_blocks u (Suc i) ws"
  have m': "m = ?b @ ?tl" unfolding m by (simp add: wm_pad_def Let_def)
  have f: "rd32 m 36 = as_u32 (length d)" "rd32 m 24 = a" "rd16 m 28 = s" "rd16 m 30 = ss"
    "rd16 m 34 = ix" "drop 64 m = d @ ?tl" "rd16 m 6 = as_u16 i" "take 16 (drop 8 m) = u"
    unfolding m' multi_block.simps by (simp_all only: pniod_header_fields [OF assms(1)])
  from f show "rd32 m 24 = a" "rd16 m 28 = s" "rd16 m 30 = ss" "rd16 m 34 = ix"
    "rd16 m 6 = as_u16 i" "take 16 (drop 8 m) = u" by blast+
  show "unat (rd32 m 36) = length d" using f(1) assms(2) by simp
  show "take (length d) (drop 64 m) = d" unfolding f(6) by simp
  have lb: "length ?b = 64 + length d" using assms(1) by simp
  show "ws \<noteq> [] \<Longrightarrow> drop (64 + length d + wm_pad (64 + length d)) m = multi_blocks u (Suc i) ws"
    unfolding m' by (simp add: lb del: multi_block.simps)
qed

lemma read_multi_blocks:
  assumes "length u = 16" and "\<forall>w \<in> set ws. length (snd (snd (snd (snd w)))) < 4294967296"
  shows "read_writes (length ws) (multi_blocks u i ws) = ws"
  using assms(2)
proof (induction ws arbitrary: i)
  case (Cons w ws)
  obtain a s ss ix d where w: "w = (a, s, ss, ix, d)" by (cases w) auto
  have len: "length d < 4294967296" using Cons.prems by (simp add: w)
  note f = multi_blocks_fields [OF assms(1) len refl, where i = i and a = a and s = s and ss = ss and ix = ix and ws = ws]
  show ?case
  proof (cases "ws = []")
    case True
    then show ?thesis unfolding w using f by (simp add: Let_def del: multi_blocks.simps)
  next
    case False
    then show ?thesis unfolding w using f Cons
      by (simp add: Let_def del: multi_blocks.simps)
  qed
qed simp

text \<open>
  The multiple-write request carries every write, in order and intact: the outer record
  header names index 0xE040 and the byte count of what follows, and reading the aligned
  records behind it gives back the list of writes, whatever their data lengths.
\<close>

theorem write_multiple_request_roundtrip:
  assumes "length u = 16" and "\<forall>w \<in> set ws. length (snd (snd (snd (snd w)))) < 4294967296"
    and "length (iod_write_multiple_payload u sq ws) < 4294967296"
    and "p = iod_write_multiple_payload u sq ws"
  shows "rd16 p 34 = 0xE040 \<and> 64 + unat (rd32 p 36) = length p
    \<and> read_writes (length ws) (drop 64 p) = ws"
proof -
  let ?m = "multi_blocks u 0 ws"
  have p: "p = pniod_header IOD_WRITE_REQUEST_HEADER sq u 0xFFFFFFFF 0xFFFF 0xFFFF
      IOD_WRITE_MULTIPLE_INDEX (as_u32 (length ?m)) [] @ ?m"
    by (simp only: assms(4) iod_write_multiple_payload_def Let_def)
  have "length p = 64 + length ?m" unfolding p using assms(1) by simp
  then have "length ?m < 4294967296" using assms(3,4) by simp
  moreover have "drop 64 p = ?m" unfolding p using pniod_header_fields(10) [OF assms(1)] by simp
  ultimately show ?thesis
    using pniod_header_fields(8,9) [OF assms(1)] read_multi_blocks [OF assms(1,2)] assms(1)
    by (simp add: p IOD_WRITE_MULTIPLE_INDEX_def)
qed

lemma write_multiple_request_witness:
  "let u = replicate 16 0x11; ws = [(0, 1, 1, 5, [1, 2, 3]), (0, 2, 1, 6, [9 :: u8])];
       p = iod_write_multiple_payload u 0 ws
   in rd16 p 34 = 0xE040 \<and> 64 + unat (rd32 p 36) = length p \<and> read_writes (length ws) (drop 64 p) = ws"
  unfolding Let_def
  by (rule write_multiple_request_roundtrip [where u = "replicate 16 0x11" and sq = 0])
    (simp_all add: iod_write_multiple_payload_def Let_def)

section \<open>The response walk\<close>

text \<open>
  The walk is an instance of the record-walk interface: the step is the loop body and every
  entry advances by at least its four-byte block header.
\<close>

definition wm_step :: "bytes \<Rightarrow> nat \<Rightarrow> nat \<Rightarrow> (write_multiple_result \<times> nat) option" where
  "wm_step data lim off =
     (if off + 56 \<le> lim \<and> rd16 data off = IOD_WRITE_RESPONSE_HEADER
      then let n = 4 + unat (rd16 data (off + 2)) in
        Some (\<lparr>wm_seq_num = rd16 data (off + 6), wm_api = rd32 data (off + 24),
               wm_slot = rd16 data (off + 28), wm_subslot = rd16 data (off + 30),
               wm_index = rd16 data (off + 34), wm_status = rd32 data (off + 44),
               wm_additional_value1 = rd16 data (off + 40),
               wm_additional_value2 = rd16 data (off + 42)\<rparr>, off + (n + wm_pad n))
      else None)"

lemma wm_walk_step:
  assumes "lim \<le> length data"
  shows "wm_walk data lim off =
    (case wm_step data lim off of None \<Rightarrow> Some []
     | Some (r, off') \<Rightarrow> Option.bind (wm_walk data lim off') (\<lambda>rs. Some (r # rs)))"
  using assms
  by (subst wm_walk.simps) (simp add: wm_step_def wire_simps Let_def)

lemma wm_walk_runs: "lim \<le> length data \<Longrightarrow> runs (wm_walk data lim off) (\<lambda>_. True)"
proof (induction "lim - off" arbitrary: off rule: less_induct)
  case less
  show ?case
  proof (cases "wm_step data lim off")
    case None
    then show ?thesis using less.prems by (simp add: wm_walk_step)
  next
    case (Some p)
    obtain r off' where p: "p = (r, off')" by (cases p)
    have "off + 56 \<le> lim" "off + 4 \<le> off'"
      using Some p by (auto simp: wm_step_def Let_def split: if_splits)
    then have "runs (wm_walk data lim off') (\<lambda>_. True)" using less by simp
    then show ?thesis using less.prems Some p by (simp add: wm_walk_step runs_bind)
  qed
qed

lemma wm_walk_Some: "lim \<le> length data \<Longrightarrow> \<exists>rs. wm_walk data lim off = Some rs"
  using wm_walk_runs [of lim data off] by (auto simp: runs_iff)

definition wm_results :: "bytes \<Rightarrow> nat \<Rightarrow> nat \<Rightarrow> write_multiple_result list" where
  "wm_results data lim off = the (wm_walk data (min lim (length data)) off)"

interpretation wm: block_walk "wm_results data lim" "wm_step data (min lim (length data))"
    "min lim (length data)" 4 for data lim
proof unfold_locales
  fix off r off'
  let ?l = "min lim (length data)"
  show "wm_results data lim off = (case wm_step data ?l off of None \<Rightarrow> []
      | Some (r, off') \<Rightarrow> r # wm_results data lim off')"
  proof (cases "wm_step data ?l off")
    case (Some p)
    obtain rs where "wm_walk data ?l (snd p) = Some rs" using wm_walk_Some [of ?l data] by auto
    with Some show ?thesis unfolding wm_results_def by (cases p) (simp add: wm_walk_step)
  qed (simp add: wm_results_def wm_walk_step)
  show "wm_step data ?l off = Some (r, off') \<Longrightarrow> off + 4 \<le> ?l"
    and "wm_step data ?l off = Some (r, off') \<Longrightarrow> off + 4 \<le> off'"
    by (auto simp: wm_step_def Let_def split: if_splits)
qed simp

lemma parse_write_multiple_eq:
  "parse_write_multiple_response data =
     Some (if length data < 64 then []
           else wm_results data (64 + unat (rd32 data 36)) 64)"
  using wm_walk_runs [of "min (64 + unat (rd32 data 36)) (length data)" data 64]
  by (auto simp: parse_write_multiple_response_def wm_results_def runs_iff)

text \<open>One response entry on the wire, with whatever its block carries past the 56 bytes read.\<close>

definition wm_entry :: "bytes \<Rightarrow> write_multiple_result \<times> bytes \<Rightarrow> bytes" where
  "wm_entry u e =
     (let r = fst e in block_header IOD_WRITE_RESPONSE_HEADER (as_u16 (52 + length (snd e))) 1 0
      @ to_be16 (wm_seq_num r) @ u @ to_be32 (wm_api r) @ to_be16 (wm_slot r)
      @ to_be16 (wm_subslot r) @ to_be16 0 @ to_be16 (wm_index r) @ to_be32 0
      @ to_be16 (wm_additional_value1 r) @ to_be16 (wm_additional_value2 r)
      @ to_be32 (wm_status r) @ replicate 8 0 @ snd e)"

lemma wm_entry_fields:
  assumes "length u = 16" and "52 + length x < 65536" and "pre = wm_entry u (r, x) @ rest"
  shows "rd16 pre 0 = IOD_WRITE_RESPONSE_HEADER" and "unat (rd16 pre 2) = 52 + length x"
    and "rd16 pre 6 = wm_seq_num r" and "rd32 pre 24 = wm_api r" and "rd16 pre 28 = wm_slot r"
    and "rd16 pre 30 = wm_subslot r" and "rd16 pre 34 = wm_index r"
    and "rd32 pre 44 = wm_status r" and "rd16 pre 40 = wm_additional_value1 r"
    and "rd16 pre 42 = wm_additional_value2 r"
  using assms(1,2) by (simp_all add: assms(3) wm_entry_def block_header_def Let_def wire_simps)

lemma length_wm_entry: "length u = 16 \<Longrightarrow> length (wm_entry u (r, x)) = 56 + length x"
  by (simp add: wm_entry_def Let_def)

fun wm_entries :: "bytes \<Rightarrow> (write_multiple_result \<times> bytes) list \<Rightarrow> bytes" where
  "wm_entries u [] = []"
| "wm_entries u (e # es) =
     wm_entry u e @ replicate (wm_pad (56 + length (snd e))) 0 @ wm_entries u es"

lemma wm_step_entry:
  assumes "length u = 16" and "52 + length x < 65536"
    and "d = pre @ wm_entry u (r, x) @ replicate (wm_pad (56 + length x)) 0 @ rest"
    and "length pre + 56 \<le> lim"
  shows "wm_step d lim (length pre) = Some (r, length pre + 56 + length x + wm_pad (56 + length x))"
proof -
  have rd: "rd16 d (length pre + k) = rd16 (wm_entry u (r, x) @ replicate (wm_pad (56 + length x)) 0 @ rest) k"
    "rd32 d (length pre + k) = rd32 (wm_entry u (r, x) @ replicate (wm_pad (56 + length x)) 0 @ rest) k" for k
    unfolding assms(3) by (simp_all add: rd16_skip rd32_skip)
  note f = wm_entry_fields [OF assms(1,2) refl]
  have r0: "rd16 d (length pre) = IOD_WRITE_RESPONSE_HEADER" using rd(1) [of 0] f(1) by simp
  show ?thesis using assms(4) by (simp add: wm_step_def r0 rd f Let_def del: add_2_eq_Suc')
qed

lemma wm_results_entries:
  assumes "length u = 16" and "\<forall>e \<in> set es. 52 + length (snd e) < 65536"
    and "d = pre @ wm_entries u es @ rest" and "lim = length pre + length (wm_entries u es)"
  shows "wm_results d lim (length pre) = map fst es"
  using assms(2-)
proof (induction es arbitrary: pre)
  case Nil
  then show ?case by (subst wm.walk_unfold) (simp add: wm_step_def)
next
  case (Cons e es)
  obtain r x where e: "e = (r, x)" by (cases e)
  let ?p = "replicate (wm_pad (56 + length x)) 0"
  let ?pre = "pre @ wm_entry u e @ ?p"
  have x: "52 + length x < 65536" using Cons.prems(1) by (simp add: e)
  have lp: "length ?pre = length pre + 56 + length x + wm_pad (56 + length x)"
    by (simp add: e length_wm_entry assms(1))
  have d1: "d = pre @ wm_entry u (r, x) @ ?p @ wm_entries u es @ rest" and
    d2: "d = ?pre @ wm_entries u es @ rest" using Cons.prems(2) by (simp_all add: e)
  have lim: "lim = length ?pre + length (wm_entries u es)" "lim \<le> length d"
    using Cons.prems(3) by (simp_all add: d1 e)
  have "wm_step d (min lim (length d)) (length pre) = Some (r, length ?pre)"
    using wm_step_entry [OF assms(1) x d1, of lim] lim lp by (simp add: min_absorb1)
  moreover have "wm_results d lim (length ?pre) = map fst es"
    using Cons.IH [OF _ d2 lim(1)] Cons.prems(1) by simp
  ultimately show ?case by (subst wm.walk_unfold) (simp add: e)
qed

text \<open>
  The multiple-write response parser never reads out of bounds, whatever length fields the
  device sent, and returns at most one result per four bytes received behind the header.
\<close>

theorem write_multiple_response_total:
  "\<exists>rs. parse_write_multiple_response data = Some rs \<and> length rs * 4 \<le> length data - 64"
proof (cases "length data < 64")
  case False
  have "length (wm_results data (64 + unat (rd32 data 36)) 64) * 4
      \<le> min (64 + unat (rd32 data 36)) (length data) - 64"
    by (rule wm.walk_bound) (use False in simp)
  with False show ?thesis by (auto simp: parse_write_multiple_eq)
qed (simp add: parse_write_multiple_eq)

text \<open>
  A response holding one entry per write, padded to the alignment the protocol asks for, is
  read back entry by entry: sequence number, addressing, status and additional values of
  every write, in order, and nothing past the announced length.
\<close>

theorem write_multiple_response_complete:
  assumes "length u = 16" and "\<forall>e \<in> set es. length (snd e) < 65484"
    and "length (wm_entries u es) < 4294967296"
  shows "parse_write_multiple_response
      (pniod_header IOD_WRITE_RESPONSE_HEADER sq u 0xFFFFFFFF 0xFFFF 0xFFFF IOD_WRITE_MULTIPLE_INDEX
         (as_u32 (length (wm_entries u es))) [] @ wm_entries u es @ trailing)
    = Some (map fst es)"
proof -
  let ?h = "pniod_header IOD_WRITE_RESPONSE_HEADER sq u 0xFFFFFFFF 0xFFFF 0xFFFF
    IOD_WRITE_MULTIPLE_INDEX (as_u32 (length (wm_entries u es))) []"
  have "wm_results (?h @ wm_entries u es @ trailing) (64 + length (wm_entries u es)) (length ?h) = map fst es"
    by (rule wm_results_entries [OF assms(1) _ refl]) (use assms in auto)
  then show ?thesis using assms(1,3)
    by (simp add: parse_write_multiple_eq pniod_header_fields [OF assms(1)])
qed

definition wm_sample :: "u16 \<Rightarrow> u32 \<Rightarrow> write_multiple_result" where
  "wm_sample sq st = \<lparr>wm_seq_num = sq, wm_api = 0, wm_slot = 1, wm_subslot = 1, wm_index = 5,
     wm_status = st, wm_additional_value1 = 0, wm_additional_value2 = 0\<rparr>"

lemma write_multiple_response_witness:
  "parse_write_multiple_response
      (pniod_header IOD_WRITE_RESPONSE_HEADER 0 (replicate 16 7) 0xFFFFFFFF 0xFFFF 0xFFFF
         IOD_WRITE_MULTIPLE_INDEX
         (as_u32 (length (wm_entries (replicate 16 7) [(wm_sample 0 0, [1, 2, 3]), (wm_sample 1 9, [])])))
         [] @ wm_entries (replicate 16 7) [(wm_sample 0 0, [1, 2, 3]), (wm_sample 1 9, [])] @ [0])
    = Some (map fst [(wm_sample 0 0, [1, 2, 3 :: u8]), (wm_sample 1 9, [])])"
  by (rule write_multiple_response_complete) (simp_all add: length_wm_entry wm_pad_def)

end
