(* ===== verification/Rpc.thy ===== *)
theory Rpc
  imports Blocks
begin

text \<open>
  Model of \<open>src/rpc.rs\<close>: the object UUID, the NDR wrapper and the connectionless DCE/RPC
  request frames. The builders never fail; a \<open>[u8; 16]\<close> argument is a byte list of length
  16 in the lemmas.
\<close>

definition REQUEST :: u8 where "REQUEST = 0x00"
definition CONNECT :: u16 where "CONNECT = 0x00"
definition RELEASE :: u16 where "RELEASE = 0x01"
definition READ :: u16 where "READ = 0x02"
definition WRITE :: u16 where "WRITE = 0x03"
definition CONTROL :: u16 where "CONTROL = 0x04"
definition IMPLICIT_READ :: u16 where "IMPLICIT_READ = 0x05"
definition RPC_FLAGS1_LASTFRAG :: u8 where "RPC_FLAGS1_LASTFRAG = 0x02"
definition RPC_FLAGS1_NOFACK :: u8 where "RPC_FLAGS1_NOFACK = 0x08"
definition RPC_FLAGS1_IDEMPOTENT :: u8 where "RPC_FLAGS1_IDEMPOTENT = 0x20"
definition NDR_ARGS_MAXIMUM :: u32 where "NDR_ARGS_MAXIMUM = 4000"

definition IFACE_UUID_DEVICE :: bytes where
  "IFACE_UUID_DEVICE =
     [0xDE, 0xA0, 0x00, 0x01, 0x6C, 0x97, 0x11, 0xD1, 0x82, 0x71, 0x00, 0xA0, 0x24, 0x42, 0xDF, 0x7D]"

definition OBJECT_UUID_PREFIX :: bytes where
  "OBJECT_UUID_PREFIX = [0xDE, 0xA0, 0x00, 0x00, 0x6C, 0x97, 0x11, 0xD1, 0x82, 0x71]"

definition object_uuid :: "u8 \<Rightarrow> u8 \<Rightarrow> u8 \<Rightarrow> u8 \<Rightarrow> bytes" where
  "object_uuid dev_high dev_low ven_high ven_low =
     OBJECT_UUID_PREFIX @ [0x00, 0x01, dev_high, dev_low, ven_high, ven_low]"

definition nrd :: "bytes \<Rightarrow> bytes" where
  "nrd payload =
     (let len = as_u32 (length payload);
          args_maximum = max NDR_ARGS_MAXIMUM len
      in to_be32 args_maximum @ to_be32 len @ to_be32 args_maximum @ to_be32 0 @ to_be32 len @ payload)"

definition rpc_request :: "bytes \<Rightarrow> bytes \<Rightarrow> bytes \<Rightarrow> u32 \<Rightarrow> u16 \<Rightarrow> bytes \<Rightarrow> bytes" where
  "rpc_request obj_uuid iface_uuid activity_uuid sq operation body =
     [0x04] @ [REQUEST] @ [RPC_FLAGS1_IDEMPOTENT] @ [0x00] @ [0x00, 0x00, 0x00] @ [0x00]
     @ obj_uuid @ iface_uuid @ activity_uuid
     @ to_be32 0 @ to_be32 1 @ to_be32 sq @ to_be16 operation @ to_be16 0xFFFF @ to_be16 0xFFFF
     @ to_be16 (as_u16 (length body)) @ to_be16 0 @ [0x00] @ [0x00] @ body"

definition read_request ::
    "bytes \<Rightarrow> bytes \<Rightarrow> bytes \<Rightarrow> bytes \<Rightarrow> u16 \<Rightarrow> u32 \<Rightarrow> u32 \<Rightarrow> u16 \<Rightarrow> u16 \<Rightarrow> u16 \<Rightarrow> u32 \<Rightarrow> bytes" where
  "read_request obj_uuid iface_uuid activity_uuid ar_uuid opnum sq api slot subslot index len =
     (let body = nrd (iod_read_request ar_uuid api slot subslot index len)
      in rpc_request obj_uuid iface_uuid activity_uuid sq opnum body)"

definition read_record_request ::
    "bytes \<Rightarrow> bytes \<Rightarrow> bytes \<Rightarrow> bytes \<Rightarrow> u32 \<Rightarrow> u32 \<Rightarrow> u16 \<Rightarrow> u16 \<Rightarrow> u16 \<Rightarrow> u32 \<Rightarrow> bytes" where
  "read_record_request obj_uuid iface_uuid activity_uuid ar_uuid sq api slot subslot index len =
     read_request obj_uuid iface_uuid activity_uuid ar_uuid READ sq api slot subslot index len"

definition read_record_implicit_request ::
    "bytes \<Rightarrow> bytes \<Rightarrow> bytes \<Rightarrow> u32 \<Rightarrow> u32 \<Rightarrow> u16 \<Rightarrow> u16 \<Rightarrow> u16 \<Rightarrow> u32 \<Rightarrow> bytes" where
  "read_record_implicit_request obj_uuid iface_uuid activity_uuid sq api slot subslot index len =
     read_request obj_uuid iface_uuid activity_uuid (replicate 16 0) IMPLICIT_READ
       sq api slot subslot index len"

definition write_record_request ::
    "bytes \<Rightarrow> bytes \<Rightarrow> bytes \<Rightarrow> bytes \<Rightarrow> u32 \<Rightarrow> u32 \<Rightarrow> u16 \<Rightarrow> u16 \<Rightarrow> u16 \<Rightarrow> bytes \<Rightarrow> bytes" where
  "write_record_request obj_uuid iface_uuid activity_uuid ar_uuid sq api slot subslot index payload =
     (let body = nrd (iod_write_request ar_uuid api slot subslot index payload)
      in rpc_request obj_uuid iface_uuid activity_uuid sq WRITE body)"

definition write_multiple_request ::
    "bytes \<Rightarrow> bytes \<Rightarrow> bytes \<Rightarrow> bytes \<Rightarrow> u32 \<Rightarrow> multi_write list \<Rightarrow> bytes" where
  "write_multiple_request obj_uuid iface_uuid activity_uuid ar_uuid sq writes =
     (let payload = iod_write_multiple_payload ar_uuid 0 writes;
          body = nrd (iod_write_request ar_uuid 0xFFFFFFFF 0xFFFF 0xFFFF IOD_WRITE_MULTIPLE_INDEX payload)
      in rpc_request obj_uuid iface_uuid activity_uuid sq WRITE body)"

section \<open>Facts\<close>

lemma length_nrd [simp, wire_simps]: "length (nrd p) = 20 + length p"
  by (simp add: nrd_def Let_def)

lemma nrd_fields [wire_simps]:
  "rd32 (nrd p) 4 = as_u32 (length p)" "rd32 (nrd p) 12 = 0" "rd32 (nrd p) 16 = as_u32 (length p)"
  "drop 20 (nrd p) = p" "rd32 (nrd p) 0 = max NDR_ARGS_MAXIMUM (as_u32 (length p))"
  by (simp_all add: nrd_def Let_def wire_simps)

lemma length_rpc_request [simp, wire_simps]:
  "length o' = 16 \<Longrightarrow> length i = 16 \<Longrightarrow> length a = 16 \<Longrightarrow> length (rpc_request o' i a s op b) = 80 + length b"
  by (simp add: rpc_request_def)

end
