(* ===== verification/Rt.thy ===== *)
theory Rt
  imports Gsdml
begin

text \<open>
  Model of \<open>src/rt.rs\<close>: the RT frame codec, the IOCR configuration, the double-buffered
  C_SDU builder and the configuration pair built from the IO slots. A method that takes
  \<open>&mut self\<close> returns the updated builder; \<open>None\<close> is a slice or index panic.
\<close>

section \<open>Constants\<close>

definition ETHERTYPE_PROFINET :: u16 where "ETHERTYPE_PROFINET = 0x8892"
definition FRAME_ID_RT_CLASS_1_MIN :: u16 where "FRAME_ID_RT_CLASS_1_MIN = 0x8000"
definition FRAME_ID_RT_CLASS_1_MAX :: u16 where "FRAME_ID_RT_CLASS_1_MAX = 0xFBFF"
definition FRAME_ID_ALARM_HIGH :: u16 where "FRAME_ID_ALARM_HIGH = 0xFC01"
definition FRAME_ID_ALARM_LOW :: u16 where "FRAME_ID_ALARM_LOW = 0xFE01"
definition IOCR_TYPE_INPUT :: u16 where "IOCR_TYPE_INPUT = 1"
definition IOCR_TYPE_OUTPUT :: u16 where "IOCR_TYPE_OUTPUT = 2"
definition DATA_STATUS_STATE :: u8 where "DATA_STATUS_STATE = 0x01"
definition DATA_STATUS_VALID :: u8 where "DATA_STATUS_VALID = 0x04"
definition DATA_STATUS_PROVIDER_RUN :: u8 where "DATA_STATUS_PROVIDER_RUN = 0x10"
definition DATA_STATUS_STATION_OK :: u8 where "DATA_STATUS_STATION_OK = 0x20"
definition DATA_STATUS_IGNORE :: u8 where "DATA_STATUS_IGNORE = 0x80"
definition IOXS_GOOD :: u8 where "IOXS_GOOD = 0x80"
definition IOXS_DATA_STATE_GOOD :: u8 where "IOXS_DATA_STATE_GOOD = 0x80"
definition IOXS_BAD :: u8 where "IOXS_BAD = 0x00"

definition is_rt_class_1_frame_id :: "u16 \<Rightarrow> bool" where
  "is_rt_class_1_frame_id frame_id =
     (FRAME_ID_RT_CLASS_1_MIN \<le> frame_id \<and> frame_id \<le> FRAME_ID_RT_CLASS_1_MAX)"

section \<open>RT frames\<close>

record rt_frame =
  rf_frame_id :: u16
  rf_cycle_counter :: u16
  rf_data_status :: u8
  rf_transfer_status :: u8
  rf_payload :: bytes

datatype rt_error = RtFrameTooShort nat | UnknownSlot u16 u16

definition rt_from_bytes :: "bytes \<Rightarrow> (rt_error + rt_frame) option" where
  "rt_from_bytes data =
     (if length data < 6 then Some (Inl (RtFrameTooShort (length data)))
      else do {
        trailer \<leftarrow> slice_from data (length data - 4);
        fid \<leftarrow> be16_at data 0;
        cc \<leftarrow> be16_at trailer 0;
        ds \<leftarrow> idx trailer 2;
        ts \<leftarrow> idx trailer 3;
        pl \<leftarrow> sub_slice data 2 (length data - 4);
        Some (Inr \<lparr>rf_frame_id = fid, rf_cycle_counter = cc, rf_data_status = ds,
                   rf_transfer_status = ts, rf_payload = pl\<rparr>) })"

definition rt_to_bytes :: "rt_frame \<Rightarrow> bytes" where
  "rt_to_bytes f = to_be16 (rf_frame_id f) @ rf_payload f @ to_be16 (rf_cycle_counter f)
     @ [rf_data_status f] @ [rf_transfer_status f]"

definition is_valid :: "rt_frame \<Rightarrow> bool" where
  "is_valid f = (rf_data_status f AND DATA_STATUS_VALID \<noteq> 0)"

definition is_running :: "rt_frame \<Rightarrow> bool" where
  "is_running f = (rf_data_status f AND DATA_STATUS_PROVIDER_RUN \<noteq> 0)"

definition is_ok :: "rt_frame \<Rightarrow> bool" where
  "is_ok f = (rf_data_status f AND DATA_STATUS_STATION_OK \<noteq> 0)"

definition is_primary :: "rt_frame \<Rightarrow> bool" where
  "is_primary f = (rf_data_status f AND DATA_STATUS_STATE \<noteq> 0)"

definition is_ignored :: "rt_frame \<Rightarrow> bool" where
  "is_ignored f = (rf_data_status f AND DATA_STATUS_IGNORE \<noteq> 0)"

definition VLAN_TAG_RT :: bytes where "VLAN_TAG_RT = [0x81, 0x00, 0xC0, 0x00]"

definition build_ethernet_frame :: "bytes \<Rightarrow> bytes \<Rightarrow> rt_frame \<Rightarrow> bytes" where
  "build_ethernet_frame dst_mac src_mac f =
     (let body = rt_to_bytes f
      in dst_mac @ src_mac @ VLAN_TAG_RT @ to_be16 ETHERTYPE_PROFINET @ body)"

text \<open>The option inside is the source's; the outer one is the panic.\<close>

definition parse_ethernet_frame :: "bytes \<Rightarrow> rt_frame option option" where
  "parse_ethernet_frame data =
     (if length data < 18 then Some None
      else do {
        eth_offset \<leftarrow> skip_vlan_tags data;
        if length data < eth_offset + 2 then Some None
        else do {
          et \<leftarrow> be16_at data eth_offset;
          if et \<noteq> ETHERTYPE_PROFINET then Some None
          else do {
            rest \<leftarrow> slice_from data (eth_offset + 2);
            r \<leftarrow> rt_from_bytes rest;
            Some (case r of Inl _ \<Rightarrow> None | Inr f \<Rightarrow> Some f) } } })"

section \<open>IOCR configuration\<close>

record io_data_object =
  obj_slot :: u16
  obj_subslot :: u16
  obj_frame_offset :: nat
  obj_data_length :: nat
  obj_iops_offset :: nat
  obj_iocs_offset :: "nat option"

record iocr_config =
  cfg_iocr_type :: u16
  cfg_iocr_reference :: u16
  cfg_frame_id :: u16
  cfg_send_clock_factor :: u16
  cfg_reduction_ratio :: u16
  cfg_phase :: u16
  cfg_watchdog_factor :: u16
  cfg_data_length :: nat
  cfg_objects :: "io_data_object list"

definition iocr_config_new :: "u16 \<Rightarrow> u16 \<Rightarrow> u16 \<Rightarrow> iocr_config" where
  "iocr_config_new ty ref fid =
     \<lparr>cfg_iocr_type = ty, cfg_iocr_reference = ref, cfg_frame_id = fid, cfg_send_clock_factor = 32,
      cfg_reduction_ratio = 32, cfg_phase = 0, cfg_watchdog_factor = 3, cfg_data_length = 40,
      cfg_objects = []\<rparr>"

text \<open>The products stay below \<open>2 ^ 64\<close>, so the natural numbers are the source's \<open>u64\<close>.\<close>

definition cycle_time_us :: "iocr_config \<Rightarrow> nat" where
  "cycle_time_us c = unat (cfg_reduction_ratio c) * unat (cfg_send_clock_factor c) * 125 div 4"

definition watchdog_time_us :: "iocr_config \<Rightarrow> nat" where
  "watchdog_time_us c = unat (cfg_watchdog_factor c) * cycle_time_us c"

definition is_input :: "iocr_config \<Rightarrow> bool" where
  "is_input c = (cfg_iocr_type c = IOCR_TYPE_INPUT)"

definition is_output :: "iocr_config \<Rightarrow> bool" where
  "is_output c = (cfg_iocr_type c = IOCR_TYPE_OUTPUT)"

section \<open>The double-buffered C\_SDU builder\<close>

record cyclic_data_builder =
  cdb_config :: iocr_config
  cdb_write_buffer :: bytes
  cdb_send_buffer :: bytes
  cdb_dirty :: bool

definition builder_new :: "iocr_config \<Rightarrow> cyclic_data_builder" where
  "builder_new config =
     (let len = cfg_data_length config
      in \<lparr>cdb_config = config, cdb_write_buffer = replicate len 0, cdb_send_buffer = replicate len 0,
          cdb_dirty = False\<rparr>)"

text \<open>The first object of a slot and subslot, which every per-slot loop stops at.\<close>

definition find_obj :: "cyclic_data_builder \<Rightarrow> u16 \<Rightarrow> u16 \<Rightarrow> io_data_object option" where
  "find_obj b slot subslot =
     List.find (\<lambda>obj. obj_slot obj = slot \<and> obj_subslot obj = subslot) (cfg_objects (cdb_config b))"

definition set_data ::
    "u16 \<Rightarrow> u16 \<Rightarrow> bytes \<Rightarrow> cyclic_data_builder \<Rightarrow> ((rt_error + unit) \<times> cyclic_data_builder) option" where
  "set_data slot subslot data b =
     (case find_obj b slot subslot of
        None \<Rightarrow> Some (Inl (UnknownSlot slot subslot), b)
      | Some obj \<Rightarrow>
          (let n = min (length data) (obj_data_length obj) in do {
             src \<leftarrow> sub_slice data 0 n;
             buf \<leftarrow> copy_into (cdb_write_buffer b) (obj_frame_offset obj) n src;
             Some (Inr (), b\<lparr>cdb_write_buffer := buf, cdb_dirty := True\<rparr>) }))"

definition get_data :: "u16 \<Rightarrow> u16 \<Rightarrow> cyclic_data_builder \<Rightarrow> (rt_error + bytes) option" where
  "get_data slot subslot b =
     (case find_obj b slot subslot of
        None \<Rightarrow> Some (Inl (UnknownSlot slot subslot))
      | Some obj \<Rightarrow> do {
          d \<leftarrow> sub_slice (cdb_write_buffer b) (obj_frame_offset obj)
                 (obj_frame_offset obj + obj_data_length obj);
          Some (Inr d) })"

definition set_iops :: "u16 \<Rightarrow> u16 \<Rightarrow> u8 \<Rightarrow> cyclic_data_builder \<Rightarrow> cyclic_data_builder option" where
  "set_iops slot subslot status b =
     (case find_obj b slot subslot of
        None \<Rightarrow> Some b
      | Some obj \<Rightarrow>
          (if 0 < obj_data_length obj then do {
             buf \<leftarrow> set_idx (cdb_write_buffer b) (obj_iops_offset obj) status;
             Some (b\<lparr>cdb_write_buffer := buf, cdb_dirty := True\<rparr>) }
           else Some b))"

definition set_iocs :: "u16 \<Rightarrow> u16 \<Rightarrow> u8 \<Rightarrow> cyclic_data_builder \<Rightarrow> cyclic_data_builder option" where
  "set_iocs slot subslot status b =
     (case find_obj b slot subslot of
        None \<Rightarrow> Some b
      | Some obj \<Rightarrow>
          (case obj_iocs_offset obj of
             Some off \<Rightarrow> do {
               buf \<leftarrow> set_idx (cdb_write_buffer b) off status;
               Some (b\<lparr>cdb_write_buffer := buf, cdb_dirty := True\<rparr>) }
           | None \<Rightarrow> Some b))"

fun fill_iops :: "u8 \<Rightarrow> io_data_object list \<Rightarrow> bytes \<Rightarrow> bytes option" where
  "fill_iops status [] buf = Some buf"
| "fill_iops status (obj # objs) buf =
     (if 0 < obj_data_length obj then do {
        buf \<leftarrow> set_idx buf (obj_iops_offset obj) status;
        fill_iops status objs buf }
      else fill_iops status objs buf)"

definition set_all_iops :: "u8 \<Rightarrow> cyclic_data_builder \<Rightarrow> cyclic_data_builder option" where
  "set_all_iops status b = do {
     buf \<leftarrow> fill_iops status (cfg_objects (cdb_config b)) (cdb_write_buffer b);
     Some (b\<lparr>cdb_write_buffer := buf, cdb_dirty := True\<rparr>) }"

fun fill_iocs :: "u8 \<Rightarrow> io_data_object list \<Rightarrow> bytes \<times> bool \<Rightarrow> (bytes \<times> bool) option" where
  "fill_iocs status [] bd = Some bd"
| "fill_iocs status (obj # objs) (buf, dirty) =
     (case obj_iocs_offset obj of
        Some off \<Rightarrow> do {
          v \<leftarrow> idx buf off;
          if v \<noteq> status then do {
            buf \<leftarrow> set_idx buf off status;
            fill_iocs status objs (buf, True) }
          else fill_iocs status objs (buf, dirty) }
      | None \<Rightarrow> fill_iocs status objs (buf, dirty))"

definition set_all_iocs :: "u8 \<Rightarrow> cyclic_data_builder \<Rightarrow> cyclic_data_builder option" where
  "set_all_iocs status b = do {
     bd \<leftarrow> fill_iocs status (cfg_objects (cdb_config b)) (cdb_write_buffer b, cdb_dirty b);
     Some (b\<lparr>cdb_write_buffer := fst bd, cdb_dirty := snd bd\<rparr>) }"

definition clear :: "cyclic_data_builder \<Rightarrow> cyclic_data_builder" where
  "clear b = b\<lparr>cdb_write_buffer := replicate (length (cdb_write_buffer b)) 0, cdb_dirty := True\<rparr>"

definition swap :: "cyclic_data_builder \<Rightarrow> cyclic_data_builder option" where
  "swap b =
     (if cdb_dirty b then do {
        send \<leftarrow> copy_into (cdb_send_buffer b) 0 (length (cdb_send_buffer b)) (cdb_write_buffer b);
        Some (b\<lparr>cdb_send_buffer := send, cdb_dirty := False\<rparr>) }
      else Some b)"

definition build :: "cyclic_data_builder \<Rightarrow> bytes" where
  "build b = cdb_send_buffer b"

definition is_dirty :: "cyclic_data_builder \<Rightarrow> bool" where
  "is_dirty b = cdb_dirty b"

definition load :: "bytes \<Rightarrow> cyclic_data_builder \<Rightarrow> cyclic_data_builder option" where
  "load payload b =
     (let n = min (length payload) (length (cdb_write_buffer b)) in do {
        src \<leftarrow> sub_slice payload 0 n;
        buf \<leftarrow> copy_into (cdb_write_buffer b) 0 n src;
        Some (b\<lparr>cdb_write_buffer := buf, cdb_dirty := True\<rparr>) })"

section \<open>The configuration pair\<close>

text \<open>
  The two loops of each direction, parameterised by the length they look at: data objects
  with their IOPS byte first, then one IOCS byte for every slot without data.
\<close>

fun data_objects :: "(io_slot \<Rightarrow> nat) \<Rightarrow> nat \<Rightarrow> io_slot list \<Rightarrow> io_data_object list \<times> nat" where
  "data_objects len off [] = ([], off)"
| "data_objects len off (s # ss) =
     (if 0 < len s then
        (let r = data_objects len (off + (len s + 1)) ss
         in (\<lparr>obj_slot = ios_slot s, obj_subslot = ios_subslot s, obj_frame_offset = off,
              obj_data_length = len s, obj_iops_offset = off + len s, obj_iocs_offset = None\<rparr> # fst r,
             snd r))
      else data_objects len off ss)"

fun iocs_objects :: "(io_slot \<Rightarrow> nat) \<Rightarrow> nat \<Rightarrow> io_slot list \<Rightarrow> io_data_object list \<times> nat" where
  "iocs_objects len off [] = ([], off)"
| "iocs_objects len off (s # ss) =
     (if len s = 0 then
        (let r = iocs_objects len (off + 1) ss
         in (\<lparr>obj_slot = ios_slot s, obj_subslot = ios_subslot s, obj_frame_offset = off,
              obj_data_length = 0, obj_iops_offset = 0, obj_iocs_offset = Some off\<rparr> # fst r,
             snd r))
      else iocs_objects len off ss)"

definition build_iocr_configs ::
    "io_slot list \<Rightarrow> u16 \<Rightarrow> u16 \<Rightarrow> u16 \<Rightarrow> u16 \<Rightarrow> u16 \<Rightarrow> iocr_config \<times> iocr_config" where
  "build_iocr_configs slots input_frame_id output_frame_id send_clock_factor reduction_ratio watchdog_factor =
     (let input_objects = data_objects ios_input_length 0 slots;
          input_end = snd input_objects + length (filter (\<lambda>s. ios_input_length s = 0) slots);
          input_iocr = \<lparr>cfg_iocr_type = IOCR_TYPE_INPUT, cfg_iocr_reference = 1,
            cfg_frame_id = input_frame_id, cfg_send_clock_factor = send_clock_factor,
            cfg_reduction_ratio = reduction_ratio, cfg_phase = 0, cfg_watchdog_factor = watchdog_factor,
            cfg_data_length = max input_end 40, cfg_objects = fst input_objects\<rparr>;
          output_objects = data_objects ios_output_length 0 slots;
          output_iocs = iocs_objects ios_output_length (snd output_objects) slots;
          output_iocr = \<lparr>cfg_iocr_type = IOCR_TYPE_OUTPUT, cfg_iocr_reference = 2,
            cfg_frame_id = output_frame_id, cfg_send_clock_factor = send_clock_factor,
            cfg_reduction_ratio = reduction_ratio, cfg_phase = 0, cfg_watchdog_factor = watchdog_factor,
            cfg_data_length = max (snd output_iocs) 40, cfg_objects = fst output_objects @ fst output_iocs\<rparr>
      in (input_iocr, output_iocr))"

section \<open>The frame codec\<close>

lemma rt_from_to_bytes: "rt_from_bytes (rt_to_bytes f) = Some (Inr f)"
  by (simp add: rt_from_bytes_def rt_to_bytes_def wire_simps nth_append)

lemma rt_from_bytes_total: "rt_from_bytes d \<noteq> None"
  by (auto simp: rt_from_bytes_def)

lemma list_tail4: "4 \<le> length d \<Longrightarrow>
    drop (length d - 4) d = [d ! (length d - 4), d ! (length d - 3), d ! (length d - 2), d ! (length d - 1)]"
  by (rule nth_equalityI) (auto simp: nth_Cons' less_Suc_eq_0_disj numeral_eq_Suc Suc_diff_Suc)

lemma rt_to_from_bytes:
  assumes "rt_from_bytes d = Some (Inr f)"
  shows "rt_to_bytes f = d"
proof -
  let ?n = "length d - 4"
  have n: "6 \<le> length d" using assms by (auto simp: rt_from_bytes_def split: if_splits)
  have f: "f = \<lparr>rf_frame_id = rd16 d 0, rf_cycle_counter = rd16 d ?n, rf_data_status = d ! (?n + 2),
      rf_transfer_status = d ! (?n + 3), rf_payload = take (?n - 2) (drop 2 d)\<rparr>"
    using assms n by (simp add: rt_from_bytes_def rd16_drop)
  have "take 2 d @ take (?n - 2) (drop 2 d) @ drop ?n d = d"
  proof -
    have "2 + (?n - 2) = ?n" using n by simp
    then have "take 2 d @ take (?n - 2) (drop 2 d) = take ?n d" by (metis take_add)
    then show ?thesis using append_take_drop_id [of ?n d] by (metis append.assoc)
  qed
  moreover have "to_be16 (rd16 d ?n) @ [d ! (?n + 2)] @ [d ! (?n + 3)] = drop ?n d"
    using n list_tail4 [of d] by (simp add: rd16_def numeral_eq_Suc Suc_diff_Suc)
  moreover have "to_be16 (rd16 d 0) = take 2 d" using to_be16_rd16 [of 0 d] n by simp
  ultimately show ?thesis by (simp add: f rt_to_bytes_def)
qed

interpretation rt: exact_codec rt_to_bytes rt_from_bytes "\<lambda>_. True"
  by unfold_locales (simp_all add: rt_from_to_bytes rt_from_bytes_total rt_to_from_bytes)

text \<open>
  The RT payload codec is exact: parsing never panics, an accepted payload re-encodes to
  the very bytes that were received, and every frame is read back as it was sent.
\<close>

theorem rt_codec_exact:
  "((\<exists>e. rt_from_bytes d = Some (Inl e)) \<or> (\<exists>f. rt_from_bytes d = Some (Inr f) \<and> rt_to_bytes f = d))
   \<and> rt_from_bytes (rt_to_bytes g) = Some (Inr g)"
  using rt.dec_cases rt.dec_enc by blast

lemma vlan_tag_rt: "VLAN_TAG_RT = concat (map vlan_tag [(0x8100, 0xC000)])"
  by (simp add: VLAN_TAG_RT_def vlan_tag_def to_be16_def)

lemma parse_build_frame:
  assumes "length dst_mac = 6" and "length src_mac = 6"
  shows "parse_ethernet_frame (build_ethernet_frame dst_mac src_mac f) = Some (Some f)"
proof -
  let ?e = "build_ethernet_frame dst_mac src_mac f"
  have e: "?e = (dst_mac @ src_mac) @ concat (map vlan_tag [(0x8100, 0xC000)])
      @ to_be16 ETHERTYPE_PROFINET @ rt_to_bytes f"
    by (simp add: build_ethernet_frame_def vlan_tag_rt Let_def)
  have "skip_vlan_tags ?e = Some (length (dst_mac @ src_mac) + 4 * length [(0x8100 :: u16, 0xC000 :: u16)])"
    using vlan_walk_tags [of "[(0x8100, 0xC000)]" ETHERTYPE_PROFINET "dst_mac @ src_mac" "rt_to_bytes f"] assms
    unfolding e skip_vlan_tags_def by (simp add: VLAN_TPIDS_def ETHERTYPE_PROFINET_def)
  then have at: "skip_vlan_tags ?e = Some 16" using assms by simp
  have l: "length ?e = 18 + length (rt_to_bytes f)" using assms by (simp add: e vlan_tag_def)
  have et: "rd16 ?e 16 = ETHERTYPE_PROFINET" "drop 18 ?e = rt_to_bytes f"
    using assms by (simp_all add: e vlan_tag_def wire_simps)
  show ?thesis by (simp add: parse_ethernet_frame_def l at et rt_from_to_bytes)
qed

text \<open>
  A frame this controller puts on the wire, priority tag included, is parsed by its own
  receive path to the same RT frame, whatever the addresses and the payload.
\<close>

theorem ethernet_frame_roundtrip:
  assumes "length dst_mac = 6" and "length src_mac = 6"
  shows "parse_ethernet_frame (build_ethernet_frame dst_mac src_mac f) = Some (Some f)"
  using assms by (rule parse_build_frame)

lemma ethernet_frame_witness:
  "parse_ethernet_frame (build_ethernet_frame [1,2,3,4,5,6] [6,5,4,3,2,1]
     \<lparr>rf_frame_id = 0x8001, rf_cycle_counter = 7, rf_data_status = 0x35, rf_transfer_status = 0,
      rf_payload = replicate 40 0\<rparr>)
   = Some (Some \<lparr>rf_frame_id = 0x8001, rf_cycle_counter = 7, rf_data_status = 0x35,
      rf_transfer_status = 0, rf_payload = replicate 40 0\<rparr>)"
  by (rule ethernet_frame_roundtrip) simp_all

lemma parse_ethernet_frame_total: "runs (parse_ethernet_frame d) (\<lambda>_. True)"
proof -
  obtain at where "skip_vlan_tags d = Some at" "12 \<le> at" "at = 12 \<or> at \<le> length d"
    by (rule skip_vlan_tags_Some)
  moreover obtain r where "rt_from_bytes (drop (at + 2) d) = Some r"
    using rt_from_bytes_total [of "drop (at + 2) d"] by blast
  ultimately show ?thesis by (auto simp: parse_ethernet_frame_def)
qed

section \<open>The layout of a configuration\<close>

text \<open>
  A laid-out configuration: the objects follow one another without gap or overlap, a data
  object with its IOPS byte right behind the data, an IOCS object as a single byte.
\<close>

definition obj_size :: "io_data_object \<Rightarrow> nat" where
  "obj_size obj = (if 0 < obj_data_length obj then obj_data_length obj + 1 else 1)"

definition obj_shape :: "io_data_object \<Rightarrow> bool" where
  "obj_shape obj =
     (if 0 < obj_data_length obj
      then obj_iops_offset obj = obj_frame_offset obj + obj_data_length obj \<and> obj_iocs_offset obj = None
      else obj_iocs_offset obj = Some (obj_frame_offset obj))"

fun chained :: "nat \<Rightarrow> io_data_object list \<Rightarrow> nat \<Rightarrow> bool" where
  "chained a [] e = (a \<le> e)"
| "chained a (obj # objs) e =
     (obj_frame_offset obj = a \<and> obj_shape obj \<and> chained (a + obj_size obj) objs e)"

lemma chained_le: "chained a objs e \<Longrightarrow> a \<le> e"
  by (induction a objs e rule: chained.induct) auto

lemma chained_mono: "chained a objs e \<Longrightarrow> e \<le> e' \<Longrightarrow> chained a objs e'"
  by (induction a objs e rule: chained.induct) auto

lemma chained_append: "chained a xs m \<Longrightarrow> chained m' ys e \<Longrightarrow>
    m' = a + sum_list (map obj_size xs) \<Longrightarrow> chained a (xs @ ys) e"
  by (induction a xs m rule: chained.induct) (auto simp: add.assoc)

lemma chained_mem:
  "chained a objs e \<Longrightarrow> obj \<in> set objs \<Longrightarrow>
   a \<le> obj_frame_offset obj \<and> obj_frame_offset obj + obj_size obj \<le> e \<and> obj_shape obj"
  by (induction a objs e rule: chained.induct) (auto dest: chained_le)

lemma chained_disjoint:
  "chained a objs e \<Longrightarrow> i < j \<Longrightarrow> j < length objs \<Longrightarrow>
   obj_frame_offset (objs ! i) + obj_size (objs ! i) \<le> obj_frame_offset (objs ! j)"
proof (induction a objs e arbitrary: i j rule: chained.induct)
  case (2 a obj objs e)
  then obtain j' where j: "j = Suc j'" by (cases j) auto
  show ?case
  proof (cases i)
    case 0
    have "objs ! j' \<in> set objs" using 2 j by simp
    then show ?thesis using 2(2) 0 j chained_mem by fastforce
  next
    case (Suc i')
    then show ?thesis using 2 j by simp
  qed
qed simp

lemma data_objects_chained:
  "data_objects len off ss = (objs, e) \<Longrightarrow> chained off objs e \<and> e = off + sum_list (map obj_size objs)"
  by (induction len off ss arbitrary: objs e rule: data_objects.induct)
    (auto simp: obj_shape_def obj_size_def Let_def prod_eq_iff split: if_splits)

lemma iocs_objects_chained:
  "iocs_objects len off ss = (objs, e) \<Longrightarrow> chained off objs e \<and> e = off + sum_list (map obj_size objs)"
  by (induction len off ss arbitrary: objs e rule: iocs_objects.induct)
    (auto simp: obj_shape_def obj_size_def Let_def prod_eq_iff split: if_splits)

definition config_ok :: "iocr_config \<Rightarrow> bool" where
  "config_ok c \<longleftrightarrow> chained 0 (cfg_objects c) (cfg_data_length c)"

lemma build_iocr_configs_ok:
  assumes "build_iocr_configs slots fi fo sc rr wd = (ci, co)"
  shows "config_ok ci" and "config_ok co" and "40 \<le> cfg_data_length ci" and "40 \<le> cfg_data_length co"
proof -
  obtain io ie where i: "data_objects ios_input_length 0 slots = (io, ie)" by fastforce
  obtain os oe where o': "data_objects ios_output_length 0 slots = (os, oe)" by fastforce
  obtain cs ce where c: "iocs_objects ios_output_length oe slots = (cs, ce)" by fastforce
  have ci: "cfg_objects ci = io" "ie \<le> cfg_data_length ci" and co: "cfg_objects co = os @ cs" "ce \<le> cfg_data_length co"
    using assms by (auto simp: build_iocr_configs_def i o' c Let_def)
  show "config_ok ci" unfolding config_ok_def ci(1)
    using data_objects_chained [OF i] ci(2) chained_mono by blast
  have "chained 0 (os @ cs) ce"
    using chained_append [of 0 os oe oe cs ce] data_objects_chained [OF o'] iocs_objects_chained [OF c] by auto
  then show "config_ok co" unfolding config_ok_def co(1) using co(2) chained_mono by blast
  show "40 \<le> cfg_data_length ci" and "40 \<le> cfg_data_length co"
    using assms by (auto simp: build_iocr_configs_def Let_def)
qed

section \<open>The builder\<close>

text \<open>
  The builder's invariant: the configuration is laid out, both buffers have its length, and a
  clean builder has nothing left to promote, which is what lets \<open>swap\<close> skip the copy.
\<close>

definition builder_ok :: "cyclic_data_builder \<Rightarrow> bool" where
  "builder_ok b \<longleftrightarrow> config_ok (cdb_config b)
     \<and> length (cdb_write_buffer b) = cfg_data_length (cdb_config b)
     \<and> length (cdb_send_buffer b) = cfg_data_length (cdb_config b)
     \<and> (\<not> cdb_dirty b \<longrightarrow> cdb_send_buffer b = cdb_write_buffer b)"

lemma builder_new_ok: "config_ok c \<Longrightarrow> builder_ok (builder_new c)"
  by (simp add: builder_ok_def builder_new_def Let_def)

lemma obj_in_bounds:
  assumes "config_ok c" and "obj \<in> set (cfg_objects c)"
  shows "obj_frame_offset obj + obj_data_length obj \<le> cfg_data_length c"
    and "0 < obj_data_length obj \<Longrightarrow> obj_iops_offset obj < cfg_data_length c"
    and "obj_iocs_offset obj = Some off \<Longrightarrow> off < cfg_data_length c"
  using chained_mem [OF assms(1) [unfolded config_ok_def] assms(2)]
  by (auto simp: obj_size_def obj_shape_def split: if_splits)

lemma find_obj_mem: "find_obj b s ss = Some obj \<Longrightarrow>
    obj \<in> set (cfg_objects (cdb_config b)) \<and> obj_slot obj = s \<and> obj_subslot obj = ss"
  by (auto simp: find_obj_def find_Some_iff)

lemma set_data_runs: "builder_ok b \<Longrightarrow>
    runs (set_data s ss d b) (\<lambda>r. builder_ok (snd r) \<and> cdb_config (snd r) = cdb_config b)"
  by (cases "find_obj b s ss")
    (auto simp: set_data_def builder_ok_def Let_def dest!: find_obj_mem dest: obj_in_bounds(1))

lemma set_iops_runs: "builder_ok b \<Longrightarrow>
    runs (set_iops s ss v b) (\<lambda>b'. builder_ok b' \<and> cdb_config b' = cdb_config b)"
  by (cases "find_obj b s ss")
    (auto simp: set_iops_def builder_ok_def dest!: find_obj_mem dest: obj_in_bounds(2))

lemma set_iocs_runs: "builder_ok b \<Longrightarrow>
    runs (set_iocs s ss v b) (\<lambda>b'. builder_ok b' \<and> cdb_config b' = cdb_config b)"
  by (cases "find_obj b s ss")
    (auto simp: set_iocs_def builder_ok_def dest!: find_obj_mem dest: obj_in_bounds(3)
      split: option.split)

lemma fill_iops_runs:
  "\<forall>obj \<in> set objs. 0 < obj_data_length obj \<longrightarrow> obj_iops_offset obj < length buf \<Longrightarrow>
   runs (fill_iops v objs buf) (\<lambda>buf'. length buf' = length buf)"
  by (induction v objs buf rule: fill_iops.induct) auto

lemma set_all_iops_runs:
  assumes "builder_ok b"
  shows "runs (set_all_iops v b) (\<lambda>b'. builder_ok b' \<and> cdb_config b' = cdb_config b)"
proof -
  have "runs (fill_iops v (cfg_objects (cdb_config b)) (cdb_write_buffer b))
      (\<lambda>buf'. length buf' = length (cdb_write_buffer b))"
    using assms by (intro fill_iops_runs) (auto simp: builder_ok_def dest: obj_in_bounds(2))
  then show ?thesis unfolding set_all_iops_def runs_bind
    by (rule runs_mono) (use assms in \<open>simp add: builder_ok_def\<close>)
qed

lemma fill_iocs_runs:
  "\<forall>obj \<in> set objs. \<forall>off. obj_iocs_offset obj = Some off \<longrightarrow> off < length buf \<Longrightarrow>
   runs (fill_iocs v objs (buf, d)) (\<lambda>r. length (fst r) = length buf \<and> (\<not> snd r \<longrightarrow> fst r = buf \<and> \<not> d))"
proof (induction objs arbitrary: buf d)
  case (Cons obj objs)
  show ?case
  proof (cases "obj_iocs_offset obj")
    case None
    then show ?thesis using Cons by simp
  next
    case (Some off)
    have "runs (fill_iocs v objs (buf[off := v], True))
        (\<lambda>r. length (fst r) = length buf \<and> (\<not> snd r \<longrightarrow> fst r = buf \<and> \<not> d))"
      using Cons.IH [of "buf[off := v]" True] Cons.prems by (auto elim: runs_mono)
    then show ?thesis using Cons Some by simp
  qed
qed simp

lemma set_all_iocs_runs:
  assumes "builder_ok b"
  shows "runs (set_all_iocs v b) (\<lambda>b'. builder_ok b' \<and> cdb_config b' = cdb_config b)"
proof -
  have "runs (fill_iocs v (cfg_objects (cdb_config b)) (cdb_write_buffer b, cdb_dirty b))
      (\<lambda>r. length (fst r) = length (cdb_write_buffer b)
        \<and> (\<not> snd r \<longrightarrow> fst r = cdb_write_buffer b \<and> \<not> cdb_dirty b))"
    using assms by (intro fill_iocs_runs) (auto simp: builder_ok_def dest: obj_in_bounds(3))
  then show ?thesis unfolding set_all_iocs_def runs_bind
    by (rule runs_mono) (use assms in \<open>simp add: builder_ok_def\<close>)
qed

lemma clear_ok: "builder_ok b \<Longrightarrow> builder_ok (clear b) \<and> cdb_config (clear b) = cdb_config b"
  by (simp add: clear_def builder_ok_def)

lemma load_runs: "builder_ok b \<Longrightarrow> runs (load d b) (\<lambda>b'. builder_ok b' \<and> cdb_config b' = cdb_config b)"
  by (simp add: load_def builder_ok_def Let_def)

lemma swap_runs: "builder_ok b \<Longrightarrow>
    runs (swap b) (\<lambda>b'. builder_ok b' \<and> cdb_config b' = cdb_config b
      \<and> cdb_write_buffer b' = cdb_write_buffer b \<and> build b' = cdb_write_buffer b)"
  by (auto simp: swap_def builder_ok_def build_def)

lemma get_data_runs: "builder_ok b \<Longrightarrow> runs (get_data s ss b) (\<lambda>_. True)"
  by (cases "find_obj b s ss")
    (auto simp: get_data_def builder_ok_def dest!: find_obj_mem dest: obj_in_bounds(1))

text \<open>The builder as an operation system: any sequence of its operations, none of which panics.\<close>

datatype builder_op =
    OpSetData u16 u16 bytes | OpSetIops u16 u16 u8 | OpSetIocs u16 u16 u8
  | OpSetAllIops u8 | OpSetAllIocs u8 | OpClear | OpSwap | OpLoad bytes

fun builder_exec :: "builder_op \<Rightarrow> cyclic_data_builder \<Rightarrow> cyclic_data_builder option" where
  "builder_exec (OpSetData s ss d) b = map_option snd (set_data s ss d b)"
| "builder_exec (OpSetIops s ss v) b = set_iops s ss v b"
| "builder_exec (OpSetIocs s ss v) b = set_iocs s ss v b"
| "builder_exec (OpSetAllIops v) b = set_all_iops v b"
| "builder_exec (OpSetAllIocs v) b = set_all_iocs v b"
| "builder_exec OpClear b = Some (clear b)"
| "builder_exec OpSwap b = swap b"
| "builder_exec (OpLoad d) b = load d b"

definition builder_step :: "builder_op \<Rightarrow> cyclic_data_builder option \<Rightarrow> cyclic_data_builder option" where
  "builder_step op m = Option.bind m (builder_exec op)"

lemma builder_exec_runs: "builder_ok b \<Longrightarrow>
    runs (builder_exec op b) (\<lambda>b'. builder_ok b' \<and> cdb_config b' = cdb_config b)"
proof (induction op)
  case (OpSetData s ss d)
  then show ?case using set_data_runs [of b s ss d] by (auto simp: runs_iff)
next
  case OpSwap
  then show ?case using swap_runs [of b] by (auto elim: runs_mono)
qed (simp_all add: set_iops_runs set_iocs_runs set_all_iops_runs set_all_iocs_runs clear_ok load_runs)

interpretation builder: op_system builder_step "\<lambda>m. runs m (\<lambda>b. builder_ok b \<and> cdb_config b = c)" for c
  by unfold_locales (auto simp: builder_step_def runs_bind runs_iff dest!: builder_exec_runs)

text \<open>
  No sequence of builder operations on a configuration built from IO slots panics, whatever
  the slots, the lengths and the slot numbers the caller names; and promoting the write buffer
  always leaves exactly the application's bytes in the send buffer, so skipping the copy of a
  clean builder loses nothing.
\<close>

theorem builder_total:
  "\<exists>b b'. fold builder_step ops
        (Some (builder_new ((if inp then fst else snd) (build_iocr_configs slots fi fo sc rr wd)))) = Some b
    \<and> swap b = Some b' \<and> build b' = cdb_write_buffer b
    \<and> length (build b')
      = cfg_data_length ((if inp then fst else snd) (build_iocr_configs slots fi fo sc rr wd))"
proof -
  define c where "c = (if inp then fst else snd) (build_iocr_configs slots fi fo sc rr wd)"
  have "config_ok c"
    using build_iocr_configs_ok [of slots fi fo sc rr wd] unfolding c_def by (metis prod.collapse)
  then have "runs (Some (builder_new c)) (\<lambda>b. builder_ok b \<and> cdb_config b = c)"
    by (simp add: builder_new_ok) (simp add: builder_new_def Let_def)
  from builder.run_inv [OF this, of ops]
  obtain b where b: "fold builder_step ops (Some (builder_new c)) = Some b" "builder_ok b" "cdb_config b = c"
    by (auto simp: runs_iff)
  then show ?thesis using swap_runs [OF b(2)] unfolding c_def [symmetric]
    by (auto simp: runs_iff builder_ok_def)
qed

lemma take_drop_other:
  "a + n \<le> length xs \<Longrightarrow> length src = n \<Longrightarrow> b + m \<le> a \<or> a + n \<le> b \<Longrightarrow>
   take m (drop b (take a xs @ src @ drop (a + n) xs)) = take m (drop b xs)"
  by (auto simp: drop_take min_def)

lemma chained_apart:
  assumes "config_ok c" and "x \<in> set (cfg_objects c)" and "y \<in> set (cfg_objects c)" and "x \<noteq> y"
  shows "obj_frame_offset x + obj_size x \<le> obj_frame_offset y \<or> obj_frame_offset y + obj_size y \<le> obj_frame_offset x"
proof -
  obtain i j where "i < length (cfg_objects c)" "x = cfg_objects c ! i" "j < length (cfg_objects c)"
    "y = cfg_objects c ! j" using assms(2,3) by (auto simp: in_set_conv_nth)
  then show ?thesis using assms(4) chained_disjoint [OF assms(1) [unfolded config_ok_def], of i j]
      chained_disjoint [OF assms(1) [unfolded config_ok_def], of j i] by (metis linorder_neqE_nat)
qed

definition splice :: "nat \<Rightarrow> bytes \<Rightarrow> bytes \<Rightarrow> bytes" where
  "splice off d xs = take off xs @ d @ drop (off + length d) xs"

lemma length_splice [simp]: "off + length d \<le> length xs \<Longrightarrow> length (splice off d xs) = length xs"
  by (simp add: splice_def)

lemma set_data_eq:
  assumes "builder_ok b" and "find_obj b s ss = Some obj"
  shows "set_data s ss d b = Some (Inr (), b\<lparr>cdb_write_buffer :=
      splice (obj_frame_offset obj) (take (obj_data_length obj) d) (cdb_write_buffer b), cdb_dirty := True\<rparr>)"
proof -
  have "obj_frame_offset obj + obj_data_length obj \<le> length (cdb_write_buffer b)"
    using obj_in_bounds(1) find_obj_mem [OF assms(2)] assms(1) by (auto simp: builder_ok_def)
  then show ?thesis by (simp add: set_data_def assms(2) Let_def splice_def min_def)
qed

lemma splice_region:
  assumes "off + n \<le> length xs"
  shows "take n (drop off (splice off (take n d) xs)) = take n d @ drop (length d) (take n (drop off xs))"
  using assms by (simp add: splice_def min_def drop_take add.commute)

text \<open>
  Writing a slot's output data changes that slot's data bytes and nothing else: reading the
  slot back gives the new bytes over the old ones, truncated to the object, and every other
  slot, and every provider and consumer status byte, keeps its value.
\<close>

theorem set_data_get_data:
  assumes "builder_ok b" and "find_obj b s ss = Some obj"
  shows "\<exists>b' old. set_data s ss d b = Some (Inr (), b') \<and> get_data s ss b = Some (Inr old)
    \<and> get_data s ss b' = Some (Inr (take (obj_data_length obj) d @ drop (length d) old))
    \<and> (\<forall>t ts. (t, ts) \<noteq> (s, ss) \<longrightarrow> get_data t ts b' = get_data t ts b)
    \<and> (\<forall>o' \<in> set (cfg_objects (cdb_config b)). 0 < obj_data_length o' \<longrightarrow>
         cdb_write_buffer b' ! obj_iops_offset o' = cdb_write_buffer b ! obj_iops_offset o')"
proof -
  let ?w = "cdb_write_buffer b" and ?off = "obj_frame_offset obj" and ?dl = "obj_data_length obj"
  let ?n = "min (length d) ?dl"
  let ?w' = "splice ?off (take ?dl d) ?w"
  define b' where "b' = b\<lparr>cdb_write_buffer := ?w', cdb_dirty := True\<rparr>"
  have cfg: "config_ok (cdb_config b)" and lw: "length ?w = cfg_data_length (cdb_config b)"
    using assms(1) by (auto simp: builder_ok_def)
  have mem: "obj \<in> set (cfg_objects (cdb_config b))" using find_obj_mem [OF assms(2)] by simp
  have bnd: "?off + ?dl \<le> length ?w" using obj_in_bounds(1) [OF cfg mem] lw by simp
  have set: "set_data s ss d b = Some (Inr (), b')"
    unfolding b'_def by (rule set_data_eq [OF assms])
  have fo: "find_obj b' t ts = find_obj b t ts" for t ts by (simp add: find_obj_def b'_def)
  have get: "get_data s ss b = Some (Inr (take ?dl (drop ?off ?w)))"
    using bnd by (simp add: get_data_def assms(2))
  have lw': "length ?w' = length ?w" using bnd by simp
  have "take ?dl (drop ?off ?w') = take ?dl d @ drop (length d) (take ?dl (drop ?off ?w))"
    using bnd by (rule splice_region)
  then have get': "get_data s ss b' = Some (Inr (take ?dl d @ drop (length d) (take ?dl (drop ?off ?w))))"
    using bnd lw' by (simp add: get_data_def fo assms(2)) (simp add: b'_def)
  have other: "get_data t ts b' = get_data t ts b" if ne: "(t, ts) \<noteq> (s, ss)" for t ts
  proof (cases "find_obj b t ts")
    case (Some o')
    have o': "o' \<in> set (cfg_objects (cdb_config b))" "o' \<noteq> obj"
      using find_obj_mem [OF Some] find_obj_mem [OF assms(2)] ne by auto
    have "?off + ?n \<le> obj_frame_offset o' \<or> obj_frame_offset o' + obj_data_length o' \<le> ?off"
      using chained_apart [OF cfg mem o'(1)] o'(2) by (auto simp: obj_size_def split: if_splits)
    then have "take (obj_data_length o') (drop (obj_frame_offset o') ?w')
        = take (obj_data_length o') (drop (obj_frame_offset o') ?w)"
      using bnd unfolding splice_def by (intro take_drop_other) auto
    then show ?thesis using obj_in_bounds(1) [OF cfg o'(1)] lw lw'
      by (simp add: get_data_def fo Some) (simp add: b'_def)
  qed (simp add: get_data_def fo)
  have iops: "?w' ! obj_iops_offset o' = ?w ! obj_iops_offset o'"
    if o': "o' \<in> set (cfg_objects (cdb_config b))" "0 < obj_data_length o'" for o'
  proof -
    have sh: "obj_iops_offset o' = obj_frame_offset o' + obj_data_length o'"
      using chained_mem [OF cfg [unfolded config_ok_def] o'(1)] o'(2) by (simp add: obj_shape_def)
    have "obj_iops_offset o' < ?off \<or> ?off + ?n \<le> obj_iops_offset o'"
      using chained_apart [OF cfg mem o'(1)] o'(2) sh by (cases "o' = obj") (auto simp: obj_size_def split: if_splits)
    then show ?thesis using bnd obj_in_bounds(2) [OF cfg o'(1) o'(2)] lw
      by (auto simp: splice_def nth_append min_def)
  qed
  have "cdb_write_buffer b' = ?w'" by (simp add: b'_def)
  then show ?thesis using set get get' other iops by fastforce
qed

definition sample_slots :: "io_slot list" where
  "sample_slots =
     [\<lparr>ios_slot = 1, ios_subslot = 1, ios_module_ident = 1, ios_submodule_ident = 1,
       ios_input_length = 2, ios_output_length = 0\<rparr>,
      \<lparr>ios_slot = 2, ios_subslot = 1, ios_module_ident = 2, ios_submodule_ident = 1,
       ios_input_length = 0, ios_output_length = 3\<rparr>]"

definition sample_output_config :: iocr_config where
  "sample_output_config = snd (build_iocr_configs sample_slots 0x8001 0x8002 32 32 3)"

lemma sample_output_config_ok: "config_ok sample_output_config"
  unfolding sample_output_config_def
  using build_iocr_configs_ok(2) by (metis prod.collapse)

lemma sample_find_obj:
  "find_obj (builder_new sample_output_config) 2 1 =
     Some \<lparr>obj_slot = 2, obj_subslot = 1, obj_frame_offset = 0, obj_data_length = 3,
           obj_iops_offset = 3, obj_iocs_offset = None\<rparr>"
  by (simp add: find_obj_def builder_new_def sample_output_config_def build_iocr_configs_def
      sample_slots_def Let_def)

lemma set_data_get_data_witness:
  "\<exists>b'. set_data 2 1 [7, 8] (builder_new sample_output_config) = Some (Inr (), b')
     \<and> get_data 2 1 b' = Some (Inr [7, 8, 0])"
proof -
  let ?b = "builder_new sample_output_config"
  have get: "get_data 2 1 ?b = Some (Inr [0, 0, 0])"
    unfolding get_data_def sample_find_obj
    by (simp add: builder_new_def sample_output_config_def build_iocr_configs_def
        sample_slots_def Let_def eval_nat_numeral)
  show ?thesis
    using set_data_get_data [OF builder_new_ok [OF sample_output_config_ok] sample_find_obj, of "[7, 8]"] get
    by auto
qed

end
