(* ===== verification/Connect.thy ===== *)
theory Connect
  imports Rpc Rt
begin

text \<open>
  Model of \<open>src/connect.rs\<close>: the blocks of a Connect request and the request itself. A
  \<open>u16\<close> counter that the source increments and the frame-ID addition panic when they
  overflow; those builders are in the panic monad, the others cannot fail.
\<close>

definition AR_TYPE_IOCAR_SINGLE :: u16 where "AR_TYPE_IOCAR_SINGLE = 0x0001"
definition AR_TYPE_IOSAR :: u16 where "AR_TYPE_IOSAR = 0x0006"
definition AR_PROPERTIES_IOCAR :: u32 where "AR_PROPERTIES_IOCAR = 0x00000011"
definition AR_PROPERTIES_DEVICE_ACCESS :: u32 where "AR_PROPERTIES_DEVICE_ACCESS = 0x00000111"
definition DEFAULT_RTA_TIMEOUT_FACTOR :: u16 where "DEFAULT_RTA_TIMEOUT_FACTOR = 1"
definition DEFAULT_RTA_RETRIES :: u16 where "DEFAULT_RTA_RETRIES = 3"
definition DEFAULT_MAX_ALARM_DATA_LENGTH :: u16 where "DEFAULT_MAX_ALARM_DATA_LENGTH = 200"
definition DEFAULT_TAG_HEADER_HIGH :: u16 where "DEFAULT_TAG_HEADER_HIGH = 0xC000"
definition DEFAULT_TAG_HEADER_LOW :: u16 where "DEFAULT_TAG_HEADER_LOW = 0xA000"

definition CM_INITIATOR_OBJECT_UUID :: bytes where
  "CM_INITIATOR_OBJECT_UUID =
     [0xDE, 0xA0, 0x00, 0x00, 0x6C, 0x97, 0x11, 0xD1, 0x82, 0x71, 0x00, 0x01, 0x76, 0x54, 0x32, 0x10]"

record iocr_setup =
  is_io_slots :: "io_slot list"
  is_send_clock_factor :: u16
  is_reduction_ratio :: u16
  is_watchdog_factor :: u16
  is_data_hold_factor :: u16

definition apply_zero_io_exclusion :: "io_slot list \<Rightarrow> bool \<Rightarrow> io_slot list" where
  "apply_zero_io_exclusion slots exclude =
     (if \<not> exclude then slots
      else filter (\<lambda>s. 0 < ios_input_length s \<or> 0 < ios_output_length s) slots)"

definition block_header1 :: "u16 \<Rightarrow> u16 \<Rightarrow> bytes" where
  "block_header1 block_type block_length =
     to_be16 block_type @ to_be16 block_length @ [0x01] @ [0x00]"

definition ar_block_req :: "u16 \<Rightarrow> bytes \<Rightarrow> u16 \<Rightarrow> bytes \<Rightarrow> u32 \<Rightarrow> bytes \<Rightarrow> bytes" where
  "ar_block_req ar_type ar_uuid session_key cm_mac ar_properties cm_station_name =
     block_header1 0x0101 (as_u16 (54 + length cm_station_name))
     @ to_be16 ar_type @ ar_uuid @ to_be16 session_key @ cm_mac @ CM_INITIATOR_OBJECT_UUID
     @ to_be32 ar_properties @ to_be16 100 @ to_be16 0x8892
     @ to_be16 (as_u16 (length cm_station_name)) @ cm_station_name"

definition iocr_api_object :: "u16 \<Rightarrow> u16 \<Rightarrow> u16 \<Rightarrow> bytes" where
  "iocr_api_object slot subslot frame_offset = to_be16 slot @ to_be16 subslot @ to_be16 frame_offset"

text \<open>The two loops of an IOCR block: the bytes of the entries, the running offset, the count.\<close>

fun io_data_loop :: "u16 \<Rightarrow> io_slot list \<Rightarrow> bytes \<times> nat \<times> u16 \<Rightarrow> (bytes \<times> nat \<times> u16) option" where
  "io_data_loop ty [] st = Some st"
| "io_data_loop ty (s # ss) (objects, frame_offset, num_objects) =
     (let data_len = (if ty = 1 then ios_input_length s else ios_output_length s) in
      if 0 < data_len then
        (if num_objects = 0xFFFF then None
         else io_data_loop ty ss
           (objects @ iocr_api_object (ios_slot s) (ios_subslot s) (as_u16 frame_offset),
            frame_offset + (data_len + 1), num_objects + 1))
      else io_data_loop ty ss (objects, frame_offset, num_objects))"

fun iocs_loop :: "u16 \<Rightarrow> io_slot list \<Rightarrow> bytes \<times> nat \<times> u16 \<Rightarrow> (bytes \<times> nat \<times> u16) option" where
  "iocs_loop ty [] st = Some st"
| "iocs_loop ty (s # ss) (iocs, frame_offset, iocs_count) =
     (if ty = 1 \<and> 0 < ios_input_length s then iocs_loop ty ss (iocs, frame_offset, iocs_count)
      else if ty = 2 \<and> 0 < ios_output_length s then iocs_loop ty ss (iocs, frame_offset, iocs_count)
      else if iocs_count = 0xFFFF then None
      else iocs_loop ty ss
        (iocs @ iocr_api_object (ios_slot s) (ios_subslot s) (as_u16 frame_offset),
         frame_offset + 1, iocs_count + 1))"

definition iocr_block_req :: "u16 \<Rightarrow> u16 \<Rightarrow> iocr_setup \<Rightarrow> bytes option" where
  "iocr_block_req iocr_type iocr_reference su = do {
     d \<leftarrow> io_data_loop iocr_type (is_io_slots su) ([], 0, 0);
     (let objects = fst d; num_objects = snd (snd d) in do {
        c \<leftarrow> iocs_loop iocr_type (is_io_slots su) ([], fst (snd d), 0);
        (let iocs = fst c; iocs_count = snd (snd c);
             data_length = as_u16 (max (fst (snd c)) 40);
             api_block_len = 4 + 2 + length objects + 2 + length iocs in do {
           frame_id \<leftarrow> (if iocr_type = 1
                       then (if 0x4000 \<le> iocr_reference then None else Some (0xC000 + iocr_reference))
                       else Some 0xFFFF);
           Some (block_header1 0x0102 (as_u16 (46 + api_block_len - 4))
             @ to_be16 iocr_type @ to_be16 iocr_reference @ to_be16 0x8892 @ to_be32 0x00000001
             @ to_be16 data_length @ to_be16 frame_id @ to_be16 (is_send_clock_factor su)
             @ to_be16 (is_reduction_ratio su) @ to_be16 1 @ to_be16 0 @ to_be32 0xFFFFFFFF
             @ to_be16 (is_watchdog_factor su) @ to_be16 (is_data_hold_factor su)
             @ to_be16 0xC000 @ replicate 6 0 @ to_be16 1 @ to_be32 0 @ to_be16 num_objects @ objects
             @ to_be16 iocs_count @ iocs) }) }) }"

definition alarm_cr_block :: "u16 \<Rightarrow> u16 \<Rightarrow> u16 \<Rightarrow> bytes" where
  "alarm_cr_block local_alarm_reference transport priority =
     (let lt = (if transport = 0 then 0x8892 else 0x0800) :: u16 in
      block_header1 0x0103 22 @ to_be16 0x0001 @ to_be16 lt
      @ to_be32 (push_bit 1 (ucast transport) OR ucast priority)
      @ to_be16 DEFAULT_RTA_TIMEOUT_FACTOR @ to_be16 DEFAULT_RTA_RETRIES @ to_be16 local_alarm_reference
      @ to_be16 DEFAULT_MAX_ALARM_DATA_LENGTH @ to_be16 DEFAULT_TAG_HEADER_HIGH @ to_be16 DEFAULT_TAG_HEADER_LOW)"

section \<open>ExpectedSubmoduleBlockReq\<close>

text \<open>An API entry: slot, module ident, the submodules' bytes, their count.\<close>

type_synonym api_entry = "u16 \<times> u32 \<times> bytes \<times> u16"

definition submodule_type :: "io_slot \<Rightarrow> u16" where
  "submodule_type s =
     (if 0 < ios_input_length s then (if 0 < ios_output_length s then 3 else 1)
      else (if 0 < ios_output_length s then 2 else 0))"

definition submodule_dds :: "io_slot \<Rightarrow> (u16 \<times> u16) list" where
  "submodule_dds s =
     (let ty = submodule_type s in
      (if ty = 0 \<or> ty = 1 \<or> ty = 3 then [(1, as_u16 (ios_input_length s))] else [])
      @ (if ty = 2 \<or> ty = 3 then [(2, as_u16 (ios_output_length s))] else []))"

definition submodule_bytes :: "io_slot \<Rightarrow> bytes" where
  "submodule_bytes s =
     to_be16 (ios_subslot s) @ to_be32 (ios_submodule_ident s) @ to_be16 (submodule_type s)
     @ concat (map (\<lambda>(dd, len). to_be16 dd @ to_be16 len @ [1] @ [1]) (submodule_dds s))"

text \<open>One slot of the loop: find its entry by position or push a new one, then append to it.\<close>

fun add_submodule :: "io_slot \<Rightarrow> api_entry list \<Rightarrow> api_entry list option" where
  "add_submodule s [] = Some [(ios_slot s, ios_module_ident s, submodule_bytes s, 1)]"
| "add_submodule s ((sl, mi, sub, n) # apis) =
     (if sl = ios_slot s
      then (if n = 0xFFFF then None else Some ((sl, mi, sub @ submodule_bytes s, n + 1) # apis))
      else do { rest \<leftarrow> add_submodule s apis; Some ((sl, mi, sub, n) # rest) })"

fun expected_apis :: "io_slot list \<Rightarrow> api_entry list \<Rightarrow> api_entry list option" where
  "expected_apis [] apis = Some apis"
| "expected_apis (s # ss) apis = do { apis' \<leftarrow> add_submodule s apis; expected_apis ss apis' }"

definition api_bytes :: "api_entry \<Rightarrow> bytes" where
  "api_bytes e =
     (case e of (slot, module_ident, submodules, num_submodules) \<Rightarrow>
        to_be32 0 @ to_be16 slot @ to_be32 module_ident @ to_be16 0 @ to_be16 num_submodules @ submodules)"

definition expected_submodule_block :: "iocr_setup \<Rightarrow> bytes option" where
  "expected_submodule_block su = do {
     apis \<leftarrow> expected_apis (is_io_slots su) [];
     (let body = to_be16 (as_u16 (length apis)) @ concat (map api_bytes apis)
      in Some (block_header1 0x0104 (as_u16 (length body + 2)) @ body)) }"

section \<open>The requests\<close>

definition build_connect_request ::
    "bytes \<Rightarrow> bytes \<Rightarrow> bytes \<Rightarrow> bytes \<Rightarrow> u16 \<Rightarrow> bytes \<Rightarrow> bytes \<Rightarrow> iocr_setup \<Rightarrow> u32 \<Rightarrow> bytes option" where
  "build_connect_request obj_uuid iface_uuid activity_uuid ar_uuid session_key cm_mac cm_station_name su sq = do {
     input_iocr \<leftarrow> iocr_block_req 1 1 su;
     output_iocr \<leftarrow> iocr_block_req 2 2 su;
     expected \<leftarrow> expected_submodule_block su;
     (let body = ar_block_req AR_TYPE_IOCAR_SINGLE ar_uuid session_key cm_mac AR_PROPERTIES_IOCAR cm_station_name
            @ input_iocr @ output_iocr @ alarm_cr_block 1 0 0 @ expected
      in Some (rpc_request obj_uuid iface_uuid activity_uuid sq CONNECT (nrd body))) }"

definition build_device_access_connect_request ::
    "bytes \<Rightarrow> bytes \<Rightarrow> bytes \<Rightarrow> bytes \<Rightarrow> u16 \<Rightarrow> bytes \<Rightarrow> bytes \<Rightarrow> u32 \<Rightarrow> bytes" where
  "build_device_access_connect_request obj_uuid iface_uuid activity_uuid ar_uuid session_key cm_mac cm_station_name sq =
     (let body = ar_block_req AR_TYPE_IOSAR ar_uuid session_key cm_mac AR_PROPERTIES_DEVICE_ACCESS cm_station_name
      in rpc_request obj_uuid iface_uuid activity_uuid sq CONNECT (nrd body))"

section \<open>Agreement with the runtime layout\<close>

definition dir_len :: "u16 \<Rightarrow> io_slot \<Rightarrow> nat" where
  "dir_len ty s = (if ty = 1 then ios_input_length s else ios_output_length s)"

definition entry_bytes :: "io_data_object \<Rightarrow> bytes" where
  "entry_bytes o' = iocr_api_object (obj_slot o') (obj_subslot o') (as_u16 (obj_frame_offset o'))"

lemma u16_count: "unat (n :: u16) + Suc k < 65536 \<Longrightarrow> n \<noteq> 0xFFFF \<and> unat (n + 1) = unat n + 1"
  by (auto simp: unat_word_ariths)

lemma io_data_loop_eq:
  "unat n + length ss < 65536 \<Longrightarrow>
   io_data_loop ty ss (objs, off, n) = Some (objs @ concat (map entry_bytes (fst (data_objects (dir_len ty) off ss))),
     snd (data_objects (dir_len ty) off ss), n + of_nat (length (fst (data_objects (dir_len ty) off ss))))"
proof (induction ss arbitrary: objs off n)
  case (Cons s ss)
  have n: "n \<noteq> 0xFFFF" "unat (n + 1) = unat n + 1" using Cons.prems u16_count [of n "length ss"] by auto
  have dl: "(if ty = 1 then ios_input_length s else ios_output_length s) = dir_len ty s" by (simp add: dir_len_def)
  show ?case
  proof (cases "0 < dir_len ty s")
    case True
    then show ?thesis using Cons.IH [of "n + 1"] n Cons.prems
      by (simp add: dl entry_bytes_def Let_def)
  next
    case False
    then show ?thesis using Cons by (simp add: dl Let_def)
  qed
qed simp

lemma iocs_loop_eq:
  "ty = 1 \<or> ty = 2 \<Longrightarrow> unat n + length ss < 65536 \<Longrightarrow>
   iocs_loop ty ss (bs, off, n) = Some (bs @ concat (map entry_bytes (fst (iocs_objects (dir_len ty) off ss))),
     snd (iocs_objects (dir_len ty) off ss), n + of_nat (length (fst (iocs_objects (dir_len ty) off ss))))"
proof (induction ss arbitrary: bs off n)
  case (Cons s ss)
  have n: "n \<noteq> 0xFFFF" "unat (n + 1) = unat n + 1" using Cons.prems u16_count [of n "length ss"] by auto
  have dl: "iocs_loop ty (s # ss) (bs, off, n) =
      (if 0 < dir_len ty s then iocs_loop ty ss (bs, off, n)
       else iocs_loop ty ss (bs @ iocr_api_object (ios_slot s) (ios_subslot s) (as_u16 off), off + 1, n + 1))"
    using Cons.prems(1) n by (auto simp: dir_len_def)
  show ?case
  proof (cases "0 < dir_len ty s")
    case True
    then show ?thesis using Cons by (simp add: dl del: iocs_loop.simps(2))
  next
    case False
    then show ?thesis using Cons.IH [of "n + 1"] n Cons.prems
      by (simp add: dl entry_bytes_def Let_def del: iocs_loop.simps(2))
  qed
qed simp

lemma length_data_objects: "length (fst (data_objects len off ss)) = length (filter (\<lambda>s. 0 < len s) ss)"
  by (induction len off ss rule: data_objects.induct) (simp_all add: Let_def)

lemma length_iocs_objects: "length (fst (iocs_objects len off ss)) = length (filter (\<lambda>s. len s = 0) ss)"
  by (induction len off ss rule: iocs_objects.induct) (simp_all add: Let_def)

lemma snd_iocs_objects: "snd (iocs_objects len off ss) = off + length (filter (\<lambda>s. len s = 0) ss)"
  by (induction len off ss rule: iocs_objects.induct) (simp_all add: Let_def)

lemma length_entry_bytes: "length (concat (map entry_bytes os)) = 6 * length os"
  by (induction os) (simp_all add: entry_bytes_def iocr_api_object_def)

text \<open>A reader of the entry list, as the device sees it.\<close>

fun read_entries :: "nat \<Rightarrow> bytes \<Rightarrow> (u16 \<times> u16 \<times> u16) list" where
  "read_entries 0 d = []"
| "read_entries (Suc n) d = (rd16 d 0, rd16 d 2, rd16 d 4) # read_entries n (drop 6 d)"

definition layout_entry :: "io_data_object \<Rightarrow> u16 \<times> u16 \<times> u16" where
  "layout_entry o' = (obj_slot o', obj_subslot o', as_u16 (obj_frame_offset o'))"

lemma read_entry_bytes:
  "read_entries (length os) (concat (map entry_bytes os) @ rest) = map layout_entry os"
  by (induction os) (simp_all add: entry_bytes_def iocr_api_object_def layout_entry_def wire_simps)

definition data_part :: "u16 \<Rightarrow> io_slot list \<Rightarrow> io_data_object list" where
  "data_part ty slots = fst (data_objects (dir_len ty) 0 slots)"

definition iocs_part :: "u16 \<Rightarrow> io_slot list \<Rightarrow> io_data_object list" where
  "iocs_part ty slots = fst (iocs_objects (dir_len ty) (snd (data_objects (dir_len ty) 0 slots)) slots)"

definition frame_end :: "u16 \<Rightarrow> io_slot list \<Rightarrow> nat" where
  "frame_end ty slots = snd (iocs_objects (dir_len ty) (snd (data_objects (dir_len ty) 0 slots)) slots)"

lemma part_lengths: "length (data_part ty slots) + length (iocs_part ty slots) = length slots"
proof -
  have "length (filter (\<lambda>s. 0 < f s) ss) + length (filter (\<lambda>s. f s = 0) ss) = length ss"
    for f :: "io_slot \<Rightarrow> nat" and ss by (induction ss) auto
  then show ?thesis by (simp add: data_part_def iocs_part_def length_data_objects length_iocs_objects)
qed

lemma iocr_block_req_eq:
  assumes "ty = 1 \<or> ty = 2" and "ref < 0x4000" and "length (is_io_slots su) < 65536"
  defines "ds \<equiv> data_part ty (is_io_slots su)" and "cs \<equiv> iocs_part ty (is_io_slots su)"
  shows "iocr_block_req ty ref su = Some
    (block_header1 0x0102 (as_u16 (50 + 6 * length (is_io_slots su)))
     @ to_be16 ty @ to_be16 ref @ to_be16 0x8892 @ to_be32 0x00000001
     @ to_be16 (as_u16 (max (frame_end ty (is_io_slots su)) 40))
     @ to_be16 (if ty = 1 then 0xC000 + ref else 0xFFFF) @ to_be16 (is_send_clock_factor su)
     @ to_be16 (is_reduction_ratio su) @ to_be16 1 @ to_be16 0 @ to_be32 0xFFFFFFFF
     @ to_be16 (is_watchdog_factor su) @ to_be16 (is_data_hold_factor su)
     @ to_be16 0xC000 @ replicate 6 0 @ to_be16 1 @ to_be32 0
     @ to_be16 (as_u16 (length ds)) @ concat (map entry_bytes ds)
     @ to_be16 (as_u16 (length cs)) @ concat (map entry_bytes cs))"
proof -
  have l: "length ds + length cs = length (is_io_slots su)" unfolding ds_def cs_def by (rule part_lengths)
  have d: "io_data_loop ty (is_io_slots su) ([], 0, 0)
      = Some (concat (map entry_bytes ds), snd (data_objects (dir_len ty) 0 (is_io_slots su)), as_u16 (length ds))"
    using io_data_loop_eq [of 0 "is_io_slots su" ty "[]" 0] assms(3)
    by (simp add: ds_def data_part_def as_u16_def)
  have c: "iocs_loop ty (is_io_slots su) ([], snd (data_objects (dir_len ty) 0 (is_io_slots su)), 0)
      = Some (concat (map entry_bytes cs), frame_end ty (is_io_slots su), as_u16 (length cs))"
    using iocs_loop_eq [OF assms(1), of 0 "is_io_slots su" "[]"] assms(3)
    by (simp add: cs_def iocs_part_def frame_end_def as_u16_def)
  have len: "length (concat (map entry_bytes ds)) + length (concat (map entry_bytes cs))
      = 6 * length (is_io_slots su)"
    using l by (simp only: length_entry_bytes)
  have r: "\<not> 0x4000 \<le> ref" using assms(2) by simp
  show ?thesis
    using r assms(1) by (auto simp: iocr_block_req_def d c len Let_def simp del: length_concat)
qed

lemma configs_parts:
  assumes "build_iocr_configs slots fi fo sc rr wd = (ci, co)"
  shows "cfg_objects ci = data_part 1 slots" and "cfg_objects co = data_part 2 slots @ iocs_part 2 slots"
    and "cfg_data_length ci = max (frame_end 1 slots) 40" and "cfg_data_length co = max (frame_end 2 slots) 40"
proof -
  have "dir_len 1 = ios_input_length" "dir_len 2 = ios_output_length" by (auto simp: dir_len_def)
  then show "cfg_objects ci = data_part 1 slots" and "cfg_objects co = data_part 2 slots @ iocs_part 2 slots"
    and "cfg_data_length ci = max (frame_end 1 slots) 40" and "cfg_data_length co = max (frame_end 2 slots) 40"
    using assms by (auto simp: build_iocr_configs_def data_part_def iocs_part_def frame_end_def
        snd_iocs_objects Let_def)
qed

text \<open>The fields of an IOCR block, read at their wire offsets.\<close>

record iocr_fields =
  ib_length :: nat
  ib_data_length :: u16
  ib_frame_id :: u16
  ib_io_data :: "(u16 \<times> u16 \<times> u16) list"
  ib_iocs :: "(u16 \<times> u16 \<times> u16) list"

definition read_iocr :: "bytes \<Rightarrow> iocr_fields" where
  "read_iocr b =
     (let n = unat (rd16 b 50); k = 52 + 6 * n in
      \<lparr>ib_length = 4 + unat (rd16 b 2), ib_data_length = rd16 b 16, ib_frame_id = rd16 b 18,
       ib_io_data = read_entries n (drop 52 b),
       ib_iocs = read_entries (unat (rd16 b k)) (drop (k + 2) b)\<rparr>)"

lemma read_iocr_eq:
  assumes "length ds + length cs < 65536 div 6 - 9" and "l = 50 + 6 * (length ds + length cs)"
    and "b = block_header1 0x0102 (as_u16 l)
     @ to_be16 ty @ to_be16 ref @ to_be16 0x8892 @ to_be32 0x00000001
     @ to_be16 dl @ to_be16 fid @ to_be16 sc @ to_be16 rr @ to_be16 1 @ to_be16 0 @ to_be32 0xFFFFFFFF
     @ to_be16 wd @ to_be16 dh @ to_be16 0xC000 @ replicate 6 0 @ to_be16 1 @ to_be32 0
     @ to_be16 (as_u16 (length ds)) @ concat (map entry_bytes ds)
     @ to_be16 (as_u16 (length cs)) @ concat (map entry_bytes cs)"
  shows "read_iocr b = \<lparr>ib_length = length b, ib_data_length = dl, ib_frame_id = fid,
      ib_io_data = map layout_entry ds, ib_iocs = map layout_entry cs\<rparr>"
proof -
  have bounds: "length ds < 65536" "length cs < 65536" "l < 65536" using assms(1,2) by auto
  have lb: "length (block_header1 t x) = 6" for t x by (simp add: block_header1_def)
  have r0: "rd16 (block_header1 t x @ r) 2 = x" for t x r by (simp add: block_header1_def wire_simps)
  have 1: "rd16 b 2 = as_u16 l" "rd16 b 16 = dl" "rd16 b 18 = fid" "rd16 b 50 = as_u16 (length ds)"
    using r0 by (simp_all add: assms(3) lb wire_simps)
  have 2: "drop 52 b = concat (map entry_bytes ds) @ to_be16 (as_u16 (length cs)) @ concat (map entry_bytes cs)"
    by (simp add: assms(3) lb)
  let ?k = "52 + 6 * length ds"
  have 3: "drop ?k b = to_be16 (as_u16 (length cs)) @ concat (map entry_bytes cs)"
  proof -
    have "drop ?k b = drop (6 * length ds) (drop 52 b)" by (simp add: add.commute)
    then show ?thesis unfolding 2 by (simp add: length_entry_bytes del: length_concat)
  qed
  have 4: "drop (?k + 2) b = concat (map entry_bytes cs)"
  proof -
    have "drop (?k + 2) b = drop 2 (drop ?k b)" by (simp add: add.commute)
    then show ?thesis unfolding 3 by simp
  qed
  have lenb: "length b = 54 + 6 * (length ds + length cs)"
    by (simp add: assms(3) lb length_entry_bytes del: length_concat)
  have 5: "rd16 b ?k = as_u16 (length cs)"
    using rd16_drop [of ?k b 0] lenb unfolding 3 by (simp add: wire_simps)
  show ?thesis
    using 1 2 3 4 5 bounds lenb assms(2) read_entry_bytes [of ds] read_entry_bytes [of cs "[]"]
    by (simp add: read_iocr_def Let_def)
qed

lemma iocr_block_fields:
  assumes "ty = 1 \<or> ty = 2" and "ref < 0x4000" and "length (is_io_slots su) \<le> 10000"
  shows "\<exists>b. iocr_block_req ty ref su = Some b \<and> read_iocr b =
    \<lparr>ib_length = length b, ib_data_length = as_u16 (max (frame_end ty (is_io_slots su)) 40),
     ib_frame_id = (if ty = 1 then 0xC000 + ref else 0xFFFF),
     ib_io_data = map layout_entry (data_part ty (is_io_slots su)),
     ib_iocs = map layout_entry (iocs_part ty (is_io_slots su))\<rparr>
   \<and> rd16 b 0 = 0x0102 \<and> length b = 54 + 6 * length (is_io_slots su)"
proof -
  have l: "length (data_part ty (is_io_slots su)) + length (iocs_part ty (is_io_slots su))
      = length (is_io_slots su)" by (rule part_lengths)
  obtain b where b: "iocr_block_req ty ref su = Some b" and
    eq: "b = block_header1 0x0102 (as_u16 (50 + 6 * length (is_io_slots su)))
     @ to_be16 ty @ to_be16 ref @ to_be16 0x8892 @ to_be32 0x00000001
     @ to_be16 (as_u16 (max (frame_end ty (is_io_slots su)) 40))
     @ to_be16 (if ty = 1 then 0xC000 + ref else 0xFFFF) @ to_be16 (is_send_clock_factor su)
     @ to_be16 (is_reduction_ratio su) @ to_be16 1 @ to_be16 0 @ to_be32 0xFFFFFFFF
     @ to_be16 (is_watchdog_factor su) @ to_be16 (is_data_hold_factor su)
     @ to_be16 0xC000 @ replicate 6 0 @ to_be16 1 @ to_be32 0
     @ to_be16 (as_u16 (length (data_part ty (is_io_slots su))))
     @ concat (map entry_bytes (data_part ty (is_io_slots su)))
     @ to_be16 (as_u16 (length (iocs_part ty (is_io_slots su))))
     @ concat (map entry_bytes (iocs_part ty (is_io_slots su)))"
    using iocr_block_req_eq [OF assms(1,2)] assms(3) by simp
  have "read_iocr b = \<lparr>ib_length = length b, ib_data_length = as_u16 (max (frame_end ty (is_io_slots su)) 40),
     ib_frame_id = (if ty = 1 then 0xC000 + ref else 0xFFFF),
     ib_io_data = map layout_entry (data_part ty (is_io_slots su)),
     ib_iocs = map layout_entry (iocs_part ty (is_io_slots su))\<rparr>"
    by (rule read_iocr_eq [OF _ _ eq]) (use l assms(3) in auto)
  moreover have "rd16 b 0 = 0x0102" by (simp add: eq block_header1_def)
  moreover have "length b = 54 + 6 * length (is_io_slots su)"
    using l by (simp add: eq block_header1_def length_entry_bytes del: length_concat)
  ultimately show ?thesis using b by blast
qed


definition sample_setup :: iocr_setup where
  "sample_setup = \<lparr>is_io_slots = sample_slots, is_send_clock_factor = 32, is_reduction_ratio = 32,
     is_watchdog_factor = 3, is_data_hold_factor = 3\<rparr>"


section \<open>The block sequence\<close>

text \<open>The device's walk over the argument blocks, advancing by four plus the length field.\<close>

function block_walk_types :: "bytes \<Rightarrow> u16 list" where
  "block_walk_types d =
     (if length d < 4 then [] else rd16 d 0 # block_walk_types (drop (4 + unat (rd16 d 2)) d))"
  by pat_completeness auto
termination
  by (relation "measure length") auto

declare block_walk_types.simps [simp del]

definition self_delimiting :: "u16 \<Rightarrow> bytes \<Rightarrow> bool" where
  "self_delimiting ty b \<longleftrightarrow> 4 \<le> length b \<and> rd16 b 0 = ty \<and> 4 + unat (rd16 b 2) = length b"

lemma block_walk_cons: "self_delimiting ty b \<Longrightarrow> block_walk_types (b @ rest) = ty # block_walk_types rest"
proof -
  assume d: "self_delimiting ty b"
  then have l: "0 < length b" "1 < length b" "2 < length b" "3 < length b" by (auto simp: self_delimiting_def)
  then have "rd16 (b @ rest) 0 = rd16 b 0" "rd16 (b @ rest) 2 = rd16 b 2"
    by (simp_all add: rd16_def nth_append)
  with d show ?thesis by (subst block_walk_types.simps) (auto simp: self_delimiting_def)
qed

lemma block_walk_nil: "block_walk_types [] = []"
  by (subst block_walk_types.simps) simp

lemma ar_block_delimited:
  "length u = 16 \<Longrightarrow> length m = 6 \<Longrightarrow> length n < 65000 \<Longrightarrow> self_delimiting 0x0101 (ar_block_req t u k m p n)"
  by (simp add: self_delimiting_def ar_block_req_def block_header1_def CM_INITIATOR_OBJECT_UUID_def wire_simps)

lemma alarm_block_delimited: "self_delimiting 0x0103 (alarm_cr_block r t p)"
  by (simp add: self_delimiting_def alarm_cr_block_def block_header1_def wire_simps Let_def)

lemma iocr_block_delimited:
  assumes "ty = 1 \<or> ty = 2" and "ref < 0x4000" and "length (is_io_slots su) \<le> 10000"
  shows "\<exists>b. iocr_block_req ty ref su = Some b \<and> self_delimiting 0x0102 b"
proof -
  obtain b where b: "iocr_block_req ty ref su = Some b" "rd16 b 0 = 0x0102"
    "length b = 54 + 6 * length (is_io_slots su)" "ib_length (read_iocr b) = length b"
    using iocr_block_fields [OF assms] by auto
  then show ?thesis by (auto simp: self_delimiting_def read_iocr_def Let_def)
qed

section \<open>Grouping the submodules by slot\<close>

text \<open>
  The specification of the API entries: one per distinct slot in first-seen order, with the
  module ident of the slot's first submodule and its submodules in list order.
\<close>

definition first_seen :: "'a list \<Rightarrow> 'a list" where
  "first_seen xs = rev (remdups (rev xs))"

lemma first_seen_snoc: "first_seen (xs @ [x]) = (if x \<in> set xs then first_seen xs else first_seen xs @ [x])"
  by (simp add: first_seen_def)

lemma set_first_seen [simp]: "set (first_seen xs) = set xs"
  by (simp add: first_seen_def)

lemma distinct_first_seen [simp]: "distinct (first_seen xs)"
  by (simp add: first_seen_def)

definition slot_entry :: "io_slot list \<Rightarrow> u16 \<Rightarrow> api_entry" where
  "slot_entry ss n =
     (let subs = filter (\<lambda>s. ios_slot s = n) ss
      in (n, ios_module_ident (hd subs), concat (map submodule_bytes subs), as_u16 (length subs)))"

definition grouped :: "io_slot list \<Rightarrow> api_entry list" where
  "grouped ss = map (slot_entry ss) (first_seen (map ios_slot ss))"

lemma fst_slot_entry [simp]: "fst (slot_entry ss n) = n"
  by (simp add: slot_entry_def Let_def)

lemma add_submodule_new:
  "ios_slot s \<notin> fst ` set apis \<Longrightarrow>
   add_submodule s apis = Some (apis @ [(ios_slot s, ios_module_ident s, submodule_bytes s, 1)])"
  by (induction s apis rule: add_submodule.induct) auto

lemma add_submodule_old:
  "distinct ns \<Longrightarrow> ios_slot s \<in> set ns \<Longrightarrow> (\<And>n. fst (f n) = n) \<Longrightarrow>
   snd (snd (snd (f (ios_slot s)))) \<noteq> 0xFFFF \<Longrightarrow>
   add_submodule s (map f ns) = Some (map (f (ios_slot s :=
     (case f (ios_slot s) of (sl, mi, sub, k) \<Rightarrow> (sl, mi, sub @ submodule_bytes s, k + 1)))) ns)"
proof (induction ns)
  case (Cons n ns)
  obtain mi sub k where f: "f n = (n, mi, sub, k)" using Cons.prems(3) [of n] by (cases "f n") auto
  show ?case
  proof (cases "n = ios_slot s")
    case True
    then have "map (f (n := x)) ns = map f ns" for x using Cons.prems(1) by auto
    then show ?thesis using Cons.prems True f by auto
  next
    case False
    then show ?thesis using Cons f by simp
  qed
qed simp

lemma expected_apis_snoc:
  "expected_apis (ss @ [s]) apis = Option.bind (expected_apis ss apis) (add_submodule s)"
  by (induction ss apis rule: expected_apis.induct) (auto split: Option.bind_split)

lemma as_u16_Suc: "as_u16 (Suc k) = as_u16 k + 1"
  by (simp add: as_u16_def)

lemma slot_entry_other: "ios_slot s \<noteq> n \<Longrightarrow> slot_entry (ss @ [s]) n = slot_entry ss n"
  by (simp add: slot_entry_def)

lemma expected_apis_grouped:
  "length ss < 65536 \<Longrightarrow> expected_apis ss [] = Some (grouped ss)"
proof (induction ss rule: rev_induct)
  case Nil
  then show ?case by (simp add: grouped_def first_seen_def)
next
  case (snoc s ss)
  let ?n = "ios_slot s"
  have IH: "expected_apis ss [] = Some (grouped ss)" using snoc by simp
  show ?case
  proof (cases "?n \<in> set (map ios_slot ss)")
    case False
    then have nf: "filter (\<lambda>s'. ios_slot s' = ?n) ss = []"
      by (simp add: filter_empty_conv) (metis imageI)
    have "map (slot_entry (ss @ [s])) (first_seen (map ios_slot ss)) = map (slot_entry ss) (first_seen (map ios_slot ss))"
      using False by (intro map_cong) (auto intro: slot_entry_other)
    moreover have "slot_entry (ss @ [s]) ?n = (?n, ios_module_ident s, submodule_bytes s, 1)"
      using nf by (simp add: slot_entry_def as_u16_def)
    moreover have "?n \<notin> fst ` set (grouped ss)" using False by (simp add: grouped_def image_image)
    ultimately show ?thesis
      using False by (simp add: expected_apis_snoc IH add_submodule_new grouped_def first_seen_snoc)
  next
    case True
    let ?subs = "filter (\<lambda>s'. ios_slot s' = ?n) ss"
    have ne: "?subs \<noteq> []" using True by (auto simp: filter_empty_conv)
    have lk: "length ?subs < 65535" using snoc.prems by (auto intro: le_less_trans [OF length_filter_le])
    have k: "as_u16 (length ?subs) \<noteq> 0xFFFF"
    proof
      assume "as_u16 (length ?subs) = 0xFFFF"
      then have "unat (as_u16 (length ?subs)) = unat (0xFFFF :: u16)" by (rule arg_cong)
      then show False using lk by simp
    qed
    have se: "slot_entry ss ?n = (?n, ios_module_ident (hd ?subs), concat (map submodule_bytes ?subs), as_u16 (length ?subs))"
      by (simp add: slot_entry_def Let_def)
    have new: "slot_entry (ss @ [s]) ?n = (case slot_entry ss ?n of (sl, mi, sub, k) \<Rightarrow> (sl, mi, sub @ submodule_bytes s, k + 1))"
      using ne by (simp add: slot_entry_def as_u16_Suc Let_def)
    have "add_submodule s (map (slot_entry ss) (first_seen (map ios_slot ss)))
        = Some (map ((slot_entry ss)(?n := slot_entry (ss @ [s]) ?n)) (first_seen (map ios_slot ss)))"
      unfolding new using True k
      by (intro add_submodule_old) (auto simp: slot_entry_def Let_def)
    also have "map ((slot_entry ss)(?n := slot_entry (ss @ [s]) ?n)) (first_seen (map ios_slot ss))
        = map (slot_entry (ss @ [s])) (first_seen (map ios_slot ss))"
      by (rule map_cong) (auto simp: slot_entry_other)
    finally show ?thesis
      using True by (simp add: expected_apis_snoc IH grouped_def first_seen_snoc)
  qed
qed

text \<open>
  The ExpectedSubmodule block declares every submodule exactly once: it has one API entry
  per distinct slot, in first-seen order, each with the module ident of the slot's first
  submodule, the number of its submodules and those submodules in list order, and the
  panic on the 16-bit submodule counter is out of reach.
\<close>

theorem expected_block_grouped:
  assumes "length (is_io_slots su) < 65536"
  shows "expected_submodule_block su = Some
    (let body = to_be16 (as_u16 (length (first_seen (map ios_slot (is_io_slots su)))))
        @ concat (map (\<lambda>n. api_bytes (slot_entry (is_io_slots su) n)) (first_seen (map ios_slot (is_io_slots su))))
     in block_header1 0x0104 (as_u16 (length body + 2)) @ body)"
  using expected_apis_grouped [OF assms]
  by (simp add: expected_submodule_block_def grouped_def o_def Let_def)

lemma expected_block_grouped_witness:
  "expected_submodule_block sample_setup = Some
    (let body = to_be16 (as_u16 (length (first_seen (map ios_slot (is_io_slots sample_setup)))))
        @ concat (map (\<lambda>n. api_bytes (slot_entry (is_io_slots sample_setup) n))
            (first_seen (map ios_slot (is_io_slots sample_setup))))
     in block_header1 0x0104 (as_u16 (length body + 2)) @ body)"
  by (rule expected_block_grouped) (simp add: sample_setup_def sample_slots_def)

lemma length_submodule_bytes: "length (submodule_bytes s) \<le> 20"
  by (simp add: submodule_bytes_def submodule_dds_def submodule_type_def Let_def)

lemma length_api_bytes: "length (api_bytes (sl, mi, sub, k)) = 14 + length sub"
  by (simp add: api_bytes_def)

lemma add_submodule_length:
  "add_submodule s apis = Some apis' \<Longrightarrow>
   length (concat (map api_bytes apis')) \<le> length (concat (map api_bytes apis)) + 34"
proof (induction s apis arbitrary: apis' rule: add_submodule.induct)
  case (1 s)
  then show ?case using length_submodule_bytes [of s] by (auto simp: length_api_bytes)
next
  case (2 s sl mi sub n apis)
  show ?case
  proof (cases "sl = ios_slot s")
    case True
    then show ?thesis using 2(2) length_submodule_bytes [of s] by (auto simp: length_api_bytes split: if_splits)
  next
    case False
    then obtain rest where "add_submodule s apis = Some rest" "apis' = (sl, mi, sub, n) # rest"
      using 2(2) by (auto split: Option.bind_splits)
    then show ?thesis using 2(1) [OF False] by fastforce
  qed
qed

lemma expected_apis_length:
  "expected_apis ss apis = Some apis' \<Longrightarrow>
   length (concat (map api_bytes apis')) \<le> length (concat (map api_bytes apis)) + 34 * length ss"
proof (induction ss apis rule: expected_apis.induct)
  case (2 s ss apis)
  then obtain a1 where a: "add_submodule s apis = Some a1" "expected_apis ss a1 = Some apis'"
    by (auto split: Option.bind_splits)
  show ?case using 2(1) [OF a] add_submodule_length [OF a(1)] by simp
qed simp

lemma expected_block_delimited:
  assumes "length (is_io_slots su) \<le> 1000"
  shows "\<exists>b. expected_submodule_block su = Some b \<and> self_delimiting 0x0104 b"
proof -
  have l: "length (is_io_slots su) < 65536" using assms by simp
  have "length (concat (map api_bytes (grouped (is_io_slots su)))) \<le> 34000"
    using expected_apis_length [OF expected_apis_grouped [OF l]] assms by simp
  then show ?thesis using expected_apis_grouped [OF l]
    by (auto simp: expected_submodule_block_def self_delimiting_def block_header1_def wire_simps Let_def
        simp del: length_concat)
qed

text \<open>
  A Connect request is a well-formed block sequence: a device that walks its argument by
  four plus each block's length field meets exactly the AR, input IOCR, output IOCR, alarm CR
  and expected-submodule blocks, in that order, and nothing else; the NDR lengths in front of
  them are the argument's length.
\<close>

theorem connect_request_blocks:
  assumes "length ou = 16" and "length iu = 16" and "length au = 16" and "length ar = 16"
    and "length mac = 6" and "length name < 65000" and "length (is_io_slots su) \<le> 1000"
  shows "\<exists>req arg. build_connect_request ou iu au ar key mac name su sq = Some req
    \<and> drop 100 req = arg \<and> block_walk_types arg = [0x0101, 0x0102, 0x0102, 0x0103, 0x0104]
    \<and> rd32 req 84 = as_u32 (length arg) \<and> rd32 req 96 = as_u32 (length arg) \<and> rd16 req 68 = CONNECT"
proof -
  obtain bi where bi: "iocr_block_req 1 1 su = Some bi" "self_delimiting 0x0102 bi"
    using iocr_block_delimited [of 1 1 su] assms(7) by auto
  obtain bo where bo: "iocr_block_req 2 2 su = Some bo" "self_delimiting 0x0102 bo"
    using iocr_block_delimited [of 2 2 su] assms(7) by auto
  obtain e where e: "expected_submodule_block su = Some e" "self_delimiting 0x0104 e"
    using expected_block_delimited [OF assms(7)] by auto
  let ?ar = "ar_block_req AR_TYPE_IOCAR_SINGLE ar key mac AR_PROPERTIES_IOCAR name"
  let ?body = "?ar @ bi @ bo @ alarm_cr_block 1 0 0 @ e"
  let ?req = "rpc_request ou iu au sq CONNECT (nrd ?body)"
  have r: "build_connect_request ou iu au ar key mac name su sq = Some ?req"
    using bi(1) bo(1) e(1) by (simp add: build_connect_request_def Let_def)
  have d80: "drop 80 ?req = nrd ?body" and op: "rd16 ?req 68 = CONNECT"
    using assms(1-3) by (simp_all add: rpc_request_def wire_simps)
  have len: "length ?req = 100 + length ?body" using assms(1-3) by simp
  have d100: "drop 100 ?req = ?body"
  proof -
    have "drop 100 ?req = drop 20 (drop 80 ?req)" by simp
    then show ?thesis unfolding d80 nrd_fields(4) .
  qed
  have "block_walk_types ?body = [0x0101, 0x0102, 0x0102, 0x0103, 0x0104]"
    using block_walk_cons [OF ar_block_delimited [OF assms(4-6)]] block_walk_cons [OF bi(2)]
      block_walk_cons [OF bo(2)] block_walk_cons [OF alarm_block_delimited]
      block_walk_cons [OF e(2), of "[]"] by (simp add: block_walk_nil)
  moreover have "rd32 ?req 84 = as_u32 (length ?body)" "rd32 ?req 96 = as_u32 (length ?body)"
    using rd32_drop [of 80 ?req 4] rd32_drop [of 80 ?req 16] len nrd_fields(1,3) [of ?body]
    unfolding d80 by simp_all
  ultimately show ?thesis using r d100 op by blast
qed

lemma connect_request_blocks_witness:
  "\<exists>req. build_connect_request (replicate 16 1) (replicate 16 2) (replicate 16 3) (replicate 16 4) 7
      [2,0,0,0,0,1] [0x74, 0x70] sample_setup 1 = Some req
    \<and> block_walk_types (drop 100 req) = [0x0101, 0x0102, 0x0102, 0x0103, 0x0104]"
  using connect_request_blocks [of "replicate 16 1" "replicate 16 2" "replicate 16 3" "replicate 16 4"
      "[2,0,0,0,0,1]" "[0x74, 0x70]" sample_setup 7 1]
  by (auto simp: sample_setup_def sample_slots_def)

end
