(* ===== verification/Dcp.thy ===== *)
theory Dcp
  imports Util
begin

text \<open>
  Model of \<open>src/dcp.rs\<close>: the DCP request frames, and the parsers of SET, GET and Identify
  responses. A parser value is in the panic monad, its \<open>Result\<close> an \<open>error + value\<close>. The
  device's name and type are kept as the bytes the source hands to \<open>from_utf8_lossy\<close>.
\<close>

definition PROFINET_ETHERTYPE :: u16 where "PROFINET_ETHERTYPE = 0x8892"
definition DCP_MULTICAST_MAC :: bytes where "DCP_MULTICAST_MAC = [0x01, 0x0E, 0xCF, 0x00, 0x00, 0x00]"
definition DCP_IDENTIFY_REQUEST_FRAME_ID :: u16 where "DCP_IDENTIFY_REQUEST_FRAME_ID = 0xFEFE"
definition DCP_IDENTIFY_RESPONSE_FRAME_ID :: u16 where "DCP_IDENTIFY_RESPONSE_FRAME_ID = 0xFEFF"
definition DCP_GET_SET_FRAME_ID :: u16 where "DCP_GET_SET_FRAME_ID = 0xFEFD"
definition DCP_SERVICE_ID_GET :: u8 where "DCP_SERVICE_ID_GET = 0x03"
definition DCP_SERVICE_ID_SET :: u8 where "DCP_SERVICE_ID_SET = 0x04"
definition DCP_SERVICE_ID_IDENTIFY :: u8 where "DCP_SERVICE_ID_IDENTIFY = 0x05"
definition DCP_SERVICE_TYPE_REQUEST :: u8 where "DCP_SERVICE_TYPE_REQUEST = 0x00"
definition DCP_SERVICE_TYPE_RESPONSE_SUCCESS :: u8 where "DCP_SERVICE_TYPE_RESPONSE_SUCCESS = 0x01"
definition DCP_SERVICE_TYPE_RESPONSE_UNSUPPORTED :: u8 where "DCP_SERVICE_TYPE_RESPONSE_UNSUPPORTED = 0x05"
definition DCP_OPTION_IP :: u8 where "DCP_OPTION_IP = 0x01"
definition DCP_OPTION_DEVICE :: u8 where "DCP_OPTION_DEVICE = 0x02"
definition DCP_OPTION_CONTROL :: u8 where "DCP_OPTION_CONTROL = 0x05"
definition DCP_OPTION_ALL :: u8 where "DCP_OPTION_ALL = 0xFF"
definition DCP_SUBOPTION_IP_PARAMETER :: u8 where "DCP_SUBOPTION_IP_PARAMETER = 0x02"
definition DCP_SUBOPTION_DEVICE_TYPE :: u8 where "DCP_SUBOPTION_DEVICE_TYPE = 0x01"
definition DCP_SUBOPTION_DEVICE_NAME :: u8 where "DCP_SUBOPTION_DEVICE_NAME = 0x02"
definition DCP_SUBOPTION_DEVICE_ID :: u8 where "DCP_SUBOPTION_DEVICE_ID = 0x03"
definition DCP_SUBOPTION_DEVICE_ROLE :: u8 where "DCP_SUBOPTION_DEVICE_ROLE = 0x04"
definition DCP_SUBOPTION_CONTROL_SIGNAL :: u8 where "DCP_SUBOPTION_CONTROL_SIGNAL = 0x03"
definition DCP_SUBOPTION_CONTROL_RESPONSE :: u8 where "DCP_SUBOPTION_CONTROL_RESPONSE = 0x04"
definition DCP_SUBOPTION_CONTROL_RESET_FACTORY :: u8 where "DCP_SUBOPTION_CONTROL_RESET_FACTORY = 0x05"
definition DCP_SUBOPTION_CONTROL_RESET_TO_FACTORY :: u8 where "DCP_SUBOPTION_CONTROL_RESET_TO_FACTORY = 0x06"
definition DCP_BLOCK_ERROR_OK :: u8 where "DCP_BLOCK_ERROR_OK = 0x00"
definition DCP_RESPONSE_DELAY :: u16 where "DCP_RESPONSE_DELAY = 0x0080"

section \<open>Requests\<close>

definition eth_frame :: "bytes \<Rightarrow> bytes \<Rightarrow> u16 \<Rightarrow> bytes \<Rightarrow> bytes" where
  "eth_frame dst src ethertype payload = dst @ src @ to_be16 ethertype @ payload"

definition dcp_header :: "u16 \<Rightarrow> u8 \<Rightarrow> u8 \<Rightarrow> u32 \<Rightarrow> u16 \<Rightarrow> u16 \<Rightarrow> bytes \<Rightarrow> bytes" where
  "dcp_header frame_id service_id service_type xid resp len payload =
     to_be16 frame_id @ [service_id] @ [service_type] @ to_be32 xid @ to_be16 resp @ to_be16 len @ payload"

definition block_request :: "u8 \<Rightarrow> u8 \<Rightarrow> u16 \<Rightarrow> bytes \<Rightarrow> bytes" where
  "block_request opt subopt len payload = [opt] @ [subopt] @ to_be16 len @ payload"

definition identify_all_request :: "bytes \<Rightarrow> u32 \<Rightarrow> bytes" where
  "identify_all_request src_mac xid =
     (let block = block_request DCP_OPTION_ALL DCP_OPTION_ALL 0 [];
          dcp = dcp_header DCP_IDENTIFY_REQUEST_FRAME_ID DCP_SERVICE_ID_IDENTIFY DCP_SERVICE_TYPE_REQUEST
                  xid DCP_RESPONSE_DELAY (as_u16 (length block)) block
      in eth_frame DCP_MULTICAST_MAC src_mac PROFINET_ETHERTYPE dcp)"

definition set_request :: "bytes \<Rightarrow> bytes \<Rightarrow> u32 \<Rightarrow> u8 \<Rightarrow> u8 \<Rightarrow> u16 \<Rightarrow> bytes \<Rightarrow> bytes" where
  "set_request src_mac dst_mac xid opt subopt qualifier val =
     (let payload = to_be16 qualifier @ val;
          block0 = block_request opt subopt (as_u16 (length val + 2)) payload;
          block = (if length val mod 2 = 1 then block0 @ [0x00] else block0);
          dcp = dcp_header DCP_GET_SET_FRAME_ID DCP_SERVICE_ID_SET DCP_SERVICE_TYPE_REQUEST
                  xid 0 (as_u16 (length block)) block
      in eth_frame dst_mac src_mac PROFINET_ETHERTYPE dcp)"

definition set_name_request_qualified :: "bytes \<Rightarrow> bytes \<Rightarrow> u32 \<Rightarrow> bytes \<Rightarrow> bool \<Rightarrow> bytes" where
  "set_name_request_qualified src_mac dst_mac xid name permanent =
     set_request src_mac dst_mac xid DCP_OPTION_DEVICE DCP_SUBOPTION_DEVICE_NAME
       (if permanent then 0x0001 else 0x0000) name"

definition set_name_request :: "bytes \<Rightarrow> bytes \<Rightarrow> u32 \<Rightarrow> bytes \<Rightarrow> bytes" where
  "set_name_request src_mac dst_mac xid name = set_name_request_qualified src_mac dst_mac xid name False"

definition set_ip_request :: "bytes \<Rightarrow> bytes \<Rightarrow> u32 \<Rightarrow> bytes \<Rightarrow> bytes \<Rightarrow> bytes \<Rightarrow> bytes" where
  "set_ip_request src_mac dst_mac xid ip netmask gateway =
     set_request src_mac dst_mac xid DCP_OPTION_IP DCP_SUBOPTION_IP_PARAMETER 0x0000 (ip @ netmask @ gateway)"

definition set_ip_request_qualified ::
    "bytes \<Rightarrow> bytes \<Rightarrow> u32 \<Rightarrow> bytes \<Rightarrow> bytes \<Rightarrow> bytes \<Rightarrow> bool \<Rightarrow> bytes" where
  "set_ip_request_qualified src_mac dst_mac xid ip netmask gateway permanent =
     (let qualifier = (if permanent then 0x0001 else 0x0000)
      in set_request src_mac dst_mac xid DCP_OPTION_IP DCP_SUBOPTION_IP_PARAMETER qualifier
           (ip @ netmask @ gateway))"

definition get_request :: "bytes \<Rightarrow> bytes \<Rightarrow> u32 \<Rightarrow> u8 \<Rightarrow> u8 \<Rightarrow> bytes" where
  "get_request src_mac dst_mac xid opt subopt =
     (let block = block_request opt subopt 0 [];
          dcp = dcp_header DCP_GET_SET_FRAME_ID DCP_SERVICE_ID_GET DCP_SERVICE_TYPE_REQUEST xid 0 2 block
      in eth_frame dst_mac src_mac PROFINET_ETHERTYPE dcp)"

definition set_param_request :: "bytes \<Rightarrow> bytes \<Rightarrow> u32 \<Rightarrow> u8 \<Rightarrow> u8 \<Rightarrow> bytes \<Rightarrow> bytes" where
  "set_param_request src_mac dst_mac xid opt subopt val =
     set_request src_mac dst_mac xid opt subopt 0x0000 val"

definition signal_request :: "bytes \<Rightarrow> bytes \<Rightarrow> u32 \<Rightarrow> u32 \<Rightarrow> bytes" where
  "signal_request src_mac dst_mac xid duration_ms =
     (let duration_units = ucast (max (duration_ms div 100) 1) :: u16
      in set_request src_mac dst_mac xid DCP_OPTION_CONTROL DCP_SUBOPTION_CONTROL_SIGNAL 0x0001
           (to_be16 duration_units))"

definition reset_request :: "bytes \<Rightarrow> bytes \<Rightarrow> u32 \<Rightarrow> u16 \<Rightarrow> bytes" where
  "reset_request src_mac dst_mac xid qualifier =
     set_request src_mac dst_mac xid DCP_OPTION_CONTROL DCP_SUBOPTION_CONTROL_RESET_TO_FACTORY qualifier []"

definition factory_reset_request :: "bytes \<Rightarrow> bytes \<Rightarrow> u32 \<Rightarrow> bytes" where
  "factory_reset_request src_mac dst_mac xid =
     set_request src_mac dst_mac xid DCP_OPTION_CONTROL DCP_SUBOPTION_CONTROL_RESET_FACTORY 0x0000 []"

section \<open>Names\<close>

text \<open>A \<open>format!\<close> of an unknown code is the constructor \<open>UnknownName\<close>.\<close>

datatype dcp_name = KnownName string | UnknownName nat

definition reset_qualifier_name :: "u16 \<Rightarrow> dcp_name" where
  "reset_qualifier_name q =
     (if q = 0x0002 \<or> q = 0x0003 then KnownName ''Reset application data''
      else if q = 0x0004 \<or> q = 0x0005 then KnownName ''Reset communication parameter''
      else if q = 0x0006 \<or> q = 0x0007 \<or> q = 0x000A \<or> q = 0x000B then KnownName ''Reset engineering parameter''
      else if q = 0x0008 \<or> q = 0x0009 then KnownName ''Reset all stored data''
      else if q = 0x0010 \<or> q = 0x0011 then KnownName ''Reset to factory values''
      else if q = 0x0012 \<or> q = 0x0013 then KnownName ''Reset and restore data''
      else UnknownName (unat q))"

definition block_error_name :: "u8 \<Rightarrow> dcp_name" where
  "block_error_name code =
     (if code = 0x00 then KnownName ''OK''
      else if code = 0x01 then KnownName ''Option not supported''
      else if code = 0x02 then KnownName ''Suboption not supported or no dataset available''
      else if code = 0x03 then KnownName ''Suboption not set''
      else if code = 0x04 then KnownName ''Resource error''
      else if code = 0x05 then KnownName ''SET not possible by local reasons''
      else if code = 0x06 then KnownName ''In operation, SET not possible''
      else UnknownName (unat code))"

definition ip_block_info_name :: "u16 \<Rightarrow> dcp_name" where
  "ip_block_info_name info =
     (if info = 0x0000 then KnownName ''IP not set''
      else if info = 0x0001 then KnownName ''IP set''
      else if info = 0x0002 then KnownName ''IP set by DHCP''
      else if info = 0x0080 then KnownName ''IP not set (address conflict detected)''
      else if info = 0x0081 then KnownName ''IP set (address conflict detected)''
      else if info = 0x0082 then KnownName ''IP set by DHCP (address conflict detected)''
      else UnknownName (unat info))"

definition ip_block_info_has_conflict :: "u16 \<Rightarrow> bool" where
  "ip_block_info_has_conflict info = (info AND 0x0080 \<noteq> 0)"

definition ip_block_info_is_dhcp :: "u16 \<Rightarrow> bool" where
  "ip_block_info_is_dhcp info = (info AND 0x0002 \<noteq> 0)"

section \<open>Responses\<close>

datatype dcp_error =
    EthError util_error
  | DcpFrameTooShort nat
  | DcpPayloadTooShort nat
  | ServiceNotSupported
  | NotDcpResponse u8
  | NotIdentifyResponse u16

definition dcp_payload :: "bytes \<Rightarrow> (dcp_error + bytes) option" where
  "dcp_payload frame = do {
     r \<leftarrow> strip_eth frame PROFINET_ETHERTYPE;
     Some (case r of Inl e \<Rightarrow> Inl (EthError e) | Inr p \<Rightarrow> Inr p) }"

definition parse_dcp_xid :: "bytes \<Rightarrow> u32 option option" where
  "parse_dcp_xid frame = do {
     r \<leftarrow> dcp_payload frame;
     (case r of Inl _ \<Rightarrow> Some None
      | Inr payload \<Rightarrow>
          (if 8 \<le> length payload then do { x \<leftarrow> be32_at payload 4; Some (Some x) }
           else Some None)) }"

text \<open>The block loop of a SET response; \<open>remaining\<close> is the source's \<open>i32\<close>.\<close>

function set_response_walk :: "int \<Rightarrow> bytes \<Rightarrow> u8 option" where
  "set_response_walk remaining blocks =
     (if 4 < remaining \<and> 4 \<le> length blocks then do {
        opt \<leftarrow> idx blocks 0;
        subopt \<leftarrow> idx blocks 1;
        len \<leftarrow> be16_at blocks 2;
        (let block_length = unat len in do {
           block_payload \<leftarrow> sub_slice blocks 4 (min (4 + block_length) (length blocks));
           (if opt = DCP_OPTION_CONTROL \<and> subopt = DCP_SUBOPTION_CONTROL_RESPONSE then
              (if length block_payload = 0 then Some DCP_BLOCK_ERROR_OK
               else if length block_payload \<le> 2 then idx block_payload 0
               else idx block_payload 2)
            else
              (let block_len = (if block_length mod 2 = 1 then 4 + block_length + 1 else 4 + block_length) in do {
                 rest \<leftarrow> slice_from blocks (min block_len (length blocks));
                 set_response_walk (remaining - int block_len) rest })) }) }
      else Some DCP_BLOCK_ERROR_OK)"
  by pat_completeness auto
termination
  by (relation "measure (\<lambda>(r, b). length b)") (auto simp: slice_from_def split: if_splits)

declare set_response_walk.simps [simp del]

definition parse_set_response :: "bytes \<Rightarrow> u32 \<Rightarrow> (dcp_error + u8 option) option" where
  "parse_set_response frame expected_xid = do {
     r \<leftarrow> dcp_payload frame;
     (case r of Inl e \<Rightarrow> Some (Inl e)
      | Inr payload \<Rightarrow>
          (if length payload < 12 then Some (Inr None)
           else do {
             frame_id \<leftarrow> be16_at payload 0;
             service_id \<leftarrow> idx payload 2;
             service_type \<leftarrow> idx payload 3;
             xid \<leftarrow> be32_at payload 4;
             (if frame_id \<noteq> DCP_GET_SET_FRAME_ID \<or> service_id \<noteq> DCP_SERVICE_ID_SET \<or> xid \<noteq> expected_xid
              then Some (Inr None)
              else if service_type = DCP_SERVICE_TYPE_RESPONSE_UNSUPPORTED then Some (Inl ServiceNotSupported)
              else if service_type \<noteq> DCP_SERVICE_TYPE_RESPONSE_SUCCESS then Some (Inr None)
              else do {
                len \<leftarrow> be16_at payload 10;
                blocks \<leftarrow> slice_from payload 12;
                code \<leftarrow> set_response_walk (uint len) blocks;
                Some (Inr (Some code)) }) })) }"

text \<open>
  One response block as both the GET and the Identify loop take it apart: option, suboption,
  BlockInfo word, payload behind it, the remaining blocks, and how much the length drops.
\<close>

definition response_block :: "bytes \<Rightarrow> (u8 \<times> u8 \<times> u16 \<times> bytes \<times> bytes \<times> nat) option" where
  "response_block blocks = do {
     opt \<leftarrow> idx blocks 0;
     subopt \<leftarrow> idx blocks 1;
     len \<leftarrow> be16_at blocks 2;
     info \<leftarrow> be16_at blocks 4;
     (let block_length = unat len;
          payload_len = block_length - 2;
          block_len = (if block_length mod 2 = 1 then block_length + 1 else block_length) in do {
        block_payload \<leftarrow> sub_slice blocks 6 (min (6 + payload_len) (length blocks));
        rest \<leftarrow> slice_from blocks (min (4 + block_len) (length blocks));
        Some (opt, subopt, info, block_payload, rest, 4 + block_len) }) }"

lemma response_block_rest:
  "response_block blocks = Some (opt, subopt, info, p, rest, n) \<Longrightarrow>
   4 \<le> n \<and> length rest \<le> length blocks - 4 \<and> 6 \<le> length blocks"
  by (auto simp: response_block_def be16_at_def idx_def slice_from_def sub_slice_def Let_def
      split: if_splits Option.bind_splits)

function get_response_walk :: "u8 \<Rightarrow> u8 \<Rightarrow> int \<Rightarrow> bytes \<Rightarrow> bytes option option" where
  "get_response_walk opt subopt len blocks =
     (if 6 < len \<and> 6 \<le> length blocks then do {
        b \<leftarrow> response_block blocks;
        (case b of (o', s', info, p, rest, n) \<Rightarrow>
           (if o' = opt \<and> s' = subopt then Some (Some p)
            else get_response_walk opt subopt (len - int n) rest)) }
      else Some None)"
  by pat_completeness auto
termination
  by (relation "measure (\<lambda>(o', s', r, b). length b)") (auto dest!: response_block_rest)

declare get_response_walk.simps [simp del]

definition parse_get_response :: "bytes \<Rightarrow> u8 \<Rightarrow> u8 \<Rightarrow> u32 \<Rightarrow> (dcp_error + bytes option) option" where
  "parse_get_response frame opt subopt expected_xid = do {
     r \<leftarrow> dcp_payload frame;
     (case r of Inl e \<Rightarrow> Some (Inl e)
      | Inr payload \<Rightarrow>
          (if length payload < 12 then Some (Inl (DcpPayloadTooShort (length payload)))
           else do {
             frame_id \<leftarrow> be16_at payload 0;
             xid \<leftarrow> be32_at payload 4;
             (if frame_id \<noteq> DCP_GET_SET_FRAME_ID \<or> xid \<noteq> expected_xid then Some (Inr None)
              else do {
                service_type \<leftarrow> idx payload 3;
                (if service_type \<noteq> DCP_SERVICE_TYPE_RESPONSE_SUCCESS
                 then Some (Inl (NotDcpResponse service_type))
                 else do {
                   len \<leftarrow> be16_at payload 10;
                   blocks \<leftarrow> slice_from payload 12;
                   v \<leftarrow> get_response_walk opt subopt (uint len) blocks;
                   Some (Inr v) }) }) })) }"

record dcp_device =
  dd_mac :: bytes
  dd_name :: bytes
  dd_device_type :: bytes
  dd_ip :: bytes
  dd_netmask :: bytes
  dd_gateway :: bytes
  dd_vendor_id :: u16
  dd_device_id :: u16
  dd_role :: u8
  dd_ip_block_info :: "u16 option"

definition dcp_device_default :: dcp_device where
  "dcp_device_default =
     \<lparr>dd_mac = replicate 6 0, dd_name = [], dd_device_type = [], dd_ip = replicate 4 0,
      dd_netmask = replicate 4 0, dd_gateway = replicate 4 0, dd_vendor_id = 0, dd_device_id = 0,
      dd_role = 0, dd_ip_block_info = None\<rparr>"

definition trim_nul :: "bytes \<Rightarrow> bytes" where
  "trim_nul p = rev (dropWhile (\<lambda>b. b = 0) (rev p))"

text \<open>The match of the Identify loop, one block applied to the device found so far.\<close>

definition apply_block :: "u8 \<Rightarrow> u8 \<Rightarrow> u16 \<Rightarrow> bytes \<Rightarrow> dcp_device \<Rightarrow> dcp_device option" where
  "apply_block opt subopt info p dev =
     (if opt = DCP_OPTION_DEVICE \<and> subopt = DCP_SUBOPTION_DEVICE_TYPE then
        Some (dev\<lparr>dd_device_type := trim_nul p\<rparr>)
      else if opt = DCP_OPTION_DEVICE \<and> subopt = DCP_SUBOPTION_DEVICE_NAME then
        Some (dev\<lparr>dd_name := p\<rparr>)
      else if opt = DCP_OPTION_IP \<and> subopt = DCP_SUBOPTION_IP_PARAMETER \<and> 12 \<le> length p then do {
        ip \<leftarrow> sub_slice p 0 4;
        nm \<leftarrow> sub_slice p 4 8;
        gw \<leftarrow> sub_slice p 8 12;
        Some (dev\<lparr>dd_ip_block_info := Some info, dd_ip := ip, dd_netmask := nm, dd_gateway := gw\<rparr>) }
      else if opt = DCP_OPTION_DEVICE \<and> subopt = DCP_SUBOPTION_DEVICE_ID \<and> 4 \<le> length p then do {
        v \<leftarrow> be16_at p 0;
        d \<leftarrow> be16_at p 2;
        Some (dev\<lparr>dd_vendor_id := v, dd_device_id := d\<rparr>) }
      else if opt = DCP_OPTION_DEVICE \<and> subopt = DCP_SUBOPTION_DEVICE_ROLE \<and> p \<noteq> [] then do {
        r \<leftarrow> idx p 0;
        Some (dev\<lparr>dd_role := r\<rparr>) }
      else Some dev)"

function identify_walk :: "int \<Rightarrow> bytes \<Rightarrow> dcp_device \<Rightarrow> dcp_device option" where
  "identify_walk len blocks dev =
     (if 6 < len \<and> 6 \<le> length blocks then do {
        b \<leftarrow> response_block blocks;
        (case b of (o', s', info, p, rest, n) \<Rightarrow> do {
           dev' \<leftarrow> apply_block o' s' info p dev;
           identify_walk (len - int n) rest dev' }) }
      else Some dev)"
  by pat_completeness auto
termination
  by (relation "measure (\<lambda>(r, b, d). length b)") (auto dest!: response_block_rest)

declare identify_walk.simps [simp del]

definition parse_identify_response :: "bytes \<Rightarrow> (dcp_error + dcp_device) option" where
  "parse_identify_response frame =
     (if length frame < 14 then Some (Inl (DcpFrameTooShort (length frame)))
      else do {
        src \<leftarrow> sub_slice frame 6 12;
        r \<leftarrow> dcp_payload frame;
        (case r of Inl e \<Rightarrow> Some (Inl e)
         | Inr payload \<Rightarrow>
             (if length payload < 12 then Some (Inl (DcpPayloadTooShort (length payload)))
              else do {
                frame_id \<leftarrow> be16_at payload 0;
                (if frame_id \<noteq> DCP_IDENTIFY_RESPONSE_FRAME_ID then Some (Inl (NotIdentifyResponse frame_id))
                 else do {
                   service_type \<leftarrow> idx payload 3;
                   (if service_type \<noteq> DCP_SERVICE_TYPE_RESPONSE_SUCCESS
                    then Some (Inl (NotDcpResponse service_type))
                    else do {
                      len \<leftarrow> be16_at payload 10;
                      blocks \<leftarrow> slice_from payload 12;
                      dev \<leftarrow> identify_walk (uint len) blocks (dcp_device_default\<lparr>dd_mac := src\<rparr>);
                      Some (Inr dev) }) }) })) })"

section \<open>No frame makes a parser panic\<close>

lemma strip_runs: "\<exists>r. dcp_payload frame = Some r"
proof -
  obtain r where "strip_eth frame PROFINET_ETHERTYPE = Some r" by (rule strip_eth_Some)
  then show ?thesis by (simp add: dcp_payload_def)
qed

lemma ne_of_le: "Suc k \<le> length b \<Longrightarrow> b \<noteq> []"
  by auto

lemma response_block_total:
  assumes "6 \<le> length b"
  shows "\<exists>x. response_block b = Some x"
proof -
  have "b \<noteq> []" using assms by auto
  then show ?thesis using assms by (simp add: response_block_def Let_def)
qed

lemma apply_block_total: "\<exists>d'. apply_block o' s' info p d = Some d'"
  by (auto simp: apply_block_def)

lemma block_code_total:
  "\<exists>c. (if length p = 0 then Some x else if length p \<le> 2 then idx p 0 else idx p 2) = Some c"
  by (cases p) auto

lemma ex_Some_if:
  "w = (if C then x else y) \<Longrightarrow> \<exists>c. x = Some c \<Longrightarrow> \<exists>c. y = Some c \<Longrightarrow> \<exists>c. w = Some c"
  by auto

lemma set_response_walk_total: "\<exists>c. set_response_walk r b = Some c"
proof (induction "length b" arbitrary: r b rule: less_induct)
  case less
  show ?case
  proof (cases "4 < r \<and> 4 \<le> length b")
    case True
    then have ne: "b \<noteq> []" by auto
    let ?n = "unat (rd16 b 2)"
    let ?m = "if ?n mod 2 = 1 then 4 + ?n + 1 else 4 + ?n"
    have "length (drop (min ?m (length b)) b) < length b" using True by auto
    then have Y: "\<exists>c. set_response_walk (r - int ?m) (drop (min ?m (length b)) b) = Some c"
      using less by blast
    have "set_response_walk r b =
        (let p = take (min (4 + ?n) (length b) - 4) (drop 4 b) in
         if b ! 0 = DCP_OPTION_CONTROL \<and> b ! 1 = DCP_SUBOPTION_CONTROL_RESPONSE then
           (if length p = 0 then Some DCP_BLOCK_ERROR_OK else if length p \<le> 2 then idx p 0 else idx p 2)
         else set_response_walk (r - int ?m) (drop (min ?m (length b)) b))"
      using True ne by (subst set_response_walk.simps) (simp add: Let_def)
    then show ?thesis unfolding Let_def by (rule ex_Some_if [OF _ block_code_total Y])
  next
    case False
    then show ?thesis by (subst set_response_walk.simps) auto
  qed
qed

lemma get_response_walk_total: "\<exists>v. get_response_walk o' s' r b = Some v"
proof (induction o' s' r b rule: get_response_walk.induct)
  case (1 o' s' r b)
  show ?case
  proof (cases "6 < r \<and> 6 \<le> length b")
    case True
    then obtain x where "response_block b = Some x" using response_block_total by blast
    with 1 True show ?thesis by (subst get_response_walk.simps) (auto split: prod.split)
  next
    case False
    then show ?thesis by (subst get_response_walk.simps) auto
  qed
qed

lemma identify_walk_total: "\<exists>v. identify_walk r b d = Some v"
proof (induction r b d rule: identify_walk.induct)
  case (1 r b d)
  show ?case
  proof (cases "6 < r \<and> 6 \<le> length b")
    case True
    then obtain o' s' i p rest n where x: "response_block b = Some (o', s', i, p, rest, n)"
      using response_block_total [of b] by (metis prod_cases6)
    obtain d' where "apply_block o' s' i p d = Some d'" using apply_block_total by blast
    with 1 [OF True x refl refl refl refl refl] x True show ?thesis by (subst identify_walk.simps) simp
  next
    case False
    then show ?thesis by (subst identify_walk.simps) auto
  qed
qed

text \<open>
  No bytes from the wire make a DCP parser panic: the transaction-id reader and the SET, GET
  and Identify response parsers return a value or an error for every frame, whatever its
  length and whatever block lengths it declares.
\<close>

theorem dcp_parsers_total:
  "parse_dcp_xid frame \<noteq> None \<and> parse_set_response frame xid \<noteq> None
   \<and> parse_get_response frame o' s' xid \<noteq> None \<and> parse_identify_response frame \<noteq> None"
proof -
  obtain r where r: "dcp_payload frame = Some r" using strip_runs by blast
  show ?thesis
  proof (cases r)
    case (Inl e)
    then show ?thesis
      by (simp add: parse_dcp_xid_def parse_set_response_def parse_get_response_def parse_identify_response_def r)
  next
    case (Inr p)
    obtain c where c: "set_response_walk (uint (rd16 p 10)) (drop 12 p) = Some c"
      using set_response_walk_total by blast
    obtain g where g: "get_response_walk o' s' (uint (rd16 p 10)) (drop 12 p) = Some g"
      using get_response_walk_total by blast
    obtain d where d: "identify_walk (uint (rd16 p 10)) (drop 12 p)
        (dcp_device_default\<lparr>dd_mac := take 6 (drop 6 frame)\<rparr>) = Some d"
      using identify_walk_total by blast
    show ?thesis
      using c g d
      by (auto simp: parse_dcp_xid_def parse_set_response_def parse_get_response_def
          parse_identify_response_def r Inr)
  qed
qed

text \<open>The header a frame must carry to be taken for the answer to a GET or SET request.\<close>

definition owned :: "bytes \<Rightarrow> u32 \<Rightarrow> bool" where
  "owned frame xid \<longleftrightarrow> (\<exists>p. strip_eth frame 0x8892 = Some (Inr p) \<and> 12 \<le> length p
     \<and> rd16 p 0 = 0xFEFD \<and> p ! 3 = 1 \<and> rd32 p 4 = xid)"

text \<open>
  A result is only ever read out of a frame that answers our own request: a SET code or a GET
  value is returned only for a GET/SET frame that is a success response carrying the expected
  transaction id.
\<close>

theorem dcp_response_owned:
  assumes "parse_set_response frame xid = Some (Inr (Some code))
    \<or> parse_get_response frame o' s' xid = Some (Inr (Some val))"
  shows "owned frame xid"
proof -
  obtain r where r: "dcp_payload frame = Some r" using strip_runs by blast
  from assms show ?thesis
  proof
    assume a: "parse_set_response frame xid = Some (Inr (Some code))"
    then obtain p where p: "r = Inr p" by (cases r) (auto simp: parse_set_response_def r)
    then have "strip_eth frame 0x8892 = Some (Inr p)"
      using r by (auto simp: dcp_payload_def PROFINET_ETHERTYPE_def split: Option.bind_splits sum.splits)
    with a p show ?thesis
      by (auto simp: parse_set_response_def r owned_def DCP_GET_SET_FRAME_ID_def
          DCP_SERVICE_TYPE_RESPONSE_SUCCESS_def split: if_splits)
  next
    assume a: "parse_get_response frame o' s' xid = Some (Inr (Some val))"
    then obtain p where p: "r = Inr p" by (cases r) (auto simp: parse_get_response_def r)
    then have "strip_eth frame 0x8892 = Some (Inr p)"
      using r by (auto simp: dcp_payload_def PROFINET_ETHERTYPE_def split: Option.bind_splits sum.splits)
    with a p show ?thesis
      by (auto simp: parse_get_response_def r owned_def DCP_GET_SET_FRAME_ID_def
          DCP_SERVICE_TYPE_RESPONSE_SUCCESS_def split: if_splits)
  qed
qed

lemma dcp_response_owned_witness: "owned
    [0,1,2,3,4,5, 6,7,8,9,10,11, 0x81,0x00,0x00,0x00, 0x88,0x92, 0xFE,0xFD, 4, 1, 0,0,0,7, 0,0, 0,8,
     5,4, 0,3, 2,2, 6, 0] 7"
  by (rule dcp_response_owned [where code = 6 and o' = 0 and s' = 0 and val = "[]"]) (rule disjI1, code_simp)

section \<open>What the parsers read out of a well-formed answer\<close>

text \<open>A response block as a device writes it: option, suboption, BlockInfo and value.\<close>

type_synonym dcp_block = "u8 \<times> u8 \<times> u16 \<times> bytes"

definition enc_block :: "dcp_block \<Rightarrow> bytes" where
  "enc_block b = (case b of (o', s', info, v) \<Rightarrow>
     [o', s'] @ to_be16 (as_u16 (length v + 2)) @ to_be16 info @ v @ (if odd (length v) then [0] else []))"

definition block_fits :: "dcp_block \<Rightarrow> bool" where
  "block_fits b \<longleftrightarrow> length (snd (snd (snd b))) + 2 < 65536"

text \<open>The last block carries a value, so that the \<open>length > 6\<close> loop reaches it.\<close>

definition blocks_fit :: "dcp_block list \<Rightarrow> bool" where
  "blocks_fit bs \<longleftrightarrow> list_all block_fits bs \<and> (bs \<noteq> [] \<longrightarrow> snd (snd (snd (last bs))) \<noteq> [])
     \<and> length (concat (map enc_block bs)) < 65536"

definition answer_frame :: "bytes \<Rightarrow> bytes \<Rightarrow> (u16 \<times> u16) list \<Rightarrow> u16 \<Rightarrow> u8 \<Rightarrow> u32 \<Rightarrow> dcp_block list \<Rightarrow> bytes \<Rightarrow> bytes" where
  "answer_frame dst src ts frame_id service xid bs pad =
     dst @ src @ concat (map vlan_tag ts) @ to_be16 0x8892 @
     dcp_header frame_id service 0x01 xid 0 (as_u16 (length (concat (map enc_block bs))))
       (concat (map enc_block bs) @ pad)"

lemma length_enc_block: "length (enc_block (o', s', info, v)) = 6 + length v + (if odd (length v) then 1 else 0)"
  by (simp add: enc_block_def)

lemma response_block_enc:
  assumes "length v + 2 < 65536"
  shows "response_block (enc_block (o', s', info, v) @ rest)
    = Some (o', s', info, v, rest, length (enc_block (o', s', info, v)))"
proof -
  let ?e = "enc_block (o', s', info, v) @ rest"
  have e: "?e = o' # s' # to_be16 (as_u16 (length v + 2)) @ to_be16 info @ v
      @ (if odd (length v) then [0] else []) @ rest" by (simp add: enc_block_def)
  have n: "unat (rd16 ?e 2) = length v + 2"
    using assms by (simp add: e wire_simps)
  have i: "rd16 ?e 4 = info" by (simp add: e wire_simps)
  have l: "6 + length v \<le> length ?e" by (simp add: e)
  have ne: "?e \<noteq> []" by (simp add: e)
  have odd: "(length v + 2) mod 2 = 1 \<longleftrightarrow> odd (length v)" by presburger
  have p: "take (length v) (drop 6 ?e) = v" by (simp add: e to_be16_def)
  have r: "drop (length (enc_block (o', s', info, v))) ?e = rest" by simp
  have m: "min (4 + (if odd (length v) then length v + 2 + 1 else length v + 2)) (length ?e)
      = length (enc_block (o', s', info, v))"
    by (simp add: length_enc_block)
  have z: "idx ?e 0 = Some o'" "idx ?e 1 = Some s'" by (simp_all add: e)
  have b: "be16_at ?e 2 = Some (rd16 ?e 2)" "be16_at ?e 4 = Some (rd16 ?e 4)"
    using l by simp_all
  have sl: "sub_slice ?e 6 (min (6 + (length v + 2 - 2)) (length ?e)) = Some v"
    using l p by (simp del: append_assoc length_append)
  have sf: "slice_from ?e (length (enc_block (o', s', info, v))) = Some rest" by simp
  show ?thesis
    unfolding response_block_def z b n i bind.bind_lunit Let_def odd m sl sf
    by (simp add: length_enc_block)
qed

text \<open>Both loops, over the encoding of a block list.\<close>

lemma enc_total_gt:
  assumes "blocks_fit (b # bs)"
  shows "6 < int (length (concat (map enc_block (b # bs))))"
proof -
  obtain o' s' i v where b: "b = (o', s', i, v)" by (metis prod_cases4)
  show ?thesis
  proof (cases bs)
    case Nil
    then have "v \<noteq> []" using assms by (simp add: blocks_fit_def b)
    then have "0 < length v" by simp
    then show ?thesis by (simp add: b length_enc_block Nil)
  next
    case (Cons c cs)
    obtain o2 s2 i2 v2 where "c = (o2, s2, i2, v2)" by (metis prod_cases4)
    then show ?thesis by (simp add: b Cons length_enc_block)
  qed
qed

lemma blocks_fit_tail: "blocks_fit (b # bs) \<Longrightarrow> blocks_fit bs"
  by (auto simp: blocks_fit_def split: if_splits)

lemma blocks_fit_head: "blocks_fit ((o', s', i, v) # bs) \<Longrightarrow> length v + 2 < 65536"
  by (simp add: blocks_fit_def block_fits_def)

lemma get_response_walk_enc:
  "blocks_fit bs \<Longrightarrow>
   get_response_walk opt subopt (int (length (concat (map enc_block bs)))) (concat (map enc_block bs) @ pad)
   = Some (map_option (\<lambda>b. snd (snd (snd b))) (find (\<lambda>b. fst b = opt \<and> fst (snd b) = subopt) bs))"
proof (induction bs)
  case Nil
  then show ?case by (subst get_response_walk.simps) simp
next
  case (Cons b bs)
  obtain o' s' i v where b: "b = (o', s', i, v)" by (metis prod_cases4)
  let ?rest = "concat (map enc_block bs) @ pad"
  have long: "6 \<le> length (enc_block b @ ?rest)" by (simp add: b length_enc_block)
  have r: "response_block (enc_block b @ ?rest) = Some (o', s', i, v, ?rest, length (enc_block b))"
    unfolding b by (rule response_block_enc [OF blocks_fit_head [OF Cons.prems [unfolded b]]])
  have len: "int (length (concat (map enc_block (b # bs)))) - int (length (enc_block b))
      = int (length (concat (map enc_block bs)))" by simp
  have f: "concat (map enc_block (b # bs)) @ pad = enc_block b @ ?rest" by simp
  show ?case
    unfolding f
    by (subst get_response_walk.simps)
      (simp only: enc_total_gt [OF Cons.prems] long r len Cons.IH [OF blocks_fit_tail [OF Cons.prems]]
        bind.bind_lunit prod.case simp_thms if_True, simp add: b)
qed

fun apply_blocks :: "dcp_block list \<Rightarrow> dcp_device \<Rightarrow> dcp_device option" where
  "apply_blocks [] d = Some d"
| "apply_blocks ((o', s', i, v) # bs) d = Option.bind (apply_block o' s' i v d) (apply_blocks bs)"

lemma identify_walk_enc:
  "blocks_fit bs \<Longrightarrow>
   identify_walk (int (length (concat (map enc_block bs)))) (concat (map enc_block bs) @ pad) d
   = apply_blocks bs d"
proof (induction bs arbitrary: d)
  case Nil
  then show ?case by (subst identify_walk.simps) simp
next
  case (Cons b bs)
  obtain o' s' i v where b: "b = (o', s', i, v)" by (metis prod_cases4)
  let ?rest = "concat (map enc_block bs) @ pad"
  have long: "6 \<le> length (enc_block b @ ?rest)" by (simp add: b length_enc_block)
  have r: "response_block (enc_block b @ ?rest) = Some (o', s', i, v, ?rest, length (enc_block b))"
    unfolding b by (rule response_block_enc [OF blocks_fit_head [OF Cons.prems [unfolded b]]])
  have len: "int (length (concat (map enc_block (b # bs)))) - int (length (enc_block b))
      = int (length (concat (map enc_block bs)))" by simp
  have f: "concat (map enc_block (b # bs)) @ pad = enc_block b @ ?rest" by simp
  have ih: "identify_walk (int (length (concat (map enc_block bs)))) ?rest = apply_blocks bs"
    by (rule ext) (rule Cons.IH [OF blocks_fit_tail [OF Cons.prems]])
  show ?case
    unfolding f
    by (subst identify_walk.simps)
      (simp only: enc_total_gt [OF Cons.prems] long r len
        bind.bind_lunit prod.case simp_thms if_True, simp add: b ih)
qed

text \<open>The header fields of an answer frame, behind whatever VLAN tags it carries.\<close>

definition frame_ok :: "bytes \<Rightarrow> bytes \<Rightarrow> (u16 \<times> u16) list \<Rightarrow> dcp_block list \<Rightarrow> bool" where
  "frame_ok dst src ts bs \<longleftrightarrow> length dst = 6 \<and> length src = 6
     \<and> (\<forall>t \<in> set ts. fst t \<in> set VLAN_TPIDS) \<and> blocks_fit bs"

lemma answer_frame_payload:
  assumes "frame_ok dst src ts bs"
  shows "dcp_payload (answer_frame dst src ts frame_id service xid bs pad) = Some (Inr
    (dcp_header frame_id service 0x01 xid 0 (as_u16 (length (concat (map enc_block bs))))
       (concat (map enc_block bs) @ pad)))"
  using assms strip_eth_tagged [of dst src ts "0x8892"]
  by (simp add: dcp_payload_def answer_frame_def PROFINET_ETHERTYPE_def frame_ok_def VLAN_TPIDS_def)

lemma dcp_header_reads:
  "12 \<le> length (dcp_header f s t xid r n p)"
  "rd16 (dcp_header f s t xid r n p) 0 = f" "dcp_header f s t xid r n p ! 2 = s"
  "dcp_header f s t xid r n p ! 3 = t" "rd32 (dcp_header f s t xid r n p) 4 = xid"
  "rd16 (dcp_header f s t xid r n p) 10 = n" "drop 12 (dcp_header f s t xid r n p) = p"
  by (simp_all add: dcp_header_def wire_simps) (simp_all add: to_be16_def to_be32_def)

lemma dcp_header_accesses:
  "\<not> length (dcp_header f s t xid r n p) < 12"
  "be16_at (dcp_header f s t xid r n p) 0 = Some f"
  "idx (dcp_header f s t xid r n p) 2 = Some s"
  "idx (dcp_header f s t xid r n p) 3 = Some t"
  "be32_at (dcp_header f s t xid r n p) 4 = Some xid"
  "be16_at (dcp_header f s t xid r n p) 10 = Some n"
  "slice_from (dcp_header f s t xid r n p) 12 = Some p"
proof -
  note d = dcp_header_reads [where f = f and s = s and t = t and xid = xid and r = r and n = n and p = p]
  show "\<not> length (dcp_header f s t xid r n p) < 12" using d(1) by simp
  show "be16_at (dcp_header f s t xid r n p) 0 = Some f" using d(1,2) be16_at_in [of 0] by simp
  show "idx (dcp_header f s t xid r n p) 2 = Some s" using d(1,3) by (subst idx_in) auto
  show "idx (dcp_header f s t xid r n p) 3 = Some t" using d(1,4) by (subst idx_in) auto
  show "be32_at (dcp_header f s t xid r n p) 4 = Some xid" using d(1,5) by (subst be32_at_in) auto
  show "be16_at (dcp_header f s t xid r n p) 10 = Some n" using d(1,6) by (subst be16_at_in) auto
  show "slice_from (dcp_header f s t xid r n p) 12 = Some p" using d(1,7) by (subst slice_from_in) auto
qed

lemma uint_as_u16: "n < 65536 \<Longrightarrow> uint (as_u16 n) = int n"
  by (simp add: as_u16_def uint_nat unat_of_nat_u16)

lemma parse_get_answer:
  assumes "frame_ok dst src ts bs"
  shows "parse_get_response (answer_frame dst src ts DCP_GET_SET_FRAME_ID DCP_SERVICE_ID_GET xid bs pad) opt subopt xid
    = Some (Inr (map_option (\<lambda>b. snd (snd (snd b))) (find (\<lambda>b. fst b = opt \<and> fst (snd b) = subopt) bs)))"
proof -
  have u: "uint (as_u16 (length (concat (map enc_block bs)))) = int (length (concat (map enc_block bs)))"
    using assms by (intro uint_as_u16) (simp add: frame_ok_def blocks_fit_def)
  have w: "get_response_walk opt subopt (int (length (concat (map enc_block bs)))) (concat (map enc_block bs) @ pad)
   = Some (map_option (\<lambda>b. snd (snd (snd b))) (find (\<lambda>b. fst b = opt \<and> fst (snd b) = subopt) bs))"
    using assms by (intro get_response_walk_enc) (simp add: frame_ok_def)
  show ?thesis
    unfolding parse_get_response_def answer_frame_payload [OF assms] bind.bind_lunit sum.case
      dcp_header_accesses if_False u w
    by (simp add: DCP_SERVICE_TYPE_RESPONSE_SUCCESS_def dcp_header_accesses del: not_less)
qed

text \<open>
  A GET answer is read correctly: whatever blocks the device put in the answer, with odd
  values padded, VLAN tags in front and Ethernet padding behind, \<open>parse_get_response\<close> returns
  exactly the value of the first block with the requested option and suboption, and reports
  absence when there is none.
\<close>

theorem dcp_get_lookup:
  assumes "frame_ok dst src ts bs"
  shows "parse_get_response (answer_frame dst src ts DCP_GET_SET_FRAME_ID DCP_SERVICE_ID_GET xid bs pad) opt subopt xid
    = Some (Inr (map_option (\<lambda>b. snd (snd (snd b))) (find (\<lambda>b. fst b = opt \<and> fst (snd b) = subopt) bs)))"
  using assms by (rule parse_get_answer)

lemma dcp_get_lookup_witness:
  "parse_get_response (answer_frame [0,1,2,3,4,5] [6,7,8,9,10,11] [(0x8100, 0xC000)] DCP_GET_SET_FRAME_ID
     DCP_SERVICE_ID_GET 7 [(1, 2, 1, [9, 9, 9]), (2, 2, 0, [0x69, 0x6F])] [0, 0]) 2 2 7 = Some (Inr (Some [0x69, 0x6F]))"
  by (subst dcp_get_lookup) (simp_all add: frame_ok_def blocks_fit_def block_fits_def VLAN_TPIDS_def length_enc_block)

text \<open>
  The blocks a device describes itself with, and the frame that carries them. \<open>identify_ok\<close>
  says which records a device can announce: fixed-width addresses, a type not ending in NUL,
  and no address fields without an IP block.
\<close>

definition identify_blocks :: "dcp_device \<Rightarrow> dcp_block list" where
  "identify_blocks d =
     [(DCP_OPTION_DEVICE, DCP_SUBOPTION_DEVICE_TYPE, 0, dd_device_type d),
      (DCP_OPTION_DEVICE, DCP_SUBOPTION_DEVICE_NAME, 0, dd_name d)]
     @ (case dd_ip_block_info d of None \<Rightarrow> []
        | Some info \<Rightarrow> [(DCP_OPTION_IP, DCP_SUBOPTION_IP_PARAMETER, info, dd_ip d @ dd_netmask d @ dd_gateway d)])
     @ [(DCP_OPTION_DEVICE, DCP_SUBOPTION_DEVICE_ID, 0, to_be16 (dd_vendor_id d) @ to_be16 (dd_device_id d)),
        (DCP_OPTION_DEVICE, DCP_SUBOPTION_DEVICE_ROLE, 0, [dd_role d, 0])]"

definition identify_answer :: "bytes \<Rightarrow> (u16 \<times> u16) list \<Rightarrow> u32 \<Rightarrow> bytes \<Rightarrow> dcp_device \<Rightarrow> bytes" where
  "identify_answer dst ts xid pad d =
     answer_frame dst (dd_mac d) ts DCP_IDENTIFY_RESPONSE_FRAME_ID DCP_SERVICE_ID_IDENTIFY xid (identify_blocks d) pad"

definition identify_ok :: "bytes \<Rightarrow> (u16 \<times> u16) list \<Rightarrow> dcp_device \<Rightarrow> bool" where
  "identify_ok dst ts d \<longleftrightarrow> frame_ok dst (dd_mac d) ts (identify_blocks d)
     \<and> length (dd_ip d) = 4 \<and> length (dd_netmask d) = 4 \<and> length (dd_gateway d) = 4
     \<and> trim_nul (dd_device_type d) = dd_device_type d
     \<and> (dd_ip_block_info d = None \<longrightarrow>
          dd_ip d = replicate 4 0 \<and> dd_netmask d = replicate 4 0 \<and> dd_gateway d = replicate 4 0)"

lemma to_be16_two: "sub_slice (to_be16 a @ to_be16 b) 0 4 = Some (to_be16 a @ to_be16 b)"
  by simp

lemma apply_identify_blocks:
  assumes "identify_ok dst ts d"
  shows "apply_blocks (identify_blocks d) (dcp_device_default\<lparr>dd_mac := dd_mac d\<rparr>) = Some d"
proof -
  obtain mac nm ty ip msk gw v i r info where d: "d = \<lparr>dd_mac = mac, dd_name = nm, dd_device_type = ty,
      dd_ip = ip, dd_netmask = msk, dd_gateway = gw, dd_vendor_id = v, dd_device_id = i, dd_role = r,
      dd_ip_block_info = info\<rparr>" by (cases d)
  have t: "trim_nul ty = ty" and l: "length ip = 4" "length msk = 4" "length gw = 4"
    using assms by (simp_all add: identify_ok_def d)
  have v: "rd16 (to_be16 v @ to_be16 i) 0 = v" "rd16 (to_be16 v @ to_be16 i) 2 = i"
    by (simp_all add: wire_simps)
  have z: "info = None \<Longrightarrow> ip = replicate 4 0 \<and> msk = replicate 4 0 \<and> gw = replicate 4 0"
    using assms by (simp add: identify_ok_def d)
  note defs = DCP_OPTION_DEVICE_def DCP_OPTION_IP_def DCP_SUBOPTION_DEVICE_TYPE_def
    DCP_SUBOPTION_DEVICE_NAME_def DCP_SUBOPTION_IP_PARAMETER_def DCP_SUBOPTION_DEVICE_ID_def
    DCP_SUBOPTION_DEVICE_ROLE_def
  show ?thesis
    using l t v z by (cases info) (simp_all add: d identify_blocks_def apply_block_def defs dcp_device_default_def)
qed

lemma parse_identify_answer:
  assumes "identify_ok dst ts d"
  shows "parse_identify_response (identify_answer dst ts xid pad d) = Some (Inr d)"
proof -
  have ok: "frame_ok dst (dd_mac d) ts (identify_blocks d)" using assms by (simp add: identify_ok_def)
  let ?n = "length (concat (map enc_block (identify_blocks d)))"
  have u: "uint (as_u16 ?n) = int ?n"
    using ok by (intro uint_as_u16) (simp add: frame_ok_def blocks_fit_def)
  have w: "identify_walk (int ?n) (concat (map enc_block (identify_blocks d)) @ pad)
      (dcp_device_default\<lparr>dd_mac := dd_mac d\<rparr>) = Some d"
    using identify_walk_enc [of "identify_blocks d"] ok apply_identify_blocks [OF assms]
    by (simp add: frame_ok_def)
  have l: "\<not> length (identify_answer dst ts xid pad d) < 14"
    using ok by (simp add: identify_answer_def answer_frame_def dcp_header_def frame_ok_def)
  have src: "sub_slice (identify_answer dst ts xid pad d) 6 12 = Some (dd_mac d)"
    using ok by (simp add: identify_answer_def answer_frame_def frame_ok_def)
  show ?thesis
    unfolding parse_identify_response_def if_not_P [OF l] src
    unfolding identify_answer_def answer_frame_payload [OF ok] bind.bind_lunit sum.case
      dcp_header_accesses u w
    by (simp add: DCP_SERVICE_TYPE_RESPONSE_SUCCESS_def dcp_header_accesses del: not_less)
qed

interpretation ident: wire_codec "identify_answer dst ts xid pad" parse_identify_response "identify_ok dst ts"
  for dst ts xid pad
  by unfold_locales (rule parse_identify_answer)



section \<open>What the request builders put on the wire\<close>

lemma strip_eth_untagged:
  "length dst = 6 \<Longrightarrow> length src = 6 \<Longrightarrow>
   strip_eth (eth_frame dst src PROFINET_ETHERTYPE p) 0x8892 = Some (Inr p)"
  using strip_eth_tagged [of dst src "[]" "0x8892" p]
  by (simp add: eth_frame_def PROFINET_ETHERTYPE_def VLAN_TPIDS_def)

lemma set_request_block:
  "length val + 2 < 65536 \<Longrightarrow>
   set_request src dst xid opt subopt q val
   = eth_frame dst src PROFINET_ETHERTYPE
      (dcp_header DCP_GET_SET_FRAME_ID DCP_SERVICE_ID_SET DCP_SERVICE_TYPE_REQUEST xid 0
        (as_u16 (length (enc_block (opt, subopt, q, val)))) (enc_block (opt, subopt, q, val)))"
  by (auto simp: set_request_def block_request_def enc_block_def Let_def odd_iff_mod_2_eq_one)

text \<open>
  A SET request is well framed: its DCPDataLength counts exactly the bytes that follow the
  header, that count is even, the block in it is the requested option and suboption with the
  qualifier and the value (its own length excluding the pad byte), and the transaction id a
  receiver reads is the caller's.
\<close>

theorem dcp_set_request_framed:
  assumes "length dst = 6" and "length src = 6" and "length val < 65529"
  shows "\<exists>p. strip_eth (set_request src dst xid opt subopt q val) 0x8892 = Some (Inr p)
     \<and> rd16 p 0 = 0xFEFD \<and> p ! 2 = 4 \<and> p ! 3 = 0 \<and> drop 12 p = enc_block (opt, subopt, q, val)
     \<and> unat (rd16 p 10) = length p - 12 \<and> even (length p)
     \<and> parse_dcp_xid (set_request src dst xid opt subopt q val) = Some (Some xid)"
proof -
  let ?b = "enc_block (opt, subopt, q, val)"
  let ?p = "dcp_header DCP_GET_SET_FRAME_ID DCP_SERVICE_ID_SET DCP_SERVICE_TYPE_REQUEST xid 0 (as_u16 (length ?b)) ?b"
  have s: "strip_eth (set_request src dst xid opt subopt q val) 0x8892 = Some (Inr ?p)"
    using assms by (simp add: set_request_block strip_eth_untagged)
  have l: "length ?p = 12 + length ?b" by (simp add: dcp_header_def)
  have u: "unat (as_u16 (length ?b)) = length ?b"
    using assms by (intro unat_as_u16) (simp add: length_enc_block)
  have e: "even (length ?b)" by (simp add: length_enc_block)
  have x: "parse_dcp_xid (set_request src dst xid opt subopt q val) = Some (Some xid)"
    using s l by (simp add: parse_dcp_xid_def dcp_payload_def PROFINET_ETHERTYPE_def dcp_header_accesses)
  show ?thesis
    using s x l u e
    by (intro exI [of _ ?p]) (simp add: dcp_header_reads DCP_GET_SET_FRAME_ID_def DCP_SERVICE_ID_SET_def
        DCP_SERVICE_TYPE_REQUEST_def)
qed

lemma dcp_set_request_framed_witness:
  "\<exists>p. strip_eth (set_request [6,7,8,9,10,11] [0,1,2,3,4,5] 7 2 2 1 [0x69, 0x6F, 0x31]) 0x8892 = Some (Inr p)
     \<and> rd16 p 0 = 0xFEFD \<and> p ! 2 = 4 \<and> p ! 3 = 0 \<and> drop 12 p = enc_block (2, 2, 1, [0x69, 0x6F, 0x31])
     \<and> unat (rd16 p 10) = length p - 12 \<and> even (length p)
     \<and> parse_dcp_xid (set_request [6,7,8,9,10,11] [0,1,2,3,4,5] 7 2 2 1 [0x69, 0x6F, 0x31]) = Some (Some 7)"
  by (rule dcp_set_request_framed) simp_all

text \<open>
  Two asymmetries of the GET path. The echo of our own GET request is an error there, although
  the comment on \<open>parse_get_response\<close> promises that everything but an answer is skipped, as
  the SET parser does; and a value that is present but empty is reported as absent when its
  block is the only one.
\<close>

lemma get_request_echo_is_error:
  assumes "length dst = 6" and "length src = 6"
  shows "parse_get_response (get_request src dst xid opt subopt) opt subopt xid = Some (Inl (NotDcpResponse 0))"
proof -
  let ?p = "dcp_header DCP_GET_SET_FRAME_ID DCP_SERVICE_ID_GET DCP_SERVICE_TYPE_REQUEST xid 0 2 (block_request opt subopt 0 [])"
  have s: "dcp_payload (get_request src dst xid opt subopt) = Some (Inr ?p)"
    using strip_eth_untagged [OF assms] by (simp add: dcp_payload_def get_request_def Let_def PROFINET_ETHERTYPE_def)
  show ?thesis
    unfolding parse_get_response_def s
    by (simp add: dcp_header_accesses DCP_SERVICE_TYPE_REQUEST_def DCP_SERVICE_TYPE_RESPONSE_SUCCESS_def del: not_less)
qed

lemma set_request_echo_is_skipped:
  assumes "length dst = 6" and "length src = 6" and "length val + 2 < 65536"
  shows "parse_set_response (set_request src dst xid opt subopt q val) xid = Some (Inr None)"
proof -
  have s: "dcp_payload (set_request src dst xid opt subopt q val) = Some (Inr
    (dcp_header DCP_GET_SET_FRAME_ID DCP_SERVICE_ID_SET DCP_SERVICE_TYPE_REQUEST xid 0
        (as_u16 (length (enc_block (opt, subopt, q, val)))) (enc_block (opt, subopt, q, val))))"
    using strip_eth_untagged [OF assms(1,2)] assms(3)
    by (simp add: dcp_payload_def set_request_block PROFINET_ETHERTYPE_def)
  show ?thesis
    unfolding parse_set_response_def s
    by (simp add: dcp_header_accesses DCP_SERVICE_TYPE_REQUEST_def DCP_SERVICE_TYPE_RESPONSE_SUCCESS_def
        DCP_SERVICE_TYPE_RESPONSE_UNSUPPORTED_def del: not_less)
qed

text \<open>
  The echo of a request is not treated alike on the two paths: our own SET request seen
  again is skipped, our own GET request seen again ends the wait with an error.
\<close>

theorem dcp_echo_asymmetry:
  assumes "length dst = 6" and "length src = 6" and "length val + 2 < 65536"
  shows "parse_set_response (set_request src dst xid opt subopt q val) xid = Some (Inr None)
    \<and> parse_get_response (get_request src dst xid opt subopt) opt subopt xid = Some (Inl (NotDcpResponse 0))"
  using set_request_echo_is_skipped [OF assms] get_request_echo_is_error [OF assms(1,2)] by simp

lemma dcp_echo_asymmetry_witness:
  "parse_set_response (set_request [6,7,8,9,10,11] [0,1,2,3,4,5] 7 2 2 1 [0x69]) 7 = Some (Inr None)
    \<and> parse_get_response (get_request [6,7,8,9,10,11] [0,1,2,3,4,5] 7 2 2) 2 2 7 = Some (Inl (NotDcpResponse 0))"
  by (rule dcp_echo_asymmetry) simp_all

lemma get_empty_value_is_absent:
  "parse_get_response (answer_frame [0,1,2,3,4,5] [6,7,8,9,10,11] [] DCP_GET_SET_FRAME_ID DCP_SERVICE_ID_GET 7
     [(2, 2, 0, [])] []) 2 2 7 = Some (Inr None)"
  by code_simp

text \<open>A signal of 6553600 ms is sent with the duration 0: the count of 100 ms units is cut to 16 bits.\<close>

lemma signal_duration_wraps:
  "signal_request src dst xid 6553600 = set_request src dst xid DCP_OPTION_CONTROL DCP_SUBOPTION_CONTROL_SIGNAL 1 [0, 0]"
  by (simp add: signal_request_def to_be16_def)

end
