(* ===== verification/Cyclic.thy ===== *)
theory Cyclic
  imports Rt
begin

text \<open>
  Model of \<open>src/cyclic.rs\<close>, the RT\_CLASS\_1 controller: the state shared by the controller
  handle and its two threads, every socket-free operation on it, one pass of the transmit and
  of the receive loop, and start and stop. A mutex-protected field is a record field; an
  operation takes the shared state and returns it, and the interleaving of threads is the
  order in which the operations are composed. An \<open>Instant\<close> is a number of microseconds
  handed in by the caller, a callback invocation is an entry of the event log, and the outcome
  of a socket call is an argument. The statistics counters (\<open>u64\<close> and \<open>u32\<close>) are natural
  numbers: no run reaches their width.
\<close>

section \<open>State\<close>

definition DEFAULT_MAX_CONSECUTIVE_TIMEOUTS :: nat where "DEFAULT_MAX_CONSECUTIVE_TIMEOUTS = 3"
definition STOP_FRAME_COUNT :: nat where "STOP_FRAME_COUNT = 3"

datatype cyclic_state = Idle | Starting | Running | Stopping | Stopped | Fault

definition output_writes_locked :: "cyclic_state \<Rightarrow> bool" where
  "output_writes_locked st =
     (case st of Stopping \<Rightarrow> True | Fault \<Rightarrow> True | Stopped \<Rightarrow> True | _ \<Rightarrow> False)"

definition cyclic_state_as_str :: "cyclic_state \<Rightarrow> string" where
  "cyclic_state_as_str st =
     (case st of Idle \<Rightarrow> ''idle'' | Starting \<Rightarrow> ''starting'' | Running \<Rightarrow> ''running''
      | Stopping \<Rightarrow> ''stopping'' | Stopped \<Rightarrow> ''stopped'' | Fault \<Rightarrow> ''fault'')"

record cyclic_stats =
  frames_sent :: nat
  frames_received :: nat
  frames_missed :: nat
  frames_invalid :: nat
  frames_duplicate :: nat
  frames_out_of_order :: nat
  last_cycle_time_us :: nat
  max_jitter_us :: nat
  min_cycle_time_us :: nat
  max_cycle_time_us :: nat
  last_rx_interval_us :: nat
  max_rx_jitter_us :: nat
  min_rx_interval_us :: nat
  max_rx_interval_us :: nat
  rx_interval_sum_us :: nat
  rx_interval_count :: nat
  last_receive_time :: nat
  interval_disturbed :: bool
  last_accepted_time :: "nat option"
  consecutive_timeouts :: nat
  cycle_time_sum_us :: nat
  cycle_count :: nat

definition stats_new :: "nat \<Rightarrow> cyclic_stats" where
  "stats_new now =
     \<lparr>frames_sent = 0, frames_received = 0, frames_missed = 0, frames_invalid = 0,
      frames_duplicate = 0, frames_out_of_order = 0, last_cycle_time_us = 0, max_jitter_us = 0,
      min_cycle_time_us = 2 ^ 31, max_cycle_time_us = 0, last_rx_interval_us = 0,
      max_rx_jitter_us = 0, min_rx_interval_us = 2 ^ 31, max_rx_interval_us = 0,
      rx_interval_sum_us = 0, rx_interval_count = 0, last_receive_time = now,
      interval_disturbed = False, last_accepted_time = None, consecutive_timeouts = 0,
      cycle_time_sum_us = 0, cycle_count = 0\<rparr>"

definition avg_cycle_time_us :: "cyclic_stats \<Rightarrow> nat" where
  "avg_cycle_time_us st = (if cycle_count st = 0 then 0 else cycle_time_sum_us st div cycle_count st)"

definition avg_rx_interval_us :: "cyclic_stats \<Rightarrow> nat" where
  "avg_rx_interval_us st =
     (if rx_interval_count st = 0 then 0 else rx_interval_sum_us st div rx_interval_count st)"

record input_entry =
  ie_data :: bytes
  ie_iops :: u8

definition is_good :: "input_entry \<Rightarrow> bool" where
  "is_good e = (ie_iops e AND IOXS_DATA_STATE_GOOD \<noteq> 0)"

text \<open>Which callbacks are registered, and what invoking them is: a log entry.\<close>

record callbacks =
  on_input_data :: bool
  on_input_status :: bool
  on_timeout :: bool
  on_error :: bool
  on_state_change :: bool

datatype cyclic_error =
    CommunicationLost nat
  | SafeOutputNotApplied rt_error
  | TxError string
  | RxError string

datatype cyclic_event =
    EvInputData u16 u16 bytes
  | EvInputStatus u16 u16 u8
  | EvTimeout
  | EvError cyclic_error
  | EvStateChange cyclic_state cyclic_state

record shared =
  sh_src_mac :: bytes
  sh_dst_mac :: bytes
  sh_input_iocr :: iocr_config
  sh_output_iocr :: iocr_config
  sh_max_consecutive_timeouts :: nat
  sh_state :: cyclic_state
  sh_running :: bool
  sh_ever_faulted :: bool
  sh_cycle_counter :: u16
  sh_output_builder :: cyclic_data_builder
  sh_input_data :: "u16 \<times> u16 \<rightharpoonup> input_entry"
  sh_last_rx_cycle_counter :: "u16 option"
  sh_rx_counter_step :: u32
  sh_tx_counter_step :: u32
  sh_callbacks :: callbacks
  sh_stats :: cyclic_stats
  sh_safe_output :: "(u16 \<times> u16 \<times> bytes) option"
  sh_log :: "cyclic_event list"

section \<open>Operations on the shared state\<close>

definition emit :: "(callbacks \<Rightarrow> bool) \<Rightarrow> cyclic_event \<Rightarrow> shared \<Rightarrow> shared" where
  "emit registered ev sh =
     (if registered (sh_callbacks sh) then sh\<lparr>sh_log := sh_log sh @ [ev]\<rparr> else sh)"

definition upd_stats :: "(cyclic_stats \<Rightarrow> cyclic_stats) \<Rightarrow> shared \<Rightarrow> shared" where
  "upd_stats f sh = sh\<lparr>sh_stats := f (sh_stats sh)\<rparr>"

definition transition :: "cyclic_state \<Rightarrow> shared \<Rightarrow> shared" where
  "transition new_state sh =
     (let old = sh_state sh in
      if old = new_state then sh
      else
        (let sh1 = sh\<lparr>sh_state := new_state\<rparr>;
             sh2 = (if new_state = Fault then sh1\<lparr>sh_ever_faulted := True\<rparr> else sh1)
         in emit on_state_change (EvStateChange old new_state) sh2))"

definition emit_error :: "cyclic_error \<Rightarrow> shared \<Rightarrow> shared" where
  "emit_error message sh = emit on_error (EvError message) sh"

definition next_output_frame :: "u8 option \<Rightarrow> shared \<Rightarrow> (bytes \<times> shared) option" where
  "next_output_frame data_status sh =
     (let counter = ucast ((ucast (sh_cycle_counter sh) + sh_tx_counter_step sh) AND 0xFFFF) :: u16
      in do {
        builder \<leftarrow> swap (sh_output_builder sh);
        (let payload = build builder;
             status = (case data_status of Some d \<Rightarrow> d
               | None \<Rightarrow> DATA_STATUS_VALID OR DATA_STATUS_PROVIDER_RUN OR DATA_STATUS_STATION_OK
                          OR DATA_STATUS_STATE);
             frame = \<lparr>rf_frame_id = cfg_frame_id (sh_output_iocr sh), rf_cycle_counter = counter,
                      rf_data_status = status, rf_transfer_status = 0x00, rf_payload = payload\<rparr>
         in Some (build_ethernet_frame (sh_dst_mac sh) (sh_src_mac sh) frame,
                  sh\<lparr>sh_cycle_counter := counter, sh_output_builder := builder\<rparr>)) })"

definition frame_is_alive :: "rt_frame \<Rightarrow> bool" where
  "frame_is_alive f =
     (is_valid f \<and> is_running f \<and> \<not> is_ignored f \<and> rf_transfer_status f = 0)"

definition track_cycle_counter :: "u16 \<Rightarrow> shared \<Rightarrow> shared" where
  "track_cycle_counter rx_counter sh =
     (case sh_last_rx_cycle_counter sh of
        None \<Rightarrow> sh\<lparr>sh_last_rx_cycle_counter := Some rx_counter\<rparr>
      | Some prev \<Rightarrow>
          (let step = sh_rx_counter_step sh;
               expected = ucast ((ucast prev + step) AND 0xFFFF) :: u16
           in if rx_counter = prev then
                upd_stats (\<lambda>s. s\<lparr>frames_duplicate := frames_duplicate s + 1\<rparr>) sh
              else if rx_counter \<noteq> expected then
                (let forward = ucast (rx_counter - prev) :: u32;
                     sh1 = (if 0x8000 < forward then
                              upd_stats (\<lambda>s. s\<lparr>frames_out_of_order := frames_out_of_order s + 1\<rparr>) sh
                            else
                              (let gap = (if step = 0 then 0 else unat (forward div step) - 1)
                               in upd_stats (\<lambda>s. s\<lparr>frames_missed := frames_missed s + gap\<rparr>) sh))
                 in sh1\<lparr>sh_last_rx_cycle_counter := Some rx_counter\<rparr>)
              else sh\<lparr>sh_last_rx_cycle_counter := Some rx_counter\<rparr>))"

definition abs_diff :: "nat \<Rightarrow> nat \<Rightarrow> nat" where
  "abs_diff a b = (if a < b then b - a else a - b)"

text \<open>The statistics of one received frame, the block under the stats lock.\<close>

definition note_received :: "nat \<Rightarrow> nat \<Rightarrow> bool \<Rightarrow> cyclic_stats \<Rightarrow> cyclic_stats" where
  "note_received now target_us valid s0 =
     (let s1 = s0\<lparr>frames_received := frames_received s0 + 1\<rparr> in
      if valid then
        (let s2 = (case last_accepted_time s1 of
              None \<Rightarrow> s1
            | Some previous \<Rightarrow>
                (let interval_us = now - previous;
                     sa = s1\<lparr>last_rx_interval_us := interval_us,
                             max_rx_interval_us := max (max_rx_interval_us s1) interval_us\<rparr>
                 in if \<not> interval_disturbed sa then
                      sa\<lparr>max_rx_jitter_us := max (max_rx_jitter_us sa) (abs_diff interval_us target_us),
                         min_rx_interval_us := min (min_rx_interval_us sa) interval_us,
                         rx_interval_sum_us := rx_interval_sum_us sa + interval_us,
                         rx_interval_count := rx_interval_count sa + 1\<rparr>
                    else sa))
         in s2\<lparr>last_accepted_time := Some now, last_receive_time := now, consecutive_timeouts := 0,
               interval_disturbed := False\<rparr>)
      else s1\<lparr>interval_disturbed := True\<rparr>)"

text \<open>The extraction loop under the input lock: entries, data updates and status changes.\<close>

type_synonym input_map = "u16 \<times> u16 \<rightharpoonup> input_entry"

fun extract_objects ::
    "bytes \<Rightarrow> bool \<Rightarrow> io_data_object list \<Rightarrow> input_map \<Rightarrow> (u16 \<times> u16 \<times> bytes) list
      \<Rightarrow> (u16 \<times> u16 \<times> u8) list
      \<Rightarrow> (input_map \<times> (u16 \<times> u16 \<times> bytes) list \<times> (u16 \<times> u16 \<times> u8) list) option" where
  "extract_objects payload want_data [] m updates changes = Some (m, updates, changes)"
| "extract_objects payload want_data (obj # objs) m updates changes =
     (if length payload \<le> obj_iops_offset obj
         \<or> length payload < obj_frame_offset obj + obj_data_length obj
      then extract_objects payload want_data objs m updates changes
      else do {
        iops \<leftarrow> idx payload (obj_iops_offset obj);
        d \<leftarrow> sub_slice payload (obj_frame_offset obj) (obj_frame_offset obj + obj_data_length obj);
        (let key = (obj_slot obj, obj_subslot obj);
             was_good = (case m key of None \<Rightarrow> False | Some e \<Rightarrow> is_good e);
             now_good = (iops AND IOXS_DATA_STATE_GOOD \<noteq> 0);
             changes' = (if now_good \<noteq> was_good then changes @ [(obj_slot obj, obj_subslot obj, iops)]
                         else changes);
             updates' = (if now_good \<and> want_data then updates @ [(obj_slot obj, obj_subslot obj, d)]
                         else updates)
         in extract_objects payload want_data objs (m(key \<mapsto> \<lparr>ie_data = d, ie_iops = iops\<rparr>))
              updates' changes') })"

text \<open>What a frame that passed every filter does to the shared state.\<close>

definition accept_frame :: "nat \<Rightarrow> rt_frame \<Rightarrow> shared \<Rightarrow> shared option" where
  "accept_frame now frame sh =
     (let valid = frame_is_alive frame;
          sh1 = upd_stats (note_received now (cycle_time_us (sh_input_iocr sh)) valid) sh;
          sh2 = (if valid \<and> sh_state sh1 = Fault then transition Running sh1 else sh1);
          sh3 = track_cycle_counter (rf_cycle_counter frame) sh2
      in if \<not> valid then Some (upd_stats (\<lambda>s. s\<lparr>frames_invalid := frames_invalid s + 1\<rparr>) sh3)
         else do {
           builder \<leftarrow> set_all_iocs IOXS_GOOD (sh_output_builder sh3);
           (let sh4 = sh3\<lparr>sh_output_builder := builder\<rparr>;
                want_data = on_input_data (sh_callbacks sh4)
            in do {
              r \<leftarrow> extract_objects (rf_payload frame) want_data (cfg_objects (sh_input_iocr sh4))
                     (sh_input_data sh4) [] [];
              (let sh5 = sh4\<lparr>sh_input_data := fst r\<rparr>;
                   sh6 = fold (\<lambda>(s, ss, iops). emit on_input_status (EvInputStatus s ss iops))
                           (snd (snd r)) sh5
               in Some (fold (\<lambda>(s, ss, d). emit on_input_data (EvInputData s ss d))
                          (fst (snd r)) sh6)) }) })"

definition process_input_frame :: "nat \<Rightarrow> bytes \<Rightarrow> shared \<Rightarrow> shared option" where
  "process_input_frame now data sh =
     (if length data < 18 then Some sh
      else do {
        src \<leftarrow> sub_slice data 6 12;
        if src \<noteq> sh_dst_mac sh then Some sh
        else do {
          parsed \<leftarrow> parse_ethernet_frame data;
          (case parsed of
             None \<Rightarrow> Some sh
           | Some frame \<Rightarrow>
               (if rf_frame_id frame \<noteq> cfg_frame_id (sh_input_iocr sh) then Some sh
                else accept_frame now frame sh)) } })"

definition handle_watchdog_timeout :: "shared \<Rightarrow> shared option" where
  "handle_watchdog_timeout sh =
     (let sh1 = upd_stats (\<lambda>s. s\<lparr>frames_missed := frames_missed s + 1,
                consecutive_timeouts := consecutive_timeouts s + 1, interval_disturbed := True\<rparr>) sh;
          consecutive = consecutive_timeouts (sh_stats sh1)
      in do {
        builder \<leftarrow> (if 0 < sh_max_consecutive_timeouts sh1
                    then set_all_iocs IOXS_BAD (sh_output_builder sh1)
                    else Some (sh_output_builder sh1));
        (let sh2 = emit on_timeout EvTimeout (sh1\<lparr>sh_output_builder := builder\<rparr>)
         in Some (if 0 < sh_max_consecutive_timeouts sh2 \<and> sh_max_consecutive_timeouts sh2 \<le> consecutive
                     \<and> sh_state sh2 = Running
                  then emit_error (CommunicationLost consecutive) (transition Fault sh2)
                  else sh2)) })"

definition apply_safe_output :: "shared \<Rightarrow> shared option" where
  "apply_safe_output sh =
     (case sh_safe_output sh of
        None \<Rightarrow> Some sh
      | Some (slot, subslot, data) \<Rightarrow> do {
          r \<leftarrow> set_data slot subslot data (sh_output_builder sh);
          (case fst r of
             Inl e \<Rightarrow> Some (emit_error (SafeOutputNotApplied e) sh)
           | Inr _ \<Rightarrow> do {
               b1 \<leftarrow> set_iops slot subslot IOXS_GOOD (snd r);
               b2 \<leftarrow> swap b1;
               Some (sh\<lparr>sh_output_builder := b2\<rparr>) }) })"

text \<open>
  The STOP frames, with the outcome of each send as an oracle. The result is the frames
  handed to the socket, the failed one included.
\<close>

fun stop_frame_loop :: "nat \<Rightarrow> bool list \<Rightarrow> shared \<Rightarrow> (bytes list \<times> shared) option" where
  "stop_frame_loop 0 sends sh = Some ([], sh)"
| "stop_frame_loop (Suc n) sends sh = do {
     b \<leftarrow> swap (sh_output_builder sh);
     r \<leftarrow> next_output_frame (Some (DATA_STATUS_VALID OR DATA_STATUS_STATION_OK OR DATA_STATUS_STATE))
            (sh\<lparr>sh_output_builder := b\<rparr>);
     (case sends of
        True # rest \<Rightarrow> do {
          q \<leftarrow> stop_frame_loop n rest
                 (upd_stats (\<lambda>s. s\<lparr>frames_sent := frames_sent s + 1\<rparr>) (snd r));
          Some (fst r # fst q, snd q) }
      | _ \<Rightarrow> Some ([fst r], snd r)) }"

definition send_stop_frames :: "bool list \<Rightarrow> shared \<Rightarrow> (bytes list \<times> shared) option" where
  "send_stop_frames sends sh = stop_frame_loop STOP_FRAME_COUNT sends sh"

section \<open>The transmit and receive loops\<close>

record tx_local =
  next_send :: nat
  last_send :: nat
  first_frame :: bool

definition tx_start :: "nat \<Rightarrow> tx_local" where
  "tx_start now = \<lparr>next_send = now, last_send = now, first_frame = True\<rparr>"

text \<open>
  One pass of the transmit loop at time \<open>now\<close>; \<open>sent\<close> is the outcome of the send, should
  the pass make one. The frame put on the wire is returned.
\<close>

definition note_sent :: "nat \<Rightarrow> nat \<Rightarrow> cyclic_stats \<Rightarrow> cyclic_stats" where
  "note_sent actual_us cycle_us s =
     (let jitter = abs_diff actual_us cycle_us
      in s\<lparr>last_cycle_time_us := actual_us,
           max_jitter_us := (if max_jitter_us s < jitter then jitter else max_jitter_us s),
           min_cycle_time_us := min (min_cycle_time_us s) actual_us,
           max_cycle_time_us := max (max_cycle_time_us s) actual_us,
           cycle_time_sum_us := cycle_time_sum_us s + actual_us,
           cycle_count := cycle_count s + 1\<rparr>)"

definition tx_pass :: "nat \<Rightarrow> string option \<Rightarrow> tx_local \<Rightarrow> shared \<Rightarrow> (bytes option \<times> tx_local \<times> shared) option" where
  "tx_pass now send_err loc sh =
     (if next_send loc \<le> now then do {
        r \<leftarrow> next_output_frame None sh;
        (let cycle_us = cycle_time_us (sh_output_iocr sh);
             sh1 = (case send_err of None \<Rightarrow> snd r | Some e \<Rightarrow> emit_error (TxError e) (snd r));
             sh2 = upd_stats (\<lambda>s. s\<lparr>frames_sent := frames_sent s + 1\<rparr>) sh1;
             sh3 = (if first_frame loc then sh2
                    else upd_stats (note_sent (now - last_send loc) cycle_us) sh2);
             next1 = next_send loc + cycle_us;
             next2 = (if next1 < now then now + cycle_us else next1)
         in Some (Some (fst r), \<lparr>next_send = next2, last_send = now, first_frame = False\<rparr>, sh3)) }
      else Some (None, loc, sh))"

text \<open>The timer is read at \<open>now\<close> and re-armed at \<open>rearm\<close>, two readings of the clock.\<close>

definition check_receive_watchdog :: "nat \<Rightarrow> nat \<Rightarrow> nat \<Rightarrow> shared \<Rightarrow> shared option" where
  "check_receive_watchdog now rearm watchdog sh =
     (if watchdog < now - last_receive_time (sh_stats sh) then do {
        sh1 \<leftarrow> handle_watchdog_timeout sh;
        Some (upd_stats (\<lambda>s. s\<lparr>last_receive_time := rearm\<rparr>) sh1) }
      else Some sh)"

text \<open>What one \<open>recv_frame\<close> call returned.\<close>

datatype rx_input = RxFrame bytes | RxIdle | RxFailed string

text \<open>
  One pass of the receive loop; the flag says whether the loop goes on. The clock is read when
  the frame is processed, when the watchdog is checked and when it is re-armed.
\<close>

record rx_times =
  at_frame :: nat
  at_check :: nat
  at_rearm :: nat

definition rx_start :: "nat \<Rightarrow> shared \<Rightarrow> shared" where
  "rx_start now sh = upd_stats (\<lambda>s. s\<lparr>last_receive_time := now\<rparr>) sh"

definition rx_pass :: "rx_times \<Rightarrow> rx_input \<Rightarrow> shared \<Rightarrow> (bool \<times> shared) option" where
  "rx_pass t input sh =
     (let watchdog = watchdog_time_us (sh_input_iocr sh) in
      case input of
        RxFailed e \<Rightarrow>
          Some (False,
            if sh_running sh then
              (let sh1 = emit_error (RxError e) sh
               in if sh_state sh1 = Running then transition Fault sh1 else sh1)
            else sh)
      | RxFrame data \<Rightarrow> do {
          sh1 \<leftarrow> process_input_frame (at_frame t) data sh;
          sh2 \<leftarrow> check_receive_watchdog (at_check t) (at_rearm t) watchdog sh1;
          Some (True, sh2) }
      | RxIdle \<Rightarrow> do {
          sh2 \<leftarrow> check_receive_watchdog (at_check t) (at_rearm t) watchdog sh;
          Some (True, sh2) })"

fun rx_loop :: "(rx_times \<times> rx_input) list \<Rightarrow> shared \<Rightarrow> shared option" where
  "rx_loop [] sh = Some sh"
| "rx_loop ((t, input) # rest) sh =
     (if sh_running sh then do {
        r \<leftarrow> rx_pass t input sh;
        if fst r then rx_loop rest (snd r) else Some (snd r) }
      else Some sh)"

section \<open>The controller\<close>

text \<open>The two join handles: whether a thread has been spawned and not joined yet.\<close>

record cyclic_controller =
  cc_interface :: string
  cc_shared :: shared
  cc_tx_thread :: bool
  cc_rx_thread :: bool

datatype controller_error =
    CycleTimeTooShort nat
  | CannotSetOutput cyclic_state
  | OutputRejected rt_error
  | CannotStart cyclic_state
  | OpenFailed string
  | SpawnFailed string

text \<open>The cycle time in milliseconds is below 1.0 exactly when it is below 1000 microseconds.\<close>

definition controller_new ::
    "nat \<Rightarrow> string \<Rightarrow> bytes \<Rightarrow> bytes \<Rightarrow> iocr_config \<Rightarrow> iocr_config \<Rightarrow> nat
      \<Rightarrow> (controller_error + cyclic_controller) option" where
  "controller_new now ifname src_mac dst_mac input_iocr output_iocr max_consecutive =
     (if cycle_time_us output_iocr < 1000 then Some (Inl (CycleTimeTooShort (cycle_time_us output_iocr)))
      else do {
        builder \<leftarrow> set_all_iops IOXS_GOOD (builder_new output_iocr);
        Some (Inr \<lparr>cc_interface = ifname,
          cc_shared = \<lparr>sh_src_mac = src_mac, sh_dst_mac = dst_mac, sh_input_iocr = input_iocr,
            sh_output_iocr = output_iocr, sh_max_consecutive_timeouts = max_consecutive,
            sh_state = Idle, sh_running = False, sh_ever_faulted = False, sh_cycle_counter = 0,
            sh_output_builder = builder, sh_input_data = Map.empty, sh_last_rx_cycle_counter = None,
            sh_rx_counter_step = ucast (cfg_send_clock_factor input_iocr)
              * ucast (cfg_reduction_ratio input_iocr),
            sh_tx_counter_step = ucast (cfg_send_clock_factor output_iocr)
              * ucast (cfg_reduction_ratio output_iocr),
            sh_callbacks = \<lparr>on_input_data = False, on_input_status = False, on_timeout = False,
              on_error = False, on_state_change = False\<rparr>,
            sh_stats = stats_new now, sh_safe_output = None, sh_log = []\<rparr>,
          cc_tx_thread = False, cc_rx_thread = False\<rparr>) })"

definition set_output_data :: "u16 \<Rightarrow> u16 \<Rightarrow> bytes \<Rightarrow> shared \<Rightarrow> ((controller_error + unit) \<times> shared) option" where
  "set_output_data slot subslot data sh =
     (if output_writes_locked (sh_state sh) then Some (Inl (CannotSetOutput (sh_state sh)), sh)
      else do {
        r \<leftarrow> set_data slot subslot data (sh_output_builder sh);
        (case fst r of
           Inl e \<Rightarrow> Some (Inl (OutputRejected e), sh)
         | Inr _ \<Rightarrow> do {
             b \<leftarrow> set_iops slot subslot IOXS_GOOD (snd r);
             Some (Inr (), sh\<lparr>sh_output_builder := b\<rparr>) }) })"

definition get_input_data :: "u16 \<Rightarrow> u16 \<Rightarrow> shared \<Rightarrow> bytes option" where
  "get_input_data slot subslot sh =
     (case sh_input_data sh (slot, subslot) of None \<Rightarrow> None
      | Some e \<Rightarrow> if is_good e then Some (ie_data e) else None)"

definition get_input_data_allow_bad :: "u16 \<Rightarrow> u16 \<Rightarrow> shared \<Rightarrow> bytes option" where
  "get_input_data_allow_bad slot subslot sh = map_option ie_data (sh_input_data sh (slot, subslot))"

definition get_input_status :: "u16 \<Rightarrow> u16 \<Rightarrow> shared \<Rightarrow> u8 option" where
  "get_input_status slot subslot sh = map_option ie_iops (sh_input_data sh (slot, subslot))"

definition is_input_good :: "u16 \<Rightarrow> u16 \<Rightarrow> shared \<Rightarrow> bool" where
  "is_input_good slot subslot sh =
     (case sh_input_data sh (slot, subslot) of None \<Rightarrow> False | Some e \<Rightarrow> is_good e)"

definition set_safe_output :: "u16 \<Rightarrow> u16 \<Rightarrow> bytes \<Rightarrow> shared \<Rightarrow> shared" where
  "set_safe_output slot subslot data sh = sh\<lparr>sh_safe_output := Some (slot, subslot, data)\<rparr>"

text \<open>
  Starting: the arguments are the clock, the outcomes of the two socket opens and of the two
  thread spawns. A failure leaves the state the source leaves it in.
\<close>

definition start ::
    "nat \<Rightarrow> string option \<Rightarrow> string option \<Rightarrow> string option \<Rightarrow> string option
      \<Rightarrow> cyclic_controller \<Rightarrow> ((controller_error + unit) \<times> cyclic_controller) option" where
  "start now tx_open rx_open tx_spawn rx_spawn c =
     (let state = sh_state (cc_shared c) in
      if state \<notin> {Idle, Stopped, Fault} then Some (Inl (CannotStart state), c)
      else
        (let sh1 = (transition Starting (cc_shared c))\<lparr>sh_running := True\<rparr>;
             sh2 = (upd_stats (\<lambda>_. stats_new now) sh1)\<lparr>sh_ever_faulted := False,
                      sh_last_rx_cycle_counter := None\<rparr>;
             c2 = c\<lparr>cc_shared := sh2\<rparr>
         in case tx_open of Some e \<Rightarrow> Some (Inl (OpenFailed e), c2)
            | None \<Rightarrow>
           (case rx_open of Some e \<Rightarrow> Some (Inl (OpenFailed e), c2)
            | None \<Rightarrow> do {
                b \<leftarrow> swap (sh_output_builder sh2);
                (let sh3 = sh2\<lparr>sh_output_builder := b\<rparr>;
                     c3 = c\<lparr>cc_shared := sh3\<rparr>
                 in case tx_spawn of Some e \<Rightarrow> Some (Inl (SpawnFailed e), c3)
                    | None \<Rightarrow>
                   (case rx_spawn of Some e \<Rightarrow> Some (Inl (SpawnFailed e), c3\<lparr>cc_tx_thread := True\<rparr>)
                    | None \<Rightarrow>
                       Some (Inr (), c\<lparr>cc_shared := transition Running sh3, cc_tx_thread := True,
                                       cc_rx_thread := True\<rparr>))) })))"

text \<open>
  Stopping, in two halves so that what other threads do in between can be stated. The first
  half applies the safe output; the second, for a running controller, moves to Stopping,
  sends the STOP frames on the socket the transmit thread hands back (unless that thread
  panicked) and ends Stopped. The result carries the frames handed to the socket.
\<close>

definition stop_rest :: "bool \<Rightarrow> bool list \<Rightarrow> cyclic_controller \<Rightarrow> (bytes list \<times> cyclic_controller) option" where
  "stop_rest tx_joined sends c =
     (if \<not> sh_running (cc_shared c) then Some ([], c)
      else
        (let sh1 = (transition Stopping (cc_shared c))\<lparr>sh_running := False\<rparr>
         in do {
           r \<leftarrow> (if cc_tx_thread c \<and> tx_joined then send_stop_frames sends sh1 else Some ([], sh1));
           Some (fst r, c\<lparr>cc_shared := transition Stopped (snd r), cc_tx_thread := False,
                          cc_rx_thread := False\<rparr>) }))"

definition stop :: "bool \<Rightarrow> bool list \<Rightarrow> cyclic_controller \<Rightarrow> (bytes list \<times> cyclic_controller) option" where
  "stop tx_joined sends c = do {
     sh \<leftarrow> apply_safe_output (cc_shared c);
     stop_rest tx_joined sends (c\<lparr>cc_shared := sh\<rparr>) }"

definition stop_safe ::
    "u16 \<Rightarrow> u16 \<Rightarrow> bytes \<Rightarrow> bool \<Rightarrow> bool list \<Rightarrow> cyclic_controller \<Rightarrow> (bytes list \<times> cyclic_controller) option" where
  "stop_safe slot subslot data tx_joined sends c =
     stop tx_joined sends (c\<lparr>cc_shared := set_safe_output slot subslot data (cc_shared c)\<rparr>)"

section \<open>Frame conditions\<close>

lemma emit_fields [simp]:
  "sh_src_mac (emit p e sh) = sh_src_mac sh"
  "sh_dst_mac (emit p e sh) = sh_dst_mac sh"
  "sh_input_iocr (emit p e sh) = sh_input_iocr sh"
  "sh_output_iocr (emit p e sh) = sh_output_iocr sh"
  "sh_max_consecutive_timeouts (emit p e sh) = sh_max_consecutive_timeouts sh"
  "sh_state (emit p e sh) = sh_state sh"
  "sh_running (emit p e sh) = sh_running sh"
  "sh_ever_faulted (emit p e sh) = sh_ever_faulted sh"
  "sh_cycle_counter (emit p e sh) = sh_cycle_counter sh"
  "sh_output_builder (emit p e sh) = sh_output_builder sh"
  "sh_input_data (emit p e sh) = sh_input_data sh"
  "sh_last_rx_cycle_counter (emit p e sh) = sh_last_rx_cycle_counter sh"
  "sh_rx_counter_step (emit p e sh) = sh_rx_counter_step sh"
  "sh_tx_counter_step (emit p e sh) = sh_tx_counter_step sh"
  "sh_callbacks (emit p e sh) = sh_callbacks sh"
  "sh_stats (emit p e sh) = sh_stats sh"
  "sh_safe_output (emit p e sh) = sh_safe_output sh"
  by (simp_all add: emit_def)

lemma emit_fold_fields [simp]:
  "sh_src_mac (fold (\<lambda>x. emit p (g x)) xs sh) = sh_src_mac sh"
  "sh_dst_mac (fold (\<lambda>x. emit p (g x)) xs sh) = sh_dst_mac sh"
  "sh_input_iocr (fold (\<lambda>x. emit p (g x)) xs sh) = sh_input_iocr sh"
  "sh_output_iocr (fold (\<lambda>x. emit p (g x)) xs sh) = sh_output_iocr sh"
  "sh_max_consecutive_timeouts (fold (\<lambda>x. emit p (g x)) xs sh) = sh_max_consecutive_timeouts sh"
  "sh_state (fold (\<lambda>x. emit p (g x)) xs sh) = sh_state sh"
  "sh_running (fold (\<lambda>x. emit p (g x)) xs sh) = sh_running sh"
  "sh_ever_faulted (fold (\<lambda>x. emit p (g x)) xs sh) = sh_ever_faulted sh"
  "sh_cycle_counter (fold (\<lambda>x. emit p (g x)) xs sh) = sh_cycle_counter sh"
  "sh_output_builder (fold (\<lambda>x. emit p (g x)) xs sh) = sh_output_builder sh"
  "sh_input_data (fold (\<lambda>x. emit p (g x)) xs sh) = sh_input_data sh"
  "sh_last_rx_cycle_counter (fold (\<lambda>x. emit p (g x)) xs sh) = sh_last_rx_cycle_counter sh"
  "sh_rx_counter_step (fold (\<lambda>x. emit p (g x)) xs sh) = sh_rx_counter_step sh"
  "sh_tx_counter_step (fold (\<lambda>x. emit p (g x)) xs sh) = sh_tx_counter_step sh"
  "sh_callbacks (fold (\<lambda>x. emit p (g x)) xs sh) = sh_callbacks sh"
  "sh_stats (fold (\<lambda>x. emit p (g x)) xs sh) = sh_stats sh"
  "sh_safe_output (fold (\<lambda>x. emit p (g x)) xs sh) = sh_safe_output sh"
  by (induction xs arbitrary: sh) simp_all

lemma emit_error_fields [simp]:
  "sh_src_mac (emit_error e sh) = sh_src_mac sh"
  "sh_dst_mac (emit_error e sh) = sh_dst_mac sh"
  "sh_input_iocr (emit_error e sh) = sh_input_iocr sh"
  "sh_output_iocr (emit_error e sh) = sh_output_iocr sh"
  "sh_max_consecutive_timeouts (emit_error e sh) = sh_max_consecutive_timeouts sh"
  "sh_state (emit_error e sh) = sh_state sh"
  "sh_running (emit_error e sh) = sh_running sh"
  "sh_ever_faulted (emit_error e sh) = sh_ever_faulted sh"
  "sh_cycle_counter (emit_error e sh) = sh_cycle_counter sh"
  "sh_output_builder (emit_error e sh) = sh_output_builder sh"
  "sh_input_data (emit_error e sh) = sh_input_data sh"
  "sh_last_rx_cycle_counter (emit_error e sh) = sh_last_rx_cycle_counter sh"
  "sh_rx_counter_step (emit_error e sh) = sh_rx_counter_step sh"
  "sh_tx_counter_step (emit_error e sh) = sh_tx_counter_step sh"
  "sh_callbacks (emit_error e sh) = sh_callbacks sh"
  "sh_stats (emit_error e sh) = sh_stats sh"
  "sh_safe_output (emit_error e sh) = sh_safe_output sh"
  by (simp_all add: emit_error_def)

lemma upd_stats_fields [simp]:
  "sh_src_mac (upd_stats h sh) = sh_src_mac sh"
  "sh_dst_mac (upd_stats h sh) = sh_dst_mac sh"
  "sh_input_iocr (upd_stats h sh) = sh_input_iocr sh"
  "sh_output_iocr (upd_stats h sh) = sh_output_iocr sh"
  "sh_max_consecutive_timeouts (upd_stats h sh) = sh_max_consecutive_timeouts sh"
  "sh_state (upd_stats h sh) = sh_state sh"
  "sh_running (upd_stats h sh) = sh_running sh"
  "sh_ever_faulted (upd_stats h sh) = sh_ever_faulted sh"
  "sh_cycle_counter (upd_stats h sh) = sh_cycle_counter sh"
  "sh_output_builder (upd_stats h sh) = sh_output_builder sh"
  "sh_input_data (upd_stats h sh) = sh_input_data sh"
  "sh_last_rx_cycle_counter (upd_stats h sh) = sh_last_rx_cycle_counter sh"
  "sh_rx_counter_step (upd_stats h sh) = sh_rx_counter_step sh"
  "sh_tx_counter_step (upd_stats h sh) = sh_tx_counter_step sh"
  "sh_callbacks (upd_stats h sh) = sh_callbacks sh"
  "sh_safe_output (upd_stats h sh) = sh_safe_output sh"
  "sh_log (upd_stats h sh) = sh_log sh"
  "sh_stats (upd_stats h sh) = h (sh_stats sh)"
  by (simp_all add: upd_stats_def)

lemma transition_fields [simp]:
  "sh_src_mac (transition st sh) = sh_src_mac sh"
  "sh_dst_mac (transition st sh) = sh_dst_mac sh"
  "sh_input_iocr (transition st sh) = sh_input_iocr sh"
  "sh_output_iocr (transition st sh) = sh_output_iocr sh"
  "sh_max_consecutive_timeouts (transition st sh) = sh_max_consecutive_timeouts sh"
  "sh_running (transition st sh) = sh_running sh"
  "sh_cycle_counter (transition st sh) = sh_cycle_counter sh"
  "sh_output_builder (transition st sh) = sh_output_builder sh"
  "sh_input_data (transition st sh) = sh_input_data sh"
  "sh_last_rx_cycle_counter (transition st sh) = sh_last_rx_cycle_counter sh"
  "sh_rx_counter_step (transition st sh) = sh_rx_counter_step sh"
  "sh_tx_counter_step (transition st sh) = sh_tx_counter_step sh"
  "sh_callbacks (transition st sh) = sh_callbacks sh"
  "sh_stats (transition st sh) = sh_stats sh"
  "sh_safe_output (transition st sh) = sh_safe_output sh"
  "sh_state (transition st sh) = st"
  by (simp_all add: transition_def Let_def)

lemma ever_faulted_transition [simp]:
  "sh_ever_faulted (transition st sh) = (sh_ever_faulted sh \<or> st = Fault \<and> sh_state sh \<noteq> Fault)"
  by (auto simp: transition_def Let_def)

lemma track_fields [simp]:
  "sh_src_mac (track_cycle_counter rx sh) = sh_src_mac sh"
  "sh_dst_mac (track_cycle_counter rx sh) = sh_dst_mac sh"
  "sh_input_iocr (track_cycle_counter rx sh) = sh_input_iocr sh"
  "sh_output_iocr (track_cycle_counter rx sh) = sh_output_iocr sh"
  "sh_max_consecutive_timeouts (track_cycle_counter rx sh) = sh_max_consecutive_timeouts sh"
  "sh_state (track_cycle_counter rx sh) = sh_state sh"
  "sh_running (track_cycle_counter rx sh) = sh_running sh"
  "sh_ever_faulted (track_cycle_counter rx sh) = sh_ever_faulted sh"
  "sh_cycle_counter (track_cycle_counter rx sh) = sh_cycle_counter sh"
  "sh_output_builder (track_cycle_counter rx sh) = sh_output_builder sh"
  "sh_input_data (track_cycle_counter rx sh) = sh_input_data sh"
  "sh_rx_counter_step (track_cycle_counter rx sh) = sh_rx_counter_step sh"
  "sh_tx_counter_step (track_cycle_counter rx sh) = sh_tx_counter_step sh"
  "sh_callbacks (track_cycle_counter rx sh) = sh_callbacks sh"
  "sh_safe_output (track_cycle_counter rx sh) = sh_safe_output sh"
  "sh_log (track_cycle_counter rx sh) = sh_log sh"
  "last_receive_time (sh_stats (track_cycle_counter rx sh)) = last_receive_time (sh_stats sh)"
  "consecutive_timeouts (sh_stats (track_cycle_counter rx sh)) = consecutive_timeouts (sh_stats sh)"
  by (simp_all add: track_cycle_counter_def Let_def split: option.splits)

text \<open>A frame marked invalid leaves the watchdog's own fields alone.\<close>

lemma note_received_fields [simp]:
  "\<not> valid \<Longrightarrow> last_receive_time (note_received now t valid s) = last_receive_time s"
  "\<not> valid \<Longrightarrow> consecutive_timeouts (note_received now t valid s) = consecutive_timeouts s"
  "valid \<Longrightarrow> last_receive_time (note_received now t valid s) = now"
  "valid \<Longrightarrow> consecutive_timeouts (note_received now t valid s) = 0"
  by (simp_all add: note_received_def Let_def)

text \<open>
  The invariant of the shared state: the output builder is well formed and built for the
  output configuration, and a fault is never on record without its flag.
\<close>

definition shared_ok :: "shared \<Rightarrow> bool" where
  "shared_ok sh \<longleftrightarrow> builder_ok (sh_output_builder sh)
     \<and> cdb_config (sh_output_builder sh) = sh_output_iocr sh
     \<and> (sh_state sh = Fault \<longrightarrow> sh_ever_faulted sh)"

lemma extract_objects_runs: "runs (extract_objects pl w objs m us cs) (\<lambda>_. True)"
  by (induction objs arbitrary: m us cs) (simp_all add: Let_def)

definition same_link :: "shared \<Rightarrow> shared \<Rightarrow> bool" where
  "same_link sh sh' \<longleftrightarrow> sh_input_iocr sh' = sh_input_iocr sh \<and> sh_output_iocr sh' = sh_output_iocr sh
     \<and> sh_dst_mac sh' = sh_dst_mac sh \<and> sh_src_mac sh' = sh_src_mac sh
     \<and> sh_max_consecutive_timeouts sh' = sh_max_consecutive_timeouts sh
     \<and> sh_callbacks sh' = sh_callbacks sh \<and> sh_safe_output sh' = sh_safe_output sh
     \<and> sh_running sh' = sh_running sh"

lemma same_link_refl [simp]: "same_link sh sh"
  by (simp add: same_link_def)

lemma same_link_trans: "same_link a b \<Longrightarrow> same_link b c \<Longrightarrow> same_link a c"
  by (simp add: same_link_def)

lemma accept_frame_runs:
  assumes "shared_ok sh"
  shows "runs (accept_frame now frame sh) (\<lambda>sh'. shared_ok sh' \<and> same_link sh sh'
    \<and> (sh_ever_faulted sh \<longrightarrow> sh_ever_faulted sh'))"
proof -
  have b: "runs (set_all_iocs IOXS_GOOD (sh_output_builder sh))
      (\<lambda>b'. builder_ok b' \<and> cdb_config b' = cdb_config (sh_output_builder sh))"
    using assms by (intro set_all_iocs_runs) (simp add: shared_ok_def)
  show ?thesis
  proof (cases "frame_is_alive frame")
    case False
    then show ?thesis using assms by (auto simp: accept_frame_def shared_ok_def same_link_def Let_def)
  next
    case True
    obtain b' where b': "set_all_iocs IOXS_GOOD (sh_output_builder sh) = Some b'" "builder_ok b'"
      "cdb_config b' = cdb_config (sh_output_builder sh)" using b by (auto simp: runs_iff)
    show ?thesis using True assms b'(2,3) extract_objects_runs
      by (auto simp: accept_frame_def b'(1) shared_ok_def same_link_def Let_def runs_bind
          split_def runs_not_None elim!: runs_mono)
  qed
qed

lemma process_input_frame_cases:
  obtains "process_input_frame now d sh = Some sh"
  | frame where "process_input_frame now d sh = accept_frame now frame sh"
      "18 \<le> length d" "take 6 (drop 6 d) = sh_dst_mac sh" "parse_ethernet_frame d = Some (Some frame)"
      "rf_frame_id frame = cfg_frame_id (sh_input_iocr sh)"
proof -
  obtain p where p: "parse_ethernet_frame d = Some p"
    using parse_ethernet_frame_total [of d] by (auto simp: runs_iff)
  show ?thesis
  proof (cases "18 \<le> length d \<and> take 6 (drop 6 d) = sh_dst_mac sh
      \<and> (\<exists>frame. p = Some frame \<and> rf_frame_id frame = cfg_frame_id (sh_input_iocr sh))")
    case True
    then obtain frame where f: "18 \<le> length d" "take 6 (drop 6 d) = sh_dst_mac sh" "p = Some frame"
      "rf_frame_id frame = cfg_frame_id (sh_input_iocr sh)" by blast
    have "process_input_frame now d sh = accept_frame now frame sh"
      using f p by (simp add: process_input_frame_def)
    then show ?thesis using that(2) f p by blast
  next
    case False
    then have "process_input_frame now d sh = Some sh"
      using p by (cases p) (auto simp: process_input_frame_def)
    then show ?thesis by (rule that(1))
  qed
qed

lemma process_input_frame_runs:
  assumes "shared_ok sh"
  shows "runs (process_input_frame now d sh) (\<lambda>sh'. shared_ok sh' \<and> same_link sh sh'
    \<and> (sh_ever_faulted sh \<longrightarrow> sh_ever_faulted sh'))"
  by (rule process_input_frame_cases [of now d sh]) (use assms accept_frame_runs [OF assms] in simp_all)

lemma handle_watchdog_timeout_runs:
  assumes "shared_ok sh"
  shows "runs (handle_watchdog_timeout sh) (\<lambda>sh'. shared_ok sh' \<and> same_link sh sh'
    \<and> (sh_ever_faulted sh \<longrightarrow> sh_ever_faulted sh')
    \<and> consecutive_timeouts (sh_stats sh') = consecutive_timeouts (sh_stats sh) + 1
    \<and> sh_state sh' = (if 0 < sh_max_consecutive_timeouts sh
          \<and> sh_max_consecutive_timeouts sh \<le> consecutive_timeouts (sh_stats sh) + 1 \<and> sh_state sh = Running
        then Fault else sh_state sh))"
proof -
  have "runs (set_all_iocs IOXS_BAD (sh_output_builder sh))
      (\<lambda>b'. builder_ok b' \<and> cdb_config b' = cdb_config (sh_output_builder sh))"
    using assms by (intro set_all_iocs_runs) (simp add: shared_ok_def)
  then obtain b' where "set_all_iocs IOXS_BAD (sh_output_builder sh) = Some b'" "builder_ok b'"
    "cdb_config b' = cdb_config (sh_output_builder sh)" by (auto simp: runs_iff)
  then show ?thesis using assms
    by (auto simp: handle_watchdog_timeout_def shared_ok_def same_link_def Let_def)
qed

lemma check_receive_watchdog_runs:
  assumes "shared_ok sh"
  shows "runs (check_receive_watchdog now rearm w sh) (\<lambda>sh'. shared_ok sh' \<and> same_link sh sh'
    \<and> (sh_ever_faulted sh \<longrightarrow> sh_ever_faulted sh'))"
  using handle_watchdog_timeout_runs [OF assms] assms
  by (auto simp: check_receive_watchdog_def runs_bind shared_ok_def same_link_def elim!: runs_mono)

lemma rx_pass_runs:
  assumes "shared_ok sh"
  shows "runs (rx_pass t i sh) (\<lambda>r. shared_ok (snd r) \<and> same_link sh (snd r)
    \<and> (sh_ever_faulted sh \<longrightarrow> sh_ever_faulted (snd r)))"
proof (cases i)
  case (RxFrame d)
  obtain sh1 where 1: "process_input_frame (at_frame t) d sh = Some sh1" "shared_ok sh1" "same_link sh sh1"
    "sh_ever_faulted sh \<longrightarrow> sh_ever_faulted sh1"
    using process_input_frame_runs [OF assms] by (auto simp: runs_iff)
  obtain sh2 where "check_receive_watchdog (at_check t) (at_rearm t) (watchdog_time_us (sh_input_iocr sh)) sh1
      = Some sh2" "shared_ok sh2" "same_link sh1 sh2" "sh_ever_faulted sh1 \<longrightarrow> sh_ever_faulted sh2"
    using check_receive_watchdog_runs [OF 1(2)] unfolding runs_iff by blast
  then show ?thesis using 1 RxFrame same_link_trans by (auto simp: rx_pass_def Let_def)
next
  case RxIdle
  then show ?thesis using check_receive_watchdog_runs [OF assms]
    by (auto simp: rx_pass_def runs_bind Let_def elim!: runs_mono)
next
  case (RxFailed e)
  then show ?thesis using assms by (auto simp: rx_pass_def shared_ok_def same_link_def Let_def)
qed

section \<open>Transmission\<close>

definition RUN_STATUS :: u8 where
  "RUN_STATUS = DATA_STATUS_VALID OR DATA_STATUS_PROVIDER_RUN OR DATA_STATUS_STATION_OK OR DATA_STATUS_STATE"

definition STOP_STATUS :: u8 where
  "STOP_STATUS = DATA_STATUS_VALID OR DATA_STATUS_STATION_OK OR DATA_STATUS_STATE"

definition next_counter :: "shared \<Rightarrow> u16" where
  "next_counter sh = sh_cycle_counter sh + ucast (sh_tx_counter_step sh)"

text \<open>The frame a transmission puts on the wire, for given output bytes.\<close>

definition output_frame :: "shared \<Rightarrow> u16 \<Rightarrow> u8 \<Rightarrow> bytes \<Rightarrow> bytes" where
  "output_frame sh counter status pl =
     build_ethernet_frame (sh_dst_mac sh) (sh_src_mac sh)
       \<lparr>rf_frame_id = cfg_frame_id (sh_output_iocr sh), rf_cycle_counter = counter,
        rf_data_status = status, rf_transfer_status = 0, rf_payload = pl\<rparr>"

lemma counter_mask: "ucast ((ucast (c :: u16) + (st :: u32)) AND 0xFFFF) = c + (ucast st :: u16)"
proof -
  have m: "(0xFFFF :: u32) = mask 16" by (simp add: mask_eq_exp_minus_1)
  have "(ucast ((ucast c + st) AND 0xFFFF) :: u16) = ucast (ucast c + st :: u32)"
    unfolding m by (rule bit_word_eqI) (auto simp: bit_simps)
  also have "\<dots> = c + ucast st"
  proof -
    have "unat (ucast (ucast c + st :: u32) :: u16) = unat (c + ucast st)"
      by (simp add: unsigned_ucast_eq unat_word_ariths take_bit_eq_mod mod_mod_cancel mod_simps)
    then show ?thesis by (simp only: word_unat_eq_iff)
  qed
  finally show ?thesis .
qed

text \<open>Sending promotes the write buffer, so every frame carries the bytes written last.\<close>

lemma next_output_frame_eq:
  assumes "shared_ok sh"
  shows "\<exists>b. next_output_frame status sh = Some
      (output_frame sh (next_counter sh) (case status of Some d \<Rightarrow> d | None \<Rightarrow> RUN_STATUS)
         (cdb_write_buffer (sh_output_builder sh)),
       sh\<lparr>sh_cycle_counter := next_counter sh, sh_output_builder := b\<rparr>)
    \<and> builder_ok b \<and> cdb_config b = sh_output_iocr sh
    \<and> cdb_write_buffer b = cdb_write_buffer (sh_output_builder sh)"
proof -
  obtain b where b: "swap (sh_output_builder sh) = Some b" "builder_ok b"
    "cdb_config b = cdb_config (sh_output_builder sh)"
    "cdb_write_buffer b = cdb_write_buffer (sh_output_builder sh)"
    "build b = cdb_write_buffer (sh_output_builder sh)"
    using swap_runs assms unfolding shared_ok_def runs_iff by blast
  then show ?thesis using assms
    by (cases status) (auto simp: next_output_frame_def output_frame_def next_counter_def RUN_STATUS_def
        counter_mask shared_ok_def Let_def)
qed

lemma shared_ok_sent: "shared_ok sh \<Longrightarrow> builder_ok b \<Longrightarrow> cdb_config b = sh_output_iocr sh \<Longrightarrow>
    shared_ok (sh\<lparr>sh_cycle_counter := c, sh_output_builder := b\<rparr>)"
  by (simp add: shared_ok_def)

lemma shared_ok_log [simp]:
  "shared_ok (upd_stats f sh) = shared_ok sh" "shared_ok (emit p e sh) = shared_ok sh"
  "shared_ok (emit_error er sh) = shared_ok sh"
  by (simp_all add: shared_ok_def)

lemma tx_pass_runs:
  assumes "shared_ok sh"
  shows "runs (tx_pass now err loc sh) (\<lambda>r. shared_ok (snd (snd r)) \<and> same_link sh (snd (snd r))
    \<and> sh_ever_faulted (snd (snd r)) = sh_ever_faulted sh \<and> sh_state (snd (snd r)) = sh_state sh)"
proof -
  obtain b where b: "next_output_frame None sh = Some
      (output_frame sh (next_counter sh) RUN_STATUS (cdb_write_buffer (sh_output_builder sh)),
       sh\<lparr>sh_cycle_counter := next_counter sh, sh_output_builder := b\<rparr>)"
    "builder_ok b" "cdb_config b = sh_output_iocr sh"
    using next_output_frame_eq [OF assms, of None] by auto
  show ?thesis using assms b(2,3) shared_ok_sent [OF assms b(2,3)]
    by (auto simp: tx_pass_def b(1) same_link_def Let_def split: option.split)
qed

text \<open>Every STOP frame carries the write buffer as it stood when the loop began.\<close>

lemma stop_frame_loop_eq:
  assumes "shared_ok sh"
  shows "\<exists>fs sh'. stop_frame_loop n sends sh = Some (fs, sh') \<and> shared_ok sh'
    \<and> same_link sh sh' \<and> sh_state sh' = sh_state sh \<and> sh_ever_faulted sh' = sh_ever_faulted sh
    \<and> cdb_write_buffer (sh_output_builder sh') = cdb_write_buffer (sh_output_builder sh)
    \<and> (\<forall>f \<in> set fs. \<exists>c. f = output_frame sh c STOP_STATUS (cdb_write_buffer (sh_output_builder sh)))
    \<and> (0 < n \<longrightarrow> fs \<noteq> []) \<and> (list_all id (take n sends) \<and> n \<le> length sends \<longrightarrow> length fs = n)"
  using assms
proof (induction n arbitrary: sends sh)
  case 0
  then show ?case by simp
next
  case (Suc n)
  obtain b0 where b0: "swap (sh_output_builder sh) = Some b0" "builder_ok b0"
    "cdb_config b0 = cdb_config (sh_output_builder sh)"
    "cdb_write_buffer b0 = cdb_write_buffer (sh_output_builder sh)"
    using swap_runs Suc.prems unfolding shared_ok_def runs_iff by blast
  let ?sh0 = "sh\<lparr>sh_output_builder := b0\<rparr>"
  have ok0: "shared_ok ?sh0" using Suc.prems b0 by (simp add: shared_ok_def)
  obtain b where b: "next_output_frame (Some STOP_STATUS) ?sh0 = Some
      (output_frame ?sh0 (next_counter ?sh0) STOP_STATUS (cdb_write_buffer b0),
       ?sh0\<lparr>sh_cycle_counter := next_counter ?sh0, sh_output_builder := b\<rparr>)"
    "builder_ok b" "cdb_config b = sh_output_iocr sh" "cdb_write_buffer b = cdb_write_buffer b0"
    using next_output_frame_eq [OF ok0, of "Some STOP_STATUS"] by auto
  let ?f = "output_frame ?sh0 (next_counter ?sh0) STOP_STATUS (cdb_write_buffer b0)"
  let ?sh1 = "?sh0\<lparr>sh_cycle_counter := next_counter ?sh0, sh_output_builder := b\<rparr>"
  have f: "?f = output_frame sh (next_counter ?sh0) STOP_STATUS (cdb_write_buffer (sh_output_builder sh))"
    by (simp add: output_frame_def b0(4))
  have ok1: "shared_ok ?sh1" using shared_ok_sent [OF ok0, of b] b(2,3) by simp
  let ?sh2 = "upd_stats (\<lambda>s. s\<lparr>frames_sent := frames_sent s + 1\<rparr>) ?sh1"
  have head: "stop_frame_loop (Suc n) sends sh =
      (case sends of True # rest \<Rightarrow> do { q \<leftarrow> stop_frame_loop n rest ?sh2; Some (?f # fst q, snd q) }
       | _ \<Rightarrow> Some ([?f], ?sh1))"
    using b(1) b0(1) by (simp add: STOP_STATUS_def split: list.split bool.split)
  have of: "output_frame ?sh2 c st pl = output_frame sh c st pl" for c st pl
    by (simp add: output_frame_def)
  show ?case
  proof (cases "\<exists>rest. sends = True # rest")
    case True
    then obtain rest where r: "sends = True # rest" by blast
    from Suc.IH [of ?sh2 rest] ok1 obtain fs sh' where q: "stop_frame_loop n rest ?sh2 = Some (fs, sh')"
      "shared_ok sh'" "same_link ?sh2 sh'" "sh_state sh' = sh_state ?sh2"
      "sh_ever_faulted sh' = sh_ever_faulted ?sh2"
      "cdb_write_buffer (sh_output_builder sh') = cdb_write_buffer (sh_output_builder ?sh2)"
      "\<forall>f \<in> set fs. \<exists>c. f = output_frame ?sh2 c STOP_STATUS (cdb_write_buffer (sh_output_builder ?sh2))"
      "list_all id (take n rest) \<and> n \<le> length rest \<longrightarrow> length fs = n"
      by (auto simp only: shared_ok_log)
    have "same_link sh ?sh2" by (simp add: same_link_def)
    then have "same_link sh sh'" using q(3) same_link_trans by blast
    have wb: "cdb_write_buffer (sh_output_builder ?sh2) = cdb_write_buffer (sh_output_builder sh)"
      using b(4) b0(4) by simp
    have res: "stop_frame_loop (Suc n) sends sh = Some (?f # fs, sh')"
      using head unfolding r
      by (simp only: list.case bool.case q(1) bind.bind_lunit fst_conv snd_conv)
    have mem: "\<forall>g \<in> set (?f # fs). \<exists>c. g = output_frame sh c STOP_STATUS (cdb_write_buffer (sh_output_builder sh))"
      using q(7) f unfolding wb of by auto
    have st: "sh_state sh' = sh_state sh" "sh_ever_faulted sh' = sh_ever_faulted sh"
      "cdb_write_buffer (sh_output_builder sh') = cdb_write_buffer (sh_output_builder sh)"
      using q(4,5,6) wb by simp_all
    have len: "list_all id (take (Suc n) sends) \<and> Suc n \<le> length sends \<longrightarrow> length (?f # fs) = Suc n"
      using q(8) by (simp add: r)
    show ?thesis
      by (rule exI [of _ "?f # fs"], rule exI [of _ sh'])
        (use res q(2) \<open>same_link sh sh'\<close> st mem len in blast)
  next
    case False
    then have "stop_frame_loop (Suc n) sends sh = Some ([?f], ?sh1)"
      unfolding head by (auto split: list.splits bool.splits)
    then show ?thesis using ok1 b0 b f False
      by (cases sends) (auto simp: same_link_def)
  qed
qed

section \<open>Stopping\<close>

text \<open>The output bytes after writing a slot's data and marking it GOOD.\<close>

definition good_output :: "io_data_object \<Rightarrow> bytes \<Rightarrow> bytes \<Rightarrow> bytes" where
  "good_output obj d w =
     (let w1 = splice (obj_frame_offset obj) (take (obj_data_length obj) d) w
      in if 0 < obj_data_length obj then w1[obj_iops_offset obj := IOXS_GOOD] else w1)"

lemma write_good:
  assumes "builder_ok b" and "find_obj b s ss = Some obj"
  shows "\<exists>b1 b2. set_data s ss d b = Some (Inr (), b1) \<and> set_iops s ss IOXS_GOOD b1 = Some b2
    \<and> builder_ok b2 \<and> cdb_config b2 = cdb_config b
    \<and> cdb_write_buffer b2 = good_output obj d (cdb_write_buffer b)"
proof -
  let ?b1 = "b\<lparr>cdb_write_buffer :=
      splice (obj_frame_offset obj) (take (obj_data_length obj) d) (cdb_write_buffer b), cdb_dirty := True\<rparr>"
  have 1: "set_data s ss d b = Some (Inr (), ?b1)" by (rule set_data_eq [OF assms])
  then have ok1: "builder_ok ?b1" using set_data_runs [OF assms(1), of s ss d] by simp
  obtain b2 where 2: "set_iops s ss IOXS_GOOD ?b1 = Some b2" "builder_ok b2" "cdb_config b2 = cdb_config b"
    using set_iops_runs [OF ok1, of s ss IOXS_GOOD] by (auto simp: runs_iff)
  have "find_obj ?b1 s ss = Some obj" using assms(2) by (simp add: find_obj_def)
  then have "cdb_write_buffer b2 = good_output obj d (cdb_write_buffer b)"
    using 2(1) by (auto simp: set_iops_def good_output_def set_idx_def Let_def split: if_splits)
  with 1 2 show ?thesis by blast
qed

lemma good_output_reads:
  assumes "config_ok c" and "obj \<in> set (cfg_objects c)" and "length w = cfg_data_length c"
  shows "take (obj_data_length obj) (drop (obj_frame_offset obj) (good_output obj d w))
      = take (obj_data_length obj) d @ drop (length d) (take (obj_data_length obj) (drop (obj_frame_offset obj) w))"
    and "0 < obj_data_length obj \<Longrightarrow> good_output obj d w ! obj_iops_offset obj = IOXS_GOOD"
    and "length (good_output obj d w) = length w"
proof -
  have b: "obj_frame_offset obj + obj_data_length obj \<le> length w"
    "0 < obj_data_length obj \<Longrightarrow> obj_iops_offset obj < length w"
    using obj_in_bounds [OF assms(1,2)] assms(3) by auto
  have sh: "0 < obj_data_length obj \<Longrightarrow> obj_iops_offset obj = obj_frame_offset obj + obj_data_length obj"
    using chained_mem [OF assms(1) [unfolded config_ok_def] assms(2)] by (simp add: obj_shape_def)
  have l: "length (splice (obj_frame_offset obj) (take (obj_data_length obj) d) w) = length w"
    using b(1) by simp
  show "take (obj_data_length obj) (drop (obj_frame_offset obj) (good_output obj d w))
      = take (obj_data_length obj) d @ drop (length d) (take (obj_data_length obj) (drop (obj_frame_offset obj) w))"
    using splice_region [OF b(1), of d] sh by (simp add: good_output_def Let_def drop_update_swap)
  show "0 < obj_data_length obj \<Longrightarrow> good_output obj d w ! obj_iops_offset obj = IOXS_GOOD"
    and "length (good_output obj d w) = length w"
    using b l by (simp_all add: good_output_def Let_def)
qed

lemma apply_safe_output_eq:
  assumes "shared_ok sh" and "sh_safe_output sh = Some (s, ss, d)"
    and "find_obj (sh_output_builder sh) s ss = Some obj"
  shows "\<exists>b. apply_safe_output sh = Some (sh\<lparr>sh_output_builder := b\<rparr>) \<and> builder_ok b
    \<and> cdb_config b = sh_output_iocr sh
    \<and> cdb_write_buffer b = good_output obj d (cdb_write_buffer (sh_output_builder sh))"
proof -
  obtain b1 b2 where w: "set_data s ss d (sh_output_builder sh) = Some (Inr (), b1)"
    "set_iops s ss IOXS_GOOD b1 = Some b2" "builder_ok b2"
    "cdb_config b2 = cdb_config (sh_output_builder sh)"
    "cdb_write_buffer b2 = good_output obj d (cdb_write_buffer (sh_output_builder sh))"
    using write_good [OF _ assms(3), of d] assms(1) unfolding shared_ok_def by blast
  obtain b3 where "swap b2 = Some b3" "builder_ok b3" "cdb_config b3 = cdb_config b2"
    "cdb_write_buffer b3 = cdb_write_buffer b2"
    using swap_runs [OF w(3)] unfolding runs_iff by blast
  with w show ?thesis using assms by (auto simp: apply_safe_output_def shared_ok_def)
qed

lemma stop_rest_eq:
  assumes "shared_ok (cc_shared c)" and "sh_running (cc_shared c)" and "cc_tx_thread c"
  shows "\<exists>fs c'. stop_rest True sends c = Some (fs, c') \<and> fs \<noteq> []
    \<and> (list_all id (take 3 sends) \<and> 3 \<le> length sends \<longrightarrow> length fs = 3)
    \<and> sh_state (cc_shared c') = Stopped
    \<and> (\<forall>f \<in> set fs. \<exists>k. f = output_frame (cc_shared c) k STOP_STATUS
          (cdb_write_buffer (sh_output_builder (cc_shared c))))"
proof -
  let ?sh1 = "(transition Stopping (cc_shared c))\<lparr>sh_running := False\<rparr>"
  have ok: "shared_ok ?sh1" using assms(1) by (simp add: shared_ok_def)
  have of: "output_frame ?sh1 k st pl = output_frame (cc_shared c) k st pl" for k st pl
    by (simp add: output_frame_def)
  obtain fs sh' where "stop_frame_loop 3 sends ?sh1 = Some (fs, sh')" "fs \<noteq> []"
    "list_all id (take 3 sends) \<and> 3 \<le> length sends \<longrightarrow> length fs = 3"
    "\<forall>f \<in> set fs. \<exists>k. f = output_frame ?sh1 k STOP_STATUS (cdb_write_buffer (sh_output_builder ?sh1))"
    using stop_frame_loop_eq [OF ok, of 3 sends] by auto
  then show ?thesis using assms of
    by (auto simp: stop_rest_def send_stop_frames_def STOP_FRAME_COUNT_def Let_def)
qed

lemma stop_status_bits:
  "STOP_STATUS AND DATA_STATUS_PROVIDER_RUN = 0" "STOP_STATUS AND DATA_STATUS_VALID \<noteq> 0"
  by (simp_all add: STOP_STATUS_def DATA_STATUS_VALID_def DATA_STATUS_STATION_OK_def
      DATA_STATUS_STATE_def DATA_STATUS_PROVIDER_RUN_def)

text \<open>A write shorter than the slot takes effect at its front.\<close>

lemma good_output_front:
  assumes "config_ok c" and "obj \<in> set (cfg_objects c)" and "length w = cfg_data_length c"
    and "length d \<le> obj_data_length obj"
  shows "take (length d) (drop (obj_frame_offset obj) (good_output obj d w)) = d"
proof -
  have "take (length d) (drop (obj_frame_offset obj) (good_output obj d w))
      = take (length d) (take (obj_data_length obj) (drop (obj_frame_offset obj) (good_output obj d w)))"
    using assms(4) by (simp add: min_absorb1)
  also have "\<dots> = d" unfolding good_output_reads(1) [OF assms(1-3), of d] using assms(4) by simp
  finally show ?thesis .
qed

lemma stop_safe_sends:
  assumes "shared_ok (cc_shared c)" and "sh_running (cc_shared c)" and "cc_tx_thread c"
    and "find_obj (sh_output_builder (cc_shared c)) s ss = Some obj"
    and "length d \<le> obj_data_length obj" and "0 < length d"
    and "length (sh_dst_mac (cc_shared c)) = 6" and "length (sh_src_mac (cc_shared c)) = 6"
  shows "\<exists>frames c'. stop_safe s ss d True sends c = Some (frames, c') \<and> frames \<noteq> []
    \<and> (list_all id (take 3 sends) \<and> 3 \<le> length sends \<longrightarrow> length frames = 3)
    \<and> sh_state (cc_shared c') = Stopped
    \<and> (\<forall>f \<in> set frames. \<exists>rt. parse_ethernet_frame f = Some (Some rt)
         \<and> rf_frame_id rt = cfg_frame_id (sh_output_iocr (cc_shared c))
         \<and> is_valid rt \<and> \<not> is_running rt
         \<and> take (length d) (drop (obj_frame_offset obj) (rf_payload rt)) = d
         \<and> rf_payload rt ! obj_iops_offset obj = IOXS_GOOD)"
proof -
  let ?sh = "cc_shared c"
  let ?safe = "set_safe_output s ss d ?sh"
  have "shared_ok ?safe" "sh_safe_output ?safe = Some (s, ss, d)"
    "find_obj (sh_output_builder ?safe) s ss = Some obj"
    using assms(1,4) by (simp_all add: shared_ok_def set_safe_output_def)
  from apply_safe_output_eq [OF this] obtain b where
    b: "apply_safe_output ?safe = Some (?safe\<lparr>sh_output_builder := b\<rparr>)" "builder_ok b"
    "cdb_config b = sh_output_iocr ?safe"
    "cdb_write_buffer b = good_output obj d (cdb_write_buffer (sh_output_builder ?safe))"
    by blast
  let ?c1 = "c\<lparr>cc_shared := ?safe\<lparr>sh_output_builder := b\<rparr>\<rparr>"
  have "shared_ok (cc_shared ?c1)" "sh_running (cc_shared ?c1)" "cc_tx_thread ?c1"
    using assms(1-3) b by (simp_all add: shared_ok_def set_safe_output_def)
  from stop_rest_eq [OF this, of sends] obtain fs c' where
    r: "stop_rest True sends ?c1 = Some (fs, c')" "fs \<noteq> []"
    "list_all id (take 3 sends) \<and> 3 \<le> length sends \<longrightarrow> length fs = 3"
    "sh_state (cc_shared c') = Stopped"
    "\<forall>f \<in> set fs. \<exists>k. f = output_frame (cc_shared ?c1) k STOP_STATUS (cdb_write_buffer b)"
    by auto
  have "stop_safe s ss d True sends c = Some (fs, c')"
    using b(1) r(1) by (simp add: stop_safe_def stop_def)
  moreover have "\<forall>f \<in> set fs. \<exists>rt. parse_ethernet_frame f = Some (Some rt)
         \<and> rf_frame_id rt = cfg_frame_id (sh_output_iocr ?sh)
         \<and> is_valid rt \<and> \<not> is_running rt
         \<and> take (length d) (drop (obj_frame_offset obj) (rf_payload rt)) = d
         \<and> rf_payload rt ! obj_iops_offset obj = IOXS_GOOD"
  proof
    fix f assume "f \<in> set fs"
    then obtain k where f: "f = output_frame (cc_shared ?c1) k STOP_STATUS (cdb_write_buffer b)"
      using r(5) by blast
    let ?rt = "\<lparr>rf_frame_id = cfg_frame_id (sh_output_iocr ?sh), rf_cycle_counter = k,
        rf_data_status = STOP_STATUS, rf_transfer_status = 0, rf_payload = cdb_write_buffer b\<rparr>"
    have "parse_ethernet_frame f = Some (Some ?rt)"
      using f parse_build_frame [OF assms(7,8), of ?rt]
      by (simp add: output_frame_def set_safe_output_def)
    moreover have c: "config_ok (sh_output_iocr ?sh)" "obj \<in> set (cfg_objects (sh_output_iocr ?sh))"
      "length (cdb_write_buffer (sh_output_builder ?safe)) = cfg_data_length (sh_output_iocr ?sh)"
      using assms(1) find_obj_mem [OF assms(4)] by (auto simp: shared_ok_def builder_ok_def set_safe_output_def)
    ultimately show "\<exists>rt. parse_ethernet_frame f = Some (Some rt)
         \<and> rf_frame_id rt = cfg_frame_id (sh_output_iocr ?sh)
         \<and> is_valid rt \<and> \<not> is_running rt
         \<and> take (length d) (drop (obj_frame_offset obj) (rf_payload rt)) = d
         \<and> rf_payload rt ! obj_iops_offset obj = IOXS_GOOD"
      using good_output_reads [OF c] good_output_front [OF c assms(5)] assms(5,6) stop_status_bits b(4)
      by (intro exI [of _ ?rt]) (simp add: is_valid_def is_running_def)
  qed
  ultimately show ?thesis using r by blast
qed

text \<open>
  C5: Safe stop. Stopping a running controller with a safe output image always completes, puts
  at least one STOP frame on the wire, and all three when the socket accepts them; every one
  of those frames is a valid RT frame of the output relationship with ProviderRun cleared,
  whose bytes at the named slot are the safe bytes and whose provider status there is GOOD,
  whatever was in the output image before.
\<close>

theorem stop_safe_frames:
  assumes "shared_ok (cc_shared c)" and "sh_running (cc_shared c)" and "cc_tx_thread c"
    and "find_obj (sh_output_builder (cc_shared c)) s ss = Some obj"
    and "length d = obj_data_length obj" and "0 < length d"
    and "length (sh_dst_mac (cc_shared c)) = 6" and "length (sh_src_mac (cc_shared c)) = 6"
  shows "\<exists>frames c'. stop_safe s ss d True sends c = Some (frames, c') \<and> frames \<noteq> []
    \<and> (list_all id (take 3 sends) \<and> 3 \<le> length sends \<longrightarrow> length frames = 3)
    \<and> sh_state (cc_shared c') = Stopped
    \<and> (\<forall>f \<in> set frames. \<exists>rt. parse_ethernet_frame f = Some (Some rt)
         \<and> rf_frame_id rt = cfg_frame_id (sh_output_iocr (cc_shared c))
         \<and> is_valid rt \<and> \<not> is_running rt
         \<and> take (length d) (drop (obj_frame_offset obj) (rf_payload rt)) = d
         \<and> rf_payload rt ! obj_iops_offset obj = IOXS_GOOD)"
  by (rule stop_safe_sends [OF assms(1-4) eq_imp_le [OF assms(5)] assms(6-8)])

text \<open>A running controller for the examples: one output slot of three bytes.\<close>

definition sample_controller :: cyclic_controller where
  "sample_controller =
     \<lparr>cc_interface = ''en0'',
      cc_shared = \<lparr>sh_src_mac = [2,0,0,0,0,1], sh_dst_mac = [2,0,0,0,0,2],
        sh_input_iocr = fst (build_iocr_configs sample_slots 0x8001 0x8002 32 32 3),
        sh_output_iocr = sample_output_config, sh_max_consecutive_timeouts = 3, sh_state = Running,
        sh_running = True, sh_ever_faulted = False, sh_cycle_counter = 0,
        sh_output_builder = builder_new sample_output_config, sh_input_data = Map.empty,
        sh_last_rx_cycle_counter = None, sh_rx_counter_step = 1024, sh_tx_counter_step = 1024,
        sh_callbacks = \<lparr>on_input_data = True, on_input_status = True, on_timeout = True,
          on_error = True, on_state_change = True\<rparr>,
        sh_stats = stats_new 0, sh_safe_output = None, sh_log = []\<rparr>,
      cc_tx_thread = True, cc_rx_thread = True\<rparr>"

lemma sample_shared:
  "shared_ok (cc_shared sample_controller)" "sh_running (cc_shared sample_controller)"
  "cc_tx_thread sample_controller" "sh_state (cc_shared sample_controller) = Running"
  "sh_output_builder (cc_shared sample_controller) = builder_new sample_output_config"
  using builder_new_ok [OF sample_output_config_ok]
  by (simp_all add: sample_controller_def shared_ok_def) (simp add: builder_new_def Let_def)

lemma stop_safe_frames_witness:
  "\<exists>frames c'. stop_safe 2 1 [0, 0, 0] True [True, True, True] sample_controller = Some (frames, c')
    \<and> length frames = 3"
  using stop_safe_frames [of sample_controller 2 1 _ "[0, 0, 0]" "[True, True, True]"] sample_shared sample_find_obj
  by (auto simp: sample_controller_def)



section \<open>The receive watchdog\<close>

text \<open>A frame of this link that its provider stands behind: the only proof of life.\<close>

definition alive_data :: "shared \<Rightarrow> bytes \<Rightarrow> bool" where
  "alive_data sh d \<longleftrightarrow> 18 \<le> length d \<and> take 6 (drop 6 d) = sh_dst_mac sh
     \<and> (\<exists>frame. parse_ethernet_frame d = Some (Some frame)
          \<and> rf_frame_id frame = cfg_frame_id (sh_input_iocr sh) \<and> frame_is_alive frame)"

fun silent :: "shared \<Rightarrow> rx_input \<Rightarrow> bool" where
  "silent sh (RxFrame d) = (\<not> alive_data sh d)"
| "silent sh RxIdle = True"
| "silent sh (RxFailed e) = False"

text \<open>What a frame without proof of life leaves alone.\<close>

definition unmoved :: "shared \<Rightarrow> shared \<Rightarrow> bool" where
  "unmoved sh sh' \<longleftrightarrow> sh_state sh' = sh_state sh \<and> sh_ever_faulted sh' = sh_ever_faulted sh
     \<and> sh_output_builder sh' = sh_output_builder sh \<and> sh_input_data sh' = sh_input_data sh
     \<and> sh_log sh' = sh_log sh \<and> sh_cycle_counter sh' = sh_cycle_counter sh
     \<and> last_receive_time (sh_stats sh') = last_receive_time (sh_stats sh)
     \<and> consecutive_timeouts (sh_stats sh') = consecutive_timeouts (sh_stats sh)
     \<and> same_link sh sh'"

lemma accept_frame_dead: "\<not> frame_is_alive frame \<Longrightarrow> \<exists>sh'. accept_frame now frame sh = Some sh' \<and> unmoved sh sh'"
  by (auto simp: accept_frame_def Let_def unmoved_def same_link_def)

lemma process_silent:
  assumes "\<not> alive_data sh d"
  shows "\<exists>sh'. process_input_frame now d sh = Some sh' \<and> unmoved sh sh'"
proof (rule process_input_frame_cases [of now d sh])
  assume "process_input_frame now d sh = Some sh"
  then show ?thesis by (simp add: unmoved_def)
next
  fix frame
  assume f: "process_input_frame now d sh = accept_frame now frame sh" "18 \<le> length d"
    "take 6 (drop 6 d) = sh_dst_mac sh" "parse_ethernet_frame d = Some (Some frame)"
    "rf_frame_id frame = cfg_frame_id (sh_input_iocr sh)"
  then have "\<not> frame_is_alive frame" using assms by (auto simp: alive_data_def)
  then show ?thesis using accept_frame_dead f(1) by simp
qed

text \<open>
  C7: A frame the device disowns (provider stopped, data invalid, ignore flag, transfer
  problem), and a frame of another station or relationship, never satisfies the watchdog,
  never leaves FAULT, never changes outputs, input data or the event log: whatever its bytes,
  it is processed without panic and only counters record it.
\<close>

theorem disowned_frame_inert:
  assumes "\<not> alive_data sh d"
  shows "\<exists>sh'. process_input_frame now d sh = Some sh' \<and> sh_state sh' = sh_state sh
    \<and> sh_ever_faulted sh' = sh_ever_faulted sh \<and> sh_output_builder sh' = sh_output_builder sh
    \<and> sh_input_data sh' = sh_input_data sh \<and> sh_log sh' = sh_log sh
    \<and> last_receive_time (sh_stats sh') = last_receive_time (sh_stats sh)
    \<and> consecutive_timeouts (sh_stats sh') = consecutive_timeouts (sh_stats sh)"
  using process_silent [OF assms] unfolding unmoved_def by blast

text \<open>A frame of the sample device with the provider stopped.\<close>

definition stopped_frame :: rt_frame where
  "stopped_frame = \<lparr>rf_frame_id = 0x8001, rf_cycle_counter = 9, rf_data_status = STOP_STATUS,
     rf_transfer_status = 0, rf_payload = replicate 40 0\<rparr>"

lemma stopped_frame_not_alive:
  "\<not> alive_data (cc_shared sample_controller) (build_ethernet_frame [2,0,0,0,0,1] [2,0,0,0,0,2] stopped_frame)"
proof -
  have "\<not> frame_is_alive stopped_frame"
    by (simp add: frame_is_alive_def is_running_def stopped_frame_def stop_status_bits)
  then show ?thesis
    using parse_build_frame [of "[2,0,0,0,0,1]" "[2,0,0,0,0,2]" stopped_frame]
    by (simp add: alive_data_def)
qed

lemma disowned_frame_inert_witness:
  "\<exists>sh'. process_input_frame 5 (build_ethernet_frame [2,0,0,0,0,1] [2,0,0,0,0,2] stopped_frame)
       (cc_shared sample_controller) = Some sh' \<and> sh_state sh' = Running"
  using disowned_frame_inert [OF stopped_frame_not_alive] sample_shared(4) by metis

fun is_comm_lost :: "cyclic_event \<Rightarrow> bool" where
  "is_comm_lost (EvError (CommunicationLost n)) = True"
| "is_comm_lost _ = False"

definition comm_lost :: "shared \<Rightarrow> cyclic_event list" where
  "comm_lost sh = filter is_comm_lost (sh_log sh)"

lemma comm_lost_simps [simp]:
  "comm_lost (emit p EvTimeout sh) = comm_lost sh"
  "comm_lost (transition st sh) = comm_lost sh"
  "comm_lost (emit_error (CommunicationLost n) sh) =
     comm_lost sh @ (if on_error (sh_callbacks sh) then [EvError (CommunicationLost n)] else [])"
  "comm_lost (upd_stats f sh) = comm_lost sh"
  "comm_lost (sh\<lparr>sh_output_builder := b\<rparr>) = comm_lost sh"
  by (simp_all add: comm_lost_def emit_def emit_error_def transition_def Let_def)

definition faults_now :: "shared \<Rightarrow> bool" where
  "faults_now sh \<longleftrightarrow> 0 < sh_max_consecutive_timeouts sh \<and> sh_state sh = Running
     \<and> sh_max_consecutive_timeouts sh \<le> consecutive_timeouts (sh_stats sh) + 1"

lemma watchdog_expires:
  assumes "shared_ok sh" and "wd < now - last_receive_time (sh_stats sh)"
  shows "\<exists>sh'. check_receive_watchdog now rearm wd sh = Some sh' \<and> shared_ok sh' \<and> same_link sh sh'
    \<and> last_receive_time (sh_stats sh') = rearm
    \<and> consecutive_timeouts (sh_stats sh') = consecutive_timeouts (sh_stats sh) + 1
    \<and> sh_state sh' = (if faults_now sh then Fault else sh_state sh)
    \<and> comm_lost sh' = comm_lost sh @ (if faults_now sh \<and> on_error (sh_callbacks sh)
         then [EvError (CommunicationLost (consecutive_timeouts (sh_stats sh) + 1))] else [])"
proof -
  have "runs (set_all_iocs IOXS_BAD (sh_output_builder sh))
      (\<lambda>b'. builder_ok b' \<and> cdb_config b' = cdb_config (sh_output_builder sh))"
    using assms by (intro set_all_iocs_runs) (simp add: shared_ok_def)
  then obtain b' where b': "set_all_iocs IOXS_BAD (sh_output_builder sh) = Some b'" "builder_ok b'"
    "cdb_config b' = cdb_config (sh_output_builder sh)" by (auto simp: runs_iff)
  define b where "b = (if 0 < sh_max_consecutive_timeouts sh then b' else sh_output_builder sh)"
  define f where "f = (\<lambda>s :: cyclic_stats. s\<lparr>frames_missed := frames_missed s + 1,
                consecutive_timeouts := consecutive_timeouts s + 1, interval_disturbed := True\<rparr>)"
  define sh2 where "sh2 = emit on_timeout EvTimeout ((upd_stats f sh)\<lparr>sh_output_builder := b\<rparr>)"
  have s2: "sh_state sh2 = sh_state sh" "sh_max_consecutive_timeouts sh2 = sh_max_consecutive_timeouts sh"
    "sh_callbacks sh2 = sh_callbacks sh" "comm_lost sh2 = comm_lost sh" "same_link sh sh2"
    "consecutive_timeouts (sh_stats sh2) = consecutive_timeouts (sh_stats sh) + 1"
    by (simp_all add: sh2_def f_def same_link_def)
  have ok2: "shared_ok sh2" using assms(1) b' by (simp add: sh2_def b_def shared_ok_def)
  have h: "handle_watchdog_timeout sh = Some (if faults_now sh
      then emit_error (CommunicationLost (consecutive_timeouts (sh_stats sh) + 1)) (transition Fault sh2)
      else sh2)"
    using b'(1) s2
    by (auto simp: handle_watchdog_timeout_def sh2_def f_def b_def faults_now_def Let_def)
  have okf: "shared_ok (emit_error e (transition Fault sh2))" for e
    using ok2 by (auto simp: shared_ok_def)
  show ?thesis using assms(2) s2 ok2 okf
    by (auto simp: check_receive_watchdog_def h same_link_def)
qed

text \<open>Every pass of the loop finds the timer expired.\<close>

fun expired :: "nat \<Rightarrow> nat \<Rightarrow> (rx_times \<times> rx_input) list \<Rightarrow> bool" where
  "expired wd seen [] = True"
| "expired wd seen ((t, i) # rest) = (wd < at_check t - seen \<and> expired wd (at_rearm t) rest)"

lemma silent_pass:
  assumes "shared_ok sh" and "silent sh i"
    and "watchdog_time_us (sh_input_iocr sh) < at_check t - last_receive_time (sh_stats sh)"
  shows "\<exists>sh'. rx_pass t i sh = Some (True, sh') \<and> shared_ok sh' \<and> same_link sh sh'
    \<and> last_receive_time (sh_stats sh') = at_rearm t
    \<and> consecutive_timeouts (sh_stats sh') = consecutive_timeouts (sh_stats sh) + 1
    \<and> sh_state sh' = (if faults_now sh then Fault else sh_state sh)
    \<and> comm_lost sh' = comm_lost sh @ (if faults_now sh \<and> on_error (sh_callbacks sh)
         then [EvError (CommunicationLost (consecutive_timeouts (sh_stats sh) + 1))] else [])"
proof (cases i)
  case (RxFrame d)
  then obtain sh1 where 1: "process_input_frame (at_frame t) d sh = Some sh1" "unmoved sh sh1"
    using assms(2) process_silent [of sh d "at_frame t"] by auto
  have ok: "shared_ok sh1" using process_input_frame_runs [OF assms(1), of "at_frame t" d] 1(1) by simp
  have eq: "faults_now sh1 = faults_now sh" "comm_lost sh1 = comm_lost sh" "sh_state sh1 = sh_state sh"
    "sh_callbacks sh1 = sh_callbacks sh" "last_receive_time (sh_stats sh1) = last_receive_time (sh_stats sh)"
    "consecutive_timeouts (sh_stats sh1) = consecutive_timeouts (sh_stats sh)" "same_link sh sh1"
    using 1(2) by (simp_all add: unmoved_def faults_now_def same_link_def comm_lost_def)
  from watchdog_expires [OF ok, of "watchdog_time_us (sh_input_iocr sh)" "at_check t" "at_rearm t"] assms(3)
  show ?thesis using eq same_link_trans [OF eq(7)] by (auto simp: rx_pass_def RxFrame 1(1) Let_def)
next
  case RxIdle
  then show ?thesis using watchdog_expires [OF assms(1,3), of "at_rearm t"]
    by (auto simp: rx_pass_def Let_def)
qed (use assms in simp)

lemma silent_same_link: "same_link sh sh' \<Longrightarrow> silent sh' i = silent sh i"
  by (cases i) (simp_all add: same_link_def alive_data_def)

lemma silent_run:
  assumes "shared_ok sh" and "sh_running sh" and "0 < sh_max_consecutive_timeouts sh"
    and "\<forall>p \<in> set ps. silent sh (snd p)"
    and "expired (watchdog_time_us (sh_input_iocr sh)) (last_receive_time (sh_stats sh)) ps"
    and "sh_state sh = Fault
      \<or> sh_state sh = Running \<and> consecutive_timeouts (sh_stats sh) < sh_max_consecutive_timeouts sh"
  shows "\<exists>sh'. rx_loop ps sh = Some sh' \<and> shared_ok sh'
    \<and> sh_state sh' = (if sh_state sh = Running
          \<and> consecutive_timeouts (sh_stats sh) + length ps < sh_max_consecutive_timeouts sh
        then Running else Fault)
    \<and> comm_lost sh' = comm_lost sh @ (if sh_state sh = Running \<and> on_error (sh_callbacks sh)
          \<and> sh_max_consecutive_timeouts sh \<le> consecutive_timeouts (sh_stats sh) + length ps
        then [EvError (CommunicationLost (sh_max_consecutive_timeouts sh))] else [])"
  using assms
proof (induction ps arbitrary: sh)
  case Nil
  then show ?case by auto
next
  case (Cons p ps)
  obtain t i where p: "p = (t, i)" by (cases p)
  obtain sh1 where 1: "rx_pass t i sh = Some (True, sh1)" "shared_ok sh1" "same_link sh sh1"
    "last_receive_time (sh_stats sh1) = at_rearm t"
    "consecutive_timeouts (sh_stats sh1) = consecutive_timeouts (sh_stats sh) + 1"
    "sh_state sh1 = (if faults_now sh then Fault else sh_state sh)"
    "comm_lost sh1 = comm_lost sh @ (if faults_now sh \<and> on_error (sh_callbacks sh)
         then [EvError (CommunicationLost (consecutive_timeouts (sh_stats sh) + 1))] else [])"
    using silent_pass [of sh i t] Cons.prems by (auto simp: p)
  have same: "sh_running sh1 = sh_running sh" "sh_input_iocr sh1 = sh_input_iocr sh"
    "sh_max_consecutive_timeouts sh1 = sh_max_consecutive_timeouts sh" "sh_callbacks sh1 = sh_callbacks sh"
    using 1(3) by (simp_all add: same_link_def)
  have step: "rx_loop (p # ps) sh = rx_loop ps sh1" using Cons.prems(2) 1(1) by (simp add: p)
  have "\<forall>q \<in> set ps. silent sh1 (snd q)" using Cons.prems(4) silent_same_link [OF 1(3)] by simp
  moreover have "sh_state sh1 = Fault
      \<or> sh_state sh1 = Running \<and> consecutive_timeouts (sh_stats sh1) < sh_max_consecutive_timeouts sh1"
    using Cons.prems(3,6) 1(5,6) same(3) by (auto simp: faults_now_def)
  ultimately obtain sh' where 2: "rx_loop ps sh1 = Some sh'" "shared_ok sh'"
    "sh_state sh' = (if sh_state sh1 = Running
          \<and> consecutive_timeouts (sh_stats sh1) + length ps < sh_max_consecutive_timeouts sh1
        then Running else Fault)"
    "comm_lost sh' = comm_lost sh1 @ (if sh_state sh1 = Running \<and> on_error (sh_callbacks sh1)
          \<and> sh_max_consecutive_timeouts sh1 \<le> consecutive_timeouts (sh_stats sh1) + length ps
        then [EvError (CommunicationLost (sh_max_consecutive_timeouts sh1))] else [])"
    using Cons.IH [of sh1] Cons.prems(2,3,5) 1(2,4) same by (auto simp: p)
  have st: "sh_state sh' = (if sh_state sh = Running
          \<and> consecutive_timeouts (sh_stats sh) + length (p # ps) < sh_max_consecutive_timeouts sh
        then Running else Fault)"
    using 2(3) 1(5,6) same(3) Cons.prems(3,6) by (auto simp: faults_now_def)
  have cl: "comm_lost sh' = comm_lost sh @ (if sh_state sh = Running \<and> on_error (sh_callbacks sh)
          \<and> sh_max_consecutive_timeouts sh \<le> consecutive_timeouts (sh_stats sh) + length (p # ps)
        then [EvError (CommunicationLost (sh_max_consecutive_timeouts sh))] else [])"
    using 2(4) 1(5,6,7) same(3,4) Cons.prems(3,6) by (auto simp: faults_now_def)
  show ?case using step 2(1,2) st cl by simp
qed

text \<open>
  C6: Escalation. While nothing but silence, foreign traffic and disowned frames arrives and
  every pass of the receive loop finds the watchdog expired, the controller stays RUNNING for
  fewer passes than the configured limit and is in FAULT from that pass on, the fault is on
  record, and the loss of communication is reported exactly once, with the limit as its count.
\<close>

theorem watchdog_escalates:
  assumes "shared_ok sh" and "sh_running sh" and "sh_state sh = Running"
    and "consecutive_timeouts (sh_stats sh) = 0" and "0 < sh_max_consecutive_timeouts sh"
    and "\<forall>p \<in> set ps. silent sh (snd p)"
    and "expired (watchdog_time_us (sh_input_iocr sh)) (last_receive_time (sh_stats sh)) ps"
    and "on_error (sh_callbacks sh)"
  shows "\<exists>sh'. rx_loop ps sh = Some sh'
    \<and> (if length ps < sh_max_consecutive_timeouts sh
       then sh_state sh' = Running \<and> comm_lost sh' = comm_lost sh
       else sh_state sh' = Fault \<and> sh_ever_faulted sh'
         \<and> comm_lost sh' = comm_lost sh @ [EvError (CommunicationLost (sh_max_consecutive_timeouts sh))])"
  using silent_run [OF assms(1,2,5,6,7)] assms(3,4,5,8) unfolding shared_ok_def by fastforce

definition sample_passes :: "(rx_times \<times> rx_input) list" where
  "sample_passes =
     [(\<lparr>at_frame = 100000, at_check = 100000, at_rearm = 100001\<rparr>, RxIdle),
      (\<lparr>at_frame = 200000, at_check = 200000, at_rearm = 200001\<rparr>,
       RxFrame (build_ethernet_frame [2,0,0,0,0,1] [2,0,0,0,0,2] stopped_frame)),
      (\<lparr>at_frame = 300000, at_check = 300000, at_rearm = 300001\<rparr>, RxIdle)]"

lemma watchdog_escalates_witness:
  "\<exists>sh'. rx_loop sample_passes (cc_shared sample_controller) = Some sh' \<and> sh_state sh' = Fault"
proof -
  have "watchdog_time_us (sh_input_iocr (cc_shared sample_controller)) = 96000"
    by (simp add: sample_controller_def build_iocr_configs_def watchdog_time_us_def cycle_time_us_def Let_def)
  then have e: "expired (watchdog_time_us (sh_input_iocr (cc_shared sample_controller)))
      (last_receive_time (sh_stats (cc_shared sample_controller))) sample_passes"
    by (simp add: sample_passes_def) (simp add: sample_controller_def stats_new_def)
  have s: "\<forall>p \<in> set sample_passes. silent (cc_shared sample_controller) (snd p)"
    using stopped_frame_not_alive by (simp add: sample_passes_def)
  have "length sample_passes = 3" "sh_max_consecutive_timeouts (cc_shared sample_controller) = 3"
    "consecutive_timeouts (sh_stats (cc_shared sample_controller)) = 0"
    "on_error (sh_callbacks (cc_shared sample_controller))"
    by (simp_all add: sample_passes_def sample_controller_def stats_new_def)
  then show ?thesis
    using watchdog_escalates [OF sample_shared(1,2,4) _ _ s e] by auto
qed

section \<open>Any sequence of operations\<close>

datatype cyclic_op =
    OpReceive rx_times rx_input
  | OpTransmit nat "string option" tx_local
  | OpSetOutput u16 u16 bytes
  | OpSetSafe u16 u16 bytes
  | OpRegister callbacks
  | OpStart nat "string option" "string option" "string option" "string option"
  | OpStop bool "bool list"

fun cyclic_exec :: "cyclic_op \<Rightarrow> cyclic_controller \<Rightarrow> cyclic_controller option" where
  "cyclic_exec (OpReceive t i) c =
     map_option (\<lambda>r. c\<lparr>cc_shared := snd r\<rparr>) (rx_pass t i (cc_shared c))"
| "cyclic_exec (OpTransmit now e loc) c =
     map_option (\<lambda>r. c\<lparr>cc_shared := snd (snd r)\<rparr>) (tx_pass now e loc (cc_shared c))"
| "cyclic_exec (OpSetOutput s ss d) c =
     map_option (\<lambda>r. c\<lparr>cc_shared := snd r\<rparr>) (set_output_data s ss d (cc_shared c))"
| "cyclic_exec (OpSetSafe s ss d) c = Some (c\<lparr>cc_shared := set_safe_output s ss d (cc_shared c)\<rparr>)"
| "cyclic_exec (OpRegister cb) c = Some (c\<lparr>cc_shared := (cc_shared c)\<lparr>sh_callbacks := cb\<rparr>\<rparr>)"
| "cyclic_exec (OpStart now to ro ts rs) c = map_option snd (start now to ro ts rs c)"
| "cyclic_exec (OpStop j sends) c = map_option snd (stop j sends c)"

definition cyclic_step :: "cyclic_op \<Rightarrow> cyclic_controller option \<Rightarrow> cyclic_controller option" where
  "cyclic_step op m = Option.bind m (cyclic_exec op)"

fun is_start :: "cyclic_op \<Rightarrow> bool" where
  "is_start (OpStart now to ro ts rs) = True"
| "is_start _ = False"

lemma set_output_data_runs:
  assumes "shared_ok sh"
  shows "runs (set_output_data s ss d sh) (\<lambda>r. shared_ok (snd r)
    \<and> sh_ever_faulted (snd r) = sh_ever_faulted sh)"
proof (cases "output_writes_locked (sh_state sh)")
  case False
  have b: "builder_ok (sh_output_builder sh)" "cdb_config (sh_output_builder sh) = sh_output_iocr sh"
    using assms by (simp_all add: shared_ok_def)
  obtain e b1 where 1: "set_data s ss d (sh_output_builder sh) = Some (e, b1)" "builder_ok b1"
    "cdb_config b1 = sh_output_iocr sh" using set_data_runs [OF b(1), of s ss d] b(2) by (auto simp: runs_iff)
  obtain b2 where 2: "set_iops s ss IOXS_GOOD b1 = Some b2" "builder_ok b2" "cdb_config b2 = sh_output_iocr sh"
    using set_iops_runs [OF 1(2), of s ss IOXS_GOOD] 1(3) by (auto simp: runs_iff)
  show ?thesis using False assms 1 2
    by (auto simp: set_output_data_def shared_ok_def split: sum.split)
qed (use assms in \<open>simp add: set_output_data_def\<close>)

lemma apply_safe_output_runs:
  assumes "shared_ok sh"
  shows "runs (apply_safe_output sh) (\<lambda>sh'. shared_ok sh' \<and> sh_ever_faulted sh' = sh_ever_faulted sh)"
proof (cases "sh_safe_output sh")
  case (Some p)
  obtain s ss d where p: "p = (s, ss, d)" by (cases p) auto
  have b: "builder_ok (sh_output_builder sh)" "cdb_config (sh_output_builder sh) = sh_output_iocr sh"
    using assms by (simp_all add: shared_ok_def)
  obtain e b1 where 1: "set_data s ss d (sh_output_builder sh) = Some (e, b1)" "builder_ok b1"
    "cdb_config b1 = sh_output_iocr sh" using set_data_runs [OF b(1), of s ss d] b(2) by (auto simp: runs_iff)
  obtain b2 where 2: "set_iops s ss IOXS_GOOD b1 = Some b2" "builder_ok b2" "cdb_config b2 = sh_output_iocr sh"
    using set_iops_runs [OF 1(2), of s ss IOXS_GOOD] 1(3) by (auto simp: runs_iff)
  obtain b3 where 3: "swap b2 = Some b3" "builder_ok b3" "cdb_config b3 = sh_output_iocr sh"
    using swap_runs [OF 2(2)] 2(3) by (auto simp: runs_iff)
  show ?thesis using Some p assms 1 2 3
    by (auto simp: apply_safe_output_def shared_ok_def split: sum.split)
qed (use assms in \<open>simp add: apply_safe_output_def\<close>)

lemma stop_rest_runs:
  assumes "shared_ok (cc_shared c)"
  shows "runs (stop_rest j sends c) (\<lambda>r. shared_ok (cc_shared (snd r))
    \<and> sh_ever_faulted (cc_shared (snd r)) = sh_ever_faulted (cc_shared c))"
proof -
  let ?sh1 = "(transition Stopping (cc_shared c))\<lparr>sh_running := False\<rparr>"
  have ok: "shared_ok ?sh1" using assms by (simp add: shared_ok_def)
  obtain fs sh' where "stop_frame_loop 3 sends ?sh1 = Some (fs, sh')" "shared_ok sh'"
    "sh_ever_faulted sh' = sh_ever_faulted ?sh1"
    using stop_frame_loop_eq [OF ok, of 3 sends] by blast
  then show ?thesis using assms ok
    by (auto simp: stop_rest_def send_stop_frames_def STOP_FRAME_COUNT_def shared_ok_def Let_def)
qed

lemma start_runs:
  assumes "shared_ok (cc_shared c)"
  shows "runs (start now to ro ts rs c) (\<lambda>r. shared_ok (cc_shared (snd r)))"
proof -
  obtain b where "swap (sh_output_builder (cc_shared c)) = Some b" "builder_ok b"
    "cdb_config b = cdb_config (sh_output_builder (cc_shared c))"
    using swap_runs assms unfolding shared_ok_def runs_iff by blast
  then show ?thesis using assms
    by (auto simp: start_def shared_ok_def Let_def split: option.split)
qed

lemma cyclic_exec_runs:
  assumes "shared_ok (cc_shared c)"
  shows "runs (cyclic_exec op c) (\<lambda>c'. shared_ok (cc_shared c')
    \<and> (\<not> is_start op \<and> sh_ever_faulted (cc_shared c) \<longrightarrow> sh_ever_faulted (cc_shared c')))"
proof (cases op)
  case (OpReceive t i)
  then show ?thesis using rx_pass_runs [OF assms, of t i] by (auto simp: runs_iff)
next
  case (OpTransmit now e loc)
  then show ?thesis using tx_pass_runs [OF assms, of now e loc] by (auto simp: runs_iff)
next
  case (OpSetOutput s ss d)
  then show ?thesis using set_output_data_runs [OF assms, of s ss d] by (auto simp: runs_iff)
next
  case (OpStart now to ro ts rs)
  then show ?thesis using start_runs [OF assms, of now to ro ts rs] by (auto simp: runs_iff)
next
  case (OpStop j sends)
  obtain sh where 1: "apply_safe_output (cc_shared c) = Some sh" "shared_ok sh"
    "sh_ever_faulted sh = sh_ever_faulted (cc_shared c)"
    using apply_safe_output_runs [OF assms] by (auto simp: runs_iff)
  then show ?thesis using stop_rest_runs [of "c\<lparr>cc_shared := sh\<rparr>" j sends] OpStop
    by (auto simp: stop_def runs_iff)
qed (use assms in \<open>simp_all add: shared_ok_def set_safe_output_def\<close>)

interpretation cyc: op_system cyclic_step "\<lambda>m. runs m (\<lambda>c. shared_ok (cc_shared c))"
proof unfold_locales
  fix m :: "cyclic_controller option" and op
  assume "runs m (\<lambda>c. shared_ok (cc_shared c))"
  then show "runs (cyclic_step op m) (\<lambda>c. shared_ok (cc_shared c))"
    unfolding cyclic_step_def runs_bind
    by (rule runs_mono) (auto intro: runs_mono [OF cyclic_exec_runs])
qed

lemma no_start_keeps_fault:
  "shared_ok (cc_shared c) \<Longrightarrow> sh_ever_faulted (cc_shared c) \<Longrightarrow> \<forall>op \<in> set ops. \<not> is_start op \<Longrightarrow>
   runs (fold cyclic_step ops (Some c)) (\<lambda>c'. sh_ever_faulted (cc_shared c'))"
proof (induction ops arbitrary: c)
  case (Cons op ops)
  obtain c1 where "cyclic_exec op c = Some c1" "shared_ok (cc_shared c1)" "sh_ever_faulted (cc_shared c1)"
    using cyclic_exec_runs [OF Cons.prems(1), of op] Cons.prems by (auto simp: runs_iff)
  then show ?case using Cons by (simp add: cyclic_step_def)
qed simp

lemma controller_new_ok:
  assumes "config_ok oc" and "controller_new now ifn src dst ic oc mx = Some (Inr c)"
  shows "shared_ok (cc_shared c)"
proof -
  obtain b where "set_all_iops IOXS_GOOD (builder_new oc) = Some b" "builder_ok b"
    "cdb_config b = cdb_config (builder_new oc)"
    using set_all_iops_runs [OF builder_new_ok [OF assms(1)], of IOXS_GOOD] unfolding runs_iff by blast
  then show ?thesis using assms(2)
    by (auto simp: controller_new_def shared_ok_def builder_new_def Let_def split: if_splits)
qed


lemma sample_new:
  "\<exists>c. controller_new 0 ''en0'' [2,0,0,0,0,1] [2,0,0,0,0,2]
      (fst (build_iocr_configs sample_slots 1 2 32 32 3)) (snd (build_iocr_configs sample_slots 1 2 32 32 3)) 3
    = Some (Inr c)"
proof -
  have c: "config_ok (snd (build_iocr_configs sample_slots 1 2 32 32 3))"
    using build_iocr_configs_ok(2) by (metis prod.collapse)
  have t: "cycle_time_us (snd (build_iocr_configs sample_slots 1 2 32 32 3)) = 32000"
    by (simp add: cycle_time_us_def build_iocr_configs_def Let_def)
  obtain b where "set_all_iops IOXS_GOOD (builder_new (snd (build_iocr_configs sample_slots 1 2 32 32 3))) = Some b"
    using set_all_iops_runs [OF builder_new_ok [OF c], of IOXS_GOOD] by (auto simp: runs_iff)
  then show ?thesis by (simp add: controller_new_def t)
qed


section \<open>Cycle counters\<close>

text \<open>
  Counter tracking counts lost frames exactly, across the 16-bit wrap: when the frame
  received is the \<open>k + 1\<close>-th after the last one and the distance stays within half the counter
  range, exactly \<open>k\<close> frames are added to the missed ones, and it is neither a duplicate nor
  out of order; a frame up to half the range behind is out of order and no frame is missed.
\<close>

theorem cycle_gap_exact:
  assumes "sh_last_rx_cycle_counter sh = Some prev" and "st = unat (sh_rx_counter_step sh)" and "0 < st"
    and "(k + 1) * st \<le> 0x8000" and "0 < behind" and "behind < 0x8000"
  shows "(let sh' = track_cycle_counter (prev + of_nat ((k + 1) * st)) sh in
       frames_missed (sh_stats sh') = frames_missed (sh_stats sh) + k
     \<and> frames_duplicate (sh_stats sh') = frames_duplicate (sh_stats sh)
     \<and> frames_out_of_order (sh_stats sh') = frames_out_of_order (sh_stats sh)
     \<and> sh_last_rx_cycle_counter sh' = Some (prev + of_nat ((k + 1) * st)))
   \<and> (let sh' = track_cycle_counter (prev - of_nat behind) sh in
       frames_out_of_order (sh_stats sh') = frames_out_of_order (sh_stats sh) + 1
     \<and> frames_missed (sh_stats sh') = frames_missed (sh_stats sh))"
proof (rule conjI)
  have ex: "ucast ((ucast prev + sh_rx_counter_step sh) AND 0xFFFF) = prev + (of_nat st :: u16)"
    unfolding counter_mask assms(2) of_nat_unat_u32 ..
  define n where "n = (k + 1) * st"
  have n: "0 < n" "n \<le> 0x8000" "st \<le> n" using assms(3,4) by (simp_all add: n_def)
  have un: "unat (of_nat n :: u16) = n" and us: "unat (of_nat st :: u16) = st"
    using n by (auto intro!: unat_of_nat_u16)
  have ne: "prev + of_nat n \<noteq> prev" using n(1) un by auto
  have eqn: "prev + of_nat n = prev + of_nat st \<longleftrightarrow> n = st" using un us by (metis add_left_cancel)
  have fw: "unat (ucast (of_nat n :: u16) :: u32) = n" using un by (simp only: unat_ucast_u16)
  have small: "\<not> (0x8000 :: u32) < ucast (of_nat n :: u16)" using fw n(2) by (simp add: word_less_nat_alt)
  have dv: "unat ((ucast (of_nat n :: u16) :: u32) div sh_rx_counter_step sh) = k + 1"
    using assms(2,3) by (simp add: unat_div fw) (simp add: n_def)
  have st0: "sh_rx_counter_step sh \<noteq> 0" using assms(2,3) by auto
  have k0: "n = st \<longleftrightarrow> k = 0" using assms(3) by (simp add: n_def)
  show "let sh' = track_cycle_counter (prev + of_nat ((k + 1) * st)) sh in
       frames_missed (sh_stats sh') = frames_missed (sh_stats sh) + k
     \<and> frames_duplicate (sh_stats sh') = frames_duplicate (sh_stats sh)
     \<and> frames_out_of_order (sh_stats sh') = frames_out_of_order (sh_stats sh)
     \<and> sh_last_rx_cycle_counter sh' = Some (prev + of_nat ((k + 1) * st))"
    unfolding n_def [symmetric] track_cycle_counter_def assms(1) ex Let_def option.case
    using ne eqn k0 small dv st0 by simp
  define m where "m = 65536 - behind"
  have m: "0x8000 < m" "m < 65536" using assms(5,6) by (auto simp: m_def)
  have pb: "prev - of_nat behind = prev + of_nat m" using minus_of_nat_u16 [of behind] assms(6) by (simp add: m_def)
  have um: "unat (of_nat m :: u16) = m" using m by (auto intro!: unat_of_nat_u16)
  have "prev + of_nat m \<noteq> prev" using m um by auto
  moreover have "prev + of_nat m \<noteq> prev + of_nat st" using um us m n by (metis add_left_cancel not_le order.trans)
  moreover have "(0x8000 :: u32) < ucast (of_nat m :: u16)"
    using um m(1) by (simp add: word_less_nat_alt unat_ucast_u16)
  ultimately show "let sh' = track_cycle_counter (prev - of_nat behind) sh in
       frames_out_of_order (sh_stats sh') = frames_out_of_order (sh_stats sh) + 1
     \<and> frames_missed (sh_stats sh') = frames_missed (sh_stats sh)"
    unfolding pb track_cycle_counter_def assms(1) ex Let_def option.case by simp
qed

lemma cycle_gap_exact_witness:
  "let sh = (cc_shared sample_controller)\<lparr>sh_last_rx_cycle_counter := Some 0xFC00\<rparr> in
    (let sh' = track_cycle_counter (0xFC00 + of_nat ((2 + 1) * 1024)) sh in
       frames_missed (sh_stats sh') = frames_missed (sh_stats sh) + 2)
    \<and> (let sh' = track_cycle_counter (0xFC00 - of_nat 1024) sh in
       frames_out_of_order (sh_stats sh') = frames_out_of_order (sh_stats sh) + 1)"
  using cycle_gap_exact [where sh = "(cc_shared sample_controller)\<lparr>sh_last_rx_cycle_counter := Some 0xFC00\<rparr>"
      and prev = "0xFC00" and st = 1024 and k = 2 and behind = 1024]
  by (simp add: sample_controller_def Let_def)

section \<open>Input data\<close>

definition obj_key :: "io_data_object \<Rightarrow> u16 \<times> u16" where
  "obj_key obj = (obj_slot obj, obj_subslot obj)"

text \<open>The entry a payload holds for an object.\<close>

definition entry_of :: "bytes \<Rightarrow> io_data_object \<Rightarrow> input_entry" where
  "entry_of pl obj = \<lparr>ie_data = take (obj_data_length obj) (drop (obj_frame_offset obj) pl),
     ie_iops = pl ! obj_iops_offset obj\<rparr>"

definition in_payload :: "bytes \<Rightarrow> io_data_object \<Rightarrow> bool" where
  "in_payload pl obj \<longleftrightarrow> obj_iops_offset obj < length pl \<and> obj_frame_offset obj + obj_data_length obj \<le> length pl"

definition was_good :: "input_map \<Rightarrow> io_data_object \<Rightarrow> bool" where
  "was_good m obj = (case m (obj_key obj) of None \<Rightarrow> False | Some e \<Rightarrow> is_good e)"

lemma extract_objects_eq:
  assumes "distinct (map obj_key objs)"
  shows "\<exists>m'. extract_objects pl w objs m us cs = Some (m',
      us @ (if w then map (\<lambda>obj. (obj_slot obj, obj_subslot obj, ie_data (entry_of pl obj)))
                        (filter (\<lambda>obj. in_payload pl obj \<and> is_good (entry_of pl obj)) objs) else []),
      cs @ map (\<lambda>obj. (obj_slot obj, obj_subslot obj, ie_iops (entry_of pl obj)))
             (filter (\<lambda>obj. in_payload pl obj \<and> is_good (entry_of pl obj) \<noteq> was_good m obj) objs))
    \<and> (\<forall>k. m' k = (case List.find (\<lambda>obj. in_payload pl obj \<and> obj_key obj = k) objs of
          None \<Rightarrow> m k | Some obj \<Rightarrow> Some (entry_of pl obj)))"
  using assms
proof (induction objs arbitrary: m us cs)
  case (Cons obj objs)
  show ?case
  proof (cases "in_payload pl obj")
    case False
    then have "length pl \<le> obj_iops_offset obj \<or> length pl < obj_frame_offset obj + obj_data_length obj"
      by (auto simp: in_payload_def)
    then have eq: "extract_objects pl w (obj # objs) m us cs = extract_objects pl w objs m us cs"
      by simp
    have "distinct (map obj_key objs)" using Cons.prems by simp
    from Cons.IH [OF this, of m us cs] show ?thesis
      unfolding eq using False by (simp only: filter.simps find.simps simp_thms if_False)
  next
    case True
    let ?e = "entry_of pl obj"
    let ?m1 = "m(obj_key obj \<mapsto> ?e)"
    let ?cs1 = "if is_good ?e \<noteq> was_good m obj then cs @ [(obj_slot obj, obj_subslot obj, ie_iops ?e)] else cs"
    let ?us1 = "if is_good ?e \<and> w then us @ [(obj_slot obj, obj_subslot obj, ie_data ?e)] else us"
    have step: "extract_objects pl w (obj # objs) m us cs = extract_objects pl w objs ?m1 ?us1 ?cs1"
    proof -
      have c: "\<not> (length pl \<le> obj_iops_offset obj \<or> length pl < obj_frame_offset obj + obj_data_length obj)"
        "obj_iops_offset obj < length pl" "obj_frame_offset obj + obj_data_length obj \<le> length pl"
        using True by (auto simp: in_payload_def)
      show ?thesis
        by (simp only: extract_objects.simps c if_False idx_in sub_slice_in le_add1 bind.bind_lunit Let_def
            was_good_def obj_key_def entry_of_def is_good_def add_diff_cancel_left' input_entry.simps)
          (simp add: is_good_def split: option.split)
    qed
    have wg: "was_good ?m1 o' = was_good m o'" if "o' \<in> set objs" for o'
    proof -
      have "obj_key o' \<noteq> obj_key obj" using Cons.prems that by (metis distinct.simps(2) image_eqI list.simps(9) set_map)
      then show ?thesis by (simp add: was_good_def)
    qed
    have flt: "filter (\<lambda>obj. in_payload pl obj \<and> is_good (entry_of pl obj) \<noteq> was_good ?m1 obj) objs
        = filter (\<lambda>obj. in_payload pl obj \<and> is_good (entry_of pl obj) \<noteq> was_good m obj) objs"
      by (rule filter_cong) (simp_all add: wg)
    have nf: "List.find (\<lambda>o'. in_payload pl o' \<and> obj_key o' = obj_key obj) objs = None"
      using Cons.prems by (auto simp: find_None_iff) (metis imageI)
    have d: "distinct (map obj_key objs)" using Cons.prems by simp
    obtain m' where m': "extract_objects pl w objs ?m1 ?us1 ?cs1 = Some (m',
      ?us1 @ (if w then map (\<lambda>obj. (obj_slot obj, obj_subslot obj, ie_data (entry_of pl obj)))
                        (filter (\<lambda>obj. in_payload pl obj \<and> is_good (entry_of pl obj)) objs) else []),
      ?cs1 @ map (\<lambda>obj. (obj_slot obj, obj_subslot obj, ie_iops (entry_of pl obj)))
             (filter (\<lambda>obj. in_payload pl obj \<and> is_good (entry_of pl obj) \<noteq> was_good ?m1 obj) objs))"
      and k: "\<forall>k. m' k = (case List.find (\<lambda>obj. in_payload pl obj \<and> obj_key obj = k) objs of
          None \<Rightarrow> ?m1 k | Some obj \<Rightarrow> Some (entry_of pl obj))"
      using Cons.IH [OF d, of ?m1 ?us1 ?cs1] by (elim exE conjE) (rule that)
    have "m' k = (case List.find (\<lambda>obj. in_payload pl obj \<and> obj_key obj = k) (obj # objs) of
          None \<Rightarrow> m k | Some obj \<Rightarrow> Some (entry_of pl obj))" for k
      using k [rule_format, of k] True nf by (cases "obj_key obj = k") (simp_all split: option.split)
    then show ?thesis unfolding step m' flt using True by auto
  qed
qed simp

lemma emit_fold_log: "sh_log (fold (\<lambda>x. emit p (g x)) xs sh) =
    sh_log sh @ (if p (sh_callbacks sh) then map g xs else [])"
  by (induction xs arbitrary: sh) (auto simp: emit_def)

lemma good_status: "(ie_iops e AND 0x80 \<noteq> 0) = is_good e"
  by (simp add: is_good_def IOXS_DATA_STATE_GOOD_def)

lemma was_good_input: "was_good (sh_input_data sh) obj = is_input_good (obj_slot obj) (obj_subslot obj) sh"
  by (simp add: was_good_def is_input_good_def obj_key_def)

text \<open>
  C10: A frame accepted as proof of life updates the input image exactly: every object of the
  input configuration that fits the payload is readable with its bytes of this frame if and
  only if the frame marks it GOOD, the raw status is what the frame carried, objects beyond
  the payload keep their old entries, and the data callback fires for the GOOD objects and the
  status callback for the GOOD/BAD changes only, in configuration order.
\<close>

theorem input_image_exact:
  assumes "shared_ok sh" and "frame_is_alive frame" and "sh_state sh = Running"
    and "distinct (map obj_key (cfg_objects (sh_input_iocr sh)))"
    and "on_input_data (sh_callbacks sh)" and "on_input_status (sh_callbacks sh)"
    and "pl = rf_payload frame" and "objs = cfg_objects (sh_input_iocr sh)"
  shows "\<exists>sh'. accept_frame now frame sh = Some sh'
    \<and> (\<forall>obj \<in> set objs. in_payload pl obj \<longrightarrow>
         get_input_data (obj_slot obj) (obj_subslot obj) sh'
           = (if pl ! obj_iops_offset obj AND 0x80 \<noteq> 0
              then Some (take (obj_data_length obj) (drop (obj_frame_offset obj) pl)) else None)
       \<and> get_input_status (obj_slot obj) (obj_subslot obj) sh' = Some (pl ! obj_iops_offset obj))
    \<and> (\<forall>obj \<in> set objs. \<not> in_payload pl obj \<longrightarrow>
         get_input_data (obj_slot obj) (obj_subslot obj) sh' = get_input_data (obj_slot obj) (obj_subslot obj) sh)
    \<and> sh_log sh' = sh_log sh
       @ map (\<lambda>obj. EvInputStatus (obj_slot obj) (obj_subslot obj) (pl ! obj_iops_offset obj))
           (filter (\<lambda>obj. in_payload pl obj
              \<and> (pl ! obj_iops_offset obj AND 0x80 \<noteq> 0) \<noteq> is_input_good (obj_slot obj) (obj_subslot obj) sh) objs)
       @ map (\<lambda>obj. EvInputData (obj_slot obj) (obj_subslot obj)
                (take (obj_data_length obj) (drop (obj_frame_offset obj) pl)))
           (filter (\<lambda>obj. in_payload pl obj \<and> pl ! obj_iops_offset obj AND 0x80 \<noteq> 0) objs)"
proof -
  obtain b where b: "set_all_iocs IOXS_GOOD (sh_output_builder sh) = Some b"
    using set_all_iocs_runs [of "sh_output_builder sh" IOXS_GOOD] assms(1)
    by (auto simp: shared_ok_def runs_iff)
  have dk: "distinct (map obj_key objs)" using assms(4,8) by simp
  let ?us = "map (\<lambda>obj. (obj_slot obj, obj_subslot obj, ie_data (entry_of pl obj)))
      (filter (\<lambda>obj. in_payload pl obj \<and> is_good (entry_of pl obj)) objs)"
  let ?cs = "map (\<lambda>obj. (obj_slot obj, obj_subslot obj, ie_iops (entry_of pl obj)))
      (filter (\<lambda>obj. in_payload pl obj \<and> is_good (entry_of pl obj) \<noteq> was_good (sh_input_data sh) obj) objs)"
  obtain m where m: "extract_objects pl True objs (sh_input_data sh) [] [] = Some (m, ?us, ?cs)"
    and mk: "\<forall>k. m k = (case List.find (\<lambda>obj. in_payload pl obj \<and> obj_key obj = k) objs of
          None \<Rightarrow> sh_input_data sh k | Some obj \<Rightarrow> Some (entry_of pl obj))"
    using extract_objects_eq [OF dk, of pl True "sh_input_data sh" "[]" "[]"] by auto
  let ?sh1 = "upd_stats (note_received now (cycle_time_us (sh_input_iocr sh)) True) sh"
  let ?sh4 = "(track_cycle_counter (rf_cycle_counter frame) ?sh1)\<lparr>sh_output_builder := b\<rparr>"
  define sh' where "sh' = fold (\<lambda>x. emit on_input_data (EvInputData (fst x) (fst (snd x)) (snd (snd x)))) ?us
    (fold (\<lambda>x. emit on_input_status (EvInputStatus (fst x) (fst (snd x)) (snd (snd x)))) ?cs
      (?sh4\<lparr>sh_input_data := m\<rparr>))"
  have acc: "accept_frame now frame sh = Some sh'"
    using assms(2,3,5) b m assms(7,8)
    by (simp add: accept_frame_def Let_def split_def sh'_def)
  have data: "sh_input_data sh' = m" by (simp add: sh'_def)
  have log: "sh_log sh' = sh_log sh
      @ map (\<lambda>x. EvInputStatus (fst x) (fst (snd x)) (snd (snd x))) ?cs
      @ map (\<lambda>x. EvInputData (fst x) (fst (snd x)) (snd (snd x))) ?us"
    unfolding sh'_def emit_fold_log using assms(5,6) by simp
  have found: "m (obj_slot obj, obj_subslot obj) = Some (entry_of pl obj)"
    if o': "obj \<in> set objs" "in_payload pl obj" for obj
  proof -
    obtain o' where f: "List.find (\<lambda>o'. in_payload pl o' \<and> obj_key o' = obj_key obj) objs = Some o'"
      using o' by (cases "List.find (\<lambda>o'. in_payload pl o' \<and> obj_key o' = obj_key obj) objs")
        (auto simp: find_None_iff)
    then have "o' \<in> set objs" "obj_key o' = obj_key obj" by (auto simp: find_Some_iff)
    then have "o' = obj" using dk o'(1) by (metis distinct_map inj_on_eq_iff)
    with f mk show ?thesis by (simp add: obj_key_def)
  qed
  have missed: "m (obj_slot obj, obj_subslot obj) = sh_input_data sh (obj_slot obj, obj_subslot obj)"
    if o': "obj \<in> set objs" "\<not> in_payload pl obj" for obj
  proof -
    have "List.find (\<lambda>o'. in_payload pl o' \<and> obj_key o' = obj_key obj) objs = None"
      using o' dk by (auto simp: find_None_iff dest: inj_on_eq_iff [of obj_key "set objs"] simp: distinct_map)
    with mk show ?thesis by (simp add: obj_key_def)
  qed
  have st: "pl ! obj_iops_offset obj = ie_iops (entry_of pl obj)"
    "take (obj_data_length obj) (drop (obj_frame_offset obj) pl) = ie_data (entry_of pl obj)" for obj
    by (simp_all add: entry_of_def)
  show ?thesis
    unfolding st good_status
    using acc found missed
    by (auto simp: log get_input_data_def get_input_status_def data was_good_input)
qed

text \<open>A frame of the running sample device: input slot 1 holds 5, 6 and is marked GOOD.\<close>

definition running_frame :: rt_frame where
  "running_frame = \<lparr>rf_frame_id = 0x8001, rf_cycle_counter = 9, rf_data_status = RUN_STATUS,
     rf_transfer_status = 0, rf_payload = [5, 6, 0x80] @ replicate 37 0\<rparr>"

lemma input_image_exact_witness:
  "\<exists>sh'. accept_frame 7 running_frame (cc_shared sample_controller) = Some sh'
    \<and> get_input_data 1 1 sh' = Some [5, 6]
    \<and> sh_log sh' = [EvInputStatus 1 1 0x80, EvInputData 1 1 [5, 6]]"
proof -
  let ?objs = "cfg_objects (sh_input_iocr (cc_shared sample_controller))"
  have objs: "?objs = [\<lparr>obj_slot = 1, obj_subslot = 1, obj_frame_offset = 0, obj_data_length = 2,
      obj_iops_offset = 2, obj_iocs_offset = None\<rparr>]"
    by (simp add: sample_controller_def build_iocr_configs_def sample_slots_def Let_def)
  have alive: "frame_is_alive running_frame"
    by (simp add: frame_is_alive_def running_frame_def is_valid_def is_running_def is_ignored_def
        RUN_STATUS_def DATA_STATUS_VALID_def DATA_STATUS_PROVIDER_RUN_def DATA_STATUS_STATION_OK_def
        DATA_STATUS_STATE_def DATA_STATUS_IGNORE_def)
  have cb: "on_input_data (sh_callbacks (cc_shared sample_controller))"
    "on_input_status (sh_callbacks (cc_shared sample_controller))"
    "sh_log (cc_shared sample_controller) = []" "\<not> is_input_good 1 1 (cc_shared sample_controller)"
    by (simp_all add: sample_controller_def is_input_good_def)
  have d: "distinct (map obj_key ?objs)" by (simp add: objs)
  show ?thesis
    using input_image_exact [OF sample_shared(1) alive sample_shared(4) d cb(1,2) refl refl, of 7] cb(3,4)
    unfolding objs by (auto simp: in_payload_def running_frame_def)
qed

end
