(* ===== verification/Alarms.thy ===== *)
theory Alarms
  imports Prelude
begin

text \<open>
  Model of \<open>src/alarms.rs\<close>: the alarm items, the AlarmNotification parser and the scan of a
  connect response for the device's alarm reference. Every parser is in the panic monad; its
  \<open>Result\<close> is an \<open>alarm_error + value\<close>.
\<close>

definition BLOCK_ALARM_NOTIFICATION_HIGH :: u16 where "BLOCK_ALARM_NOTIFICATION_HIGH = 0x0001"
definition BLOCK_ALARM_NOTIFICATION_LOW :: u16 where "BLOCK_ALARM_NOTIFICATION_LOW = 0x0002"
definition BLOCK_ALARM_CR_RES :: u16 where "BLOCK_ALARM_CR_RES = 0x8103"
definition USI_CHANNEL_DIAGNOSIS :: u16 where "USI_CHANNEL_DIAGNOSIS = 0x8000"
definition USI_MULTIPLE_DIAGNOSIS :: u16 where "USI_MULTIPLE_DIAGNOSIS = 0x8001"
definition USI_EXT_CHANNEL_DIAGNOSIS :: u16 where "USI_EXT_CHANNEL_DIAGNOSIS = 0x8002"
definition USI_QUALIFIED_CHANNEL_DIAGNOSIS :: u16 where "USI_QUALIFIED_CHANNEL_DIAGNOSIS = 0x8003"
definition USI_MAINTENANCE :: u16 where "USI_MAINTENANCE = 0x8100"
definition USI_UPLOAD :: u16 where "USI_UPLOAD = 0x8200"
definition USI_IPARAMETER :: u16 where "USI_IPARAMETER = 0x8201"
definition USI_RS_ALARM_LOW :: u16 where "USI_RS_ALARM_LOW = 0x8300"
definition USI_RS_ALARM_HIGH :: u16 where "USI_RS_ALARM_HIGH = 0x8301"
definition USI_RS_ALARM_SUBMODULE :: u16 where "USI_RS_ALARM_SUBMODULE = 0x8302"
definition USI_PE_ALARM :: u16 where "USI_PE_ALARM = 0x8310"
definition USI_PRAL_ALARM :: u16 where "USI_PRAL_ALARM = 0x8320"
definition PE_MODE_POWER_OFF :: u8 where "PE_MODE_POWER_OFF = 0x00"
definition PE_MODE_ENERGY_SAVING_MIN :: u8 where "PE_MODE_ENERGY_SAVING_MIN = 0x01"
definition PE_MODE_ENERGY_SAVING_MAX :: u8 where "PE_MODE_ENERGY_SAVING_MAX = 0x1F"
definition PE_MODE_OPERATE :: u8 where "PE_MODE_OPERATE = 0xF0"
definition PE_MODE_SLEEP_MODE_WOL :: u8 where "PE_MODE_SLEEP_MODE_WOL = 0xFE"
definition PE_MODE_READY_TO_OPERATE :: u8 where "PE_MODE_READY_TO_OPERATE = 0xFF"

section \<open>Names\<close>

definition get_alarm_type_name :: "u16 \<Rightarrow> string" where
  "get_alarm_type_name alarm_type =
     (if alarm_type = 0x0001 then ''Diagnosis''
      else if alarm_type = 0x0002 then ''Process''
      else if alarm_type = 0x0003 then ''Pull''
      else if alarm_type = 0x0004 then ''Plug''
      else if alarm_type = 0x0005 then ''Status''
      else if alarm_type = 0x0006 then ''Update''
      else if alarm_type = 0x0007 then ''Redundancy''
      else if alarm_type = 0x0008 then ''ControlledBySupervisor''
      else if alarm_type = 0x0009 then ''Released''
      else if alarm_type = 0x000A then ''PlugWrongSubmodule''
      else if alarm_type = 0x000B then ''ReturnOfSubmodule''
      else if alarm_type = 0x000C then ''DiagnosisDisappears''
      else if alarm_type = 0x000D then ''MulticastMismatch''
      else if alarm_type = 0x000E then ''PortDataChange''
      else if alarm_type = 0x000F then ''SyncDataChanged''
      else if alarm_type = 0x0010 then ''IsochronousModeProblem''
      else if alarm_type = 0x0011 then ''NetworkComponentProblem''
      else if alarm_type = 0x0012 then ''TimeDataChanged''
      else if alarm_type = 0x0013 then ''DynamicFramePackingProblem''
      else if alarm_type = 0x001E then ''UploadAndRetrieval''
      else if alarm_type = 0x001F then ''PullModule''
      else ''Unknown(0x'' @ hex_upper 4 (unat alarm_type) @ '')'')"

definition get_usi_name :: "u16 \<Rightarrow> string" where
  "get_usi_name usi =
     (if usi = USI_CHANNEL_DIAGNOSIS then ''ChannelDiagnosis''
      else if usi = USI_MULTIPLE_DIAGNOSIS then ''MultipleDiagnosis''
      else if usi = USI_EXT_CHANNEL_DIAGNOSIS then ''ExtChannelDiagnosis''
      else if usi = USI_QUALIFIED_CHANNEL_DIAGNOSIS then ''QualifiedChannelDiagnosis''
      else if usi = USI_MAINTENANCE then ''MaintenanceItem''
      else if usi = USI_UPLOAD then ''UploadRecord''
      else if usi = USI_IPARAMETER then ''iParameterItem''
      else if usi = USI_RS_ALARM_LOW then ''RS_AlarmItem_Low''
      else if usi = USI_RS_ALARM_HIGH then ''RS_AlarmItem_High''
      else if usi = USI_RS_ALARM_SUBMODULE then ''RS_AlarmItem_Submodule''
      else if usi = USI_PE_ALARM then ''PE_AlarmItem''
      else if usi = USI_PRAL_ALARM then ''PRAL_AlarmItem''
      else if usi \<le> 0x7FFF then ''ManufacturerSpecific(0x'' @ hex_upper 4 (unat usi) @ '')''
      else if 0x9000 \<le> usi \<and> usi \<le> 0x9FFF then ''ProfileSpecific(0x'' @ hex_upper 4 (unat usi) @ '')''
      else ''Reserved(0x'' @ hex_upper 4 (unat usi) @ '')'')"

definition get_pe_mode_name :: "u8 \<Rightarrow> string" where
  "get_pe_mode_name mode =
     (if mode = PE_MODE_POWER_OFF then ''PE_PowerOff''
      else if PE_MODE_ENERGY_SAVING_MIN \<le> mode \<and> mode \<le> PE_MODE_ENERGY_SAVING_MAX
        then ''PE_EnergySavingMode_'' @ dec_nat (unat mode)
      else if mode = PE_MODE_OPERATE then ''PE_Operate''
      else if mode = PE_MODE_SLEEP_MODE_WOL then ''PE_SleepModeWOL''
      else if mode = PE_MODE_READY_TO_OPERATE then ''PE_ReadyToOperate''
      else ''PE_Reserved(0x'' @ hex_upper 2 (unat mode) @ '')'')"

section \<open>Alarm items\<close>

record diagnosis_item =
  di_user_structure_id :: u16
  di_channel_number :: u16
  di_channel_properties :: u16
  di_channel_error_type :: u16
  di_ext_channel_error_type :: u16
  di_ext_channel_add_value :: u32
  di_qualified_channel_qualifier :: u32

definition channel_number_value :: "diagnosis_item \<Rightarrow> u16" where
  "channel_number_value i = di_channel_number i AND 0x7FFF"

definition is_accumulative :: "diagnosis_item \<Rightarrow> bool" where
  "is_accumulative i = (di_channel_number i AND 0x8000 \<noteq> 0)"

definition channel_type :: "diagnosis_item \<Rightarrow> u16" where
  "channel_type i = di_channel_properties i AND 0xFF"

definition is_extended :: "diagnosis_item \<Rightarrow> bool" where
  "is_extended i = (di_user_structure_id i = USI_EXT_CHANNEL_DIAGNOSIS
     \<or> di_user_structure_id i = USI_QUALIFIED_CHANNEL_DIAGNOSIS)"

definition is_qualified :: "diagnosis_item \<Rightarrow> bool" where
  "is_qualified i = (di_user_structure_id i = USI_QUALIFIED_CHANNEL_DIAGNOSIS)"

record maintenance_item =
  mi_block_type :: u16
  mi_block_length :: u16
  mi_block_version :: u16
  mi_maintenance_status :: u32

definition maintenance_required :: "maintenance_item \<Rightarrow> bool" where
  "maintenance_required i = (mi_maintenance_status i AND 0x01 \<noteq> 0)"

definition maintenance_demanded :: "maintenance_item \<Rightarrow> bool" where
  "maintenance_demanded i = (mi_maintenance_status i AND 0x02 \<noteq> 0)"

record upload_retrieval_item =
  ur_user_structure_id :: u16
  ur_block_type :: u16
  ur_block_length :: u16
  ur_block_version :: u16
  ur_record_index :: u32
  ur_record_length :: u32

definition is_upload :: "upload_retrieval_item \<Rightarrow> bool" where
  "is_upload i = (ur_user_structure_id i = USI_UPLOAD)"

definition is_retrieval :: "upload_retrieval_item \<Rightarrow> bool" where
  "is_retrieval i = (ur_user_structure_id i = USI_IPARAMETER)"

record pe_alarm_item =
  pe_block_type :: u16
  pe_block_length :: u16
  pe_block_version :: u16
  pe_operational_mode :: u8

definition mode_name :: "pe_alarm_item \<Rightarrow> string" where
  "mode_name i = get_pe_mode_name (pe_operational_mode i)"

record rs_alarm_item =
  rs_user_structure_id :: u16
  rs_alarm_info :: u16

definition rs_specifier :: "rs_alarm_item \<Rightarrow> u16" where
  "rs_specifier i = rs_alarm_info i AND 0x07FF"

definition rs_sequence_number :: "rs_alarm_item \<Rightarrow> u16" where
  "rs_sequence_number i = rs_specifier i"

record pral_alarm_item =
  pral_channel_number :: u16
  pral_channel_properties :: u16
  pral_reason :: u16
  pral_ext_reason :: u16
  pral_reason_add_value :: bytes

datatype alarm_item =
    Diagnosis diagnosis_item
  | Maintenance maintenance_item
  | UploadRetrieval upload_retrieval_item
  | Pe pe_alarm_item
  | Rs rs_alarm_item
  | Pral pral_alarm_item
  | Generic u16 bytes

fun user_structure_id :: "alarm_item \<Rightarrow> u16" where
  "user_structure_id (Diagnosis i) = di_user_structure_id i"
| "user_structure_id (Maintenance _) = USI_MAINTENANCE"
| "user_structure_id (UploadRetrieval i) = ur_user_structure_id i"
| "user_structure_id (Pe _) = USI_PE_ALARM"
| "user_structure_id (Rs i) = rs_user_structure_id i"
| "user_structure_id (Pral _) = USI_PRAL_ALARM"
| "user_structure_id (Generic usi _) = usi"

definition usi_name :: "alarm_item \<Rightarrow> string" where
  "usi_name i = get_usi_name (user_structure_id i)"

record alarm_notification =
  an_block_type :: u16
  an_block_version :: "u8 \<times> u8"
  an_alarm_type :: u16
  an_api :: u32
  an_slot_number :: u16
  an_subslot_number :: u16
  an_module_ident_number :: u32
  an_submodule_ident_number :: u32
  an_alarm_sequence_number :: u16
  an_channel_diagnosis :: bool
  an_manufacturer_specific :: bool
  an_submodule_diagnosis_state :: bool
  an_ar_diagnosis_state :: bool
  an_items :: "alarm_item list"
  an_raw_payload :: bytes

definition is_high_priority :: "alarm_notification \<Rightarrow> bool" where
  "is_high_priority a = (an_block_type a = BLOCK_ALARM_NOTIFICATION_HIGH)"

definition is_low_priority :: "alarm_notification \<Rightarrow> bool" where
  "is_low_priority a = (an_block_type a = BLOCK_ALARM_NOTIFICATION_LOW)"

definition alarm_type_name :: "alarm_notification \<Rightarrow> string" where
  "alarm_type_name a = get_alarm_type_name (an_alarm_type a)"

definition alarm_location :: "alarm_notification \<Rightarrow> string" where
  "alarm_location a =
     dec_nat (unat (an_api a)) @ '':'' @ dec_nat (unat (an_slot_number a)) @ '':0x''
     @ hex_upper 4 (unat (an_subslot_number a))"

section \<open>Parsing\<close>

datatype alarm_error =
    InsufficientUsi | TruncatedDiagnosis | TruncatedExtChannel | TruncatedQualified
  | TruncatedMaintenance | TruncatedUploadRetrieval | TruncatedPe | TruncatedRs | TruncatedPral
  | NotificationTooShort

type_synonym item_result = "(alarm_error + alarm_item \<times> nat) option"

definition parse_diagnosis_item :: "bytes \<Rightarrow> nat \<Rightarrow> u16 \<Rightarrow> item_result" where
  "parse_diagnosis_item data offset usi =
     (if length data < offset + 6 then Some (Inl TruncatedDiagnosis)
      else do {
        cn \<leftarrow> be16_at data offset;
        cp \<leftarrow> be16_at data (offset + 2);
        ct \<leftarrow> be16_at data (offset + 4);
        (let item = \<lparr>di_user_structure_id = usi, di_channel_number = cn, di_channel_properties = cp,
               di_channel_error_type = ct, di_ext_channel_error_type = 0, di_ext_channel_add_value = 0,
               di_qualified_channel_qualifier = 0\<rparr>;
             off1 = offset + 6 in
         (if usi = USI_EXT_CHANNEL_DIAGNOSIS \<or> usi = USI_QUALIFIED_CHANNEL_DIAGNOSIS then
            (if length data < off1 + 6 then Some (Inl TruncatedExtChannel)
             else do {
               et \<leftarrow> be16_at data off1;
               av \<leftarrow> be32_at data (off1 + 2);
               (let item1 = item\<lparr>di_ext_channel_error_type := et, di_ext_channel_add_value := av\<rparr>;
                    off2 = off1 + 6 in
                (if usi = USI_QUALIFIED_CHANNEL_DIAGNOSIS then
                   (if length data < off2 + 4 then Some (Inl TruncatedQualified)
                    else do {
                      q \<leftarrow> be32_at data off2;
                      Some (Inr (Diagnosis (item1\<lparr>di_qualified_channel_qualifier := q\<rparr>), off2 + 4)) })
                 else Some (Inr (Diagnosis item1, off2)))) })
          else Some (Inr (Diagnosis item, off1)))) })"

definition parse_maintenance_item :: "bytes \<Rightarrow> nat \<Rightarrow> item_result" where
  "parse_maintenance_item data offset =
     (if length data < offset + 12 then Some (Inl TruncatedMaintenance)
      else do {
        bt \<leftarrow> be16_at data offset;
        bl \<leftarrow> be16_at data (offset + 2);
        bv \<leftarrow> be16_at data (offset + 4);
        ms \<leftarrow> be32_at data (offset + 6 + 2);
        Some (Inr (Maintenance \<lparr>mi_block_type = bt, mi_block_length = bl, mi_block_version = bv,
           mi_maintenance_status = ms\<rparr>, offset + 6 + 2 + 4)) })"

definition parse_upload_retrieval_item :: "bytes \<Rightarrow> nat \<Rightarrow> u16 \<Rightarrow> item_result" where
  "parse_upload_retrieval_item data offset usi =
     (if length data < offset + 16 then Some (Inl TruncatedUploadRetrieval)
      else do {
        bt \<leftarrow> be16_at data offset;
        bl \<leftarrow> be16_at data (offset + 2);
        bv \<leftarrow> be16_at data (offset + 4);
        ri \<leftarrow> be32_at data (offset + 6 + 2);
        rl \<leftarrow> be32_at data (offset + 6 + 2 + 4);
        Some (Inr (UploadRetrieval \<lparr>ur_user_structure_id = usi, ur_block_type = bt, ur_block_length = bl,
           ur_block_version = bv, ur_record_index = ri, ur_record_length = rl\<rparr>, offset + 6 + 2 + 8)) })"

definition parse_pe_alarm_item :: "bytes \<Rightarrow> nat \<Rightarrow> item_result" where
  "parse_pe_alarm_item data offset =
     (if length data < offset + 7 then Some (Inl TruncatedPe)
      else do {
        bt \<leftarrow> be16_at data offset;
        bl \<leftarrow> be16_at data (offset + 2);
        bv \<leftarrow> be16_at data (offset + 4);
        m \<leftarrow> idx data (offset + 6);
        Some (Inr (Pe \<lparr>pe_block_type = bt, pe_block_length = bl, pe_block_version = bv,
           pe_operational_mode = m\<rparr>, offset + 6 + 1)) })"

definition parse_rs_alarm_item :: "bytes \<Rightarrow> nat \<Rightarrow> u16 \<Rightarrow> item_result" where
  "parse_rs_alarm_item data offset usi =
     (if length data < offset + 2 then Some (Inl TruncatedRs)
      else do {
        i \<leftarrow> be16_at data offset;
        Some (Inr (Rs \<lparr>rs_user_structure_id = usi, rs_alarm_info = i\<rparr>, offset + 2)) })"

definition parse_pral_alarm_item :: "bytes \<Rightarrow> nat \<Rightarrow> item_result" where
  "parse_pral_alarm_item data offset =
     (if length data < offset + 8 then Some (Inl TruncatedPral)
      else do {
        cn \<leftarrow> be16_at data offset;
        cp \<leftarrow> be16_at data (offset + 2);
        r \<leftarrow> be16_at data (offset + 4);
        er \<leftarrow> be16_at data (offset + 6);
        av \<leftarrow> slice_from data (offset + 8);
        Some (Inr (Pral \<lparr>pral_channel_number = cn, pral_channel_properties = cp, pral_reason = r,
           pral_ext_reason = er, pral_reason_add_value = av\<rparr>, length data)) })"

definition parse_alarm_item :: "bytes \<Rightarrow> nat \<Rightarrow> item_result" where
  "parse_alarm_item data offset0 =
     (if length data < offset0 + 2 then Some (Inl InsufficientUsi)
      else do {
        usi \<leftarrow> be16_at data offset0;
        (let offset = offset0 + 2 in
         if usi = USI_CHANNEL_DIAGNOSIS \<or> usi = USI_EXT_CHANNEL_DIAGNOSIS \<or> usi = USI_QUALIFIED_CHANNEL_DIAGNOSIS
           then parse_diagnosis_item data offset usi
         else if usi = USI_MAINTENANCE then parse_maintenance_item data offset
         else if usi = USI_UPLOAD \<or> usi = USI_IPARAMETER then parse_upload_retrieval_item data offset usi
         else if usi = USI_RS_ALARM_LOW \<or> usi = USI_RS_ALARM_HIGH \<or> usi = USI_RS_ALARM_SUBMODULE
           then parse_rs_alarm_item data offset usi
         else if usi = USI_PE_ALARM then parse_pe_alarm_item data offset
         else if usi = USI_PRAL_ALARM then parse_pral_alarm_item data offset
         else do { raw \<leftarrow> slice_from data offset; Some (Inr (Generic usi raw, length data)) }) })"

text \<open>An item lies inside the data and the walk moves by at least its USI word.\<close>

lemmas item_parsers = parse_diagnosis_item_def parse_maintenance_item_def parse_upload_retrieval_item_def
  parse_pe_alarm_item_def parse_rs_alarm_item_def parse_pral_alarm_item_def

lemma parse_alarm_item_runs:
  "runs (parse_alarm_item data offset)
     (\<lambda>r. \<forall>item next. r = Inr (item, next) \<longrightarrow> offset + 2 \<le> next \<and> next \<le> length data)"
  by (auto simp: parse_alarm_item_def item_parsers Let_def runs_bind)

lemma parse_alarm_item_next:
  "parse_alarm_item data offset = Some (Inr (item, next)) \<Longrightarrow> offset + 2 \<le> next \<and> next \<le> length data"
  using parse_alarm_item_runs [of data offset] by simp

function item_walk :: "bytes \<Rightarrow> nat \<Rightarrow> alarm_item list option" where
  "item_walk payload item_offset =
     (if item_offset < length payload then do {
        r \<leftarrow> parse_alarm_item payload item_offset;
        (case r of
           Inl _ \<Rightarrow> Some []
         | Inr (item, next) \<Rightarrow> do { items \<leftarrow> item_walk payload next; Some (item # items) }) }
      else Some [])"
  by pat_completeness auto
termination
  by (relation "measure (\<lambda>(p, off). length p - off)") (auto dest!: parse_alarm_item_next)

declare item_walk.simps [simp del]

definition ALARM_BODY_LEN :: nat where "ALARM_BODY_LEN = 20"

text \<open>What follows the block header, once \<open>data\<close> is cut to the block.\<close>

definition parse_alarm_body :: "u16 \<Rightarrow> u8 \<Rightarrow> u8 \<Rightarrow> bytes \<Rightarrow> alarm_notification option" where
  "parse_alarm_body block_type ver_high ver_low data = do {
     alarm_type \<leftarrow> be16_at data 6;
     api \<leftarrow> be32_at data 8;
     slot_number \<leftarrow> be16_at data 12;
     subslot_number \<leftarrow> be16_at data 14;
     module_ident \<leftarrow> be32_at data 16;
     submodule_ident \<leftarrow> be32_at data 20;
     alarm_specifier \<leftarrow> be16_at data 24;
     payload \<leftarrow> slice_from data (6 + ALARM_BODY_LEN);
     items \<leftarrow> item_walk payload 0;
     Some \<lparr>an_block_type = block_type, an_block_version = (ver_high, ver_low),
       an_alarm_type = alarm_type, an_api = api, an_slot_number = slot_number,
       an_subslot_number = subslot_number, an_module_ident_number = module_ident,
       an_submodule_ident_number = submodule_ident,
       an_alarm_sequence_number = alarm_specifier AND 0x07FF,
       an_channel_diagnosis = (alarm_specifier AND 0x0800 \<noteq> 0),
       an_manufacturer_specific = (alarm_specifier AND 0x1000 \<noteq> 0),
       an_submodule_diagnosis_state = (alarm_specifier AND 0x2000 \<noteq> 0),
       an_ar_diagnosis_state = (alarm_specifier AND 0x8000 \<noteq> 0),
       an_items = items, an_raw_payload = payload\<rparr> }"

definition parse_alarm_notification :: "bytes \<Rightarrow> (alarm_error + alarm_notification) option" where
  "parse_alarm_notification data0 =
     (if length data0 < 6 + ALARM_BODY_LEN then Some (Inl NotificationTooShort)
      else do {
        block_type \<leftarrow> be16_at data0 0;
        ver_high \<leftarrow> idx data0 4;
        ver_low \<leftarrow> idx data0 5;
        bl \<leftarrow> be16_at data0 2;
        (let block_end = 4 + unat bl in do {
           data \<leftarrow> (if 6 + ALARM_BODY_LEN \<le> block_end \<and> block_end < length data0
                   then sub_slice data0 0 block_end else Some data0);
           a \<leftarrow> parse_alarm_body block_type ver_high ver_low data;
           Some (Inr a) }) })"

function cr_res_walk :: "bytes \<Rightarrow> nat \<Rightarrow> u16 option option" where
  "cr_res_walk response_data offset =
     (if offset + 6 \<le> length response_data then do {
        block_type \<leftarrow> be16_at response_data offset;
        block_length \<leftarrow> be16_at response_data (offset + 2);
        (if block_type = BLOCK_ALARM_CR_RES \<and> offset + 12 \<le> length response_data
         then do { r \<leftarrow> be16_at response_data (offset + 8); Some (Some r) }
         else cr_res_walk response_data (offset + (4 + unat block_length))) }
      else Some None)"
  by pat_completeness auto
termination
  by (relation "measure (\<lambda>(d, off). length d - off)") auto

declare cr_res_walk.simps [simp del]

definition parse_alarm_cr_res :: "bytes \<Rightarrow> u16 option option" where
  "parse_alarm_cr_res response_data = cr_res_walk response_data 0"

section \<open>No bytes make a parser panic\<close>

lemma item_walk_runs: "runs (item_walk payload off) (\<lambda>items. 2 * length items \<le> length payload - off)"
proof (induction payload off rule: item_walk.induct)
  case (1 payload off)
  show ?case
  proof (cases "off < length payload")
    case True
    obtain r where r: "parse_alarm_item payload off = Some r"
      and ok: "\<forall>item next. r = Inr (item, next) \<longrightarrow> off + 2 \<le> next \<and> next \<le> length payload"
      using parse_alarm_item_runs [of payload off] by (auto simp: runs_iff)
    show ?thesis
    proof (cases r)
      case (Inl e)
      then show ?thesis using True r by (subst item_walk.simps) simp
    next
      case (Inr p)
      obtain item "next" where p: "p = (item, next)" by (cases p) auto
      have "runs (item_walk payload next) (\<lambda>items. 2 * length items \<le> length payload - next)"
        using 1 True r Inr p by blast
      then have "runs (item_walk payload next) (\<lambda>items. 2 * length (item # items) \<le> length payload - off)"
        by (rule runs_mono) (use ok Inr p in auto)
      then show ?thesis using True r Inr p by (subst item_walk.simps) (simp add: runs_bind)
    qed
  next
    case False
    then show ?thesis by (subst item_walk.simps) simp
  qed
qed

lemma cr_res_walk_total: "\<exists>r. cr_res_walk d off = Some r"
proof (induction d off rule: cr_res_walk.induct)
  case (1 d off)
  show ?case
  proof (cases "off + 6 \<le> length d")
    case True
    have b: "be16_at d off = Some (rd16 d off)" "be16_at d (off + 2) = Some (rd16 d (off + 2))"
      using True by simp_all
    show ?thesis using 1 [OF True b] True b by (subst cr_res_walk.simps) simp
  next
    case False
    then show ?thesis by (subst cr_res_walk.simps) simp
  qed
qed

lemma parse_alarm_body_runs:
  assumes "26 \<le> length d"
  shows "runs (parse_alarm_body t h l d) (\<lambda>a. 2 * length (an_items a) \<le> length (an_raw_payload a)
    \<and> length (an_raw_payload a) + 26 = length d)"
proof -
  obtain items where "item_walk (drop 26 d) 0 = Some items" "2 * length items \<le> length d - 26"
    using item_walk_runs [of "drop 26 d" 0] by (auto simp: runs_iff)
  then show ?thesis using assms by (simp add: parse_alarm_body_def ALARM_BODY_LEN_def)
qed

lemma parse_alarm_notification_cut:
  assumes "26 \<le> length d"
  shows "parse_alarm_notification d = Option.bind
    (parse_alarm_body (rd16 d 0) (d ! 4) (d ! 5)
      (if 26 \<le> 4 + unat (rd16 d 2) \<and> 4 + unat (rd16 d 2) < length d then take (4 + unat (rd16 d 2)) d else d))
    (\<lambda>a. Some (Inr a))"
proof -
  have "d \<noteq> []" using assms by auto
  then show ?thesis
    using assms by (simp add: parse_alarm_notification_def ALARM_BODY_LEN_def Let_def)
qed

lemma parse_alarm_notification_runs:
  "runs (parse_alarm_notification d)
     (\<lambda>r. \<forall>a. r = Inr a \<longrightarrow> 2 * length (an_items a) \<le> length (an_raw_payload a)
        \<and> length (an_raw_payload a) + 26 \<le> length d)"
proof (cases "length d < 26")
  case True
  then show ?thesis by (simp add: parse_alarm_notification_def ALARM_BODY_LEN_def)
next
  case False
  define d1 where "d1 = (if 26 \<le> 4 + unat (rd16 d 2) \<and> 4 + unat (rd16 d 2) < length d
    then take (4 + unat (rd16 d 2)) d else d)"
  have l: "26 \<le> length d1" "length d1 \<le> length d" using False by (simp_all add: d1_def)
  have e: "parse_alarm_notification d =
      Option.bind (parse_alarm_body (rd16 d 0) (d ! 4) (d ! 5) d1) (\<lambda>a. Some (Inr a))"
    using False by (simp only: d1_def) (rule parse_alarm_notification_cut, simp)
  have "runs (parse_alarm_body (rd16 d 0) (d ! 4) (d ! 5) d1) (\<lambda>a. 2 * length (an_items a) \<le> length (an_raw_payload a)
    \<and> length (an_raw_payload a) + 26 \<le> length d)"
    by (rule runs_mono [OF parse_alarm_body_runs [OF l(1)]]) (use l(2) in auto)
  then show ?thesis by (simp add: e runs_bind)
qed

text \<open>
  No alarm bytes make a parser panic or produce items out of nothing: the notification
  parser and the connect-response scan return for every input, and the items of a parsed
  notification consume at least two bytes each of a payload that lies inside the input.
\<close>

theorem alarm_parsers_total:
  "runs (parse_alarm_notification d)
     (\<lambda>r. \<forall>a. r = Inr a \<longrightarrow> 2 * length (an_items a) \<le> length (an_raw_payload a)
        \<and> length (an_raw_payload a) + 26 \<le> length d)
   \<and> parse_alarm_cr_res d \<noteq> None"
  using parse_alarm_notification_runs cr_res_walk_total by (auto simp: parse_alarm_cr_res_def)

definition sample_alarm :: bytes where
  "sample_alarm = [0,1, 0,26, 1,0, 0,1, 0,0,0,0, 0,1, 0,1, 0,0,0,1, 0,0,0,1, 8,5, 0x83,0x00, 0,5]"

lemma sample_alarm_parsed:
  "(case parse_alarm_notification sample_alarm of Some (Inr a) \<Rightarrow>
      an_items a = [Rs \<lparr>rs_user_structure_id = 0x8300, rs_alarm_info = 5\<rparr>] | _ \<Rightarrow> False)"
  by code_simp

lemma alarm_parsers_total_witness:
  "\<exists>a. parse_alarm_notification sample_alarm = Some (Inr a) \<and> length (an_items a) = 1
     \<and> length (an_raw_payload a) + 26 \<le> length sample_alarm"
  using alarm_parsers_total [of sample_alarm] sample_alarm_parsed
  by (auto simp: runs_iff split: option.splits sum.splits)

section \<open>What a device sends is what is parsed\<close>

text \<open>The wire form of an item, and the fields an item of each kind can carry.\<close>

fun enc_item :: "alarm_item \<Rightarrow> bytes" where
  "enc_item (Diagnosis i) = to_be16 (di_user_structure_id i) @ to_be16 (di_channel_number i)
     @ to_be16 (di_channel_properties i) @ to_be16 (di_channel_error_type i)
     @ (if is_extended i then to_be16 (di_ext_channel_error_type i) @ to_be32 (di_ext_channel_add_value i) else [])
     @ (if is_qualified i then to_be32 (di_qualified_channel_qualifier i) else [])"
| "enc_item (Maintenance i) = to_be16 USI_MAINTENANCE @ to_be16 (mi_block_type i)
     @ to_be16 (mi_block_length i) @ to_be16 (mi_block_version i) @ [0, 0] @ to_be32 (mi_maintenance_status i)"
| "enc_item (UploadRetrieval i) = to_be16 (ur_user_structure_id i) @ to_be16 (ur_block_type i)
     @ to_be16 (ur_block_length i) @ to_be16 (ur_block_version i) @ [0, 0]
     @ to_be32 (ur_record_index i) @ to_be32 (ur_record_length i)"
| "enc_item (Pe i) = to_be16 USI_PE_ALARM @ to_be16 (pe_block_type i)
     @ to_be16 (pe_block_length i) @ to_be16 (pe_block_version i) @ [pe_operational_mode i]"
| "enc_item (Rs i) = to_be16 (rs_user_structure_id i) @ to_be16 (rs_alarm_info i)"
| "enc_item (Pral i) = to_be16 USI_PRAL_ALARM @ to_be16 (pral_channel_number i)
     @ to_be16 (pral_channel_properties i) @ to_be16 (pral_reason i) @ to_be16 (pral_ext_reason i)
     @ pral_reason_add_value i"
| "enc_item (Generic usi raw) = to_be16 usi @ raw"

definition known_usis :: "u16 list" where
  "known_usis = [USI_CHANNEL_DIAGNOSIS, USI_EXT_CHANNEL_DIAGNOSIS, USI_QUALIFIED_CHANNEL_DIAGNOSIS,
     USI_MAINTENANCE, USI_UPLOAD, USI_IPARAMETER, USI_RS_ALARM_LOW, USI_RS_ALARM_HIGH,
     USI_RS_ALARM_SUBMODULE, USI_PE_ALARM, USI_PRAL_ALARM]"

fun item_ok :: "alarm_item \<Rightarrow> bool" where
  "item_ok (Diagnosis i) \<longleftrightarrow>
     di_user_structure_id i \<in> {USI_CHANNEL_DIAGNOSIS, USI_EXT_CHANNEL_DIAGNOSIS, USI_QUALIFIED_CHANNEL_DIAGNOSIS}
     \<and> (\<not> is_extended i \<longrightarrow> di_ext_channel_error_type i = 0 \<and> di_ext_channel_add_value i = 0)
     \<and> (\<not> is_qualified i \<longrightarrow> di_qualified_channel_qualifier i = 0)"
| "item_ok (UploadRetrieval i) \<longleftrightarrow> ur_user_structure_id i \<in> {USI_UPLOAD, USI_IPARAMETER}"
| "item_ok (Rs i) \<longleftrightarrow> rs_user_structure_id i \<in> {USI_RS_ALARM_LOW, USI_RS_ALARM_HIGH, USI_RS_ALARM_SUBMODULE}"
| "item_ok (Generic usi _) \<longleftrightarrow> usi \<notin> set known_usis"
| "item_ok _ \<longleftrightarrow> True"

text \<open>Two kinds take whatever follows them, so only the end of the payload delimits them.\<close>

fun open_ended :: "alarm_item \<Rightarrow> bool" where
  "open_ended (Pral _) = True"
| "open_ended (Generic _ _) = True"
| "open_ended _ = False"

lemmas usi_defs = USI_CHANNEL_DIAGNOSIS_def USI_EXT_CHANNEL_DIAGNOSIS_def USI_QUALIFIED_CHANNEL_DIAGNOSIS_def
  USI_MAINTENANCE_def USI_UPLOAD_def USI_IPARAMETER_def USI_RS_ALARM_LOW_def USI_RS_ALARM_HIGH_def
  USI_RS_ALARM_SUBMODULE_def USI_PE_ALARM_def USI_PRAL_ALARM_def

lemma length_enc_item: "2 \<le> length (enc_item i)"
  by (cases i) simp_all

lemma parse_enc_item:
  assumes "item_ok i" and "open_ended i \<longrightarrow> rest = []"
  shows "parse_alarm_item (pre @ enc_item i @ rest) (length pre)
    = Some (Inr (i, length pre + length (enc_item i)))"
proof (cases i)
  case (Diagnosis d)
  then show ?thesis using assms
    by (cases d) (auto simp: parse_alarm_item_def parse_diagnosis_item_def usi_defs is_extended_def
      is_qualified_def Let_def wire_simps)
next
  case (Generic u r)
  then show ?thesis using assms
    by (auto simp: parse_alarm_item_def usi_defs known_usis_def wire_simps Let_def)
qed (use assms in \<open>auto simp: parse_alarm_item_def item_parsers usi_defs wire_simps Let_def nth_append\<close>)

fun items_ok :: "alarm_item list \<Rightarrow> bool" where
  "items_ok [] \<longleftrightarrow> True"
| "items_ok (i # is') \<longleftrightarrow> item_ok i \<and> (open_ended i \<longrightarrow> is' = []) \<and> items_ok is'"

lemma item_walk_enc:
  "items_ok items \<Longrightarrow> item_walk (pre @ concat (map enc_item items)) (length pre) = Some items"
proof (induction items arbitrary: pre)
  case Nil
  then show ?case by (subst item_walk.simps) simp
next
  case (Cons i items)
  let ?rest = "concat (map enc_item items)"
  have "parse_alarm_item (pre @ enc_item i @ ?rest) (length pre) = Some (Inr (i, length pre + length (enc_item i)))"
    using Cons.prems by (intro parse_enc_item) auto
  moreover have "item_walk ((pre @ enc_item i) @ ?rest) (length (pre @ enc_item i)) = Some items"
    using Cons.prems by (intro Cons.IH) simp
  moreover have "length pre < length (pre @ enc_item i @ ?rest)" using length_enc_item [of i] by (cases "enc_item i") simp_all
  ultimately show ?case by (subst item_walk.simps) simp
qed

definition alarm_specifier_bits :: "alarm_notification \<Rightarrow> u16" where
  "alarm_specifier_bits a = (an_alarm_sequence_number a AND 0x07FF)
     OR (if an_channel_diagnosis a then 0x0800 else 0)
     OR (if an_manufacturer_specific a then 0x1000 else 0)
     OR (if an_submodule_diagnosis_state a then 0x2000 else 0)
     OR (if an_ar_diagnosis_state a then 0x8000 else 0)"

definition enc_alarm :: "alarm_notification \<Rightarrow> bytes" where
  "enc_alarm a =
     to_be16 (an_block_type a) @ to_be16 (as_u16 (22 + length (an_raw_payload a)))
     @ [fst (an_block_version a), snd (an_block_version a)]
     @ to_be16 (an_alarm_type a) @ to_be32 (an_api a) @ to_be16 (an_slot_number a)
     @ to_be16 (an_subslot_number a) @ to_be32 (an_module_ident_number a)
     @ to_be32 (an_submodule_ident_number a) @ to_be16 (alarm_specifier_bits a) @ an_raw_payload a"

definition alarm_ok :: "alarm_notification \<Rightarrow> bool" where
  "alarm_ok a \<longleftrightarrow> items_ok (an_items a) \<and> an_raw_payload a = concat (map enc_item (an_items a))
     \<and> length (an_raw_payload a) + 22 < 65536 \<and> an_alarm_sequence_number a AND 0x07FF = an_alarm_sequence_number a"

lemma specifier_bits:
  "alarm_specifier_bits a AND 0x07FF = an_alarm_sequence_number a AND 0x07FF"
  "alarm_specifier_bits a AND 0x0800 \<noteq> 0 \<longleftrightarrow> an_channel_diagnosis a"
  "alarm_specifier_bits a AND 0x1000 \<noteq> 0 \<longleftrightarrow> an_manufacturer_specific a"
  "alarm_specifier_bits a AND 0x2000 \<noteq> 0 \<longleftrightarrow> an_submodule_diagnosis_state a"
  "alarm_specifier_bits a AND 0x8000 \<noteq> 0 \<longleftrightarrow> an_ar_diagnosis_state a"
  by (auto simp: alarm_specifier_bits_def bit.conj_disj_distrib2 and.assoc)

lemma parse_body_enc:
  assumes "alarm_ok a"
  shows "parse_alarm_body (an_block_type a) (fst (an_block_version a)) (snd (an_block_version a)) (enc_alarm a) = Some a"
proof -
  have w: "item_walk (an_raw_payload a) 0 = Some (an_items a)"
    using assms item_walk_enc [of "an_items a" "[]"] by (simp add: alarm_ok_def)
  have d: "drop 26 (enc_alarm a) = an_raw_payload a"
    by (simp add: enc_alarm_def to_be16_def to_be32_def)
  have l: "26 \<le> length (enc_alarm a)" by (simp add: enc_alarm_def)
  have r: "rd16 (enc_alarm a) 6 = an_alarm_type a" "rd32 (enc_alarm a) 8 = an_api a"
    "rd16 (enc_alarm a) 12 = an_slot_number a" "rd16 (enc_alarm a) 14 = an_subslot_number a"
    "rd32 (enc_alarm a) 16 = an_module_ident_number a" "rd32 (enc_alarm a) 20 = an_submodule_ident_number a"
    "rd16 (enc_alarm a) 24 = alarm_specifier_bits a"
    by (simp_all add: enc_alarm_def wire_simps)
  have q: "an_alarm_sequence_number a AND 0x07FF = an_alarm_sequence_number a" using assms by (simp add: alarm_ok_def)
  show ?thesis
    using l by (simp add: parse_alarm_body_def ALARM_BODY_LEN_def r d w specifier_bits q)
qed

lemma parse_enc_alarm:
  assumes "alarm_ok a"
  shows "parse_alarm_notification (enc_alarm a @ pad) = Some (Inr a)"
proof -
  let ?d = "enc_alarm a @ pad"
  have l: "length (enc_alarm a) = 26 + length (an_raw_payload a)" by (simp add: enc_alarm_def)
  have "length (an_raw_payload a) + 22 < 65536" using assms unfolding alarm_ok_def by blast
  then have n: "unat (rd16 ?d 2) = 22 + length (an_raw_payload a)"
    by (simp add: enc_alarm_def wire_simps)
  have h: "rd16 ?d 0 = an_block_type a" "?d ! 4 = fst (an_block_version a)" "?d ! 5 = snd (an_block_version a)"
    by (simp_all add: enc_alarm_def wire_simps) (simp_all add: to_be16_def)
  have c: "(if 26 \<le> 4 + unat (rd16 ?d 2) \<and> 4 + unat (rd16 ?d 2) < length ?d then take (4 + unat (rd16 ?d 2)) ?d else ?d)
      = enc_alarm a"
    using l n by (cases "pad = []") simp_all
  have "26 \<le> length ?d" using l by simp
  then show ?thesis
    by (simp only: parse_alarm_notification_cut c h parse_body_enc [OF assms] bind.bind_lunit)
qed

interpretation alarm: wire_codec "\<lambda>a. enc_alarm a @ pad" parse_alarm_notification alarm_ok for pad
  by unfold_locales (rule parse_enc_alarm)

text \<open>
  C17: An alarm is read as it was sent: a notification with any sequence of items, each kind with
  its own layout, is parsed back to exactly the record it encodes, and the padding a sender adds
  behind the block yields no items.
\<close>

theorem alarm_roundtrip:
  assumes "alarm_ok a"
  shows "parse_alarm_notification (enc_alarm a @ pad) = Some (Inr a)"
  using assms by (rule alarm.dec_enc)

definition sample_notification :: alarm_notification where
  "sample_notification = \<lparr>an_block_type = 2, an_block_version = (1, 0), an_alarm_type = 1, an_api = 0,
     an_slot_number = 3, an_subslot_number = 1, an_module_ident_number = 16, an_submodule_ident_number = 17,
     an_alarm_sequence_number = 5, an_channel_diagnosis = True, an_manufacturer_specific = False,
     an_submodule_diagnosis_state = True, an_ar_diagnosis_state = False,
     an_items = [Diagnosis \<lparr>di_user_structure_id = 0x8002, di_channel_number = 0x8000,
         di_channel_properties = 0x0800, di_channel_error_type = 6, di_ext_channel_error_type = 7,
         di_ext_channel_add_value = 9, di_qualified_channel_qualifier = 0\<rparr>, Generic 0x0001 [4, 5]],
     an_raw_payload = [0x80, 0x02, 0x80, 0, 8, 0, 0, 6, 0, 7, 0, 0, 0, 9, 0, 1, 4, 5]\<rparr>"

lemma sample_notification_ok: "alarm_ok sample_notification"
  by (simp add: alarm_ok_def sample_notification_def known_usis_def usi_defs is_extended_def is_qualified_def
      to_be16_def to_be32_def)

lemma alarm_roundtrip_witness:
  "parse_alarm_notification (enc_alarm sample_notification @ replicate 20 0) = Some (Inr sample_notification)"
  by (rule alarm_roundtrip [OF sample_notification_ok])

end
