(* ===== verification/Rta.thy ===== *)
theory Rta
  imports Util Alarms
begin

text \<open>
  Model of \<open>src/alarm_listener.rs\<close>: the RTA header, the acknowledge frames, the sequence
  counters, the per-priority channel with its one-PDU send window, and the listener thread.
  Instants and durations are microseconds. The socket is an oracle: what a receive with a given
  timeout delivers is an argument, and every frame handed to \<open>send\<close> (whose result the code
  discards) is a log entry, as is every callback invocation.
\<close>

definition FRAME_ID_ALARM_HIGH :: u16 where "FRAME_ID_ALARM_HIGH = 0xFC01"
definition FRAME_ID_ALARM_LOW :: u16 where "FRAME_ID_ALARM_LOW = 0xFE01"
definition ETHERTYPE_PROFINET :: u16 where "ETHERTYPE_PROFINET = 0x8892"
definition ADD_FLAGS_WINDOW_1 :: u8 where "ADD_FLAGS_WINDOW_1 = 0x01"
definition ADD_FLAGS_TACK :: u8 where "ADD_FLAGS_TACK = 0x10"
definition SEQ_NUM_INIT :: u16 where "SEQ_NUM_INIT = 0xFFFF"
definition SEQ_NUM_INIT_O :: u16 where "SEQ_NUM_INIT_O = 0xFFFE"
definition SEQ_NUM_MASK :: u16 where "SEQ_NUM_MASK = 0x7FFF"
definition VLAN_TAG_ALARM_HIGH :: bytes where "VLAN_TAG_ALARM_HIGH = [0x81, 0x00, 0xC0, 0x00]"
definition VLAN_TAG_ALARM_LOW :: bytes where "VLAN_TAG_ALARM_LOW = [0x81, 0x00, 0xA0, 0x00]"

section \<open>RTA header\<close>

record rta_header =
  rh_alarm_dst_endpoint :: u16
  rh_alarm_src_endpoint :: u16
  rh_pdu_type :: u8
  rh_add_flags :: u8
  rh_send_seq_num :: u16
  rh_ack_seq_num :: u16
  rh_var_part_len :: u16

definition RTA_SIZE :: nat where "RTA_SIZE = 12"
definition RTA_TYPE_DATA :: u8 where "RTA_TYPE_DATA = 0x01"
definition RTA_TYPE_NACK :: u8 where "RTA_TYPE_NACK = 0x02"
definition RTA_TYPE_ACK :: u8 where "RTA_TYPE_ACK = 0x03"
definition RTA_TYPE_ERR :: u8 where "RTA_TYPE_ERR = 0x04"
definition VERSION_1 :: u8 where "VERSION_1 = 0x01"

definition rta_kind :: "rta_header \<Rightarrow> u8" where
  "rta_kind h = rh_pdu_type h AND 0x0F"

definition rta_version :: "rta_header \<Rightarrow> u8" where
  "rta_version h = drop_bit 4 (rh_pdu_type h) AND 0x0F"

definition encode_pdu_type :: "u8 \<Rightarrow> u8 \<Rightarrow> u8" where
  "encode_pdu_type version kind = push_bit 4 (version AND 0x0F) OR (kind AND 0x0F)"

datatype rta_error = RtaHeaderTooShort | RtaAlarm alarm_error

definition rta_from_bytes :: "bytes \<Rightarrow> (rta_error + rta_header) option" where
  "rta_from_bytes data =
     (if length data < RTA_SIZE then Some (Inl RtaHeaderTooShort)
      else do {
        d \<leftarrow> be16_at data 0;
        s \<leftarrow> be16_at data 2;
        t \<leftarrow> idx data 4;
        f \<leftarrow> idx data 5;
        sn \<leftarrow> be16_at data 6;
        an \<leftarrow> be16_at data 8;
        v \<leftarrow> be16_at data 10;
        Some (Inr \<lparr>rh_alarm_dst_endpoint = d, rh_alarm_src_endpoint = s, rh_pdu_type = t, rh_add_flags = f,
          rh_send_seq_num = sn, rh_ack_seq_num = an, rh_var_part_len = v\<rparr>) })"

definition rta_to_bytes :: "rta_header \<Rightarrow> bytes" where
  "rta_to_bytes h = to_be16 (rh_alarm_dst_endpoint h) @ to_be16 (rh_alarm_src_endpoint h)
     @ [rh_pdu_type h, rh_add_flags h] @ to_be16 (rh_send_seq_num h) @ to_be16 (rh_ack_seq_num h)
     @ to_be16 (rh_var_part_len h)"

record alarm_endpoint =
  ep_interface :: string
  ep_controller_ref :: u16
  ep_device_ref :: u16
  ep_device_mac :: bytes
  ep_transport :: u16
  ep_rta_timeout_factor :: u16
  ep_rta_retries :: u16

definition alarm_endpoint_default :: alarm_endpoint where
  "alarm_endpoint_default = \<lparr>ep_interface = [], ep_controller_ref = 0, ep_device_ref = 0,
     ep_device_mac = replicate 6 0, ep_transport = 0, ep_rta_timeout_factor = 1, ep_rta_retries = 3\<rparr>"

section \<open>Frames\<close>

definition check_layer2_frame :: "bytes \<Rightarrow> bytes \<Rightarrow> (bool \<times> bytes) option option" where
  "check_layer2_frame data device_mac =
     (if length data < 14 then Some None
      else do {
        src \<leftarrow> sub_slice data 6 12;
        (if src \<noteq> device_mac then Some None
         else do {
           at \<leftarrow> skip_vlan_tags data;
           (let tag = at - 12 in
            if length data < 16 + tag then Some None
            else do {
              ethertype \<leftarrow> be16_at data (12 + tag);
              (if ethertype \<noteq> ETHERTYPE_PROFINET then Some None
               else do {
                 frame_id \<leftarrow> be16_at data (14 + tag);
                 (if frame_id = FRAME_ID_ALARM_HIGH
                  then do { p \<leftarrow> slice_from data (16 + tag); Some (Some (True, p)) }
                  else if frame_id = FRAME_ID_ALARM_LOW
                  then do { p \<leftarrow> slice_from data (16 + tag); Some (Some (False, p)) }
                  else Some None) }) }) }) })"

definition process_layer2_alarm ::
    "bytes \<Rightarrow> u16 \<Rightarrow> (rta_error + (rta_header option \<times> alarm_notification) option) option" where
  "process_layer2_alarm payload controller_ref =
     (if RTA_SIZE \<le> length payload then do {
        r \<leftarrow> rta_from_bytes payload;
        (case r of
           Inl e \<Rightarrow> Some (Inl e)
         | Inr rta \<Rightarrow>
             (if rh_alarm_dst_endpoint rta \<noteq> controller_ref then Some (Inr None)
              else if rta_version rta \<noteq> VERSION_1 then Some (Inr None)
              else if rta_kind rta \<noteq> RTA_TYPE_DATA then Some (Inr None)
              else do {
                alarm_data \<leftarrow> slice_from payload RTA_SIZE;
                a \<leftarrow> parse_alarm_notification alarm_data;
                Some (case a of Inl e \<Rightarrow> Inl (RtaAlarm e) | Inr alarm \<Rightarrow> Inr (Some (Some rta, alarm))) })) }
      else do {
        a \<leftarrow> parse_alarm_notification payload;
        Some (case a of Inl e \<Rightarrow> Inl (RtaAlarm e) | Inr alarm \<Rightarrow> Inr (Some (None, alarm))) })"

definition build_alarm_ack :: "alarm_notification \<Rightarrow> bytes" where
  "build_alarm_ack alarm =
     (let block_type = (if is_high_priority alarm then 0x8001 else 0x8002) :: u16;
          block_length = 18 :: u16;
          alarm_specifier = (an_alarm_sequence_number alarm AND 0x07FF)
            OR (if an_channel_diagnosis alarm then 0x0800 else 0)
            OR (if an_manufacturer_specific alarm then 0x1000 else 0)
            OR (if an_submodule_diagnosis_state alarm then 0x2000 else 0)
            OR (if an_ar_diagnosis_state alarm then 0x8000 else 0)
      in to_be16 block_type @ to_be16 block_length @ [0x01] @ [0x00] @ to_be16 (an_alarm_type alarm)
         @ to_be32 (an_api alarm) @ to_be16 (an_slot_number alarm) @ to_be16 (an_subslot_number alarm)
         @ to_be16 alarm_specifier @ to_be32 0)"

record rta_pdu =
  rp_kind :: u8
  rp_add_flags :: u8
  rp_send_seq_num :: u16
  rp_ack_seq_num :: u16
  rp_var_part :: bytes
  rp_high_priority :: bool

definition build_rta_frame :: "alarm_endpoint \<Rightarrow> bytes \<Rightarrow> rta_pdu \<Rightarrow> bytes" where
  "build_rta_frame endpoint controller_mac pdu =
     (let rta = \<lparr>rh_alarm_dst_endpoint = ep_device_ref endpoint,
            rh_alarm_src_endpoint = ep_controller_ref endpoint,
            rh_pdu_type = encode_pdu_type VERSION_1 (rp_kind pdu), rh_add_flags = rp_add_flags pdu,
            rh_send_seq_num = rp_send_seq_num pdu, rh_ack_seq_num = rp_ack_seq_num pdu,
            rh_var_part_len = as_u16 (length (rp_var_part pdu))\<rparr>;
          frame_id = (if rp_high_priority pdu then FRAME_ID_ALARM_HIGH else FRAME_ID_ALARM_LOW);
          vlan_tag = (if rp_high_priority pdu then VLAN_TAG_ALARM_HIGH else VLAN_TAG_ALARM_LOW)
      in ep_device_mac endpoint @ controller_mac @ vlan_tag @ to_be16 ETHERTYPE_PROFINET
         @ to_be16 frame_id @ rta_to_bytes rta @ rp_var_part pdu)"

definition build_layer2_ack_frame ::
    "alarm_endpoint \<Rightarrow> bytes \<Rightarrow> u16 \<Rightarrow> u16 \<Rightarrow> bytes \<Rightarrow> bool \<Rightarrow> bytes" where
  "build_layer2_ack_frame endpoint controller_mac send_seq_num ack_seq_num ack_data high_priority =
     build_rta_frame endpoint controller_mac
       \<lparr>rp_kind = RTA_TYPE_DATA, rp_add_flags = ADD_FLAGS_WINDOW_1 OR ADD_FLAGS_TACK,
        rp_send_seq_num = send_seq_num, rp_ack_seq_num = ack_seq_num, rp_var_part = ack_data,
        rp_high_priority = high_priority\<rparr>"

definition build_rta_control_frame ::
    "alarm_endpoint \<Rightarrow> bytes \<Rightarrow> u8 \<Rightarrow> u16 \<Rightarrow> u16 \<Rightarrow> bool \<Rightarrow> bytes" where
  "build_rta_control_frame endpoint controller_mac kind send_seq_num ack_seq_num high_priority =
     build_rta_frame endpoint controller_mac
       \<lparr>rp_kind = kind, rp_add_flags = ADD_FLAGS_WINDOW_1, rp_send_seq_num = send_seq_num,
        rp_ack_seq_num = ack_seq_num, rp_var_part = [], rp_high_priority = high_priority\<rparr>"

definition build_transport_ack_frame :: "alarm_endpoint \<Rightarrow> bytes \<Rightarrow> u16 \<Rightarrow> u16 \<Rightarrow> bool \<Rightarrow> bytes" where
  "build_transport_ack_frame endpoint controller_mac send_seq_num ack_seq_num high_priority =
     build_rta_control_frame endpoint controller_mac RTA_TYPE_ACK send_seq_num ack_seq_num high_priority"

definition build_nack_frame :: "alarm_endpoint \<Rightarrow> bytes \<Rightarrow> u16 \<Rightarrow> u16 \<Rightarrow> bool \<Rightarrow> bytes" where
  "build_nack_frame endpoint controller_mac send_seq_num ack_seq_num high_priority =
     build_rta_control_frame endpoint controller_mac RTA_TYPE_NACK send_seq_num ack_seq_num high_priority"

section \<open>Sequence counters\<close>

datatype rta_action = Ignore | OurDataAcked | DeviceNack | DeviceError | ReAck | SendNack | Accept

record rta_sequencer =
  sq_send_seq_num :: u16
  sq_send_seq_num_o :: u16
  sq_exp_seq_num :: u16
  sq_exp_seq_num_o :: u16

definition sequencer_new :: rta_sequencer where
  "sequencer_new = \<lparr>sq_send_seq_num = SEQ_NUM_INIT, sq_send_seq_num_o = SEQ_NUM_INIT_O,
     sq_exp_seq_num = SEQ_NUM_INIT, sq_exp_seq_num_o = SEQ_NUM_INIT_O\<rparr>"

definition ack_seq_pair :: "rta_sequencer \<Rightarrow> u16 \<times> u16" where
  "ack_seq_pair s = (sq_send_seq_num_o s, sq_exp_seq_num_o s)"

definition data_seq_pair :: "rta_sequencer \<Rightarrow> u16 \<times> u16" where
  "data_seq_pair s = (sq_send_seq_num s, sq_exp_seq_num_o s)"

definition advance_send :: "rta_sequencer \<Rightarrow> rta_sequencer" where
  "advance_send s = s\<lparr>sq_send_seq_num_o := sq_send_seq_num s,
     sq_send_seq_num := (sq_send_seq_num s + 1) AND SEQ_NUM_MASK\<rparr>"

definition on_pdu :: "rta_header \<Rightarrow> rta_sequencer \<Rightarrow> rta_action \<times> rta_sequencer" where
  "on_pdu header s =
     (if rta_version header \<noteq> VERSION_1 then (Ignore, s)
      else if rta_kind header = RTA_TYPE_ACK then
        (if rh_ack_seq_num header = sq_send_seq_num s then (OurDataAcked, advance_send s) else (Ignore, s))
      else if rta_kind header = RTA_TYPE_NACK then (DeviceNack, s)
      else if rta_kind header = RTA_TYPE_ERR then (DeviceError, s)
      else if rta_kind header = RTA_TYPE_DATA then
        (if rh_add_flags header AND ADD_FLAGS_TACK = 0 then (Ignore, s)
         else if rh_send_seq_num header = sq_exp_seq_num_o s then (ReAck, s)
         else if rh_send_seq_num header \<noteq> sq_exp_seq_num s then (SendNack, s)
         else
           (let s1 = s\<lparr>sq_exp_seq_num_o := sq_exp_seq_num s,
                  sq_exp_seq_num := (sq_exp_seq_num s + 1) AND SEQ_NUM_MASK\<rparr>
            in (Accept, if rh_ack_seq_num header = sq_send_seq_num s1 then advance_send s1 else s1)))
      else (Ignore, s))"

section \<open>One channel per priority\<close>

text \<open>\<open>pending\<close>: the AlarmAck frame awaiting its transport ACK, its deadline, retries left.\<close>

record alarm_channel =
  ch_seq :: rta_sequencer
  ch_pending :: "(bytes \<times> nat \<times> u16) option"
  ch_queued :: "bytes list"
  ch_high_priority :: bool

definition channel_new :: "bool \<Rightarrow> alarm_channel" where
  "channel_new high_priority = \<lparr>ch_seq = sequencer_new, ch_pending = None, ch_queued = [],
     ch_high_priority = high_priority\<rparr>"

text \<open>The deadline half of \<open>service\<close>: resend and re-arm, or give up.\<close>

definition service_pending :: "nat \<Rightarrow> nat \<Rightarrow> alarm_channel \<Rightarrow> bytes list \<times> alarm_channel" where
  "service_pending retransmit_after now ch =
     (case ch_pending ch of
        None \<Rightarrow> ([], ch)
      | Some (frame, due, retries_left) \<Rightarrow>
          (if due \<le> now then
             (if 0 < retries_left
              then ([frame], ch\<lparr>ch_pending := Some (frame, now + retransmit_after, retries_left - 1)\<rparr>)
              else ([], ch\<lparr>ch_pending := None\<rparr>))
           else ([], ch)))"

definition service ::
    "alarm_endpoint \<Rightarrow> bytes \<Rightarrow> nat \<Rightarrow> nat \<Rightarrow> alarm_channel \<Rightarrow> bytes list \<times> alarm_channel" where
  "service endpoint controller_mac retransmit_after now ch =
     (let r = service_pending retransmit_after now ch; ch1 = snd r in
      if ch_pending ch1 \<noteq> None then (fst r, ch1)
      else (case ch_queued ch1 of
          [] \<Rightarrow> (fst r, ch1)
        | ack_data # rest \<Rightarrow>
            (let ch2 = ch1\<lparr>ch_queued := rest\<rparr>;
                 frame = build_layer2_ack_frame endpoint controller_mac (fst (data_seq_pair (ch_seq ch2)))
                   (snd (data_seq_pair (ch_seq ch2))) ack_data (ch_high_priority ch2)
             in (fst r @ [frame],
                 ch2\<lparr>ch_pending := Some (frame, now + retransmit_after, ep_rta_retries endpoint)\<rparr>))))"

definition next_due :: "alarm_channel \<Rightarrow> nat option" where
  "next_due ch = map_option (\<lambda>p. fst (snd p)) (ch_pending ch)"

section \<open>The listener\<close>

datatype rta_event = Sent bytes | Callback nat alarm_notification

record listener_thread =
  lt_low :: alarm_channel
  lt_high :: alarm_channel
  lt_log :: "rta_event list"

definition thread_new :: listener_thread where
  "thread_new = \<lparr>lt_low = channel_new False, lt_high = channel_new True, lt_log = []\<rparr>"

definition channel_of :: "bool \<Rightarrow> listener_thread \<Rightarrow> alarm_channel" where
  "channel_of high t = (if high then lt_high t else lt_low t)"

definition set_channel :: "bool \<Rightarrow> alarm_channel \<Rightarrow> listener_thread \<Rightarrow> listener_thread" where
  "set_channel high ch t = (if high then t\<lparr>lt_high := ch\<rparr> else t\<lparr>lt_low := ch\<rparr>)"

definition logged :: "rta_event list \<Rightarrow> listener_thread \<Rightarrow> listener_thread" where
  "logged es t = t\<lparr>lt_log := lt_log t @ es\<rparr>"

definition retransmit_after :: "alarm_endpoint \<Rightarrow> nat" where
  "retransmit_after endpoint = 1000 * (100 * unat (max (ep_rta_timeout_factor endpoint) 1))"

text \<open>One service of a channel, with its frames logged.\<close>

definition service_channel :: "alarm_endpoint \<Rightarrow> bytes \<Rightarrow> nat \<Rightarrow> bool \<Rightarrow> listener_thread \<Rightarrow> listener_thread" where
  "service_channel endpoint controller_mac now high t =
     (let r = service endpoint controller_mac (retransmit_after endpoint) now (channel_of high t)
      in logged (map Sent (fst r)) (set_channel high (snd r) t))"

definition recv_wait :: "nat \<Rightarrow> listener_thread \<Rightarrow> nat" where
  "recv_wait now t =
     (let w0 = 1000000;
          w1 = (case next_due (lt_low t) of None \<Rightarrow> w0 | Some due \<Rightarrow> min w0 (due - now));
          w2 = (case next_due (lt_high t) of None \<Rightarrow> w1 | Some due \<Rightarrow> min w1 (due - now))
      in max w2 1000)"

text \<open>What the loop does with the payload of an alarm frame; \<open>now\<close> is the second clock reading.\<close>

definition handle_payload ::
    "alarm_endpoint \<Rightarrow> bytes \<Rightarrow> nat list \<Rightarrow> nat \<Rightarrow> bool \<Rightarrow> bytes \<Rightarrow> listener_thread \<Rightarrow> listener_thread option" where
  "handle_payload endpoint controller_mac callbacks now is_high payload t = do {
     h \<leftarrow> rta_from_bytes payload;
     (case h of
        Inl _ \<Rightarrow> Some t
      | Inr rta \<Rightarrow>
          (if rh_alarm_dst_endpoint rta \<noteq> ep_controller_ref endpoint then Some t
           else
             (let r = on_pdu rta (ch_seq (channel_of is_high t));
                  action = fst r;
                  ch1 = (channel_of is_high t)\<lparr>ch_seq := snd r\<rparr>;
                  t1 = set_channel is_high ch1 t
              in if action = OurDataAcked then Some (set_channel is_high (ch1\<lparr>ch_pending := None\<rparr>) t1)
                 else if action = SendNack then
                   Some (logged [Sent (build_nack_frame endpoint controller_mac (fst (ack_seq_pair (ch_seq ch1)))
                     (snd (ack_seq_pair (ch_seq ch1))) is_high)] t1)
                 else if action \<noteq> ReAck \<and> action \<noteq> Accept then Some t1
                 else
                   (let t2 = logged [Sent (build_transport_ack_frame endpoint controller_mac
                          (fst (ack_seq_pair (ch_seq ch1))) (snd (ack_seq_pair (ch_seq ch1))) is_high)] t1
                    in if action = ReAck then Some t2
                       else do {
                         a \<leftarrow> process_layer2_alarm payload (ep_controller_ref endpoint);
                         (case a of
                            Inr (Some (_, alarm)) \<Rightarrow>
                              (let high = is_high_priority alarm;
                                   ch = channel_of high t2;
                                   t3 = set_channel high (ch\<lparr>ch_queued := ch_queued ch @ [build_alarm_ack alarm]\<rparr>) t2;
                                   t4 = service_channel endpoint controller_mac now high t3
                               in Some (logged (map (\<lambda>i. Callback i alarm) callbacks) t4))
                          | _ \<Rightarrow> Some t2) })))) }"

datatype rx_outcome = RxFrame bytes | RxTimeout | RxError

text \<open>
  One pass of the loop body. The receive oracle sees the timeout it is given. The result says
  whether the loop goes on.
\<close>

definition listener_pass ::
    "alarm_endpoint \<Rightarrow> bytes \<Rightarrow> nat list \<Rightarrow> nat \<Rightarrow> nat \<Rightarrow> (nat \<Rightarrow> rx_outcome) \<Rightarrow> listener_thread
       \<Rightarrow> (bool \<times> listener_thread) option" where
  "listener_pass endpoint controller_mac callbacks now now' rx t =
     (let t1 = service_channel endpoint controller_mac now False t;
          t2 = service_channel endpoint controller_mac now True t1
      in case rx (recv_wait now t2) of
           RxTimeout \<Rightarrow> Some (True, t2)
         | RxError \<Rightarrow> Some (False, t2)
         | RxFrame frame \<Rightarrow> do {
             p \<leftarrow> check_layer2_frame frame (ep_device_mac endpoint);
             (case p of
                None \<Rightarrow> Some (True, t2)
              | Some (is_high, payload) \<Rightarrow> do {
                  t3 \<leftarrow> handle_payload endpoint controller_mac callbacks now' is_high payload t2;
                  Some (True, t3) }) })"

text \<open>
  The listener object. \<open>al_thread\<close> is the join handle; \<open>al_looping\<close> says whether the
  spawned loop is still inside its \<open>while\<close>.
\<close>

record alarm_listener =
  al_endpoint :: alarm_endpoint
  al_controller_mac :: bytes
  al_running :: bool
  al_callbacks :: "nat list"
  al_next_callback_id :: nat
  al_thread :: "listener_thread option"
  al_looping :: bool

definition listener_new :: "alarm_endpoint \<Rightarrow> bytes option \<Rightarrow> alarm_listener" where
  "listener_new endpoint controller_mac =
     \<lparr>al_endpoint = endpoint,
      al_controller_mac = (case controller_mac of None \<Rightarrow> replicate 6 0 | Some m \<Rightarrow> m),
      al_running = False, al_callbacks = [], al_next_callback_id = 0, al_thread = None, al_looping = False\<rparr>"

definition add_callback :: "alarm_listener \<Rightarrow> nat \<times> alarm_listener" where
  "add_callback l = (al_next_callback_id l,
     l\<lparr>al_next_callback_id := al_next_callback_id l + 1, al_callbacks := al_callbacks l @ [al_next_callback_id l]\<rparr>)"

definition remove_callback :: "nat \<Rightarrow> alarm_listener \<Rightarrow> alarm_listener" where
  "remove_callback i l = l\<lparr>al_callbacks := filter (\<lambda>j. j \<noteq> i) (al_callbacks l)\<rparr>"

definition callback_count :: "alarm_listener \<Rightarrow> nat" where
  "callback_count l = length (al_callbacks l)"

datatype start_error = OnlyLayer2 | SocketOpen

text \<open>\<open>start\<close>; whether the raw socket opens is the oracle.\<close>

definition listener_start :: "bool \<Rightarrow> alarm_listener \<Rightarrow> (start_error + unit) \<times> alarm_listener" where
  "listener_start opens l =
     (if al_running l then (Inr (), l)
      else if ep_transport (al_endpoint l) \<noteq> 0 then (Inl OnlyLayer2, l)
      else if \<not> opens then (Inl SocketOpen, l)
      else (Inr (), l\<lparr>al_running := True, al_thread := Some thread_new, al_looping := True\<rparr>))"

text \<open>\<open>stop\<close>: the join waits for the loop to leave, which it does at its next test.\<close>

definition listener_stop :: "alarm_listener \<Rightarrow> alarm_listener" where
  "listener_stop l =
     (if \<not> al_running l then l
      else l\<lparr>al_running := False, al_thread := None, al_looping := False\<rparr>)"

text \<open>One turn of the spawned thread: the loop test, then a pass.\<close>

definition thread_turn :: "nat \<Rightarrow> nat \<Rightarrow> (nat \<Rightarrow> rx_outcome) \<Rightarrow> alarm_listener \<Rightarrow> alarm_listener option" where
  "thread_turn now now' rx l =
     (case al_thread l of
        None \<Rightarrow> Some l
      | Some t \<Rightarrow>
          (if \<not> al_looping l then Some l
           else if \<not> al_running l then Some (l\<lparr>al_looping := False\<rparr>)
           else do {
             r \<leftarrow> listener_pass (al_endpoint l) (al_controller_mac l) (al_callbacks l) now now' rx t;
             Some (l\<lparr>al_thread := Some (snd r), al_looping := fst r\<rparr>) }))"

datatype listener_op = OpAdd | OpRemove nat | OpStart bool | OpStop | OpTurn nat nat "nat \<Rightarrow> rx_outcome"

fun listener_step :: "listener_op \<Rightarrow> alarm_listener option \<Rightarrow> alarm_listener option" where
  "listener_step op None = None"
| "listener_step OpAdd (Some l) = Some (snd (add_callback l))"
| "listener_step (OpRemove i) (Some l) = Some (remove_callback i l)"
| "listener_step (OpStart opens) (Some l) = Some (snd (listener_start opens l))"
| "listener_step OpStop (Some l) = Some (listener_stop l)"
| "listener_step (OpTurn now now' rx) (Some l) = thread_turn now now' rx l"

section \<open>Exactly-once, in-order acceptance\<close>

text \<open>
  The number an alarm's \<open>i\<close>-th DATA PDU carries: the first 0xFFFF, then modulo 0x8000; and the
  number before it.
\<close>

fun seqno :: "nat \<Rightarrow> u16" where
  "seqno 0 = 0xFFFF"
| "seqno (Suc i) = of_nat (i mod 32768)"

fun seqno_o :: "nat \<Rightarrow> u16" where
  "seqno_o 0 = 0xFFFE"
| "seqno_o (Suc i) = seqno i"

lemma mask_of_nat: "(of_nat i AND 0x7FFF :: u16) = of_nat (i mod 32768)"
proof -
  have "(0x7FFF :: u16) = Bit_Operations.mask 15" by (simp add: mask_numeral)
  then have "(of_nat i AND 0x7FFF :: u16) = take_bit 15 (of_nat i)" by (simp add: take_bit_eq_mask)
  also have "\<dots> = of_nat (take_bit 15 i)" by (simp add: take_bit_of_nat)
  finally show ?thesis by (simp add: take_bit_eq_mod)
qed

lemma seqno_next: "(seqno i + 1) AND SEQ_NUM_MASK = seqno (Suc i)"
proof (cases i)
  case 0
  then show ?thesis by (simp add: SEQ_NUM_MASK_def)
next
  case (Suc j)
  have "of_nat (j mod 32768) + (1 :: u16) = of_nat (j mod 32768 + 1)" by simp
  then have "(seqno i + 1) AND SEQ_NUM_MASK = of_nat ((j mod 32768 + 1) mod 32768)"
    unfolding Suc seqno.simps SEQ_NUM_MASK_def by (simp only: mask_of_nat)
  moreover have "(j mod 32768 + 1) mod 32768 = Suc j mod 32768" by presburger
  ultimately show ?thesis by (simp only: Suc seqno.simps)
qed

lemma seqno_neq: "seqno i \<noteq> seqno_o i"
proof (cases i)
  case 0
  then show ?thesis by simp
next
  case (Suc j)
  have u: "unat (of_nat (k mod 32768) :: u16) = k mod 32768" for k
    using mod_less_divisor [of 32768 k] by (intro unat_of_nat_u16) linarith
  show ?thesis
  proof (cases j)
    case 0
    then show ?thesis using Suc by simp
  next
    case Suc2: (Suc k)
    have "(Suc k) mod 32768 \<noteq> k mod 32768" unfolding mod_Suc by auto
    then have "unat (seqno i) \<noteq> unat (seqno_o i)" unfolding Suc Suc2 seqno.simps seqno_o.simps u .
    then show ?thesis by metis
  qed
qed

text \<open>A sequencer that has had \<open>m\<close> of its own PDUs acknowledged and has accepted \<open>n\<close>.\<close>

definition seq_at :: "nat \<Rightarrow> nat \<Rightarrow> rta_sequencer" where
  "seq_at m n = \<lparr>sq_send_seq_num = seqno m, sq_send_seq_num_o = seqno_o m,
     sq_exp_seq_num = seqno n, sq_exp_seq_num_o = seqno_o n\<rparr>"

lemma sequencer_new_at: "sequencer_new = seq_at 0 0"
  by (simp add: sequencer_new_def seq_at_def SEQ_NUM_INIT_def SEQ_NUM_INIT_O_def)

lemma advance_send_at: "advance_send (seq_at m n) = seq_at (Suc m) n"
  by (simp add: advance_send_def seq_at_def seqno_next del: seqno.simps(2))

text \<open>What a DATA PDU asking for a transport acknowledgment is.\<close>

definition is_data :: "rta_header \<Rightarrow> bool" where
  "is_data h \<longleftrightarrow> rta_version h = VERSION_1 \<and> rta_kind h = RTA_TYPE_DATA \<and> rh_add_flags h AND ADD_FLAGS_TACK \<noteq> 0"

text \<open>The counters as an abstract receiver: a number of PDUs accepted so far.\<close>

lemma on_pdu_at:
  "\<exists>m'. on_pdu h (seq_at m n) =
     (if is_data h then
        (if rh_send_seq_num h = seqno_o n then (ReAck, seq_at m n)
         else if rh_send_seq_num h = seqno n then (Accept, seq_at m' (Suc n))
         else (SendNack, seq_at m n))
      else (fst (on_pdu h (seq_at m n)), seq_at m' n))
   \<and> (\<not> is_data h \<longrightarrow> fst (on_pdu h (seq_at m n)) \<notin> {Accept, ReAck, SendNack})"
proof -
  have s: "(seq_at m n)\<lparr>sq_exp_seq_num_o := seqno n,
      sq_exp_seq_num := (seqno n + 1) AND SEQ_NUM_MASK\<rparr> = seq_at m (Suc n)"
    by (simp add: seq_at_def seqno_next del: seqno.simps(2))
  have f: "sq_send_seq_num (seq_at m k) = seqno m" "sq_exp_seq_num (seq_at m k) = seqno k"
    "sq_exp_seq_num_o (seq_at m k) = seqno_o k" for k
    by (simp_all add: seq_at_def)
  show ?thesis
  proof (cases "is_data h")
    case True
    then show ?thesis
      by (simp add: on_pdu_def is_data_def Let_def s f advance_send_at RTA_TYPE_ACK_def RTA_TYPE_NACK_def
          RTA_TYPE_ERR_def RTA_TYPE_DATA_def del: seqno.simps seqno_o.simps) blast
  next
    case False
    then show ?thesis
      unfolding on_pdu_def Let_def s f advance_send_at is_data_def
      by (cases "rh_ack_seq_num h = seqno m") (simp_all add: del: seqno.simps seqno_o.simps, blast+)
  qed
qed

fun seq_run :: "rta_header list \<Rightarrow> rta_sequencer \<Rightarrow> rta_action list \<times> rta_sequencer" where
  "seq_run [] s = ([], s)"
| "seq_run (h # hs) s = (let r = on_pdu h s; q = seq_run hs (snd r) in (fst r # fst q, snd q))"

definition accepted :: "rta_header list \<Rightarrow> u16 list" where
  "accepted hs = map (\<lambda>p. rh_send_seq_num (fst p))
     (filter (\<lambda>p. snd p = Accept) (zip hs (fst (seq_run hs sequencer_new))))"

lemma seq_run_accepts:
  "\<exists>k. map (\<lambda>p. rh_send_seq_num (fst p)) (filter (\<lambda>p. snd p = Accept) (zip hs (fst (seq_run hs (seq_at m n)))))
     = map seqno [n..<n + k]"
proof (induction hs arbitrary: m n)
  case Nil
  then show ?case by (intro exI [of _ 0]) simp
next
  case (Cons h hs)
  obtain m' where o: "on_pdu h (seq_at m n) =
     (if is_data h then
        (if rh_send_seq_num h = seqno_o n then (ReAck, seq_at m n)
         else if rh_send_seq_num h = seqno n then (Accept, seq_at m' (Suc n))
         else (SendNack, seq_at m n))
      else (fst (on_pdu h (seq_at m n)), seq_at m' n))"
    and no: "\<not> is_data h \<longrightarrow> fst (on_pdu h (seq_at m n)) \<notin> {Accept, ReAck, SendNack}"
    using on_pdu_at [of h m n] by blast
  show ?case
  proof (cases "is_data h \<and> rh_send_seq_num h = seqno n")
    case True
    then have e: "on_pdu h (seq_at m n) = (Accept, seq_at m' (Suc n))" using o seqno_neq [of n] by simp
    obtain k where "map (\<lambda>p. rh_send_seq_num (fst p))
        (filter (\<lambda>p. snd p = Accept) (zip hs (fst (seq_run hs (seq_at m' (Suc n)))))) = map seqno [Suc n..<Suc n + k]"
      using Cons.IH by blast
    moreover have "map seqno [n..<n + Suc k] = seqno n # map seqno [Suc n..<Suc n + k]"
      using upt_conv_Cons [of n "n + Suc k"] by (simp del: seqno.simps upt_Suc)
    ultimately show ?thesis using True
      by (intro exI [of _ "Suc k"]) (simp add: e Let_def del: seqno.simps upt_Suc add_Suc_right add_Suc)
  next
    case False
    have "\<exists>a m'. on_pdu h (seq_at m n) = (a, seq_at m' n) \<and> a \<noteq> Accept"
    proof (cases "is_data h")
      case True
      with False o show ?thesis by (cases "rh_send_seq_num h = seqno_o n") (auto simp del: seqno.simps seqno_o.simps)
    next
      case nd: False
      then have "on_pdu h (seq_at m n) = (fst (on_pdu h (seq_at m n)), seq_at m' n)"
        using o by (simp only: if_False)
      with nd no show ?thesis by blast
    qed
    then obtain a m2 where "on_pdu h (seq_at m n) = (a, seq_at m2 n)" "a \<noteq> Accept" by blast
    then show ?thesis using Cons.IH [of m2 n] by (simp add: Let_def)
  qed
qed

text \<open>
  C14: No alarm is delivered twice and none is skipped: whatever PDUs arrive, in whatever order
  and with whatever repetitions, the DATA PDUs a channel accepts carry exactly the sequence
  numbers 0xFFFF, 0, 1, \<dots> in order, across the wrap at 0x8000.
\<close>

theorem rta_exactly_once: "\<exists>k. accepted hs = map seqno [0..<k]"
  using seq_run_accepts [of hs 0 0] by (simp add: accepted_def sequencer_new_at)

lemma seq_run_append:
  "seq_run (xs @ ys) s = (let q = seq_run xs s; q' = seq_run ys (snd q) in (fst q @ fst q', snd q'))"
  by (induction xs arbitrary: s) (simp_all add: Let_def)

lemma seq_run_repeats:
  assumes "is_data h" and "rh_send_seq_num h = seqno n"
  shows "seq_run (replicate r h) (seq_at m (Suc n)) = (replicate r ReAck, seq_at m (Suc n))"
proof (induction r)
  case (Suc r)
  have "on_pdu h (seq_at m (Suc n)) = (ReAck, seq_at m (Suc n))"
    using on_pdu_at [of h m "Suc n"] assms by (auto simp del: seqno.simps)
  with Suc show ?case by (simp add: Let_def)
qed simp

lemma seq_run_stream:
  assumes "\<And>i. is_data (pdu i)" and "\<And>i. rh_send_seq_num (pdu i) = seqno i"
  shows "fst (seq_run (concat (map (\<lambda>i. pdu i # replicate (r i) (pdu i)) [k..<k + n])) (seq_at m k))
    = concat (map (\<lambda>i. Accept # replicate (r i) ReAck) [k..<k + n])"
proof (induction n arbitrary: k m)
  case (Suc n)
  have u: "[k..<k + Suc n] = k # [Suc k..<Suc k + n]"
    using upt_conv_Cons [of k "k + Suc n"] by (simp del: upt_Suc)
  obtain m' where "on_pdu (pdu k) (seq_at m k) = (Accept, seq_at m' (Suc k))"
    using on_pdu_at [of "pdu k" m k] assms seqno_neq [of k] by (auto simp del: seqno.simps seqno_o.simps)
  then show ?case
    using Suc [of "Suc k" m'] seq_run_repeats [OF assms(1,2), of "r k" k m']
    unfolding u by (simp add: seq_run_append Let_def del: upt_Suc add_Suc)
qed simp

text \<open>
  Every alarm of a device that follows the protocol gets through: of a stream of DATA PDUs
  numbered in sequence, each retransmitted any number of times, the first copy of each is
  accepted and every further copy is only acknowledged again.
\<close>

theorem rta_stream_accepted:
  assumes "\<forall>i. is_data (pdu i) \<and> rh_send_seq_num (pdu i) = seqno i"
  shows "fst (seq_run (concat (map (\<lambda>i. pdu i # replicate (r i) (pdu i)) [0..<n])) sequencer_new)
    = concat (map (\<lambda>i. Accept # replicate (r i) ReAck) [0..<n])"
  using seq_run_stream [of pdu r 0 n 0] assms by (simp add: sequencer_new_at)

definition sample_pdu :: "nat \<Rightarrow> rta_header" where
  "sample_pdu i = \<lparr>rh_alarm_dst_endpoint = 1, rh_alarm_src_endpoint = 2, rh_pdu_type = 0x11,
     rh_add_flags = 0x11, rh_send_seq_num = seqno i, rh_ack_seq_num = 0xFFFE, rh_var_part_len = 0\<rparr>"

lemma sample_pdu_data: "is_data (sample_pdu i)"
  by (simp add: is_data_def sample_pdu_def rta_version_def rta_kind_def VERSION_1_def RTA_TYPE_DATA_def
      ADD_FLAGS_TACK_def drop_bit_eq_div)

lemma rta_stream_accepted_witness:
  "fst (seq_run [sample_pdu 0, sample_pdu 0, sample_pdu 1, sample_pdu 1] sequencer_new) = [Accept, ReAck, Accept, ReAck]"
  using rta_stream_accepted [of sample_pdu "\<lambda>_. 1" 2] sample_pdu_data
  by (simp add: sample_pdu_def [of i for i] numeral_2_eq_2)

section \<open>Acknowledgments\<close>

lemma and_single_bit: "(if w AND 2 ^ n \<noteq> 0 then 2 ^ n else 0) = (w AND 2 ^ n :: u16)"
  by (rule bit_word_eqI) (auto simp: and_exp_eq_0_iff_not_bit bit_simps)

lemma specifier_echo:
  assumes "an_alarm_sequence_number a = w AND 0x07FF" and "an_channel_diagnosis a \<longleftrightarrow> w AND 0x0800 \<noteq> 0"
    and "an_manufacturer_specific a \<longleftrightarrow> w AND 0x1000 \<noteq> 0"
    and "an_submodule_diagnosis_state a \<longleftrightarrow> w AND 0x2000 \<noteq> 0"
    and "an_ar_diagnosis_state a \<longleftrightarrow> w AND 0x8000 \<noteq> 0"
  shows "alarm_specifier_bits a = w AND 0xBFFF"
proof -
  have b: "(if w AND 0x0800 \<noteq> 0 then 0x0800 else 0) = w AND 0x0800" "(if w AND 0x1000 \<noteq> 0 then 0x1000 else 0) = w AND 0x1000"
    "(if w AND 0x2000 \<noteq> 0 then 0x2000 else 0) = w AND 0x2000" "(if w AND 0x8000 \<noteq> 0 then 0x8000 else 0) = w AND 0x8000"
    using and_single_bit [of w 11] and_single_bit [of w 12] and_single_bit [of w 13] and_single_bit [of w 15]
    by (simp_all split: if_splits)
  have "alarm_specifier_bits a = (w AND 0x07FF) OR (w AND 0x0800) OR (w AND 0x1000) OR (w AND 0x2000) OR (w AND 0x8000)"
    unfolding alarm_specifier_bits_def assms b and.assoc and.idem ..
  also have "\<dots> = w AND (0x07FF OR 0x0800 OR 0x1000 OR 0x2000 OR 0x8000)"
    by (simp only: bit.conj_disj_distrib)
  finally show ?thesis by simp
qed

lemma build_alarm_ack_bits:
  "build_alarm_ack a = to_be16 (if is_high_priority a then 0x8001 else 0x8002) @ to_be16 18 @ [0x01, 0x00]
     @ to_be16 (an_alarm_type a) @ to_be32 (an_api a) @ to_be16 (an_slot_number a) @ to_be16 (an_subslot_number a)
     @ to_be16 (alarm_specifier_bits a) @ to_be32 0"
  by (simp add: build_alarm_ack_def alarm_specifier_bits_def Let_def)

lemma parse_alarm_fields:
  assumes "parse_alarm_notification d = Some (Inr a)"
  shows "26 \<le> length d" "an_block_type a = rd16 d 0" "an_alarm_type a = rd16 d 6" "an_api a = rd32 d 8"
    "an_slot_number a = rd16 d 12" "an_subslot_number a = rd16 d 14"
    "alarm_specifier_bits a = rd16 d 24 AND 0xBFFF"
proof -
  show l: "26 \<le> length d"
    using assms by (auto simp: parse_alarm_notification_def ALARM_BODY_LEN_def split: if_splits)
  define d1 where "d1 = (if 26 \<le> 4 + unat (rd16 d 2) \<and> 4 + unat (rd16 d 2) < length d
    then take (4 + unat (rd16 d 2)) d else d)"
  have l1: "26 \<le> length d1" using l by (simp add: d1_def)
  have p: "parse_alarm_body (rd16 d 0) (d ! 4) (d ! 5) d1 = Some a"
    using assms parse_alarm_notification_cut [OF l] unfolding d1_def [symmetric]
    by (auto split: Option.bind_splits)
  have r: "rd16 d1 6 = rd16 d 6" "rd32 d1 8 = rd32 d 8" "rd16 d1 12 = rd16 d 12" "rd16 d1 14 = rd16 d 14"
    "rd16 d1 24 = rd16 d 24"
    using l by (auto simp: d1_def rd16_take rd32_take)
  obtain items where i: "item_walk (drop 26 d1) 0 = Some items"
    using item_walk_runs [of "drop 26 d1" 0] by (auto simp: runs_iff)
  note a = p [unfolded parse_alarm_body_def ALARM_BODY_LEN_def]
  show "an_block_type a = rd16 d 0" "an_alarm_type a = rd16 d 6" "an_api a = rd32 d 8"
    "an_slot_number a = rd16 d 12" "an_subslot_number a = rd16 d 14"
    using a l1 i r by (auto)
  show "alarm_specifier_bits a = rd16 d 24 AND 0xBFFF"
    using a l1 i r by (intro specifier_echo) auto
qed

text \<open>
  The acknowledgment of an alarm names exactly that alarm: the AlarmAck built for a parsed
  notification repeats the alarm type, API, slot and subslot of the received bytes and its
  specifier word with only the reserved bit 14 cleared, with the block type of the same priority
  and status OK.
\<close>

theorem alarm_ack_echoes:
  assumes "parse_alarm_notification d = Some (Inr a)"
  shows "length (build_alarm_ack a) = 22
    \<and> take 10 (drop 6 (build_alarm_ack a)) = take 10 (drop 6 d)
    \<and> rd16 (build_alarm_ack a) 16 = rd16 d 24 AND 0xBFFF
    \<and> rd16 (build_alarm_ack a) 0 = (if rd16 d 0 = 1 then 0x8001 else 0x8002)
    \<and> unat (rd16 (build_alarm_ack a) 2) + 4 = 22 \<and> rd32 (build_alarm_ack a) 18 = 0"
proof -
  note f = parse_alarm_fields [OF assms]
  have t: "take 10 (drop 6 d) = to_be16 (rd16 d 6) @ to_be32 (rd32 d 8) @ to_be16 (rd16 d 12) @ to_be16 (rd16 d 14)"
  proof -
    have "take 10 (drop 6 d) = take 2 (drop 6 d) @ take 4 (drop 8 d) @ take 2 (drop 12 d) @ take 2 (drop 14 d)"
      using take_add [of 2 8 "drop 6 d"] take_add [of 4 4 "drop 8 d"] take_add [of 2 2 "drop 12 d"] by simp
    then show ?thesis using f(1) by (simp add: to_be16_rd16 to_be32_rd32)
  qed
  have h: "is_high_priority a \<longleftrightarrow> rd16 d 0 = 1"
    by (simp add: is_high_priority_def BLOCK_ALARM_NOTIFICATION_HIGH_def f)
  show ?thesis unfolding t build_alarm_ack_bits h f(2-7) by (simp add: wire_simps)
qed

lemma alarm_ack_echoes_witness:
  "\<exists>a. parse_alarm_notification sample_alarm = Some (Inr a) \<and> length (build_alarm_ack a) = 22
    \<and> rd16 (build_alarm_ack a) 16 = 0x0805"
proof -
  obtain a where a: "parse_alarm_notification sample_alarm = Some (Inr a)"
    using sample_alarm_parsed by (auto split: option.splits sum.splits)
  have "rd16 sample_alarm 24 = 0x0805" by code_simp
  then show ?thesis using alarm_ack_echoes [OF a] a by simp
qed

section \<open>Retransmission\<close>

fun service_run ::
    "alarm_endpoint \<Rightarrow> bytes \<Rightarrow> nat \<Rightarrow> nat list \<Rightarrow> alarm_channel \<Rightarrow> bytes list \<times> alarm_channel" where
  "service_run ep mac ra [] ch = ([], ch)"
| "service_run ep mac ra (now # nows) ch =
     (let r = service ep mac ra now ch; q = service_run ep mac ra nows (snd r) in (fst r @ fst q, snd q))"

text \<open>Service times that each find the current deadline expired.\<close>

fun overdue :: "nat \<Rightarrow> nat \<Rightarrow> nat list \<Rightarrow> bool" where
  "overdue ra due [] \<longleftrightarrow> True"
| "overdue ra due (now # nows) \<longleftrightarrow> due \<le> now \<and> overdue ra (now + ra) nows"

lemma service_run_gives_up:
  "ch_pending ch = Some (frame, due, r) \<Longrightarrow> length nows = Suc (unat r) \<Longrightarrow> overdue ra due nows \<Longrightarrow>
   fst (service_run ep mac ra nows ch) = replicate (unat r) frame
     @ (case ch_queued ch of [] \<Rightarrow> [] | x # _ \<Rightarrow>
         [build_layer2_ack_frame ep mac (sq_send_seq_num (ch_seq ch)) (sq_exp_seq_num_o (ch_seq ch)) x (ch_high_priority ch)])
   \<and> (ch_queued ch = [] \<longrightarrow> ch_pending (snd (service_run ep mac ra nows ch)) = None)"
proof (induction nows arbitrary: ch due r)
  case (Cons now nows)
  show ?case
  proof (cases "r = 0")
    case True
    then have "nows = []" using Cons.prems by simp
    then show ?thesis using True Cons.prems
      by (cases "ch_queued ch") (simp_all add: service_def service_pending_def Let_def data_seq_pair_def)
  next
    case False
    then have pos: "0 < r" and "0 < unat r" by (simp_all add: word_gt_0 unat_gt_0)
    then have "1 \<le> r" by (simp add: word_le_nat_alt)
    then have u: "unat r = Suc (unat (r - 1))" using unat_sub [of 1 r] \<open>0 < unat r\<close> by simp
    let ?ch = "ch\<lparr>ch_pending := Some (frame, now + ra, r - 1)\<rparr>"
    have s: "service ep mac ra now ch = ([frame], ?ch)"
      using Cons.prems pos by (simp add: service_def service_pending_def Let_def)
    have "length nows = Suc (unat (r - 1))" "overdue ra (now + ra) nows" using Cons.prems u by simp_all
    then show ?thesis using Cons.IH [of ?ch "now + ra" "r - 1"]
      by (cases "ch_queued ch") (simp_all add: s u Let_def)
  qed
qed simp

text \<open>
  C16: An unacknowledged AlarmAck is repeated exactly as often as configured, the same frame each
  time, and then given up. The sequence counter does not move, so an AlarmAck waiting behind it
  goes out at once under the sequence number of the one given up.
\<close>

theorem alarm_ack_given_up:
  assumes "ch_pending ch = Some (frame, due, ep_rta_retries ep)"
    and "length nows = Suc (unat (ep_rta_retries ep))" and "overdue ra due nows"
  shows "fst (service_run ep mac ra nows ch) = replicate (unat (ep_rta_retries ep)) frame
     @ (case ch_queued ch of [] \<Rightarrow> [] | x # _ \<Rightarrow>
         [build_layer2_ack_frame ep mac (sq_send_seq_num (ch_seq ch)) (sq_exp_seq_num_o (ch_seq ch)) x (ch_high_priority ch)])
   \<and> (ch_queued ch = [] \<longrightarrow> ch_pending (snd (service_run ep mac ra nows ch)) = None)"
  using assms by (rule service_run_gives_up)

lemma alarm_ack_given_up_witness:
  "fst (service_run alarm_endpoint_default [] 100 [10, 110, 210, 310]
     ((channel_new False)\<lparr>ch_pending := Some ([7], 10, 3), ch_queued := [[9]]\<rparr>))
   = replicate 3 [7] @ [build_layer2_ack_frame alarm_endpoint_default [] 0xFFFF 0xFFFE [9] False]"
  using alarm_ack_given_up [of "(channel_new False)\<lparr>ch_pending := Some ([7], 10, 3), ch_queued := [[9]]\<rparr>"
      "[7]" 10 alarm_endpoint_default "[10, 110, 210, 310]" 100 "[]"]
  by (simp add: alarm_endpoint_default_def channel_new_def sequencer_new_def SEQ_NUM_INIT_def SEQ_NUM_INIT_O_def
      del: service_run.simps)

section \<open>The listener as a whole\<close>

interpretation rta: wire_codec "\<lambda>h. rta_to_bytes h @ rest" rta_from_bytes "\<lambda>_. True" for rest
  by unfold_locales (simp add: rta_from_bytes_def rta_to_bytes_def RTA_SIZE_def wire_simps, simp add: to_be16_def)

lemma rta_from_bytes_total: "rta_from_bytes d \<noteq> None"
proof (cases "length d < 12")
  case False
  then have "d \<noteq> []" by auto
  with False show ?thesis by (simp add: rta_from_bytes_def RTA_SIZE_def)
qed (simp add: rta_from_bytes_def RTA_SIZE_def)

lemma process_layer2_alarm_total: "process_layer2_alarm d r \<noteq> None"
proof -
  have p: "\<exists>x. parse_alarm_notification b = Some x" for b
    using parse_alarm_notification_runs [of b] unfolding runs_iff by blast
  obtain h where "rta_from_bytes d = Some h" using rta_from_bytes_total by blast
  then show ?thesis
    using p [of "drop 12 d"] p [of d]
    by (cases h) (auto simp: process_layer2_alarm_def RTA_SIZE_def)
qed

lemma check_layer2_frame_total: "check_layer2_frame d mac \<noteq> None"
proof -
  obtain at where "skip_vlan_tags d = Some at" "12 \<le> at" "at = 12 \<or> at \<le> length d"
    by (rule skip_vlan_tags_Some)
  then show ?thesis by (auto simp: check_layer2_frame_def Let_def)
qed

text \<open>A thread whose counters have only moved as the protocol allows.\<close>

definition channel_ok :: "bool \<Rightarrow> alarm_channel \<Rightarrow> bool" where
  "channel_ok high ch \<longleftrightarrow> ch_high_priority ch = high \<and> (\<exists>m n. ch_seq ch = seq_at m n)"

definition thread_ok :: "listener_thread \<Rightarrow> bool" where
  "thread_ok t \<longleftrightarrow> channel_ok False (lt_low t) \<and> channel_ok True (lt_high t)"

lemma thread_new_ok: "thread_ok thread_new"
  by (auto simp: thread_ok_def thread_new_def channel_ok_def channel_new_def sequencer_new_at)

lemma on_pdu_seq_at: "\<exists>m' n'. snd (on_pdu h (seq_at m n)) = seq_at m' n'"
proof -
  obtain m' where "on_pdu h (seq_at m n) =
     (if is_data h then
        (if rh_send_seq_num h = seqno_o n then (ReAck, seq_at m n)
         else if rh_send_seq_num h = seqno n then (Accept, seq_at m' (Suc n))
         else (SendNack, seq_at m n))
      else (fst (on_pdu h (seq_at m n)), seq_at m' n))"
    using on_pdu_at [of h m n] by blast
  then show ?thesis by (metis snd_conv)
qed

lemma service_keeps: "ch_seq (snd (service ep mac ra now ch)) = ch_seq ch
    \<and> ch_high_priority (snd (service ep mac ra now ch)) = ch_high_priority ch"
  by (auto simp: service_def service_pending_def Let_def split: option.splits list.splits)

lemma channel_of_ok: "thread_ok t \<Longrightarrow> channel_ok high (channel_of high t)"
  by (simp add: thread_ok_def channel_of_def)

lemma set_channel_ok: "thread_ok t \<Longrightarrow> channel_ok high ch \<Longrightarrow> thread_ok (set_channel high ch t)"
  by (cases high) (simp_all add: thread_ok_def set_channel_def)

lemma logged_ok [simp]: "thread_ok (logged es t) = thread_ok t"
  by (simp add: thread_ok_def logged_def)

lemma channel_ok_fields [simp]:
  "channel_ok high (ch\<lparr>ch_pending := p\<rparr>) = channel_ok high ch"
  "channel_ok high (ch\<lparr>ch_queued := q\<rparr>) = channel_ok high ch"
  by (simp_all add: channel_ok_def)

lemma service_channel_ok: "thread_ok t \<Longrightarrow> thread_ok (service_channel ep mac now high t)"
  unfolding service_channel_def Let_def logged_ok
  by (rule set_channel_ok) (use channel_of_ok [of t high] in \<open>simp_all add: channel_ok_def service_keeps\<close>)

lemma channel_ok_on_pdu:
  "channel_ok high ch \<Longrightarrow> channel_ok high (ch\<lparr>ch_seq := snd (on_pdu h (ch_seq ch))\<rparr>)"
  using on_pdu_seq_at by (auto simp: channel_ok_def)

lemma handle_payload_runs:
  assumes "thread_ok t"
  shows "runs (handle_payload ep mac cbs now high p t) thread_ok"
proof -
  obtain h where h: "rta_from_bytes p = Some h" using rta_from_bytes_total by blast
  show ?thesis
  proof (cases h)
    case (Inl e)
    then show ?thesis using assms by (simp add: handle_payload_def h)
  next
    case (Inr rta)
    let ?ch = "(channel_of high t)\<lparr>ch_seq := snd (on_pdu rta (ch_seq (channel_of high t)))\<rparr>"
    have c: "channel_ok high ?ch" by (rule channel_ok_on_pdu [OF channel_of_ok [OF assms]])
    then have t1: "thread_ok (set_channel high ?ch t)" by (rule set_channel_ok [OF assms])
    have t1': "thread_ok (set_channel high (?ch\<lparr>ch_pending := None\<rparr>) (set_channel high ?ch t))"
      using c by (intro set_channel_ok [OF t1]) simp
    have q: "thread_ok (service_channel ep mac now hi (set_channel hi ((channel_of hi u)\<lparr>ch_queued := x\<rparr>) u))"
      if "thread_ok u" for u hi x
      by (rule service_channel_ok, rule set_channel_ok [OF that]) (simp add: channel_of_ok [OF that])
    obtain a where a: "process_layer2_alarm p (ep_controller_ref ep) = Some a"
      using process_layer2_alarm_total by blast
    show ?thesis
      using assms t1 t1' a
      by (auto simp: handle_payload_def h Inr Let_def q split: sum.splits option.splits)
  qed
qed

lemma listener_pass_runs:
  assumes "thread_ok t"
  shows "runs (listener_pass ep mac cbs now now' rx t) (\<lambda>r. thread_ok (snd r))"
proof -
  let ?t = "service_channel ep mac now True (service_channel ep mac now False t)"
  have t: "thread_ok ?t" by (intro service_channel_ok assms)
  show ?thesis
  proof (cases "rx (recv_wait now ?t)")
    case (RxFrame f)
    obtain p where p: "check_layer2_frame f (ep_device_mac ep) = Some p"
      using check_layer2_frame_total by blast
    show ?thesis
      using t handle_payload_runs [OF t, of ep mac cbs now']
      by (cases p) (auto simp: listener_pass_def Let_def RxFrame p runs_bind split: prod.splits)
  qed (use t in \<open>simp_all add: listener_pass_def Let_def\<close>)
qed

definition listener_ok :: "alarm_listener \<Rightarrow> bool" where
  "listener_ok l \<longleftrightarrow> (al_running l \<longleftrightarrow> al_thread l \<noteq> None) \<and> (al_looping l \<longrightarrow> al_running l)
     \<and> distinct (al_callbacks l) \<and> (\<forall>i \<in> set (al_callbacks l). i < al_next_callback_id l)
     \<and> (\<forall>t. al_thread l = Some t \<longrightarrow> thread_ok t)"

lemma thread_turn_runs:
  assumes "listener_ok l"
  shows "runs (thread_turn now now' rx l) listener_ok"
proof (cases "al_thread l")
  case None
  then show ?thesis using assms by (simp add: thread_turn_def)
next
  case (Some t)
  then have t: "thread_ok t" and r: "al_running l" using assms by (auto simp: listener_ok_def)
  obtain q where q: "listener_pass (al_endpoint l) (al_controller_mac l) (al_callbacks l) now now' rx t = Some q"
    and ok: "thread_ok (snd q)"
    using listener_pass_runs [OF t] unfolding runs_iff by blast
  show ?thesis using assms Some r q ok by (simp add: thread_turn_def listener_ok_def)
qed

lemma listener_step_ok: "runs o' listener_ok \<Longrightarrow> runs (listener_step op o') listener_ok"
proof (cases o')
  case (Some l)
  moreover assume "runs o' listener_ok"
  ultimately have ok: "listener_ok l" by simp
  show ?thesis
    unfolding Some
  proof (cases op)
    case OpAdd
    then show "runs (listener_step op (Some l)) listener_ok"
      using ok by (auto simp: listener_ok_def add_callback_def)
  next
    case (OpRemove i)
    then show "runs (listener_step op (Some l)) listener_ok"
      using ok by (auto simp: listener_ok_def remove_callback_def)
  next
    case (OpStart b)
    then show "runs (listener_step op (Some l)) listener_ok"
      using ok thread_new_ok by (auto simp: listener_ok_def listener_start_def)
  next
    case OpStop
    then show "runs (listener_step op (Some l)) listener_ok"
      using ok by (auto simp: listener_ok_def listener_stop_def)
  next
    case (OpTurn a b c)
    then show "runs (listener_step op (Some l)) listener_ok"
      using thread_turn_runs [OF ok] by simp
  qed
qed simp

interpretation lst: op_system listener_step "\<lambda>o'. runs o' listener_ok"
  by unfold_locales (rule listener_step_ok)

lemma listener_new_ok: "listener_ok (listener_new ep mac)"
  by (simp add: listener_ok_def listener_new_def)

text \<open>
  C15: The listener survives every network: no sequence of calls and thread turns, whatever frames
  arrive at whatever times, makes it panic; callback ids stay unique, and each priority's
  counters stay a pair of protocol positions - so a later alarm is never taken for a repetition
  of one on the other priority.
\<close>

theorem listener_never_panics:
  "\<exists>l. fold listener_step ops (Some (listener_new ep mac)) = Some l \<and> distinct (al_callbacks l)
    \<and> (\<forall>t. al_thread l = Some t \<longrightarrow> (\<exists>m n. ch_seq (lt_low t) = seq_at m n) \<and> (\<exists>m n. ch_seq (lt_high t) = seq_at m n)
         \<and> \<not> ch_high_priority (lt_low t) \<and> ch_high_priority (lt_high t))"
proof -
  obtain l where "fold listener_step ops (Some (listener_new ep mac)) = Some l" "listener_ok l"
    using lst.run_inv [of "Some (listener_new ep mac)" ops] listener_new_ok unfolding runs_iff by blast
  then show ?thesis by (auto simp: listener_ok_def thread_ok_def channel_ok_def)
qed

lemma listener_never_panics_witness:
  "\<exists>l. fold listener_step [OpAdd, OpStart True, OpTurn 0 0 (\<lambda>_. RxTimeout)]
       (Some (listener_new alarm_endpoint_default None)) = Some l \<and> distinct (al_callbacks l)"
  using listener_never_panics [of "[OpAdd, OpStart True, OpTurn 0 0 (\<lambda>_. RxTimeout)]" alarm_endpoint_default None]
  by blast

text \<open>
  A receive error ends the thread without anyone noticing: the listener goes on reporting
  that it runs, and until it is stopped no call brings the thread back - \<open>start\<close> succeeds
  without effect and nothing more is received, acknowledged or delivered.
\<close>

theorem listener_dead_but_running:
  assumes "al_running l" and "al_looping l" and "al_thread l = Some t" and "OpStop \<notin> set ops"
    and "thread_turn now now' (\<lambda>_. RxError) l = Some l1"
  shows "\<exists>l2. fold listener_step ops (Some l1) = Some l2 \<and> al_running l2 \<and> al_thread l2 = al_thread l1"
proof -
  have dead: "al_running l1 \<and> \<not> al_looping l1 \<and> al_thread l1 \<noteq> None"
    using assms by (auto simp: thread_turn_def listener_pass_def Let_def)
  have step: "\<exists>l2. listener_step op (Some k) = Some l2 \<and> al_running l2 \<and> \<not> al_looping l2 \<and> al_thread l2 = al_thread k"
    if "al_running k" "\<not> al_looping k" "op \<noteq> OpStop" for op k
    using that by (cases op) (auto simp: add_callback_def remove_callback_def listener_start_def thread_turn_def
        split: option.splits)
  have "\<exists>l2. fold listener_step ops (Some k) = Some l2 \<and> al_running l2 \<and> al_thread l2 = al_thread k"
    if "al_running k" "\<not> al_looping k" "OpStop \<notin> set ops" for k
    using that
  proof (induction ops arbitrary: k)
    case (Cons op ops)
    obtain k2 where "listener_step op (Some k) = Some k2" "al_running k2" "\<not> al_looping k2" "al_thread k2 = al_thread k"
      using step [of k op] Cons.prems by auto
    then show ?case using Cons.IH [of k2] Cons.prems by simp
  qed simp
  then show ?thesis using dead assms(4) by blast
qed

lemma listener_dead_but_running_witness:
  "\<exists>l1 l2. thread_turn 0 0 (\<lambda>_. RxError) (snd (listener_start True (listener_new alarm_endpoint_default None))) = Some l1
    \<and> fold listener_step [OpStart True, OpTurn 5 5 (\<lambda>_. RxTimeout)] (Some l1) = Some l2 \<and> al_running l2"
proof -
  let ?l = "snd (listener_start True (listener_new alarm_endpoint_default None))"
  have f: "al_running ?l" "al_looping ?l" "al_thread ?l = Some thread_new"
    by (simp_all add: listener_start_def listener_new_def alarm_endpoint_default_def)
  then obtain l1 where l1: "thread_turn 0 0 (\<lambda>_. RxError) ?l = Some l1"
    by (simp add: thread_turn_def listener_pass_def Let_def)
  have "OpStop \<notin> set [OpStart True, OpTurn 5 5 (\<lambda>_. RxTimeout)]" by simp
  from listener_dead_but_running [OF f this l1] l1 show ?thesis by blast
qed

end
