(* ===== verification/RawUdp.thy ===== *)
theory RawUdp
  imports Util
begin

text \<open>
  Model of \<open>src/rawudp.rs\<close>: the Internet checksums, the Ethernet/IPv4/UDP frame builder and
  parser, and the endpoint built on them. A \<open>u32\<close> sum that overflows panics. The socket and
  the clock of \<open>recv_from\<close> are an oracle list: for every turn of its loop the instant read and
  what the socket delivers by the deadline.
\<close>

definition ETHERTYPE_IPV4 :: u16 where "ETHERTYPE_IPV4 = 0x0800"
definition IP_PROTO_UDP :: u8 where "IP_PROTO_UDP = 17"

definition add32 :: "u32 \<Rightarrow> u32 \<Rightarrow> u32 option" where
  "add32 a b = (if unat a + unat b < 4294967296 then Some (a + b) else None)"

fun sum_words :: "u32 \<Rightarrow> bytes \<Rightarrow> u32 option" where
  "sum_words acc (a # b # rest) = do { s \<leftarrow> add32 acc (ucast (from_be16 a b)); sum_words s rest }"
| "sum_words acc [b] = add32 acc (push_bit 8 (ucast b))"
| "sum_words acc [] = Some acc"

definition sum_be_words :: "bytes \<Rightarrow> u32 option" where
  "sum_be_words data = sum_words 0 data"

text \<open>One turn of the fold loop brings a sum above 16 bits down.\<close>

lemma unat_split16: "unat ((s AND 0xFFFF) + drop_bit 16 s :: u32) = unat s mod 65536 + unat s div 65536"
proof -
  have m: "(0xFFFF :: u32) = Bit_Operations.mask 16" by (simp add: mask_numeral)
  have a: "unat (s AND 0xFFFF :: u32) = unat s mod 65536"
    unfolding m take_bit_eq_mask [symmetric] by (simp add: unsigned_take_bit_eq take_bit_eq_mod unat_mod_distrib)
  have d: "unat (drop_bit 16 s :: u32) = unat s div 65536"
    by (simp add: drop_bit_eq_div unat_div_distrib)
  have "unat s div 65536 < 65536" using unat_u32_lt [of s] by (simp add: div_less_iff_less_mult)
  moreover have "unat s mod 65536 < 65536" by simp
  ultimately have "unat (s AND 0xFFFF :: u32) + unat (drop_bit 16 s :: u32) < 4294967296" unfolding a d by linarith
  then show ?thesis by (subst unat_plus_if') (simp add: a d)
qed

function fold_sum :: "u32 \<Rightarrow> u32" where
  "fold_sum s = (if 0xFFFF < s then fold_sum ((s AND 0xFFFF) + drop_bit 16 s) else s)"
  by pat_completeness auto
termination
proof (relation "measure unat")
  fix s :: u32
  assume "0xFFFF < s"
  then have "65535 < unat s" by (simp add: word_less_nat_alt)
  then have "1 \<le> unat s div 65536" by (simp add: less_eq_div_iff_mult_less_eq)
  then have "unat s mod 65536 + unat s div 65536 < unat s" using div_mult_mod_eq [of "unat s" 65536] by linarith
  then show "((s AND 0xFFFF) + drop_bit 16 s, s) \<in> measure unat" by (simp add: unat_split16)
qed simp

declare fold_sum.simps [simp del]

definition fold_checksum :: "u32 \<Rightarrow> u16" where
  "fold_checksum s = NOT (ucast (fold_sum s))"

definition ipv4_checksum :: "bytes \<Rightarrow> u16 option" where
  "ipv4_checksum header = map_option fold_checksum (sum_be_words header)"

text \<open>The sum both ends form: pseudo-header and datagram.\<close>

definition udp_sum :: "bytes \<Rightarrow> bytes \<Rightarrow> bytes \<Rightarrow> u32 option" where
  "udp_sum src_ip dst_ip udp = do {
     a \<leftarrow> sum_be_words src_ip;
     b \<leftarrow> sum_be_words dst_ip;
     s1 \<leftarrow> add32 a b;
     s2 \<leftarrow> add32 s1 (ucast IP_PROTO_UDP);
     s3 \<leftarrow> add32 s2 (as_u32 (length udp));
     c \<leftarrow> sum_be_words udp;
     add32 s3 c }"

definition udp_checksum :: "bytes \<Rightarrow> bytes \<Rightarrow> bytes \<Rightarrow> u16 option" where
  "udp_checksum src_ip dst_ip udp = do {
     s \<leftarrow> udp_sum src_ip dst_ip udp;
     Some (let c = fold_checksum s in if c = 0 then 0xFFFF else c) }"

definition build_udp_frame ::
    "bytes \<Rightarrow> bytes \<Rightarrow> bytes \<Rightarrow> bytes \<Rightarrow> u16 \<Rightarrow> u16 \<Rightarrow> u16 \<Rightarrow> bytes \<Rightarrow> bytes option" where
  "build_udp_frame src_mac dst_mac src_ip dst_ip src_port dst_port ip_id payload =
     (let udp_len = 8 + length payload;
          total_len = 20 + udp_len;
          ip0 = [0x45] @ [0x00] @ to_be16 (as_u16 total_len) @ to_be16 ip_id @ to_be16 0x4000 @ [64] @ [IP_PROTO_UDP]
            @ [0, 0] @ src_ip @ dst_ip;
          udp0 = to_be16 src_port @ to_be16 dst_port @ to_be16 (as_u16 udp_len) @ [0, 0] @ payload
      in do {
        ip_cksum \<leftarrow> ipv4_checksum ip0;
        ip \<leftarrow> copy_into ip0 10 2 (to_be16 ip_cksum);
        udp_cksum \<leftarrow> udp_checksum src_ip dst_ip udp0;
        udp \<leftarrow> copy_into udp0 6 2 (to_be16 udp_cksum);
        Some (dst_mac @ src_mac @ to_be16 ETHERTYPE_IPV4 @ ip @ udp) })"

definition parse_udp_frame :: "bytes \<Rightarrow> bytes \<Rightarrow> bytes \<Rightarrow> (bytes \<times> u16) option option" where
  "parse_udp_frame frame want_src_ip want_dst_ip =
     (if length frame < 14 then Some None
      else do {
        off \<leftarrow> skip_vlan_tags frame;
        (if length frame < off + 2 then Some None
         else do {
           ethertype \<leftarrow> be16_at frame off;
           (if ethertype \<noteq> ETHERTYPE_IPV4 then Some None
            else
              (let ip = off + 2 in
               if length frame < ip + 20 then Some None
               else do {
                 v \<leftarrow> idx frame ip;
                 (if drop_bit 4 v \<noteq> 4 then Some None
                  else
                    (let ihl = unat (v AND 0x0F) * 4 in
                     if ihl < 20 \<or> length frame < ip + ihl + 8 then Some None
                     else do {
                       frag \<leftarrow> be16_at frame (ip + 6);
                       (if frag AND 0x1FFF \<noteq> 0 then Some None
                        else do {
                          proto \<leftarrow> idx frame (ip + 9);
                          src \<leftarrow> sub_slice frame (ip + 12) (ip + 16);
                          dst \<leftarrow> sub_slice frame (ip + 16) (ip + 20);
                          (if proto \<noteq> IP_PROTO_UDP \<or> src \<noteq> want_src_ip \<or> dst \<noteq> want_dst_ip then Some None
                           else
                             (let udp = ip + ihl in do {
                                src_port \<leftarrow> be16_at frame udp;
                                len \<leftarrow> be16_at frame (udp + 4);
                                (let udp_len = unat len in
                                 if udp_len < 8 \<or> length frame < udp + udp_len then Some None
                                 else do {
                                   p \<leftarrow> sub_slice frame (udp + 8) (udp + udp_len);
                                   Some (Some (p, src_port)) }) })) }) })) })) }) })"

section \<open>The endpoint\<close>

record raw_udp =
  ru_src_mac :: bytes
  ru_dst_mac :: bytes
  ru_src_ip :: bytes
  ru_dst_ip :: bytes
  ru_local_port :: u16
  ru_ip_id :: u16

text \<open>Sending: the frame handed to the socket and the endpoint with the next IP id.\<close>

definition send_to_from :: "bytes \<Rightarrow> u16 \<Rightarrow> u16 \<Rightarrow> raw_udp \<Rightarrow> (bytes \<times> raw_udp) option" where
  "send_to_from payload src_port dst_port u = do {
     frame \<leftarrow> build_udp_frame (ru_src_mac u) (ru_dst_mac u) (ru_src_ip u) (ru_dst_ip u) src_port dst_port
       (ru_ip_id u) payload;
     Some (frame, u\<lparr>ru_ip_id := ru_ip_id u + 1\<rparr>) }"

definition send_to :: "bytes \<Rightarrow> u16 \<Rightarrow> raw_udp \<Rightarrow> (bytes \<times> raw_udp) option" where
  "send_to payload dst_port u = send_to_from payload (ru_local_port u) dst_port u"

datatype udp_recv = RecvWaiting | RecvError | RecvTimeout | RecvHit bytes u16

datatype sock_recv = SockFrame bytes | SockTimeout | SockError

fun recv_loop :: "nat \<Rightarrow> (nat \<times> sock_recv) list \<Rightarrow> raw_udp \<Rightarrow> udp_recv option" where
  "recv_loop deadline [] u = Some RecvWaiting"
| "recv_loop deadline ((now, r) # rest) u =
     (if deadline \<le> now then Some RecvTimeout
      else (case r of
          SockError \<Rightarrow> Some RecvError
        | SockTimeout \<Rightarrow> Some RecvTimeout
        | SockFrame frame \<Rightarrow> do {
            p \<leftarrow> parse_udp_frame frame (ru_dst_ip u) (ru_src_ip u);
            (case p of Some (payload, port) \<Rightarrow> Some (RecvHit payload port) | None \<Rightarrow> recv_loop deadline rest u) }))"

definition recv_from :: "nat \<Rightarrow> nat \<Rightarrow> (nat \<times> sock_recv) list \<Rightarrow> raw_udp \<Rightarrow> udp_recv option" where
  "recv_from now timeout rx u = recv_loop (now + timeout) rx u"

section \<open>The Internet checksum\<close>

text \<open>The sum of the 16-bit words as a natural number.\<close>

fun wsum :: "bytes \<Rightarrow> nat" where
  "wsum (a # b # rest) = unat (from_be16 a b) + wsum rest"
| "wsum [b] = 256 * unat b"
| "wsum [] = 0"

lemma add32_Some: "unat a + unat b < 4294967296 \<Longrightarrow> \<exists>s. add32 a b = Some s \<and> unat s = unat a + unat b"
  by (simp add: add32_def unat_plus_if')

lemma unat_hi_byte: "unat (push_bit 8 (ucast (b :: u8)) :: u32) = 256 * unat b"
proof -
  have u: "unat (ucast b :: u32) = unat b"
    using unat_u8_lt [of b] by (simp add: unsigned_ucast_eq take_bit_nat_eq_self)
  have "unat (push_bit 8 (ucast b :: u32)) = take_bit 32 (256 * unat b)"
    by (simp add: push_bit_eq_mult unat_word_ariths(2) u take_bit_eq_mod mult.commute)
  also have "\<dots> = 256 * unat b" using unat_u8_lt [of b] by (simp add: take_bit_nat_eq_self)
  finally show ?thesis .
qed

lemma sum_words_wsum:
  "unat acc + wsum d < 4294967296 \<Longrightarrow> \<exists>s. sum_words acc d = Some s \<and> unat s = unat acc + wsum d"
proof (induction acc d rule: sum_words.induct)
  case (1 acc a b rest)
  have "unat acc + unat (ucast (from_be16 a b) :: u32) < 4294967296" using 1(2) by (simp add: unat_ucast_u16)
  then obtain s where s: "add32 acc (ucast (from_be16 a b)) = Some s" "unat s = unat acc + unat (from_be16 a b)"
    using add32_Some by (metis unat_ucast_u16)
  then show ?case using 1 by (simp add: add.assoc)
next
  case (2 acc b)
  then show ?case using add32_Some [of acc "push_bit 8 (ucast b)"] by (simp add: unat_hi_byte)
qed simp

lemma wsum_bound: "2 * wsum d \<le> 65535 * (length d + 1)"
proof (induction d rule: wsum.induct)
  case (1 a b rest)
  then show ?case using unat_u16_lt [of "from_be16 a b"] by simp
next
  case (2 b)
  then show ?case using unat_u8_lt [of b] by simp
qed simp

lemma wsum_append: "even (length xs) \<Longrightarrow> wsum (xs @ ys) = wsum xs + wsum ys"
  by (induction xs rule: wsum.induct) auto

lemma wsum_be16 [simp]: "wsum (to_be16 w) = unat w" "wsum (to_be16 w @ ys) = unat w + wsum ys"
  by (simp_all add: to_be16_def)

lemma sum_be_words_wsum: "length d < 131000 \<Longrightarrow> \<exists>s. sum_be_words d = Some s \<and> unat s = wsum d"
  using sum_words_wsum [of 0 d] wsum_bound [of d] by (simp add: sum_be_words_def)

lemma fold_sum_spec:
  "unat (fold_sum s) \<le> 65535 \<and> unat (fold_sum s) mod 65535 = unat s mod 65535 \<and> (fold_sum s = 0 \<longleftrightarrow> s = 0)"
proof (induction s rule: fold_sum.induct)
  case (1 s)
  show ?case
  proof (cases "0xFFFF < s")
    case True
    let ?t = "(s AND 0xFFFF) + drop_bit 16 s"
    have u: "unat ?t = unat s mod 65536 + unat s div 65536" by (rule unat_split16)
    have "unat s = 65535 * (unat s div 65536) + unat ?t"
      using u div_mult_mod_eq [of "unat s" 65536] by linarith
    then have m: "unat ?t mod 65535 = unat s mod 65535" by (metis mod_mult_self4)
    have big: "65535 < unat s" using True by (simp add: word_less_nat_alt)
    then have "1 \<le> unat s div 65536" by (simp add: less_eq_div_iff_mult_less_eq)
    then have "0 < unat ?t" using u by simp
    then have "?t \<noteq> 0" by (metis unat_0 less_irrefl)
    moreover have "s \<noteq> 0" using True by auto
    ultimately show ?thesis using 1 [OF True] True m by (subst (1 2 3) fold_sum.simps) simp
  next
    case False
    then have "unat s \<le> 65535" by (simp add: word_less_nat_alt not_less)
    then show ?thesis using False by (subst (1 2 3) fold_sum.simps) simp
  qed
qed

lemma unat_not_u16: "unat (NOT (x :: u16)) = 65535 - unat x"
proof -
  have "NOT x = - 1 - x" by (simp add: not_eq_complement)
  moreover have "unat (- 1 - x) = unat (- 1 :: u16) - unat x" by (rule unat_sub) (rule word_n1_ge)
  moreover have "unat (- 1 :: u16) = 65535"
    by (simp add: unsigned_minus_1_eq_mask mask_eq_exp_minus_1)
  ultimately show ?thesis by simp
qed

lemma unat_fold_checksum: "unat (fold_checksum s) = 65535 - unat (fold_sum s)"
proof -
  have "unat (ucast (fold_sum s) :: u16) = unat (fold_sum s)"
    using fold_sum_spec [of s] by (simp add: unsigned_ucast_eq take_bit_nat_eq_self)
  then show ?thesis by (simp add: fold_checksum_def unat_not_u16)
qed

text \<open>A sum that is a positive multiple of 0xFFFF folds to the checksum 0.\<close>

lemma fold_checksum_zero:
  assumes "unat s mod 65535 = 0" and "0 < unat s"
  shows "fold_checksum s = 0"
proof -
  have "fold_sum s \<noteq> 0" using assms fold_sum_spec [of s] by auto
  then have "0 < unat (fold_sum s)" by (simp add: unat_gt_0)
  then have "unat (fold_sum s) = 65535" using assms fold_sum_spec [of s] by auto
  then have "unat (fold_checksum s) = 0" by (simp add: unat_fold_checksum)
  then show ?thesis by (simp add: unat_eq_zero)
qed

text \<open>Adding the checksum to a positive sum makes it a multiple of 0xFFFF.\<close>

lemma checksum_completes:
  assumes "0 < unat s"
  shows "(unat s + unat (fold_checksum s)) mod 65535 = 0"
proof -
  have le: "unat (fold_sum s) \<le> 65535" and m: "unat (fold_sum s) mod 65535 = unat s mod 65535"
    using fold_sum_spec [of s] by auto
  have "(unat s + unat (fold_checksum s)) mod 65535 = (unat s mod 65535 + (65535 - unat (fold_sum s))) mod 65535"
    by (simp only: unat_fold_checksum mod_add_left_eq)
  also have "\<dots> = (unat (fold_sum s) + (65535 - unat (fold_sum s))) mod 65535"
    by (simp only: m [symmetric] mod_add_left_eq)
  finally show ?thesis using le by simp
qed

lemma udp_sum_wsum:
  assumes "length src = 4" and "length dst = 4" and "length udp < 70000"
  shows "\<exists>s. udp_sum src dst udp = Some s \<and> unat s = wsum src + wsum dst + 17 + length udp + wsum udp"
proof -
  obtain a where a: "sum_be_words src = Some a" "unat a = wsum src" using sum_be_words_wsum [of src] assms by auto
  obtain b where b: "sum_be_words dst = Some b" "unat b = wsum dst" using sum_be_words_wsum [of dst] assms by auto
  obtain c where c: "sum_be_words udp = Some c" "unat c = wsum udp" using sum_be_words_wsum [of udp] assms by auto
  have bounds: "wsum src \<le> 163838" "wsum dst \<le> 163838" "wsum udp \<le> 65535 * 35000"
    using wsum_bound [of src] wsum_bound [of dst] wsum_bound [of udp] assms by simp_all
  obtain s1 where s1: "add32 a b = Some s1" "unat s1 = wsum src + wsum dst"
    using add32_Some [of a b] a b bounds by auto
  obtain s2 where s2: "add32 s1 (ucast IP_PROTO_UDP) = Some s2" "unat s2 = wsum src + wsum dst + 17"
    using add32_Some [of s1 "ucast IP_PROTO_UDP"] s1 bounds by (auto simp: IP_PROTO_UDP_def)
  obtain s3 where s3: "add32 s2 (as_u32 (length udp)) = Some s3" "unat s3 = wsum src + wsum dst + 17 + length udp"
    using add32_Some [of s2 "as_u32 (length udp)"] s2 bounds assms by auto
  obtain s4 where "add32 s3 c = Some s4" "unat s4 = wsum src + wsum dst + 17 + length udp + wsum udp"
    using add32_Some [of s3 c] s3 c bounds assms by auto
  then show ?thesis by (simp add: udp_sum_def a b c s1 s2 s3)
qed

text \<open>The two headers up to their checksum fields.\<close>

definition ip_front :: "u16 \<Rightarrow> nat \<Rightarrow> bytes" where
  "ip_front ip_id n = [0x45, 0x00] @ to_be16 (as_u16 (28 + n)) @ to_be16 ip_id @ to_be16 0x4000 @ [64, IP_PROTO_UDP]"

definition udp_front :: "u16 \<Rightarrow> u16 \<Rightarrow> nat \<Rightarrow> bytes" where
  "udp_front src_port dst_port n = to_be16 src_port @ to_be16 dst_port @ to_be16 (as_u16 (8 + n))"

lemma length_fronts [simp]: "length (ip_front i n) = 10" "length (udp_front s d n) = 6"
  by (simp_all add: ip_front_def udp_front_def)

lemma ip_front_pos: "0 < wsum (ip_front i n)"
  by (simp add: ip_front_def from_be16_def)

lemma ip_header_checksum:
  assumes "length ips = 8"
  shows "\<exists>c. ipv4_checksum (ip_front i n @ [0, 0] @ ips) = Some c
    \<and> ipv4_checksum (ip_front i n @ to_be16 c @ ips) = Some 0"
proof -
  let ?h = "\<lambda>m. ip_front i n @ m @ ips"
  obtain s where s: "sum_be_words (?h [0, 0]) = Some s" "unat s = wsum (?h [0, 0])"
    using sum_be_words_wsum [of "?h [0, 0]"] assms by auto
  let ?c = "fold_checksum s"
  obtain s' where s': "sum_be_words (?h (to_be16 ?c)) = Some s'" "unat s' = wsum (?h (to_be16 ?c))"
    using sum_be_words_wsum [of "?h (to_be16 ?c)"] assms by auto
  have z: "wsum (?h [0, 0]) = wsum (ip_front i n) + wsum ips"
    by (simp add: wsum_append from_be16_def)
  have t: "wsum (?h (to_be16 ?c)) = unat s + unat ?c"
    using z s by (simp add: wsum_append)
  have pos: "0 < unat s" using z s ip_front_pos [of i n] by simp
  have "fold_checksum s' = 0"
    using checksum_completes [OF pos] s' t pos by (intro fold_checksum_zero) simp_all
  then show ?thesis using s s' by (simp add: ipv4_checksum_def)
qed

lemma udp_datagram_checksum:
  assumes "length src = 4" and "length dst = 4" and "length p < 65528"
  shows "\<exists>d. udp_checksum src dst (udp_front sp dp (length p) @ [0, 0] @ p) = Some d \<and> d \<noteq> 0
    \<and> (\<exists>s. udp_sum src dst (udp_front sp dp (length p) @ to_be16 d @ p) = Some s \<and> fold_checksum s = 0)"
proof -
  let ?u = "\<lambda>m. udp_front sp dp (length p) @ m @ p"
  obtain s where s: "udp_sum src dst (?u [0, 0]) = Some s"
    "unat s = wsum src + wsum dst + 17 + length (?u [0, 0]) + wsum (?u [0, 0])"
    using udp_sum_wsum [of src dst "?u [0, 0]"] assms by auto
  define d where "d = (if fold_checksum s = 0 then 0xFFFF else fold_checksum s)"
  obtain s' where s': "udp_sum src dst (?u (to_be16 d)) = Some s'"
    "unat s' = wsum src + wsum dst + 17 + length (?u (to_be16 d)) + wsum (?u (to_be16 d))"
    using udp_sum_wsum [of src dst "?u (to_be16 d)"] assms by auto
  have "wsum (?u [0, 0]) = wsum (udp_front sp dp (length p)) + wsum p"
    by (simp add: wsum_append from_be16_def)
  moreover have "wsum (?u (to_be16 d)) = wsum (udp_front sp dp (length p)) + (unat d + wsum p)"
    by (simp add: wsum_append)
  ultimately have t: "unat s' = unat s + unat d" using s s' by simp
  have pos: "0 < unat s" using s by simp
  have m: "unat d mod 65535 = unat (fold_checksum s) mod 65535" by (simp add: d_def)
  have "(unat s + unat d) mod 65535 = (unat s + unat (fold_checksum s)) mod 65535"
    using m by (metis mod_add_right_eq)
  then have "fold_checksum s' = 0"
    using checksum_completes [OF pos] t pos by (intro fold_checksum_zero) simp_all
  moreover have "d \<noteq> 0" by (simp add: d_def)
  moreover have "udp_checksum src dst (?u [0, 0]) = Some d"
    unfolding udp_checksum_def s(1) by (simp add: Let_def d_def)
  ultimately show ?thesis using s'(1) by blast
qed

lemma build_udp_frame_shape:
  assumes "length src = 4" and "length dst = 4" and "length p < 65528"
  shows "\<exists>c d. build_udp_frame sm dm src dst sp dp i p
      = Some (dm @ sm @ to_be16 0x0800 @ (ip_front i (length p) @ to_be16 c @ src @ dst)
          @ udp_front sp dp (length p) @ to_be16 d @ p)
    \<and> ipv4_checksum (ip_front i (length p) @ to_be16 c @ src @ dst) = Some 0 \<and> d \<noteq> 0
    \<and> (\<exists>s. udp_sum src dst (udp_front sp dp (length p) @ to_be16 d @ p) = Some s \<and> fold_checksum s = 0)"
proof -
  let ?n = "length p"
  obtain c where c: "ipv4_checksum (ip_front i ?n @ [0, 0] @ src @ dst) = Some c"
    "ipv4_checksum (ip_front i ?n @ to_be16 c @ src @ dst) = Some 0"
    using ip_header_checksum [of "src @ dst" i ?n] assms by auto
  obtain d where d: "udp_checksum src dst (udp_front sp dp ?n @ [0, 0] @ p) = Some d" "d \<noteq> 0"
    "\<exists>s. udp_sum src dst (udp_front sp dp ?n @ to_be16 d @ p) = Some s \<and> fold_checksum s = 0"
    using udp_datagram_checksum [OF assms] by blast
  have ip: "[0x45] @ [0x00] @ to_be16 (as_u16 (20 + (8 + ?n))) @ to_be16 i @ to_be16 0x4000 @ [64] @ [IP_PROTO_UDP]
      @ [0, 0] @ src @ dst = ip_front i ?n @ [0, 0] @ src @ dst" by (simp add: ip_front_def)
  have udp: "to_be16 sp @ to_be16 dp @ to_be16 (as_u16 (8 + ?n)) @ [0, 0] @ p = udp_front sp dp ?n @ [0, 0] @ p"
    by (simp add: udp_front_def)
  have "copy_into (ip_front i ?n @ [0, 0] @ src @ dst) 10 2 (to_be16 c) = Some (ip_front i ?n @ to_be16 c @ src @ dst)"
    "copy_into (udp_front sp dp ?n @ [0, 0] @ p) 6 2 (to_be16 d) = Some (udp_front sp dp ?n @ to_be16 d @ p)"
    by simp_all
  then have "build_udp_frame sm dm src dst sp dp i p
      = Some (dm @ sm @ to_be16 0x0800 @ (ip_front i ?n @ to_be16 c @ src @ dst) @ udp_front sp dp ?n @ to_be16 d @ p)"
    unfolding build_udp_frame_def Let_def ip udp c(1) d(1) bind.bind_lunit
    by (simp add: ETHERTYPE_IPV4_def)
  with c(2) d show ?thesis by blast
qed

section \<open>Frames are delivered intact\<close>

lemma parse_udp_at:
  assumes "skip_vlan_tags (pre @ e) = Some (length pre)" and "12 \<le> length pre"
    and "length src = 4" and "length dst = 4" and "length p < 65528"
    and "e = to_be16 0x0800 @ ip_front i (length p) @ to_be16 c @ src @ dst
      @ udp_front sp dp (length p) @ to_be16 d @ p @ pad"
  shows "parse_udp_frame (pre @ e) src dst = Some (Some (p, sp))"
proof -
  let ?f = "pre @ e" and ?n = "length pre"
  have le: "length e = 30 + length p + length pad" using assms by simp
  have reads: "rd16 e 0 = 0x0800" "e ! 2 = 0x45" "rd16 e 8 = 0x4000" "e ! 11 = 17"
    "rd16 e 22 = sp" "rd16 e 26 = as_u16 (8 + length p)"
    using assms(3,4) by (simp_all add: assms(6) ip_front_def udp_front_def wire_simps nth_append IP_PROTO_UDP_def)
  have parts: "take 4 (drop 14 e) = src" "take 4 (drop 18 e) = dst" "take (length p) (drop 30 e) = p"
    using assms(3,4) by (simp_all add: assms(6))
  have u: "unat (as_u16 (8 + length p)) = 8 + length p" using assms(5) by simp
  have v: "drop_bit 4 (0x45 :: u8) = 4" "unat (0x45 AND 0x0F :: u8) * 4 = 20" "(0x4000 AND 0x1FFF :: u16) = 0"
    by (simp_all add: drop_bit_eq_div)
  have rd: "rd16 ?f (k + ?n) = rd16 e k" "rd16 ?f ?n = rd16 e 0" for k by (simp_all add: rd16_skip)
  have nt: "?f ! (k + ?n) = e ! k" for k by (simp add: nth_append)
  have tk: "take m (drop (k + ?n) ?f) = take m (drop k e)" for k m by simp
  have cmp: "?n + k = k + ?n" for k by simp
  show ?thesis
    using assms(2) le
    by (simp add: parse_udp_frame_def assms(1) Let_def cmp rd nt tk reads parts u v ETHERTYPE_IPV4_def IP_PROTO_UDP_def
        add.assoc [symmetric] del: add_2_eq_Suc add_2_eq_Suc' drop_append take_append)
qed

text \<open>
  C19: What the raw UDP path sends is a correct datagram and is received as sent: the built frame
  carries IPv4 and UDP checksums that verify (the UDP one never 0), and the receiver - behind
  any VLAN tags and with any Ethernet padding - gets exactly the payload and the source port.
\<close>

theorem udp_frame_valid:
  assumes "length sm = 6" and "length dm = 6" and "length src = 4" and "length dst = 4" and "length p < 65528"
    and "\<forall>t \<in> set ts. fst t \<in> set VLAN_TPIDS"
  shows "\<exists>ip udp s. build_udp_frame sm dm src dst sp dp i p = Some (dm @ sm @ to_be16 0x0800 @ ip @ udp)
    \<and> length ip = 20 \<and> ipv4_checksum ip = Some 0
    \<and> rd16 udp 6 \<noteq> 0 \<and> udp_sum src dst udp = Some s \<and> fold_checksum s = 0
    \<and> parse_udp_frame (dm @ sm @ concat (map vlan_tag ts) @ to_be16 0x0800 @ ip @ udp @ pad) src dst = Some (Some (p, sp))"
proof -
  let ?n = "length p"
  obtain c d s where b: "build_udp_frame sm dm src dst sp dp i p
      = Some (dm @ sm @ to_be16 0x0800 @ (ip_front i ?n @ to_be16 c @ src @ dst) @ udp_front sp dp ?n @ to_be16 d @ p)"
    and c: "ipv4_checksum (ip_front i ?n @ to_be16 c @ src @ dst) = Some 0" and d: "d \<noteq> 0"
    and s: "udp_sum src dst (udp_front sp dp ?n @ to_be16 d @ p) = Some s" "fold_checksum s = 0"
    using build_udp_frame_shape [OF assms(3-5)] by blast
  let ?e = "to_be16 0x0800 @ ip_front i ?n @ to_be16 c @ src @ dst @ udp_front sp dp ?n @ to_be16 d @ p @ pad"
  let ?pre = "dm @ sm @ concat (map vlan_tag ts)"
  have l: "length ?pre = 12 + 4 * length ts"
    using assms(1,2) by (simp add: length_concat comp_def vlan_tag_def sum_list_triv)
  have "skip_vlan_tags (?pre @ ?e) = Some (length ?pre)"
    using vlan_walk_tags [of ts "0x0800" "dm @ sm"] assms l by (simp add: skip_vlan_tags_def VLAN_TPIDS_def)
  then have "parse_udp_frame (?pre @ ?e) src dst = Some (Some (p, sp))"
    using l assms by (intro parse_udp_at [OF _ _ _ _ _ refl]) simp_all
  then show ?thesis using b c d s assms(3,4)
    by (intro exI [of _ "ip_front i ?n @ to_be16 c @ src @ dst"] exI [of _ "udp_front sp dp ?n @ to_be16 d @ p"]
        exI [of _ s]) (simp add: rd16_skip)
qed

lemma udp_frame_valid_witness:
  "\<exists>ip udp s. build_udp_frame [2,0,0,0,0,1] [2,0,0,0,0,2] [10,0,0,1] [10,0,0,2] 49152 34964 7 [1, 2, 3]
      = Some ([2,0,0,0,0,2] @ [2,0,0,0,0,1] @ to_be16 0x0800 @ ip @ udp)
    \<and> length ip = 20 \<and> ipv4_checksum ip = Some 0
    \<and> rd16 udp 6 \<noteq> 0 \<and> udp_sum [10,0,0,1] [10,0,0,2] udp = Some s \<and> fold_checksum s = 0
    \<and> parse_udp_frame ([2,0,0,0,0,2] @ [2,0,0,0,0,1] @ concat (map vlan_tag [(0x8100, 0)]) @ to_be16 0x0800 @ ip @ udp @ [0, 0])
        [10,0,0,1] [10,0,0,2] = Some (Some ([1, 2, 3], 49152))"
  by (rule udp_frame_valid) (simp_all add: VLAN_TPIDS_def)

section \<open>Receiving\<close>

lemma parse_udp_frame_total: "parse_udp_frame frame src dst \<noteq> None"
proof -
  obtain at where "skip_vlan_tags frame = Some at" "12 \<le> at" "at = 12 \<or> at \<le> length frame"
    by (rule skip_vlan_tags_Some)
  then show ?thesis by (auto simp: parse_udp_frame_def Let_def)
qed

text \<open>Receiving never panics and never reports a datagram past the deadline.\<close>

lemma recv_loop_total: "recv_loop deadline rx u \<noteq> None"
proof (induction deadline rx u rule: recv_loop.induct)
  case (2 deadline now r rest u)
  show ?case
  proof (cases r)
    case (SockFrame f)
    obtain q where "parse_udp_frame f (ru_dst_ip u) (ru_src_ip u) = Some q" using parse_udp_frame_total by blast
    with 2 SockFrame show ?thesis by (cases "deadline \<le> now") (auto split: option.splits)
  qed simp_all
qed simp

lemma recv_loop_hit:
  "recv_loop deadline rx u = Some (RecvHit p port) \<Longrightarrow>
   \<exists>now f. (now, SockFrame f) \<in> set rx \<and> now < deadline
     \<and> parse_udp_frame f (ru_dst_ip u) (ru_src_ip u) = Some (Some (p, port))"
  by (induction deadline rx u rule: recv_loop.induct)
    (auto split: if_splits sock_recv.splits option.splits Option.bind_splits, (metis not_le)+)

end
