(* ===== verification/Control.thy ===== *)
theory Control
  imports Util
begin

text \<open>
  Model of the control layer of \<open>src/bin/profinet.rs\<close>: the bounded line reader, the command
  parser, the pulse shapers and the driven output byte, and the exit policies. A \<open>str\<close> is its UTF-8 byte string, a
  character holding one byte; an emitted NDJSON line is a log entry with its fields.
\<close>

definition SAFE_OUTPUT_BYTE :: u8 where "SAFE_OUTPUT_BYTE = 0x00"
definition PULSE_TICKS :: nat where "PULSE_TICKS = 3"
definition PULSE_COOLDOWN_TICKS :: nat where "PULSE_COOLDOWN_TICKS = 3"
definition CONTROL_DEADMAN :: nat where "CONTROL_DEADMAN = 5000000"
definition MAX_STDIN_LINE :: nat where "MAX_STDIN_LINE = 4096"
definition PACED_READ_RETRIES :: nat where "PACED_READ_RETRIES = 4"
definition PNIO_BUSY_STATUS :: string where "PNIO_BUSY_STATUS = ''DE80C200''"

section \<open>Text\<close>

fun strip_prefix :: "string \<Rightarrow> string \<Rightarrow> string option" where
  "strip_prefix [] s = Some s"
| "strip_prefix (p # ps) (c # s) = (if p = c then strip_prefix ps s else None)"
| "strip_prefix (p # ps) [] = None"

text \<open>\<open>find\<close> of a pattern followed by a slice past it: what comes after its first occurrence.\<close>

fun after_first :: "string \<Rightarrow> string \<Rightarrow> string option" where
  "after_first pat [] = (if pat = [] then Some [] else None)"
| "after_first pat (c # s) =
     (case strip_prefix pat (c # s) of Some r \<Rightarrow> Some r | None \<Rightarrow> after_first pat s)"

definition QUOTE :: char where "QUOTE = char_of (34 :: nat)"

definition json_field_raw :: "string \<Rightarrow> string \<Rightarrow> string option" where
  "json_field_raw line key = do {
     rest \<leftarrow> after_first (QUOTE # key @ [QUOTE]) line;
     r \<leftarrow> strip_prefix '':'' (trim_start rest);
     Some (trim_start r) }"

definition json_field_str :: "string \<Rightarrow> string \<Rightarrow> string option" where
  "json_field_str line key = do {
     raw \<leftarrow> json_field_raw line key;
     rest \<leftarrow> strip_prefix [QUOTE] raw;
     (if QUOTE \<in> set rest then Some (takeWhile (\<lambda>c. c \<noteq> QUOTE) rest) else None) }"

definition json_field_bool :: "string \<Rightarrow> string \<Rightarrow> bool option" where
  "json_field_bool line key = do {
     rest \<leftarrow> json_field_raw line key;
     (if strip_prefix ''true'' rest \<noteq> None then Some True
      else if strip_prefix ''false'' rest \<noteq> None then Some False
      else None) }"

definition is_alnum :: "char \<Rightarrow> bool" where
  "is_alnum c = (is_digit c \<or> (65 \<le> byte_of c \<and> byte_of c \<le> 90) \<or> (97 \<le> byte_of c \<and> byte_of c \<le> 122))"

text \<open>\<open>uN::from_str_radix\<close>: an optional plus sign, at least one digit, and a bound.\<close>

definition from_str_radix :: "nat \<Rightarrow> nat \<Rightarrow> string \<Rightarrow> nat option" where
  "from_str_radix limit r s =
     (let ds = (case s of c # rest \<Rightarrow> if c = CHR ''+'' then rest else s | [] \<Rightarrow> []);
          ok = (if r = 16 then is_hexdigit else is_digit);
          v = foldl (\<lambda>a c. a * r + digit_val c) 0 ds
      in if ds = [] \<or> \<not> list_all ok ds \<or> limit < v then None else Some v)"

definition json_token :: "string \<Rightarrow> string \<Rightarrow> string option" where
  "json_token line key = do {
     raw \<leftarrow> json_field_raw line key;
     (let rest0 = trim_start raw;
          rest = (case strip_prefix [QUOTE] rest0 of Some r \<Rightarrow> r | None \<Rightarrow> rest0)
      in Some (takeWhile is_alnum rest)) }"

definition json_field_u8 :: "string \<Rightarrow> string \<Rightarrow> u8 option" where
  "json_field_u8 line key = do {
     token \<leftarrow> json_token line key;
     v \<leftarrow> (case strip_prefix ''0x'' token of
         Some hex \<Rightarrow> from_str_radix 255 16 hex
       | None \<Rightarrow> (case strip_prefix ''0X'' token of
           Some hex \<Rightarrow> from_str_radix 255 16 hex
         | None \<Rightarrow> from_str_radix 255 10 token));
     Some (of_nat v) }"

section \<open>Commands\<close>

datatype control_cmd = SetLevel u8 bool | Pulse u8 | Keepalive | Quit

datatype cmd_error = MissingCmd | SetLevelNeedsMask | SetLevelNeedsOn | PulseNeedsMask | UnknownCmd string

definition parse_control_cmd :: "string \<Rightarrow> cmd_error + control_cmd" where
  "parse_control_cmd line =
     (case json_field_str line ''cmd'' of
        None \<Rightarrow> Inl MissingCmd
      | Some cmd \<Rightarrow>
          (if cmd = ''set_level'' then
             (case json_field_u8 line ''mask'' of
                None \<Rightarrow> Inl SetLevelNeedsMask
              | Some m \<Rightarrow> (case json_field_bool line ''on'' of
                  None \<Rightarrow> Inl SetLevelNeedsOn | Some b \<Rightarrow> Inr (SetLevel m b)))
           else if cmd = ''pulse'' then
             (case json_field_u8 line ''mask'' of None \<Rightarrow> Inl PulseNeedsMask | Some m \<Rightarrow> Inr (Pulse m))
           else if cmd = ''keepalive'' then Inr Keepalive
           else if cmd = ''quit'' then Inr Quit
           else Inl (UnknownCmd cmd)))"

section \<open>Pulse shapers and the driven byte\<close>

record edge_pulse =
  ep_remaining :: nat
  ep_cooldown :: nat

definition edge_pulse_default :: edge_pulse where
  "edge_pulse_default = \<lparr>ep_remaining = 0, ep_cooldown = 0\<rparr>"

datatype pulse_error = PulseActive | PulseCooling

definition trigger :: "edge_pulse \<Rightarrow> (pulse_error + unit) \<times> edge_pulse" where
  "trigger p =
     (if 0 < ep_remaining p then (Inl PulseActive, p)
      else if 0 < ep_cooldown p then (Inl PulseCooling, p)
      else (Inr (), p\<lparr>ep_remaining := PULSE_TICKS\<rparr>))"

definition pulse_active :: "edge_pulse \<Rightarrow> bool" where
  "pulse_active p = (0 < ep_remaining p)"

fun pulse_tick :: "nat \<Rightarrow> edge_pulse \<Rightarrow> edge_pulse" where
  "pulse_tick 0 p = p"
| "pulse_tick (Suc n) p =
     (if 0 < ep_remaining p then
        (let p1 = p\<lparr>ep_remaining := ep_remaining p - 1\<rparr>
         in pulse_tick n (if ep_remaining p1 = 0 then p1\<lparr>ep_cooldown := PULSE_COOLDOWN_TICKS\<rparr> else p1))
      else if 0 < ep_cooldown p then pulse_tick n (p\<lparr>ep_cooldown := ep_cooldown p - 1\<rparr>)
      else p)"

record control_state =
  cs_level :: u8
  cs_pulses :: "(u8 \<times> edge_pulse) list"

definition control_state_default :: control_state where
  "control_state_default = \<lparr>cs_level = 0, cs_pulses = []\<rparr>"

definition effective :: "control_state \<Rightarrow> u8" where
  "effective s = foldl (\<lambda>acc e. acc OR fst e) (cs_level s) (filter (\<lambda>e. pulse_active (snd e)) (cs_pulses s))"

fun trigger_in :: "u8 \<Rightarrow> (u8 \<times> edge_pulse) list \<Rightarrow> ((pulse_error + unit) \<times> (u8 \<times> edge_pulse) list) option" where
  "trigger_in mask' [] = None"
| "trigger_in mask' ((m, p) # ps) =
     (if m = mask' then Some (fst (trigger p), (m, snd (trigger p)) # ps)
      else map_option (\<lambda>r. (fst r, (m, p) # snd r)) (trigger_in mask' ps))"

definition trigger_pulse :: "u8 \<Rightarrow> control_state \<Rightarrow> (pulse_error + unit) \<times> control_state" where
  "trigger_pulse mask' s =
     (case trigger_in mask' (cs_pulses s) of
        Some r \<Rightarrow> (fst r, s\<lparr>cs_pulses := snd r\<rparr>)
      | None \<Rightarrow>
          (let r = trigger edge_pulse_default in
           case fst r of Inl e \<Rightarrow> (Inl e, s)
           | Inr _ \<Rightarrow> (Inr (), s\<lparr>cs_pulses := cs_pulses s @ [(mask', snd r)]\<rparr>)))"

definition control_tick :: "nat \<Rightarrow> control_state \<Rightarrow> control_state" where
  "control_tick periods s = s\<lparr>cs_pulses := map (\<lambda>e. (fst e, pulse_tick periods (snd e))) (cs_pulses s)\<rparr>"

datatype refusal = OutsideAllowMask u8 | PulseRefused pulse_error

datatype control_line =
    AckSetLevel u8 bool u8
  | AckPulse u8 nat
  | AckKeepalive
  | RefusedCmd string u8 refusal

text \<open>The line emitted (if any), whether the command is \<open>quit\<close>, and the new state.\<close>

definition apply_control_cmd ::
    "control_cmd \<Rightarrow> u8 \<Rightarrow> control_state \<Rightarrow> control_line list \<times> bool \<times> control_state" where
  "apply_control_cmd cmd allow_mask s =
     (let requested = (case cmd of SetLevel m _ \<Rightarrow> Some m | Pulse m \<Rightarrow> Some m | _ \<Rightarrow> None);
          name = (case cmd of Pulse _ \<Rightarrow> ''pulse'' | _ \<Rightarrow> ''set_level'');
          refused = (case requested of Some m \<Rightarrow> m AND NOT allow_mask \<noteq> 0 | None \<Rightarrow> False)
      in if refused then ([RefusedCmd name (the requested) (OutsideAllowMask allow_mask)], False, s)
         else (case cmd of
             SetLevel m on \<Rightarrow>
               (let s1 = s\<lparr>cs_level := (if on then cs_level s OR m else cs_level s AND NOT m)\<rparr>
                in ([AckSetLevel m on (cs_level s1)], False, s1))
           | Pulse m \<Rightarrow>
               (let r = trigger_pulse m s
                in (case fst r of Inr _ \<Rightarrow> [AckPulse m PULSE_TICKS] | Inl e \<Rightarrow> [RefusedCmd ''pulse'' m (PulseRefused e)],
                    False, snd r))
           | Keepalive \<Rightarrow> ([AckKeepalive], False, s)
           | Quit \<Rightarrow> ([], True, s)))"

section \<open>Records and policies\<close>

definition should_hard_exit :: "bool \<Rightarrow> bool \<Rightarrow> bool" where
  "should_hard_exit already_shutting_down safe_to_hard_exit = (already_shutting_down \<and> safe_to_hard_exit)"

text \<open>\<open>Err\<close> of the two validators with the offending text or number.\<close>

datatype arg_error = WatchdogNotNumber string | WatchdogRange nat | CycleMs nat

definition parse_watchdog_factor :: "string \<Rightarrow> arg_error + u16" where
  "parse_watchdog_factor text =
     (case from_str_radix 65535 10 text of
        None \<Rightarrow> Inl (WatchdogNotNumber text)
      | Some v \<Rightarrow> if 1 \<le> v \<and> v \<le> 1024 then Inr (of_nat v) else Inl (WatchdogRange v))"

definition is_power_of_two :: "nat \<Rightarrow> bool" where
  "is_power_of_two n = (n \<in> set (map (\<lambda>k. 2 ^ k) [0..<16]))"

definition validate_cycle_ms :: "u16 \<Rightarrow> arg_error + unit" where
  "validate_cycle_ms cycle_ms =
     (if \<not> (1 \<le> unat cycle_ms \<and> unat cycle_ms \<le> 512) \<or> \<not> is_power_of_two (unat cycle_ms)
      then Inl (CycleMs (unat cycle_ms)) else Inr ())"

text \<open>\<open>record.get(i)\<close> is \<open>idx\<close>, its \<open>None\<close> the function's own.\<close>

definition skip_counted :: "bytes \<Rightarrow> nat \<Rightarrow> nat option" where
  "skip_counted record pos = do { count \<leftarrow> idx record pos; Some (pos + 1 + unat count) }"

definition parse_input_data_length :: "bytes \<Rightarrow> nat option" where
  "parse_input_data_length record = do {
     pos1 \<leftarrow> skip_counted record 6;
     pos2 \<leftarrow> skip_counted record pos1;
     hi \<leftarrow> idx record pos2;
     lo \<leftarrow> idx record (pos2 + 1);
     (let len = unat (from_be16 hi lo) in
      if length record < pos2 + 2 + len then None else Some len) }"

definition parse_output_control_byte :: "bytes \<Rightarrow> u8 option option" where
  "parse_output_control_byte record =
     (if length record < 12 then Some None
      else do {
        t0 \<leftarrow> idx record 0;
        t1 \<leftarrow> idx record 1;
        (if t0 \<noteq> 0x00 \<or> t1 \<noteq> 0x16 then Some None
         else do {
           len_iocs \<leftarrow> idx record 8;
           n \<leftarrow> be16_at record 10;
           (if n = 0 then Some None else Some (idx record (12 + unat len_iocs))) }) })"

definition output_substitute_active :: "bytes \<Rightarrow> bool option" where
  "output_substitute_active record =
     (if 8 \<le> length record then do { v \<leftarrow> be16_at record 6; Some (v \<noteq> 0) } else Some False)"

text \<open>\<open>str::contains\<close>\<close>

definition contains :: "string \<Rightarrow> string \<Rightarrow> bool" where
  "contains msg pat = (after_first pat msg \<noteq> None)"

definition is_transport_failure :: "string \<Rightarrow> bool" where
  "is_transport_failure msg = (\<not> contains msg ''PNIO error status'')"

text \<open>
  \<open>paced_read\<close>: the answers of successive reads are the oracle. \<open>last\<close> is the BUSY error
  last seen; the result says which reads were issued.
\<close>

datatype paced_error = ReadFailed string | StillBusy nat string

fun paced_loop :: "nat \<Rightarrow> u16 \<Rightarrow> string \<Rightarrow> (nat \<Rightarrow> string + bytes) \<Rightarrow> nat \<Rightarrow> (paced_error + bytes) \<times> nat" where
  "paced_loop 0 index last_err read attempt = (Inl (StillBusy (unat index) last_err), attempt)"
| "paced_loop (Suc n) index last_err read attempt =
     (case read attempt of
        Inr d \<Rightarrow> (Inr d, attempt + 1)
      | Inl e \<Rightarrow> if contains e PNIO_BUSY_STATUS then paced_loop n index e read (attempt + 1)
                else (Inl (ReadFailed e), attempt + 1))"

definition paced_read :: "u16 \<Rightarrow> (nat \<Rightarrow> string + bytes) \<Rightarrow> (paced_error + bytes) \<times> nat" where
  "paced_read index read = paced_loop PACED_READ_RETRIES index [] read 0"

section \<open>Bounded lines\<close>

text \<open>
  A reader is the bytes still to come and whether the stream then fails rather than ends. One
  \<open>take(max).read_until\<close> delivers up to and including the newline, at most \<open>max\<close> bytes.
\<close>

type_synonym reader = "bytes \<times> bool"

definition NL :: u8 where "NL = 10"
definition CR :: u8 where "CR = 13"

definition until_nl :: "bytes \<Rightarrow> bytes" where
  "until_nl bs = takeWhile (\<lambda>b. b \<noteq> NL) bs @ (if NL \<in> set bs then [NL] else [])"

definition read_chunk :: "nat \<Rightarrow> reader \<Rightarrow> bytes option \<times> reader" where
  "read_chunk limit r =
     (let c = until_nl (take limit (fst r)) in
      if (c \<noteq> [] \<and> last c = NL) \<or> limit \<le> length (fst r) then (Some c, (drop (length c) (fst r), snd r))
      else if snd r then (None, ([], True))
      else (Some c, ([], False)))"

text \<open>Discarding the rest of an over-long line, chunk by chunk.\<close>

lemma length_until_nl: "length (until_nl bs) \<le> length bs"
  by (induction bs) (auto simp: until_nl_def)

lemma read_chunk_shorter:
  assumes "(Some c, r') = read_chunk limit r" and "c \<noteq> []"
  shows "length (fst r') < length (fst r)"
proof -
  have "length c \<le> length (fst r)" "r' = (drop (length c) (fst r), snd r) \<or> r' = ([], False)"
    using assms(1) length_until_nl [of "take limit (fst r)"] by (auto simp: read_chunk_def Let_def split: if_splits)
  moreover have "0 < length c" using assms(2) by simp
  ultimately show ?thesis by (metis diff_less fst_conv length_drop list.size(3) order_less_le_trans)
qed

function skip_line :: "nat \<Rightarrow> reader \<Rightarrow> reader" where
  "skip_line limit r =
     (case read_chunk limit r of
        (None, r') \<Rightarrow> r'
      | (Some c, r') \<Rightarrow> if c = [] \<or> last c = NL then r' else skip_line limit r')"
  by pat_completeness auto
termination
  by (relation "measure (\<lambda>(m, r). length (fst r))") (auto intro!: read_chunk_shorter)

declare skip_line.simps [simp del]

text \<open>\<open>String::from_utf8\<close>: well-formed UTF-8.\<close>

fun utf8_ok :: "nat list \<Rightarrow> bool" where
  "utf8_ok [] = True"
| "utf8_ok (a # rest) =
     (if a < 0x80 then utf8_ok rest
      else (case rest of
          [] \<Rightarrow> False
        | b # rest1 \<Rightarrow>
            (if \<not> (0x80 \<le> b \<and> b \<le> 0xBF) then False
             else if 0xC2 \<le> a \<and> a \<le> 0xDF then utf8_ok rest1
             else (case rest1 of
                 [] \<Rightarrow> False
               | c # rest2 \<Rightarrow>
                   (if \<not> (0x80 \<le> c \<and> c \<le> 0xBF) then False
                    else if a = 0xE0 then 0xA0 \<le> b \<and> utf8_ok rest2
                    else if a = 0xED then b \<le> 0x9F \<and> utf8_ok rest2
                    else if 0xE1 \<le> a \<and> a \<le> 0xEF then utf8_ok rest2
                    else (case rest2 of
                        [] \<Rightarrow> False
                      | d # rest3 \<Rightarrow>
                          (if \<not> (0x80 \<le> d \<and> d \<le> 0xBF) then False
                           else if a = 0xF0 then 0x90 \<le> b \<and> utf8_ok rest3
                           else if a = 0xF4 then b \<le> 0x8F \<and> utf8_ok rest3
                           else if 0xF1 \<le> a \<and> a \<le> 0xF3 then utf8_ok rest3
                           else False)))))))"

datatype line_result = EndOfInput | LineTooLong | Line bytes

definition strip_eol :: "bytes \<Rightarrow> bytes" where
  "strip_eol b = (if b \<noteq> [] \<and> last b = CR then butlast b else b)"

definition read_bounded_line :: "nat \<Rightarrow> reader \<Rightarrow> line_result \<times> reader" where
  "read_bounded_line limit r =
     (case read_chunk limit r of
        (None, r') \<Rightarrow> (EndOfInput, r')
      | (Some buf, r') \<Rightarrow>
          (if buf = [] then (EndOfInput, r')
           else if last buf \<noteq> NL \<and> length buf = limit then (LineTooLong, skip_line limit r')
           else
             (let b = (if last buf = NL then strip_eol (butlast buf) else buf)
              in if utf8_ok (map unat b) then (Line b, r') else (EndOfInput, r'))))"

section \<open>Only allowed bits are ever driven\<close>

text \<open>The clients of a control state: commands under a fixed allow mask, and elapsed cycles.\<close>

datatype control_op = OpCmd control_cmd | OpTick nat

fun control_step :: "u8 \<Rightarrow> control_op \<Rightarrow> control_state \<Rightarrow> control_state" where
  "control_step allow (OpCmd c) s = snd (snd (apply_control_cmd c allow s))"
| "control_step allow (OpTick n) s = control_tick n s"

definition within :: "u8 \<Rightarrow> u8 \<Rightarrow> bool" where
  "within allow b \<longleftrightarrow> b AND NOT allow = 0"

definition shaper_ok :: "edge_pulse \<Rightarrow> bool" where
  "shaper_ok p \<longleftrightarrow> ep_remaining p \<le> 3 \<and> ep_cooldown p \<le> 3 \<and> (0 < ep_remaining p \<longrightarrow> ep_cooldown p = 0)"

definition control_ok :: "u8 \<Rightarrow> control_state \<Rightarrow> bool" where
  "control_ok allow s \<longleftrightarrow> within allow (cs_level s)
     \<and> (\<forall>e \<in> set (cs_pulses s). within allow (fst e) \<and> shaper_ok (snd e)) \<and> distinct (map fst (cs_pulses s))"

lemma within_or: "within m a \<Longrightarrow> within m b \<Longrightarrow> within m (a OR b)"
  by (simp add: within_def bit.conj_disj_distrib2)

lemma within_and: "within m a \<Longrightarrow> within m (a AND b)"
  by (metis (no_types, lifting) and.assoc and.commute and_zero_eq within_def)

lemma trigger_ok: "shaper_ok p \<Longrightarrow> shaper_ok (snd (trigger p))"
  by (auto simp: trigger_def shaper_ok_def PULSE_TICKS_def)

lemma pulse_tick_ok: "shaper_ok p \<Longrightarrow> shaper_ok (pulse_tick n p)"
  by (induction n p rule: pulse_tick.induct) (auto simp: shaper_ok_def PULSE_COOLDOWN_TICKS_def Let_def)

lemma trigger_in_ok:
  "trigger_in m ps = Some (r, ps') \<Longrightarrow> \<forall>e \<in> set ps. within allow (fst e) \<and> shaper_ok (snd e) \<Longrightarrow>
   map fst ps' = map fst ps \<and> (\<forall>e \<in> set ps'. within allow (fst e) \<and> shaper_ok (snd e))"
  by (induction m ps arbitrary: r ps' rule: trigger_in.induct) (fastforce split: if_splits intro: trigger_ok)+

lemma trigger_in_None: "trigger_in m ps = None \<longleftrightarrow> m \<notin> fst ` set ps"
  by (induction m ps rule: trigger_in.induct) auto

lemma trigger_pulse_ok:
  assumes "control_ok allow s" and "within allow m"
  shows "control_ok allow (snd (trigger_pulse m s))"
proof (cases "trigger_in m (cs_pulses s)")
  case None
  then show ?thesis using assms trigger_in_None [of m "cs_pulses s"]
    by (auto simp: trigger_pulse_def control_ok_def trigger_def edge_pulse_default_def shaper_ok_def PULSE_TICKS_def)
next
  case (Some r)
  then show ?thesis using assms trigger_in_ok [of m "cs_pulses s" "fst r" "snd r" allow]
    by (auto simp: trigger_pulse_def control_ok_def)
qed

lemma apply_control_cmd_ok:
  assumes "control_ok allow s"
  shows "control_ok allow (snd (snd (apply_control_cmd c allow s)))"
proof (cases c)
  case (SetLevel m on)
  then show ?thesis using assms
    by (auto simp: apply_control_cmd_def Let_def control_ok_def within_def [symmetric] intro!: within_or within_and)
next
  case (Pulse m)
  then show ?thesis using assms trigger_pulse_ok [of allow s m]
    by (auto simp: apply_control_cmd_def Let_def within_def [symmetric])
qed (use assms in \<open>simp_all add: apply_control_cmd_def Let_def\<close>)

lemma control_tick_ok: "control_ok allow s \<Longrightarrow> control_ok allow (control_tick n s)"
  by (auto simp: control_ok_def control_tick_def pulse_tick_ok comp_def)

interpretation ctl: op_system "control_step allow" "control_ok allow" for allow
proof
  fix s :: control_state and op
  assume "control_ok allow s"
  then show "control_ok allow (control_step allow op s)"
    by (cases op) (auto intro: apply_control_cmd_ok control_tick_ok)
qed

lemma within_foldl: "within m a \<Longrightarrow> \<forall>e \<in> set es. within m (fst e) \<Longrightarrow> within m (foldl (\<lambda>acc e. acc OR fst e) a es)"
  by (induction es arbitrary: a) (auto intro: within_or)

lemma effective_within: "control_ok allow s \<Longrightarrow> within allow (effective s)"
  unfolding effective_def by (rule within_foldl) (auto simp: control_ok_def)

lemma pulse_tick_off: "shaper_ok p \<Longrightarrow> 3 \<le> n \<Longrightarrow> \<not> pulse_active (pulse_tick n p)"
proof -
  have "ep_remaining p \<le> n \<Longrightarrow> ep_remaining (pulse_tick n p) = 0" for n p
    by (induction n p rule: pulse_tick.induct) (auto simp: Let_def)
  then show "shaper_ok p \<Longrightarrow> 3 \<le> n \<Longrightarrow> \<not> pulse_active (pulse_tick n p)"
    by (simp add: shaper_ok_def pulse_active_def)
qed

lemma control_ok_default: "control_ok allow control_state_default"
  by (simp add: control_ok_def control_state_default_def within_def)

text \<open>
  The allow mask is the only authority over the output: whatever commands arrive in whatever
  order, interleaved with any number of elapsed cycles, the byte to drive has no bit outside the
  mask; and no pulse can be left set - three cycles without a new command leave exactly the
  commanded level bits.
\<close>

theorem control_allow_mask:
  "effective (fold (control_step allow) ops control_state_default) AND NOT allow = 0
   \<and> effective (control_tick 3 (fold (control_step allow) ops control_state_default))
     = cs_level (fold (control_step allow) ops control_state_default)"
proof -
  let ?s = "fold (control_step allow) ops control_state_default"
  have ok: "control_ok allow ?s" by (rule ctl.run_inv [OF control_ok_default])
  then have "filter (\<lambda>e. pulse_active (snd e)) (cs_pulses (control_tick 3 ?s)) = []"
    by (auto simp: filter_empty_conv control_tick_def control_ok_def pulse_tick_off)
  then have "effective (control_tick 3 ?s) = cs_level ?s"
    unfolding effective_def by (simp add: control_tick_def)
  with effective_within [OF ok] show ?thesis by (simp add: within_def)
qed

lemma pulse_tick_idle: "pulse_tick n \<lparr>ep_remaining = 0, ep_cooldown = 0\<rparr> = \<lparr>ep_remaining = 0, ep_cooldown = 0\<rparr>"
  by (cases n) simp_all

lemma pulse_tick_from_trigger:
  "pulse_tick n \<lparr>ep_remaining = 3, ep_cooldown = 0\<rparr>
   = (if n < 3 then \<lparr>ep_remaining = 3 - n, ep_cooldown = 0\<rparr> else \<lparr>ep_remaining = 0, ep_cooldown = 6 - n\<rparr>)"
proof (cases "n < 6")
  case True
  then consider "n = 0" | "n = 1" | "n = 2" | "n = 3" | "n = 4" | "n = 5" by linarith
  then show ?thesis
    by cases (simp_all add: eval_nat_numeral Let_def PULSE_COOLDOWN_TICKS_def)
next
  case False
  then have "n = Suc (Suc (Suc (Suc (Suc (Suc (n - 6))))))" by simp
  then obtain k where "n = Suc (Suc (Suc (Suc (Suc (Suc k)))))" ..
  then show ?thesis by (simp add: Let_def PULSE_COOLDOWN_TICKS_def pulse_tick_idle)
qed

text \<open>
  C18: A pulse has its documented shape for one mask: active for exactly three cycles, refused until
  three further cycles have passed, then available again. The guarantee is per mask and not per
  bit: with overlapping masks a bit is driven again in the cycle after its release.
\<close>

theorem pulse_shape:
  "(pulse_active (pulse_tick n (snd (trigger edge_pulse_default))) \<longleftrightarrow> n < 3)
   \<and> (fst (trigger (pulse_tick n (snd (trigger edge_pulse_default)))) = Inr () \<longleftrightarrow> 6 \<le> n)
   \<and> effective (fold (control_step 0xFF) [OpCmd (Pulse 0x03), OpTick 3] control_state_default) = 0
   \<and> effective (fold (control_step 0xFF) [OpCmd (Pulse 0x03), OpTick 3, OpCmd (Pulse 0x01)] control_state_default) = 1"
proof -
  have t: "snd (trigger edge_pulse_default) = \<lparr>ep_remaining = 3, ep_cooldown = 0\<rparr>"
    by (simp add: trigger_def edge_pulse_default_def PULSE_TICKS_def)
  have "effective (fold (control_step 0xFF) [OpCmd (Pulse 0x03), OpTick 3] control_state_default) = 0"
    "effective (fold (control_step 0xFF) [OpCmd (Pulse 0x03), OpTick 3, OpCmd (Pulse 0x01)] control_state_default) = 1"
    by code_simp+
  then show ?thesis
    unfolding t pulse_tick_from_trigger by (simp add: pulse_active_def trigger_def)
qed

section \<open>Lines\<close>

lemma until_nl_none: "NL \<notin> set xs \<Longrightarrow> until_nl xs = xs"
  by (induction xs) (auto simp: until_nl_def)

lemma until_nl_some: "NL \<notin> set xs \<Longrightarrow> until_nl (xs @ NL # ys) = xs @ [NL]"
  by (induction xs) (auto simp: until_nl_def)

lemma read_chunk_short:
  "NL \<notin> set xs \<Longrightarrow> length xs < limit \<Longrightarrow> read_chunk limit (xs @ NL # rest, e) = (Some (xs @ [NL]), (rest, e))"
proof -
  assume "NL \<notin> set xs" and "length xs < limit"
  moreover from this obtain k where "limit - length xs = Suc k" by (metis Suc_diff_Suc)
  ultimately show ?thesis by (simp add: read_chunk_def Let_def until_nl_some)
qed

lemma read_chunk_long:
  "NL \<notin> set xs \<Longrightarrow> limit \<le> length xs \<Longrightarrow>
   read_chunk limit (xs @ NL # rest, e) = (Some (take limit xs), (drop limit xs @ NL # rest, e))"
proof -
  assume a: "NL \<notin> set xs" and l: "limit \<le> length xs"
  then have "NL \<notin> set (take limit xs)" by (meson in_set_takeD)
  then show ?thesis using l by (simp add: read_chunk_def Let_def until_nl_none)
qed

lemma skip_line_resync:
  "NL \<notin> set xs \<Longrightarrow> 0 < limit \<Longrightarrow> skip_line limit (xs @ NL # rest, e) = (rest, e)"
proof (induction "length xs" arbitrary: xs rule: less_induct)
  case less
  show ?case
  proof (cases "length xs < limit")
    case True
    then show ?thesis using less.prems by (subst skip_line.simps) (simp add: read_chunk_short)
  next
    case False
    then have l: "limit \<le> length xs" by simp
    then have ne: "take limit xs \<noteq> []" using less.prems by auto
    then have "last (take limit xs) \<noteq> NL" using less.prems by (metis in_set_takeD last_in_set)
    moreover have "skip_line limit (drop limit xs @ NL # rest, e) = (rest, e)"
      using less.prems l by (intro less.hyps) (auto dest: in_set_dropD)
    ultimately show ?thesis using less.prems l ne by (subst skip_line.simps) (simp add: read_chunk_long)
  qed
qed

text \<open>
  One call consumes exactly one line, with bounded memory: a line shorter than the bound is
  delivered without its line ending (or ends the input when it is not UTF-8), a longer one is
  reported and dropped whole, and in both cases the stream stands at the start of the next line,
  so no tail of an over-long line is ever read as a command.
\<close>

theorem read_line_resync:
  assumes "NL \<notin> set xs" and "0 < limit"
  shows "read_bounded_line limit (xs @ NL # rest, e) =
    (if limit \<le> length xs then LineTooLong
     else if utf8_ok (map unat (strip_eol xs)) then Line (strip_eol xs) else EndOfInput, (rest, e))"
proof (cases "limit \<le> length xs")
  case True
  then have ne: "take limit xs \<noteq> []" using assms by auto
  then have "last (take limit xs) \<noteq> NL" using assms by (metis in_set_takeD last_in_set)
  moreover have "skip_line limit (drop limit xs @ NL # rest, e) = (rest, e)"
    using assms by (intro skip_line_resync) (auto dest: in_set_dropD)
  ultimately show ?thesis using assms True ne by (simp add: read_bounded_line_def read_chunk_long)
next
  case False
  then show ?thesis using assms by (simp add: read_bounded_line_def read_chunk_short Let_def)
qed

lemma read_line_resync_witness:
  "read_bounded_line 4 ([0x71, 0x71, 0x71, 0x71, 0x71] @ NL # [0x6F, 10], False) = (LineTooLong, ([0x6F, 10], False))"
  by (subst read_line_resync) (simp_all add: NL_def)

end
