(* ===== verification/Errors.thy ===== *)
theory Errors
  imports Prelude
begin

text \<open>
  Model of \<open>src/errors.rs\<close>: the PNIO status decoder with its message tables, its display
  form, and the flattened error enumeration. The tables keep the order of the source; a
  lookup is the first match, as \<open>iter().find\<close> is.
\<close>

section \<open>Tables\<close>

definition DECODE_PNIO_CM :: u8 where "DECODE_PNIO_CM = 0x40"
definition DECODE_PNIORW :: u8 where "DECODE_PNIORW = 0x80"
definition DECODE_PNIO :: u8 where "DECODE_PNIO = 0x81"

definition PNIORW_ERROR_MESSAGES :: "((u8 \<times> u8) \<times> string) list" where
  "PNIORW_ERROR_MESSAGES = [
     ((0xB0, 0x00), ''Index not supported''),
     ((0xB0, 0x05), ''Index exists but not written''),
     ((0xB1, 0x00), ''Write length error''),
     ((0xB1, 0x01), ''Write data too short''),
     ((0xB1, 0x02), ''Write data too long''),
     ((0xB1, 0x03), ''Write access denied (write protected)''),
     ((0xB2, 0x00), ''Resource not available''),
     ((0xB2, 0x07), ''Invalid slot number''),
     ((0xB2, 0x08), ''Invalid subslot number''),
     ((0xB2, 0x09), ''Module has no data''),
     ((0xB3, 0x00), ''Access denied (invalid area)''),
     ((0xB3, 0x03), ''Access denied''),
     ((0xB3, 0x04), ''Access denied (invalid range)''),
     ((0xB3, 0x05), ''Access denied (invalid state for access)''),
     ((0xB3, 0x06), ''Access denied (local control)''),
     ((0xB4, 0x00), ''Read error''),
     ((0xB4, 0x01), ''Write error''),
     ((0xB4, 0x02), ''Module failure''),
     ((0xB4, 0x04), ''Resource busy''),
     ((0xB4, 0x05), ''Version conflict''),
     ((0xB4, 0x06), ''Invalid API number''),
     ((0xB4, 0x07), ''Backup not allowed''),
     ((0xB4, 0x08), ''Alarm pending'')]"

definition PNIO_ERROR_MESSAGES :: "((u8 \<times> u8) \<times> string) list" where
  "PNIO_ERROR_MESSAGES = [
     ((0x40, 0x00), ''Invalid arguments length''),
     ((0x40, 0x01), ''Unknown blocks in request''),
     ((0x40, 0x02), ''Required IOCR block missing''),
     ((0x40, 0x03), ''Wrong AlarmCR block count''),
     ((0x40, 0x04), ''Out of AR resources''),
     ((0x40, 0x05), ''AR UUID unknown''),
     ((0x40, 0x06), ''State conflict''),
     ((0x40, 0x07), ''Out of provider, consumer or alarm resources''),
     ((0x40, 0x08), ''Out of memory''),
     ((0x40, 0x09), ''Physical device already owned by another AR''),
     ((0x40, 0x0A), ''AR set state conflict during connect''),
     ((0x40, 0x0B), ''AR set parameter conflict during connect''),
     ((0x40, 0xFF), ''Unspecific RMPM error''),
     ((0x3D, 0x00), ''Parameter server state conflict'')]"

definition PNIOCM_ERROR_MESSAGES :: "((u8 \<times> u8) \<times> string) list" where
  "PNIOCM_ERROR_MESSAGES = [
     ((0x01, 0x00), ''Invalid AR type''),
     ((0x01, 0x01), ''AR already active''),
     ((0x01, 0x02), ''Out of AR resources''),
     ((0x01, 0x03), ''Out of provider resources''),
     ((0x01, 0x04), ''Out of consumer resources''),
     ((0x01, 0x05), ''Out of alarm resources''),
     ((0x01, 0x06), ''Out of memory''),
     ((0x01, 0x07), ''Invalid session key''),
     ((0x01, 0x08), ''AR UUID conflict''),
     ((0x81, 0x00), ''Invalid AR type (in response)''),
     ((0x81, 0x01), ''AR already active''),
     ((0x81, 0x02), ''Out of AR resources''),
     ((0x81, 0x03), ''Out of provider resources''),
     ((0x81, 0x04), ''Out of consumer resources''),
     ((0x81, 0x05), ''Out of alarm resources''),
     ((0x81, 0x06), ''Out of memory''),
     ((0x81, 0x07), ''Invalid session key''),
     ((0x81, 0x08), ''AR UUID conflict''),
     ((0x02, 0x00), ''Invalid IOCR type''),
     ((0x02, 0x01), ''Out of IOCR resources''),
     ((0x02, 0x02), ''Invalid frame ID''),
     ((0x02, 0x03), ''Invalid RT class''),
     ((0x02, 0x04), ''Invalid IO data length''),
     ((0x02, 0x05), ''Cycle time conflict''),
     ((0x02, 0x06), ''Watchdog configuration error''),
     ((0x82, 0x00), ''Invalid IOCR type (in response)''),
     ((0x82, 0x01), ''Out of IOCR resources''),
     ((0x82, 0x02), ''Invalid frame ID''),
     ((0x82, 0x03), ''Invalid RT class''),
     ((0x82, 0x04), ''Invalid IO data length''),
     ((0x82, 0x05), ''Cycle time conflict''),
     ((0x82, 0x06), ''Watchdog configuration error''),
     ((0x03, 0x00), ''Invalid AlarmCR type''),
     ((0x03, 0x01), ''Out of AlarmCR resources''),
     ((0x83, 0x00), ''Invalid AlarmCR type (in response)''),
     ((0x83, 0x01), ''Out of AlarmCR resources''),
     ((0x04, 0x00), ''Invalid slot in ExpectedSubmodule''),
     ((0x04, 0x01), ''Invalid subslot in ExpectedSubmodule''),
     ((0x04, 0x02), ''Wrong module ident number''),
     ((0x04, 0x03), ''Wrong submodule ident number''),
     ((0x04, 0x04), ''IO data length mismatch''),
     ((0x3F, 0x00), ''Device state conflict (AR may be active)''),
     ((0x3F, 0x01), ''Connect resource unavailable''),
     ((0x3F, 0x02), ''Device already owned by another controller''),
     ((0x3F, 0x03), ''AR set aborted''),
     ((0xFF, 0x00), ''Faulty block structure'')]"

definition CM_BLOCK_NAMES :: "(u8 \<times> string) list" where
  "CM_BLOCK_NAMES = [
     (0x01, ''ARBlockReq''),
     (0x02, ''IOCRBlockReq''),
     (0x03, ''AlarmCRBlockReq''),
     (0x04, ''ExpectedSubmoduleBlockReq''),
     (0x05, ''ModuleDiffBlock''),
     (0x06, ''ARRPCBlock''),
     (0x07, ''IRInfoBlock''),
     (0x08, ''SRInfoBlock''),
     (0x09, ''ARFSUBlock''),
     (0x10, ''IODControlReq''),
     (0x11, ''IODControlRes''),
     (0x81, ''ARBlockRes''),
     (0x82, ''IOCRBlockRes''),
     (0x83, ''AlarmCRBlockRes''),
     (0x84, ''ModuleDiffBlockRes''),
     (0x85, ''ARServerBlockRes''),
     (0x3D, ''PrmServer''),
     (0x3E, ''CMCTL''),
     (0x3F, ''CMDEV''),
     (0x40, ''CMRPC''),
     (0xFD, ''FaultyRecord''),
     (0xFE, ''FaultyAR''),
     (0xFF, ''FaultyBlock'')]"

section \<open>The decoder\<close>

record pnio_error =
  pe_message :: string
  pe_error_code :: u8
  pe_error_decode :: u8
  pe_error_code1 :: u8
  pe_error_code2 :: u8

definition table_lookup :: "((u8 \<times> u8) \<times> string) list \<Rightarrow> u8 \<times> u8 \<Rightarrow> string option" where
  "table_lookup table key = map_option snd (List.find (\<lambda>(k, _). k = key) table)"

definition cm_block_name :: "u8 \<Rightarrow> string option" where
  "cm_block_name error_code1 = map_option snd (List.find (\<lambda>(c, _). c = error_code1) CM_BLOCK_NAMES)"

definition from_codes :: "u8 \<Rightarrow> u8 \<Rightarrow> u8 \<Rightarrow> u8 \<Rightarrow> pnio_error" where
  "from_codes error_code error_decode error_code1 error_code2 =
     (let key = (error_code1, error_code2);
          msg =
            (if error_decode = DECODE_PNIO_CM then
               (case table_lookup PNIOCM_ERROR_MESSAGES key of
                  Some m \<Rightarrow> m
                | None \<Rightarrow>
                    ''Unknown CM error in ''
                    @ (case cm_block_name error_code1 of
                         Some n \<Rightarrow> n
                       | None \<Rightarrow> ''block 0x'' @ hex_upper 2 (unat error_code1)))
             else if error_decode = DECODE_PNIO then
               (case table_lookup PNIO_ERROR_MESSAGES key of
                  Some m \<Rightarrow> m
                | None \<Rightarrow>
                    (case table_lookup PNIORW_ERROR_MESSAGES key of
                       Some m \<Rightarrow> m
                     | None \<Rightarrow> ''Unknown PNIO error''))
             else if error_decode = DECODE_PNIORW then
               (case table_lookup PNIORW_ERROR_MESSAGES key of
                  Some m \<Rightarrow> m
                | None \<Rightarrow> ''Unknown PNIORW error'')
             else ''Unknown error (Decode=0x'' @ hex_upper 2 (unat error_decode) @ '')'')
      in \<lparr>pe_message = msg, pe_error_code = error_code, pe_error_decode = error_decode,
          pe_error_code1 = error_code1, pe_error_code2 = error_code2\<rparr>)"

definition from_bytes :: "bytes \<Rightarrow> pnio_error option" where
  "from_bytes data =
     (if length data < 4
      then Some \<lparr>pe_message = ''Incomplete error data'', pe_error_code = 0, pe_error_decode = 0,
                 pe_error_code1 = 0, pe_error_code2 = 0\<rparr>
      else do {
        a \<leftarrow> idx data 0; b \<leftarrow> idx data 1; c \<leftarrow> idx data 2; d \<leftarrow> idx data 3;
        Some (from_codes a b c d) })"

text \<open>\<open>u32::swap_bytes\<close>.\<close>

definition swap_bytes :: "u32 \<Rightarrow> u32" where
  "swap_bytes w =
     from_be32 (ucast w) (ucast (drop_bit 8 w)) (ucast (drop_bit 16 w)) (ucast (drop_bit 24 w))"

definition from_args_status :: "u32 \<Rightarrow> pnio_error" where
  "from_args_status args_status =
     (let swapped = swap_bytes args_status;
          error_code = ucast (drop_bit 24 swapped AND 0xFF);
          error_decode = ucast (drop_bit 16 swapped AND 0xFF);
          error_code1 = ucast (drop_bit 8 swapped AND 0xFF);
          error_code2 = ucast (swapped AND 0xFF)
      in from_codes error_code error_decode error_code1 error_code2)"

definition is_cm_error :: "pnio_error \<Rightarrow> bool" where
  "is_cm_error e \<longleftrightarrow> pe_error_decode e = DECODE_PNIO_CM"

definition block_name :: "pnio_error \<Rightarrow> string" where
  "block_name e =
     (if is_cm_error e
      then (case cm_block_name (pe_error_code1 e) of
              Some n \<Rightarrow> n
            | None \<Rightarrow> ''Unknown(0x'' @ hex_upper 2 (unat (pe_error_code1 e)) @ '')'')
      else [])"

definition pnio_display :: "pnio_error \<Rightarrow> string" where
  "pnio_display e =
     (if is_cm_error e
      then pe_message e @ '' [CM:'' @ block_name e @ '', EC2=0x'' @ hex_upper 2 (unat (pe_error_code2 e)) @ '']''
      else pe_message e @ '' [ErrorCode1=0x'' @ hex_upper 2 (unat (pe_error_code1 e))
           @ '', ErrorCode2=0x'' @ hex_upper 2 (unat (pe_error_code2 e)) @ '']'')"

datatype profinet_error =
    Dcp string | DcpTimeout string | DcpDeviceNotFound string | Rpc string | RpcTimeout string
  | RpcFault string u32 | RpcConnection string | Pnio pnio_error | Validation string
  | InvalidMac string | InvalidIp string | Socket string | PermissionDenied string

fun profinet_display :: "profinet_error \<Rightarrow> string" where
  "profinet_display (Dcp m) = m"
| "profinet_display (DcpTimeout m) = m"
| "profinet_display (DcpDeviceNotFound m) = m"
| "profinet_display (Rpc m) = m"
| "profinet_display (RpcTimeout m) = m"
| "profinet_display (RpcFault m _) = m"
| "profinet_display (RpcConnection m) = m"
| "profinet_display (Pnio e) = pnio_display e"
| "profinet_display (Validation m) = m"
| "profinet_display (InvalidMac m) = m"
| "profinet_display (InvalidIp m) = m"
| "profinet_display (Socket m) = m"
| "profinet_display (PermissionDenied m) = m"

section \<open>Facts\<close>

text \<open>A first-match lookup in a table of distinct keys delivers every row of the table.\<close>

lemma find_first_key:
  "distinct (map fst t) \<Longrightarrow> (k, m) \<in> set t \<Longrightarrow> List.find (\<lambda>(k', _). k' = k) t = Some (k, m)"
proof (induction t)
  case (Cons p t)
  show ?case
  proof (cases "p = (k, m)")
    case True
    then show ?thesis by simp
  next
    case False
    then have m: "(k, m) \<in> set t" using Cons.prems by simp
    then have "k \<in> fst ` set t" by force
    then have "fst p \<noteq> k" using Cons.prems by auto
    then show ?thesis using Cons m by (auto simp: split_def)
  qed
qed simp

lemma table_lookup_row: "distinct (map fst t) \<Longrightarrow> (k, m) \<in> set t \<Longrightarrow> table_lookup t k = Some m"
  by (simp add: table_lookup_def find_first_key)

lemma table_keys_distinct:
  "distinct (map fst PNIORW_ERROR_MESSAGES)" "distinct (map fst PNIO_ERROR_MESSAGES)"
  "distinct (map fst PNIOCM_ERROR_MESSAGES)" "distinct (map fst CM_BLOCK_NAMES)"
  by code_simp+

lemma table_lookup_rows:
  "(k, m) \<in> set PNIORW_ERROR_MESSAGES \<Longrightarrow> table_lookup PNIORW_ERROR_MESSAGES k = Some m"
  "(k, m) \<in> set PNIO_ERROR_MESSAGES \<Longrightarrow> table_lookup PNIO_ERROR_MESSAGES k = Some m"
  "(k, m) \<in> set PNIOCM_ERROR_MESSAGES \<Longrightarrow> table_lookup PNIOCM_ERROR_MESSAGES k = Some m"
  using table_keys_distinct by (auto intro: table_lookup_row)

text \<open>The two manufacturer-independent tables an \<open>ErrorDecode\<close> of 0x81 consults do not overlap.\<close>

lemma pnio_tables_disjoint:
  "(k, m) \<in> set PNIORW_ERROR_MESSAGES \<Longrightarrow> table_lookup PNIO_ERROR_MESSAGES k = None"
proof -
  have "list_all (\<lambda>(k, _). table_lookup PNIO_ERROR_MESSAGES k = None) PNIORW_ERROR_MESSAGES"
    by code_simp
  then show "(k, m) \<in> set PNIORW_ERROR_MESSAGES \<Longrightarrow> ?thesis" by (auto simp: list_all_iff)
qed

lemma byte_of_from_be32 [simp]:
  "(ucast (drop_bit 24 (from_be32 a b c d) AND 0xFF) :: u8) = a"
  "(ucast (drop_bit 16 (from_be32 a b c d) AND 0xFF) :: u8) = b"
  "(ucast (drop_bit 8 (from_be32 a b c d) AND 0xFF) :: u8) = c"
  "(ucast (from_be32 a b c d AND 0xFF) :: u8) = d"
proof -
  have m: "(0xFF :: u32) = mask 8" by (simp add: mask_eq_decr_exp)
  have u: "(ucast (x AND mask 8 :: u32) :: u8) = ucast x" for x
    by (rule bit_word_eqI) (simp add: bit_simps)
  show "(ucast (drop_bit 24 (from_be32 a b c d) AND 0xFF) :: u8) = a"
    "(ucast (drop_bit 16 (from_be32 a b c d) AND 0xFF) :: u8) = b"
    "(ucast (drop_bit 8 (from_be32 a b c d) AND 0xFF) :: u8) = c"
    "(ucast (from_be32 a b c d AND 0xFF) :: u8) = d"
    using to_from_be32 [of a b c d] by (simp_all add: m u to_be32_def)
qed

lemma from_bytes_total [simp]: "from_bytes d \<noteq> None"
  by (auto simp: from_bytes_def idx_def)

lemma from_codes_fields [simp]:
  "pe_error_code (from_codes a b c d) = a" "pe_error_decode (from_codes a b c d) = b"
  "pe_error_code1 (from_codes a b c d) = c" "pe_error_code2 (from_codes a b c d) = d"
  by (simp_all add: from_codes_def Let_def)

lemmas decode_defs = DECODE_PNIO_CM_def DECODE_PNIORW_def DECODE_PNIO_def

lemma from_codes_rows:
  "((c1, c2), m) \<in> set PNIOCM_ERROR_MESSAGES \<Longrightarrow> pe_message (from_codes ec 0x40 c1 c2) = m"
  "((c1, c2), m) \<in> set PNIORW_ERROR_MESSAGES \<Longrightarrow> pe_message (from_codes ec 0x80 c1 c2) = m"
  "((c1, c2), m) \<in> set PNIORW_ERROR_MESSAGES \<Longrightarrow> pe_message (from_codes ec 0x81 c1 c2) = m"
  "((c1, c2), m) \<in> set PNIO_ERROR_MESSAGES \<Longrightarrow> pe_message (from_codes ec 0x81 c1 c2) = m"
  by (simp_all add: from_codes_def Let_def decode_defs table_lookup_rows pnio_tables_disjoint)

lemma from_bytes_4: "from_bytes (a # b # c # d # rest) = Some (from_codes a b c d)"
  by (simp add: from_bytes_def)

lemma from_args_status_swaps: "from_bytes (rev (to_be32 w)) = Some (from_args_status w)"
  by (simp only: from_args_status_def swap_bytes_def Let_def byte_of_from_be32)
     (simp add: to_be32_def from_bytes_4)

text \<open>
  The status decoder keeps the four status bytes, and every row of the message tables is
  delivered: a status whose ErrorDecode selects a table and whose two error codes are a key of
  that table decodes to exactly the row's text (no row is shadowed by an earlier one, and for
  ErrorDecode 0x81 the read/write rows are reached behind the PNIO rows). The entry point for
  a status read from little-endian wire data decodes the same status as the byte-wise one on
  the reversed bytes.
\<close>

theorem pnio_status_decoded:
  "(((c1, c2), m) \<in> set PNIOCM_ERROR_MESSAGES \<longrightarrow> pe_message (from_codes ec 0x40 c1 c2) = m)
   \<and> (((c1, c2), m) \<in> set PNIORW_ERROR_MESSAGES \<longrightarrow>
       pe_message (from_codes ec 0x80 c1 c2) = m \<and> pe_message (from_codes ec 0x81 c1 c2) = m)
   \<and> (((c1, c2), m) \<in> set PNIO_ERROR_MESSAGES \<longrightarrow> pe_message (from_codes ec 0x81 c1 c2) = m)
   \<and> from_bytes (a # b # c # d # rest) = Some (from_codes a b c d)
   \<and> pe_error_code (from_codes a b c d) = a \<and> pe_error_decode (from_codes a b c d) = b
   \<and> pe_error_code1 (from_codes a b c d) = c \<and> pe_error_code2 (from_codes a b c d) = d
   \<and> from_bytes (rev (to_be32 w)) = Some (from_args_status w)"
  by (simp add: from_codes_rows from_bytes_4 from_args_status_swaps)

theorem pnio_status_decoded_witness:
  "pe_message (from_codes 0xDB 0x40 0x3F 0x02) = ''Device already owned by another controller''
   \<and> pe_message (from_codes 0xDE 0x81 0xB0 0x05) = ''Index exists but not written''
   \<and> pe_message (from_codes 0xDB 0x81 0x40 0x05) = ''AR UUID unknown''"
proof -
  have "((0x3F, 0x02), ''Device already owned by another controller'') \<in> set PNIOCM_ERROR_MESSAGES"
    and "((0xB0, 0x05), ''Index exists but not written'') \<in> set PNIORW_ERROR_MESSAGES"
    and "((0x40, 0x05), ''AR UUID unknown'') \<in> set PNIO_ERROR_MESSAGES"
    by code_simp+
  then show ?thesis using pnio_status_decoded by blast
qed

end
