(* ===== verification/RpcParse.thy ===== *)
theory RpcParse
  imports Rpc Errors
begin

text \<open>
  Model of the pure half of \<open>src/transport.rs\<close>: the DREP-aware DCE/RPC header parser, the
  matching of a response to its request, the NRD and IOD record headers, the walks over the
  blocks of a connect response, and the control blocks a controller sends. Errors are the
  texts of the source. The receive loop \<open>next_rpc_response\<close> takes its receive function as the
  source does; a loop that never returns is \<open>None\<close>, as a panic is.
\<close>

section \<open>Constants and byte order\<close>

definition RPC_PORT :: u16 where "RPC_PORT = 0x8894"
definition READ_LENGTH :: u32 where "READ_LENGTH = 4096"
definition PACKET_TYPE_REQUEST :: u8 where "PACKET_TYPE_REQUEST = 0x00"
definition PACKET_TYPE_RESPONSE :: u8 where "PACKET_TYPE_RESPONSE = 0x02"
definition PACKET_TYPE_FAULT :: u8 where "PACKET_TYPE_FAULT = 0x03"
definition PACKET_TYPE_REJECT :: u8 where "PACKET_TYPE_REJECT = 0x06"
definition BLOCK_IOD_CONTROL_PRM_END_REQ :: u16 where "BLOCK_IOD_CONTROL_PRM_END_REQ = 0x0110"
definition BLOCK_IOD_CONTROL_APP_READY_REQ :: u16 where "BLOCK_IOD_CONTROL_APP_READY_REQ = 0x0112"
definition BLOCK_IOD_CONTROL_APP_READY_RES :: u16 where "BLOCK_IOD_CONTROL_APP_READY_RES = 0x8112"
definition BLOCK_IOD_RELEASE_REQ :: u16 where "BLOCK_IOD_RELEASE_REQ = 0x0114"
definition BLOCK_PRM_BEGIN_REQ :: u16 where "BLOCK_PRM_BEGIN_REQ = 0x0118"
definition CONTROL_CMD_PRM_END :: u16 where "CONTROL_CMD_PRM_END = 0x0001"
definition CONTROL_CMD_RELEASE :: u16 where "CONTROL_CMD_RELEASE = 0x0004"
definition CONTROL_CMD_DONE :: u16 where "CONTROL_CMD_DONE = 0x0008"
definition CONTROL_CMD_PRM_BEGIN :: u16 where "CONTROL_CMD_PRM_BEGIN = 0x0040"
definition IOCR_BLOCK_RES :: u16 where "IOCR_BLOCK_RES = 0x8102"
definition MODULE_DIFF_BLOCK :: u16 where "MODULE_DIFF_BLOCK = 0x8104"
definition AR_INFO_OK :: u16 where "AR_INFO_OK = 0"
definition AR_INFO_APPLICATION_READY_PENDING :: u16 where "AR_INFO_APPLICATION_READY_PENDING = 1"
definition AR_INFO_LOCKED_SUPERORDINATED :: u16 where "AR_INFO_LOCKED_SUPERORDINATED = 2"
definition AR_INFO_LOCKED_BY_IOC :: u16 where "AR_INFO_LOCKED_BY_IOC = 3"
definition AR_INFO_LOCKED_BY_IOS :: u16 where "AR_INFO_LOCKED_BY_IOS = 4"
definition IDENT_INFO_OK :: u16 where "IDENT_INFO_OK = 0"
definition IDENT_INFO_SUBSTITUTE :: u16 where "IDENT_INFO_SUBSTITUTE = 1"
definition IDENT_INFO_WRONG :: u16 where "IDENT_INFO_WRONG = 2"
definition IDENT_INFO_NO_SUBMODULE :: u16 where "IDENT_INFO_NO_SUBMODULE = 3"
definition SUBMODULE_STATE_HAS_FIELDS :: u16 where "SUBMODULE_STATE_HAS_FIELDS = 0x8000"

lemmas packet_type_defs =
  PACKET_TYPE_REQUEST_def PACKET_TYPE_RESPONSE_def PACKET_TYPE_FAULT_def PACKET_TYPE_REJECT_def

definition rd_u16 :: "bytes \<Rightarrow> nat \<Rightarrow> bool \<Rightarrow> u16 option" where
  "rd_u16 data off le = do {
     a \<leftarrow> idx data off; b \<leftarrow> idx data (off + 1);
     Some (if le then from_be16 b a else from_be16 a b) }"

definition rd_u32 :: "bytes \<Rightarrow> nat \<Rightarrow> bool \<Rightarrow> u32 option" where
  "rd_u32 data off le = do {
     a \<leftarrow> idx data off; b \<leftarrow> idx data (off + 1); c \<leftarrow> idx data (off + 2); d \<leftarrow> idx data (off + 3);
     Some (if le then from_be32 d c b a else from_be32 a b c d) }"

text \<open>The bytes \<open>wr_u16\<close> and \<open>wr_u32\<close> append.\<close>

definition wr_u16 :: "u16 \<Rightarrow> bool \<Rightarrow> bytes" where
  "wr_u16 v le = (if le then rev (to_be16 v) else to_be16 v)"

definition wr_u32 :: "u32 \<Rightarrow> bool \<Rightarrow> bytes" where
  "wr_u32 v le = (if le then rev (to_be32 v) else to_be32 v)"

section \<open>The DCE/RPC header\<close>

record parsed_rpc =
  pr_version :: u8
  pr_packet_type :: u8
  pr_flags1 :: u8
  pr_flags2 :: u8
  pr_drep :: bytes
  pr_serial_high :: u8
  pr_object_uuid :: bytes
  pr_interface_uuid :: bytes
  pr_activity_uuid :: bytes
  pr_server_boot_time :: u32
  pr_interface_version :: u32
  pr_sequence_number :: u32
  pr_operation_number :: u16
  pr_interface_hint :: u16
  pr_activity_hint :: u16
  pr_length_of_body :: u16
  pr_fragment_number :: u16
  pr_auth_protocol :: u8
  pr_serial_low :: u8
  pr_is_little_endian :: bool
  pr_payload :: bytes

definition parse_rpc_header :: "bytes \<Rightarrow> parsed_rpc option option" where
  "parse_rpc_header data =
     (if length data < 80 then Some None
      else do {
        b4 \<leftarrow> idx data 4;
        let le = (b4 AND 0x10 \<noteq> 0);
        version \<leftarrow> idx data 0; packet_type \<leftarrow> idx data 1; flags1 \<leftarrow> idx data 2; flags2 \<leftarrow> idx data 3;
        b5 \<leftarrow> idx data 5; b6 \<leftarrow> idx data 6; serial_high \<leftarrow> idx data 7;
        object \<leftarrow> sub_slice data 8 24; interface \<leftarrow> sub_slice data 24 40; activity \<leftarrow> sub_slice data 40 56;
        server_boot_time \<leftarrow> rd_u32 data 56 le; interface_version \<leftarrow> rd_u32 data 60 le;
        sequence_number \<leftarrow> rd_u32 data 64 le; operation_number \<leftarrow> rd_u16 data 68 le;
        interface_hint \<leftarrow> rd_u16 data 70 le; activity_hint \<leftarrow> rd_u16 data 72 le;
        length_of_body \<leftarrow> rd_u16 data 74 le; fragment_number \<leftarrow> rd_u16 data 76 le;
        auth_protocol \<leftarrow> idx data 78; serial_low \<leftarrow> idx data 79; payload \<leftarrow> slice_from data 80;
        Some (Some \<lparr>
          pr_version = version, pr_packet_type = packet_type, pr_flags1 = flags1, pr_flags2 = flags2,
          pr_drep = [b4, b5, b6], pr_serial_high = serial_high, pr_object_uuid = object,
          pr_interface_uuid = interface, pr_activity_uuid = activity,
          pr_server_boot_time = server_boot_time, pr_interface_version = interface_version,
          pr_sequence_number = sequence_number, pr_operation_number = operation_number,
          pr_interface_hint = interface_hint, pr_activity_hint = activity_hint,
          pr_length_of_body = length_of_body, pr_fragment_number = fragment_number,
          pr_auth_protocol = auth_protocol, pr_serial_low = serial_low,
          pr_is_little_endian = le, pr_payload = payload\<rparr>) })"

definition parse_rpc_response :: "bytes \<Rightarrow> (string + parsed_rpc option) option" where
  "parse_rpc_response data = do {
     h \<leftarrow> parse_rpc_header data;
     Some (case h of
         None \<Rightarrow> Inl (''Failed to parse RPC response: data too short ('' @ dec_nat (length data) @ '' bytes)'')
       | Some hdr \<Rightarrow>
           let t = pr_packet_type hdr in
           if t = PACKET_TYPE_REQUEST then Inr None
           else if t = PACKET_TYPE_RESPONSE then Inr (Some hdr)
           else if t = PACKET_TYPE_FAULT
             then Inl (''RPC fault from device (fault code 0x'' @ hex_upper 4 (unat (pr_operation_number hdr)) @ '')'')
           else if t = PACKET_TYPE_REJECT then Inl ''RPC request rejected by device''
           else Inl (''Unexpected RPC packet type: 0x'' @ hex_upper 2 (unat t))) }"

definition drep_normalized_uuid :: "bytes \<Rightarrow> bool \<Rightarrow> bytes" where
  "drep_normalized_uuid uuid little_endian =
     (if \<not> little_endian then uuid
      else rev (take 4 uuid) @ rev (take 2 (drop 4 uuid)) @ rev (take 2 (drop 6 uuid)) @ drop 8 uuid)"

text \<open>The response loop over a receive function with its own state.\<close>

partial_function (option) next_rpc_response ::
    "('s \<Rightarrow> (string + bytes) \<times> 's) \<Rightarrow> bytes \<Rightarrow> u32 \<Rightarrow> 's \<Rightarrow> ((string + parsed_rpc) \<times> 's) option" where
  "next_rpc_response recv expected_uuid expected_seq s =
     (case recv s of
        (Inl e, s') \<Rightarrow> Some (Inl e, s')
      | (Inr data, s') \<Rightarrow> do {
          r \<leftarrow> parse_rpc_response data;
          (case r of
             Inl e \<Rightarrow> Some (Inl e, s')
           | Inr None \<Rightarrow> next_rpc_response recv expected_uuid expected_seq s'
           | Inr (Some resp) \<Rightarrow>
               (let resp_uuid = drep_normalized_uuid (pr_activity_uuid resp) (pr_is_little_endian resp)
                in if resp_uuid = expected_uuid \<and> pr_sequence_number resp = expected_seq
                   then Some (Inr resp, s')
                   else next_rpc_response recv expected_uuid expected_seq s')) })"

section \<open>NRD and IOD record headers\<close>

record parsed_nrd =
  pn_args_status :: u32
  pn_args_length :: u32
  pn_maximum_count :: u32
  pn_offset :: u32
  pn_actual_count :: u32
  pn_payload :: bytes

definition parse_nrd :: "bytes \<Rightarrow> bool \<Rightarrow> (string + parsed_nrd) option" where
  "parse_nrd data little_endian =
     (if length data < 20
      then Some (Inl (''NRD header too short ('' @ dec_nat (length data) @ '' bytes)''))
      else do {
        args_status \<leftarrow> rd_u32 data 0 little_endian; args_length \<leftarrow> rd_u32 data 4 little_endian;
        maximum_count \<leftarrow> rd_u32 data 8 little_endian; offset \<leftarrow> rd_u32 data 12 little_endian;
        actual_count \<leftarrow> rd_u32 data 16 little_endian; payload \<leftarrow> slice_from data 20;
        Some (Inr \<lparr>pn_args_status = args_status, pn_args_length = args_length,
                   pn_maximum_count = maximum_count, pn_offset = offset,
                   pn_actual_count = actual_count, pn_payload = payload\<rparr>) })"

record parsed_iod =
  pi_block_type :: u16
  pi_block_length :: u16
  pi_sequence_number :: u16
  pi_ar_uuid :: bytes
  pi_api :: u32
  pi_slot :: u16
  pi_subslot :: u16
  pi_index :: u16
  pi_length :: u32
  pi_payload :: bytes

definition parse_iod_header :: "bytes \<Rightarrow> (string + parsed_iod) option" where
  "parse_iod_header data =
     (if length data < 64
      then Some (Inl (''IOD header too short ('' @ dec_nat (length data) @ '' bytes)''))
      else do {
        ar_uuid \<leftarrow> sub_slice data 8 24;
        block_type \<leftarrow> rd_u16 data 0 False; block_length \<leftarrow> rd_u16 data 2 False;
        sequence_number \<leftarrow> rd_u16 data 6 False; api \<leftarrow> rd_u32 data 24 False;
        slot \<leftarrow> rd_u16 data 28 False; subslot \<leftarrow> rd_u16 data 30 False; index \<leftarrow> rd_u16 data 34 False;
        len \<leftarrow> rd_u32 data 36 False; payload \<leftarrow> slice_from data 64;
        Some (Inr \<lparr>pi_block_type = block_type, pi_block_length = block_length,
                   pi_sequence_number = sequence_number, pi_ar_uuid = ar_uuid, pi_api = api,
                   pi_slot = slot, pi_subslot = subslot, pi_index = index, pi_length = len,
                   pi_payload = payload\<rparr>) })"

section \<open>Walks over the blocks of a connect response\<close>

function iocr_res_walk :: "bytes \<Rightarrow> u16 \<Rightarrow> nat \<Rightarrow> u16 option" where
  "iocr_res_walk data iocr_type offset =
     (if offset + 6 \<le> length data then do {
        block_type \<leftarrow> rd_u16 data offset False;
        block_length \<leftarrow> rd_u16 data (offset + 2) False;
        hit \<leftarrow> (if block_type = IOCR_BLOCK_RES \<and> offset + 12 \<le> length data
               then do {
                 res_type \<leftarrow> rd_u16 data (offset + 6) False;
                 if res_type = iocr_type then map_option Some (rd_u16 data (offset + 10) False) else Some None }
               else Some None);
        (case hit of
           Some frame_id \<Rightarrow> Some frame_id
         | None \<Rightarrow> iocr_res_walk data iocr_type (offset + 4 + unat block_length)) }
      else Some 0)"
  by pat_completeness auto
termination by (relation "measure (\<lambda>(data, _, offset). length data - offset)") auto

declare iocr_res_walk.simps [simp del]

definition parse_iocr_block_res :: "bytes \<Rightarrow> u16 \<Rightarrow> u16 option" where
  "parse_iocr_block_res response_data iocr_type = iocr_res_walk response_data iocr_type 0"

record submodule_diff =
  sd_slot :: u16
  sd_subslot :: u16
  sd_submodule_ident :: u32
  sd_state :: u16

definition has_fields :: "submodule_diff \<Rightarrow> bool" where
  "has_fields d \<longleftrightarrow> sd_state d AND SUBMODULE_STATE_HAS_FIELDS \<noteq> 0"

definition ident_info :: "submodule_diff \<Rightarrow> u16 option" where
  "ident_info d = (if has_fields d then Some (drop_bit 11 (sd_state d) AND 0xF) else None)"

definition ar_info :: "submodule_diff \<Rightarrow> u16 option" where
  "ar_info d = (if has_fields d then Some (drop_bit 7 (sd_state d) AND 0xF) else None)"

definition is_locked :: "submodule_diff \<Rightarrow> bool" where
  "is_locked d =
     (case ar_info d of
        None \<Rightarrow> False
      | Some a \<Rightarrow> a = AR_INFO_LOCKED_SUPERORDINATED \<or> a = AR_INFO_LOCKED_BY_IOC \<or> a = AR_INFO_LOCKED_BY_IOS)"

definition is_ours :: "submodule_diff \<Rightarrow> bool" where
  "is_ours d =
     (case (ar_info d, ident_info d) of
        (Some a, Some i) \<Rightarrow> (a = AR_INFO_OK \<or> a = AR_INFO_APPLICATION_READY_PENDING) \<and> i = IDENT_INFO_OK
      | _ \<Rightarrow> True)"

definition diff_owner :: "u16 \<Rightarrow> string" where
  "diff_owner a =
     (if a = AR_INFO_OK then ''owned by this AR''
      else if a = AR_INFO_APPLICATION_READY_PENDING then ''owned by this AR, application not ready yet''
      else if a = AR_INFO_LOCKED_SUPERORDINATED then ''locked by a superordinated relationship''
      else if a = AR_INFO_LOCKED_BY_IOC then ''locked by another IO-controller''
      else if a = AR_INFO_LOCKED_BY_IOS then ''locked by an IO-supervisor''
      else ''ARInfo 0x'' @ hex_nat (unat a) @ '', a value this code does not know'')"

definition diff_reason :: "submodule_diff \<Rightarrow> string" where
  "diff_reason d =
     (case (ar_info d, ident_info d) of
        (Some a, Some i) \<Rightarrow>
          (let owner = diff_owner a in
           if i = IDENT_INFO_OK then owner
           else owner @ '', but ''
             @ (if i = IDENT_INFO_SUBSTITUTE then ''a substitute is plugged''
                else if i = IDENT_INFO_WRONG then ''the wrong submodule is plugged''
                else if i = IDENT_INFO_NO_SUBMODULE then ''nothing is plugged there''
                else ''IdentInfo is a value this code does not know''))
      | _ \<Rightarrow> ''SubmoduleState 0x'' @ hex_upper 4 (unat (sd_state d)) @ '', not in the field format'')"

text \<open>The three counted loops of the ModuleDiffBlock; \<open>lim\<close> is the source's \<open>end\<close>.\<close>

fun diff_submodules ::
    "bytes \<Rightarrow> nat \<Rightarrow> u16 \<Rightarrow> nat \<Rightarrow> nat \<times> submodule_diff list \<Rightarrow> (nat \<times> submodule_diff list) option" where
  "diff_submodules data lim slot 0 (p, found) = Some (p, found)"
| "diff_submodules data lim slot (Suc n) (p, found) =
     (if p + 8 > lim then Some (p, found)
      else do {
        subslot \<leftarrow> rd_u16 data p False; ident \<leftarrow> rd_u32 data (p + 2) False; state \<leftarrow> rd_u16 data (p + 6) False;
        diff_submodules data lim slot n
          (p + 8, found @ [\<lparr>sd_slot = slot, sd_subslot = subslot, sd_submodule_ident = ident, sd_state = state\<rparr>]) })"

fun diff_modules ::
    "bytes \<Rightarrow> nat \<Rightarrow> nat \<Rightarrow> nat \<times> submodule_diff list \<Rightarrow> (nat \<times> submodule_diff list) option" where
  "diff_modules data lim 0 (p, found) = Some (p, found)"
| "diff_modules data lim (Suc n) (p, found) =
     (if p + 10 > lim then Some (p, found)
      else do {
        slot \<leftarrow> rd_u16 data p False;
        submodules \<leftarrow> rd_u16 data (p + 8) False;
        r \<leftarrow> diff_submodules data lim slot (unat submodules) (p + 10, found);
        diff_modules data lim n r })"

fun diff_apis ::
    "bytes \<Rightarrow> nat \<Rightarrow> nat \<Rightarrow> nat \<times> submodule_diff list \<Rightarrow> (nat \<times> submodule_diff list) option" where
  "diff_apis data lim 0 (p, found) = Some (p, found)"
| "diff_apis data lim (Suc n) (p, found) =
     (if p + 6 > lim then Some (p, found)
      else do {
        modules \<leftarrow> rd_u16 data (p + 4) False;
        r \<leftarrow> diff_modules data lim (unat modules) (p + 6, found);
        diff_apis data lim n r })"

function module_diff_walk :: "bytes \<Rightarrow> nat \<Rightarrow> submodule_diff list \<Rightarrow> submodule_diff list option" where
  "module_diff_walk data offset found =
     (if offset + 6 \<le> length data then do {
        block_type \<leftarrow> rd_u16 data offset False;
        block_length \<leftarrow> map_option unat (rd_u16 data (offset + 2) False);
        found' \<leftarrow> (if block_type = MODULE_DIFF_BLOCK
                  then let lim = min (offset + 4 + block_length) (length data); p = offset + 6 in
                    if p + 2 \<le> lim
                    then do {
                      apis \<leftarrow> rd_u16 data p False;
                      map_option snd (diff_apis data lim (unat apis) (p + 2, found)) }
                    else Some found
                  else Some found);
        module_diff_walk data (offset + 4 + block_length) found' }
      else Some found)"
  by pat_completeness auto
termination by (relation "measure (\<lambda>(data, offset, _). length data - offset)") auto

declare module_diff_walk.simps [simp del]

definition parse_module_diff_block :: "bytes \<Rightarrow> submodule_diff list option" where
  "parse_module_diff_block response_data = module_diff_walk response_data 0 []"

section \<open>Response bodies\<close>

record connect_result =
  cr_input_frame_id :: u16
  cr_output_frame_id :: u16
  cr_has_cyclic :: bool

definition pnio_status_str :: "u32 \<Rightarrow> string option" where
  "pnio_status_str args_status = do {
     e \<leftarrow> from_bytes (to_be32 args_status);
     Some (''0x'' @ hex_upper 8 (unat args_status) @ '' ('' @ pnio_display e @ '')'') }"

fun join :: "string \<Rightarrow> string list \<Rightarrow> string" where
  "join sep [] = []"
| "join sep [x] = x"
| "join sep (x # y # ys) = x @ sep @ join sep (y # ys)"

definition withheld_text :: "submodule_diff \<Rightarrow> string" where
  "withheld_text d =
     ''slot '' @ dec_nat (unat (sd_slot d)) @ ''/subslot 0x'' @ hex_nat (unat (sd_subslot d))
     @ '' ident 0x'' @ hex_min 4 (unat (sd_submodule_ident d)) @ '': '' @ diff_reason d"

definition parse_connect_response :: "bytes \<Rightarrow> bool \<Rightarrow> (string + connect_result) option" where
  "parse_connect_response rpc_payload little_endian = do {
     r \<leftarrow> parse_nrd rpc_payload little_endian;
     (case r of
        Inl e \<Rightarrow> Some (Inl e)
      | Inr n \<Rightarrow>
          if pn_args_status n \<noteq> 0
          then do {
            st \<leftarrow> pnio_status_str (pn_args_status n);
            Some (Inl (''Connect rejected by device: PNIO status '' @ st)) }
          else do {
            diffs \<leftarrow> parse_module_diff_block (pn_payload n);
            let withheld = filter (\<lambda>d. \<not> is_ours d) diffs;
            if withheld \<noteq> [] then
              let detail = join ''; '' (map withheld_text withheld);
                  advice = (if list_ex is_locked withheld
                            then ''Release the device at whoever owns it first''
                            else ''Check the configuration against what the device really has plugged'')
              in Some (Inl (''the device accepted the AR but withheld '' @ dec_nat (length withheld)
                   @ '' submodule(s), so its cyclic frames would carry substitute data with IOPS bad: ''
                   @ detail @ ''. '' @ advice))
            else do {
              input_frame_id \<leftarrow> parse_iocr_block_res (pn_payload n) 1;
              output_frame_id \<leftarrow> parse_iocr_block_res (pn_payload n) 2;
              Some (Inr \<lparr>cr_input_frame_id = input_frame_id, cr_output_frame_id = output_frame_id,
                         cr_has_cyclic = (input_frame_id \<noteq> 0 \<or> output_frame_id \<noteq> 0)\<rparr>) } }) }"

definition parse_status_response :: "bytes \<Rightarrow> bool \<Rightarrow> (string + bytes) option" where
  "parse_status_response rpc_payload little_endian = do {
     r \<leftarrow> parse_nrd rpc_payload little_endian;
     (case r of
        Inl e \<Rightarrow> Some (Inl e)
      | Inr n \<Rightarrow>
          if pn_args_status n \<noteq> 0
          then do { st \<leftarrow> pnio_status_str (pn_args_status n); Some (Inl (''PNIO error status '' @ st)) }
          else Some (Inr (pn_payload n))) }"

definition parse_read_response :: "bytes \<Rightarrow> bool \<Rightarrow> (string + bytes) option" where
  "parse_read_response rpc_payload little_endian = do {
     r \<leftarrow> parse_nrd rpc_payload little_endian;
     (case r of
        Inl e \<Rightarrow> Some (Inl e)
      | Inr n \<Rightarrow>
          if pn_args_status n \<noteq> 0
          then do { st \<leftarrow> pnio_status_str (pn_args_status n); Some (Inl (''PNIO error status '' @ st)) }
          else do {
            i \<leftarrow> parse_iod_header (pn_payload n);
            Some (rbind i (\<lambda>d. Inr (pi_payload d))) }) }"

section \<open>Control blocks\<close>

definition iod_control_block :: "u16 \<Rightarrow> bytes \<Rightarrow> u16 \<Rightarrow> u16 \<Rightarrow> bytes" where
  "iod_control_block block_type ar_uuid session_key control_command =
     block_header block_type 28 1 0 @ to_be16 0 @ ar_uuid @ to_be16 session_key @ to_be16 0
     @ to_be16 control_command @ to_be16 0"

definition release_request :: "bytes \<Rightarrow> bytes \<Rightarrow> bytes \<Rightarrow> bytes \<Rightarrow> u16 \<Rightarrow> u32 \<Rightarrow> bytes" where
  "release_request obj_uuid iface_uuid activity_uuid ar_uuid session_key sq =
     (let block = iod_control_block BLOCK_IOD_RELEASE_REQ ar_uuid session_key CONTROL_CMD_RELEASE
      in rpc_request obj_uuid iface_uuid activity_uuid sq RELEASE (nrd block))"

record ccontrol_request =
  cc_block_type :: u16
  cc_control_command :: u16
  cc_nrd_body :: bytes

definition parse_ccontrol_request :: "parsed_rpc \<Rightarrow> (string + ccontrol_request) option" where
  "parse_ccontrol_request hdr =
     (if pr_packet_type hdr \<noteq> PACKET_TYPE_REQUEST
      then Some (Inl (''Not a REQUEST (type=0x'' @ hex_upper 2 (unat (pr_packet_type hdr)) @ '')''))
      else if pr_operation_number hdr \<noteq> CONTROL
      then Some (Inl (''Not CONTROL opnum (op='' @ dec_nat (unat (pr_operation_number hdr)) @ '')''))
      else do {
        r \<leftarrow> parse_nrd (pr_payload hdr) (pr_is_little_endian hdr);
        (case r of
           Inl e \<Rightarrow> Some (Inl e)
         | Inr n \<Rightarrow>
             if length (pn_payload n) < 32
             then Some (Inl (''CControl payload too short: '' @ dec_nat (length (pn_payload n)) @ '' bytes''))
             else do {
               block_type \<leftarrow> rd_u16 (pn_payload n) 0 False;
               control_command \<leftarrow> rd_u16 (pn_payload n) 28 False;
               Some (Inr \<lparr>cc_block_type = block_type, cc_control_command = control_command,
                          cc_nrd_body = pn_payload n\<rparr>) }) })"

definition ccontrol_response :: "parsed_rpc \<Rightarrow> bytes \<Rightarrow> u16 \<Rightarrow> bytes option" where
  "ccontrol_response req ar_uuid session_key = do {
     let le = pr_is_little_endian req;
     let control = iod_control_block BLOCK_IOD_CONTROL_APP_READY_RES ar_uuid session_key CONTROL_CMD_DONE;
     let len = as_u32 (length control);
     r \<leftarrow> parse_nrd (pr_payload req) le;
     let req_max_count = (case r of Inl _ \<Rightarrow> len | Inr n \<Rightarrow> pn_maximum_count n);
     let body = wr_u32 0 le @ wr_u32 len le @ wr_u32 req_max_count le @ wr_u32 0 le @ wr_u32 len le @ control;
     Some ([pr_version req] @ [PACKET_TYPE_RESPONSE] @ [RPC_FLAGS1_LASTFRAG OR RPC_FLAGS1_NOFACK] @ [0x00]
       @ pr_drep req @ [pr_serial_high req]
       @ pr_object_uuid req @ pr_interface_uuid req @ pr_activity_uuid req
       @ wr_u32 0 le @ wr_u32 (pr_interface_version req) le @ wr_u32 (pr_sequence_number req) le
       @ wr_u16 (pr_operation_number req) le @ wr_u16 0xFFFF le @ wr_u16 0xFFFF le
       @ wr_u16 (as_u16 (length body)) le @ wr_u16 0 le
       @ [0x00] @ [pr_serial_low req] @ body) }"

definition extract_app_ready :: "bytes \<Rightarrow> (parsed_rpc \<times> ccontrol_request) option option" where
  "extract_app_ready data = do {
     h \<leftarrow> parse_rpc_header data;
     (case h of
        None \<Rightarrow> Some None
      | Some hdr \<Rightarrow> do {
          r \<leftarrow> parse_ccontrol_request hdr;
          Some (case r of
              Inl _ \<Rightarrow> None
            | Inr cc \<Rightarrow> if cc_block_type cc \<noteq> BLOCK_IOD_CONTROL_APP_READY_REQ then None else Some (hdr, cc)) }) }"

section \<open>Reading back what was written, in either byte order\<close>

definition rdv16 :: "bool \<Rightarrow> bytes \<Rightarrow> nat \<Rightarrow> u16" where
  "rdv16 le d off = (if le then from_be16 (d ! (off + 1)) (d ! off) else rd16 d off)"

definition rdv32 :: "bool \<Rightarrow> bytes \<Rightarrow> nat \<Rightarrow> u32" where
  "rdv32 le d off =
     (if le then from_be32 (d ! (off + 3)) (d ! (off + 2)) (d ! (off + 1)) (d ! off) else rd32 d off)"

lemma rd_u16_in [simp, panic_simps]: "off + 1 < length d \<Longrightarrow> rd_u16 d off le = Some (rdv16 le d off)"
  by (simp add: rd_u16_def rdv16_def rd16_def)

lemma rd_u32_in [simp, panic_simps]: "off + 3 < length d \<Longrightarrow> rd_u32 d off le = Some (rdv32 le d off)"
  by (simp add: rd_u32_def rdv32_def rd32_def)

lemma rdv_be [simp]: "rdv16 False d off = rd16 d off" "rdv32 False d off = rd32 d off"
  by (simp_all add: rdv16_def rdv32_def)

lemma length_wr [simp, wire_simps]: "length (wr_u16 v le) = 2" "length (wr_u32 w le) = 4"
  by (simp_all add: wr_u16_def wr_u32_def)

lemma wr_be [simp]: "wr_u16 v False = to_be16 v" "wr_u32 w False = to_be32 w"
  by (simp_all add: wr_u16_def wr_u32_def)

lemma rdv16_here [simp, wire_simps]: "rdv16 le (wr_u16 v le @ ys) 0 = v"
  by (simp add: rdv16_def wr_u16_def to_be16_def rd16_def)

lemma rdv32_here [simp, wire_simps]: "rdv32 le (wr_u32 v le @ ys) 0 = v"
  by (simp add: rdv32_def wr_u32_def to_be32_def rd32_def)

lemma rdv16_skip [wire_simps]: "length xs \<le> i \<Longrightarrow> rdv16 le (xs @ ys) i = rdv16 le ys (i - length xs)"
  unfolding rdv16_def
  using nth_append_skip [of xs i ys 0] nth_append_skip [of xs i ys 1] by (simp add: rd16_skip)

lemma rdv32_skip [wire_simps]: "length xs \<le> i \<Longrightarrow> rdv32 le (xs @ ys) i = rdv32 le ys (i - length xs)"
  unfolding rdv32_def
  using nth_append_skip [of xs i ys 0] nth_append_skip [of xs i ys 1]
    nth_append_skip [of xs i ys 2] nth_append_skip [of xs i ys 3] by (simp add: rd32_skip)

lemma rdv16_skip1 [wire_simps]: "0 < i \<Longrightarrow> rdv16 le (x # ys) i = rdv16 le ys (i - 1)"
  using rdv16_skip [of "[x]" i le ys] by simp

lemma rdv32_skip1 [wire_simps]: "0 < i \<Longrightarrow> rdv32 le (x # ys) i = rdv32 le ys (i - 1)"
  using rdv32_skip [of "[x]" i le ys] by simp

lemma wr_rdv16: "off + 1 < length d \<Longrightarrow> wr_u16 (rdv16 le d off) le = take 2 (drop off d)"
  by (cases le) (simp_all add: rdv16_def wr_u16_def to_be16_rd16 take_Suc_conv_app_nth numeral_2_eq_2)

lemma wr_rdv32: "off + 3 < length d \<Longrightarrow> wr_u32 (rdv32 le d off) le = take 4 (drop off d)"
  by (cases le) (simp_all add: rdv32_def wr_u32_def to_be32_rd32 take_Suc_conv_app_nth eval_nat_numeral)

section \<open>The header codec\<close>

text \<open>The wire form of a header record, and the records that have one.\<close>

definition enc_rpc :: "parsed_rpc \<Rightarrow> bytes" where
  "enc_rpc h =
     (let le = pr_is_little_endian h in
      [pr_version h, pr_packet_type h, pr_flags1 h, pr_flags2 h] @ pr_drep h @ [pr_serial_high h]
      @ pr_object_uuid h @ pr_interface_uuid h @ pr_activity_uuid h
      @ wr_u32 (pr_server_boot_time h) le @ wr_u32 (pr_interface_version h) le
      @ wr_u32 (pr_sequence_number h) le @ wr_u16 (pr_operation_number h) le
      @ wr_u16 (pr_interface_hint h) le @ wr_u16 (pr_activity_hint h) le
      @ wr_u16 (pr_length_of_body h) le @ wr_u16 (pr_fragment_number h) le
      @ [pr_auth_protocol h, pr_serial_low h] @ pr_payload h)"

definition rpc_ok :: "parsed_rpc \<Rightarrow> bool" where
  "rpc_ok h \<longleftrightarrow> length (pr_drep h) = 3 \<and> (pr_drep h ! 0 AND 0x10 \<noteq> 0) = pr_is_little_endian h
     \<and> length (pr_object_uuid h) = 16 \<and> length (pr_interface_uuid h) = 16
     \<and> length (pr_activity_uuid h) = 16"

definition rpc_header_of :: "bytes \<Rightarrow> parsed_rpc" where
  "rpc_header_of d =
     (let le = (d ! 4 AND 0x10 \<noteq> 0) in
      \<lparr>pr_version = d ! 0, pr_packet_type = d ! 1, pr_flags1 = d ! 2, pr_flags2 = d ! 3,
       pr_drep = [d ! 4, d ! 5, d ! 6], pr_serial_high = d ! 7, pr_object_uuid = take 16 (drop 8 d),
       pr_interface_uuid = take 16 (drop 24 d), pr_activity_uuid = take 16 (drop 40 d),
       pr_server_boot_time = rdv32 le d 56, pr_interface_version = rdv32 le d 60,
       pr_sequence_number = rdv32 le d 64, pr_operation_number = rdv16 le d 68,
       pr_interface_hint = rdv16 le d 70, pr_activity_hint = rdv16 le d 72,
       pr_length_of_body = rdv16 le d 74, pr_fragment_number = rdv16 le d 76,
       pr_auth_protocol = d ! 78, pr_serial_low = d ! 79,
       pr_is_little_endian = le, pr_payload = drop 80 d\<rparr>)"

lemma idx_0_in: "0 < length xs \<Longrightarrow> idx xs 0 = Some (xs ! 0)"
  by (simp add: idx_def)

lemma parse_rpc_header_eq:
  "parse_rpc_header d = Some (if length d < 80 then None else Some (rpc_header_of d))"
proof (cases "length d < 80")
  case False
  then have "0 < length d" by linarith
  then show ?thesis using False
    by (simp add: parse_rpc_header_def rpc_header_of_def Let_def idx_0_in)
qed (simp add: parse_rpc_header_def)

lemma rpc_header_of_ok: "80 \<le> length d \<Longrightarrow> rpc_ok (rpc_header_of d)"
  by (simp add: rpc_ok_def rpc_header_of_def Let_def)

lemma length_3_conv: "length xs = 3 \<longleftrightarrow> (\<exists>a b c. xs = [a, b, c])"
  by (auto simp: length_Suc_conv eval_nat_numeral)

text \<open>The fields of an encoding, by their offsets.\<close>

lemma enc_rpc_front:
  assumes "rpc_ok h"
  shows "enc_rpc h ! 0 = pr_version h" "enc_rpc h ! 1 = pr_packet_type h" "enc_rpc h ! 2 = pr_flags1 h"
    "enc_rpc h ! 3 = pr_flags2 h" "[enc_rpc h ! 4, enc_rpc h ! 5, enc_rpc h ! 6] = pr_drep h"
    "enc_rpc h ! 7 = pr_serial_high h" "(enc_rpc h ! 4 AND 0x10 \<noteq> 0) = pr_is_little_endian h"
proof -
  from assms obtain a b c where d: "pr_drep h = [a, b, c]"
    and le: "(a AND 0x10 \<noteq> 0) = pr_is_little_endian h" by (auto simp: rpc_ok_def length_3_conv)
  show "enc_rpc h ! 0 = pr_version h" "enc_rpc h ! 1 = pr_packet_type h" "enc_rpc h ! 2 = pr_flags1 h"
    "enc_rpc h ! 3 = pr_flags2 h" "[enc_rpc h ! 4, enc_rpc h ! 5, enc_rpc h ! 6] = pr_drep h"
    "enc_rpc h ! 7 = pr_serial_high h" "(enc_rpc h ! 4 AND 0x10 \<noteq> 0) = pr_is_little_endian h"
    using le by (simp_all add: enc_rpc_def Let_def d)
qed

definition rpc_tail :: "parsed_rpc \<Rightarrow> bytes" where
  "rpc_tail h =
     (let le = pr_is_little_endian h in
      wr_u32 (pr_server_boot_time h) le @ wr_u32 (pr_interface_version h) le
      @ wr_u32 (pr_sequence_number h) le @ wr_u16 (pr_operation_number h) le
      @ wr_u16 (pr_interface_hint h) le @ wr_u16 (pr_activity_hint h) le
      @ wr_u16 (pr_length_of_body h) le @ wr_u16 (pr_fragment_number h) le
      @ [pr_auth_protocol h, pr_serial_low h] @ pr_payload h)"

lemma enc_rpc_split:
  assumes "rpc_ok h"
  obtains pre where "length pre = 8"
    "enc_rpc h = pre @ pr_object_uuid h @ pr_interface_uuid h @ pr_activity_uuid h @ rpc_tail h"
proof -
  have "length ([pr_version h, pr_packet_type h, pr_flags1 h, pr_flags2 h] @ pr_drep h @ [pr_serial_high h]) = 8"
    using assms by (simp add: rpc_ok_def)
  then show ?thesis by (rule that) (simp add: enc_rpc_def rpc_tail_def Let_def)
qed

lemma enc_rpc_uuids:
  assumes "rpc_ok h"
  shows "take 16 (drop 8 (enc_rpc h)) = pr_object_uuid h"
    "take 16 (drop 24 (enc_rpc h)) = pr_interface_uuid h"
    "take 16 (drop 40 (enc_rpc h)) = pr_activity_uuid h" "drop 56 (enc_rpc h) = rpc_tail h"
proof -
  obtain pre where p: "length pre = 8"
    "enc_rpc h = pre @ pr_object_uuid h @ pr_interface_uuid h @ pr_activity_uuid h @ rpc_tail h"
    by (rule enc_rpc_split [OF assms])
  show "take 16 (drop 8 (enc_rpc h)) = pr_object_uuid h"
    "take 16 (drop 24 (enc_rpc h)) = pr_interface_uuid h"
    "take 16 (drop 40 (enc_rpc h)) = pr_activity_uuid h" "drop 56 (enc_rpc h) = rpc_tail h"
    using p assms by (simp_all add: rpc_ok_def)
qed

lemma length_rpc_tail: "length (rpc_tail h) = 24 + length (pr_payload h)"
  by (simp add: rpc_tail_def Let_def)

lemma length_enc_rpc: "rpc_ok h \<Longrightarrow> length (enc_rpc h) = 80 + length (pr_payload h)"
  by (simp add: enc_rpc_def Let_def rpc_ok_def)

lemma rdv_behind:
  assumes "length d = 56 + n" and "drop 56 d = t"
  shows "off < n \<Longrightarrow> d ! (56 + off) = t ! off"
    "rdv16 le d (56 + off) = rdv16 le t off" "rdv32 le d (56 + off) = rdv32 le t off"
proof -
  have d: "d = take 56 d @ t" "length (take 56 d) = 56" using assms append_take_drop_id [of 56 d] by auto
  show "off < n \<Longrightarrow> d ! (56 + off) = t ! off" using assms by auto
  show "rdv16 le d (56 + off) = rdv16 le t off" "rdv32 le d (56 + off) = rdv32 le t off"
    using rdv16_skip [of "take 56 d" "56 + off" le t] rdv32_skip [of "take 56 d" "56 + off" le t] d by simp_all
qed

lemma rpc_tail_fields:
  "rdv32 (pr_is_little_endian h) (rpc_tail h) 0 = pr_server_boot_time h"
  "rdv32 (pr_is_little_endian h) (rpc_tail h) 4 = pr_interface_version h"
  "rdv32 (pr_is_little_endian h) (rpc_tail h) 8 = pr_sequence_number h"
  "rdv16 (pr_is_little_endian h) (rpc_tail h) 12 = pr_operation_number h"
  "rdv16 (pr_is_little_endian h) (rpc_tail h) 14 = pr_interface_hint h"
  "rdv16 (pr_is_little_endian h) (rpc_tail h) 16 = pr_activity_hint h"
  "rdv16 (pr_is_little_endian h) (rpc_tail h) 18 = pr_length_of_body h"
  "rdv16 (pr_is_little_endian h) (rpc_tail h) 20 = pr_fragment_number h"
  "rpc_tail h ! 22 = pr_auth_protocol h" "rpc_tail h ! 23 = pr_serial_low h"
  "drop 24 (rpc_tail h) = pr_payload h"
  by (simp_all add: rpc_tail_def Let_def wire_simps nth_append)

lemma rpc_header_of_enc:
  assumes "rpc_ok h"
  shows "rpc_header_of (enc_rpc h) = h"
proof -
  note len = length_enc_rpc [OF assms]
  have l: "length (enc_rpc h) = 56 + (24 + length (pr_payload h))" using len by simp
  note b = rdv_behind [OF l enc_rpc_uuids(4) [OF assms]]
  note f = enc_rpc_front [OF assms] enc_rpc_uuids [OF assms] rpc_tail_fields
  have t: "rdv32 le (enc_rpc h) 56 = rdv32 le (rpc_tail h) 0" "rdv32 le (enc_rpc h) 60 = rdv32 le (rpc_tail h) 4"
    "rdv32 le (enc_rpc h) 64 = rdv32 le (rpc_tail h) 8" "rdv16 le (enc_rpc h) 68 = rdv16 le (rpc_tail h) 12"
    "rdv16 le (enc_rpc h) 70 = rdv16 le (rpc_tail h) 14" "rdv16 le (enc_rpc h) 72 = rdv16 le (rpc_tail h) 16"
    "rdv16 le (enc_rpc h) 74 = rdv16 le (rpc_tail h) 18" "rdv16 le (enc_rpc h) 76 = rdv16 le (rpc_tail h) 20"
    "enc_rpc h ! 78 = rpc_tail h ! 22" "enc_rpc h ! 79 = rpc_tail h ! 23" for le
    using b(1) [of 22] b(1) [of 23] b(2) [of le 12] b(2) [of le 14] b(2) [of le 16] b(2) [of le 18]
      b(2) [of le 20] b(3) [of le 0] b(3) [of le 4] b(3) [of le 8] by simp_all
  have "drop 80 (enc_rpc h) = drop 24 (drop 56 (enc_rpc h))" by simp
  then have p: "drop 80 (enc_rpc h) = pr_payload h" by (simp only: f)
  show ?thesis
    unfolding rpc_header_of_def Let_def f t p by simp
qed

lemma parse_enc_rpc: "rpc_ok h \<Longrightarrow> parse_rpc_header (enc_rpc h) = Some (Some h)"
  by (simp add: parse_rpc_header_eq rpc_header_of_enc length_enc_rpc)

lemma take_drop_step: "m = k + n \<Longrightarrow> take n (drop k d) @ drop m d = drop k d"
  by (metis add.commute append_take_drop_id drop_drop)

lemma nth_drop_step: "k < length d \<Longrightarrow> m = k + 1 \<Longrightarrow> d ! k # drop m d = drop k d"
  by (simp add: Cons_nth_drop_Suc)

lemma enc_rpc_header_of:
  assumes "80 \<le> length d"
  shows "enc_rpc (rpc_header_of d) = d"
proof -
  define le where "le = (d ! 4 AND 0x10 \<noteq> 0)"
  have w: "wr_u32 (rdv32 le d 56) le = take 4 (drop 56 d)" "wr_u32 (rdv32 le d 60) le = take 4 (drop 60 d)"
    "wr_u32 (rdv32 le d 64) le = take 4 (drop 64 d)" "wr_u16 (rdv16 le d 68) le = take 2 (drop 68 d)"
    "wr_u16 (rdv16 le d 70) le = take 2 (drop 70 d)" "wr_u16 (rdv16 le d 72) le = take 2 (drop 72 d)"
    "wr_u16 (rdv16 le d 74) le = take 2 (drop 74 d)" "wr_u16 (rdv16 le d 76) le = take 2 (drop 76 d)"
    using assms by (simp_all add: wr_rdv16 wr_rdv32)
  have s: "take 4 (drop 56 d) @ drop 60 d = drop 56 d" "take 4 (drop 60 d) @ drop 64 d = drop 60 d"
    "take 4 (drop 64 d) @ drop 68 d = drop 64 d" "take 2 (drop 68 d) @ drop 70 d = drop 68 d"
    "take 2 (drop 70 d) @ drop 72 d = drop 70 d" "take 2 (drop 72 d) @ drop 74 d = drop 72 d"
    "take 2 (drop 74 d) @ drop 76 d = drop 74 d" "take 2 (drop 76 d) @ drop 78 d = drop 76 d"
    "take 16 (drop 8 d) @ drop 24 d = drop 8 d" "take 16 (drop 24 d) @ drop 40 d = drop 24 d"
    "take 16 (drop 40 d) @ drop 56 d = drop 40 d"
    by (rule take_drop_step; simp)+
  have n: "d ! 78 # drop 79 d = drop 78 d" "d ! 79 # drop 80 d = drop 79 d" "d ! 0 # drop 1 d = drop 0 d"
    "d ! 1 # drop 2 d = drop 1 d" "d ! 2 # drop 3 d = drop 2 d" "d ! 3 # drop 4 d = drop 3 d"
    "d ! 4 # drop 5 d = drop 4 d" "d ! 5 # drop 6 d = drop 5 d" "d ! 6 # drop 7 d = drop 6 d"
    "d ! 7 # drop 8 d = drop 7 d"
    by (rule nth_drop_step, use assms in linarith, simp)+
  have "enc_rpc (rpc_header_of d) = drop 0 d"
    unfolding enc_rpc_def rpc_header_of_def Let_def le_def [symmetric]
    by (simp only: parsed_rpc.simps append_Cons append_Nil w s n)
  then show ?thesis by simp
qed

interpretation hdr: exact_codec enc_rpc
  "\<lambda>d. map_option (\<lambda>h. case h of None \<Rightarrow> Inl () | Some x \<Rightarrow> Inr x) (parse_rpc_header d)" rpc_ok
proof
  show "map_option (case_option (Inl ()) Inr) (parse_rpc_header (enc_rpc x)) = Some (Inr x)" if "rpc_ok x" for x
    using that by (simp add: parse_enc_rpc)
  show "map_option (case_option (Inl ()) Inr) (parse_rpc_header d) \<noteq> None" for d
    by (simp add: parse_rpc_header_eq)
  show "enc_rpc x = d" if "map_option (case_option (Inl ()) Inr) (parse_rpc_header d) = Some (Inr x)" for d x
    using that by (auto simp: parse_rpc_header_eq enc_rpc_header_of split: if_splits)
qed

text \<open>The two frames this side puts on the wire, as header records.\<close>

definition request_header :: "bytes \<Rightarrow> bytes \<Rightarrow> bytes \<Rightarrow> u32 \<Rightarrow> u16 \<Rightarrow> bytes \<Rightarrow> parsed_rpc" where
  "request_header obj iface act sq op body =
     \<lparr>pr_version = 4, pr_packet_type = 0, pr_flags1 = 0x20, pr_flags2 = 0, pr_drep = [0, 0, 0],
      pr_serial_high = 0, pr_object_uuid = obj, pr_interface_uuid = iface, pr_activity_uuid = act,
      pr_server_boot_time = 0, pr_interface_version = 1, pr_sequence_number = sq,
      pr_operation_number = op, pr_interface_hint = 0xFFFF, pr_activity_hint = 0xFFFF,
      pr_length_of_body = as_u16 (length body), pr_fragment_number = 0, pr_auth_protocol = 0,
      pr_serial_low = 0, pr_is_little_endian = False, pr_payload = body\<rparr>"

lemma rpc_request_enc: "rpc_request obj iface act sq op body = enc_rpc (request_header obj iface act sq op body)"
  by (simp add: rpc_request_def enc_rpc_def request_header_def REQUEST_def RPC_FLAGS1_IDEMPOTENT_def)

lemma request_header_ok:
  "length obj = 16 \<Longrightarrow> length iface = 16 \<Longrightarrow> length act = 16 \<Longrightarrow> rpc_ok (request_header obj iface act sq op body)"
  by (simp add: rpc_ok_def request_header_def)

lemma parse_rpc_request:
  "length obj = 16 \<Longrightarrow> length iface = 16 \<Longrightarrow> length act = 16 \<Longrightarrow>
   parse_rpc_header (rpc_request obj iface act sq op body) = Some (Some (request_header obj iface act sq op body))"
  by (simp add: rpc_request_enc parse_enc_rpc request_header_ok)

section \<open>Matching a response to its request\<close>

lemma length_drep_normalized: "8 \<le> length u \<Longrightarrow> length (drep_normalized_uuid u le) = length u"
  by (auto simp: drep_normalized_uuid_def)

lemma drep_normalized_involution:
  assumes "8 \<le> length u"
  shows "drep_normalized_uuid (drep_normalized_uuid u le) le = u"
proof -
  define a b c d where "a = take 4 u" and "b = take 2 (drop 4 u)" and "c = take 2 (drop 6 u)" and "d = drop 8 u"
  have u: "u = a @ b @ c @ d"
    using take_drop_step [of 8 6 2 u] take_drop_step [of 6 4 2 u] append_take_drop_id [of 4 u]
    by (simp add: a_def b_def c_def d_def)
  have "length a = 4" "length b = 2" "length c = 2" using assms by (simp_all add: a_def b_def c_def)
  then show ?thesis unfolding u by (simp add: drep_normalized_uuid_def)
qed

lemma parse_rpc_response_eq:
  "parse_rpc_response d =
     Some (if length d < 80
       then Inl (''Failed to parse RPC response: data too short ('' @ dec_nat (length d) @ '' bytes)'')
       else let h = rpc_header_of d; t = d ! 1 in
         if t = 0 then Inr None
         else if t = 2 then Inr (Some h)
         else if t = 3
           then Inl (''RPC fault from device (fault code 0x'' @ hex_upper 4 (unat (pr_operation_number h)) @ '')'')
         else if t = 6 then Inl ''RPC request rejected by device''
         else Inl (''Unexpected RPC packet type: 0x'' @ hex_upper 2 (unat t)))"
  by (simp add: parse_rpc_response_def parse_rpc_header_eq packet_type_defs Let_def rpc_header_of_def)

definition answers :: "bytes \<Rightarrow> u32 \<Rightarrow> parsed_rpc \<Rightarrow> bool" where
  "answers uuid sq h \<longleftrightarrow> pr_packet_type h = 2 \<and> pr_sequence_number h = sq
     \<and> drep_normalized_uuid (pr_activity_uuid h) (pr_is_little_endian h) = uuid"

lemma parse_rpc_response_type:
  "parse_rpc_response d = Some (Inr (Some h)) \<Longrightarrow> pr_packet_type h = 2 \<and> d = enc_rpc h"
  by (auto simp: parse_rpc_response_eq Let_def enc_rpc_header_of split: if_splits)
     (simp add: rpc_header_of_def Let_def)

lemma next_rpc_response_owned:
  assumes "next_rpc_response recv uuid sq s = Some (Inr h, s')"
  shows "answers uuid sq h"
proof -
  have "\<And>y. next_rpc_response recv uuid sq s = Some y \<Longrightarrow> (\<forall>h. fst y = Inr h \<longrightarrow> answers uuid sq h)"
  proof (erule next_rpc_response.raw_induct [rotated])
    fix nxt :: "(_ \<Rightarrow> (string + bytes) \<times> _) \<Rightarrow> _" and rc :: "_ \<Rightarrow> (string + bytes) \<times> _" and u n t y
    assume IH: "\<And>rc u n t y. nxt rc u n t = Some y \<Longrightarrow> \<forall>h. fst y = Inr h \<longrightarrow> answers u n h"
      and body: "(case rc t of (Inl e, s') \<Rightarrow> Some (Inl e, s')
        | (Inr data, s') \<Rightarrow> parse_rpc_response data \<bind>
            case_sum (\<lambda>e. Some (Inl e, s')) (\<lambda>ro. case ro of None \<Rightarrow> nxt rc u n s'
              | Some resp \<Rightarrow> let ru = drep_normalized_uuid (pr_activity_uuid resp) (pr_is_little_endian resp)
                in if ru = u \<and> pr_sequence_number resp = n then Some (Inr resp, s') else nxt rc u n s')) = Some y"
    show "\<forall>h. fst y = Inr h \<longrightarrow> answers u n h"
    proof (cases "rc t")
      case (Pair r s')
      show ?thesis
      proof (cases r)
        case (Inl e)
        then show ?thesis using body Pair by auto
      next
        case (Inr data)
        obtain ro where ro: "parse_rpc_response data = Some ro" using parse_rpc_response_eq [of data] by blast
        show ?thesis using body Pair Inr ro IH [of rc u n s' y] parse_rpc_response_type [of data]
          by (cases ro) (auto simp: answers_def Let_def split: option.splits if_splits)
      qed
    qed
  qed
  then show ?thesis using assms by fastforce
qed

section \<open>Totality of the parsers\<close>

definition nrd_of :: "bool \<Rightarrow> bytes \<Rightarrow> parsed_nrd" where
  "nrd_of le d =
     \<lparr>pn_args_status = rdv32 le d 0, pn_args_length = rdv32 le d 4, pn_maximum_count = rdv32 le d 8,
      pn_offset = rdv32 le d 12, pn_actual_count = rdv32 le d 16, pn_payload = drop 20 d\<rparr>"

lemma parse_nrd_eq:
  "parse_nrd d le = Some (if length d < 20 then Inl (''NRD header too short ('' @ dec_nat (length d) @ '' bytes)'')
     else Inr (nrd_of le d))"
  by (simp add: parse_nrd_def nrd_of_def)

definition iod_of :: "bytes \<Rightarrow> parsed_iod" where
  "iod_of d =
     \<lparr>pi_block_type = rd16 d 0, pi_block_length = rd16 d 2, pi_sequence_number = rd16 d 6,
      pi_ar_uuid = take 16 (drop 8 d), pi_api = rd32 d 24, pi_slot = rd16 d 28, pi_subslot = rd16 d 30,
      pi_index = rd16 d 34, pi_length = rd32 d 36, pi_payload = drop 64 d\<rparr>"

lemma parse_iod_header_eq:
  "parse_iod_header d = Some (if length d < 64 then Inl (''IOD header too short ('' @ dec_nat (length d) @ '' bytes)'')
     else Inr (iod_of d))"
  by (simp add: parse_iod_header_def iod_of_def)

lemma pnio_status_str_total: "pnio_status_str w \<noteq> None"
  using from_bytes_total [of "to_be32 w"] by (cases "from_bytes (to_be32 w)") (simp_all add: pnio_status_str_def)

text \<open>
  The counted loops read only inside the limit, move forward, and every submodule they add
  consumed eight bytes of it.
\<close>

definition loop_ok :: "nat \<Rightarrow> nat \<Rightarrow> submodule_diff list \<Rightarrow> nat \<times> submodule_diff list \<Rightarrow> bool" where
  "loop_ok lim p found r \<longleftrightarrow> p \<le> fst r \<and> (fst r = p \<or> fst r \<le> lim)
     \<and> (\<exists>new. snd r = found @ new \<and> 8 * length new \<le> fst r - p)"

lemma loop_ok_refl: "loop_ok lim p found (p, found)"
  by (simp add: loop_ok_def)

lemma loop_ok_trans:
  assumes "loop_ok lim p found r" and "loop_ok lim (fst r) (snd r) r'"
  shows "loop_ok lim p found r'"
  using assms unfolding loop_ok_def by auto

lemma loop_ok_step:
  "loop_ok lim (p + k) (found @ new) r \<Longrightarrow> p + k \<le> lim \<Longrightarrow> 8 * length new \<le> k \<Longrightarrow> loop_ok lim p found r"
  unfolding loop_ok_def by (auto intro!: exI [of _ "new @ _"])

lemma diff_submodules_runs:
  "lim \<le> length data \<Longrightarrow> runs (diff_submodules data lim slot n (p, found)) (loop_ok lim p found)"
proof (induction n arbitrary: p found)
  case (Suc n)
  show ?case
  proof (cases "p + 8 > lim")
    case False
    define f where "f = \<lparr>sd_slot = slot, sd_subslot = rd16 data p, sd_submodule_ident = rd32 data (p + 2),
      sd_state = rd16 data (p + 6)\<rparr>"
    have st: "loop_ok lim p found r" if "loop_ok lim (p + 8) (found @ [f]) r" for r
      using loop_ok_step [OF that] False by simp
    have "runs (diff_submodules data lim slot n (p + 8, found @ [f])) (loop_ok lim p found)"
      by (rule runs_mono [OF Suc.IH [OF Suc.prems] st])
    moreover have "diff_submodules data lim slot (Suc n) (p, found) =
        diff_submodules data lim slot n (p + 8, found @ [f])"
      using False Suc.prems by (simp add: f_def)
    ultimately show ?thesis by simp
  qed (simp add: loop_ok_refl)
qed (simp add: loop_ok_refl)

lemma diff_modules_runs:
  "lim \<le> length data \<Longrightarrow> runs (diff_modules data lim n (p, found)) (loop_ok lim p found)"
proof (induction n arbitrary: p found)
  case (Suc n)
  show ?case
  proof (cases "p + 10 > lim")
    case False
    have st: "loop_ok lim p found r" if "loop_ok lim (p + 10) found r" for r
      using loop_ok_step [of lim p 10 found "[]"] that False by simp
    obtain q g where q: "diff_submodules data lim (rd16 data p) (unat (rd16 data (p + 8))) (p + 10, found) = Some (q, g)"
      and ok: "loop_ok lim p found (q, g)"
      using diff_submodules_runs [OF Suc.prems, of "rd16 data p" "unat (rd16 data (p + 8))" "p + 10" found] st
      by (auto simp: runs_iff)
    have "runs (diff_modules data lim n (q, g)) (loop_ok lim p found)"
      by (rule runs_mono [OF Suc.IH [OF Suc.prems]]) (use loop_ok_trans [OF ok] in simp)
    moreover have "diff_modules data lim (Suc n) (p, found) = diff_modules data lim n (q, g)"
      using False Suc.prems q by simp
    ultimately show ?thesis by simp
  qed (simp add: loop_ok_refl)
qed (simp add: loop_ok_refl)

lemma diff_apis_runs:
  "lim \<le> length data \<Longrightarrow> runs (diff_apis data lim n (p, found)) (loop_ok lim p found)"
proof (induction n arbitrary: p found)
  case (Suc n)
  show ?case
  proof (cases "p + 6 > lim")
    case False
    have st: "loop_ok lim p found r" if "loop_ok lim (p + 6) found r" for r
      using loop_ok_step [of lim p 6 found "[]"] that False by simp
    obtain q g where q: "diff_modules data lim (unat (rd16 data (p + 4))) (p + 6, found) = Some (q, g)"
      and ok: "loop_ok lim p found (q, g)"
      using diff_modules_runs [OF Suc.prems, of "unat (rd16 data (p + 4))" "p + 6" found] st
      by (auto simp: runs_iff)
    have "runs (diff_apis data lim n (q, g)) (loop_ok lim p found)"
      by (rule runs_mono [OF Suc.IH [OF Suc.prems]]) (use loop_ok_trans [OF ok] in simp)
    moreover have "diff_apis data lim (Suc n) (p, found) = diff_apis data lim n (q, g)"
      using False Suc.prems q by simp
    ultimately show ?thesis by simp
  qed (simp add: loop_ok_refl)
qed (simp add: loop_ok_refl)

lemma module_diff_walk_bound:
  "runs (module_diff_walk data offset found)
     (\<lambda>r. \<exists>new. r = found @ new \<and> 8 * length new \<le> length data - offset)"
proof (induction data offset found rule: module_diff_walk.induct)
  case (1 data offset found)
  show ?case
  proof (cases "offset + 6 \<le> length data")
    case True
    define n where "n = unat (rd16 data (offset + 2))"
    define lim where "lim = min (offset + 4 + n) (length data)"
    define f where "f = (if rd16 data offset = MODULE_DIFF_BLOCK
        then if offset + 6 + 2 \<le> lim
          then map_option snd (diff_apis data lim (unat (rd16 data (offset + 6))) (offset + 6 + 2, found))
          else Some found else Some found)"
    have w: "module_diff_walk data offset found = Option.bind f (module_diff_walk data (offset + 4 + n))"
      unfolding f_def lim_def n_def by (subst module_diff_walk.simps) (use True in \<open>simp add: Let_def\<close>)
    have f: "runs f (\<lambda>r. \<exists>new. r = found @ new \<and> 8 * length new \<le> lim - offset)"
      using diff_apis_runs [of lim data "unat (rd16 data (offset + 6))" "offset + 6 + 2" found]
      by (auto simp: f_def lim_def loop_ok_def runs_iff)
    then obtain new where new: "f = Some (found @ new)" "8 * length new \<le> lim - offset"
      by (auto simp: runs_iff)
    have "runs (module_diff_walk data (offset + 4 + n) (found @ new))
        (\<lambda>r. \<exists>more. r = (found @ new) @ more \<and> 8 * length more \<le> length data - (offset + 4 + n))"
      by (rule 1 [of "rd16 data offset"])
         (use True new(1) in \<open>auto simp: n_def f_def lim_def Let_def split: if_splits\<close>)
    then obtain more where "module_diff_walk data (offset + 4 + n) (found @ new) = Some (found @ new @ more)"
      and "8 * length more \<le> length data - (offset + 4 + n)"
      by (auto simp: runs_iff)
    then show ?thesis using w new by (auto simp: lim_def)
  qed (subst module_diff_walk.simps, simp)
qed

lemma parse_module_diff_bound:
  "runs (parse_module_diff_block d) (\<lambda>r. 8 * length r \<le> length d)"
  unfolding parse_module_diff_block_def by (rule runs_mono [OF module_diff_walk_bound]) auto

lemma iocr_res_walk_total: "iocr_res_walk data t offset \<noteq> None"
proof (induction data t offset rule: iocr_res_walk.induct)
  case (1 data t offset)
  then show ?case by (subst iocr_res_walk.simps) (auto split: option.splits)
qed

lemma parse_connect_response_total: "parse_connect_response d le \<noteq> None"
proof -
  obtain ds where ds: "parse_module_diff_block (pn_payload (nrd_of le d)) = Some ds"
    using parse_module_diff_bound [of "pn_payload (nrd_of le d)"] by (auto simp: runs_iff)
  obtain st where st: "pnio_status_str (pn_args_status (nrd_of le d)) = Some st"
    using pnio_status_str_total by blast
  obtain i j where "iocr_res_walk (pn_payload (nrd_of le d)) 1 0 = Some i"
    "iocr_res_walk (pn_payload (nrd_of le d)) 2 0 = Some j" using iocr_res_walk_total by blast
  then show ?thesis
    by (auto simp: parse_connect_response_def parse_nrd_eq ds st Let_def parse_iocr_block_res_def)
qed

lemma parse_status_response_total: "parse_status_response d le \<noteq> None"
  using pnio_status_str_total [of "pn_args_status (nrd_of le d)"]
  by (auto simp: parse_status_response_def parse_nrd_eq)

lemma parse_read_response_total: "parse_read_response d le \<noteq> None"
  using pnio_status_str_total [of "pn_args_status (nrd_of le d)"]
  by (auto simp: parse_read_response_def parse_nrd_eq parse_iod_header_eq)

lemma parse_ccontrol_request_total: "parse_ccontrol_request h \<noteq> None"
  by (auto simp: parse_ccontrol_request_def parse_nrd_eq idx_def rd_u16_def)

lemma extract_app_ready_total: "extract_app_ready d \<noteq> None"
  using parse_ccontrol_request_total [of "rpc_header_of d"]
  by (auto simp: extract_app_ready_def parse_rpc_header_eq)

lemma ccontrol_response_total: "ccontrol_response h u k \<noteq> None"
  by (simp add: ccontrol_response_def parse_nrd_eq Let_def)

section \<open>What the walks read out of a well-formed connect response\<close>

text \<open>
  The blocks of a response: an IOCRBlockRes (type, reference, frame id), a ModuleDiffBlock
  (APIs with modules with submodules) and any other block.
\<close>

type_synonym diff_sub = "u16 \<times> u32 \<times> u16"
type_synonym diff_mod = "u16 \<times> u32 \<times> u16 \<times> diff_sub list"
type_synonym diff_api = "u32 \<times> diff_mod list"

datatype resp_block = IocrRes u16 u16 u16 | ModuleDiff "diff_api list" | OtherBlock u16 bytes

fun enc_sub :: "diff_sub \<Rightarrow> bytes" where
  "enc_sub (subslot, ident, state) = to_be16 subslot @ to_be32 ident @ to_be16 state"

fun enc_mod :: "diff_mod \<Rightarrow> bytes" where
  "enc_mod (slot, ident, state, subs) =
     to_be16 slot @ to_be32 ident @ to_be16 state @ to_be16 (as_u16 (length subs)) @ concat (map enc_sub subs)"

fun enc_api :: "diff_api \<Rightarrow> bytes" where
  "enc_api (api, mods) = to_be32 api @ to_be16 (as_u16 (length mods)) @ concat (map enc_mod mods)"

fun rb_type :: "resp_block \<Rightarrow> u16" where
  "rb_type (IocrRes _ _ _) = IOCR_BLOCK_RES"
| "rb_type (ModuleDiff _) = MODULE_DIFF_BLOCK"
| "rb_type (OtherBlock t _) = t"

fun rb_body :: "resp_block \<Rightarrow> bytes" where
  "rb_body (IocrRes t r f) = to_be16 t @ to_be16 r @ to_be16 f"
| "rb_body (ModuleDiff apis) = to_be16 (as_u16 (length apis)) @ concat (map enc_api apis)"
| "rb_body (OtherBlock _ b) = b"

definition enc_rb :: "resp_block \<Rightarrow> bytes" where
  "enc_rb b = block_header (rb_type b) (as_u16 (length (rb_body b) + 2)) 1 0 @ rb_body b"

fun rb_ok :: "resp_block \<Rightarrow> bool" where
  "rb_ok (OtherBlock t b) \<longleftrightarrow> t \<noteq> IOCR_BLOCK_RES \<and> t \<noteq> MODULE_DIFF_BLOCK \<and> length b + 2 < 65536"
| "rb_ok b \<longleftrightarrow> length (rb_body b) + 2 < 65536"

fun diffs_of_mod :: "diff_mod \<Rightarrow> submodule_diff list" where
  "diffs_of_mod (slot, _, _, subs) =
     map (\<lambda>(subslot, ident, state).
       \<lparr>sd_slot = slot, sd_subslot = subslot, sd_submodule_ident = ident, sd_state = state\<rparr>) subs"

fun diffs_of :: "resp_block \<Rightarrow> submodule_diff list" where
  "diffs_of (ModuleDiff apis) = concat (map (\<lambda>(_, mods). concat (map diffs_of_mod mods)) apis)"
| "diffs_of _ = []"

fun frame_id_of :: "u16 \<Rightarrow> resp_block list \<Rightarrow> u16" where
  "frame_id_of t [] = 0"
| "frame_id_of t (IocrRes t' _ f # bs) = (if t' = t then f else frame_id_of t bs)"
| "frame_id_of t (_ # bs) = frame_id_of t bs"

lemma length_bh [simp]: "length (block_header t l a b) = 6"
  by (simp add: block_header_def)

lemma length_enc_sub [simp]: "length (enc_sub s) = 8"
  by (cases s) simp

lemma length_enc_subs [simp]: "length (concat (map enc_sub subs)) = 8 * length subs"
  by (induction subs) auto

lemma length_enc_rb: "length (enc_rb b) = 6 + length (rb_body b)"
  by (simp add: enc_rb_def)

lemma diff_submodules_enc:
  assumes "length pre = p" and "p + 8 * length subs \<le> lim" and "lim \<le> length (pre @ concat (map enc_sub subs) @ post)"
  shows "diff_submodules (pre @ concat (map enc_sub subs) @ post) lim slot (length subs) (p, found) =
    Some (p + 8 * length subs, found @ diffs_of_mod (slot, i, st, subs))"
  using assms
proof (induction subs arbitrary: pre p found)
  case (Cons s subs)
  obtain a b c where s: "s = (a, b, c)" by (cases s)
  have "rd16 (pre @ concat (map enc_sub (s # subs)) @ post) p = a"
    "rd32 (pre @ concat (map enc_sub (s # subs)) @ post) (p + 2) = b"
    "rd16 (pre @ concat (map enc_sub (s # subs)) @ post) (p + 6) = c"
    using Cons.prems(1) by (simp_all add: s wire_simps)
  moreover have "diff_submodules ((pre @ enc_sub s) @ concat (map enc_sub subs) @ post) lim slot (length subs) (p + 8, f)
     = Some (p + 8 + 8 * length subs, f @ diffs_of_mod (slot, i, st, subs))" for f
    using Cons.prems by (intro Cons.IH) auto
  ultimately show ?case using Cons.prems by (simp add: s)
qed simp

lemma length_enc_mod: "length (enc_mod (s, i, st, subs)) = 10 + 8 * length subs"
  by simp

lemma length_enc_mods: "10 * length mods \<le> length (concat (map enc_mod mods))"
  by (induction mods) auto

lemma length_enc_apis: "6 * length apis \<le> length (concat (map enc_api apis))"
  by (induction apis) auto

lemma diff_modules_enc:
  assumes "length pre = p" and "p + length (concat (map enc_mod mods)) \<le> lim"
    and "lim \<le> length (pre @ concat (map enc_mod mods) @ post)"
    and "length (concat (map enc_mod mods)) < 65536"
  shows "diff_modules (pre @ concat (map enc_mod mods) @ post) lim (length mods) (p, found) =
    Some (p + length (concat (map enc_mod mods)), found @ concat (map diffs_of_mod mods))"
  using assms
proof (induction mods arbitrary: pre p found)
  case (Cons m mods)
  obtain slot i st subs where m: "m = (slot, i, st, subs)" by (cases m)
  define h where "h = to_be16 slot @ to_be32 i @ to_be16 st @ to_be16 (as_u16 (length subs))"
  define post' where "post' = concat (map enc_mod mods) @ post"
  define data where "data = (pre @ h) @ concat (map enc_sub subs) @ post'"
  have d: "pre @ concat (map enc_mod (m # mods)) @ post = data"
    by (simp add: data_def h_def post'_def m)
  have h: "length h = 10" by (simp add: h_def)
  have "rd16 data p = slot" and n: "rd16 data (p + 8) = as_u16 (length subs)"
    using Cons.prems(1) by (simp_all add: data_def h_def wire_simps)
  moreover have "diff_submodules data lim slot (length subs) (p + 10, found)
      = Some (p + 10 + 8 * length subs, found @ diffs_of_mod m)"
    unfolding data_def m using Cons.prems by (intro diff_submodules_enc) (auto simp: h m post'_def)
  moreover have "diff_modules ((pre @ enc_mod m) @ concat (map enc_mod mods) @ post) lim (length mods)
      (p + 10 + 8 * length subs, f) = Some (p + 10 + 8 * length subs + length (concat (map enc_mod mods)),
        f @ concat (map diffs_of_mod mods))" for f
    using Cons.prems by (intro Cons.IH) (auto simp: m)
  moreover have "(pre @ enc_mod m) @ concat (map enc_mod mods) @ post = data" using d by simp
  moreover have "p + 10 \<le> lim" "lim \<le> length data" "length subs < 65536"
    using Cons.prems(1,2,4) Cons.prems(3) [unfolded d] by (auto simp: m)
  ultimately show ?case unfolding d by (simp add: m length_enc_mod)
qed simp

lemma diff_apis_enc:
  assumes "length pre = p" and "p + length (concat (map enc_api apis)) \<le> lim"
    and "lim \<le> length (pre @ concat (map enc_api apis) @ post)"
    and "length (concat (map enc_api apis)) < 65536"
  shows "diff_apis (pre @ concat (map enc_api apis) @ post) lim (length apis) (p, found) =
    Some (p + length (concat (map enc_api apis)), found @ diffs_of (ModuleDiff apis))"
  using assms
proof (induction apis arbitrary: pre p found)
  case (Cons a apis)
  obtain api mods where a: "a = (api, mods)" by (cases a)
  define h where "h = to_be32 api @ to_be16 (as_u16 (length mods))"
  define post' where "post' = concat (map enc_api apis) @ post"
  define data where "data = (pre @ h) @ concat (map enc_mod mods) @ post'"
  have d: "pre @ concat (map enc_api (a # apis)) @ post = data"
    by (simp add: data_def h_def post'_def a)
  have h: "length h = 6" by (simp add: h_def)
  have n: "rd16 data (p + 4) = as_u16 (length mods)"
    using Cons.prems(1) by (simp add: data_def h_def wire_simps)
  have len: "length (enc_api a) = 6 + length (concat (map enc_mod mods))" by (simp add: a)
  have "length mods < 65536" using length_enc_mods [of mods] Cons.prems(4) by (simp add: a)
  moreover have "diff_modules data lim (length mods) (p + 6, found)
      = Some (p + 6 + length (concat (map enc_mod mods)), found @ concat (map diffs_of_mod mods))"
    unfolding data_def using Cons.prems by (intro diff_modules_enc) (auto simp: h a post'_def)
  moreover have "diff_apis ((pre @ enc_api a) @ concat (map enc_api apis) @ post) lim (length apis)
      (p + length (enc_api a), f) = Some (p + length (enc_api a) + length (concat (map enc_api apis)),
        f @ diffs_of (ModuleDiff apis))" for f
    using Cons.prems by (intro Cons.IH) auto
  moreover have "(pre @ enc_api a) @ concat (map enc_api apis) @ post = data" using d by simp
  moreover have "p + 6 \<le> lim" "lim \<le> length data"
    using Cons.prems(1,2) Cons.prems(3) [unfolded d] by (auto simp: a)
  ultimately show ?case unfolding d using n len by (simp add: a add.assoc)
qed simp

text \<open>One block of the response, at the place the walk stands.\<close>

lemma enc_rb_front:
  assumes "rb_ok b"
  shows "rd16 (pre @ enc_rb b @ post) (length pre) = rb_type b"
    "rd16 (pre @ enc_rb b @ post) (length pre + 2) = as_u16 (length (rb_body b) + 2)"
    "unat (as_u16 (length (rb_body b) + 2)) = length (rb_body b) + 2"
  using assms by (cases b; simp add: enc_rb_def block_header_def wire_simps)+

lemma rb_types: "IOCR_BLOCK_RES \<noteq> MODULE_DIFF_BLOCK"
  by (simp add: IOCR_BLOCK_RES_def MODULE_DIFF_BLOCK_def)

lemma module_diff_walk_hit:
  assumes "offset + 6 \<le> length data" and "rd16 data offset = MODULE_DIFF_BLOCK"
    and "unat (rd16 data (offset + 2)) = n" and "min (offset + 4 + n) (length data) = lim"
    and "offset + 8 \<le> lim" and "unat (rd16 data (offset + 6)) = k"
    and "diff_apis data lim k (offset + 8, found) = Some (q, g)"
  shows "module_diff_walk data offset found = module_diff_walk data (offset + 4 + n) g"
  using assms by (subst module_diff_walk.simps) (auto simp: Let_def add.commute [of 8])

lemma module_diff_walk_miss:
  assumes "offset + 6 \<le> length data" and "rd16 data offset \<noteq> MODULE_DIFF_BLOCK"
    and "unat (rd16 data (offset + 2)) = n"
  shows "module_diff_walk data offset found = module_diff_walk data (offset + 4 + n) found"
  using assms by (subst module_diff_walk.simps) auto

lemma module_diff_walk_block:
  assumes "rb_ok b"
  shows "module_diff_walk (pre @ enc_rb b @ post) (length pre) found =
    module_diff_walk (pre @ enc_rb b @ post) (length pre + length (enc_rb b)) (found @ diffs_of b)"
proof -
  define data where "data = pre @ enc_rb b @ post"
  have f: "rd16 data (length pre) = rb_type b" "unat (rd16 data (length pre + 2)) = length (rb_body b) + 2"
    using enc_rb_front [OF assms] by (simp_all add: data_def)
  have len: "length pre + 4 + (length (rb_body b) + 2) = length pre + length (enc_rb b)"
    and room: "length pre + 6 \<le> length data"
    and tot: "length data = length pre + 6 + length (rb_body b) + length post"
    by (simp_all add: length_enc_rb data_def)
  have "module_diff_walk data (length pre) found = module_diff_walk data (length pre + length (enc_rb b)) (found @ diffs_of b)"
  proof (cases b)
    case (ModuleDiff apis)
    define h where "h = block_header (rb_type b) (as_u16 (length (rb_body b) + 2)) 1 0 @ to_be16 (as_u16 (length apis))"
    have d: "data = (pre @ h) @ concat (map enc_api apis) @ post"
      by (simp add: enc_rb_def h_def ModuleDiff data_def)
    have l: "length (rb_body b) = 2 + length (concat (map enc_api apis))" by (simp add: ModuleDiff)
    define lim where "lim = length pre + 8 + length (concat (map enc_api apis))"
    have "length apis < 65536" using length_enc_apis [of apis] assms l ModuleDiff by auto
    then have n: "unat (rd16 data (length pre + 6)) = length apis"
      unfolding d by (simp add: h_def block_header_def wire_simps)
    have "diff_apis data lim (length apis) (length pre + 8, found) = Some (lim, found @ diffs_of b)"
      unfolding d lim_def
      using diff_apis_enc [of "pre @ h" "length pre + 8" apis "length pre + 8 + length (concat (map enc_api apis))" post found]
        assms l by (simp add: h_def ModuleDiff)
    moreover have "min (length pre + 4 + (length (rb_body b) + 2)) (length data) = lim"
      using l tot by (simp add: lim_def)
    ultimately show ?thesis
      unfolding len [symmetric] using f room n
      by (intro module_diff_walk_hit [where lim = lim and k = "length apis" and q = lim])
         (auto simp: ModuleDiff lim_def)
  next
    case (IocrRes t r fid)
    then have "rd16 data (length pre) \<noteq> MODULE_DIFF_BLOCK" using f(1) rb_types by simp
    from module_diff_walk_miss [OF room this f(2), of found] show ?thesis
      unfolding len by (simp only: IocrRes diffs_of.simps append_Nil2)
  next
    case (OtherBlock t body)
    then have "rd16 data (length pre) \<noteq> MODULE_DIFF_BLOCK" using f(1) assms by simp
    from module_diff_walk_miss [OF room this f(2), of found] show ?thesis
      unfolding len by (simp only: OtherBlock diffs_of.simps append_Nil2)
  qed
  then show ?thesis by (simp only: data_def)
qed

lemma module_diff_walk_enc:
  "\<forall>b \<in> set bs. rb_ok b \<Longrightarrow>
   module_diff_walk (pre @ concat (map enc_rb bs)) (length pre) found = Some (found @ concat (map diffs_of bs))"
proof (induction bs arbitrary: pre found)
  case Nil
  then show ?case by (subst module_diff_walk.simps) simp
next
  case (Cons b bs)
  then show ?case
    using module_diff_walk_block [of b pre "concat (map enc_rb bs)" found]
      Cons.IH [of "pre @ enc_rb b" "found @ diffs_of b"] by simp
qed

text \<open>The same for the frame ids.\<close>

lemma iocr_res_walk_hit:
  assumes "offset + 12 \<le> length data" and "rd16 data offset = IOCR_BLOCK_RES" and "rd16 data (offset + 6) = t"
  shows "iocr_res_walk data t offset = Some (rd16 data (offset + 10))"
  using assms by (subst iocr_res_walk.simps) auto

lemma iocr_res_walk_miss:
  assumes "offset + 6 \<le> length data" and "unat (rd16 data (offset + 2)) = n"
    and "rd16 data offset \<noteq> IOCR_BLOCK_RES \<or> rd16 data (offset + 6) \<noteq> t"
  shows "iocr_res_walk data t offset = iocr_res_walk data t (offset + 4 + n)"
  using assms by (subst iocr_res_walk.simps) auto

lemma iocr_res_walk_enc:
  "\<forall>b \<in> set bs. rb_ok b \<Longrightarrow> iocr_res_walk (pre @ concat (map enc_rb bs)) t (length pre) = Some (frame_id_of t bs)"
proof (induction bs arbitrary: pre)
  case Nil
  then show ?case by (subst iocr_res_walk.simps) simp
next
  case (Cons b bs)
  define data where "data = pre @ enc_rb b @ concat (map enc_rb bs)"
  have f: "rd16 data (length pre) = rb_type b" "unat (rd16 data (length pre + 2)) = length (rb_body b) + 2"
    using enc_rb_front [of b] Cons.prems by (simp_all add: data_def)
  have room: "length pre + 6 \<le> length data" by (simp add: length_enc_rb data_def)
  have skip: "iocr_res_walk data t (length pre) = Some (frame_id_of t bs)"
    if "rd16 data (length pre) \<noteq> IOCR_BLOCK_RES \<or> rd16 data (length pre + 6) \<noteq> t"
    using iocr_res_walk_miss [OF room f(2) that] Cons.IH [of "pre @ enc_rb b"] Cons.prems
    by (simp add: data_def length_enc_rb add.commute add.left_commute)
  have "iocr_res_walk data t (length pre) = Some (frame_id_of t (b # bs))"
  proof (cases b)
    case (IocrRes t' r fid)
    have r: "rd16 data (length pre + 6) = t'" "rd16 data (length pre + 10) = fid" "length pre + 12 \<le> length data"
      by (simp_all add: data_def enc_rb_def IocrRes block_header_def wire_simps)
    then show ?thesis using skip f(1) iocr_res_walk_hit [OF r(3), of t'] IocrRes by auto
  qed (use skip f(1) Cons.prems rb_types in auto)
  then show ?case by (simp add: data_def)
qed

text \<open>A response body: an NRD header in the given byte order around the blocks.\<close>

definition nrd_body :: "bool \<Rightarrow> u32 \<Rightarrow> u32 \<Rightarrow> bytes \<Rightarrow> bytes" where
  "nrd_body le st mx p =
     wr_u32 st le @ wr_u32 (as_u32 (length p)) le @ wr_u32 mx le @ wr_u32 0 le @ wr_u32 (as_u32 (length p)) le @ p"

lemma nrd_of_body:
  "nrd_of le (nrd_body le st mx p) =
     \<lparr>pn_args_status = st, pn_args_length = as_u32 (length p), pn_maximum_count = mx, pn_offset = 0,
      pn_actual_count = as_u32 (length p), pn_payload = p\<rparr>"
  by (simp add: nrd_of_def nrd_body_def wire_simps)

lemma length_nrd_body [simp]: "length (nrd_body le st mx p) = 20 + length p"
  by (simp add: nrd_body_def)

definition withheld_error :: "submodule_diff list \<Rightarrow> string" where
  "withheld_error ds =
     ''the device accepted the AR but withheld '' @ dec_nat (length ds)
     @ '' submodule(s), so its cyclic frames would carry substitute data with IOPS bad: ''
     @ join ''; '' (map withheld_text ds) @ ''. ''
     @ (if list_ex is_locked ds then ''Release the device at whoever owns it first''
        else ''Check the configuration against what the device really has plugged'')"

lemma parse_connect_response_blocks:
  assumes "\<forall>b \<in> set bs. rb_ok b"
  shows "parse_connect_response (nrd_body le 0 mx (concat (map enc_rb bs))) le =
    Some (let withheld = filter (\<lambda>d. \<not> is_ours d) (concat (map diffs_of bs)) in
      if withheld \<noteq> [] then Inl (withheld_error withheld)
      else Inr \<lparr>cr_input_frame_id = frame_id_of 1 bs, cr_output_frame_id = frame_id_of 2 bs,
                cr_has_cyclic = (frame_id_of 1 bs \<noteq> 0 \<or> frame_id_of 2 bs \<noteq> 0)\<rparr>)"
  using module_diff_walk_enc [OF assms, of "[]" "[]"] iocr_res_walk_enc [OF assms, of "[]"]
  by (simp add: parse_connect_response_def parse_nrd_eq nrd_of_body parse_module_diff_block_def
      parse_iocr_block_res_def Let_def withheld_error_def)

text \<open>The submodule states this AR is given: bit 15 clear, or ARInfo 0 or 1 and IdentInfo 0.\<close>

lemma is_ours_state:
  "is_ours d \<longleftrightarrow> \<not> bit (sd_state d) 15 \<or>
     drop_bit 11 (sd_state d) AND 0xF = 0 \<and> (drop_bit 7 (sd_state d) AND 0xF = 0 \<or> drop_bit 7 (sd_state d) AND 0xF = 1)"
proof -
  have "(0x8000 :: u16) = push_bit 15 1" by simp
  then have "sd_state d AND 0x8000 \<noteq> 0 \<longleftrightarrow> bit (sd_state d) 15"
    by (metis and_exp_eq_0_iff_not_bit push_bit_of_1)
  then show ?thesis
    by (auto simp: is_ours_def ar_info_def ident_info_def has_fields_def SUBMODULE_STATE_HAS_FIELDS_def
        AR_INFO_OK_def AR_INFO_APPLICATION_READY_PENDING_def IDENT_INFO_OK_def)
qed

text \<open>
  C27: The connect response of a device, read by its blocks: for every response with a zero
  status whose payload is any sequence of well-formed blocks, in either byte order of the NRD
  header, the connect is refused exactly when some submodule listed in some ModuleDiffBlock is
  not given to this AR (state word in the field format and either ARInfo is neither Own nor
  ApplicationReadyPending or IdentInfo is not zero), with an error naming exactly those
  submodules; otherwise the frame ids are those of the first IOCRBlockRes of each direction, 0
  where there is none.
\<close>

theorem connect_response_refines:
  assumes "\<forall>b \<in> set bs. rb_ok b"
  shows "parse_connect_response (nrd_body le 0 mx (concat (map enc_rb bs))) le =
    Some (let withheld = filter (\<lambda>d. \<not> is_ours d) (concat (map diffs_of bs)) in
      if withheld \<noteq> [] then Inl (withheld_error withheld)
      else Inr \<lparr>cr_input_frame_id = frame_id_of 1 bs, cr_output_frame_id = frame_id_of 2 bs,
                cr_has_cyclic = (frame_id_of 1 bs \<noteq> 0 \<or> frame_id_of 2 bs \<noteq> 0)\<rparr>)
   \<and> (is_ours d \<longleftrightarrow> \<not> bit (sd_state d) 15 \<or> drop_bit 11 (sd_state d) AND 0xF = 0
        \<and> (drop_bit 7 (sd_state d) AND 0xF = 0 \<or> drop_bit 7 (sd_state d) AND 0xF = 1))"
  using parse_connect_response_blocks [OF assms] is_ours_state by blast

theorem connect_response_refines_witness:
  "parse_connect_response (nrd_body True 0 4000 (concat (map enc_rb
     [OtherBlock 0x8101 [1, 2, 3], IocrRes 2 2 0x8001, IocrRes 1 1 0x8000,
      ModuleDiff [(0, [(1, 0x10, 2, [(1, 0x11, 0x8000)])])]]))) True =
   Some (Inr \<lparr>cr_input_frame_id = 0x8000, cr_output_frame_id = 0x8001, cr_has_cyclic = True\<rparr>)"
proof -
  let ?bs = "[OtherBlock 0x8101 [1, 2, 3], IocrRes 2 2 0x8001, IocrRes 1 1 0x8000,
      ModuleDiff [(0, [(1, 0x10, 2, [(1, 0x11, 0x8000)])])]]"
  have ok: "\<forall>b \<in> set ?bs. rb_ok b" by (simp add: IOCR_BLOCK_RES_def MODULE_DIFF_BLOCK_def)
  have "filter (\<lambda>d. \<not> is_ours d) (concat (map diffs_of ?bs)) = []" by code_simp
  then show ?thesis using connect_response_refines [OF ok, of True 4000] by (simp add: Let_def)
qed

section \<open>The ApplicationReady confirmation\<close>

lemma length_iod_control_block [simp]: "length u = 16 \<Longrightarrow> length (iod_control_block t u k c) = 32"
  by (simp add: iod_control_block_def)

lemma iod_control_block_fields:
  assumes "length u = 16"
  shows "rd16 (iod_control_block t u k c @ sub) 0 = t" "take 16 (drop 8 (iod_control_block t u k c @ sub)) = u"
    "rd16 (iod_control_block t u k c @ sub) 24 = k" "rd16 (iod_control_block t u k c @ sub) 28 = c"
  using assms by (simp_all add: iod_control_block_def block_header_def wire_simps)

definition confirmation_header :: "parsed_rpc \<Rightarrow> bytes \<Rightarrow> parsed_rpc" where
  "confirmation_header req body =
     req\<lparr>pr_packet_type := 2, pr_flags1 := 0x0A, pr_flags2 := 0, pr_server_boot_time := 0,
         pr_interface_hint := 0xFFFF, pr_activity_hint := 0xFFFF,
         pr_length_of_body := as_u16 (length body), pr_fragment_number := 0, pr_auth_protocol := 0,
         pr_payload := body\<rparr>"

definition confirmation_body :: "parsed_rpc \<Rightarrow> bytes \<Rightarrow> u16 \<Rightarrow> bytes" where
  "confirmation_body req u k =
     (let le = pr_is_little_endian req; p = pr_payload req in
      nrd_body le 0 (if length p < 20 then 32 else rdv32 le p 8)
        (iod_control_block BLOCK_IOD_CONTROL_APP_READY_RES u k CONTROL_CMD_DONE))"

lemma ccontrol_response_enc:
  "length u = 16 \<Longrightarrow>
   ccontrol_response req u k = Some (enc_rpc (confirmation_header req (confirmation_body req u k)))"
  by (simp add: ccontrol_response_def parse_nrd_eq Let_def enc_rpc_def confirmation_header_def
      confirmation_body_def nrd_of_def nrd_body_def packet_type_defs RPC_FLAGS1_LASTFRAG_def
      RPC_FLAGS1_NOFACK_def as_u32_def)

lemma confirmation_header_ok: "rpc_ok req \<Longrightarrow> rpc_ok (confirmation_header req b)"
  by (simp add: rpc_ok_def confirmation_header_def)

text \<open>What \<open>extract_app_ready\<close> accepts: a CONTROL request with a control block 0x0112.\<close>

lemma extract_app_readyD:
  assumes "extract_app_ready d = Some (Some (h, cc))"
  shows "d = enc_rpc h" "rpc_ok h" "pr_packet_type h = 0" "pr_operation_number h = 4"
    "cc_block_type cc = 0x0112" "52 \<le> length (pr_payload h)" "cc_nrd_body cc = drop 20 (pr_payload h)"
    "cc_control_command cc = rd16 (drop 20 (pr_payload h)) 28"
proof -
  have len: "\<not> length d < 80"
    using assms by (auto simp: extract_app_ready_def parse_rpc_header_eq)
  obtain r where r: "parse_ccontrol_request (rpc_header_of d) = Some r"
    using parse_ccontrol_request_total by blast
  have h: "h = rpc_header_of d" and cc: "parse_ccontrol_request h = Some (Inr cc)" and t: "cc_block_type cc = 0x0112"
    using assms len r
    by (cases r; auto simp: extract_app_ready_def parse_rpc_header_eq
        BLOCK_IOD_CONTROL_APP_READY_REQ_def split: if_splits)+
  show "d = enc_rpc h" "rpc_ok h" "cc_block_type cc = 0x0112"
    using len h t enc_rpc_header_of [of d] rpc_header_of_ok [of d] by simp_all
  have "\<not> length (pr_payload h) < 20" "\<not> length (drop 20 (pr_payload h)) < 32"
    using cc by (auto simp: parse_ccontrol_request_def parse_nrd_eq nrd_of_def split: if_splits)
  then show "52 \<le> length (pr_payload h)" by simp
  then show "pr_packet_type h = 0" "pr_operation_number h = 4" "cc_nrd_body cc = drop 20 (pr_payload h)"
    "cc_control_command cc = rd16 (drop 20 (pr_payload h)) 28"
    using cc by (auto simp: parse_ccontrol_request_def parse_nrd_eq nrd_of_def packet_type_defs CONTROL_def
        wire_simps split: if_splits)
qed

text \<open>
  The confirmation of a device's ApplicationReady. Whatever datagram is accepted as one, in
  either byte order, the confirmation built for it parses back as an RPC RESPONSE in the same
  byte order with the request's object, interface and activity UUIDs, sequence number,
  operation and serial number; its NRD has status 0 and repeats the maximum count the device
  advertised; and its payload is one control block of type 0x8112 with our AR UUID, our session
  key and the command DONE.
\<close>

theorem app_ready_confirmed:
  assumes "extract_app_ready d = Some (Some (req, cc))" and "length u = 16"
  shows "\<exists>frame h n. ccontrol_response req u k = Some frame \<and> parse_rpc_header frame = Some (Some h)
    \<and> pr_packet_type h = PACKET_TYPE_RESPONSE \<and> pr_is_little_endian h = pr_is_little_endian req
    \<and> pr_object_uuid h = pr_object_uuid req \<and> pr_interface_uuid h = pr_interface_uuid req
    \<and> answers (drep_normalized_uuid (pr_activity_uuid req) (pr_is_little_endian req)) (pr_sequence_number req) h
    \<and> pr_operation_number h = CONTROL \<and> unat (pr_length_of_body h) = length (pr_payload h)
    \<and> pr_serial_high h = pr_serial_high req \<and> pr_serial_low h = pr_serial_low req
    \<and> parse_nrd (pr_payload h) (pr_is_little_endian h) = Some (Inr n)
    \<and> pn_args_status n = 0 \<and> pn_maximum_count n = rdv32 (pr_is_little_endian req) (pr_payload req) 8
    \<and> unat (pn_args_length n) = length (pn_payload n)
    \<and> pn_payload n = iod_control_block 0x8112 u k 0x0008"
proof -
  note a = extract_app_readyD [OF assms(1)]
  define b where "b = confirmation_body req u k"
  have ok: "rpc_ok (confirmation_header req b)" using confirmation_header_ok a(2) by blast
  have len: "length b = 52" using assms(2) by (simp add: b_def confirmation_body_def Let_def)
  have n: "parse_nrd b (pr_is_little_endian req) = Some (Inr (nrd_of (pr_is_little_endian req) b))"
    using len by (simp add: parse_nrd_eq)
  show ?thesis
    by (intro exI conjI, rule ccontrol_response_enc [OF assms(2)], rule parse_enc_rpc [OF ok [unfolded b_def]])
       (use a(4,6) n len assms(2) in \<open>simp_all add: confirmation_header_def answers_def packet_type_defs CONTROL_def
          b_def [symmetric]\<close>, simp_all add: b_def confirmation_body_def Let_def nrd_of_body
          BLOCK_IOD_CONTROL_APP_READY_RES_def CONTROL_CMD_DONE_def)
qed

definition sample_ready :: parsed_rpc where
  "sample_ready = (request_header (replicate 16 1) IFACE_UUID_DEVICE (replicate 16 2) 9 4
     (nrd_body True 4000 1500 (iod_control_block 0x0112 (replicate 16 3) 5 2)))
     \<lparr>pr_drep := [0x10, 0, 0], pr_is_little_endian := True\<rparr>"

lemma sample_ready_extracted:
  "extract_app_ready (enc_rpc sample_ready) = Some (Some (sample_ready,
     \<lparr>cc_block_type = 0x0112, cc_control_command = 2, cc_nrd_body = iod_control_block 0x0112 (replicate 16 3) 5 2\<rparr>))"
  by code_simp

theorem app_ready_confirmed_witness:
  "\<exists>frame h n. ccontrol_response sample_ready (replicate 16 3) 5 = Some frame
    \<and> parse_rpc_header frame = Some (Some h) \<and> pr_packet_type h = PACKET_TYPE_RESPONSE
    \<and> parse_nrd (pr_payload h) (pr_is_little_endian h) = Some (Inr n)
    \<and> pn_payload n = iod_control_block 0x8112 (replicate 16 3) 5 0x0008"
  using app_ready_confirmed [OF sample_ready_extracted, of "replicate 16 3" 5] by auto

text \<open>
  The response parsers return for every input. No datagram makes the header parser, the
  response classifier, the connect, read or status response parsers, the CControl extraction or
  the confirmation builder panic; a header that is parsed has a well-formed record (a 3-byte
  DREP that determines its byte order, 16-byte UUIDs) which encodes to exactly the bytes read;
  and a ModuleDiffBlock yields at most one submodule per eight bytes of the payload, whatever
  counts it claims.
\<close>

theorem rpc_parsers_total:
  "parse_rpc_response d \<noteq> None \<and> parse_connect_response d le \<noteq> None \<and> parse_read_response d le \<noteq> None
   \<and> parse_status_response d le \<noteq> None \<and> extract_app_ready d \<noteq> None
   \<and> (\<exists>r. parse_rpc_header d = Some r \<and> (r = None \<longleftrightarrow> length d < 80)
        \<and> (\<forall>h. r = Some h \<longrightarrow> rpc_ok h \<and> enc_rpc h = d \<and> ccontrol_response h u k \<noteq> None))
   \<and> (\<exists>r. parse_module_diff_block d = Some r \<and> 8 * length r \<le> length d)"
proof -
  have "rpc_ok (rpc_header_of d) \<and> enc_rpc (rpc_header_of d) = d" if "\<not> length d < 80"
    using that rpc_header_of_ok enc_rpc_header_of by simp
  moreover have "\<exists>r. parse_module_diff_block d = Some r \<and> 8 * length r \<le> length d"
    using parse_module_diff_bound [of d] by (simp add: runs_iff)
  ultimately show ?thesis
    by (simp add: parse_rpc_response_eq parse_rpc_header_eq parse_connect_response_total
        parse_read_response_total parse_status_response_total extract_app_ready_total
        ccontrol_response_total)
qed

theorem rpc_parsers_total_witness:
  "\<exists>h. parse_rpc_header (enc_rpc sample_ready) = Some (Some h) \<and> rpc_ok h \<and> enc_rpc h = enc_rpc sample_ready"
proof -
  have "length (enc_rpc sample_ready) = 132" by code_simp
  then show ?thesis using rpc_parsers_total [of "enc_rpc sample_ready"] by fastforce
qed

end
