(* ===== verification/Im.thy ===== *)
theory Im
  imports Gsdml Util
begin

text \<open>
  Model of \<open>src/im.rs\<close>: the block headers, the I\&M0 to I\&M3 records, the PDRealData,
  RealIdentificationData and I\&M0FilterData parsers. Errors are the texts of the source. A
  string decoded with \<open>from_utf8_lossy\<close> stays the bytes handed to it; a Latin-1 string has one
  character per byte. A \<open>BTreeMap\<close> is its key-ordered list of entries.
\<close>

section \<open>Constants and names\<close>

definition IM0 :: u16 where "IM0 = 0xAFF0"
definition IM1 :: u16 where "IM1 = 0xAFF1"
definition IM2 :: u16 where "IM2 = 0xAFF2"
definition IM3 :: u16 where "IM3 = 0xAFF3"
definition IM0_FILTER_DATA :: u16 where "IM0_FILTER_DATA = 0xF840"
definition REAL_ID_API :: u16 where "REAL_ID_API = 0xF000"
definition PD_REAL_DATA :: u16 where "PD_REAL_DATA = 0xF841"
definition BLOCK_PD_PORT_DATA_REAL :: u16 where "BLOCK_PD_PORT_DATA_REAL = 0x020F"
definition BLOCK_PD_INTERFACE_DATA_REAL :: u16 where "BLOCK_PD_INTERFACE_DATA_REAL = 0x0240"
definition BLOCK_MULTIPLE_HEADER :: u16 where "BLOCK_MULTIPLE_HEADER = 0x0400"

definition BLOCK_TYPE_NAMES :: "(u16 \<times> string) list" where
  "BLOCK_TYPE_NAMES = [
     (0x0001, ''AlarmNotificationHigh''),
     (0x8001, ''AlarmAckHigh''),
     (0x0002, ''AlarmNotificationLow''),
     (0x8002, ''AlarmAckLow''),
     (0x0008, ''IODWriteReqHeader''),
     (0x8008, ''IODWriteResHeader''),
     (0x0009, ''IODReadReqHeader''),
     (0x8009, ''IODReadResHeader''),
     (0x0010, ''DiagnosisData''),
     (0x0012, ''ExpectedIdentificationData''),
     (0x0013, ''RealIdentificationData''),
     (0x0020, ''I&M0''),
     (0x0021, ''I&M1''),
     (0x0022, ''I&M2''),
     (0x0023, ''I&M3''),
     (0x0024, ''I&M4''),
     (0x0025, ''I&M5''),
     (0x0026, ''I&M6''),
     (0x0027, ''I&M7''),
     (0x0028, ''I&M8''),
     (0x0029, ''I&M9''),
     (0x002A, ''I&M10''),
     (0x002B, ''I&M11''),
     (0x002C, ''I&M12''),
     (0x002D, ''I&M13''),
     (0x002E, ''I&M14''),
     (0x002F, ''I&M15''),
     (0x0101, ''ARBlockReq''),
     (0x8101, ''ARBlockRes''),
     (0x0102, ''IOCRBlockReq''),
     (0x8102, ''IOCRBlockRes''),
     (0x0103, ''AlarmCRBlockReq''),
     (0x8103, ''AlarmCRBlockRes''),
     (0x0104, ''ExpectedSubmoduleBlockReq''),
     (0x8104, ''ModuleDiffBlock''),
     (0x0110, ''IODControlReqPrmEnd''),
     (0x8110, ''IODControlResPrmEnd''),
     (0x0112, ''IODControlReqAppReady''),
     (0x8112, ''IODControlResAppReady''),
     (0x0114, ''IODReleaseReq''),
     (0x8114, ''IODReleaseRes''),
     (0x0117, ''IODControlReqRTClass3''),
     (0x8117, ''IODControlResRTClass3''),
     (0x0118, ''PrmBeginReq''),
     (0x8118, ''PrmBeginRes''),
     (0x0119, ''SubmoduleListBlock''),
     (0x0018, ''ARData''),
     (0x0019, ''LogData''),
     (0x001A, ''APIData''),
     (0x001B, ''SRLData''),
     (0x0200, ''PDPortDataCheck''),
     (0x0202, ''PDPortDataAdjust''),
     (0x020F, ''PDPortDataReal''),
     (0x0211, ''PDInterfaceMrpDataAdjust''),
     (0x0212, ''PDInterfaceMrpDataReal''),
     (0x0215, ''PDPortMrpDataReal''),
     (0x0219, ''MrpRingStateData''),
     (0x0220, ''PDPortFODataReal''),
     (0x0221, ''PDPortFODataCheck''),
     (0x0222, ''PDPortFODataAdjust''),
     (0x022C, ''PDPortDataRealExtended''),
     (0x0240, ''PDInterfaceDataReal''),
     (0x0251, ''PDPortStatistic''),
     (0x0400, ''MultipleBlockHeader''),
     (0x0401, ''COContainerContent''),
     (0xF820, ''ARServerBlock''),
     (0xF841, ''PDRealData''),
     (0xF842, ''PDExpectedData''),
     (0xF000, ''RealIdentificationDataAPI'')]"

definition block_type_name :: "u16 \<Rightarrow> string" where
  "block_type_name block_type =
     (case map_of BLOCK_TYPE_NAMES block_type of
        Some name \<Rightarrow> name
      | None \<Rightarrow> ''Unknown(0x'' @ hex_upper 4 (unat block_type) @ '')'')"

section \<open>Byte helpers\<close>

text \<open>The bytes \<open>decode_bytes\<close> hands to \<open>from_utf8_lossy\<close>: trailing zeros are cut.\<close>

definition decode_bytes :: "bytes \<Rightarrow> bytes" where
  "decode_bytes data = rev (dropWhile (\<lambda>b. b = 0) (rev data))"

definition decode_latin1 :: "bytes \<Rightarrow> string" where
  "decode_latin1 data = map (\<lambda>b. char_of (unat b)) data"

definition align4 :: "nat \<Rightarrow> nat" where
  "align4 offset = (offset + 3) div 4 * 4"

section \<open>Block headers\<close>

record block_hdr =
  bh_block_type :: u16
  bh_block_length :: u16
  bh_version_high :: u8
  bh_version_low :: u8

definition body_length :: "block_hdr \<Rightarrow> nat" where
  "body_length h = (if 2 \<le> bh_block_length h then unat (bh_block_length h) - 2 else 0)"

definition type_name :: "block_hdr \<Rightarrow> string" where
  "type_name h = block_type_name (bh_block_type h)"

definition parse_block_header :: "bytes \<Rightarrow> nat \<Rightarrow> (string + block_hdr \<times> nat) option" where
  "parse_block_header data offset =
     (if length data < offset + 6
      then Some (Inl (''Block header requires 6 bytes, got '' @ dec_nat (length data - offset)))
      else do {
        block_type \<leftarrow> be16_at data offset; block_length \<leftarrow> be16_at data (offset + 2);
        version_high \<leftarrow> idx data (offset + 4); version_low \<leftarrow> idx data (offset + 5);
        Some (Inr (\<lparr>bh_block_type = block_type, bh_block_length = block_length,
                    bh_version_high = version_high, bh_version_low = version_low\<rparr>, offset + 6)) })"

definition parse_multiple_block_header :: "bytes \<Rightarrow> nat \<Rightarrow> (string + u32 \<times> u16 \<times> u16 \<times> nat) option" where
  "parse_multiple_block_header data offset =
     (if length data < offset + 10
      then Some (Inl ''MultipleBlockHeader body requires 8 bytes after padding'')
      else do {
        api \<leftarrow> be32_at data (offset + 2); slot \<leftarrow> be16_at data (offset + 6); subslot \<leftarrow> be16_at data (offset + 8);
        Some (Inr (api, slot, subslot, offset + 10)) })"

section \<open>I\&M0 to I\&M3\<close>

record in_m0 =
  im0_block_header :: block_hdr
  im0_vendor_id_high :: u8
  im0_vendor_id_low :: u8
  im0_order_id :: bytes
  im0_serial_number :: bytes
  im0_hardware_revision :: u16
  im0_sw_revision_prefix :: u8
  im0_sw_functional :: u8
  im0_sw_bug_fix :: u8
  im0_sw_internal :: u8
  im0_revision_counter :: u16
  im0_profile_id :: u16
  im0_profile_specific_type :: u16
  im0_version :: u16
  im0_supported :: u16

definition im0_vendor_id :: "in_m0 \<Rightarrow> u16" where
  "im0_vendor_id m = push_bit 8 (ucast (im0_vendor_id_high m)) OR ucast (im0_vendor_id_low m)"

text \<open>The UTF-8 bytes of the character with a code point below 256.\<close>

definition char_utf8 :: "u8 \<Rightarrow> string" where
  "char_utf8 b =
     (if b < 0x80 then [char_of (unat b)] else [char_of (0xC0 + unat b div 64), char_of (0x80 + unat b mod 64)])"

definition software_revision :: "in_m0 \<Rightarrow> string" where
  "software_revision m =
     (if im0_sw_revision_prefix m \<noteq> 0 then char_utf8 (im0_sw_revision_prefix m) else [])
     @ dec_nat (unat (im0_sw_functional m)) @ ''.'' @ dec_nat (unat (im0_sw_bug_fix m)) @ ''.''
     @ dec_nat (unat (im0_sw_internal m))"

record in_m1 =
  im1_block_header :: block_hdr
  im1_tag_function :: bytes
  im1_tag_location :: bytes

record in_m2 =
  im2_block_header :: block_hdr
  im2_date :: bytes

record in_m3 =
  im3_block_header :: block_hdr
  im3_descriptor :: bytes

text \<open>The text accessors: the bytes their \<open>decode_bytes\<close> keeps.\<close>

definition order_id_str :: "in_m0 \<Rightarrow> bytes" where
  "order_id_str m = decode_bytes (im0_order_id m)"

definition serial_number_str :: "in_m0 \<Rightarrow> bytes" where
  "serial_number_str m = decode_bytes (im0_serial_number m)"

definition tag_function_str :: "in_m1 \<Rightarrow> bytes" where
  "tag_function_str m = decode_bytes (im1_tag_function m)"

definition tag_location_str :: "in_m1 \<Rightarrow> bytes" where
  "tag_location_str m = decode_bytes (im1_tag_location m)"

definition date_str :: "in_m2 \<Rightarrow> bytes" where
  "date_str m = decode_bytes (im2_date m)"

definition descriptor_str :: "in_m3 \<Rightarrow> bytes" where
  "descriptor_str m = decode_bytes (im3_descriptor m)"

definition need :: "string \<Rightarrow> bytes \<Rightarrow> nat \<Rightarrow> string + unit" where
  "need name data sz =
     (if length data < sz
      then Inl (name @ '': insufficient data, need '' @ dec_nat sz @ '' bytes, got '' @ dec_nat (length data))
      else Inr ())"

text \<open>\<open>copy::<N>(data, offset)\<close>.\<close>

definition copy_n :: "nat \<Rightarrow> bytes \<Rightarrow> nat \<Rightarrow> bytes option" where
  "copy_n n data offset = sub_slice data offset (offset + n)"

definition parse_im0 :: "bytes \<Rightarrow> (string + in_m0) option" where
  "parse_im0 data =
     (case need ''PNInM0'' data 60 of
        Inl e \<Rightarrow> Some (Inl e)
      | Inr _ \<Rightarrow> do {
          r \<leftarrow> parse_block_header data 0;
          (case r of
             Inl e \<Rightarrow> Some (Inl e)
           | Inr (hdr, _) \<Rightarrow> do {
               vh \<leftarrow> idx data 6; vl \<leftarrow> idx data 7; order \<leftarrow> copy_n 20 data 8; serial \<leftarrow> copy_n 16 data 28;
               hw \<leftarrow> be16_at data 44; pre \<leftarrow> idx data 46; fe \<leftarrow> idx data 47; bf \<leftarrow> idx data 48; ic \<leftarrow> idx data 49;
               rc \<leftarrow> be16_at data 50; pid \<leftarrow> be16_at data 52; pst \<leftarrow> be16_at data 54; ver \<leftarrow> be16_at data 56;
               sup \<leftarrow> be16_at data 58;
               Some (Inr \<lparr>im0_block_header = hdr, im0_vendor_id_high = vh, im0_vendor_id_low = vl,
                 im0_order_id = order, im0_serial_number = serial, im0_hardware_revision = hw,
                 im0_sw_revision_prefix = pre, im0_sw_functional = fe, im0_sw_bug_fix = bf,
                 im0_sw_internal = ic, im0_revision_counter = rc, im0_profile_id = pid,
                 im0_profile_specific_type = pst, im0_version = ver, im0_supported = sup\<rparr>) }) })"

definition parse_im1 :: "bytes \<Rightarrow> (string + in_m1) option" where
  "parse_im1 data =
     (case need ''PNInM1'' data 60 of
        Inl e \<Rightarrow> Some (Inl e)
      | Inr _ \<Rightarrow> do {
          r \<leftarrow> parse_block_header data 0;
          (case r of
             Inl e \<Rightarrow> Some (Inl e)
           | Inr (hdr, _) \<Rightarrow> do {
               f \<leftarrow> copy_n 32 data 6; l \<leftarrow> copy_n 22 data 38;
               Some (Inr \<lparr>im1_block_header = hdr, im1_tag_function = f, im1_tag_location = l\<rparr>) }) })"

definition parse_im2 :: "bytes \<Rightarrow> (string + in_m2) option" where
  "parse_im2 data =
     (case need ''PNInM2'' data 22 of
        Inl e \<Rightarrow> Some (Inl e)
      | Inr _ \<Rightarrow> do {
          r \<leftarrow> parse_block_header data 0;
          (case r of
             Inl e \<Rightarrow> Some (Inl e)
           | Inr (hdr, _) \<Rightarrow> do {
               d \<leftarrow> copy_n 16 data 6; Some (Inr \<lparr>im2_block_header = hdr, im2_date = d\<rparr>) }) })"

definition parse_im3 :: "bytes \<Rightarrow> (string + in_m3) option" where
  "parse_im3 data =
     (case need ''PNInM3'' data 60 of
        Inl e \<Rightarrow> Some (Inl e)
      | Inr _ \<Rightarrow> do {
          r \<leftarrow> parse_block_header data 0;
          (case r of
             Inl e \<Rightarrow> Some (Inl e)
           | Inr (hdr, _) \<Rightarrow> do {
               d \<leftarrow> copy_n 54 data 6; Some (Inr \<lparr>im3_block_header = hdr, im3_descriptor = d\<rparr>) }) })"

section \<open>PDRealData\<close>

record slot_info =
  si_slot :: u16
  si_subslot :: u16
  si_api :: u32
  si_module_ident :: u32
  si_submodule_ident :: u32
  si_blocks :: "string list"

definition to_device_slot :: "slot_info \<Rightarrow> device_slot" where
  "to_device_slot s = \<lparr>ds_slot = si_slot s, ds_subslot = si_subslot s,
     ds_module_ident = si_module_ident s, ds_submodule_ident = si_submodule_ident s\<rparr>"

record peer_info =
  pe_port_id :: string
  pe_chassis_id :: string
  pe_mac_address :: bytes

record port_info =
  po_slot :: u16
  po_subslot :: u16
  po_port_id :: string
  po_mau_type :: u16
  po_link_state_port :: u8
  po_link_state_link :: u8
  po_media_type :: u32
  po_peers :: "peer_info list"
  po_domain_boundary :: u32
  po_multicast_boundary :: u32

definition link_state :: "port_info \<Rightarrow> string" where
  "link_state p =
     (let l = po_link_state_link p in
      if l = 0 then ''Unknown'' else if l = 1 then ''Up'' else if l = 2 then ''Down''
      else if l = 3 then ''Testing'' else ''Unknown('' @ dec_nat (unat l) @ '')'')"

record interface_info =
  if_chassis_id :: string
  if_mac_address :: bytes
  if_ip_address :: bytes
  if_subnet_mask :: bytes
  if_gateway :: bytes

definition mac_colon_str :: "bytes \<Rightarrow> string" where
  "mac_colon_str mac = join_with (CHR '':'') (map hex2 mac)"

definition dotted :: "bytes \<Rightarrow> string" where
  "dotted ip = join_with (CHR ''.'') (map dec_u8 ip)"

definition peer_mac_str :: "peer_info \<Rightarrow> string" where
  "peer_mac_str p = mac_colon_str (pe_mac_address p)"

definition if_mac_str :: "interface_info \<Rightarrow> string" where
  "if_mac_str i = mac_colon_str (if_mac_address i)"

definition ip_str :: "interface_info \<Rightarrow> string" where
  "ip_str i = dotted (if_ip_address i)"

definition subnet_str :: "interface_info \<Rightarrow> string" where
  "subnet_str i = dotted (if_subnet_mask i)"

definition gateway_str :: "interface_info \<Rightarrow> string" where
  "gateway_str i = dotted (if_gateway i)"

record pd_real_data =
  pd_slots :: "slot_info list"
  pd_interface :: "interface_info option"
  pd_ports :: "port_info list"
  pd_raw_blocks :: "(u32 \<times> u16 \<times> u16 \<times> bytes) list"

text \<open>
  \<open>align_from_block\<close>: padding relative to the block start, six bytes before the body. Both
  differences are of a larger and a smaller offset in every call.
\<close>

definition align_from_block :: "nat \<Rightarrow> nat \<Rightarrow> nat" where
  "align_from_block start body_offset =
     (let block_offset = 6 + (body_offset - start) in start + (align4 block_offset - 6))"

definition parse_pd_interface_data_real :: "bytes \<Rightarrow> nat \<Rightarrow> (string + interface_info) option" where
  "parse_pd_interface_data_real data offset =
     (if length data \<le> offset then Some (Inl ''Truncated chassis ID'')
      else do {
        chassis_len \<leftarrow> map_option unat (idx data offset);
        let offset1 = offset + 1;
        if length data < offset1 + chassis_len then Some (Inl ''Truncated chassis ID'')
        else do {
          chassis \<leftarrow> sub_slice data offset1 (offset1 + chassis_len);
          let offset2 = align_from_block offset (offset1 + chassis_len);
          if length data < offset2 + 6 then Some (Inl ''Truncated MAC address'')
          else do {
            mac \<leftarrow> copy_n 6 data offset2;
            let offset3 = align_from_block offset (offset2 + 6);
            if length data < offset3 + 12 then Some (Inl ''Truncated IP configuration'')
            else do {
              ip \<leftarrow> copy_n 4 data offset3; subnet \<leftarrow> copy_n 4 data (offset3 + 4); gateway \<leftarrow> copy_n 4 data (offset3 + 8);
              Some (Inr \<lparr>if_chassis_id = decode_latin1 chassis, if_mac_address = mac,
                         if_ip_address = ip, if_subnet_mask = subnet, if_gateway = gateway\<rparr>) } } } })"

text \<open>
  A length-prefixed string of the port record: the text and the offset behind it, or the empty
  text at the offset behind the length byte where the text is cut off.
\<close>

definition counted_text :: "bytes \<Rightarrow> nat \<Rightarrow> (string \<times> nat) option" where
  "counted_text data offset = do {
     n \<leftarrow> map_option unat (idx data offset);
     let offset1 = offset + 1;
     if length data < offset1 + n then Some ([], offset1)
     else do { s \<leftarrow> sub_slice data offset1 (offset1 + n); Some (decode_latin1 s, offset1 + n) } }"

fun port_peers :: "bytes \<Rightarrow> nat \<Rightarrow> nat \<Rightarrow> nat \<times> peer_info list \<Rightarrow> (nat \<times> peer_info list) option" where
  "port_peers data start 0 (offset, peers) = Some (offset, peers)"
| "port_peers data start (Suc n) (offset, peers) =
     (if length data < offset + 1 then Some (offset, peers)
      else do {
        (port_id, offset1) \<leftarrow> counted_text data offset;
        if length data < offset1 + 1 then Some (offset1, peers)
        else do {
          (chassis_id, offset2) \<leftarrow> counted_text data offset1;
          let offset3 = start + align4 (offset2 - start);
          (mac, offset4) \<leftarrow> (if offset3 + 6 \<le> length data
             then do { m \<leftarrow> copy_n 6 data offset3; Some (m, offset3 + 6) }
             else Some (replicate 6 0, offset3));
          port_peers data start n (start + align4 (offset4 - start),
            peers @ [\<lparr>pe_port_id = port_id, pe_chassis_id = chassis_id, pe_mac_address = mac\<rparr>]) } })"

definition parse_pd_port_data_real :: "bytes \<Rightarrow> nat \<Rightarrow> u16 \<Rightarrow> u16 \<Rightarrow> port_info option" where
  "parse_pd_port_data_real data start slot0 subslot0 = do {
     let offset = align4 start;
     (slot, subslot, offset) \<leftarrow> (if offset + 4 \<le> length data
        then do { s \<leftarrow> be16_at data offset; t \<leftarrow> be16_at data (offset + 2); Some (s, t, offset + 4) }
        else Some (slot0, subslot0, offset));
     if length data < offset + 1
     then Some \<lparr>po_slot = slot, po_subslot = subslot, po_port_id = [], po_mau_type = 0,
            po_link_state_port = 0, po_link_state_link = 0, po_media_type = 0, po_peers = [],
            po_domain_boundary = 0, po_multicast_boundary = 0\<rparr>
     else do {
       (port_id, offset) \<leftarrow> counted_text data offset;
       (num_peers, offset) \<leftarrow> (if offset < length data
          then do { n \<leftarrow> idx data offset; Some (unat n, offset + 1) } else Some (0, offset));
       let offset = start + align4 (offset - start);
       (offset, peers) \<leftarrow> port_peers data start num_peers (offset, []);
       (mau_type, offset) \<leftarrow> (if offset + 2 \<le> length data
          then do { m \<leftarrow> be16_at data offset; Some (m, offset + 2) } else Some (0, offset));
       let offset = start + align4 (offset - start);
       (domain, multicast, offset) \<leftarrow> (if offset + 8 \<le> length data
          then do { d \<leftarrow> be32_at data offset; m \<leftarrow> be32_at data (offset + 4); Some (d, m, offset + 8) }
          else Some (0, 0, offset));
       (lport, llink, offset) \<leftarrow> (if offset + 2 \<le> length data
          then do { p \<leftarrow> idx data offset; l \<leftarrow> idx data (offset + 1); Some (p, l, offset + 2) }
          else Some (0, 0, offset));
       let offset = start + align4 (offset - start);
       media \<leftarrow> (if offset + 4 \<le> length data then be32_at data offset else Some 0);
       Some \<lparr>po_slot = slot, po_subslot = subslot, po_port_id = port_id, po_mau_type = mau_type,
         po_link_state_port = lport, po_link_state_link = llink, po_media_type = media, po_peers = peers,
         po_domain_boundary = domain, po_multicast_boundary = multicast\<rparr> } }"

text \<open>The nested blocks of one MultipleBlockHeader: the slot entry and the result built so far.\<close>

function nested_walk ::
    "bytes \<Rightarrow> nat \<Rightarrow> u16 \<Rightarrow> u16 \<Rightarrow> nat \<Rightarrow> slot_info \<times> pd_real_data \<Rightarrow> (slot_info \<times> pd_real_data) option" where
  "nested_walk data block_end slot_nr subslot_nr nested_offset (si, res) =
     (if nested_offset + 6 \<le> block_end then do {
        r \<leftarrow> parse_block_header data nested_offset;
        (case r of
           Inl _ \<Rightarrow> Some (si, res)
         | Inr (h, nested_body) \<Rightarrow> do {
             let si' = si\<lparr>si_blocks := si_blocks si @ [type_name h]\<rparr>;
             res' \<leftarrow> (if bh_block_type h = BLOCK_PD_INTERFACE_DATA_REAL
                then do {
                  i \<leftarrow> parse_pd_interface_data_real data nested_body;
                  Some (case i of Inl _ \<Rightarrow> res | Inr iface \<Rightarrow> res\<lparr>pd_interface := Some iface\<rparr>) }
                else if bh_block_type h = BLOCK_PD_PORT_DATA_REAL
                then do {
                  p \<leftarrow> parse_pd_port_data_real data nested_body slot_nr subslot_nr;
                  Some (res\<lparr>pd_ports := pd_ports res @ [p]\<rparr>) }
                else Some res);
             nested_walk data block_end slot_nr subslot_nr (nested_offset + 6 + body_length h) (si', res') }) }
      else Some (si, res))"
  by pat_completeness auto
termination by (relation "measure (\<lambda>(_, block_end, _, _, off, _). block_end - off)") auto

declare nested_walk.simps [simp del]

function pd_real_walk :: "bytes \<Rightarrow> nat \<Rightarrow> pd_real_data \<Rightarrow> pd_real_data option" where
  "pd_real_walk data offset res =
     (if offset + 6 \<le> length data then do {
        r \<leftarrow> parse_block_header data offset;
        (case r of
           Inl _ \<Rightarrow> Some res
         | Inr (h, new_offset) \<Rightarrow> do {
             let block_end = offset + 6 + body_length h;
             res' \<leftarrow> (if bh_block_type h = BLOCK_MULTIPLE_HEADER
                then do {
                  m \<leftarrow> parse_multiple_block_header data new_offset;
                  (case m of
                     Inl _ \<Rightarrow> Some res
                   | Inr (api, slot_nr, subslot_nr, nested_offset) \<Rightarrow> do {
                       (si, res1) \<leftarrow> nested_walk data block_end slot_nr subslot_nr nested_offset
                         (\<lparr>si_slot = slot_nr, si_subslot = subslot_nr, si_api = api, si_module_ident = 0,
                           si_submodule_ident = 0, si_blocks = []\<rparr>, res);
                       raw \<leftarrow> sub_slice data new_offset (min block_end (length data));
                       Some (res1\<lparr>pd_slots := pd_slots res1 @ [si],
                                  pd_raw_blocks := pd_raw_blocks res1 @ [(api, slot_nr, subslot_nr, raw)]\<rparr>) }) }
                else Some res);
             pd_real_walk data block_end res' }) }
      else Some res)"
  by pat_completeness auto
termination by (relation "measure (\<lambda>(data, off, _). length data - off)") auto

declare pd_real_walk.simps [simp del]

definition parse_pd_real_data :: "bytes \<Rightarrow> pd_real_data option" where
  "parse_pd_real_data data =
     pd_real_walk data 0 \<lparr>pd_slots = [], pd_interface = None, pd_ports = [], pd_raw_blocks = []\<rparr>"

section \<open>RealIdentificationData\<close>

record real_identification_data =
  ri_slots :: "slot_info list"
  ri_version :: "u8 \<times> u8"

fun ri_subslots ::
    "bytes \<Rightarrow> u32 \<Rightarrow> u16 \<Rightarrow> u32 \<Rightarrow> nat \<Rightarrow> nat \<times> slot_info list \<Rightarrow> (nat \<times> slot_info list) option" where
  "ri_subslots data api slot_nr module_ident 0 (offset, slots) = Some (offset, slots)"
| "ri_subslots data api slot_nr module_ident (Suc n) (offset, slots) =
     (if length data < offset + 6 then Some (offset, slots)
      else do {
        subslot \<leftarrow> be16_at data offset; ident \<leftarrow> be32_at data (offset + 2);
        ri_subslots data api slot_nr module_ident n (offset + 6, slots @ [
          \<lparr>si_slot = slot_nr, si_subslot = subslot, si_api = api, si_module_ident = module_ident,
           si_submodule_ident = ident, si_blocks = []\<rparr>]) })"

text \<open>The slot loop, which both layouts of the record share.\<close>

fun ri_slot_loop ::
    "bytes \<Rightarrow> u32 \<Rightarrow> nat \<Rightarrow> nat \<times> slot_info list \<Rightarrow> (nat \<times> slot_info list) option" where
  "ri_slot_loop data api 0 (offset, slots) = Some (offset, slots)"
| "ri_slot_loop data api (Suc n) (offset, slots) =
     (if length data < offset + 8 then Some (offset, slots)
      else do {
        slot_nr \<leftarrow> be16_at data offset; module_ident \<leftarrow> be32_at data (offset + 2);
        num_subslots \<leftarrow> be16_at data (offset + 6);
        r \<leftarrow> ri_subslots data api slot_nr module_ident (unat num_subslots) (offset + 8, slots);
        ri_slot_loop data api n r })"

fun ri_api_loop :: "bytes \<Rightarrow> nat \<Rightarrow> nat \<times> slot_info list \<Rightarrow> (nat \<times> slot_info list) option" where
  "ri_api_loop data 0 (offset, slots) = Some (offset, slots)"
| "ri_api_loop data (Suc n) (offset, slots) =
     (if length data < offset + 6 then Some (offset, slots)
      else do {
        api \<leftarrow> be32_at data offset; num_slots \<leftarrow> be16_at data (offset + 4);
        r \<leftarrow> ri_slot_loop data api (unat num_slots) (offset + 6, slots);
        ri_api_loop data n r })"

definition parse_real_identification_data :: "bytes \<Rightarrow> real_identification_data option" where
  "parse_real_identification_data data = do {
     (version, offset) \<leftarrow> (if 6 \<le> length data
        then do {
          r \<leftarrow> parse_block_header data 0;
          Some (case r of
              Inl _ \<Rightarrow> ((1, 0), 0)
            | Inr (h, new_offset) \<Rightarrow> ((bh_version_high h, bh_version_low h), new_offset)) }
        else Some ((1, 0), 0));
     if length data < offset + 2 then Some \<lparr>ri_slots = [], ri_version = version\<rparr>
     else if 1 \<le> fst version \<and> 1 \<le> snd version
     then do {
       num_apis \<leftarrow> be16_at data offset;
       r \<leftarrow> ri_api_loop data (unat num_apis) (offset + 2, []);
       Some \<lparr>ri_slots = snd r, ri_version = version\<rparr> }
     else do {
       num_slots \<leftarrow> be16_at data offset;
       r \<leftarrow> ri_slot_loop data 0 (unat num_slots) (offset + 2, []);
       Some \<lparr>ri_slots = snd r, ri_version = version\<rparr> } }"

section \<open>I\&M0FilterData\<close>

type_synonym inm0_filter = "(u32 \<times> (u16 \<times> u32 \<times> (u16 \<times> u32) list) list) list"

text \<open>The loops yield the offset and the map built so far, or the source's error.\<close>

fun filter_subslots ::
    "bytes \<Rightarrow> nat \<Rightarrow> nat \<times> (u16 \<times> u32) list \<Rightarrow> (string + nat \<times> (u16 \<times> u32) list) option" where
  "filter_subslots data 0 (offset, m) = Some (Inr (offset, m))"
| "filter_subslots data (Suc n) (offset, m) =
     (if length data < offset + 6 then Some (Inl ''InM0FilterData: truncated subslot entry'')
      else do {
        subslot \<leftarrow> be16_at data offset; ident \<leftarrow> be32_at data (offset + 2);
        filter_subslots data n (offset + 6, bt_insert subslot ident m) })"

fun filter_modules ::
    "bytes \<Rightarrow> nat \<Rightarrow> nat \<times> (u16 \<times> u32 \<times> (u16 \<times> u32) list) list
       \<Rightarrow> (string + nat \<times> (u16 \<times> u32 \<times> (u16 \<times> u32) list) list) option" where
  "filter_modules data 0 (offset, m) = Some (Inr (offset, m))"
| "filter_modules data (Suc n) (offset, m) =
     (if length data < offset + 8 then Some (Inl ''InM0FilterData: truncated module header'')
      else do {
        slot \<leftarrow> be16_at data offset; module_ident \<leftarrow> be32_at data (offset + 2); k \<leftarrow> be16_at data (offset + 6);
        r \<leftarrow> filter_subslots data (unat k) (offset + 8, []);
        (case r of
           Inl e \<Rightarrow> Some (Inl e)
         | Inr (offset', subslots) \<Rightarrow>
             filter_modules data n (offset', bt_insert slot (module_ident, subslots) m)) })"

fun filter_apis :: "bytes \<Rightarrow> nat \<Rightarrow> nat \<times> inm0_filter \<Rightarrow> (string + nat \<times> inm0_filter) option" where
  "filter_apis data 0 (offset, m) = Some (Inr (offset, m))"
| "filter_apis data (Suc n) (offset, m) =
     (if length data < offset + 6 then Some (Inl ''InM0FilterData: truncated API header'')
      else do {
        api \<leftarrow> be32_at data offset; k \<leftarrow> be16_at data (offset + 4);
        r \<leftarrow> filter_modules data (unat k) (offset + 6, []);
        (case r of
           Inl e \<Rightarrow> Some (Inl e)
         | Inr (offset', mods) \<Rightarrow> filter_apis data n (offset', bt_insert api mods m)) })"

definition parse_inm0_filter :: "bytes \<Rightarrow> (string + inm0_filter) option" where
  "parse_inm0_filter data = do {
     h \<leftarrow> parse_block_header data 0;
     (case h of
        Inl e \<Rightarrow> Some (Inl e)
      | Inr _ \<Rightarrow> do {
          d \<leftarrow> slice_from data 6;
          if length d < 2 then Some (Inl ''InM0FilterData: truncated API count'')
          else do {
            num_api \<leftarrow> be16_at d 0;
            r \<leftarrow> filter_apis d (unat num_api) (2, []);
            Some (rbind r (\<lambda>(_, m). Inr m)) } }) }"

section \<open>Totality\<close>

lemma parse_block_header_eq:
  "parse_block_header data offset =
     Some (if length data < offset + 6
       then Inl (''Block header requires 6 bytes, got '' @ dec_nat (length data - offset))
       else Inr (\<lparr>bh_block_type = rd16 data offset, bh_block_length = rd16 data (offset + 2),
                  bh_version_high = data ! (offset + 4), bh_version_low = data ! (offset + 5)\<rparr>, offset + 6))"
  by (simp add: parse_block_header_def)

lemma copy_n_in [simp]: "offset + n \<le> length data \<Longrightarrow> copy_n n data offset = Some (take n (drop offset data))"
  by (simp add: copy_n_def)

lemma im_records_total:
  "parse_im0 d \<noteq> None" "parse_im1 d \<noteq> None" "parse_im2 d \<noteq> None" "parse_im3 d \<noteq> None"
  by (simp_all add: parse_im0_def parse_im1_def parse_im2_def parse_im3_def need_def
      parse_block_header_eq del: One_nat_def)

lemma interface_total: "parse_pd_interface_data_real d off \<noteq> None"
  by (simp add: parse_pd_interface_data_real_def Let_def idx_def)

lemma counted_text_runs: "off < length d \<Longrightarrow> runs (counted_text d off) (\<lambda>_. True)"
  by (simp add: counted_text_def Let_def)

lemma counted_textE:
  assumes "\<not> length d < off + 1"
  obtains s off' where "counted_text d off = Some (s, off')"
  using assms counted_text_runs [of off d] that by (cases "counted_text d off") auto

lemma port_peers_total: "port_peers d start n (off, ps) \<noteq> None"
proof (induction n arbitrary: off ps)
  case (Suc n)
  show ?case
  proof (cases "length d < off + 1")
    case False
    then obtain s o1 where 1: "counted_text d off = Some (s, o1)" by (rule counted_textE)
    show ?thesis
    proof (cases "length d < o1 + 1")
      case f: False
      then obtain t o2 where "counted_text d o1 = Some (t, o2)" by (rule counted_textE)
      then show ?thesis using False f 1 Suc by (simp add: Let_def)
    qed (use False 1 in simp)
  qed simp
qed simp

text \<open>Composition rules: a guarded read returns when its guard covers it.\<close>

lemma bind_total: "m \<noteq> None \<Longrightarrow> (\<And>x. m = Some x \<Longrightarrow> f x \<noteq> None) \<Longrightarrow> Option.bind m f \<noteq> None"
  by (cases m) auto

lemma if_total: "(c \<Longrightarrow> a \<noteq> None) \<Longrightarrow> (\<not> c \<Longrightarrow> b \<noteq> None) \<Longrightarrow> (if c then a else b) \<noteq> None"
  by simp

lemma split_total: "(\<And>a b. p = (a, b) \<Longrightarrow> f a b \<noteq> None) \<Longrightarrow> (case p of (a, b) \<Rightarrow> f a b) \<noteq> None"
  by (cases p) simp

lemma sum_total:
  "(\<And>e. r = Inl e \<Longrightarrow> f e \<noteq> None) \<Longrightarrow> (\<And>x. r = Inr x \<Longrightarrow> g x \<noteq> None) \<Longrightarrow> (case r of Inl e \<Rightarrow> f e | Inr x \<Rightarrow> g x) \<noteq> None"
  by (cases r) auto

lemma counted_text_total: "\<not> length d < off + 1 \<Longrightarrow> counted_text d off \<noteq> None"
  by (erule counted_textE) simp

lemmas total_rules = bind_total if_total split_total sum_total counted_text_total port_peers_total

lemma port_total: "parse_pd_port_data_real d start s t \<noteq> None"
  unfolding parse_pd_port_data_real_def Let_def
  by (intro total_rules) (auto simp: idx_def)

lemma nested_walk_total: "nested_walk d e s t off x \<noteq> None"
proof (induction "e - off" arbitrary: off x rule: less_induct)
  case less
  obtain si res where x: "x = (si, res)" by (cases x)
  show ?case
  proof (cases "off + 6 \<le> e \<and> \<not> length d < off + 6")
    case True
    have IH: "nested_walk d e s t (off + 6 + n) y \<noteq> None" for n y
      using True by (intro less.hyps) auto
    show ?thesis unfolding x
      by (subst nested_walk.simps, unfold Let_def)
         (intro total_rules interface_total port_total IH; simp add: parse_block_header_eq)
  next
    case False
    then show ?thesis unfolding x by (subst nested_walk.simps) (auto simp: parse_block_header_eq)
  qed
qed

lemma pd_real_walk_total: "pd_real_walk d off res \<noteq> None"
proof (induction "length d - off" arbitrary: off res rule: less_induct)
  case less
  show ?case
  proof (cases "off + 6 \<le> length d")
    case True
    have IH: "pd_real_walk d (off + 6 + n) y \<noteq> None" for n y
      using True by (intro less.hyps) auto
    show ?thesis
      by (subst pd_real_walk.simps, unfold Let_def)
         (intro total_rules nested_walk_total IH;
          auto simp: parse_block_header_eq parse_multiple_block_header_def split: if_splits)
  next
    case False
    then show ?thesis by (subst pd_real_walk.simps) simp
  qed
qed

lemma ri_subslots_total: "ri_subslots d api s m n (off, xs) \<noteq> None"
  by (induction n arbitrary: off xs) auto

lemma ri_slot_loop_total: "ri_slot_loop d api n (off, xs) \<noteq> None"
proof (induction n arbitrary: off xs)
  case (Suc n)
  show ?case
    using ri_subslots_total [of d api "rd16 d off" "rd32 d (off + 2)" "unat (rd16 d (off + 6))" "off + 8" xs]
      Suc.IH by (auto simp: numeral_eq_Suc)
qed simp

lemma ri_api_loop_total: "ri_api_loop d n (off, xs) \<noteq> None"
proof (induction n arbitrary: off xs)
  case (Suc n)
  show ?case
    using ri_slot_loop_total [of d "rd32 d off" "unat (rd16 d (off + 4))" "off + 6" xs] Suc.IH
    by (auto simp: numeral_eq_Suc)
qed simp

lemma real_id_total: "parse_real_identification_data d \<noteq> None"
  unfolding parse_real_identification_data_def
  by (intro bind_total if_total split_total ri_api_loop_total ri_slot_loop_total)
     (auto simp: parse_block_header_eq)

lemma filter_subslots_total: "filter_subslots d n (off, m) \<noteq> None"
  by (induction n arbitrary: off m) auto

lemma filter_modules_total: "filter_modules d n (off, m) \<noteq> None"
proof (induction n arbitrary: off m)
  case (Suc n)
  obtain r where "filter_subslots d (unat (rd16 d (off + 6))) (off + 8, []) = Some r"
    using filter_subslots_total by blast
  then show ?case using Suc.IH by (cases r) (auto simp: numeral_eq_Suc)
qed simp

lemma filter_apis_total: "filter_apis d n (off, m) \<noteq> None"
proof (induction n arbitrary: off m)
  case (Suc n)
  obtain r where "filter_modules d (unat (rd16 d (off + 4))) (off + 6, []) = Some r"
    using filter_modules_total by blast
  then show ?case using Suc.IH by (cases r) (auto simp: numeral_eq_Suc)
qed simp

lemma inm0_filter_total: "parse_inm0_filter d \<noteq> None"
proof (cases "length d < 8")
  case True
  then have "length (drop 6 d) < 2" by simp
  then show ?thesis by (simp add: parse_inm0_filter_def parse_block_header_eq del: length_drop)
next
  case False
  obtain r where "filter_apis (drop 6 d) (unat (rd16 (drop 6 d) 0)) (2, []) = Some r"
    using filter_apis_total by blast
  with False show ?thesis by (simp add: parse_inm0_filter_def parse_block_header_eq)
qed

section \<open>Topology records\<close>

text \<open>
  RealIdentificationData (version 1.1) and I\&M0FilterData have the same layout: APIs with slots
  with subslots, each level counted. The encoding of such a topology.
\<close>

type_synonym topo_slot = "u16 \<times> u32 \<times> (u16 \<times> u32) list"
type_synonym topo = "(u32 \<times> topo_slot list) list"

fun enc_tsub :: "u16 \<times> u32 \<Rightarrow> bytes" where
  "enc_tsub (s, i) = to_be16 s @ to_be32 i"

fun enc_tslot :: "topo_slot \<Rightarrow> bytes" where
  "enc_tslot (s, m, subs) = to_be16 s @ to_be32 m @ to_be16 (as_u16 (length subs)) @ concat (map enc_tsub subs)"

fun enc_tapi :: "u32 \<times> topo_slot list \<Rightarrow> bytes" where
  "enc_tapi (a, slots) = to_be32 a @ to_be16 (as_u16 (length slots)) @ concat (map enc_tslot slots)"

definition slots_ok :: "topo_slot list \<Rightarrow> bool" where
  "slots_ok slots \<longleftrightarrow> length slots < 65536 \<and> list_all (\<lambda>(_, _, subs). length subs < 65536) slots"

definition topo_ok :: "topo \<Rightarrow> bool" where
  "topo_ok t \<longleftrightarrow> length t < 65536 \<and> list_all (\<lambda>(_, slots). slots_ok slots) t"

definition flat_slot :: "u32 \<Rightarrow> topo_slot \<Rightarrow> slot_info list" where
  "flat_slot a = (\<lambda>(s, m, subs). map (\<lambda>(ss, i).
     \<lparr>si_slot = s, si_subslot = ss, si_api = a, si_module_ident = m, si_submodule_ident = i, si_blocks = []\<rparr>) subs)"

definition flat_topo :: "topo \<Rightarrow> slot_info list" where
  "flat_topo t = concat (map (\<lambda>(a, slots). concat (map (flat_slot a) slots)) t)"

lemma length_enc_tsubs [simp]: "length (concat (map enc_tsub subs)) = 6 * length subs"
  by (induction subs) auto

lemma ri_subslots_enc:
  "length pre = off \<Longrightarrow>
   ri_subslots (pre @ concat (map enc_tsub subs) @ post) a s m (length subs) (off, xs) =
     Some (off + 6 * length subs, xs @ flat_slot a (s, m, subs))"
proof (induction subs arbitrary: pre off xs)
  case (Cons u subs)
  obtain ss i where u: "u = (ss, i)" by (cases u)
  have "rd16 (pre @ concat (map enc_tsub (u # subs)) @ post) off = ss"
    "rd32 (pre @ concat (map enc_tsub (u # subs)) @ post) (off + 2) = i"
    using Cons.prems by (simp_all add: u wire_simps)
  then show ?case using Cons.prems Cons.IH [of "pre @ enc_tsub u" "off + 6"]
    by (simp add: u flat_slot_def)
qed (simp add: flat_slot_def)

lemma ri_slot_loop_enc:
  "length pre = off \<Longrightarrow> list_all (\<lambda>(_, _, subs). length subs < 65536) slots \<Longrightarrow>
   ri_slot_loop (pre @ concat (map enc_tslot slots) @ post) a (length slots) (off, xs) =
     Some (off + length (concat (map enc_tslot slots)), xs @ concat (map (flat_slot a) slots))"
proof (induction slots arbitrary: pre off xs)
  case (Cons u slots)
  obtain s m subs where u: "u = (s, m, subs)" by (cases u)
  define h where "h = to_be16 s @ to_be32 m @ to_be16 (as_u16 (length subs))"
  define data where "data = (pre @ h) @ concat (map enc_tsub subs) @ concat (map enc_tslot slots) @ post"
  have d: "pre @ concat (map enc_tslot (u # slots)) @ post = data" by (simp add: data_def h_def u)
  have "rd16 data off = s" "rd32 data (off + 2) = m" "rd16 data (off + 6) = as_u16 (length subs)"
    using Cons.prems(1) by (simp_all add: data_def h_def wire_simps)
  moreover have "ri_subslots data a s m (length subs) (off + 8, xs) =
      Some (off + 8 + 6 * length subs, xs @ flat_slot a u)"
    unfolding data_def u using Cons.prems(1) by (intro ri_subslots_enc) (simp add: h_def)
  moreover have "ri_slot_loop ((pre @ enc_tslot u) @ concat (map enc_tslot slots) @ post) a (length slots)
      (off + 8 + 6 * length subs, ys) =
      Some (off + 8 + 6 * length subs + length (concat (map enc_tslot slots)), ys @ concat (map (flat_slot a) slots))" for ys
    using Cons.prems by (intro Cons.IH) (auto simp: u)
  moreover have "(pre @ enc_tslot u) @ concat (map enc_tslot slots) @ post = data" using d by simp
  moreover have "\<not> length data < off + 8" "length subs < 65536"
    using Cons.prems by (auto simp: data_def h_def u)
  ultimately show ?case unfolding d by (simp add: u)
qed simp

lemma ri_api_loop_enc:
  "length pre = off \<Longrightarrow> list_all (\<lambda>(_, slots). slots_ok slots) t \<Longrightarrow>
   ri_api_loop (pre @ concat (map enc_tapi t) @ post) (length t) (off, xs) =
     Some (off + length (concat (map enc_tapi t)), xs @ flat_topo t)"
proof (induction t arbitrary: pre off xs)
  case (Cons u t)
  obtain a slots where u: "u = (a, slots)" by (cases u)
  define h where "h = to_be32 a @ to_be16 (as_u16 (length slots))"
  define data where "data = (pre @ h) @ concat (map enc_tslot slots) @ concat (map enc_tapi t) @ post"
  have d: "pre @ concat (map enc_tapi (u # t)) @ post = data" by (simp add: data_def h_def u)
  have "rd32 data off = a" "rd16 data (off + 4) = as_u16 (length slots)"
    using Cons.prems(1) by (simp_all add: data_def h_def wire_simps)
  moreover have "ri_slot_loop data a (length slots) (off + 6, xs) =
      Some (off + 6 + length (concat (map enc_tslot slots)), xs @ concat (map (flat_slot a) slots))"
    unfolding data_def using Cons.prems by (intro ri_slot_loop_enc) (auto simp: h_def u slots_ok_def)
  moreover have "ri_api_loop ((pre @ enc_tapi u) @ concat (map enc_tapi t) @ post) (length t)
      (off + 6 + length (concat (map enc_tslot slots)), ys) =
      Some (off + 6 + length (concat (map enc_tslot slots)) + length (concat (map enc_tapi t)), ys @ flat_topo t)" for ys
    using Cons.prems by (intro Cons.IH) (auto simp: u)
  moreover have "(pre @ enc_tapi u) @ concat (map enc_tapi t) @ post = data" using d by simp
  moreover have "\<not> length data < off + 6" "length slots < 65536"
    using Cons.prems by (auto simp: data_def h_def u slots_ok_def)
  ultimately show ?case unfolding d by (simp add: u flat_topo_def)
qed (simp add: flat_topo_def)

text \<open>The record: a block header with a version, the count, the entries, and trailing bytes.\<close>

definition topo_record :: "u16 \<Rightarrow> u16 \<Rightarrow> u8 \<Rightarrow> u8 \<Rightarrow> topo \<Rightarrow> bytes" where
  "topo_record bt len vh vl t =
     (to_be16 bt @ to_be16 len @ [vh, vl]) @ to_be16 (as_u16 (length t)) @ concat (map enc_tapi t)"

definition slots_record :: "u16 \<Rightarrow> u16 \<Rightarrow> u8 \<Rightarrow> u8 \<Rightarrow> topo_slot list \<Rightarrow> bytes" where
  "slots_record bt len vh vl slots =
     (to_be16 bt @ to_be16 len @ [vh, vl]) @ to_be16 (as_u16 (length slots)) @ concat (map enc_tslot slots)"

lemma real_id_v11:
  assumes "topo_ok t" and "1 \<le> vh" and "1 \<le> vl"
  shows "parse_real_identification_data (topo_record bt len vh vl t @ trail) =
    Some \<lparr>ri_slots = flat_topo t, ri_version = (vh, vl)\<rparr>"
proof -
  define data where "data = topo_record bt len vh vl t @ trail"
  have l: "8 \<le> length data" by (simp add: data_def topo_record_def)
  have v: "data ! 4 = vh" "data ! 5 = vl" "rd16 data 6 = as_u16 (length t)"
    by (simp_all add: data_def topo_record_def wire_simps to_be16_def rd16_def)
  have "ri_api_loop data (length t) (8, []) = Some (8 + length (concat (map enc_tapi t)), flat_topo t)"
    unfolding data_def topo_record_def
    using ri_api_loop_enc [of "(to_be16 bt @ to_be16 len @ [vh, vl]) @ to_be16 (as_u16 (length t))" 8 t trail "[]"] assms
    by (simp add: topo_ok_def)
  then show ?thesis unfolding data_def [symmetric] using l v assms
    by (simp add: parse_real_identification_data_def parse_block_header_eq topo_ok_def)
qed

lemma real_id_v10:
  assumes "slots_ok slots" and "vh < 1 \<or> vl < 1"
  shows "parse_real_identification_data (slots_record bt len vh vl slots @ trail) =
    Some \<lparr>ri_slots = concat (map (flat_slot 0) slots), ri_version = (vh, vl)\<rparr>"
proof -
  define data where "data = slots_record bt len vh vl slots @ trail"
  have l: "8 \<le> length data" by (simp add: data_def slots_record_def)
  have v: "data ! 4 = vh" "data ! 5 = vl" "rd16 data 6 = as_u16 (length slots)"
    by (simp_all add: data_def slots_record_def wire_simps to_be16_def rd16_def)
  have "ri_slot_loop data 0 (length slots) (8, []) =
      Some (8 + length (concat (map enc_tslot slots)), concat (map (flat_slot 0) slots))"
    unfolding data_def slots_record_def
    using ri_slot_loop_enc [of "(to_be16 bt @ to_be16 len @ [vh, vl]) @ to_be16 (as_u16 (length slots))" 8 slots trail 0 "[]"] assms
    by (simp add: slots_ok_def)
  moreover have "\<not> (1 \<le> vh \<and> 1 \<le> vl)" using assms(2) by auto
  ultimately show ?thesis unfolding data_def [symmetric] using l v assms
    by (auto simp: parse_real_identification_data_def parse_block_header_eq slots_ok_def)
qed

text \<open>The filter record as nested ordered maps: a repeated key replaces the earlier entry.\<close>

definition bt_add :: "('k :: linorder \<times> 'v) list \<Rightarrow> ('k \<times> 'v) list \<Rightarrow> ('k \<times> 'v) list" where
  "bt_add xs m = fold (\<lambda>(k, v). bt_insert k v) xs m"

lemma bt_add_simps [simp]: "bt_add [] m = m" "bt_add ((k, v) # xs) m = bt_add xs (bt_insert k v m)"
  by (simp_all add: bt_add_def)

lemma bt_add_spec:
  "sorted_wrt (<) (map fst m) \<Longrightarrow>
   sorted_wrt (<) (map fst (bt_add xs m)) \<and> map_of (bt_add xs m) = map_of m ++ map_of (rev xs)"
  by (induction xs arbitrary: m) (auto simp: sorted_bt_insert map_of_bt_insert map_add_def split: option.splits)

definition slot_entry :: "topo_slot \<Rightarrow> u16 \<times> u32 \<times> (u16 \<times> u32) list" where
  "slot_entry = (\<lambda>(s, m, subs). (s, m, bt_add subs []))"

definition api_entry :: "u32 \<times> topo_slot list \<Rightarrow> u32 \<times> (u16 \<times> u32 \<times> (u16 \<times> u32) list) list" where
  "api_entry = (\<lambda>(a, slots). (a, bt_add (map slot_entry slots) []))"

lemma filter_subslots_enc:
  "length pre = off \<Longrightarrow>
   filter_subslots (pre @ concat (map enc_tsub subs) @ post) (length subs) (off, m) =
     Some (Inr (off + 6 * length subs, bt_add subs m))"
proof (induction subs arbitrary: pre off m)
  case (Cons u subs)
  obtain ss i where u: "u = (ss, i)" by (cases u)
  have "rd16 (pre @ concat (map enc_tsub (u # subs)) @ post) off = ss"
    "rd32 (pre @ concat (map enc_tsub (u # subs)) @ post) (off + 2) = i"
    using Cons.prems by (simp_all add: u wire_simps)
  then show ?case using Cons.prems Cons.IH [of "pre @ enc_tsub u" "off + 6"] by (simp add: u)
qed simp

lemma filter_modules_enc:
  "length pre = off \<Longrightarrow> list_all (\<lambda>(_, _, subs). length subs < 65536) slots \<Longrightarrow>
   filter_modules (pre @ concat (map enc_tslot slots) @ post) (length slots) (off, mp) =
     Some (Inr (off + length (concat (map enc_tslot slots)), bt_add (map slot_entry slots) mp))"
proof (induction slots arbitrary: pre off mp)
  case (Cons u slots)
  obtain s m subs where u: "u = (s, m, subs)" by (cases u)
  define h where "h = to_be16 s @ to_be32 m @ to_be16 (as_u16 (length subs))"
  define data where "data = (pre @ h) @ concat (map enc_tsub subs) @ concat (map enc_tslot slots) @ post"
  have d: "pre @ concat (map enc_tslot (u # slots)) @ post = data" by (simp add: data_def h_def u)
  have "rd16 data off = s" "rd32 data (off + 2) = m" "rd16 data (off + 6) = as_u16 (length subs)"
    using Cons.prems(1) by (simp_all add: data_def h_def wire_simps)
  moreover have "filter_subslots data (length subs) (off + 8, []) = Some (Inr (off + 8 + 6 * length subs, bt_add subs []))"
    unfolding data_def using Cons.prems(1) by (intro filter_subslots_enc) (simp add: h_def)
  moreover have "filter_modules ((pre @ enc_tslot u) @ concat (map enc_tslot slots) @ post) (length slots)
      (off + 8 + 6 * length subs, ys) =
      Some (Inr (off + 8 + 6 * length subs + length (concat (map enc_tslot slots)), bt_add (map slot_entry slots) ys))" for ys
    using Cons.prems by (intro Cons.IH) (auto simp: u)
  moreover have "(pre @ enc_tslot u) @ concat (map enc_tslot slots) @ post = data" using d by simp
  moreover have "\<not> length data < off + 8" "length subs < 65536"
    using Cons.prems by (auto simp: data_def h_def u)
  ultimately show ?case unfolding d by (simp add: u slot_entry_def)
qed simp

lemma filter_apis_enc:
  "length pre = off \<Longrightarrow> list_all (\<lambda>(_, slots). slots_ok slots) t \<Longrightarrow>
   filter_apis (pre @ concat (map enc_tapi t) @ post) (length t) (off, mp) =
     Some (Inr (off + length (concat (map enc_tapi t)), bt_add (map api_entry t) mp))"
proof (induction t arbitrary: pre off mp)
  case (Cons u t)
  obtain a slots where u: "u = (a, slots)" by (cases u)
  define h where "h = to_be32 a @ to_be16 (as_u16 (length slots))"
  define data where "data = (pre @ h) @ concat (map enc_tslot slots) @ concat (map enc_tapi t) @ post"
  have d: "pre @ concat (map enc_tapi (u # t)) @ post = data" by (simp add: data_def h_def u)
  have "rd32 data off = a" "rd16 data (off + 4) = as_u16 (length slots)"
    using Cons.prems(1) by (simp_all add: data_def h_def wire_simps)
  moreover have "filter_modules data (length slots) (off + 6, []) =
      Some (Inr (off + 6 + length (concat (map enc_tslot slots)), bt_add (map slot_entry slots) []))"
    unfolding data_def using Cons.prems by (intro filter_modules_enc) (auto simp: h_def u slots_ok_def)
  moreover have "filter_apis ((pre @ enc_tapi u) @ concat (map enc_tapi t) @ post) (length t)
      (off + 6 + length (concat (map enc_tslot slots)), ys) =
      Some (Inr (off + 6 + length (concat (map enc_tslot slots)) + length (concat (map enc_tapi t)), bt_add (map api_entry t) ys))" for ys
    using Cons.prems by (intro Cons.IH) (auto simp: u)
  moreover have "(pre @ enc_tapi u) @ concat (map enc_tapi t) @ post = data" using d by simp
  moreover have "\<not> length data < off + 6" "length slots < 65536"
    using Cons.prems by (auto simp: data_def h_def u slots_ok_def)
  ultimately show ?case unfolding d by (simp add: u api_entry_def)
qed simp

lemma inm0_filter_enc:
  assumes "topo_ok t"
  shows "parse_inm0_filter (topo_record bt len vh vl t @ trail) = Some (Inr (bt_add (map api_entry t) []))"
proof -
  define d where "d = to_be16 (as_u16 (length t)) @ concat (map enc_tapi t) @ trail"
  have d: "drop 6 (topo_record bt len vh vl t @ trail) = d" "length (topo_record bt len vh vl t @ trail) = 6 + length d"
    by (simp_all add: topo_record_def d_def)
  have "2 \<le> length d" "rd16 d 0 = as_u16 (length t)" by (simp_all add: d_def)
  moreover have "filter_apis d (length t) (2, []) = Some (Inr (2 + length (concat (map enc_tapi t)), bt_add (map api_entry t) []))"
    unfolding d_def using filter_apis_enc [of "to_be16 (as_u16 (length t))" 2 t trail "[]"] assms by (simp add: topo_ok_def)
  ultimately show ?thesis using assms d
    by (auto simp: parse_inm0_filter_def parse_block_header_eq topo_ok_def slice_from_def be16_at_def rd16_def idx_def
        simp del: drop_append length_append)
qed

text \<open>A successful walk stays inside its data and does not depend on what follows it.\<close>

lemma filter_subslots_mono:
  "filter_subslots d n (off, m) = Some (Inr (off', m')) \<Longrightarrow> off \<le> length d \<Longrightarrow>
   filter_subslots (d @ e) n (off, m) = Some (Inr (off', m')) \<and> off' \<le> length d"
proof (induction n arbitrary: off m)
  case (Suc n)
  then show ?case by (auto simp: rd16_def rd32_def nth_append split: if_splits)
qed simp

lemma filter_modules_mono:
  "filter_modules d n (off, m) = Some (Inr (off', m')) \<Longrightarrow> off \<le> length d \<Longrightarrow>
   filter_modules (d @ e) n (off, m) = Some (Inr (off', m')) \<and> off' \<le> length d"
proof (induction n arbitrary: off m)
  case (Suc n)
  then have room: "\<not> length d < off + 8" by (auto split: if_splits)
  then have eq: "rd16 (d @ e) off = rd16 d off" "rd32 (d @ e) (off + 2) = rd32 d (off + 2)"
    "rd16 (d @ e) (off + 6) = rd16 d (off + 6)" by (simp_all add: rd16_def rd32_def nth_append)
  obtain r where r: "filter_subslots d (unat (rd16 d (off + 6))) (off + 8, []) = Some r"
    using filter_subslots_total by blast
  then obtain o1 m1 where o: "r = Inr (o1, m1)" using Suc.prems room by (cases r) auto
  show ?case using Suc.prems Suc.IH [of o1] filter_subslots_mono [OF r [unfolded o], of e] room eq r o by auto
qed simp

lemma filter_apis_mono:
  "filter_apis d n (off, m) = Some (Inr (off', m')) \<Longrightarrow> off \<le> length d \<Longrightarrow>
   filter_apis (d @ e) n (off, m) = Some (Inr (off', m')) \<and> off' \<le> length d"
proof (induction n arbitrary: off m)
  case (Suc n)
  then have room: "\<not> length d < off + 6" by (auto split: if_splits)
  then have eq: "rd32 (d @ e) off = rd32 d off" "rd16 (d @ e) (off + 4) = rd16 d (off + 4)"
    by (simp_all add: rd16_def rd32_def nth_append)
  obtain r where r: "filter_modules d (unat (rd16 d (off + 4))) (off + 6, []) = Some r"
    using filter_modules_total by blast
  then obtain o1 m1 where o: "r = Inr (o1, m1)" using Suc.prems room by (cases r) auto
  show ?case using Suc.prems Suc.IH [of o1] filter_modules_mono [OF r [unfolded o], of e] room eq r o by auto
qed simp

lemma inm0_filter_truncated:
  assumes "topo_ok t" and "n < length (topo_record bt len vh vl t)"
  shows "\<exists>e. parse_inm0_filter (take n (topo_record bt len vh vl t)) = Some (Inl e)"
proof (rule ccontr)
  let ?full = "topo_record bt len vh vl t"
  define d where "d = drop 6 (take n ?full)"
  have full: "drop 6 ?full = to_be16 (as_u16 (length t)) @ concat (map enc_tapi t)"
    "length ?full = 8 + length (concat (map enc_tapi t))"
    by (simp_all add: topo_record_def)
  assume "\<nexists>e. parse_inm0_filter (take n ?full) = Some (Inl e)"
  then obtain x where x: "parse_inm0_filter (take n ?full) = Some (Inr x)"
    using inm0_filter_total [of "take n ?full"] by (metis not_Some_eq old.sum.exhaust)
  then have n: "8 \<le> n" using assms(2)
    by (auto simp: parse_inm0_filter_def parse_block_header_eq split: if_splits)
  define body where "body = drop 6 ?full"
  have d: "d = take (n - 6) body" by (simp add: d_def body_def drop_take)
  then have split: "body = d @ drop (n - 6) body" by (metis append_take_drop_id)
  have ld: "length d = n - 6" and lb: "length body = 2 + length (concat (map enc_tapi t))"
    using assms(2) n by (simp_all add: d_def body_def full(2))
  have "rd16 d 0 = rd16 body 0" using n assms(2) lb full(2) by (simp add: d rd16_take)
  then have cnt: "unat (rd16 d 0) = length t" using assms(1) by (simp add: body_def full(1) topo_ok_def)
  obtain y where y: "filter_apis d (length t) (2, []) = Some y" using filter_apis_total by blast
  have "\<not> length d < 2" "be16_at d 0 = Some (rd16 d 0)" using n ld by simp_all
  moreover have "\<not> length (take n ?full) < 6" using n assms(2) by simp
  ultimately have "rbind y (\<lambda>(_, m). Inr m) = Inr x"
    using x cnt y
    by (simp add: parse_inm0_filter_def parse_block_header_eq d_def [symmetric] slice_from_def
        del: drop_take length_drop length_take)
  then obtain off' where "filter_apis d (length t) (2, []) = Some (Inr (off', x))"
    using y by (auto simp: rbind_Inr)
  from filter_apis_mono [OF this, of "drop (n - 6) body"] n ld split
  have "filter_apis body (length t) (2, []) = Some (Inr (off', x))" "off' \<le> n - 6" by auto
  moreover have "filter_apis body (length t) (2, []) =
      Some (Inr (2 + length (concat (map enc_tapi t)), bt_add (map api_entry t) []))"
    using filter_apis_enc [of "to_be16 (as_u16 (length t))" 2 t "[]" "[]"] assms(1)
    by (simp add: body_def full(1) topo_ok_def)
  ultimately show False using assms(2) full(2) by auto
qed

text \<open>
  The identification parsers return for every input. No record makes the I\&M0 to I\&M3, the
  PDRealData, the RealIdentificationData or the I\&M0FilterData parser panic, whatever lengths,
  counts and paddings it claims; the walks over the nested blocks end.
\<close>

theorem identification_parsers_total:
  "parse_im0 d \<noteq> None \<and> parse_im1 d \<noteq> None \<and> parse_im2 d \<noteq> None \<and> parse_im3 d \<noteq> None
   \<and> parse_pd_real_data d \<noteq> None \<and> parse_real_identification_data d \<noteq> None \<and> parse_inm0_filter d \<noteq> None"
  using im_records_total pd_real_walk_total real_id_total inm0_filter_total
  unfolding parse_pd_real_data_def by blast

text \<open>
  C28: A device's topology survives both records that carry it. From a RealIdentificationData
  record of version 1.1 the parser returns exactly the submodules the device listed, in order
  and with their API, slot and module, from one of version 1.0 the same with API 0, trailing
  bytes ignored; from an I\&M0FilterData record it returns the key-ordered map from API to slot to
  submodules in which the last entry of a repeated key counts; and every I\&M0FilterData
  record cut short, at whatever byte, is an error: no shorter topology is returned for it.
\<close>

theorem topology_records_exact:
  assumes "topo_ok t" and "slots_ok slots" and "1 \<le> vh" and "1 \<le> vl" and "n < length (topo_record bt len vh vl t)"
  shows "parse_real_identification_data (topo_record bt len vh vl t @ trail) =
      Some \<lparr>ri_slots = flat_topo t, ri_version = (vh, vl)\<rparr>
    \<and> parse_real_identification_data (slots_record bt len vh 0 slots @ trail) =
      Some \<lparr>ri_slots = concat (map (flat_slot 0) slots), ri_version = (vh, 0)\<rparr>
    \<and> (\<exists>m. parse_inm0_filter (topo_record bt len vh vl t @ trail) = Some (Inr m)
        \<and> sorted_wrt (<) (map fst m) \<and> map_of m = map_of (rev (map api_entry t)))
    \<and> (\<exists>e. parse_inm0_filter (take n (topo_record bt len vh vl t)) = Some (Inl e))"
  using real_id_v11 [OF assms(1,3,4)] real_id_v10 [OF assms(2), of vh 0] inm0_filter_enc [OF assms(1)]
    bt_add_spec [of "[]" "map api_entry t"] inm0_filter_truncated [OF assms(1,5)]
  by simp

theorem topology_records_exact_witness:
  "parse_real_identification_data (topo_record 0xF000 30 1 1 [(0, [(1, 0x22, [(1, 0x33), (2, 0x34)])])]) =
     Some \<lparr>ri_slots = flat_topo [(0, [(1, 0x22, [(1, 0x33), (2, 0x34)])])], ri_version = (1, 1)\<rparr>
   \<and> (\<exists>e. parse_inm0_filter (take 20 (topo_record 0xF000 30 1 1 [(0, [(1, 0x22, [(1, 0x33), (2, 0x34)])])])) = Some (Inl e))"
  using topology_records_exact [of "[(0, [(1, 0x22, [(1, 0x33), (2, 0x34)])])]" "[]" 1 1 20 "0xF000" 30 "[]"]
  by (simp add: topo_ok_def slots_ok_def topo_record_def)

end
