(* ===== verification/Diagnosis.thy ===== *)
theory Diagnosis
  imports Prelude
begin

text \<open>
  Model of \<open>src/diagnosis.rs\<close>: channel properties, the decoded error names, and the two parsers
  of diagnosis records. The parsers never fail; a slice access out of range would be a panic.
\<close>

section \<open>Channel properties\<close>

definition USI_EXT_CHANNEL_DIAGNOSIS :: u16 where "USI_EXT_CHANNEL_DIAGNOSIS = 0x8002"
definition USI_QUALIFIED_CHANNEL_DIAGNOSIS :: u16 where "USI_QUALIFIED_CHANNEL_DIAGNOSIS = 0x8003"

datatype channel_type = TypeReserved | Specific | AllChannels | Submodule
datatype channel_direction = Manufacturer | Input | Output | Bidirectional
datatype channel_accumulative = AccNo | MainFault | AdditionalFault
datatype channel_specifier = AllDisappears | Appears | Disappears | DisappearsOther

record channel_properties =
  cp_raw :: u16
  cp_channel_type :: channel_type
  cp_accumulative :: channel_accumulative
  cp_maintenance_required :: bool
  cp_maintenance_demanded :: bool
  cp_specifier :: channel_specifier
  cp_direction :: channel_direction

definition from_u16 :: "u16 \<Rightarrow> channel_properties" where
  "from_u16 v =
     (let t = v AND 0x03; a = drop_bit 2 v AND 0x07; s = drop_bit 8 v AND 0x07; d = drop_bit 11 v AND 0x03 in
      \<lparr>cp_raw = v,
       cp_channel_type = (if t = 1 then Specific else if t = 2 then AllChannels else if t = 3 then Submodule else TypeReserved),
       cp_accumulative = (if a = 1 then MainFault else if a = 2 then AdditionalFault else AccNo),
       cp_maintenance_required = (drop_bit 5 v AND 0x01 \<noteq> 0),
       cp_maintenance_demanded = (drop_bit 6 v AND 0x01 \<noteq> 0),
       cp_specifier = (if s = 1 then Appears else if s = 2 then Disappears else if s = 3 then DisappearsOther
                       else AllDisappears),
       cp_direction = (if d = 1 then Input else if d = 2 then Output else if d = 3 then Bidirectional
                       else Manufacturer)\<rparr>)"

section \<open>Error names\<close>

definition CHANNEL_ERROR_TYPES :: "(u16 \<times> string) list" where
  "CHANNEL_ERROR_TYPES = [
     (0x0000, ''Reserved''),
     (0x0001, ''Short circuit''),
     (0x0002, ''Undervoltage''),
     (0x0003, ''Overvoltage''),
     (0x0004, ''Overload''),
     (0x0005, ''Overtemperature''),
     (0x0006, ''Line break''),
     (0x0007, ''Upper limit value exceeded''),
     (0x0008, ''Lower limit value exceeded''),
     (0x0009, ''Error''),
     (0x000A, ''Simulation active''),
     (0x000B, ''Reserved (0x000B)''),
     (0x000C, ''Reserved (0x000C)''),
     (0x000D, ''Reserved (0x000D)''),
     (0x000E, ''Reserved (0x000E)''),
     (0x000F, ''Parameter missing''),
     (0x0010, ''Parameterization fault''),
     (0x0011, ''Power supply fault''),
     (0x0012, ''Fuse blown / open''),
     (0x0013, ''Communication fault''),
     (0x0014, ''Ground fault''),
     (0x0015, ''Reference point lost''),
     (0x0016, ''Process event lost''),
     (0x0017, ''Threshold warning''),
     (0x0018, ''Output disabled''),
     (0x0019, ''Functional safety event''),
     (0x001A, ''External fault''),
     (0x001B, ''Sensor has incorrect configuration''),
     (0x001C, ''Reserved (0x001C)''),
     (0x001D, ''Reserved (0x001D)''),
     (0x001E, ''Reserved (0x001E)''),
     (0x001F, ''Temporary fault''),
     (0x8000, ''Data transmission impossible''),
     (0x8001, ''Remote mismatch''),
     (0x8002, ''Media redundancy mismatch''),
     (0x8003, ''Sync mismatch''),
     (0x8004, ''Isochronous mode mismatch''),
     (0x8005, ''Multicast CR mismatch''),
     (0x8006, ''Reserved (0x8006)''),
     (0x8007, ''Fiber optic mismatch''),
     (0x8008, ''Network component function mismatch''),
     (0x8009, ''Time mismatch''),
     (0x800A, ''Dynamic frame packing function mismatch''),
     (0x800B, ''Media redundancy with planned duplication mismatch''),
     (0x800C, ''System redundancy mismatch''),
     (0x800D, ''Multiple interface mismatch''),
     (0x9500, ''IO-Link device event''),
     (0x9501, ''IO-Link device event (MSB cleared)''),
     (0x9502, ''IO-Link port event'')]"

definition ext_channel_error_lookup :: "u16 \<Rightarrow> u16 \<Rightarrow> string option" where
  "ext_channel_error_lookup channel_error_type ext_error_type =
     map_of (
       if channel_error_type = 0x8000 then
         [(0x0000, ''Reserved''),
          (0x8000, ''Link state mismatch - Loss of link''),
          (0x8001, ''MAUType mismatch''),
          (0x8002, ''Line delay mismatch'')]
       else if channel_error_type = 0x8001 then
         [(0x0000, ''Reserved''),
          (0x8000, ''Peer name of station mismatch''),
          (0x8001, ''Peer name of port mismatch''),
          (0x8002, ''Peer RT_CLASS_3 mismatch''),
          (0x8003, ''Peer MAUType mismatch''),
          (0x8004, ''Peer MRP domain mismatch''),
          (0x8005, ''No peer detected''),
          (0x8006, ''Peer line delay mismatch''),
          (0x8007, ''Peer PTCP mismatch''),
          (0x8008, ''Peer Preamble length mismatch''),
          (0x8009, ''Peer Fragmentation mismatch'')]
       else if channel_error_type = 0x8002 then
         [(0x0000, ''Reserved''),
          (0x8000, ''Manager role fail''),
          (0x8001, ''MRP-Loss of redundancy''),
          (0x8002, ''Reserved (0x8002)''),
          (0x8003, ''MRP ring open''),
          (0x8004, ''MRP multiple manager'')]
       else if channel_error_type = 0x8003 then
         [(0x0000, ''Reserved''),
          (0x8000, ''No sync message received''),
          (0x8001, ''Jitter out of boundary''),
          (0x8002, ''Sync message send failure''),
          (0x8003, ''PTCP timeout'')]
       else if channel_error_type = 0x8007 then
         [(0x0000, ''Reserved''),
          (0x8000, ''Power budget exceeded'')]
       else if channel_error_type = 0x8008 then
         [(0x0000, ''Reserved''),
          (0x8000, ''Frame dropped - no resource''),
          (0x8001, ''Frame dropped - wrong destination address''),
          (0x8002, ''Frame dropped - no gateway'')]
       else if channel_error_type = 0x8009 then
         [(0x0000, ''Reserved''),
          (0x8000, ''No master detected''),
          (0x8001, ''Drift exceeded''),
          (0x8002, ''Time sync failure'')]
       else if channel_error_type = 0x800B then
         [(0x0000, ''Reserved''),
          (0x8000, ''MRPD loss of redundancy'')]
       else [(0x0000, ''Reserved''),
          (0x8000, ''Accumulative info'')])
       ext_error_type"

definition decode_channel_error_type :: "u16 \<Rightarrow> string" where
  "decode_channel_error_type error_type =
     (case map_of CHANNEL_ERROR_TYPES error_type of
        Some name \<Rightarrow> name
      | None \<Rightarrow>
          (let h = hex_upper 4 (unat error_type) in
           if 0x0020 \<le> error_type \<and> error_type \<le> 0x00FF then ''Reserved (0x'' @ h @ '')''
           else if 0x0100 \<le> error_type \<and> error_type \<le> 0x7FFF then ''Manufacturer-specific (0x'' @ h @ '')''
           else if 0x800E \<le> error_type \<and> error_type \<le> 0x8FFF then ''Reserved (0x'' @ h @ '')''
           else if 0x9000 \<le> error_type \<and> error_type \<le> 0x9FFF then ''Profile-specific (0x'' @ h @ '')''
           else if 0xA000 \<le> error_type then ''Reserved (0x'' @ h @ '')''
           else ''Unknown (0x'' @ h @ '')''))"

definition decode_ext_channel_error_type :: "u16 \<Rightarrow> u16 \<Rightarrow> string" where
  "decode_ext_channel_error_type channel_error_type ext_error_type =
     (case ext_channel_error_lookup channel_error_type ext_error_type of
        Some name \<Rightarrow> name
      | None \<Rightarrow>
          (let h = hex_upper 4 (unat ext_error_type) in
           if ext_error_type = 0x8000 then ''Accumulative info''
           else if 0x0001 \<le> ext_error_type \<and> ext_error_type \<le> 0x7FFF then ''Manufacturer-specific (0x'' @ h @ '')''
           else if 0x8001 \<le> ext_error_type \<and> ext_error_type \<le> 0x8FFF then ''Reserved (0x'' @ h @ '')''
           else if 0x9000 \<le> ext_error_type \<and> ext_error_type \<le> 0x9FFF then ''Profile-specific (0x'' @ h @ '')''
           else ''Unknown (0x'' @ h @ '')''))"

section \<open>Entries\<close>

datatype diagnosis_kind = Channel | Ext | Qualified

record channel_diagnosis =
  cd_kind :: diagnosis_kind
  cd_api :: u32
  cd_slot :: u16
  cd_subslot :: u16
  cd_channel_number :: u16
  cd_channel_properties :: channel_properties
  cd_error_type :: u16
  cd_error_type_name :: string
  cd_ext_error_type :: u16
  cd_ext_error_type_name :: string
  cd_ext_add_value :: u32
  cd_qualifier :: u32

definition is_submodule_level :: "channel_diagnosis \<Rightarrow> bool" where
  "is_submodule_level e \<longleftrightarrow> cd_channel_number e = 0x8000"

record diagnosis_data =
  dd_api :: u32
  dd_slot :: u16
  dd_subslot :: u16
  dd_entries :: "channel_diagnosis list"
  dd_raw_data :: bytes

definition has_errors :: "diagnosis_data \<Rightarrow> bool" where
  "has_errors d \<longleftrightarrow> dd_entries d \<noteq> []"

definition has_maintenance_required :: "diagnosis_data \<Rightarrow> bool" where
  "has_maintenance_required d \<longleftrightarrow> list_ex (\<lambda>e. cp_maintenance_required (cd_channel_properties e)) (dd_entries d)"

definition has_maintenance_demanded :: "diagnosis_data \<Rightarrow> bool" where
  "has_maintenance_demanded d \<longleftrightarrow> list_ex (\<lambda>e. cp_maintenance_demanded (cd_channel_properties e)) (dd_entries d)"

definition get_by_channel :: "diagnosis_data \<Rightarrow> u16 \<Rightarrow> channel_diagnosis list" where
  "get_by_channel d channel = filter (\<lambda>e. cd_channel_number e = channel) (dd_entries d)"

text \<open>An entry of kind \<open>Channel\<close>: the remaining fields have their default values.\<close>

definition channel_entry :: "u32 \<Rightarrow> u16 \<Rightarrow> u16 \<Rightarrow> u16 \<Rightarrow> u16 \<Rightarrow> u16 \<Rightarrow> channel_diagnosis" where
  "channel_entry api slot subslot channel_number props error_type =
     \<lparr>cd_kind = Channel, cd_api = api, cd_slot = slot, cd_subslot = subslot,
      cd_channel_number = channel_number, cd_channel_properties = from_u16 props,
      cd_error_type = error_type, cd_error_type_name = decode_channel_error_type error_type,
      cd_ext_error_type = 0, cd_ext_error_type_name = [], cd_ext_add_value = 0, cd_qualifier = 0\<rparr>"

definition ext_entry ::
    "diagnosis_kind \<Rightarrow> u32 \<Rightarrow> u16 \<Rightarrow> u16 \<Rightarrow> u16 \<Rightarrow> u16 \<Rightarrow> u16 \<Rightarrow> u16 \<Rightarrow> u32 \<Rightarrow> u32 \<Rightarrow> channel_diagnosis" where
  "ext_entry kind api slot subslot channel_number props error_type ext_error_type add_value qualifier =
     \<lparr>cd_kind = kind, cd_api = api, cd_slot = slot, cd_subslot = subslot,
      cd_channel_number = channel_number, cd_channel_properties = from_u16 props,
      cd_error_type = error_type, cd_error_type_name = decode_channel_error_type error_type,
      cd_ext_error_type = ext_error_type,
      cd_ext_error_type_name = decode_ext_channel_error_type error_type ext_error_type,
      cd_ext_add_value = add_value, cd_qualifier = qualifier\<rparr>"

section \<open>Parsers\<close>

text \<open>
  The heuristic of the entry loop: eight bytes that look like a location header move the
  current location and the offset.
\<close>

type_synonym location = "u32 \<times> u16 \<times> u16"

definition detect_location :: "bytes \<Rightarrow> nat \<Rightarrow> location \<Rightarrow> (location \<times> nat) option" where
  "detect_location data offset loc =
     (if offset + 8 \<le> length data
      then do {
        loc_api \<leftarrow> be32_at data offset; loc_slot \<leftarrow> be16_at data (offset + 4); loc_subslot \<leftarrow> be16_at data (offset + 6);
        if loc_api < 0x10000 \<and> loc_slot < 0x8000 then Some ((loc_api, loc_slot, loc_subslot), offset + 8)
        else Some (loc, offset) }
      else Some (loc, offset))"

text \<open>One entry at an offset: the entry and the offset behind it, \<open>None\<close> inside for the breaks.\<close>

definition diagnosis_entry :: "bytes \<Rightarrow> nat \<Rightarrow> location \<Rightarrow> (channel_diagnosis \<times> nat) option option" where
  "diagnosis_entry data offset loc =
     (if offset + 6 > length data then Some None
      else do {
        channel_number \<leftarrow> be16_at data offset; props \<leftarrow> be16_at data (offset + 2); usi \<leftarrow> be16_at data (offset + 4);
        let offset1 = offset + 6;
        let (api, slot, subslot) = loc;
        if usi = USI_EXT_CHANNEL_DIAGNOSIS then
          (if offset1 + 8 > length data then Some None
           else do {
             error_type \<leftarrow> be16_at data offset1; ext_error_type \<leftarrow> be16_at data (offset1 + 2);
             add_value \<leftarrow> be32_at data (offset1 + 4);
             Some (Some (ext_entry Ext api slot subslot channel_number props error_type ext_error_type add_value 0,
                         offset1 + 8)) })
        else if usi = USI_QUALIFIED_CHANNEL_DIAGNOSIS then
          (if offset1 + 12 > length data then Some None
           else do {
             error_type \<leftarrow> be16_at data offset1; ext_error_type \<leftarrow> be16_at data (offset1 + 2);
             add_value \<leftarrow> be32_at data (offset1 + 4); qualifier \<leftarrow> be32_at data (offset1 + 8);
             Some (Some (ext_entry Qualified api slot subslot channel_number props error_type ext_error_type add_value
                           qualifier, offset1 + 12)) })
        else
          (if offset1 + 2 > length data then Some None
           else do {
             error_type \<leftarrow> be16_at data offset1;
             Some (Some (channel_entry api slot subslot channel_number props error_type, offset1 + 2)) }) })"

lemma detect_location_mono: "detect_location data offset loc = Some (loc', offset') \<Longrightarrow> offset \<le> offset'"
  by (auto simp: detect_location_def split: if_splits)

lemma diagnosis_entry_advance:
  "diagnosis_entry data offset loc = Some (Some (e, offset')) \<Longrightarrow> offset < offset' \<and> offset' \<le> length data"
  by (cases loc) (auto simp: diagnosis_entry_def Let_def split: if_splits)

function diagnosis_walk :: "bytes \<Rightarrow> nat \<Rightarrow> location \<Rightarrow> channel_diagnosis list option" where
  "diagnosis_walk data offset loc =
     (if offset + 6 \<le> length data
      then (case detect_location data offset loc of
          None \<Rightarrow> None
        | Some (loc', offset1) \<Rightarrow>
            (case diagnosis_entry data offset1 loc' of
               None \<Rightarrow> None
             | Some None \<Rightarrow> Some []
             | Some (Some (e, offset2)) \<Rightarrow> map_option (\<lambda>es. e # es) (diagnosis_walk data offset2 loc')))
      else Some [])"
  by pat_completeness auto
termination
  by (relation "measure (\<lambda>(data, offset, _). length data - offset)")
     (auto dest!: detect_location_mono diagnosis_entry_advance)

declare diagnosis_walk.simps [simp del]

definition parse_diagnosis_block :: "bytes \<Rightarrow> u32 \<Rightarrow> u16 \<Rightarrow> u16 \<Rightarrow> diagnosis_data option" where
  "parse_diagnosis_block data api slot subslot =
     (if length data < 6
      then Some \<lparr>dd_api = api, dd_slot = slot, dd_subslot = subslot, dd_entries = [], dd_raw_data = data\<rparr>
      else do {
        block_type \<leftarrow> be16_at data 0;
        let offset = (if block_type \<in> {0x0010, 0x0011, 0x8010, 0x8011, 0x8012} then 6 else 0);
        es \<leftarrow> diagnosis_walk data offset (api, slot, subslot);
        Some \<lparr>dd_api = api, dd_slot = slot, dd_subslot = subslot, dd_entries = es, dd_raw_data = data\<rparr> })"

function simple_walk :: "bytes \<Rightarrow> location \<Rightarrow> nat \<Rightarrow> channel_diagnosis list option" where
  "simple_walk data loc offset =
     (if offset + 6 \<le> length data then do {
        channel_number \<leftarrow> be16_at data offset; props \<leftarrow> be16_at data (offset + 2); error_type \<leftarrow> be16_at data (offset + 4);
        if error_type = 0 \<and> channel_number = 0 \<and> props = 0 then Some []
        else (case loc of (api, slot, subslot) \<Rightarrow>
          map_option (\<lambda>es. channel_entry api slot subslot channel_number props error_type # es)
            (simple_walk data loc (offset + 6))) }
      else Some [])"
  by pat_completeness auto
termination by (relation "measure (\<lambda>(data, _, offset). length data - offset)") auto

declare simple_walk.simps [simp del]

definition parse_diagnosis_simple :: "bytes \<Rightarrow> u32 \<Rightarrow> u16 \<Rightarrow> u16 \<Rightarrow> diagnosis_data option" where
  "parse_diagnosis_simple data api slot subslot =
     (if length data < 6
      then Some \<lparr>dd_api = api, dd_slot = slot, dd_subslot = subslot, dd_entries = [], dd_raw_data = data\<rparr>
      else do {
        es \<leftarrow> simple_walk data (api, slot, subslot) 6;
        Some \<lparr>dd_api = api, dd_slot = slot, dd_subslot = subslot, dd_entries = es, dd_raw_data = data\<rparr> })"

section \<open>Totality and bounds\<close>

lemma detect_location_total: "detect_location data offset loc \<noteq> None"
  by (cases loc) (simp add: detect_location_def)

lemma diagnosis_entry_total: "diagnosis_entry data offset loc \<noteq> None"
  by (cases loc) (auto simp: diagnosis_entry_def Let_def)

lemma diagnosis_entry_size:
  "diagnosis_entry data offset loc = Some (Some (e, offset')) \<Longrightarrow> offset + 8 \<le> offset' \<and> offset' \<le> length data"
  by (cases loc) (auto simp: diagnosis_entry_def Let_def split: if_splits)

lemma diagnosis_walk_bound:
  "runs (diagnosis_walk data offset loc) (\<lambda>es. 8 * length es \<le> length data - offset)"
proof (induction "length data - offset" arbitrary: offset loc rule: less_induct)
  case less
  show ?case
  proof (cases "offset + 6 \<le> length data")
    case True
    obtain loc' o1 where 1: "detect_location data offset loc = Some (loc', o1)"
      using detect_location_total [of data offset loc] by auto
    obtain r where 2: "diagnosis_entry data o1 loc' = Some r" using diagnosis_entry_total by blast
    show ?thesis
    proof (cases r)
      case None
      then show ?thesis using True 1 2 by (subst diagnosis_walk.simps) simp
    next
      case (Some p)
      then obtain e o2 where p: "r = Some (e, o2)" by (cases p) auto
      have o: "offset \<le> o1" "o1 + 8 \<le> o2" "o2 \<le> length data"
        using detect_location_mono [OF 1] diagnosis_entry_size 2 p by auto
      have lt: "length data - o2 < length data - offset" using o True by linarith
      obtain es where "diagnosis_walk data o2 loc' = Some es" "8 * length es \<le> length data - o2"
        using less.hyps [OF lt, of loc'] by (auto simp: runs_iff)
      then show ?thesis using True 1 2 p o by (subst diagnosis_walk.simps) simp
    qed
  qed (subst diagnosis_walk.simps, simp)
qed

lemma simple_walk_bound: "runs (simple_walk data loc offset) (\<lambda>es. 6 * length es \<le> length data - offset)"
proof (induction "length data - offset" arbitrary: offset rule: less_induct)
  case less
  show ?case
  proof (cases "offset + 6 \<le> length data")
    case True
    then have lt: "length data - (offset + 6) < length data - offset" by linarith
    obtain es where "simple_walk data loc (offset + 6) = Some es" "6 * length es \<le> length data - (offset + 6)"
      using less.hyps [OF lt] by (auto simp: runs_iff)
    then show ?thesis using True by (subst simple_walk.simps) (auto split: prod.splits)
  qed (subst simple_walk.simps, simp)
qed

lemma idx_zero: "0 < length d \<Longrightarrow> idx d 0 = Some (d ! 0)"
  by (simp add: idx_def)

lemma diagnosis_parsers_run:
  "runs (parse_diagnosis_block d api slot subslot) (\<lambda>r. 8 * length (dd_entries r) \<le> length d \<and> dd_raw_data r = d)"
  "runs (parse_diagnosis_simple d api slot subslot) (\<lambda>r. 6 * length (dd_entries r) \<le> length d \<and> dd_raw_data r = d)"
proof -
  define off where "off = (if rd16 d 0 \<in> {0x0010, 0x0011, 0x8010, 0x8011, 0x8012} then 6 else 0 :: nat)"
  obtain es where es: "diagnosis_walk d off (api, slot, subslot) = Some es" "8 * length es \<le> length d - off"
    using diagnosis_walk_bound [of d off "(api, slot, subslot)"] by (auto simp: runs_iff)
  have "parse_diagnosis_block d api slot subslot = (if length d < 6
      then Some \<lparr>dd_api = api, dd_slot = slot, dd_subslot = subslot, dd_entries = [], dd_raw_data = d\<rparr>
      else Some \<lparr>dd_api = api, dd_slot = slot, dd_subslot = subslot, dd_entries = es, dd_raw_data = d\<rparr>)"
    using es(1) by (simp add: parse_diagnosis_block_def Let_def off_def)
  then show "runs (parse_diagnosis_block d api slot subslot) (\<lambda>r. 8 * length (dd_entries r) \<le> length d \<and> dd_raw_data r = d)"
    using order_trans [OF es(2) diff_le_self] by simp
  obtain fs where fs: "simple_walk d (api, slot, subslot) 6 = Some fs" "6 * length fs \<le> length d - 6"
    using simple_walk_bound [of d "(api, slot, subslot)" 6] by (auto simp: runs_iff)
  then show "runs (parse_diagnosis_simple d api slot subslot) (\<lambda>r. 6 * length (dd_entries r) \<le> length d \<and> dd_raw_data r = d)"
    using order_trans [OF fs(2) diff_le_self] by (simp add: parse_diagnosis_simple_def)
qed

section \<open>What a device encodes\<close>

text \<open>
  One reported entry: an optional location header, channel number, properties, and the
  structure its identifier selects.
\<close>

datatype usi_body = Plain u16 u16 | ExtBody u16 u16 u32 | QualBody u16 u16 u32 u32

type_synonym diag_item = "location option \<times> u16 \<times> u16 \<times> usi_body"

fun enc_usi :: "usi_body \<Rightarrow> bytes" where
  "enc_usi (Plain usi et) = to_be16 usi @ to_be16 et"
| "enc_usi (ExtBody et ee av) = to_be16 USI_EXT_CHANNEL_DIAGNOSIS @ to_be16 et @ to_be16 ee @ to_be32 av"
| "enc_usi (QualBody et ee av q) =
     to_be16 USI_QUALIFIED_CHANNEL_DIAGNOSIS @ to_be16 et @ to_be16 ee @ to_be32 av @ to_be32 q"

definition enc_location :: "location option \<Rightarrow> bytes" where
  "enc_location l = (case l of None \<Rightarrow> [] | Some (a, s, t) \<Rightarrow> to_be32 a @ to_be16 s @ to_be16 t)"

fun enc_item :: "diag_item \<Rightarrow> bytes" where
  "enc_item (l, ch, props, b) = enc_location l @ to_be16 ch @ to_be16 props @ enc_usi b"

fun usi_of :: "usi_body \<Rightarrow> u16" where
  "usi_of (Plain usi _) = usi"
| "usi_of (ExtBody _ _ _) = USI_EXT_CHANNEL_DIAGNOSIS"
| "usi_of (QualBody _ _ _ _) = USI_QUALIFIED_CHANNEL_DIAGNOSIS"

text \<open>
  The items the heuristic reads as they are meant: a location has a small API and slot; without
  one, the entry does not look like one (a channel other than 0, or a standard identifier).
\<close>

fun item_ok :: "diag_item \<Rightarrow> bool" where
  "item_ok (l, ch, props, b) \<longleftrightarrow>
     (case l of Some (a, s, _) \<Rightarrow> a < 0x10000 \<and> s < 0x8000 | None \<Rightarrow> ch \<noteq> 0 \<or> 0x8000 \<le> usi_of b)
     \<and> (case b of Plain usi _ \<Rightarrow> usi \<noteq> USI_EXT_CHANNEL_DIAGNOSIS \<and> usi \<noteq> USI_QUALIFIED_CHANNEL_DIAGNOSIS | _ \<Rightarrow> True)"

fun entry_of :: "location \<Rightarrow> u16 \<Rightarrow> u16 \<Rightarrow> usi_body \<Rightarrow> channel_diagnosis" where
  "entry_of (a, s, t) ch props (Plain _ et) = channel_entry a s t ch props et"
| "entry_of (a, s, t) ch props (ExtBody et ee av) = ext_entry Ext a s t ch props et ee av 0"
| "entry_of (a, s, t) ch props (QualBody et ee av q) = ext_entry Qualified a s t ch props et ee av q"

fun entries_of :: "location \<Rightarrow> diag_item list \<Rightarrow> channel_diagnosis list" where
  "entries_of loc [] = []"
| "entries_of loc ((l, ch, props, b) # items) =
     (let loc' = case_option loc id l in entry_of loc' ch props b # entries_of loc' items)"

lemma rd32_small: "rd32 (to_be16 a @ to_be16 b @ ys) 0 < 0x10000 \<longleftrightarrow> a = 0"
proof -
  let ?w = "rd32 (to_be16 a @ to_be16 b @ ys) 0"
  have d: "drop_bit 16 ?w = (ucast a :: u32)"
    by (rule bit_word_eqI)
       (auto simp: rd32_def to_be16_def from_be32_def bit_simps bit_u8_beyond dest: bit_imp_le_length)
  have "?w < 0x10000 \<longleftrightarrow> unat ?w div 65536 = 0"
    by (auto simp: word_less_nat_alt)
  also have "unat ?w div 65536 = unat (drop_bit 16 ?w)" by (simp add: drop_bit_eq_div unat_div_distrib)
  also have "\<dots> = unat a" by (simp only: d unat_ucast_u16)
  finally show ?thesis by (simp add: unat_eq_0)
qed

lemma length_enc_usi: "4 \<le> length (enc_usi b)"
  by (cases b) auto

lemma detect_location_item:
  assumes "length pre = off" and "item_ok (l, ch, props, b)"
  shows "detect_location (pre @ enc_item (l, ch, props, b) @ post) off loc =
    Some (case_option loc id l, off + length (enc_location l))"
proof (cases l)
  case None
  let ?d = "pre @ enc_item (l, ch, props, b) @ post"
  have "rd32 ?d off = rd32 (to_be16 ch @ to_be16 props @ enc_usi b @ post) 0"
    using assms(1) by (simp add: None enc_location_def wire_simps)
  then have "rd32 ?d off < 0x10000 \<longleftrightarrow> ch = 0" by (simp only: rd32_small)
  moreover have "rd16 ?d (off + 4) = usi_of b"
    using assms(1) by (cases b) (simp_all add: None enc_location_def wire_simps)
  moreover have "off + 8 \<le> length ?d" using assms(1) length_enc_usi [of b] by simp
  ultimately show ?thesis using assms(2) by (auto simp: detect_location_def None enc_location_def)
next
  case (Some p)
  then obtain a s t where l: "l = Some (a, s, t)" by (cases p) auto
  let ?d = "pre @ enc_item (l, ch, props, b) @ post"
  have "rd32 ?d off = a" "rd16 ?d (off + 4) = s" "rd16 ?d (off + 6) = t" "off + 8 \<le> length ?d"
    using assms(1) by (simp_all add: l enc_location_def wire_simps)
  then show ?thesis using assms(2) by (simp add: detect_location_def l enc_location_def)
qed

lemma diagnosis_entry_item:
  assumes "length pre = off" and "item_ok (l, ch, props, b)"
  shows "diagnosis_entry (pre @ to_be16 ch @ to_be16 props @ enc_usi b @ post) off loc =
    Some (Some (entry_of loc ch props b, off + 4 + length (enc_usi b)))"
proof -
  obtain a s t where loc: "loc = (a, s, t)" by (cases loc)
  have "USI_EXT_CHANNEL_DIAGNOSIS \<noteq> USI_QUALIFIED_CHANNEL_DIAGNOSIS"
    by (simp add: USI_EXT_CHANNEL_DIAGNOSIS_def USI_QUALIFIED_CHANNEL_DIAGNOSIS_def)
  then show ?thesis using assms
    by (cases b) (auto simp: diagnosis_entry_def Let_def loc wire_simps numeral_eq_Suc)
qed

lemma diagnosis_walk_items:
  assumes "length pre = off" and "\<forall>i \<in> set items. item_ok i"
  shows "diagnosis_walk (pre @ concat (map enc_item items)) off loc = Some (entries_of loc items)"
  using assms
proof (induction items arbitrary: pre off loc)
  case Nil
  then show ?case by (subst diagnosis_walk.simps) simp
next
  case (Cons i items)
  obtain l ch props b where i: "i = (l, ch, props, b)" by (cases i)
  define loc' where "loc' = case_option loc id l"
  define data where "data = pre @ enc_item i @ concat (map enc_item items)"
  have ok: "item_ok (l, ch, props, b)" using Cons.prems i by simp
  have 1: "detect_location data off loc = Some (loc', off + length (enc_location l))"
    unfolding data_def i loc'_def by (rule detect_location_item [OF Cons.prems(1) ok])
  have 2: "diagnosis_entry data (off + length (enc_location l)) loc' =
      Some (Some (entry_of loc' ch props b, off + length (enc_location l) + 4 + length (enc_usi b)))"
    using diagnosis_entry_item [of "pre @ enc_location l" "off + length (enc_location l)" l ch props b
        "concat (map enc_item items)" loc'] Cons.prems(1) ok
    by (simp add: data_def i)
  have 3: "diagnosis_walk data (off + length (enc_location l) + 4 + length (enc_usi b)) loc' = Some (entries_of loc' items)"
    using Cons.IH [of "pre @ enc_item i" "off + length (enc_location l) + 4 + length (enc_usi b)" loc'] Cons.prems
    by (simp add: data_def i)
  have "off + 6 \<le> length data" using Cons.prems(1) length_enc_usi [of b] by (simp add: data_def i)
  then have "diagnosis_walk data off loc = Some (entries_of loc (i # items))"
    by (subst diagnosis_walk.simps) (simp add: 1 2 3 i Let_def loc'_def [symmetric])
  then show ?case by (simp add: data_def)
qed

text \<open>The flat format: entries up to the end or an all-zero entry.\<close>

definition enc_flat :: "u16 \<times> u16 \<times> u16 \<Rightarrow> bytes" where
  "enc_flat = (\<lambda>(ch, props, et). to_be16 ch @ to_be16 props @ to_be16 et)"

lemma length_enc_flat [simp]: "length (enc_flat f) = 6"
  by (simp add: enc_flat_def split: prod.split)

lemma simple_walk_flat:
  assumes "length pre = off"
  shows "simple_walk (pre @ concat (map enc_flat fs)) (api, slot, subslot) off =
    Some (map (\<lambda>(ch, props, et). channel_entry api slot subslot ch props et) (takeWhile (\<lambda>f. f \<noteq> (0, 0, 0)) fs))"
  using assms
proof (induction fs arbitrary: pre off)
  case Nil
  then show ?case by (subst simple_walk.simps) simp
next
  case (Cons f fs)
  obtain ch props et where f: "f = (ch, props, et)" by (cases f)
  define data where "data = pre @ enc_flat f @ concat (map enc_flat fs)"
  have r: "rd16 data off = ch" "rd16 data (off + 2) = props" "rd16 data (off + 4) = et" "off + 6 \<le> length data"
    using Cons.prems by (simp_all add: data_def f enc_flat_def wire_simps)
  have "simple_walk data (api, slot, subslot) (off + 6) =
      Some (map (\<lambda>(ch, props, et). channel_entry api slot subslot ch props et) (takeWhile (\<lambda>f. f \<noteq> (0, 0, 0)) fs))"
    using Cons.IH [of "pre @ enc_flat f" "off + 6"] Cons.prems by (simp add: data_def)
  then have "simple_walk data (api, slot, subslot) off =
      Some (map (\<lambda>(ch, props, et). channel_entry api slot subslot ch props et) (takeWhile (\<lambda>f. f \<noteq> (0, 0, 0)) (f # fs)))"
    using r by (subst simple_walk.simps) (auto simp: f)
  then show ?case by (simp add: data_def)
qed

definition diag_header :: "u16 \<Rightarrow> u16 \<Rightarrow> u8 \<Rightarrow> u8 \<Rightarrow> bytes" where
  "diag_header bt len vh vl = to_be16 bt @ to_be16 len @ [vh, vl]"

text \<open>
  C29: Diagnosis records are read back entry by entry. Behind a diagnosis block header, any
  sequence of entries, plain, extended or qualified, each with an optional location header, is
  parsed to exactly those entries in order, each under the last location given (the caller's
  before the first), provided an entry without a location does not itself look like one (its
  channel is not 0 or its structure identifier is a standard one); the flat format yields the
  entries up to the first all-zero one. For every input at all both parsers return, and an entry
  costs at least eight respectively six bytes.
\<close>

theorem diagnosis_roundtrip:
  assumes "bt \<in> {0x0010, 0x0011, 0x8010, 0x8011, 0x8012}" and "\<forall>i \<in> set items. item_ok i"
  shows "(\<exists>r. parse_diagnosis_block (diag_header bt len vh vl @ concat (map enc_item items)) api slot subslot = Some r
      \<and> dd_entries r = entries_of (api, slot, subslot) items)
    \<and> (\<exists>r. parse_diagnosis_simple (diag_header bt len vh vl @ concat (map enc_flat fs)) api slot subslot = Some r
      \<and> dd_entries r = map (\<lambda>(ch, props, et). channel_entry api slot subslot ch props et)
          (takeWhile (\<lambda>f. f \<noteq> (0, 0, 0)) fs))
    \<and> (\<exists>r. parse_diagnosis_block d api slot subslot = Some r \<and> 8 * length (dd_entries r) \<le> length d)
    \<and> (\<exists>r. parse_diagnosis_simple d api slot subslot = Some r \<and> 6 * length (dd_entries r) \<le> length d)"
proof (intro conjI)
  let ?h = "diag_header bt len vh vl"
  have h: "length ?h = 6" "rd16 (?h @ ys) 0 = bt" for ys by (simp_all add: diag_header_def)
  show "\<exists>r. parse_diagnosis_block (?h @ concat (map enc_item items)) api slot subslot = Some r
      \<and> dd_entries r = entries_of (api, slot, subslot) items"
    using diagnosis_walk_items [OF h(1) assms(2)] h assms(1)
    by (simp add: parse_diagnosis_block_def Let_def)
  show "\<exists>r. parse_diagnosis_simple (?h @ concat (map enc_flat fs)) api slot subslot = Some r
      \<and> dd_entries r = map (\<lambda>(ch, props, et). channel_entry api slot subslot ch props et)
          (takeWhile (\<lambda>f. f \<noteq> (0, 0, 0)) fs)"
    using simple_walk_flat [OF h(1)] h(1) by (simp add: parse_diagnosis_simple_def)
qed (use diagnosis_parsers_run [of d api slot subslot] in \<open>auto simp: runs_iff\<close>)

theorem diagnosis_roundtrip_witness:
  "\<exists>r. parse_diagnosis_block (diag_header 0x0010 30 1 0 @ concat (map enc_item
      [(Some (0, 1, 1), 0, 0x0801, ExtBody 6 0x8000 7), (None, 3, 0x0801, Plain 0x8000 1)])) 0 0 0 = Some r
    \<and> map cd_slot (dd_entries r) = [1, 1] \<and> map cd_error_type_name (dd_entries r) = [''Line break'', ''Short circuit'']"
proof -
  let ?items = "[(Some (0, 1, 1), 0, 0x0801, ExtBody 6 0x8000 7), (None, 3, 0x0801, Plain 0x8000 1)]"
  have ok: "\<forall>i \<in> set ?items. item_ok i"
    by (simp add: USI_EXT_CHANNEL_DIAGNOSIS_def USI_QUALIFIED_CHANNEL_DIAGNOSIS_def)
  have e: "map cd_slot (entries_of (0, 0, 0) ?items) = [1, 1]"
    "map cd_error_type_name (entries_of (0, 0, 0) ?items) = [''Line break'', ''Short circuit'']"
    by code_simp+
  have "\<exists>r. parse_diagnosis_block (diag_header 0x0010 30 1 0 @ concat (map enc_item ?items)) 0 0 0 = Some r
      \<and> dd_entries r = entries_of (0, 0, 0) ?items"
    using diagnosis_roundtrip [OF _ ok, of "0x0010" 30 1 0 0 0 0 "[]" "[]"] by blast
  then show ?thesis using e by metis
qed

end
