(* ===== verification/Transport.thy ===== *)
theory Transport
  imports RpcParse Connect Im Diagnosis RawUdp
begin

text \<open>
  Model of \<open>RpcConn\<close> in \<open>src/transport.rs\<close>: the connection state and every operation on it.

  The datagram transport behind the connection is the \<open>RpcTransport\<close> trait. It is modelled by
  what it will deliver: a list of receive outcomes per channel and of outcomes of the send
  calls, with the datagrams it accepted as a log. \<open>Expired\<close> (or the end of the list) is the
  deadline check that fails before the receive call. An operation of type \<open>'a io\<close> panics
  (\<open>None\<close>) or yields the source's \<open>Result\<close> and the connection it leaves behind.
\<close>

section \<open>The transport\<close>

datatype rx_event = Datagram bytes | TimedOut | Failed string | Expired

record transport =
  tp_peer :: string
  tp_rx :: "rx_event list"
  tp_cc :: "rx_event list"
  tp_tx :: "string option list"
  tp_rtx :: "string option list"
  tp_sent :: "bytes list"
  tp_replies :: "bytes list"

definition send_request :: "bytes \<Rightarrow> transport \<Rightarrow> (string + unit) \<times> transport" where
  "send_request data t =
     (case tp_tx t of
        Some e # rest \<Rightarrow> (Inl e, t\<lparr>tp_tx := rest\<rparr>)
      | _ \<Rightarrow> (Inr (), t\<lparr>tp_tx := tl (tp_tx t), tp_sent := tp_sent t @ [data]\<rparr>))"

definition reply_ccontrol :: "bytes \<Rightarrow> transport \<Rightarrow> (string + unit) \<times> transport" where
  "reply_ccontrol data t =
     (case tp_rtx t of
        Some e # rest \<Rightarrow> (Inl e, t\<lparr>tp_rtx := rest\<rparr>)
      | _ \<Rightarrow> (Inr (), t\<lparr>tp_rtx := tl (tp_rtx t), tp_replies := tp_replies t @ [data]\<rparr>))"

text \<open>The receive closure of \<open>send_receive\<close>: deadline check, receive, timeout as an error.\<close>

definition recv_before_deadline :: "transport \<Rightarrow> (string + bytes) \<times> transport" where
  "recv_before_deadline t =
     (case tp_rx t of
        Datagram d # rest \<Rightarrow> (Inr d, t\<lparr>tp_rx := rest\<rparr>)
      | Failed e # rest \<Rightarrow> (Inl e, t\<lparr>tp_rx := rest\<rparr>)
      | _ \<Rightarrow> (Inl (''No response from '' @ tp_peer t), t\<lparr>tp_rx := tl (tp_rx t)\<rparr>))"

text \<open>
  The raw layer-2 transport: one capture for both flows, and the source port of the last
  CControl datagram, to which the confirmation goes back from port 34964. Receiving is the
  loop of \<open>RawUdp\<close> over the captured frames; the outcomes of \<open>recv_loop\<close> are kept as they are.
\<close>

record raw_l2 =
  rl_raw :: raw_udp
  rl_ccontrol_src :: "u16 option"

definition raw_send_request :: "bytes \<Rightarrow> raw_l2 \<Rightarrow> (bytes \<times> raw_l2) option" where
  "raw_send_request data r = do {
     (frame, u) \<leftarrow> send_to data RPC_PORT (rl_raw r);
     Some (frame, r\<lparr>rl_raw := u\<rparr>) }"

definition raw_recv_ccontrol :: "nat \<Rightarrow> nat \<Rightarrow> (nat \<times> sock_recv) list \<Rightarrow> raw_l2 \<Rightarrow> (udp_recv \<times> raw_l2) option" where
  "raw_recv_ccontrol now timeout frames r = do {
     x \<leftarrow> recv_from now timeout frames (rl_raw r);
     Some (x, case x of RecvHit _ src_port \<Rightarrow> r\<lparr>rl_ccontrol_src := Some src_port\<rparr> | _ \<Rightarrow> r) }"

definition raw_reply_ccontrol :: "bytes \<Rightarrow> raw_l2 \<Rightarrow> (string + bytes \<times> raw_l2) option" where
  "raw_reply_ccontrol data r =
     (case rl_ccontrol_src r of
        None \<Rightarrow> Some (Inl ''No CControl received to reply to'')
      | Some src_port \<Rightarrow> do {
          (frame, u) \<leftarrow> send_to_from data RPC_PORT src_port (rl_raw r);
          Some (Inr (frame, r\<lparr>rl_raw := u\<rparr>)) })"

section \<open>The connection\<close>

record rpc_conn =
  co_transport :: transport
  co_object_uuid :: bytes
  co_activity_uuid :: bytes
  co_ar_uuid :: bytes
  co_session_key :: u16
  co_sequence_number :: u32
  co_timeout :: nat
  co_input_frame_id :: u16
  co_output_frame_id :: u16
  co_connected :: bool

type_synonym 'a io = "rpc_conn \<Rightarrow> ((string + 'a) \<times> rpc_conn) option"

text \<open>Sequencing with \<open>?\<close>, a pure computation, and \<open>map_err\<close>.\<close>

definition cbind :: "'a io \<Rightarrow> ('a \<Rightarrow> 'b io) \<Rightarrow> 'b io" where
  "cbind m f c = (case m c of None \<Rightarrow> None | Some (Inl e, c') \<Rightarrow> Some (Inl e, c') | Some (Inr x, c') \<Rightarrow> f x c')"

definition pure_io :: "(string + 'a) option \<Rightarrow> 'a io" where
  "pure_io r c = map_option (\<lambda>x. (x, c)) r"

definition map_err :: "string \<Rightarrow> 'a io \<Rightarrow> 'a io" where
  "map_err prefix m c =
     (case m c of Some (Inl e, c') \<Rightarrow> Some (Inl (prefix @ e), c') | r \<Rightarrow> r)"

text \<open>The random bytes of the constructor are arguments; a failure of the generator is \<open>Inl\<close>.\<close>

definition with_transport ::
    "transport \<Rightarrow> u16 \<Rightarrow> u16 \<Rightarrow> nat \<Rightarrow> string + u16 \<Rightarrow> string + bytes \<Rightarrow> string + bytes \<Rightarrow> string + rpc_conn" where
  "with_transport t device_id vendor_id timeout rkey ract rar =
     rbind rkey (\<lambda>k. rbind ract (\<lambda>act. rbind rar (\<lambda>ar.
       Inr \<lparr>co_transport = t,
            co_object_uuid = object_uuid (ucast (drop_bit 8 device_id)) (ucast device_id)
              (ucast (drop_bit 8 vendor_id)) (ucast vendor_id),
            co_activity_uuid = act, co_ar_uuid = ar, co_session_key = (if k = 0 then 1 else k),
            co_sequence_number = 0, co_timeout = timeout, co_input_frame_id = 0,
            co_output_frame_id = 0, co_connected = False\<rparr>)))"

text \<open>\<open>self.sequence_number += 1\<close> panics on overflow.\<close>

definition next_seq :: "rpc_conn \<Rightarrow> (u32 \<times> rpc_conn) option" where
  "next_seq c =
     (if co_sequence_number c = 0xFFFFFFFF then None
      else Some (co_sequence_number c, c\<lparr>co_sequence_number := co_sequence_number c + 1\<rparr>))"

definition send_receive :: "bytes \<Rightarrow> parsed_rpc io" where
  "send_receive rpc_bytes c = do {
     h \<leftarrow> parse_rpc_header rpc_bytes;
     (case h of
        None \<Rightarrow> Some (Inl ''outgoing RPC request too short to parse header'', c)
      | Some req \<Rightarrow>
          (case send_request rpc_bytes (co_transport c) of
             (Inl e, t) \<Rightarrow> Some (Inl e, c\<lparr>co_transport := t\<rparr>)
           | (Inr _, t) \<Rightarrow> do {
               (r, t') \<leftarrow> next_rpc_response recv_before_deadline
                 (drep_normalized_uuid (pr_activity_uuid req) (pr_is_little_endian req))
                 (pr_sequence_number req) t;
               Some (r, c\<lparr>co_transport := t'\<rparr>) })) }"

definition rc_connect :: "bytes \<Rightarrow> bytes \<Rightarrow> iocr_setup \<Rightarrow> connect_result io" where
  "rc_connect cm_mac cm_station_name st c = do {
     (sq, c1) \<leftarrow> next_seq c;
     req \<leftarrow> build_connect_request (co_object_uuid c1) IFACE_UUID_DEVICE (co_activity_uuid c1)
       (co_ar_uuid c1) (co_session_key c1) cm_mac cm_station_name st sq;
     cbind (send_receive req) (\<lambda>resp.
       cbind (map_err ''Failed to connect: '' (pure_io (parse_connect_response (pr_payload resp) (pr_is_little_endian resp))))
         (\<lambda>result c2. Some (Inr result, c2\<lparr>co_input_frame_id := cr_input_frame_id result,
            co_output_frame_id := cr_output_frame_id result, co_connected := True\<rparr>))) c1 }"

definition connect_device_access :: "bytes \<Rightarrow> bytes \<Rightarrow> unit io" where
  "connect_device_access cm_mac cm_station_name c = do {
     (sq, c1) \<leftarrow> next_seq c;
     let req = build_device_access_connect_request (co_object_uuid c1) IFACE_UUID_DEVICE (co_activity_uuid c1)
       (co_ar_uuid c1) (co_session_key c1) cm_mac cm_station_name sq;
     cbind (send_receive req) (\<lambda>resp.
       cbind (map_err ''Failed to connect: '' (pure_io (parse_status_response (pr_payload resp) (pr_is_little_endian resp))))
         (\<lambda>_ c2. Some (Inr (), c2\<lparr>co_connected := True\<rparr>))) c1 }"

definition send_control :: "u16 \<Rightarrow> u16 \<Rightarrow> bytes \<Rightarrow> bytes io" where
  "send_control block_type control_command sub_blocks c =
     (if \<not> co_connected c then Some (Inl ''Not connected'', c)
      else do {
        let payload = iod_control_block block_type (co_ar_uuid c) (co_session_key c) control_command @ sub_blocks;
        (sq, c1) \<leftarrow> next_seq c;
        let req = rpc_request (co_object_uuid c1) IFACE_UUID_DEVICE (co_activity_uuid c1) sq CONTROL (nrd payload);
        cbind (send_receive req) (\<lambda>resp. pure_io (parse_status_response (pr_payload resp) (pr_is_little_endian resp))) c1 })"

definition prm_end :: "bytes io" where
  "prm_end = map_err ''PrmEnd failed: '' (send_control BLOCK_IOD_CONTROL_PRM_END_REQ CONTROL_CMD_PRM_END [])"

definition prm_begin :: "bytes io" where
  "prm_begin = map_err ''PrmBegin failed: '' (send_control BLOCK_PRM_BEGIN_REQ CONTROL_CMD_PRM_BEGIN [])"

text \<open>\<open>{:.0}\<close> of a duration in nanoseconds as seconds: to nearest, ties to even.\<close>

definition round_secs :: "nat \<Rightarrow> nat" where
  "round_secs ns =
     (let q = ns div 1000000000; r = ns mod 1000000000 in
      if r > 500000000 \<or> (r = 500000000 \<and> odd q) then q + 1 else q)"

fun app_ready_loop :: "string \<Rightarrow> rx_event list \<Rightarrow> bytes io" where
  "app_ready_loop terr [] c = Some (Inl terr, c\<lparr>co_transport := (co_transport c)\<lparr>tp_cc := []\<rparr>\<rparr>)"
| "app_ready_loop terr (ev # rest) c =
     (let c' = c\<lparr>co_transport := (co_transport c)\<lparr>tp_cc := rest\<rparr>\<rparr> in
      case ev of
        Expired \<Rightarrow> Some (Inl terr, c')
      | TimedOut \<Rightarrow> Some (Inl terr, c')
      | Failed e \<Rightarrow> Some (Inl e, c')
      | Datagram payload \<Rightarrow> do {
          x \<leftarrow> extract_app_ready payload;
          (case x of
             None \<Rightarrow> app_ready_loop terr rest c
           | Some (hdr, cc) \<Rightarrow> do {
               resp \<leftarrow> ccontrol_response hdr (co_ar_uuid c) (co_session_key c);
               (case reply_ccontrol resp (co_transport c') of
                  (Inl e, t) \<Rightarrow> Some (Inl e, c'\<lparr>co_transport := t\<rparr>)
                | (Inr _, t) \<Rightarrow> Some (Inr (cc_nrd_body cc), c'\<lparr>co_transport := t\<rparr>)) }) })"

definition application_ready :: "nat \<Rightarrow> bytes io" where
  "application_ready timeout c =
     (if \<not> co_connected c then Some (Inl ''Not connected'', c)
      else app_ready_loop (''No ApplicationReady from '' @ tp_peer (co_transport c) @ '' within ''
             @ dec_nat (round_secs timeout) @ ''s'') (tp_cc (co_transport c)) c)"

section \<open>Records\<close>

definition send_read :: "bytes \<Rightarrow> bytes io" where
  "send_read req =
     cbind (send_receive req) (\<lambda>resp. pure_io (parse_read_response (pr_payload resp) (pr_is_little_endian resp)))"

definition read_raw :: "u16 \<Rightarrow> u16 \<Rightarrow> u16 \<Rightarrow> u32 \<Rightarrow> bytes io" where
  "read_raw index slot subslot len c = do {
     (sq, c1) \<leftarrow> next_seq c;
     send_read (read_record_request (co_object_uuid c1) IFACE_UUID_DEVICE (co_activity_uuid c1) (co_ar_uuid c1)
       sq 0 slot subslot index len) c1 }"

definition read_raw_implicit :: "u16 \<Rightarrow> u16 \<Rightarrow> u16 \<Rightarrow> u32 \<Rightarrow> bytes io" where
  "read_raw_implicit index slot subslot len c = do {
     (sq, c1) \<leftarrow> next_seq c;
     send_read (read_record_implicit_request (co_object_uuid c1) IFACE_UUID_DEVICE (co_activity_uuid c1)
       sq 0 slot subslot index len) c1 }"

definition read_im0 :: "u16 \<Rightarrow> u16 \<Rightarrow> in_m0 io" where
  "read_im0 slot subslot = cbind (read_raw IM0 slot subslot READ_LENGTH) (\<lambda>p. pure_io (parse_im0 p))"

definition read_im1 :: "u16 \<Rightarrow> u16 \<Rightarrow> in_m1 io" where
  "read_im1 slot subslot = cbind (read_raw IM1 slot subslot READ_LENGTH) (\<lambda>p. pure_io (parse_im1 p))"

definition read_im2 :: "u16 \<Rightarrow> u16 \<Rightarrow> in_m2 io" where
  "read_im2 slot subslot = cbind (read_raw IM2 slot subslot READ_LENGTH) (\<lambda>p. pure_io (parse_im2 p))"

definition read_im3 :: "u16 \<Rightarrow> u16 \<Rightarrow> in_m3 io" where
  "read_im3 slot subslot = cbind (read_raw IM3 slot subslot READ_LENGTH) (\<lambda>p. pure_io (parse_im3 p))"

definition read_pd_real_data :: "pd_real_data io" where
  "read_pd_real_data =
     cbind (read_raw PD_REAL_DATA 0 1 READ_LENGTH) (\<lambda>p. pure_io (map_option Inr (parse_pd_real_data p)))"

definition read_real_identification_data :: "real_identification_data io" where
  "read_real_identification_data =
     cbind (read_raw REAL_ID_API 0 1 READ_LENGTH) (\<lambda>p. pure_io (map_option Inr (parse_real_identification_data p)))"

definition discover_slots :: "device_slot list io" where
  "discover_slots =
     cbind read_real_identification_data (\<lambda>r. pure_io (Some (Inr (map to_device_slot (ri_slots r)))))"

definition read_inm0_filter :: "inm0_filter io" where
  "read_inm0_filter = cbind (read_raw IM0_FILTER_DATA 0 0 READ_LENGTH) (\<lambda>p. pure_io (parse_inm0_filter p))"

definition read_diagnosis :: "u16 \<Rightarrow> u16 \<Rightarrow> u16 \<Rightarrow> rpc_conn \<Rightarrow> (diagnosis_data \<times> rpc_conn) option" where
  "read_diagnosis slot subslot index c = do {
     (r, c') \<leftarrow> read_raw index slot subslot READ_LENGTH c;
     (case r of
        Inr data \<Rightarrow>
          if 6 < length data
          then do {
            result \<leftarrow> parse_diagnosis_block data 0 slot subslot;
            if dd_entries result = []
            then do { s \<leftarrow> parse_diagnosis_simple data 0 slot subslot; Some (s, c') }
            else Some (result, c') }
          else Some (\<lparr>dd_api = 0, dd_slot = slot, dd_subslot = subslot, dd_entries = [], dd_raw_data = data\<rparr>, c')
      | Inl _ \<Rightarrow> Some (\<lparr>dd_api = 0, dd_slot = slot, dd_subslot = subslot, dd_entries = [], dd_raw_data = []\<rparr>, c')) }"

definition DIAGNOSIS_INDICES :: "(u16 \<times> u16 \<times> u16) list" where
  "DIAGNOSIS_INDICES =
     [(0x800A, 0, 0), (0x800B, 0, 0), (0x800C, 0, 1), (0xF000, 0, 0), (0xF00A, 0, 0), (0xF00B, 0, 0)]"

fun diagnosis_loop ::
    "(u16 \<times> u16 \<times> u16) list \<Rightarrow> (u16 \<times> diagnosis_data) list \<Rightarrow> rpc_conn
       \<Rightarrow> ((u16 \<times> diagnosis_data) list \<times> rpc_conn) option" where
  "diagnosis_loop [] results c = Some (results, c)"
| "diagnosis_loop ((index, slot, subslot) # rest) results c = do {
     (diag, c') \<leftarrow> read_diagnosis slot subslot index c;
     diagnosis_loop rest (if dd_entries diag \<noteq> [] then bt_insert index diag results else results) c' }"

definition read_all_diagnosis :: "rpc_conn \<Rightarrow> ((u16 \<times> diagnosis_data) list \<times> rpc_conn) option" where
  "read_all_diagnosis c = diagnosis_loop DIAGNOSIS_INDICES [] c"

definition rc_write :: "u16 \<Rightarrow> u16 \<Rightarrow> u16 \<Rightarrow> bytes \<Rightarrow> unit io" where
  "rc_write index slot subslot data c = do {
     (sq, c1) \<leftarrow> next_seq c;
     cbind (send_receive (write_record_request (co_object_uuid c1) IFACE_UUID_DEVICE (co_activity_uuid c1)
         (co_ar_uuid c1) sq 0 slot subslot index data))
       (\<lambda>resp. cbind (pure_io (parse_status_response (pr_payload resp) (pr_is_little_endian resp)))
         (\<lambda>_. pure_io (Some (Inr ())))) c1 }"

definition write_multiple :: "(u16 \<times> u16 \<times> u16 \<times> bytes) list \<Rightarrow> write_multiple_result list io" where
  "write_multiple writes c =
     (if writes = [] then Some (Inr [], c)
      else do {
        let entries = map (\<lambda>(index, slot, subslot, data). (0, slot, subslot, index, data)) writes;
        (sq, c1) \<leftarrow> next_seq c;
        cbind (send_receive (write_multiple_request (co_object_uuid c1) IFACE_UUID_DEVICE (co_activity_uuid c1)
            (co_ar_uuid c1) sq entries))
          (\<lambda>resp. cbind (pure_io (parse_status_response (pr_payload resp) (pr_is_little_endian resp)))
            (\<lambda>p. pure_io (map_option Inr (parse_write_multiple_response p)))) c1 })"

section \<open>Release\<close>

definition release :: "rpc_conn \<Rightarrow> rpc_conn option" where
  "release c =
     (if \<not> co_connected c then Some c
      else do {
        (sq, c1) \<leftarrow> next_seq c;
        let req = release_request (co_object_uuid c1) IFACE_UUID_DEVICE (co_activity_uuid c1) (co_ar_uuid c1)
          (co_session_key c1) sq;
        Some (c1\<lparr>co_transport := snd (send_request req (co_transport c1)), co_connected := False\<rparr>) })"

text \<open>\<open>Drop for RpcConn\<close>.\<close>

definition rc_drop :: "rpc_conn \<Rightarrow> rpc_conn option" where
  "rc_drop c = release c"

section \<open>The receive loop ends\<close>

lemma next_response_step:
  "next_rpc_response recv_before_deadline u sq t =
     (case recv_before_deadline t of
        (Inl e, t') \<Rightarrow> Some (Inl e, t')
      | (Inr d, t') \<Rightarrow>
          (case the (parse_rpc_response d) of
             Inl e \<Rightarrow> Some (Inl e, t')
           | Inr None \<Rightarrow> next_rpc_response recv_before_deadline u sq t'
           | Inr (Some h) \<Rightarrow>
               if drep_normalized_uuid (pr_activity_uuid h) (pr_is_little_endian h) = u \<and> pr_sequence_number h = sq
               then Some (Inr h, t') else next_rpc_response recv_before_deadline u sq t'))"
  by (subst next_rpc_response.simps) (simp add: parse_rpc_response_eq Let_def split: prod.split sum.split)

text \<open>
  The loop consumes a non-empty part of the stream and nothing else; a response it returns is
  one of the datagrams it consumed, and answers the request.
\<close>

definition consumed :: "transport \<Rightarrow> transport \<Rightarrow> rx_event list \<Rightarrow> bool" where
  "consumed t t' es \<longleftrightarrow> t' = t\<lparr>tp_rx := tp_rx t'\<rparr> \<and> tp_rx t = es @ tp_rx t'"

lemma consumed_trans: "consumed t t' es \<Longrightarrow> consumed t' t'' fs \<Longrightarrow> consumed t t'' (es @ fs)"
  unfolding consumed_def by (metis append_assoc transport.update_convs(2) transport.surjective)

lemma recv_consumes:
  assumes "recv_before_deadline t = (r, t')"
  shows "consumed t t' (take 1 (tp_rx t)) \<and> (case r of Inr d \<Rightarrow> \<exists>es. tp_rx t = Datagram d # es | Inl _ \<Rightarrow> True)"
  using assms unfolding recv_before_deadline_def consumed_def
  by (cases "tp_rx t") (auto split: rx_event.splits)

lemma next_response_returns:
  "\<exists>r t' es. next_rpc_response recv_before_deadline u sq t = Some (r, t') \<and> consumed t t' es
     \<and> (\<forall>h. r = Inr h \<longrightarrow> answers u sq h \<and> Datagram (enc_rpc h) \<in> set es)"
proof (induction "length (tp_rx t)" arbitrary: t rule: less_induct)
  case less
  obtain r t1 where rcv: "recv_before_deadline t = (r, t1)" by (cases "recv_before_deadline t")
  have c1: "consumed t t1 (take 1 (tp_rx t))" using recv_consumes [OF rcv] by simp
  show ?case
  proof (cases r)
    case (Inl e)
    then have "next_rpc_response recv_before_deadline u sq t = Some (Inl e, t1)"
      by (subst next_response_step) (simp add: rcv)
    then show ?thesis using c1 by blast
  next
    case (Inr d)
    then obtain es where d: "tp_rx t = Datagram d # es" using recv_consumes [OF rcv] by auto
    then have l: "length (tp_rx t1) < length (tp_rx t)" using c1 by (auto simp: consumed_def)
    obtain q where q: "parse_rpc_response d = Some q" using parse_rpc_response_eq by blast
    have rec: ?thesis if "next_rpc_response recv_before_deadline u sq t = next_rpc_response recv_before_deadline u sq t1"
      using less.hyps [OF l] that consumed_trans [OF c1] by (metis UnCI set_append)
    show ?thesis
    proof (cases q)
      case (Inl e)
      then have "next_rpc_response recv_before_deadline u sq t = Some (Inl e, t1)"
        by (subst next_response_step) (simp add: rcv Inr q)
      then show ?thesis using c1 by blast
    next
      case i: (Inr ro)
      show ?thesis
      proof (cases ro)
        case None
        then show ?thesis by (intro rec, subst next_response_step) (simp add: rcv Inr q i)
      next
        case (Some h)
        note h = parse_rpc_response_type [OF q [unfolded i Some]]
        show ?thesis
        proof (cases "drep_normalized_uuid (pr_activity_uuid h) (pr_is_little_endian h) = u \<and> pr_sequence_number h = sq")
          case True
          then have "next_rpc_response recv_before_deadline u sq t = Some (Inr h, t1)"
            by (subst next_response_step) (simp add: rcv Inr q i Some)
          then show ?thesis using c1 h True d by (auto simp: answers_def)
        next
          case False
          then show ?thesis by (intro rec, subst next_response_step) (auto simp: rcv Inr q i Some)
        qed
      qed
    qed
  qed
qed

section \<open>One request and its response\<close>

definition conn_ok :: "rpc_conn \<Rightarrow> bool" where
  "conn_ok c \<longleftrightarrow> length (co_object_uuid c) = 16 \<and> length (co_activity_uuid c) = 16 \<and> length (co_ar_uuid c) = 16
     \<and> co_session_key c \<noteq> 0"

definition our_request :: "rpc_conn \<Rightarrow> u32 \<Rightarrow> bytes \<Rightarrow> bool" where
  "our_request c sq req \<longleftrightarrow> (\<exists>op body. req = rpc_request (co_object_uuid c) IFACE_UUID_DEVICE (co_activity_uuid c) sq op body)"

lemma length_IFACE [simp]: "length IFACE_UUID_DEVICE = 16"
  by (simp add: IFACE_UUID_DEVICE_def)

lemma our_request_header:
  assumes "conn_ok c" and "our_request c sq req"
  obtains h where "parse_rpc_header req = Some (Some h)" "pr_activity_uuid h = co_activity_uuid c"
    "pr_sequence_number h = sq" "\<not> pr_is_little_endian h" "pr_object_uuid h = co_object_uuid c" "pr_packet_type h = 0"
  using assms that by (auto simp: our_request_def conn_ok_def parse_rpc_request request_header_def)

text \<open>What a call does to the transport: it sends the request or not, and consumes responses.\<close>

definition exchanged :: "transport \<Rightarrow> bytes \<Rightarrow> transport \<Rightarrow> bool" where
  "exchanged t req t' \<longleftrightarrow> tp_peer t' = tp_peer t \<and> tp_cc t' = tp_cc t \<and> tp_rtx t' = tp_rtx t \<and> tp_replies t' = tp_replies t
     \<and> (tp_sent t' = tp_sent t \<or> tp_sent t' = tp_sent t @ [req]) \<and> (\<exists>es. tp_rx t = es @ tp_rx t')"

lemma send_request_cases:
  obtains e where "send_request req t = (Inl e, t\<lparr>tp_tx := tl (tp_tx t)\<rparr>)"
  | "send_request req t = (Inr (), t\<lparr>tp_tx := tl (tp_tx t), tp_sent := tp_sent t @ [req]\<rparr>)"
proof (cases "tp_tx t")
  case (Cons x xs)
  then show thesis using that by (cases x) (auto simp: send_request_def)
qed (use that(2) in \<open>auto simp: send_request_def\<close>)

lemma send_receive_returns:
  assumes "conn_ok c" and "our_request c sq req"
  shows "\<exists>r t'. send_receive req c = Some (r, c\<lparr>co_transport := t'\<rparr>) \<and> exchanged (co_transport c) req t'
     \<and> (\<forall>h. r = Inr h \<longrightarrow> answers (co_activity_uuid c) sq h \<and> Datagram (enc_rpc h) \<in> set (tp_rx (co_transport c))
          \<and> tp_sent t' = tp_sent (co_transport c) @ [req])"
proof -
  obtain h where h: "parse_rpc_header req = Some (Some h)" "pr_activity_uuid h = co_activity_uuid c"
    "pr_sequence_number h = sq" "\<not> pr_is_little_endian h"
    by (rule our_request_header [OF assms])
  then have u: "drep_normalized_uuid (pr_activity_uuid h) (pr_is_little_endian h) = co_activity_uuid c"
    by (simp add: drep_normalized_uuid_def)
  show ?thesis
  proof (cases rule: send_request_cases [of req "co_transport c"])
    case (1 e)
    then have "send_receive req c = Some (Inl e, c\<lparr>co_transport := (co_transport c)\<lparr>tp_tx := tl (tp_tx (co_transport c))\<rparr>\<rparr>)"
      by (simp add: send_receive_def h)
    then show ?thesis by (intro exI conjI) (auto simp: exchanged_def)
  next
    case 2
    let ?t = "(co_transport c)\<lparr>tp_tx := tl (tp_tx (co_transport c)), tp_sent := tp_sent (co_transport c) @ [req]\<rparr>"
    obtain r t' es where n: "next_rpc_response recv_before_deadline (co_activity_uuid c) sq ?t = Some (r, t')"
      and cs: "consumed ?t t' es" and a: "\<forall>h. r = Inr h \<longrightarrow> answers (co_activity_uuid c) sq h \<and> Datagram (enc_rpc h) \<in> set es"
      using next_response_returns by blast
    have "send_receive req c = Some (r, c\<lparr>co_transport := t'\<rparr>)"
      using 2 n u h by (simp add: send_receive_def)
    moreover have ex: "exchanged (co_transport c) req t' \<and> tp_sent t' = tp_sent (co_transport c) @ [req]"
      using cs unfolding consumed_def exchanged_def
      by (cases t', cases "co_transport c") auto
    moreover have "set es \<subseteq> set (tp_rx (co_transport c))" using cs by (auto simp: consumed_def)
    ultimately show ?thesis using a by blast
  qed
qed

text \<open>
  A continuation that leaves the transport, the identity and the counter of the connection
  alone; the operations differ from \<open>send_receive\<close> only by such a continuation.
\<close>

definition core :: "rpc_conn \<Rightarrow> rpc_conn" where
  "core c = c\<lparr>co_input_frame_id := 0, co_output_frame_id := 0, co_connected := False\<rparr>"

definition quiet :: "'a io \<Rightarrow> bool" where
  "quiet m \<longleftrightarrow> (\<forall>c. \<exists>r c'. m c = Some (r, c') \<and> core c' = core c)"

lemma quietE:
  assumes "quiet m"
  obtains r c' where "m c = Some (r, c')" "core c' = core c"
  using assms unfolding quiet_def by meson

lemma quiet_pure: "r \<noteq> None \<Longrightarrow> quiet (pure_io r)"
  by (auto simp: quiet_def pure_io_def)

lemma quiet_map_err:
  assumes "quiet m"
  shows "quiet (map_err p m)"
  unfolding quiet_def
proof
  fix c
  obtain r c' where "m c = Some (r, c')" "core c' = core c" by (rule quietE [OF assms])
  then show "\<exists>r c'. map_err p m c = Some (r, c') \<and> core c' = core c" by (cases r) (auto simp: map_err_def)
qed

lemma quiet_cbind:
  assumes "quiet m" and "\<And>x. quiet (f x)"
  shows "quiet (cbind m f)"
  unfolding quiet_def
proof
  fix c
  obtain r c' where m: "m c = Some (r, c')" "core c' = core c" by (rule quietE [OF assms(1)])
  show "\<exists>r c'. cbind m f c = Some (r, c') \<and> core c' = core c"
  proof (cases r)
    case (Inr x)
    obtain q c'' where "f x c' = Some (q, c'')" "core c'' = core c'" by (rule quietE [OF assms(2)])
    then show ?thesis using m Inr by (auto simp: cbind_def)
  qed (use m in \<open>auto simp: cbind_def\<close>)
qed

lemma core_fields:
  assumes "core c' = core c"
  shows "co_transport c' = co_transport c" "co_object_uuid c' = co_object_uuid c" "co_activity_uuid c' = co_activity_uuid c"
    "co_ar_uuid c' = co_ar_uuid c" "co_session_key c' = co_session_key c" "co_sequence_number c' = co_sequence_number c"
    "co_timeout c' = co_timeout c"
  using assms by (cases c; cases c'; simp add: core_def)+

text \<open>The contract of a call: it takes the next number, and at most one request under it is sent.\<close>

definition call_ok :: "rpc_conn \<Rightarrow> rpc_conn \<Rightarrow> bool" where
  "call_ok c c' \<longleftrightarrow> co_object_uuid c' = co_object_uuid c \<and> co_activity_uuid c' = co_activity_uuid c
     \<and> co_ar_uuid c' = co_ar_uuid c \<and> co_session_key c' = co_session_key c \<and> co_timeout c' = co_timeout c
     \<and> (co_sequence_number c' = co_sequence_number c \<and> tp_sent (co_transport c') = tp_sent (co_transport c)
        \<or> co_sequence_number c \<noteq> 0xFFFFFFFF \<and> co_sequence_number c' = co_sequence_number c + 1
          \<and> (\<exists>req. our_request c (co_sequence_number c) req \<and> exchanged (co_transport c) req (co_transport c')))"

lemma call_ok_refl: "call_ok c c"
  by (simp add: call_ok_def)

lemma rpc_call:
  fixes K :: "parsed_rpc \<Rightarrow> 'a io"
  assumes "conn_ok c" and "co_sequence_number c \<noteq> 0xFFFFFFFF" and "our_request c (co_sequence_number c) req"
    and K: "\<And>h. quiet (K h)"
  shows "\<exists>r c'. cbind (send_receive req) K (c\<lparr>co_sequence_number := co_sequence_number c + 1\<rparr>) = Some (r, c') \<and> call_ok c c'"
proof -
  let ?c1 = "c\<lparr>co_sequence_number := co_sequence_number c + 1\<rparr>"
  have "conn_ok ?c1" "our_request ?c1 (co_sequence_number c) req" using assms by (simp_all add: conn_ok_def our_request_def)
  from send_receive_returns [OF this] obtain r t' where s: "send_receive req ?c1 = Some (r, ?c1\<lparr>co_transport := t'\<rparr>)"
    and ex: "exchanged (co_transport c) req t'" by auto
  have ok: "call_ok c c2" if "core c2 = core (?c1\<lparr>co_transport := t'\<rparr>)" for c2
    using core_fields [OF that] assms(2,3) ex by (auto simp: call_ok_def)
  show ?thesis
  proof (cases r)
    case (Inl e)
    then show ?thesis using s ok by (auto simp: cbind_def)
  next
    case (Inr h)
    obtain q c2 where "K h (?c1\<lparr>co_transport := t'\<rparr>) = Some (q, c2)" "core c2 = core (?c1\<lparr>co_transport := t'\<rparr>)"
      by (rule quietE [OF K])
    then show ?thesis using s Inr ok by (auto simp: cbind_def)
  qed
qed

section \<open>Every operation is such a call\<close>

lemma next_seq_ok: "co_sequence_number c \<noteq> 0xFFFFFFFF \<Longrightarrow>
    next_seq c = Some (co_sequence_number c, c\<lparr>co_sequence_number := co_sequence_number c + 1\<rparr>)"
  by (simp add: next_seq_def)

lemma our_requests:
  "our_request c sq (rpc_request (co_object_uuid c) IFACE_UUID_DEVICE (co_activity_uuid c) sq op body)"
  "our_request c sq (read_record_request (co_object_uuid c) IFACE_UUID_DEVICE (co_activity_uuid c) u sq a s t i n)"
  "our_request c sq (read_record_implicit_request (co_object_uuid c) IFACE_UUID_DEVICE (co_activity_uuid c) sq a s t i n)"
  "our_request c sq (write_record_request (co_object_uuid c) IFACE_UUID_DEVICE (co_activity_uuid c) u sq a s t i d)"
  "our_request c sq (write_multiple_request (co_object_uuid c) IFACE_UUID_DEVICE (co_activity_uuid c) u sq ws)"
  "our_request c sq (release_request (co_object_uuid c) IFACE_UUID_DEVICE (co_activity_uuid c) u k sq)"
  "our_request c sq (build_device_access_connect_request (co_object_uuid c) IFACE_UUID_DEVICE (co_activity_uuid c) u k m nm sq)"
  "build_connect_request (co_object_uuid c) IFACE_UUID_DEVICE (co_activity_uuid c) u k m nm st sq = Some req \<Longrightarrow>
     our_request c sq req"
  by (auto simp: our_request_def read_record_request_def read_record_implicit_request_def read_request_def
      write_record_request_def write_multiple_request_def release_request_def
      build_device_access_connect_request_def build_connect_request_def bind_eq_Some_conv Let_def)

lemma parse_write_multiple_total: "parse_write_multiple_response d \<noteq> None"
  using wm_walk_Some [of "min (64 + unat (rd32 d 36)) (length d)" d 64]
  by (auto simp: parse_write_multiple_response_def)

lemma quiet_pure_total:
  "quiet (pure_io (parse_read_response d le))" "quiet (pure_io (parse_status_response d le))"
  "quiet (pure_io (parse_connect_response d le))" "quiet (pure_io (Some x))"
  by (intro quiet_pure parse_read_response_total parse_status_response_total parse_connect_response_total; simp)+

lemma next_seq_call:
  assumes "co_sequence_number c \<noteq> 0xFFFFFFFF"
  shows "Option.bind (next_seq c) f = f (co_sequence_number c, c\<lparr>co_sequence_number := co_sequence_number c + 1\<rparr>)"
  using assms by (simp add: next_seq_ok)

lemma read_ops_call:
  assumes "conn_ok c" and "co_sequence_number c \<noteq> 0xFFFFFFFF"
  shows "\<exists>r c'. read_raw i s t n c = Some (r, c') \<and> call_ok c c'"
    and "\<exists>r c'. read_raw_implicit i s t n c = Some (r, c') \<and> call_ok c c'"
    and "\<exists>r c'. rc_write i s t d c = Some (r, c') \<and> call_ok c c'"
    and "\<exists>r c'. write_multiple ws c = Some (r, c') \<and> call_ok c c'"
proof -
  show "\<exists>r c'. read_raw i s t n c = Some (r, c') \<and> call_ok c c'"
    using rpc_call [OF assms our_requests(2) quiet_pure_total(1)]
    by (simp add: read_raw_def next_seq_call [OF assms(2)] send_read_def)
  show "\<exists>r c'. read_raw_implicit i s t n c = Some (r, c') \<and> call_ok c c'"
    using rpc_call [OF assms our_requests(3) quiet_pure_total(1)]
    by (simp add: read_raw_implicit_def next_seq_call [OF assms(2)] send_read_def)
  show "\<exists>r c'. rc_write i s t d c = Some (r, c') \<and> call_ok c c'"
    using rpc_call [OF assms our_requests(4) quiet_cbind [OF quiet_pure_total(2) quiet_pure_total(4)]]
    by (simp add: rc_write_def next_seq_call [OF assms(2)])
  have q: "quiet (pure_io (map_option Inr (parse_write_multiple_response p)))" for p
    using parse_write_multiple_total by (intro quiet_pure) simp
  show "\<exists>r c'. write_multiple ws c = Some (r, c') \<and> call_ok c c'"
    using rpc_call [OF assms our_requests(5) quiet_cbind [OF quiet_pure_total(2) q]] call_ok_refl [of c]
    by (simp add: write_multiple_def next_seq_call [OF assms(2)])
qed

lemma connect_ops_call:
  assumes "conn_ok c" and "co_sequence_number c \<noteq> 0xFFFFFFFF"
  shows "build_connect_request (co_object_uuid c) IFACE_UUID_DEVICE (co_activity_uuid c) (co_ar_uuid c)
      (co_session_key c) m nm st (co_sequence_number c) \<noteq> None \<Longrightarrow>
      \<exists>r c'. rc_connect m nm st c = Some (r, c') \<and> call_ok c c'"
    and "\<exists>r c'. connect_device_access m nm c = Some (r, c') \<and> call_ok c c'"
    and "\<exists>r c'. send_control bt cmd sub c = Some (r, c') \<and> call_ok c c'"
proof -
  have q: "quiet (\<lambda>c. Some (Inr x, c\<lparr>co_input_frame_id := a, co_output_frame_id := b, co_connected := True\<rparr>))"
    "quiet (\<lambda>c. Some (Inr y, c\<lparr>co_connected := True\<rparr>))" for x y a b
    by (auto simp: quiet_def core_def)
  show "\<exists>r c'. rc_connect m nm st c = Some (r, c') \<and> call_ok c c'"
    if b: "build_connect_request (co_object_uuid c) IFACE_UUID_DEVICE (co_activity_uuid c) (co_ar_uuid c)
      (co_session_key c) m nm st (co_sequence_number c) \<noteq> None"
  proof -
    from b obtain req where req: "build_connect_request (co_object_uuid c) IFACE_UUID_DEVICE (co_activity_uuid c) (co_ar_uuid c)
      (co_session_key c) m nm st (co_sequence_number c) = Some req" by blast
    show ?thesis
      using rpc_call [OF assms our_requests(8) [OF req]
          quiet_cbind [OF quiet_map_err [OF quiet_pure_total(3)] q(1)]]
      by (simp add: rc_connect_def next_seq_call [OF assms(2)] req)
  qed
  show "\<exists>r c'. connect_device_access m nm c = Some (r, c') \<and> call_ok c c'"
    using rpc_call [OF assms our_requests(7) quiet_cbind [OF quiet_map_err [OF quiet_pure_total(2)] q(2)]]
    by (simp add: connect_device_access_def next_seq_call [OF assms(2)] Let_def)
  show "\<exists>r c'. send_control bt cmd sub c = Some (r, c') \<and> call_ok c c'"
    using rpc_call [OF assms our_requests(1) quiet_pure_total(2)] call_ok_refl [of c]
    by (simp add: send_control_def next_seq_call [OF assms(2)] Let_def)
qed

lemma app_ready_loop_returns:
  assumes "length (co_ar_uuid c) = 16"
  shows "\<exists>r t'. app_ready_loop terr es c = Some (r, c\<lparr>co_transport := t'\<rparr>)
     \<and> tp_sent t' = tp_sent (co_transport c) \<and> tp_rx t' = tp_rx (co_transport c)"
proof (induction es)
  case Nil
  show ?case by (rule exI [of _ "Inl terr"], rule exI [of _ "(co_transport c)\<lparr>tp_cc := []\<rparr>"]) simp
next
  case (Cons ev es)
  have stop: "\<exists>r t'. Some (q :: string + bytes, c\<lparr>co_transport := (co_transport c)\<lparr>tp_cc := es\<rparr>\<rparr>)
      = Some (r, c\<lparr>co_transport := t'\<rparr>)
      \<and> tp_sent t' = tp_sent (co_transport c) \<and> tp_rx t' = tp_rx (co_transport c)" for q
    by (rule exI [of _ q], rule exI [of _ "(co_transport c)\<lparr>tp_cc := es\<rparr>"]) simp
  show ?case
  proof (cases ev)
    case (Datagram d)
    obtain x where x: "extract_app_ready d = Some x" using extract_app_ready_total by blast
    show ?thesis
    proof (cases x)
      case None
      then show ?thesis using Cons Datagram x by (auto simp: Let_def)
    next
      case (Some p)
      obtain hdr cc where p: "p = (hdr, cc)" by (cases p)
      obtain resp where resp: "ccontrol_response hdr (co_ar_uuid c) (co_session_key c) = Some resp"
        using ccontrol_response_total by blast
      let ?t = "(co_transport c)\<lparr>tp_cc := es\<rparr>"
      obtain q t' where q: "reply_ccontrol resp ?t = (q, t')" by (cases "reply_ccontrol resp ?t")
      have t': "tp_sent t' = tp_sent (co_transport c)" "tp_rx t' = tp_rx (co_transport c)"
        using q by (auto simp: reply_ccontrol_def split: list.splits option.splits)
      show ?thesis using Datagram x Some p resp q t' by (cases q) (auto simp: Let_def)
    qed
  qed (use stop in \<open>simp_all add: Let_def\<close>)
qed

lemma application_ready_returns:
  assumes "conn_ok c"
  shows "\<exists>r c'. application_ready n c = Some (r, c') \<and> call_ok c c'"
proof (cases "co_connected c")
  case True
  then show ?thesis
    using app_ready_loop_returns [of c "''No ApplicationReady from '' @ tp_peer (co_transport c) @ '' within ''
        @ dec_nat (round_secs n) @ ''s''" "tp_cc (co_transport c)"] assms
    by (auto simp: application_ready_def conn_ok_def call_ok_def)
qed (simp add: application_ready_def call_ok_refl)

lemma read_diagnosis_call:
  assumes "conn_ok c" and "co_sequence_number c \<noteq> 0xFFFFFFFF"
  shows "\<exists>r c'. read_diagnosis s t i c = Some (r, c') \<and> call_ok c c'"
proof -
  obtain r c' where r: "read_raw i s t READ_LENGTH c = Some (r, c')" "call_ok c c'"
    using read_ops_call(1) [OF assms] by blast
  show ?thesis
  proof (cases r)
    case (Inr d)
    obtain x y where "parse_diagnosis_block d 0 s t = Some x" "parse_diagnosis_simple d 0 s t = Some y"
      using diagnosis_parsers_run [of d 0 s t] by (auto simp: runs_iff)
    then show ?thesis using r Inr by (auto simp: read_diagnosis_def)
  qed (use r in \<open>simp add: read_diagnosis_def\<close>)
qed

lemma release_call:
  assumes "co_sequence_number c \<noteq> 0xFFFFFFFF"
  shows "\<exists>c'. release c = Some c' \<and> call_ok c c'"
proof (cases "co_connected c")
  case True
  let ?c1 = "c\<lparr>co_sequence_number := co_sequence_number c + 1\<rparr>"
  let ?req = "release_request (co_object_uuid c) IFACE_UUID_DEVICE (co_activity_uuid c) (co_ar_uuid c)
    (co_session_key c) (co_sequence_number c)"
  have "exchanged (co_transport c) ?req (snd (send_request ?req (co_transport c)))"
    by (cases rule: send_request_cases [of ?req "co_transport c"]) (auto simp: exchanged_def)
  then show ?thesis
    using True assms our_requests(6) [of c "co_sequence_number c" "co_ar_uuid c" "co_session_key c"]
    by (auto simp: release_def next_seq_call [OF assms] Let_def call_ok_def)
qed (simp add: release_def call_ok_refl)

section \<open>The connection as a state machine\<close>

text \<open>
  One step is one call of a public operation. The I\&M, PDRealData and identification reads are
  a \<open>Read\<close> step followed by a pure parser, and reading all diagnosis records is a sequence of
  \<open>Diagnosis\<close> steps.
\<close>

inductive conn_step :: "rpc_conn \<Rightarrow> rpc_conn \<Rightarrow> bool" where
  Connect: "rc_connect m nm st c = Some (r, c') \<Longrightarrow> conn_step c c'"
| DeviceAccess: "connect_device_access m nm c = Some (r, c') \<Longrightarrow> conn_step c c'"
| Control: "send_control bt cmd sub c = Some (r, c') \<Longrightarrow> conn_step c c'"
| AppReady: "application_ready n c = Some (r, c') \<Longrightarrow> conn_step c c'"
| Read: "read_raw i s t l c = Some (r, c') \<Longrightarrow> conn_step c c'"
| ReadImplicit: "read_raw_implicit i s t l c = Some (r, c') \<Longrightarrow> conn_step c c'"
| Write: "rc_write i s t d c = Some (r, c') \<Longrightarrow> conn_step c c'"
| WriteMultiple: "write_multiple ws c = Some (r, c') \<Longrightarrow> conn_step c c'"
| Diagnosis: "read_diagnosis s t i c = Some (dg, c') \<Longrightarrow> conn_step c c'"
| Release: "release c = Some c' \<Longrightarrow> conn_step c c'"

inductive_cases conn_stepE: "conn_step c c'"

lemma no_number_left:
  assumes "co_sequence_number c = 0xFFFFFFFF"
  shows "rc_connect m nm st c = None" "connect_device_access m nm c = None" "read_raw i s t l c = None"
    "read_raw_implicit i s t l c = None" "rc_write i s t d c = None" "read_diagnosis s t i c = None"
    "co_connected c \<Longrightarrow> send_control bt cmd sub c = None" "co_connected c \<Longrightarrow> release c = None"
    "ws \<noteq> [] \<Longrightarrow> write_multiple ws c = None"
  using assms
  by (simp_all add: rc_connect_def connect_device_access_def read_raw_def read_raw_implicit_def rc_write_def
      read_diagnosis_def send_control_def release_def write_multiple_def next_seq_def Let_def)

lemma uncalled:
  "\<not> co_connected c \<Longrightarrow> send_control bt cmd sub c = Some (Inl ''Not connected'', c)"
  "\<not> co_connected c \<Longrightarrow> application_ready n c = Some (Inl ''Not connected'', c)"
  "\<not> co_connected c \<Longrightarrow> release c = Some c" "write_multiple [] c = Some (Inr [], c)"
  by (simp_all add: send_control_def application_ready_def release_def write_multiple_def)

lemma conn_step_call:
  assumes "conn_step c c'" and "conn_ok c"
  shows "call_ok c c'"
proof (cases "co_sequence_number c = 0xFFFFFFFF")
  case True
  note none = no_number_left [OF True]
  show ?thesis using assms(1)
  proof (cases rule: conn_step.cases)
    case (AppReady n r)
    then show ?thesis using application_ready_returns [OF assms(2), of n] by auto
  next
    case (Control bt cmd sub r)
    then show ?thesis using none uncalled(1) call_ok_refl by (cases "co_connected c") auto
  next
    case (WriteMultiple ws r)
    then show ?thesis using none uncalled(4) call_ok_refl by (cases "ws = []") auto
  next
    case Release
    then show ?thesis using none uncalled(3) call_ok_refl by (cases "co_connected c") auto
  qed (use none in auto)
next
  case False
  show ?thesis using assms(1)
  proof (cases rule: conn_step.cases)
    case (Connect m nm st r)
    then have "build_connect_request (co_object_uuid c) IFACE_UUID_DEVICE (co_activity_uuid c) (co_ar_uuid c)
      (co_session_key c) m nm st (co_sequence_number c) \<noteq> None"
      by (auto simp: rc_connect_def next_seq_call [OF False] bind_eq_Some_conv)
    then show ?thesis using connect_ops_call(1) [OF assms(2) False] Connect by fastforce
  next
    case (DeviceAccess m nm r)
    then show ?thesis using connect_ops_call(2) [OF assms(2) False, of m nm] by auto
  next
    case (Control bt cmd sub r)
    then show ?thesis using connect_ops_call(3) [OF assms(2) False, of bt cmd sub] by auto
  next
    case (AppReady n r)
    then show ?thesis using application_ready_returns [OF assms(2), of n] by auto
  next
    case (Read i s t l r)
    then show ?thesis using read_ops_call(1) [OF assms(2) False, of i s t l] by auto
  next
    case (ReadImplicit i s t l r)
    then show ?thesis using read_ops_call(2) [OF assms(2) False, of i s t l] by auto
  next
    case (Write i s t d r)
    then show ?thesis using read_ops_call(3) [OF assms(2) False, of i s t d] by auto
  next
    case (WriteMultiple ws r)
    then show ?thesis using read_ops_call(4) [OF assms(2) False, of ws] by auto
  next
    case (Diagnosis s t i dg)
    then show ?thesis using read_diagnosis_call [OF assms(2) False, of s t i] by auto
  next
    case Release
    then show ?thesis using release_call [OF False] by auto
  qed
qed

text \<open>The numbers of the requests on the wire.\<close>

definition req_seq :: "bytes \<Rightarrow> u32" where
  "req_seq req = pr_sequence_number (rpc_header_of req)"

definition log_inv :: "rpc_conn \<Rightarrow> bool" where
  "log_inv c \<longleftrightarrow> conn_ok c
     \<and> (\<forall>req \<in> set (tp_sent (co_transport c)). our_request c (req_seq req) req \<and> req_seq req < co_sequence_number c)
     \<and> sorted_wrt (<) (map req_seq (tp_sent (co_transport c)))"

lemma req_seq_our: "conn_ok c \<Longrightarrow> our_request c sq req \<Longrightarrow> req_seq req = sq"
  by (auto simp: our_request_def req_seq_def rpc_request_enc rpc_header_of_enc request_header_ok conn_ok_def)
     (simp add: request_header_def)

lemma u32_less_Suc: "n \<noteq> 0xFFFFFFFF \<Longrightarrow> x \<le> n \<Longrightarrow> x < n + (1 :: u32)"
proof -
  assume n: "n \<noteq> 0xFFFFFFFF" and x: "x \<le> n"
  have "unat n \<noteq> unat (0xFFFFFFFF :: u32)" using n by (metis word_unat_eq_iff)
  then have "unat n + 1 < 4294967296" using unat_u32_lt [of n] by simp
  then have "unat (n + 1) = unat n + 1" by (simp add: unat_word_ariths)
  then show "x < n + 1" using x by (simp add: word_less_nat_alt word_le_nat_alt)
qed

lemma log_inv_call:
  assumes "log_inv c" and "call_ok c c'"
  shows "log_inv c'"
proof -
  have our: "our_request c' sq req = our_request c sq req" for sq req
    using assms(2) by (simp add: call_ok_def our_request_def)
  have ok: "conn_ok c'" using assms by (simp add: log_inv_def call_ok_def conn_ok_def)
  show ?thesis
  proof (cases "co_sequence_number c' = co_sequence_number c \<and> tp_sent (co_transport c') = tp_sent (co_transport c)")
    case True
    then show ?thesis using assms(1) ok our by (simp add: log_inv_def)
  next
    case False
    then obtain req where n: "co_sequence_number c \<noteq> 0xFFFFFFFF" "co_sequence_number c' = co_sequence_number c + 1"
      and req: "our_request c (co_sequence_number c) req" and
        sent: "tp_sent (co_transport c') = tp_sent (co_transport c) \<or> tp_sent (co_transport c') = tp_sent (co_transport c) @ [req]"
      using assms(2) by (auto simp: call_ok_def exchanged_def)
    have seq: "req_seq req = co_sequence_number c" using req_seq_our assms(1) req by (auto simp: log_inv_def)
    have lt: "x \<le> co_sequence_number c \<Longrightarrow> x < co_sequence_number c'" for x using u32_less_Suc n by simp
    show ?thesis
      using sent assms(1) ok our req seq lt by (auto simp: log_inv_def sorted_wrt_append less_imp_le)
  qed
qed

lemma conn_steps_inv: "conn_step\<^sup>*\<^sup>* c0 c \<Longrightarrow> log_inv c0 \<Longrightarrow> log_inv c"
proof (induction rule: rtranclp_induct)
  case (step y z)
  then have y: "log_inv y" by blast
  then have "conn_ok y" by (simp only: log_inv_def)
  show ?case by (rule log_inv_call [OF y conn_step_call [OF step.hyps(2) \<open>conn_ok y\<close>]])
qed simp

section \<open>Properties of the connection\<close>

lemma with_transport_inv:
  assumes "with_transport t dev ven timeout (Inr k) (Inr act) (Inr ar) = Inr c"
    and "length act = 16" and "length ar = 16" and "tp_sent t = []"
  shows "log_inv c" "\<not> co_connected c" "co_sequence_number c = 0" "co_transport c = t" "co_activity_uuid c = act"
  using assms
  by (auto simp: with_transport_def log_inv_def conn_ok_def object_uuid_def OBJECT_UUID_PREFIX_def split: if_splits)

lemma our_request_parsed:
  "conn_ok c \<Longrightarrow> our_request c sq req \<Longrightarrow> \<exists>h. parse_rpc_header req = Some (Some h) \<and> pr_packet_type h = PACKET_TYPE_REQUEST
     \<and> pr_activity_uuid h = co_activity_uuid c \<and> pr_object_uuid h = co_object_uuid c \<and> pr_sequence_number h = sq"
  by (erule (1) our_request_header) (auto simp: packet_type_defs)

text \<open>
  C21: The requests of a connection are numbered uniquely. Through any sequence of operations on a
  connection, whatever the transport delivers, every datagram it has sent is a well-formed RPC
  request under the connection's activity and object UUID, their sequence numbers are strictly
  increasing (so no two are equal: in a build with overflow checks the counter panics rather than wrap), all below the next
  number, and the session key is not zero.
\<close>

theorem conn_sequence_unique:
  assumes "with_transport t dev ven timeout (Inr k) (Inr act) (Inr ar) = Inr c0"
    and "length act = 16" and "length ar = 16" and "tp_sent t = []" and "conn_step\<^sup>*\<^sup>* c0 c"
  shows "sorted_wrt (<) (map req_seq (tp_sent (co_transport c))) \<and> co_session_key c \<noteq> 0
    \<and> (\<forall>req \<in> set (tp_sent (co_transport c)). req_seq req < co_sequence_number c
        \<and> (\<exists>h. parse_rpc_header req = Some (Some h) \<and> pr_packet_type h = PACKET_TYPE_REQUEST
            \<and> pr_activity_uuid h = co_activity_uuid c \<and> pr_object_uuid h = co_object_uuid c
            \<and> pr_sequence_number h = req_seq req))"
  using conn_steps_inv [OF assms(5) with_transport_inv(1) [OF assms(1-4)]] our_request_parsed
  unfolding log_inv_def conn_ok_def by blast

definition sample_transport :: "rx_event list \<Rightarrow> transport" where
  "sample_transport rx = \<lparr>tp_peer = ''device'', tp_rx = rx, tp_cc = [], tp_tx = [], tp_rtx = [], tp_sent = [], tp_replies = []\<rparr>"

definition sample_conn :: "rx_event list \<Rightarrow> rpc_conn" where
  "sample_conn rx = projr (with_transport (sample_transport rx) 1 2 5 (Inr 0) (Inr (replicate 16 7)) (Inr (replicate 16 8)))"

lemma sample_conn_new:
  "with_transport (sample_transport rx) 1 2 5 (Inr 0) (Inr (replicate 16 7)) (Inr (replicate 16 8)) = Inr (sample_conn rx)"
  by (simp add: sample_conn_def with_transport_def)

lemma sample_conn_ok: "conn_ok (sample_conn rx)" "co_sequence_number (sample_conn rx) = 0"
    "co_transport (sample_conn rx) = sample_transport rx" "co_activity_uuid (sample_conn rx) = replicate 16 7"
  using with_transport_inv [OF sample_conn_new [of rx]] by (simp_all add: log_inv_def sample_transport_def)

theorem conn_sequence_unique_witness:
  "\<exists>c. conn_step\<^sup>*\<^sup>* (sample_conn [TimedOut]) c \<and> sorted_wrt (<) (map req_seq (tp_sent (co_transport c)))
     \<and> co_session_key c \<noteq> 0"
proof -
  obtain r c where r: "read_raw 1 0 1 4096 (sample_conn [TimedOut]) = Some (r, c)"
    using read_ops_call(1) [OF sample_conn_ok(1), of "[TimedOut]"] sample_conn_ok(2) by fastforce
  then have "conn_step\<^sup>*\<^sup>* (sample_conn [TimedOut]) c" by (blast intro: conn_step.Read)
  then show ?thesis
    using conn_sequence_unique [OF sample_conn_new, of "[TimedOut]" c] by (auto simp: sample_transport_def)
qed



text \<open>Traffic the loop skips, and datagrams that end it.\<close>

definition foreign :: "bytes \<Rightarrow> u32 \<Rightarrow> bytes \<Rightarrow> bool" where
  "foreign u sq d \<longleftrightarrow> 80 \<le> length d \<and> (d ! 1 = 0 \<or> d ! 1 = 2 \<and> \<not> answers u sq (rpc_header_of d))"

definition hostile :: "bytes \<Rightarrow> bool" where
  "hostile d \<longleftrightarrow> length d < 80 \<or> d ! 1 \<noteq> 0 \<and> d ! 1 \<noteq> 2"

lemma rpc_header_type: "pr_packet_type (rpc_header_of d) = d ! 1"
  by (simp add: rpc_header_of_def Let_def)

lemma next_response_skip:
  assumes "foreign u sq d" and "tp_rx t = Datagram d # es"
  shows "next_rpc_response recv_before_deadline u sq t = next_rpc_response recv_before_deadline u sq (t\<lparr>tp_rx := es\<rparr>)"
proof -
  have r: "recv_before_deadline t = (Inr d, t\<lparr>tp_rx := es\<rparr>)" using assms(2) by (simp add: recv_before_deadline_def)
  have "the (parse_rpc_response d) = (if d ! 1 = 0 then Inr None else Inr (Some (rpc_header_of d)))"
    using assms(1) by (auto simp: parse_rpc_response_eq foreign_def Let_def)
  then show ?thesis using assms(1) rpc_header_type [of d]
    by (subst next_response_step) (auto simp: r foreign_def answers_def)
qed

lemma next_response_skips:
  "\<forall>d \<in> set ds. foreign u sq d \<Longrightarrow> tp_rx t = map Datagram ds @ es \<Longrightarrow>
   next_rpc_response recv_before_deadline u sq t = next_rpc_response recv_before_deadline u sq (t\<lparr>tp_rx := es\<rparr>)"
proof (induction ds arbitrary: t)
  case (Cons d ds)
  then show ?case using next_response_skip [of u sq d t "map Datagram ds @ es"] Cons.IH [of "t\<lparr>tp_rx := map Datagram ds @ es\<rparr>"]
    by simp
next
  case Nil
  then show ?case by (cases t) simp
qed

lemma next_response_hit:
  assumes "answers u sq h" and "rpc_ok h" and "tp_rx t = Datagram (enc_rpc h) # es"
  shows "next_rpc_response recv_before_deadline u sq t = Some (Inr h, t\<lparr>tp_rx := es\<rparr>)"
proof -
  have r: "recv_before_deadline t = (Inr (enc_rpc h), t\<lparr>tp_rx := es\<rparr>)" using assms(3) by (simp add: recv_before_deadline_def)
  have "the (parse_rpc_response (enc_rpc h)) = Inr (Some h)"
    using assms(1) enc_rpc_front(2) [OF assms(2)]
    by (simp add: parse_rpc_response_eq Let_def length_enc_rpc [OF assms(2)] rpc_header_of_enc [OF assms(2)] answers_def)
  then show ?thesis using assms(1) by (subst next_response_step) (simp add: r answers_def)
qed

lemma next_response_end:
  assumes "hostile d" and "tp_rx t = Datagram d # es"
  shows "\<exists>e. next_rpc_response recv_before_deadline u sq t = Some (Inl e, t\<lparr>tp_rx := es\<rparr>)"
proof -
  have r: "recv_before_deadline t = (Inr d, t\<lparr>tp_rx := es\<rparr>)" using assms(2) by (simp add: recv_before_deadline_def)
  have "\<exists>e. the (parse_rpc_response d) = Inl e"
    using assms(1) by (auto simp: parse_rpc_response_eq hostile_def Let_def)
  then show ?thesis by (subst next_response_step) (auto simp: r)
qed

text \<open>The connection after a call whose request was sent and whose loop stopped before \<open>es\<close>.\<close>

definition after_call :: "rpc_conn \<Rightarrow> bytes \<Rightarrow> rx_event list \<Rightarrow> rpc_conn" where
  "after_call c req es =
     c\<lparr>co_sequence_number := co_sequence_number c + 1,
       co_transport := (co_transport c)\<lparr>tp_tx := tl (tp_tx (co_transport c)), tp_sent := tp_sent (co_transport c) @ [req],
         tp_rx := es\<rparr>\<rparr>"

definition sends_ok :: "transport \<Rightarrow> bool" where
  "sends_ok t \<longleftrightarrow> (case tp_tx t of Some e # _ \<Rightarrow> False | _ \<Rightarrow> True)"

lemma send_request_ok:
  "sends_ok t \<Longrightarrow> send_request req t = (Inr (), t\<lparr>tp_tx := tl (tp_tx t), tp_sent := tp_sent t @ [req]\<rparr>)"
  by (auto simp: sends_ok_def send_request_def split: list.splits option.splits)

lemma send_receive_stream:
  assumes "conn_ok c" and "our_request c (co_sequence_number c) req" and "sends_ok (co_transport c)"
    and "next_rpc_response recv_before_deadline (co_activity_uuid c) (co_sequence_number c)
      ((co_transport c)\<lparr>tp_tx := tl (tp_tx (co_transport c)), tp_sent := tp_sent (co_transport c) @ [req]\<rparr>) =
      Some (r, (co_transport c)\<lparr>tp_tx := tl (tp_tx (co_transport c)), tp_sent := tp_sent (co_transport c) @ [req], tp_rx := es\<rparr>)"
  shows "send_receive req (c\<lparr>co_sequence_number := co_sequence_number c + 1\<rparr>) = Some (r, after_call c req es)"
proof -
  obtain h where h: "parse_rpc_header req = Some (Some h)" "pr_activity_uuid h = co_activity_uuid c"
    "pr_sequence_number h = co_sequence_number c" "\<not> pr_is_little_endian h"
    by (rule our_request_header [OF assms(1,2)])
  then show ?thesis using assms(4) send_request_ok [OF assms(3)]
    by (simp add: send_receive_def drep_normalized_uuid_def after_call_def)
qed

definition read_request_of :: "rpc_conn \<Rightarrow> u16 \<Rightarrow> u16 \<Rightarrow> u16 \<Rightarrow> u32 \<Rightarrow> bytes" where
  "read_request_of c i s u l = read_record_request (co_object_uuid c) IFACE_UUID_DEVICE (co_activity_uuid c) (co_ar_uuid c)
     (co_sequence_number c) 0 s u i l"

lemma read_raw_stream:
  assumes "conn_ok c" and "co_sequence_number c \<noteq> 0xFFFFFFFF" and "sends_ok (co_transport c)"
    and "\<forall>d \<in> set ds. foreign (co_activity_uuid c) (co_sequence_number c) d"
    and "tp_rx (co_transport c) = map Datagram ds @ Datagram d # es"
  shows "answers (co_activity_uuid c) (co_sequence_number c) h \<Longrightarrow> rpc_ok h \<Longrightarrow> d = enc_rpc h \<Longrightarrow>
      read_raw i s u l c = pure_io (parse_read_response (pr_payload h) (pr_is_little_endian h))
        (after_call c (read_request_of c i s u l) es)"
    and "hostile d \<Longrightarrow> \<exists>e. read_raw i s u l c = Some (Inl e, after_call c (read_request_of c i s u l) es)"
proof -
  let ?req = "read_request_of c i s u l"
  let ?t = "(co_transport c)\<lparr>tp_tx := tl (tp_tx (co_transport c)), tp_sent := tp_sent (co_transport c) @ [?req]\<rparr>"
  note n = next_response_skips [OF assms(4), of ?t "Datagram d # es"] assms(5)
  have our: "our_request c (co_sequence_number c) ?req" unfolding read_request_of_def by (rule our_requests(2))
  have rr: "read_raw i s u l c = send_read ?req (c\<lparr>co_sequence_number := co_sequence_number c + 1\<rparr>)"
    by (simp add: read_raw_def next_seq_call [OF assms(2)] read_request_of_def)
  show "read_raw i s u l c = pure_io (parse_read_response (pr_payload h) (pr_is_little_endian h)) (after_call c ?req es)"
    if h: "answers (co_activity_uuid c) (co_sequence_number c) h" "rpc_ok h" "d = enc_rpc h"
  proof -
    have "send_receive ?req (c\<lparr>co_sequence_number := co_sequence_number c + 1\<rparr>) = Some (Inr h, after_call c ?req es)"
      using n next_response_hit [OF h(1,2), of "?t\<lparr>tp_rx := Datagram d # es\<rparr>" es] h(3)
      by (intro send_receive_stream [OF assms(1) our assms(3)]) simp
    then show ?thesis by (simp add: rr send_read_def cbind_def)
  qed
  show "\<exists>e. read_raw i s u l c = Some (Inl e, after_call c ?req es)" if hd: "hostile d"
  proof -
    obtain e where "next_rpc_response recv_before_deadline (co_activity_uuid c) (co_sequence_number c)
        (?t\<lparr>tp_rx := Datagram d # es\<rparr>) = Some (Inl e, ?t\<lparr>tp_rx := es\<rparr>)"
      using next_response_end [OF hd, of "?t\<lparr>tp_rx := Datagram d # es\<rparr>" es] by auto
    then have "send_receive ?req (c\<lparr>co_sequence_number := co_sequence_number c + 1\<rparr>) = Some (Inl e, after_call c ?req es)"
      using n by (intro send_receive_stream [OF assms(1) our assms(3)]) simp
    then show ?thesis by (auto simp: rr send_read_def cbind_def)
  qed
qed

lemma read_response_body:
  "length iod = 64 \<Longrightarrow> parse_read_response (nrd_body le 0 mx (iod @ rec)) le = Some (Inr rec)"
  by (simp add: parse_read_response_def parse_nrd_eq nrd_of_body parse_iod_header_eq iod_of_def)

text \<open>
  C23: A record read returns what the device sent. Whatever echoed requests, late answers to other
  requests and answers to other controllers arrive first, the response that carries our activity
  UUID (in the byte order of its own DREP) and the sequence number of this request is the one
  taken, in either byte order; the record behind its NRD and IOD headers is the result, the
  request is on the wire once, and the datagrams behind the response are left unread.
\<close>

theorem read_returns_record:
  assumes "conn_ok c" and "co_sequence_number c \<noteq> 0xFFFFFFFF" and "sends_ok (co_transport c)"
    and "\<forall>d \<in> set ds. foreign (co_activity_uuid c) (co_sequence_number c) d"
    and "tp_rx (co_transport c) = map Datagram ds @ Datagram (enc_rpc h) # es"
    and "rpc_ok h" and "pr_packet_type h = PACKET_TYPE_RESPONSE" and "pr_sequence_number h = co_sequence_number c"
    and "pr_activity_uuid h = drep_normalized_uuid (co_activity_uuid c) (pr_is_little_endian h)"
    and "pr_payload h = nrd_body (pr_is_little_endian h) 0 mx (iod @ rec)" and "length iod = 64"
  shows "\<exists>c'. read_raw i s u l c = Some (Inr rec, c') \<and> tp_rx (co_transport c') = es
    \<and> tp_sent (co_transport c') = tp_sent (co_transport c) @ [read_request_of c i s u l]
    \<and> co_sequence_number c' = co_sequence_number c + 1"
proof -
  have "answers (co_activity_uuid c) (co_sequence_number c) h"
    using assms(1,7-9) by (simp add: answers_def packet_type_defs drep_normalized_involution conn_ok_def)
  from read_raw_stream(1) [OF assms(1-5) this assms(6) refl] show ?thesis
    using assms(10,11) by (simp add: pure_io_def read_response_body after_call_def)
qed

definition sample_answer :: "bytes \<Rightarrow> parsed_rpc" where
  "sample_answer rec = (request_header (replicate 16 0) IFACE_UUID_DEVICE (replicate 16 7) 0 2
     (nrd_body True 0 4096 (replicate 64 0 @ rec)))
     \<lparr>pr_packet_type := 2, pr_drep := [0x10, 0, 0], pr_is_little_endian := True\<rparr>"

lemma sample_answer_ok:
  "rpc_ok (sample_answer rec)" "pr_packet_type (sample_answer rec) = 2" "pr_sequence_number (sample_answer rec) = 0"
  "pr_activity_uuid (sample_answer rec) = replicate 16 7" "pr_is_little_endian (sample_answer rec)"
  "pr_payload (sample_answer rec) = nrd_body True 0 4096 (replicate 64 0 @ rec)"
  by (simp_all add: sample_answer_def rpc_ok_def request_header_def)

lemma sample_uuid: "drep_normalized_uuid (replicate 16 7) True = replicate 16 7"
  by code_simp

theorem read_returns_record_witness:
  "\<exists>c'. read_raw 0xAFF0 0 1 4096 (sample_conn [Datagram (replicate 80 0), Datagram (enc_rpc (sample_answer [5, 6]))])
     = Some (Inr [5, 6], c')"
proof -
  let ?c = "sample_conn [Datagram (replicate 80 0), Datagram (enc_rpc (sample_answer [5, 6]))]"
  have "\<forall>d \<in> set [replicate 80 0]. foreign (co_activity_uuid ?c) (co_sequence_number ?c) d"
    by (simp add: foreign_def)
  moreover have "tp_rx (co_transport ?c) = map Datagram [replicate 80 0] @ Datagram (enc_rpc (sample_answer [5, 6])) # []"
    by (simp add: sample_conn_ok sample_transport_def)
  moreover have "sends_ok (co_transport ?c)" by (simp add: sample_conn_ok sample_transport_def sends_ok_def)
  ultimately show ?thesis
    using read_returns_record [of ?c "[replicate 80 0]" "sample_answer [5, 6]" "[]" 4096 "replicate 64 0" "[5, 6]" "0xAFF0" 0 1 4096]
      sample_answer_ok [of "[5, 6]"] sample_conn_ok sample_uuid
    by (auto simp: packet_type_defs)
qed

text \<open>
  C26: A datagram that is not even addressed to the request ends the call. When, before the
  device's answer, any datagram shorter than an RPC header or of a type other than request and
  response (a fault, a reject) arrives, whatever its activity UUID and sequence number, the read
  returns an error and the answer behind it stays unread.
\<close>

theorem foreign_fault_aborts:
  assumes "conn_ok c" and "co_sequence_number c \<noteq> 0xFFFFFFFF" and "sends_ok (co_transport c)"
    and "tp_rx (co_transport c) = Datagram d # es" and "hostile d"
  shows "\<exists>e c'. read_raw i s u l c = Some (Inl e, c') \<and> tp_rx (co_transport c') = es"
proof -
  have "tp_rx (co_transport c) = map Datagram [] @ Datagram d # es" using assms(4) by simp
  from read_raw_stream(2) [OF assms(1-3) _ this assms(5)] obtain e where
    "read_raw i s u l c = Some (Inl e, after_call c (read_request_of c i s u l) es)"
    by (metis empty_iff list.set(1))
  then show ?thesis by (auto simp: after_call_def)
qed

theorem foreign_fault_aborts_witness:
  "\<exists>e c'. read_raw 0xAFF0 0 1 4096 (sample_conn [Datagram (4 # 3 # replicate 80 0), Datagram (enc_rpc (sample_answer [5, 6]))])
     = Some (Inl e, c') \<and> tp_rx (co_transport c') = [Datagram (enc_rpc (sample_answer [5, 6]))]"
  using foreign_fault_aborts [of "sample_conn [Datagram (4 # 3 # replicate 80 0), Datagram (enc_rpc (sample_answer [5, 6]))]"
      "4 # 3 # replicate 80 0" "[Datagram (enc_rpc (sample_answer [5, 6]))]" "0xAFF0" 0 1 4096] sample_conn_ok
  by (auto simp: sample_transport_def sends_ok_def hostile_def)

lemma call_answered:
  assumes "conn_ok c" and "our_request c (co_sequence_number c) req"
    and "cbind (send_receive req) K (c\<lparr>co_sequence_number := co_sequence_number c + 1\<rparr>) = Some (Inr x, c')"
  shows "\<exists>h c2. answers (co_activity_uuid c) (co_sequence_number c) h \<and> Datagram (enc_rpc h) \<in> set (tp_rx (co_transport c))
     \<and> K h c2 = Some (Inr x, c')"
proof -
  let ?c1 = "c\<lparr>co_sequence_number := co_sequence_number c + 1\<rparr>"
  have "conn_ok ?c1" "our_request ?c1 (co_sequence_number c) req" using assms by (simp_all add: conn_ok_def our_request_def)
  from send_receive_returns [OF this] obtain r t' where s: "send_receive req ?c1 = Some (r, ?c1\<lparr>co_transport := t'\<rparr>)"
    and a: "\<forall>h. r = Inr h \<longrightarrow> answers (co_activity_uuid c) (co_sequence_number c) h \<and> Datagram (enc_rpc h) \<in> set (tp_rx (co_transport c))"
    by auto
  show ?thesis using s a assms(3) by (cases r) (auto simp: cbind_def)
qed

lemma pure_io_Inr: "pure_io r c = Some (Inr x, c') \<longleftrightarrow> r = Some (Inr x) \<and> c' = c"
  by (cases r) (auto simp: pure_io_def)

lemma cbind_Inr: "cbind m f c = Some (Inr y, c') \<longleftrightarrow> (\<exists>x c1. m c = Some (Inr x, c1) \<and> f x c1 = Some (Inr y, c'))"
  by (auto simp: cbind_def split: option.splits sum.splits prod.splits)

lemma map_err_Inr: "map_err p m c = Some (Inr x, c') \<longleftrightarrow> m c = Some (Inr x, c')"
  by (auto simp: map_err_def split: option.splits sum.splits prod.splits)

lemma next_seq_bind_Some:
  "Option.bind (next_seq c) f = Some y \<longleftrightarrow> co_sequence_number c \<noteq> 0xFFFFFFFF
     \<and> f (co_sequence_number c, c\<lparr>co_sequence_number := co_sequence_number c + 1\<rparr>) = Some y"
  by (simp add: next_seq_def)

lemma connect_answered:
  assumes "conn_ok c" and "rc_connect m nm st c = Some (Inr res, c')"
  shows "\<exists>h. answers (co_activity_uuid c) (co_sequence_number c) h \<and> Datagram (enc_rpc h) \<in> set (tp_rx (co_transport c))
     \<and> parse_connect_response (pr_payload h) (pr_is_little_endian h) = Some (Inr res)
     \<and> co_connected c' \<and> co_input_frame_id c' = cr_input_frame_id res \<and> co_output_frame_id c' = cr_output_frame_id res"
proof -
  obtain req where req: "build_connect_request (co_object_uuid c) IFACE_UUID_DEVICE (co_activity_uuid c) (co_ar_uuid c)
      (co_session_key c) m nm st (co_sequence_number c) = Some req"
    and b: "cbind (send_receive req) (\<lambda>resp. cbind (map_err ''Failed to connect: ''
       (pure_io (parse_connect_response (pr_payload resp) (pr_is_little_endian resp))))
         (\<lambda>result c2. Some (Inr result, c2\<lparr>co_input_frame_id := cr_input_frame_id result,
            co_output_frame_id := cr_output_frame_id result, co_connected := True\<rparr>)))
       (c\<lparr>co_sequence_number := co_sequence_number c + 1\<rparr>) = Some (Inr res, c')"
    using assms(2) no_number_left(1) [of c m nm st]
    by (cases "co_sequence_number c = 0xFFFFFFFF")
       (auto simp: rc_connect_def next_seq_call simp del: bind_eq_Some_conv split: bind_splits)
  from call_answered [OF assms(1) our_requests(8) [OF req] b] show ?thesis
    by (auto simp: cbind_Inr map_err_Inr pure_io_Inr)
qed

text \<open>
  C22: A result is only taken from the answer to this very request. When a read, a write, a control
  command or a connect succeeds, there is a received datagram of type RESPONSE whose activity UUID
  is, in the byte order of its DREP, the connection's and whose sequence number is the one of this
  request, and the result is what the parser reads out of that datagram's payload; a successful
  connect has moreover stored the frame ids the device assigned and marked the AR established.
\<close>

theorem response_is_ours:
  assumes "conn_ok c"
  shows "(read_raw i s u l c = Some (Inr data, c1) \<longrightarrow>
      (\<exists>h. answers (co_activity_uuid c) (co_sequence_number c) h \<and> Datagram (enc_rpc h) \<in> set (tp_rx (co_transport c))
         \<and> parse_read_response (pr_payload h) (pr_is_little_endian h) = Some (Inr data)))
    \<and> (rc_write i s u d c = Some (Inr (), c2) \<longrightarrow>
      (\<exists>h p. answers (co_activity_uuid c) (co_sequence_number c) h \<and> Datagram (enc_rpc h) \<in> set (tp_rx (co_transport c))
         \<and> parse_status_response (pr_payload h) (pr_is_little_endian h) = Some (Inr p)))
    \<and> (send_control bt cmd sub c = Some (Inr p, c3) \<longrightarrow>
      (\<exists>h. answers (co_activity_uuid c) (co_sequence_number c) h \<and> Datagram (enc_rpc h) \<in> set (tp_rx (co_transport c))
         \<and> parse_status_response (pr_payload h) (pr_is_little_endian h) = Some (Inr p)))
    \<and> (rc_connect m nm st c = Some (Inr res, c4) \<longrightarrow>
      (\<exists>h. answers (co_activity_uuid c) (co_sequence_number c) h \<and> Datagram (enc_rpc h) \<in> set (tp_rx (co_transport c))
         \<and> parse_connect_response (pr_payload h) (pr_is_little_endian h) = Some (Inr res)
         \<and> co_connected c4 \<and> co_input_frame_id c4 = cr_input_frame_id res \<and> co_output_frame_id c4 = cr_output_frame_id res))"
proof (intro conjI impI)
  assume r: "read_raw i s u l c = Some (Inr data, c1)"
  then have ne: "co_sequence_number c \<noteq> 0xFFFFFFFF" using no_number_left(3) by force
  from call_answered [OF assms our_requests(2) r [unfolded read_raw_def next_seq_call [OF ne] send_read_def, simplified]]
  show "\<exists>h. answers (co_activity_uuid c) (co_sequence_number c) h \<and> Datagram (enc_rpc h) \<in> set (tp_rx (co_transport c))
         \<and> parse_read_response (pr_payload h) (pr_is_little_endian h) = Some (Inr data)"
    by (auto simp: pure_io_Inr)
next
  assume r: "rc_write i s u d c = Some (Inr (), c2)"
  then have ne: "co_sequence_number c \<noteq> 0xFFFFFFFF" using no_number_left(5) by force
  from call_answered [OF assms our_requests(4) r [unfolded rc_write_def next_seq_call [OF ne], simplified]]
  show "\<exists>h p. answers (co_activity_uuid c) (co_sequence_number c) h \<and> Datagram (enc_rpc h) \<in> set (tp_rx (co_transport c))
         \<and> parse_status_response (pr_payload h) (pr_is_little_endian h) = Some (Inr p)"
    by (auto simp: cbind_Inr pure_io_Inr)
next
  assume r: "send_control bt cmd sub c = Some (Inr p, c3)"
  then have con: "co_connected c" using uncalled(1) by force
  with r have ne: "co_sequence_number c \<noteq> 0xFFFFFFFF" using no_number_left(7) by force
  from r con have "cbind (send_receive (rpc_request (co_object_uuid c) IFACE_UUID_DEVICE (co_activity_uuid c)
      (co_sequence_number c) CONTROL (nrd (iod_control_block bt (co_ar_uuid c) (co_session_key c) cmd @ sub))))
      (\<lambda>resp. pure_io (parse_status_response (pr_payload resp) (pr_is_little_endian resp)))
      (c\<lparr>co_sequence_number := co_sequence_number c + 1\<rparr>) = Some (Inr p, c3)"
    by (simp add: send_control_def next_seq_call [OF ne] Let_def)
  from call_answered [OF assms our_requests(1) this]
  show "\<exists>h. answers (co_activity_uuid c) (co_sequence_number c) h \<and> Datagram (enc_rpc h) \<in> set (tp_rx (co_transport c))
         \<and> parse_status_response (pr_payload h) (pr_is_little_endian h) = Some (Inr p)"
    by (auto simp: pure_io_Inr)
qed (use connect_answered [OF assms] in blast)

lemma sample_answer_answers: "answers (replicate 16 7) 0 (sample_answer rec)"
  using sample_answer_ok [of rec] sample_uuid by (simp add: answers_def)

lemma sample_read: "\<exists>c'. read_raw 0xAFF0 0 1 4096 (sample_conn [Datagram (enc_rpc (sample_answer rec))]) = Some (Inr rec, c')"
  using read_raw_stream(1) [of "sample_conn [Datagram (enc_rpc (sample_answer rec))]" "[]" "enc_rpc (sample_answer rec)" "[]"
      "sample_answer rec" "0xAFF0" 0 1 4096]
    sample_conn_ok sample_answer_ok [of rec] sample_answer_answers
  by (simp add: sample_transport_def sends_ok_def pure_io_def read_response_body)

theorem response_is_ours_witness:
  "\<exists>h. answers (replicate 16 7) 0 h
     \<and> Datagram (enc_rpc h) \<in> set [Datagram (enc_rpc (sample_answer [5]))]
     \<and> parse_read_response (pr_payload h) (pr_is_little_endian h) = Some (Inr [5])"
proof -
  obtain c' where r: "read_raw 0xAFF0 0 1 4096 (sample_conn [Datagram (enc_rpc (sample_answer [5]))]) = Some (Inr [5], c')"
    using sample_read by blast
  note t = response_is_ours [OF sample_conn_ok(1), THEN conjunct1, rule_format, OF r]
  show ?thesis using t sample_conn_ok by (simp add: sample_transport_def)
qed

section \<open>The life of an application relationship\<close>

lemma connect_err_not_connected:
  assumes "rc_connect m nm st c = Some (Inl e, c')" and "conn_ok c"
  shows "co_connected c' = co_connected c"
proof -
  have ne: "co_sequence_number c \<noteq> 0xFFFFFFFF" using no_number_left(1) [of c m nm st] assms(1) by force
  let ?c1 = "c\<lparr>co_sequence_number := co_sequence_number c + 1\<rparr>"
  obtain req where req: "build_connect_request (co_object_uuid c) IFACE_UUID_DEVICE (co_activity_uuid c) (co_ar_uuid c)
      (co_session_key c) m nm st (co_sequence_number c) = Some req"
    using assms(1) by (auto simp: rc_connect_def next_seq_call [OF ne] split: bind_splits)
  have "conn_ok ?c1" "our_request ?c1 (co_sequence_number c) req"
    using assms(2) our_requests(8) [OF req] by (simp_all add: conn_ok_def our_request_def)
  from send_receive_returns [OF this] obtain r t' where s: "send_receive req ?c1 = Some (r, ?c1\<lparr>co_transport := t'\<rparr>)"
    by blast
  show ?thesis
  proof (cases r)
    case (Inl x)
    then show ?thesis using assms(1) s req by (auto simp: rc_connect_def next_seq_call [OF ne] cbind_def)
  next
    case (Inr h)
    then show ?thesis
      using assms(1) s req
      by (cases "parse_connect_response (pr_payload h) (pr_is_little_endian h)")
         (auto simp: rc_connect_def next_seq_call [OF ne] cbind_def map_err_def pure_io_def split: sum.splits)
  qed
qed



end
