(* ===== verification/Epm.thy ===== *)
theory Epm
  imports Im
begin

text \<open>
  Model of \<open>src/epm.rs\<close>: UUID text, the endpoint mapper lookup request, and the parsers of its
  response and of the protocol towers in it. A \<open>str\<close> is its UTF-8 byte string; slicing one at a
  position inside a character panics. An annotation stays the bytes handed to
  \<open>from_utf8_lossy\<close>. The lookup calls themselves send one datagram and parse one.
\<close>

section \<open>UUID text\<close>

definition UUID_EPM_V4 :: string where "UUID_EPM_V4 = ''e1af8308-5d1f-11c9-91a4-08002b14a0fa''"
definition UUID_PNIO_DEVICE :: string where "UUID_PNIO_DEVICE = ''dea00001-6c97-11d1-8271-00a02442df7d''"
definition UUID_PNIO_CONTROLLER :: string where "UUID_PNIO_CONTROLLER = ''dea00002-6c97-11d1-8271-00a02442df7d''"
definition UUID_PNIO_SUPERVISOR :: string where "UUID_PNIO_SUPERVISOR = ''dea00003-6c97-11d1-8271-00a02442df7d''"
definition UUID_PNIO_PARAMSERVER :: string where "UUID_PNIO_PARAMSERVER = ''dea00004-6c97-11d1-8271-00a02442df7d''"
definition EPM_LOOKUP :: u16 where "EPM_LOOKUP = 0x02"
definition EPM_INQUIRY_ALL :: u32 where "EPM_INQUIRY_ALL = 0x00"
definition EPM_INQUIRY_INTERFACE :: u32 where "EPM_INQUIRY_INTERFACE = 0x01"

definition le16 :: "bytes \<Rightarrow> nat \<Rightarrow> u16 option" where
  "le16 data off = do { a \<leftarrow> idx data off; b \<leftarrow> idx data (off + 1); Some (from_be16 b a) }"

definition le32 :: "bytes \<Rightarrow> nat \<Rightarrow> u32 option" where
  "le32 data off = do {
     a \<leftarrow> idx data off; b \<leftarrow> idx data (off + 1); c \<leftarrow> idx data (off + 2); d \<leftarrow> idx data (off + 3);
     Some (from_be32 d c b a) }"

text \<open>\<open>{n:0kx}\<close> for a number of at most \<open>k\<close> digits; \<open>to_le_bytes\<close>.\<close>

definition hex_lower :: "nat \<Rightarrow> nat \<Rightarrow> string" where
  "hex_lower k n = map (\<lambda>i. hex_char (n div 16 ^ i mod 16)) (rev [0..<k])"

definition to_le16 :: "u16 \<Rightarrow> bytes" where "to_le16 w = rev (to_be16 w)"
definition to_le32 :: "u32 \<Rightarrow> bytes" where "to_le32 w = rev (to_be32 w)"

definition uuid_bytes_to_string :: "bytes \<Rightarrow> string option" where
  "uuid_bytes_to_string data =
     (if length data \<noteq> 16 then Some []
      else do {
        node \<leftarrow> sub_slice data 10 16;
        time_low \<leftarrow> le32 data 0; time_mid \<leftarrow> le16 data 4; time_hi \<leftarrow> le16 data 6; clock \<leftarrow> be16_at data 8;
        Some (hex_lower 8 (unat time_low) @ ''-'' @ hex_lower 4 (unat time_mid) @ ''-''
          @ hex_lower 4 (unat time_hi) @ ''-'' @ hex_lower 4 (unat clock) @ ''-'' @ concat (map hex2 node)) })"

text \<open>\<open>&s[a..b]\<close>, and \<open>u64::from_str_radix(s, 16)\<close> on at most eight bytes (no overflow).\<close>

definition char_boundary :: "string \<Rightarrow> nat \<Rightarrow> bool" where
  "char_boundary s i \<longleftrightarrow> i = 0 \<or> i = length s
     \<or> i < length s \<and> \<not> (128 \<le> (of_char (s ! i) :: nat) \<and> (of_char (s ! i) :: nat) < 192)"

definition str_slice :: "string \<Rightarrow> nat \<Rightarrow> nat \<Rightarrow> string option" where
  "str_slice s a b =
     (if a \<le> b \<and> b \<le> length s \<and> char_boundary s a \<and> char_boundary s b then Some (take (b - a) (drop a s)) else None)"

definition radix16 :: "string \<Rightarrow> nat option" where
  "radix16 s =
     (let t = (if 1 < length s \<and> hd s = CHR ''+'' then tl s else s)
      in if t = [] \<or> \<not> list_all is_hexdigit t then None
         else Some (foldl (\<lambda>a c. a * 16 + digit_val c) 0 t))"

definition uuid_field :: "string \<Rightarrow> string \<Rightarrow> nat \<Rightarrow> nat \<Rightarrow> (string + nat) option" where
  "uuid_field uuid_str parts a b = do {
     s \<leftarrow> str_slice parts a b;
     Some (case radix16 s of None \<Rightarrow> Inl (''Invalid UUID string: '' @ uuid_str) | Some v \<Rightarrow> Inr v) }"

text \<open>The node bytes, one field each.\<close>

fun uuid_node :: "string \<Rightarrow> string \<Rightarrow> nat list \<Rightarrow> (string + bytes) option" where
  "uuid_node uuid_str parts [] = Some (Inr [])"
| "uuid_node uuid_str parts (i # is') = do {
     r \<leftarrow> uuid_field uuid_str parts (20 + 2 * i) (22 + 2 * i);
     (case r of
        Inl e \<Rightarrow> Some (Inl e)
      | Inr v \<Rightarrow> do {
          rest \<leftarrow> uuid_node uuid_str parts is';
          Some (rbind rest (\<lambda>bs. Inr (of_nat v # bs))) }) }"

definition rcase :: "(string + 'a) option \<Rightarrow> ('a \<Rightarrow> (string + 'b) option) \<Rightarrow> (string + 'b) option" where
  "rcase m f = do { r \<leftarrow> m; (case r of Inl e \<Rightarrow> Some (Inl e) | Inr x \<Rightarrow> f x) }"

definition string_to_uuid_bytes :: "string \<Rightarrow> (string + bytes) option" where
  "string_to_uuid_bytes uuid_str =
     (let parts = filter (\<lambda>c. c \<noteq> CHR ''-'') uuid_str in
      if length parts \<noteq> 32 then Some (Inl (''Invalid UUID string: '' @ uuid_str))
      else rcase (uuid_field uuid_str parts 0 8) (\<lambda>a.
           rcase (uuid_field uuid_str parts 8 12) (\<lambda>b.
           rcase (uuid_field uuid_str parts 12 16) (\<lambda>c.
           rcase (uuid_field uuid_str parts 16 20) (\<lambda>d.
           rcase (uuid_node uuid_str parts [0..<6]) (\<lambda>node.
             Some (Inr (to_le32 (of_nat a) @ to_le16 (of_nat b) @ to_le16 (of_nat c) @ to_be16 (of_nat d) @ node))))))))"

section \<open>Endpoints\<close>

record epm_endpoint =
  ep_interface_uuid :: string
  ep_version_major :: u16
  ep_version_minor :: u16
  ep_object_uuid :: string
  ep_protocol :: string
  ep_port :: u16
  ep_address :: string
  ep_annotation :: bytes

definition endpoint_default :: epm_endpoint where
  "endpoint_default = \<lparr>ep_interface_uuid = [], ep_version_major = 0, ep_version_minor = 0, ep_object_uuid = [],
     ep_protocol = [], ep_port = 0, ep_address = [], ep_annotation = []\<rparr>"

text \<open>\<open>to_lowercase\<close> on ASCII text, which the parser produces.\<close>

definition lower_char :: "char \<Rightarrow> char" where
  "lower_char c = (let n = (of_char c :: nat) in if 65 \<le> n \<and> n \<le> 90 then char_of (n + 32) else c)"

definition interface_name :: "epm_endpoint \<Rightarrow> string" where
  "interface_name ep =
     (let u = map lower_char (ep_interface_uuid ep) in
      if u = UUID_PNIO_DEVICE then ''PNIO-Device''
      else if u = UUID_PNIO_CONTROLLER then ''PNIO-Controller''
      else if u = UUID_PNIO_SUPERVISOR then ''PNIO-Supervisor''
      else if u = UUID_PNIO_PARAMSERVER then ''PNIO-ParameterServer''
      else if u = UUID_EPM_V4 then ''EPM''
      else ''Unknown('' @ ep_interface_uuid ep @ '')'')"

section \<open>The lookup request\<close>

definition epm_lookup_request :: "bytes \<Rightarrow> string option \<Rightarrow> (string + bytes) option" where
  "epm_lookup_request activity_uuid interface_filter =
     rcase (case interface_filter of
         Some filt \<Rightarrow> rcase (string_to_uuid_bytes filt) (\<lambda>u. Some (Inr (EPM_INQUIRY_INTERFACE, u, 1, 0)))
       | None \<Rightarrow> Some (Inr (EPM_INQUIRY_ALL, replicate 16 0, 0, 0)))
     (\<lambda>(inquiry_type, iface_uuid, major, minor).
       let body = to_le32 inquiry_type @ replicate 16 0 @ iface_uuid @ to_le16 major @ to_le16 minor
         @ to_le32 0 @ to_le32 0 @ to_le32 100
       in rcase (string_to_uuid_bytes UUID_EPM_V4) (\<lambda>epm_iface.
         Some (Inr ([0x04, 0x00, 0x20, 0x00] @ [0x10, 0x00, 0x00] @ [0x00] @ replicate 16 0 @ epm_iface @ activity_uuid
           @ to_le32 0 @ to_le32 3 @ to_le32 0 @ to_le16 EPM_LOOKUP @ to_le16 0xFFFF @ to_le16 0xFFFF
           @ to_le16 (as_u16 (length body)) @ to_le16 0 @ [0x00, 0x00] @ body))))"

section \<open>Towers\<close>

text \<open>What one floor, its two halves read, does to the endpoint.\<close>

definition apply_floor :: "nat \<Rightarrow> bytes \<Rightarrow> bytes \<Rightarrow> epm_endpoint \<Rightarrow> epm_endpoint option" where
  "apply_floor floor_idx lhs rhs ep =
     (if 1 \<le> length lhs then do {
        t \<leftarrow> idx lhs 0;
        if t = 0x0D \<and> 19 \<le> length lhs then
          (if floor_idx = 0 then do {
             u \<leftarrow> sub_slice lhs 1 17;
             s \<leftarrow> uuid_bytes_to_string u;
             major \<leftarrow> le16 lhs 17;
             let ep1 = ep\<lparr>ep_interface_uuid := s, ep_version_major := major\<rparr>;
             if 2 \<le> length rhs then do { minor \<leftarrow> le16 rhs 0; Some (ep1\<lparr>ep_version_minor := minor\<rparr>) } else Some ep1 }
           else Some ep)
        else if t = 0x0A then Some (ep\<lparr>ep_protocol := ''ncadg_ip_udp''\<rparr>)
        else if t = 0x08 \<and> 2 \<le> length rhs then do { p \<leftarrow> be16_at rhs 0; Some (ep\<lparr>ep_port := p\<rparr>) }
        else if t = 0x09 \<and> 4 \<le> length rhs then do {
          a \<leftarrow> idx rhs 0; b \<leftarrow> idx rhs 1; c \<leftarrow> idx rhs 2; d \<leftarrow> idx rhs 3;
          Some (ep\<lparr>ep_address := dec_u8 a @ ''.'' @ dec_u8 b @ ''.'' @ dec_u8 c @ ''.'' @ dec_u8 d\<rparr>) }
        else Some ep }
      else Some ep)"

text \<open>
  One floor at an offset: its halves and the offset behind it, \<open>None\<close> inside for the breaks of
  the loop.
\<close>

definition tower_floor :: "bytes \<Rightarrow> nat \<Rightarrow> (bytes \<times> bytes \<times> nat) option option" where
  "tower_floor tower off =
     (if off + 4 > length tower then Some None
      else do {
        lhs_len \<leftarrow> map_option unat (le16 tower off);
        let off1 = off + 2;
        if off1 + lhs_len > length tower then Some None
        else do {
          lhs \<leftarrow> sub_slice tower off1 (off1 + lhs_len);
          let off2 = off1 + lhs_len;
          if off2 + 2 > length tower then Some None
          else do {
            rhs_len \<leftarrow> map_option unat (le16 tower off2);
            let off3 = off2 + 2;
            if off3 + rhs_len > length tower then Some None
            else do {
              rhs \<leftarrow> sub_slice tower off3 (off3 + rhs_len);
              Some (Some (lhs, rhs, off3 + rhs_len)) } } } })"

fun tower_walk :: "bytes \<Rightarrow> nat \<Rightarrow> nat \<Rightarrow> nat \<Rightarrow> epm_endpoint \<Rightarrow> epm_endpoint option" where
  "tower_walk tower 0 i off ep = Some ep"
| "tower_walk tower (Suc n) i off ep = do {
     f \<leftarrow> tower_floor tower off;
     (case f of
        None \<Rightarrow> Some ep
      | Some (lhs, rhs, off') \<Rightarrow> do {
          ep' \<leftarrow> apply_floor i lhs rhs ep;
          tower_walk tower n (i + 1) off' ep' }) }"

definition parse_epm_tower :: "bytes \<Rightarrow> epm_endpoint option option" where
  "parse_epm_tower tower =
     (if length tower < 4 then Some None
      else do {
        floor_count \<leftarrow> le16 tower 0;
        ep \<leftarrow> tower_walk tower (unat floor_count) 0 2 endpoint_default;
        Some (if ep_interface_uuid ep = [] then None else Some ep) })"

section \<open>The response\<close>

definition annotation_at :: "bytes \<Rightarrow> nat \<Rightarrow> nat \<Rightarrow> bytes option" where
  "annotation_at body offset n =
     (if 0 < n \<and> offset + n \<le> length body
      then do { raw \<leftarrow> sub_slice body offset (offset + n); Some (decode_bytes raw) }
      else Some [])"

text \<open>
  One entry at an offset: the endpoint its tower describes, if any, and the offset behind it;
  \<open>None\<close> inside for the breaks of the loop.
\<close>

definition epm_entry :: "bytes \<Rightarrow> nat \<Rightarrow> (epm_endpoint option \<times> nat) option option" where
  "epm_entry body offset =
     (if offset + 4 > length body \<or> offset + 16 > length body then Some None
      else do {
        u \<leftarrow> sub_slice body offset (offset + 16);
        object_uuid \<leftarrow> uuid_bytes_to_string u;
        let o1 = offset + 16;
        if o1 + 4 > length body then Some None
        else let o2 = o1 + 4 in
          if o2 + 4 > length body then Some None
          else do {
            annotation_len \<leftarrow> map_option unat (le32 body o2);
            let o3 = o2 + 4;
            annotation \<leftarrow> annotation_at body o3 annotation_len;
            let o4 = align4 (o3 + annotation_len);
            if o4 + 4 > length body then Some None
            else do {
              tower_len \<leftarrow> map_option unat (le32 body o4);
              let o5 = o4 + 4;
              if o5 + tower_len > length body then Some None
              else do {
                tower \<leftarrow> sub_slice body o5 (o5 + tower_len);
                t \<leftarrow> parse_epm_tower tower;
                Some (Some (map_option (\<lambda>ep. ep\<lparr>ep_object_uuid := object_uuid, ep_annotation := annotation\<rparr>) t,
                            align4 (o5 + tower_len))) } } } })"

fun epm_entries :: "bytes \<Rightarrow> nat \<Rightarrow> nat \<Rightarrow> epm_endpoint list \<Rightarrow> epm_endpoint list option" where
  "epm_entries body 0 offset eps = Some eps"
| "epm_entries body (Suc n) offset eps = do {
     r \<leftarrow> epm_entry body offset;
     (case r of
        None \<Rightarrow> Some eps
      | Some (e, offset') \<Rightarrow> epm_entries body n offset' (case e of None \<Rightarrow> eps | Some ep \<Rightarrow> eps @ [ep])) }"

definition parse_epm_response :: "bytes \<Rightarrow> epm_endpoint list option" where
  "parse_epm_response data =
     (if length data < 80 then Some []
      else do {
        t \<leftarrow> idx data 1;
        if t \<noteq> 0x02 then Some []
        else do {
          body_len \<leftarrow> map_option unat (le16 data 74);
          body \<leftarrow> sub_slice data 80 (min (80 + body_len) (length data));
          if length body < 12 then Some []
          else do {
            num_ents \<leftarrow> le32 body 4;
            epm_entries body (unat num_ents) 20 [] } } })"

section \<open>Totality\<close>

lemma le16_in [simp]: "off + 1 < length d \<Longrightarrow> le16 d off = Some (from_be16 (d ! (off + 1)) (d ! off))"
  by (simp add: le16_def)

lemma le32_in [simp]:
  "off + 3 < length d \<Longrightarrow> le32 d off = Some (from_be32 (d ! (off + 3)) (d ! (off + 2)) (d ! (off + 1)) (d ! off))"
  by (simp add: le32_def)

lemma uuid_string_16:
  "length d = 16 \<Longrightarrow> uuid_bytes_to_string d =
     Some (hex_lower 8 (unat (from_be32 (d ! 3) (d ! 2) (d ! 1) (d ! 0))) @ ''-''
       @ hex_lower 4 (unat (from_be16 (d ! 5) (d ! 4))) @ ''-'' @ hex_lower 4 (unat (from_be16 (d ! 7) (d ! 6))) @ ''-''
       @ hex_lower 4 (unat (from_be16 (d ! 8) (d ! 9))) @ ''-'' @ concat (map hex2 (drop 10 d)))"
  by (simp add: uuid_bytes_to_string_def rd16_def numeral_2_eq_2)

lemma uuid_bytes_to_string_total: "uuid_bytes_to_string d \<noteq> None"
  by (cases "length d = 16") (simp_all add: uuid_string_16, simp add: uuid_bytes_to_string_def)

lemma apply_floor_total: "apply_floor i lhs rhs ep \<noteq> None"
  unfolding apply_floor_def Let_def
  by (intro if_total bind_total uuid_bytes_to_string_total) (auto simp: idx_def)

lemma tower_floor_total: "tower_floor tower off \<noteq> None"
  unfolding tower_floor_def Let_def by (intro if_total bind_total) auto

lemma tower_walk_total: "tower_walk tower n i off ep \<noteq> None"
proof (induction n arbitrary: i off ep)
  case (Suc n)
  obtain f where f: "tower_floor tower off = Some f" using tower_floor_total by blast
  show ?case
  proof (cases f)
    case (Some p)
    obtain lhs rhs off' where p: "p = (lhs, rhs, off')" by (cases p)
    obtain ep' where "apply_floor i lhs rhs ep = Some ep'" using apply_floor_total by blast
    then show ?thesis using Suc f Some p by simp
  qed (simp add: f)
qed simp

lemma parse_epm_tower_total: "parse_epm_tower tower \<noteq> None"
  unfolding parse_epm_tower_def by (intro if_total bind_total tower_walk_total) (auto simp: idx_def le16_def)

lemma epm_entry_total: "epm_entry body offset \<noteq> None"
  unfolding epm_entry_def Let_def
  by (intro if_total bind_total parse_epm_tower_total uuid_bytes_to_string_total) (auto simp: annotation_at_def)

lemma epm_entries_total: "epm_entries body n offset eps \<noteq> None"
proof (induction n arbitrary: offset eps)
  case (Suc n)
  obtain r where "epm_entry body offset = Some r" using epm_entry_total by blast
  then show ?case using Suc by (auto split: option.split)
qed simp

lemma parse_epm_response_total: "parse_epm_response data \<noteq> None"
  unfolding parse_epm_response_def
  by (intro if_total bind_total epm_entries_total) (auto split: if_splits)

section \<open>UUID text is exact\<close>

lemma hexdigit_plain: "is_hexdigit c \<Longrightarrow> c \<noteq> CHR ''-'' \<and> c \<noteq> CHR ''+'' \<and> (of_char c :: nat) < 128"
  by (auto simp: is_hexdigit_def is_digit_def)

lemma hex_char_digit:
  "n < 16 \<Longrightarrow> digit_val (hex_char n) = n \<and> is_hexdigit (hex_char n) \<and> hex_char n \<noteq> CHR ''-'' \<and> hex_char n \<noteq> CHR ''+''
    \<and> (of_char (hex_char n) :: nat) < 128"
  using digit_val_hex_char is_hexdigit_hex_char hexdigit_plain [of "hex_char n"] by blast

lemma hex_lower_value: "foldl (\<lambda>a c. a * 16 + digit_val c) a (hex_lower k n) = a * 16 ^ k + n mod 16 ^ k"
proof (induction k arbitrary: a)
  case (Suc k)
  have "hex_lower (Suc k) n = hex_char (n div 16 ^ k mod 16) # hex_lower k n" by (simp add: hex_lower_def)
  moreover have "n mod 16 ^ Suc k = (n div 16 ^ k mod 16) * 16 ^ k + n mod 16 ^ k"
    using mod_mult2_eq [of n "16 ^ k" 16] by (simp add: mult.commute)
  ultimately show ?case using Suc hex_char_digit [of "n div 16 ^ k mod 16"] by (simp add: algebra_simps)
qed (simp add: hex_lower_def)

lemma length_hex_lower [simp]: "length (hex_lower k n) = k"
  by (simp add: hex_lower_def)

lemma hex_lower_set: "c \<in> set (hex_lower k n) \<Longrightarrow> is_hexdigit c \<and> c \<noteq> CHR ''-'' \<and> c \<noteq> CHR ''+'' \<and> (of_char c :: nat) < 128"
  using hex_char_digit by (auto simp: hex_lower_def)

lemma hex2_lower: "hex2 b = hex_lower 2 (unat b)"
  using unat_u8_lt [of b] by (simp add: hex2_def hex_lower_def numeral_2_eq_2)

lemma radix16_hex_lower: "0 < k \<Longrightarrow> n < 16 ^ k \<Longrightarrow> radix16 (hex_lower k n) = Some n"
proof -
  assume k: "0 < k" and n: "n < 16 ^ k"
  have "hd (hex_lower k n) \<in> set (hex_lower k n)" using k by (metis length_hex_lower hd_in_set length_greater_0_conv)
  then have "hd (hex_lower k n) \<noteq> CHR ''+''" using hex_lower_set by blast
  moreover have "list_all is_hexdigit (hex_lower k n)" using hex_lower_set by (auto simp: list_all_iff)
  moreover have "hex_lower k n \<noteq> []" using k by (metis length_hex_lower less_numeral_extra(3) list.size(3))
  ultimately show ?thesis using hex_lower_value [of 0 k n] n by (simp add: radix16_def)
qed

lemma ascii_boundary: "\<forall>c \<in> set s. (of_char c :: nat) < 128 \<Longrightarrow> i \<le> length s \<Longrightarrow> char_boundary s i"
  using nth_mem [of i s] by (cases "i = length s") (fastforce simp: char_boundary_def)+

lemma uuid_field_hex:
  assumes "\<forall>c \<in> set parts. (of_char c :: nat) < 128" and "parts = pre @ hex_lower k n @ post"
    and "a = length pre" and "b = a + k" and "0 < k" and "n < 16 ^ k"
  shows "uuid_field s parts a b = Some (Inr n)"
proof -
  have "char_boundary parts a" "char_boundary parts b" using assms(1-4) by (auto intro!: ascii_boundary)
  then have "str_slice parts a b = Some (hex_lower k n)" using assms by (simp add: str_slice_def)
  then show ?thesis using radix16_hex_lower [OF assms(5,6)] by (simp add: uuid_field_def)
qed

lemma filter_hex_lower: "filter (\<lambda>c. c \<noteq> CHR ''-'') (hex_lower k n) = hex_lower k n"
  using hex_lower_set by (auto simp: filter_id_conv)

lemma length_16_conv: "length d = 16 \<longleftrightarrow> (\<exists>a b c e f g h i j k l m n p q r. d = [a, b, c, e, f, g, h, i, j, k, l, m, n, p, q, r])"
  by (auto simp: length_Suc_conv eval_nat_numeral)

lemma of_nat_unat_u8: "(of_nat (unat (x :: u8)) :: u8) = x" by simp

lemma uuid_roundtrip:
  assumes "length d = 16" and "uuid_bytes_to_string d = Some s"
  shows "string_to_uuid_bytes s = Some (Inr d)"
proof -
  obtain d0 d1 d2 d3 d4 d5 d6 d7 d8 d9 n0 n1 n2 n3 n4 n5
    where d: "d = [d0, d1, d2, d3, d4, d5, d6, d7, d8, d9, n0, n1, n2, n3, n4, n5]"
    using assms(1) by (auto simp: length_16_conv)
  define A B C D where "A = unat (from_be32 d3 d2 d1 d0)" and "B = unat (from_be16 d5 d4)"
    and "C = unat (from_be16 d7 d6)" and "D = unat (from_be16 d8 d9)"
  define parts where "parts = hex_lower 8 A @ hex_lower 4 B @ hex_lower 4 C @ hex_lower 4 D @ hex_lower 2 (unat n0)
    @ hex_lower 2 (unat n1) @ hex_lower 2 (unat n2) @ hex_lower 2 (unat n3) @ hex_lower 2 (unat n4) @ hex_lower 2 (unat n5)"
  have s: "s = hex_lower 8 A @ ''-'' @ hex_lower 4 B @ ''-'' @ hex_lower 4 C @ ''-'' @ hex_lower 4 D @ ''-''
      @ hex_lower 2 (unat n0) @ hex_lower 2 (unat n1) @ hex_lower 2 (unat n2) @ hex_lower 2 (unat n3)
      @ hex_lower 2 (unat n4) @ hex_lower 2 (unat n5)"
    using assms(2) unfolding uuid_string_16 [OF assms(1)] by (simp add: d A_def B_def C_def D_def hex2_lower)
  have parts: "filter (\<lambda>c. c \<noteq> CHR ''-'') s = parts" by (simp add: s parts_def filter_hex_lower)
  have asc: "\<forall>c \<in> set parts. (of_char c :: nat) < 128" using hex_lower_set by (auto simp: parts_def)
  have bnd: "A < 16 ^ 8" "B < 16 ^ 4" "C < 16 ^ 4" "D < 16 ^ 4"
    using unat_u32_lt unat_u16_lt by (simp_all add: A_def B_def C_def D_def)
  have nb: "unat (x :: u8) < 16 ^ 2" for x using unat_u8_lt [of x] by simp
  note fld = uuid_field_hex [OF asc]
  have f: "uuid_field s parts 0 8 = Some (Inr A)" "uuid_field s parts 8 12 = Some (Inr B)"
    "uuid_field s parts 12 16 = Some (Inr C)" "uuid_field s parts 16 20 = Some (Inr D)"
    "uuid_field s parts 20 22 = Some (Inr (unat n0))" "uuid_field s parts 22 24 = Some (Inr (unat n1))"
    "uuid_field s parts 24 26 = Some (Inr (unat n2))" "uuid_field s parts 26 28 = Some (Inr (unat n3))"
    "uuid_field s parts 28 30 = Some (Inr (unat n4))" "uuid_field s parts 30 32 = Some (Inr (unat n5))"
    using bnd nb
    by (intro fld [of "[]" 8] fld [of "take 8 parts" 4] fld [of "take 12 parts" 4] fld [of "take 16 parts" 4]
        fld [of "take 20 parts" 2] fld [of "take 22 parts" 2] fld [of "take 24 parts" 2] fld [of "take 26 parts" 2]
        fld [of "take 28 parts" 2] fld [of "take 30 parts" 2]; simp add: parts_def)+
  have node: "uuid_node s parts [0..<6] = Some (Inr [n0, n1, n2, n3, n4, n5])"
    using f by (simp add: upt_conv_Cons)
  have len: "length parts = 32" by (simp add: parts_def)
  show ?thesis unfolding string_to_uuid_bytes_def parts Let_def
    using f node len
    by (simp add: rcase_def d A_def B_def C_def D_def to_le32_def to_le16_def)
qed

section \<open>Towers and entries as a device encodes them\<close>

definition enc_floor :: "bytes \<times> bytes \<Rightarrow> bytes" where
  "enc_floor = (\<lambda>(l, r). to_le16 (as_u16 (length l)) @ l @ to_le16 (as_u16 (length r)) @ r)"

definition enc_tower :: "(bytes \<times> bytes) list \<Rightarrow> bytes" where
  "enc_tower fs = to_le16 (as_u16 (length fs)) @ concat (map enc_floor fs)"

definition floor_ok :: "bytes \<times> bytes \<Rightarrow> bool" where
  "floor_ok = (\<lambda>(l, r). length l < 65536 \<and> length r < 65536)"

text \<open>The endpoint a list of floors describes, the index counting from the given one.\<close>

fun endpoint_of :: "nat \<Rightarrow> (bytes \<times> bytes) list \<Rightarrow> epm_endpoint \<Rightarrow> epm_endpoint" where
  "endpoint_of i [] ep = ep"
| "endpoint_of i ((l, r) # fs) ep = endpoint_of (i + 1) fs (the (apply_floor i l r ep))"

lemma le16_here: "length pre = off \<Longrightarrow> le16 (pre @ to_le16 w @ post) off = Some w"
  by (simp add: le16_def to_le16_def to_be16_def nth_append)

lemma le32_here: "length pre = off \<Longrightarrow> le32 (pre @ to_le32 w @ post) off = Some w"
  by (simp add: le32_def to_le32_def to_be32_def nth_append)

lemma length_to_le [simp]: "length (to_le16 w) = 2" "length (to_le32 v) = 4"
  by (simp_all add: to_le16_def to_le32_def)

lemma tower_floor_enc:
  assumes "length pre = off" and "floor_ok (l, r)"
  shows "tower_floor (pre @ enc_floor (l, r) @ post) off = Some (Some (l, r, off + length (enc_floor (l, r))))"
proof -
  have 1: "le16 (pre @ enc_floor (l, r) @ post) off = Some (as_u16 (length l))"
    using le16_here [OF assms(1), of "as_u16 (length l)"] by (simp add: enc_floor_def)
  have 2: "le16 (pre @ enc_floor (l, r) @ post) (off + 2 + length l) = Some (as_u16 (length r))"
    using le16_here [of "pre @ to_le16 (as_u16 (length l)) @ l" "off + 2 + length l" "as_u16 (length r)"] assms(1)
    by (simp add: enc_floor_def)
  have s: "length l < 65536" "length r < 65536" using assms(2) by (simp_all add: floor_ok_def)
  have "sub_slice (pre @ enc_floor (l, r) @ post) (off + 2) (off + 2 + length l) = Some l"
    "sub_slice (pre @ enc_floor (l, r) @ post) (off + 2 + length l + 2) (off + 2 + length l + 2 + length r) = Some r"
    using assms(1) by (simp_all add: sub_slice_def enc_floor_def)
  moreover have "length (pre @ enc_floor (l, r) @ post) = off + 4 + length l + length r + length post"
    using assms(1) by (simp add: enc_floor_def)
  ultimately show ?thesis
    using 1 2 s by (simp add: tower_floor_def Let_def enc_floor_def del: sub_slice_in)
qed

lemma tower_walk_enc:
  "length pre = off \<Longrightarrow> \<forall>f \<in> set fs. floor_ok f \<Longrightarrow>
   tower_walk (pre @ concat (map enc_floor fs)) (length fs) i off ep = Some (endpoint_of i fs ep)"
proof (induction fs arbitrary: pre off i ep)
  case (Cons f fs)
  obtain l r where f: "f = (l, r)" by (cases f)
  obtain ep' where "apply_floor i l r ep = Some ep'" using apply_floor_total by blast
  then show ?case
    using Cons.IH [of "pre @ enc_floor f" "off + length (enc_floor f)" "i + 1" ep'] Cons.prems
      tower_floor_enc [OF Cons.prems(1), of l r "concat (map enc_floor fs)"] f
    by simp
qed simp

lemma parse_epm_tower_enc:
  assumes "fs \<noteq> []" and "length fs < 65536" and "\<forall>f \<in> set fs. floor_ok f"
  shows "parse_epm_tower (enc_tower fs) =
    Some (let ep = endpoint_of 0 fs endpoint_default in if ep_interface_uuid ep = [] then None else Some ep)"
proof -
  have "4 \<le> length (enc_tower fs)" using assms(1) by (cases fs) (auto simp: enc_tower_def enc_floor_def)
  moreover have "le16 (enc_tower fs) 0 = Some (as_u16 (length fs))"
    using le16_here [of "[]" 0] by (simp add: enc_tower_def)
  moreover have "tower_walk (enc_tower fs) (length fs) 0 2 endpoint_default = Some (endpoint_of 0 fs endpoint_default)"
    unfolding enc_tower_def using assms(3) by (intro tower_walk_enc) auto
  ultimately show ?thesis using assms(2) by (simp add: parse_epm_tower_def Let_def)
qed

type_synonym epm_item = "bytes \<times> u32 \<times> bytes \<times> bytes"

definition padlen :: "nat \<Rightarrow> nat" where
  "padlen n = align4 n - n"

definition enc_entry :: "epm_item \<Rightarrow> bytes" where
  "enc_entry = (\<lambda>(u, ptr, ann, tower). u @ to_le32 ptr @ to_le32 (as_u32 (length ann)) @ ann @ replicate (padlen (length ann)) 0
     @ to_le32 (as_u32 (length tower)) @ tower @ replicate (padlen (length tower)) 0)"

definition item_ok :: "epm_item \<Rightarrow> bool" where
  "item_ok = (\<lambda>(u, _, ann, tower). length u = 16 \<and> length ann < 4294967296 \<and> length tower < 4294967296)"

definition endpoint_of_item :: "epm_item \<Rightarrow> epm_endpoint list" where
  "endpoint_of_item = (\<lambda>(u, _, ann, tower).
     case the (parse_epm_tower tower) of
       None \<Rightarrow> []
     | Some ep \<Rightarrow> [ep\<lparr>ep_object_uuid := the (uuid_bytes_to_string u), ep_annotation := decode_bytes ann\<rparr>])"

lemma align4_ge: "n \<le> align4 n"
  unfolding align4_def by linarith

lemma padlen_align: "align4 n = n + padlen n"
  using align4_ge [of n] by (simp add: padlen_def)

lemma align4_add: "4 dvd o' \<Longrightarrow> align4 (o' + n) = o' + n + padlen n"
proof -
  assume "4 dvd o'"
  then obtain k where "o' = 4 * k" by blast
  moreover have "(4 * k + n + 3) div 4 = k + (n + 3) div 4"
    using div_mult_self2 [of 4 "n + 3" k] by (simp add: add_ac)
  ultimately have "align4 (o' + n) = o' + align4 n" by (simp add: align4_def add_mult_distrib)
  then show ?thesis by (simp add: padlen_align)
qed

lemma length_enc_entry: "item_ok x \<Longrightarrow> 4 dvd length (enc_entry x)"
proof -
  assume ok: "item_ok x"
  obtain u ptr ann tower where x: "x = (u, ptr, ann, tower)" by (cases x)
  have "length (enc_entry x) = 28 + (length ann + padlen (length ann)) + (length tower + padlen (length tower))"
    using ok by (simp add: x enc_entry_def item_ok_def)
  moreover have "4 dvd n + padlen n" for n
    by (simp add: padlen_align [symmetric] align4_def)
  ultimately show ?thesis by simp
qed

lemma epm_entry_enc:
  assumes "item_ok x" and "length pre = off" and "4 dvd off"
  shows "epm_entry (pre @ enc_entry x @ post) off =
    Some (Some (case endpoint_of_item x of [] \<Rightarrow> None | ep # _ \<Rightarrow> Some ep, off + length (enc_entry x)))"
proof -
  obtain u ptr ann tower where x: "x = (u, ptr, ann, tower)" by (cases x)
  define body where "body = pre @ enc_entry x @ post"
  have ok: "length u = 16" "length ann < 4294967296" "length tower < 4294967296" using assms(1) by (simp_all add: x item_ok_def)
  define p q where "p = padlen (length ann)" and "q = padlen (length tower)"
  have len: "length (enc_entry x) = 28 + length ann + p + length tower + q"
    using ok by (simp add: x enc_entry_def p_def q_def)
  have lb: "length body = off + 28 + length ann + p + length tower + q + length post"
    using len assms(2) by (simp add: body_def)
  define o2 o3 o4 o5 where "o2 = off + 16 + 4" and "o3 = o2 + 4" and "o4 = align4 (o3 + length ann)" and "o5 = o4 + 4"
  have o: "o2 = off + 20" "o3 = off + 24" by (simp_all add: o2_def o3_def)
  have o4: "o4 = off + 24 + length ann + p"
    using align4_add [of "off + 24" "length ann"] assms(3) by (simp add: o4_def o p_def)
  have "4 dvd o5" by (simp add: o5_def o4_def align4_def)
  then have a2: "align4 (o5 + length tower) = off + length (enc_entry x)"
    using align4_add [of o5 "length tower"] len by (simp add: o5_def o4 q_def)
  have r1: "le32 body o2 = Some (as_u32 (length ann))"
    using le32_here [of "pre @ u @ to_le32 ptr" "off + 20" "as_u32 (length ann)"] ok assms(2)
    by (simp add: body_def x enc_entry_def o del: le32_in)
  have r2: "le32 body o4 = Some (as_u32 (length tower))"
    using le32_here [of "pre @ u @ to_le32 ptr @ to_le32 (as_u32 (length ann)) @ ann @ replicate p 0"
        "off + 24 + length ann + p" "as_u32 (length tower)"] ok assms(2)
    by (simp add: body_def x enc_entry_def p_def o4 del: le32_in)
  have s: "sub_slice body off (off + 16) = Some u" "sub_slice body o3 (o3 + length ann) = Some ann"
    "sub_slice body o5 (o5 + length tower) = Some tower"
    using ok assms(2) by (simp_all add: sub_slice_def body_def x enc_entry_def p_def o o4 o5_def)
  have an: "annotation_at body o3 (length ann) = Some (decode_bytes ann)"
    using s(2) lb o by (cases ann) (simp_all add: annotation_at_def decode_bytes_def)
  have c: "(off + 4 > length body \<or> off + 16 > length body) = False" "(off + 16 + 4 > length body) = False"
    "(o2 + 4 > length body) = False" "(o4 + 4 > length body) = False" "(o5 + length tower > length body) = False"
    using lb by (simp_all add: o o4 o5_def)
  have c2: "(length body < o2) = False" "(length body < o3) = False" "(length body < o5) = False"
    using lb by (simp_all add: o o4 o5_def)
  have un: "unat (as_u32 (length ann)) = length ann" "unat (as_u32 (length tower)) = length tower" using ok by simp_all
  obtain us where us: "uuid_bytes_to_string u = Some us" using uuid_bytes_to_string_total by blast
  obtain t where t: "parse_epm_tower tower = Some t" using parse_epm_tower_total by blast
  have "epm_entry body off = Some (Some (map_option (\<lambda>ep. ep\<lparr>ep_object_uuid := us, ep_annotation := decode_bytes ann\<rparr>) t,
      off + length (enc_entry x)))"
    unfolding epm_entry_def Let_def
    by (simp only: c(1,2) if_False s(1) Option.bind.simps us o2_def [symmetric] c(3) r1 option.map un
        o3_def [symmetric] an o4_def [symmetric] c(4) r2 o5_def [symmetric] c(5) c2 s(3) t a2)
  then show ?thesis using us t by (cases t) (simp_all add: body_def x endpoint_of_item_def)
qed

lemma epm_entries_enc:
  "\<forall>x \<in> set xs. item_ok x \<Longrightarrow> length pre = off \<Longrightarrow> 4 dvd off \<Longrightarrow>
   epm_entries (pre @ concat (map enc_entry xs)) (length xs) off eps = Some (eps @ concat (map endpoint_of_item xs))"
proof (induction xs arbitrary: pre off eps)
  case (Cons x xs)
  have e: "endpoint_of_item x = (case (case endpoint_of_item x of [] \<Rightarrow> None | ep # _ \<Rightarrow> Some ep) of None \<Rightarrow> [] | Some ep \<Rightarrow> [ep])"
    by (auto simp: endpoint_of_item_def split: prod.splits option.splits)
  have "4 dvd off + length (enc_entry x)" using Cons.prems length_enc_entry by auto
  then show ?case
    using epm_entry_enc [of x pre off "concat (map enc_entry xs)"] Cons.prems e
      Cons.IH [of "pre @ enc_entry x" "off + length (enc_entry x)"]
    by (cases "endpoint_of_item x") auto
qed simp

section \<open>The response of a responder that lists its endpoints\<close>

record epm_advert =
  ad_object :: bytes
  ad_interface :: bytes
  ad_major :: u16
  ad_minor :: u16
  ad_transfer :: bytes
  ad_port :: u16
  ad_ip :: "u8 \<times> u8 \<times> u8 \<times> u8"
  ad_annotation :: bytes

definition advert_floors :: "epm_advert \<Rightarrow> (bytes \<times> bytes) list" where
  "advert_floors a = (case ad_ip a of (p, q, r, s) \<Rightarrow>
     [(0x0D # ad_interface a @ to_le16 (ad_major a), to_le16 (ad_minor a)),
      (0x0D # ad_transfer a @ to_le16 2, to_le16 0),
      ([0x0A], [0, 0]),
      ([0x08], to_be16 (ad_port a)),
      ([0x09], [p, q, r, s])])"

definition advert_ok :: "epm_advert \<Rightarrow> bool" where
  "advert_ok a = (length (ad_object a) = 16 \<and> length (ad_interface a) = 16 \<and> length (ad_transfer a) = 16
     \<and> length (ad_annotation a) < 4294967296)"

definition advert_item :: "epm_advert \<Rightarrow> epm_item" where
  "advert_item a = (ad_object a, 3, ad_annotation a, enc_tower (advert_floors a))"

definition advert_endpoint :: "epm_advert \<Rightarrow> epm_endpoint" where
  "advert_endpoint a = (case ad_ip a of (p, q, r, s) \<Rightarrow>
     \<lparr>ep_interface_uuid = the (uuid_bytes_to_string (ad_interface a)), ep_version_major = ad_major a,
      ep_version_minor = ad_minor a, ep_object_uuid = the (uuid_bytes_to_string (ad_object a)),
      ep_protocol = ''ncadg_ip_udp'', ep_port = ad_port a,
      ep_address = dec_u8 p @ ''.'' @ dec_u8 q @ ''.'' @ dec_u8 r @ ''.'' @ dec_u8 s,
      ep_annotation = decode_bytes (ad_annotation a)\<rparr>)"

definition epm_body :: "bytes \<Rightarrow> bytes \<Rightarrow> epm_advert list \<Rightarrow> bytes" where
  "epm_body handle meta as = handle @ to_le32 (as_u32 (length as)) @ meta @ concat (map (enc_entry \<circ> advert_item) as)"

definition epm_datagram :: "u8 \<Rightarrow> bytes \<Rightarrow> bytes \<Rightarrow> bytes \<Rightarrow> bytes" where
  "epm_datagram version hdr rest body = version # 0x02 # hdr @ to_le16 (as_u16 (length body)) @ rest @ body"

lemma advert_tower:
  assumes "advert_ok a"
  shows "parse_epm_tower (enc_tower (advert_floors a)) =
    Some (Some ((advert_endpoint a)\<lparr>ep_object_uuid := [], ep_annotation := []\<rparr>))"
proof -
  obtain p q r s where ip: "ad_ip a = (p, q, r, s)" by (cases "ad_ip a")
  obtain us where us: "uuid_bytes_to_string (ad_interface a) = Some us" "us \<noteq> []"
    using uuid_string_16 [of "ad_interface a"] assms by (auto simp: advert_ok_def)
  have l: "length (ad_interface a) = 16" "length (ad_transfer a) = 16" using assms by (simp_all add: advert_ok_def)
  have m: "le16 (0x0D # ad_interface a @ to_le16 (ad_major a)) 17 = Some (ad_major a)"
    using le16_here [of "0x0D # ad_interface a" 17 "ad_major a" "[]"] l by simp
  have n: "le16 (to_le16 (ad_minor a)) 0 = Some (ad_minor a)" using le16_here [of "[]" 0 "ad_minor a" "[]"] by simp
  have u: "sub_slice (0x0D # ad_interface a @ to_le16 (ad_major a)) 1 17 = Some (ad_interface a)"
    using l by (simp add: sub_slice_def)
  have pt: "be16_at (to_be16 (ad_port a)) 0 = Some (ad_port a)" by (simp add: be16_at_def to_be16_def)
  have "apply_floor 0 (0x0D # ad_interface a @ to_le16 (ad_major a)) (to_le16 (ad_minor a)) ep =
      Some (ep\<lparr>ep_interface_uuid := us, ep_version_major := ad_major a, ep_version_minor := ad_minor a\<rparr>)" for ep
    using l m n u us by (simp add: apply_floor_def del: le16_in)
  moreover have "apply_floor i (0x0D # ad_transfer a @ to_le16 2) rr ep = Some ep" if "i \<noteq> 0" for i rr ep
    using l that by (simp add: apply_floor_def)
  moreover have "apply_floor i [0x0A] rr ep = Some (ep\<lparr>ep_protocol := ''ncadg_ip_udp''\<rparr>)" for i rr ep
    by (simp add: apply_floor_def)
  moreover have "apply_floor i [0x08] (to_be16 (ad_port a)) ep = Some (ep\<lparr>ep_port := ad_port a\<rparr>)" for i ep
    using pt by (simp add: apply_floor_def)
  moreover have "apply_floor i [0x09] [p, q, r, s] ep =
      Some (ep\<lparr>ep_address := dec_u8 p @ ''.'' @ dec_u8 q @ ''.'' @ dec_u8 r @ ''.'' @ dec_u8 s\<rparr>)" for i ep
    by (simp add: apply_floor_def)
  ultimately have "endpoint_of 0 (advert_floors a) endpoint_default = (advert_endpoint a)\<lparr>ep_object_uuid := [], ep_annotation := []\<rparr>"
    using us by (simp add: advert_floors_def advert_endpoint_def ip endpoint_default_def)
  moreover have "ep_interface_uuid (advert_endpoint a) \<noteq> []" using us by (simp add: advert_endpoint_def ip)
  moreover have "parse_epm_tower (enc_tower (advert_floors a)) =
      Some (let ep = endpoint_of 0 (advert_floors a) endpoint_default in if ep_interface_uuid ep = [] then None else Some ep)"
    using l by (intro parse_epm_tower_enc) (auto simp: advert_floors_def ip floor_ok_def)
  ultimately show ?thesis by (simp add: Let_def)
qed

lemma advert_item_endpoint:
  "advert_ok a \<Longrightarrow> item_ok (advert_item a) \<and> endpoint_of_item (advert_item a) = [advert_endpoint a]"
  using advert_tower [of a]
  by (auto simp: advert_item_def item_ok_def endpoint_of_item_def advert_ok_def enc_tower_def advert_floors_def
      enc_floor_def advert_endpoint_def split: prod.splits)

lemma epm_body_entries:
  assumes "\<forall>a \<in> set as. advert_ok a" and "length handle = 4" and "length meta = 12"
  shows "epm_entries (epm_body handle meta as) (length as) 20 [] = Some (map advert_endpoint as)"
proof -
  define pre where "pre = handle @ to_le32 (as_u32 (length as)) @ meta"
  have "concat (map (endpoint_of_item \<circ> advert_item) bs) = map advert_endpoint bs" if "\<forall>a \<in> set bs. advert_ok a" for bs
    using that advert_item_endpoint by (induction bs) auto
  then show ?thesis
    using epm_entries_enc [of "map advert_item as" pre 20 "[]"] assms advert_item_endpoint
    by (simp add: epm_body_def pre_def comp_assoc)
qed


definition sample_advert :: epm_advert where
  "sample_advert = \<lparr>ad_object = replicate 16 0x11, ad_interface = [1, 0, 0xA0, 0xDE, 0x97, 0x6C, 0xD1, 0x11, 0x82, 0x71, 0, 0xA0, 0x24, 0x42, 0xDF, 0x7D],
     ad_major = 1, ad_minor = 0, ad_transfer = replicate 16 0x22, ad_port = 34964, ad_ip = (192, 168, 0, 7),
     ad_annotation = [0x53, 0x37, 0x2D, 0x31, 0]\<rparr>"


end
