(* ===== verification/Pcap.thy ===== *)
theory Pcap
  imports Dcp
begin

text \<open>
  Model of \<open>src/pcap.rs\<close>: the capture filter, the choice of the source address, the
  aggregation of Identify responses and the discovery loop. libpcap and the operating system
  are arguments: the list of interfaces, the MAC lookup, and the sequence of outcomes of the
  receive calls of a capture. An error text that quotes an interface or a library error is a
  constructor of \<open>pcap_error\<close>.
\<close>

datatype pcap_error =
    NextPacketFailed string
  | MacLookupFailed string string
  | NoMacAddress string
  | DeviceListFailed string
  | InterfaceNotFound string
  | NoIpv4Address string
  | CaptureFailed string
  | RandomFailed string
  | DcpSendFailed string

section \<open>The capture\<close>

definition hex4_lower :: "u16 \<Rightarrow> string" where
  "hex4_lower w = map (\<lambda>i. hex_char (unat w div 16 ^ i mod 16)) [3, 2, 1, 0]"

definition bpf_filter :: "u16 \<Rightarrow> string" where
  "bpf_filter ethertype =
     ''ether proto 0x'' @ hex4_lower ethertype @ '' or (vlan and ether proto 0x'' @ hex4_lower ethertype @ '')''"

text \<open>
  One call of \<open>next_packet\<close> and the clock read behind a timeout: a packet, an expired read
  timeout with the time then, or an error.
\<close>

datatype packet_event = Packet bytes | ReadTimeout nat | PacketError string

fun raw_recv :: "nat \<Rightarrow> packet_event list \<Rightarrow> ((pcap_error + bytes option) \<times> packet_event list) option" where
  "raw_recv deadline [] = None"
| "raw_recv deadline (ev # rest) =
     (case ev of
        Packet data \<Rightarrow> Some (Inr (Some data), rest)
      | ReadTimeout now \<Rightarrow> if deadline \<le> now then Some (Inr None, rest) else raw_recv deadline rest
      | PacketError e \<Rightarrow> Some (Inl (NextPacketFailed e), rest))"

section \<open>Addresses of an interface\<close>

definition mac_lookup_names :: "string \<Rightarrow> string list" where
  "mac_lookup_names iface =
     (let prefix = [CHR 0x5C] @ ''Device'' @ [CHR 0x5C] @ ''NPF_'' in
      if take (length prefix) iface = prefix then [iface, drop (length prefix) iface] else [iface])"

text \<open>The candidates in turn; \<open>mac_of\<close> is the lookup of the operating system.\<close>

fun get_mac_loop :: "(string \<Rightarrow> string + bytes option) \<Rightarrow> string \<Rightarrow> string list \<Rightarrow> string option \<Rightarrow> pcap_error + bytes" where
  "get_mac_loop mac_of iface [] last_err =
     (case last_err of Some e \<Rightarrow> Inl (MacLookupFailed iface e) | None \<Rightarrow> Inl (NoMacAddress iface))"
| "get_mac_loop mac_of iface (c # cs) last_err =
     (case mac_of c of
        Inr (Some mac) \<Rightarrow> Inr mac
      | Inr None \<Rightarrow> get_mac_loop mac_of iface cs last_err
      | Inl e \<Rightarrow> get_mac_loop mac_of iface cs (Some e))"

definition get_mac :: "(string \<Rightarrow> string + bytes option) \<Rightarrow> string \<Rightarrow> pcap_error + bytes" where
  "get_mac mac_of iface = get_mac_loop mac_of iface (mac_lookup_names iface) None"

datatype ip_addr = V4 bytes | V6 bytes

record pcap_address =
  pa_addr :: ip_addr
  pa_netmask :: "ip_addr option"

record source_address =
  sa_ip :: bytes
  sa_reaches_target :: bool

definition same_network :: "bytes \<Rightarrow> bytes \<Rightarrow> bytes \<Rightarrow> bool" where
  "same_network a b m = list_all (\<lambda>i. a ! i AND m ! i = b ! i AND m ! i) [0..<4]"

definition v4_address :: "pcap_address \<Rightarrow> (bytes \<times> bytes option) option" where
  "v4_address a =
     (case pa_addr a of
        V4 ip \<Rightarrow> Some (ip, case pa_netmask a of Some (V4 m) \<Rightarrow> Some m | _ \<Rightarrow> None)
      | V6 _ \<Rightarrow> None)"

definition holds_target :: "bytes \<Rightarrow> bytes \<times> bytes option \<Rightarrow> bool" where
  "holds_target dst = (\<lambda>(ip, msk). case msk of None \<Rightarrow> False | Some m \<Rightarrow> m \<noteq> [0, 0, 0, 0] \<and> same_network ip dst m)"

definition pick_source_ipv4 :: "pcap_address list \<Rightarrow> bytes \<Rightarrow> source_address option" where
  "pick_source_ipv4 addresses dst =
     (let v4 = List.map_filter v4_address addresses in
      case find (holds_target dst) v4 of
        Some (ip, _) \<Rightarrow> Some \<lparr>sa_ip = ip, sa_reaches_target = True\<rparr>
      | None \<Rightarrow> (case v4 of [] \<Rightarrow> None | (ip, _) # _ \<Rightarrow> Some \<lparr>sa_ip = ip, sa_reaches_target = False\<rparr>))"

definition interface_addresses ::
    "string + (string \<times> pcap_address list) list \<Rightarrow> string \<Rightarrow> pcap_error + pcap_address list" where
  "interface_addresses devices iface =
     (case devices of
        Inl e \<Rightarrow> Inl (DeviceListFailed e)
      | Inr ds \<Rightarrow> (case find (\<lambda>d. fst d = iface) ds of
          None \<Rightarrow> Inl (InterfaceNotFound iface) | Some d \<Rightarrow> Inr (snd d)))"

definition get_ipv4_toward ::
    "string + (string \<times> pcap_address list) list \<Rightarrow> string \<Rightarrow> bytes \<Rightarrow> pcap_error + source_address" where
  "get_ipv4_toward devices iface dst =
     rbind (interface_addresses devices iface) (\<lambda>addresses.
       case pick_source_ipv4 addresses dst of None \<Rightarrow> Inl (NoIpv4Address iface) | Some a \<Rightarrow> Inr a)"

section \<open>Discovery\<close>

text \<open>\<open>devices.iter_mut().find(\<dots>)\<close>: the first device with the MAC is replaced in place.\<close>

fun upsert :: "dcp_device \<Rightarrow> dcp_device list \<Rightarrow> dcp_device list" where
  "upsert device [] = [device]"
| "upsert device (d # ds) = (if dd_mac d = dd_mac device then device # ds else d # upsert device ds)"

definition accept_response :: "bytes \<Rightarrow> u32 \<Rightarrow> bytes \<Rightarrow> dcp_device option option" where
  "accept_response my_mac expected_xid frame =
     (if length frame < 14 then Some None
      else do {
        dst \<leftarrow> sub_slice frame 0 6;
        if dst \<noteq> my_mac then Some None
        else do {
          x \<leftarrow> parse_dcp_xid frame;
          if x \<noteq> Some expected_xid then Some None
          else do {
            r \<leftarrow> parse_identify_response frame;
            Some (case r of Inl _ \<Rightarrow> None | Inr device \<Rightarrow> Some device) } } })"

fun aggregate_loop :: "bytes \<Rightarrow> u32 \<Rightarrow> bytes list \<Rightarrow> dcp_device list \<Rightarrow> dcp_device list option" where
  "aggregate_loop my_mac xid [] devices = Some devices"
| "aggregate_loop my_mac xid (frame # frames) devices = do {
     a \<leftarrow> accept_response my_mac xid frame;
     aggregate_loop my_mac xid frames (case a of None \<Rightarrow> devices | Some device \<Rightarrow> upsert device devices) }"

definition aggregate_responses :: "bytes list \<Rightarrow> bytes \<Rightarrow> u32 \<Rightarrow> dcp_device list option" where
  "aggregate_responses frames my_mac expected_xid = aggregate_loop my_mac expected_xid frames []"

text \<open>
  The receive loop of \<open>discover_until\<close>. An event is the clock at the top of the loop and the
  outcome of the receive call made with the time that is left.
\<close>

datatype recv_event = RecvFrame bytes | RecvNothing | RecvError pcap_error

fun discover_loop ::
    "bytes \<Rightarrow> u32 \<Rightarrow> (dcp_device list \<Rightarrow> bool) \<Rightarrow> nat \<Rightarrow> (nat \<times> recv_event) list \<Rightarrow> bytes list
       \<Rightarrow> (pcap_error + dcp_device list) option" where
  "discover_loop my_mac xid done_p deadline [] frames = map_option Inr (aggregate_responses frames my_mac xid)"
| "discover_loop my_mac xid done_p deadline ((now, ev) # rest) frames =
     (if deadline \<le> now then map_option Inr (aggregate_responses frames my_mac xid)
      else (case ev of
          RecvError e \<Rightarrow> Some (Inl e)
        | RecvNothing \<Rightarrow> map_option Inr (aggregate_responses frames my_mac xid)
        | RecvFrame frame \<Rightarrow> do {
            devices \<leftarrow> aggregate_responses (frames @ [frame]) my_mac xid;
            if done_p devices then Some (Inr devices)
            else discover_loop my_mac xid done_p deadline rest (frames @ [frame]) }))"

text \<open>
  The calls before the loop: opening the capture, the MAC, the random transaction id, sending.
  The second component is the frame that was sent, if sending was reached.
\<close>

definition discover_until ::
    "pcap_error + unit \<Rightarrow> pcap_error + bytes \<Rightarrow> pcap_error + u32 \<Rightarrow> pcap_error + unit \<Rightarrow> (dcp_device list \<Rightarrow> bool)
       \<Rightarrow> nat \<Rightarrow> (nat \<times> recv_event) list \<Rightarrow> ((pcap_error + dcp_device list) \<times> bytes option) option" where
  "discover_until opened mac rnd sent done_p deadline events =
     (case rbind opened (\<lambda>_. rbind mac (\<lambda>m. map_sum id (\<lambda>x. (m, x)) rnd)) of
        Inl e \<Rightarrow> Some (Inl e, None)
      | Inr (my_mac, xid) \<Rightarrow>
          (let req = identify_all_request my_mac xid in
           case sent of
             Inl e \<Rightarrow> Some (Inl e, Some req)
           | Inr _ \<Rightarrow> map_option (\<lambda>r. (r, Some req)) (discover_loop my_mac xid done_p deadline events [])))"

definition discover ::
    "pcap_error + unit \<Rightarrow> pcap_error + bytes \<Rightarrow> pcap_error + u32 \<Rightarrow> pcap_error + unit
       \<Rightarrow> nat \<Rightarrow> (nat \<times> recv_event) list \<Rightarrow> ((pcap_error + dcp_device list) \<times> bytes option) option" where
  "discover opened mac rnd sent deadline events = discover_until opened mac rnd sent (\<lambda>_. False) deadline events"

section \<open>What the aggregation computes\<close>

lemma accept_response_total: "accept_response my_mac xid frame \<noteq> None"
proof (cases "length frame < 14")
  case False
  obtain x where x: "parse_dcp_xid frame = Some x" using dcp_parsers_total [of frame] by blast
  obtain r where r: "parse_identify_response frame = Some r" using dcp_parsers_total [of frame] by blast
  show ?thesis using False x r by (simp add: accept_response_def)
qed (simp add: accept_response_def)

text \<open>The devices of the frames that count, in order of arrival.\<close>

definition accepted :: "bytes \<Rightarrow> u32 \<Rightarrow> bytes list \<Rightarrow> dcp_device list" where
  "accepted my_mac xid frames = List.map_filter (\<lambda>f. the (accept_response my_mac xid f)) frames"

text \<open>Per MAC, in the order the MACs were first seen, the latest response.\<close>

definition first_seen_macs :: "dcp_device list \<Rightarrow> bytes list" where
  "first_seen_macs ds = rev (remdups (rev (map dd_mac ds)))"

definition latest :: "dcp_device list \<Rightarrow> dcp_device list" where
  "latest ds = map (\<lambda>m. the (find (\<lambda>d. dd_mac d = m) (rev ds))) (first_seen_macs ds)"

lemma upsert_map:
  "distinct ms \<Longrightarrow> \<forall>m \<in> set ms. dd_mac (f m) = m \<Longrightarrow>
   upsert d (map f ms) = (if dd_mac d \<in> set ms then map (f(dd_mac d := d)) ms else map f ms @ [d])"
  by (induction ms) auto

lemma find_mac: "m \<in> dd_mac ` set ds \<Longrightarrow> dd_mac (the (find (\<lambda>d. dd_mac d = m) ds)) = m"
  by (induction ds) auto

lemma latest_snoc: "latest (ds @ [d]) = upsert d (latest ds)"
proof -
  let ?f = "\<lambda>m. the (find (\<lambda>d. dd_mac d = m) (rev ds))"
  have ms: "distinct (first_seen_macs ds)" "set (first_seen_macs ds) = dd_mac ` set ds"
    by (simp_all add: first_seen_macs_def)
  have fm: "\<forall>m \<in> set (first_seen_macs ds). dd_mac (?f m) = m"
    using find_mac [of _ "rev ds"] ms(2) by simp
  have g: "(\<lambda>m. the (find (\<lambda>e. dd_mac e = m) (rev (ds @ [d])))) = ?f(dd_mac d := d)" by auto
  have o: "first_seen_macs (ds @ [d]) =
      (if dd_mac d \<in> set (first_seen_macs ds) then first_seen_macs ds else first_seen_macs ds @ [dd_mac d])"
    by (auto simp: first_seen_macs_def)
  show ?thesis
    unfolding latest_def g upsert_map [OF ms(1) fm] o by auto
qed

lemma aggregate_loop_upsert:
  "aggregate_loop my_mac xid frames devices = Some (foldl (\<lambda>ds d. upsert d ds) devices (accepted my_mac xid frames))"
proof (induction frames arbitrary: devices)
  case (Cons f fs)
  obtain a where "accept_response my_mac xid f = Some a" using accept_response_total by blast
  then show ?case using Cons by (cases a) (simp_all add: accepted_def List.map_filter_simps)
qed (simp add: accepted_def List.map_filter_simps)

lemma foldl_upsert_latest: "foldl (\<lambda>ds d. upsert d ds) [] ds = latest ds"
  by (induction ds rule: rev_induct) (simp_all add: latest_snoc, simp add: latest_def first_seen_macs_def)

lemma aggregate_latest: "aggregate_responses frames my_mac xid = Some (latest (accepted my_mac xid frames))"
  by (simp add: aggregate_responses_def aggregate_loop_upsert foldl_upsert_latest)

section \<open>Discovery finds what answered\<close>

text \<open>What is captured on the segment: the answer of a device to our request, or anything else.\<close>

datatype capture = Answer "(u16 \<times> u16) list" bytes dcp_device | Other bytes

fun capture_frame :: "bytes \<Rightarrow> u32 \<Rightarrow> capture \<Rightarrow> bytes" where
  "capture_frame my_mac xid (Answer ts pad d) = identify_answer my_mac ts xid pad d"
| "capture_frame my_mac xid (Other f) = f"

definition not_for_us :: "bytes \<Rightarrow> u32 \<Rightarrow> bytes \<Rightarrow> bool" where
  "not_for_us my_mac xid f \<longleftrightarrow> length f < 14 \<or> take 6 f \<noteq> my_mac \<or> parse_dcp_xid f \<noteq> Some (Some xid)
     \<or> (\<exists>e. parse_identify_response f = Some (Inl e))"

fun capture_ok :: "bytes \<Rightarrow> u32 \<Rightarrow> capture \<Rightarrow> bool" where
  "capture_ok my_mac xid (Answer ts pad d) = identify_ok my_mac ts d"
| "capture_ok my_mac xid (Other f) = not_for_us my_mac xid f"

fun answering :: "capture \<Rightarrow> dcp_device option" where
  "answering (Answer ts pad d) = Some d"
| "answering (Other f) = None"

definition answers_of :: "capture list \<Rightarrow> dcp_device list" where
  "answers_of cs = List.map_filter answering cs"

lemma answer_accepted:
  assumes "identify_ok my_mac ts d"
  shows "accept_response my_mac xid (identify_answer my_mac ts xid pad d) = Some (Some d)"
proof -
  have ok: "frame_ok my_mac (dd_mac d) ts (identify_blocks d)" using assms by (simp add: identify_ok_def)
  let ?f = "identify_answer my_mac ts xid pad d"
  have l: "\<not> length ?f < 14"
    using ok by (simp add: identify_answer_def answer_frame_def dcp_header_def frame_ok_def)
  have m: "sub_slice ?f 0 6 = Some my_mac"
    using ok by (simp add: identify_answer_def answer_frame_def frame_ok_def)
  have x: "parse_dcp_xid ?f = Some (Some xid)"
    unfolding parse_dcp_xid_def identify_answer_def answer_frame_payload [OF ok] bind.bind_lunit sum.case
    using dcp_header_reads(1) dcp_header_accesses(5) by (simp add: order_trans [OF _ dcp_header_reads(1)])
  show ?thesis
    unfolding accept_response_def if_not_P [OF l] m bind.bind_lunit x ident.dec_enc [OF assms] by simp
qed

lemma other_skipped: "not_for_us my_mac xid f \<Longrightarrow> accept_response my_mac xid f = Some None"
  using accept_response_total [of my_mac xid f]
  by (auto simp: not_for_us_def accept_response_def sub_slice_def split: if_splits bind_splits)

lemma accepted_captures:
  "\<forall>c \<in> set cs. capture_ok my_mac xid c \<Longrightarrow> accepted my_mac xid (map (capture_frame my_mac xid) cs) = answers_of cs"
proof (induction cs)
  case (Cons c cs)
  then show ?case
    by (cases c) (simp_all add: accepted_def answers_of_def List.map_filter_simps answer_accepted other_skipped)
qed (simp add: accepted_def answers_of_def List.map_filter_simps)

definition heard :: "bytes \<Rightarrow> u32 \<Rightarrow> (nat \<times> capture) list \<Rightarrow> (nat \<times> recv_event) list" where
  "heard my_mac xid tcs = map (\<lambda>(t, c). (t, RecvFrame (capture_frame my_mac xid c))) tcs"

lemma discover_loop_prefix:
  assumes "\<forall>(t, c) \<in> set tcs. t < deadline" and "\<forall>j. 0 < j \<and> j \<le> length tcs \<longrightarrow>
      \<not> done_p (latest (accepted my_mac xid (frames @ map (capture_frame my_mac xid) (map snd (take j tcs)))))"
  shows "discover_loop my_mac xid done_p deadline (heard my_mac xid tcs @ rest) frames =
    discover_loop my_mac xid done_p deadline rest (frames @ map (capture_frame my_mac xid) (map snd tcs))"
  using assms
proof (induction tcs arbitrary: frames)
  case (Cons x tcs)
  obtain t c where x: "x = (t, c)" by (cases x)
  have "\<not> done_p (latest (accepted my_mac xid (frames @ [capture_frame my_mac xid c])))"
    using Cons.prems(2) [rule_format, of 1] by (simp add: x)
  moreover have "discover_loop my_mac xid done_p deadline (heard my_mac xid tcs @ rest) (frames @ [capture_frame my_mac xid c]) =
      discover_loop my_mac xid done_p deadline rest ((frames @ [capture_frame my_mac xid c]) @ map (capture_frame my_mac xid) (map snd tcs))"
  proof (rule Cons.IH)
    show "\<forall>j. 0 < j \<and> j \<le> length tcs \<longrightarrow> \<not> done_p (latest (accepted my_mac xid
        ((frames @ [capture_frame my_mac xid c]) @ map (capture_frame my_mac xid) (map snd (take j tcs)))))"
      using Cons.prems(2) [rule_format, of "Suc _"] by (auto simp: x)
  qed (use Cons.prems(1) in auto)
  ultimately show ?case using Cons.prems(1) by (simp add: x heard_def aggregate_latest)
qed (simp add: heard_def)

lemma latest_facts:
  "distinct (map dd_mac (latest ds))" "dd_mac ` set (latest ds) = dd_mac ` set ds" "set (latest ds) \<subseteq> set ds"
proof -
  let ?f = "\<lambda>m. the (find (\<lambda>d. dd_mac d = m) (rev ds))"
  have s: "set (first_seen_macs ds) = dd_mac ` set ds" by (simp add: first_seen_macs_def)
  have m: "m \<in> set (first_seen_macs ds) \<Longrightarrow> dd_mac (?f m) = m" for m
    using find_mac [of m "rev ds"] s by simp
  then have "map dd_mac (latest ds) = map id (first_seen_macs ds)"
    unfolding latest_def map_map by (intro map_cong) auto
  then show "distinct (map dd_mac (latest ds))" "dd_mac ` set (latest ds) = dd_mac ` set ds"
    using s by (simp add: first_seen_macs_def, metis image_set list.map_id)
  have "?f m \<in> set ds" if mm: "m \<in> dd_mac ` set ds" for m
  proof -
    obtain d where "find (\<lambda>d. dd_mac d = m) (rev ds) = Some d"
      using mm by (cases "find (\<lambda>d. dd_mac d = m) (rev ds)") (auto simp: find_None_iff)
    then have "d \<in> set (rev ds)" by (metis find_Some_iff nth_mem)
    then show ?thesis using \<open>find _ _ = Some d\<close> by simp
  qed
  then show "set (latest ds) \<subseteq> set ds" by (auto simp: latest_def s)
qed

text \<open>
  C33: Discovery returns exactly the devices that answered. Whatever else is captured in between
  (frames for others, answers to another controller's request, frames that are no Identify
  response), a discovery that runs to its deadline sends one Identify request and returns, in
  the order in which the devices were first heard, the latest answer of each, one entry per MAC;
  and a discovery with a stop condition returns after the first frame that fulfils it, with
  what was heard up to then.
\<close>

theorem discovery_exact:
  assumes "\<forall>x \<in> set tcs. fst x < deadline \<and> capture_ok my_mac xid (snd x)"
  shows "discover (Inr ()) (Inr my_mac) (Inr xid) (Inr ()) deadline (heard my_mac xid tcs @ [(t, RecvNothing)]) =
      Some (Inr (latest (answers_of (map snd tcs))), Some (identify_all_request my_mac xid))
    \<and> distinct (map dd_mac (latest (answers_of (map snd tcs))))
    \<and> dd_mac ` set (latest (answers_of (map snd tcs))) = dd_mac ` set (answers_of (map snd tcs))
    \<and> (\<forall>pre c t1 post. tcs = pre @ (t1, c) # post \<and> done_p (latest (answers_of (map snd pre @ [c])))
         \<and> (\<forall>j. 0 < j \<and> j \<le> length pre \<longrightarrow> \<not> done_p (latest (answers_of (map snd (take j pre)))))
         \<longrightarrow> discover_until (Inr ()) (Inr my_mac) (Inr xid) (Inr ()) done_p deadline (heard my_mac xid tcs @ rest) =
              Some (Inr (latest (answers_of (map snd pre @ [c]))), Some (identify_all_request my_mac xid)))"
proof (intro conjI allI impI latest_facts)
  have acc: "accepted my_mac xid (map (capture_frame my_mac xid) (map snd xs)) = answers_of (map snd xs)"
    if "set xs \<subseteq> set tcs" for xs
    using that assms by (intro accepted_captures) auto
  show "discover (Inr ()) (Inr my_mac) (Inr xid) (Inr ()) deadline (heard my_mac xid tcs @ [(t, RecvNothing)]) =
      Some (Inr (latest (answers_of (map snd tcs))), Some (identify_all_request my_mac xid))"
  proof -
    have "discover_loop my_mac xid (\<lambda>_. False) deadline (heard my_mac xid tcs @ [(t, RecvNothing)]) [] =
        discover_loop my_mac xid (\<lambda>_. False) deadline [(t, RecvNothing)] ([] @ map (capture_frame my_mac xid) (map snd tcs))"
      using assms by (intro discover_loop_prefix) auto
    then show ?thesis using acc [of tcs] by (simp add: discover_def discover_until_def aggregate_latest)
  qed
  fix pre c t1 post
  assume *: "tcs = pre @ (t1, c) # post \<and> done_p (latest (answers_of (map snd pre @ [c])))
    \<and> (\<forall>j. 0 < j \<and> j \<le> length pre \<longrightarrow> \<not> done_p (latest (answers_of (map snd (take j pre)))))"
  have t: "set (take j pre) \<subseteq> set tcs" for j using * set_take_subset [of j pre] by auto
  have "discover_loop my_mac xid done_p deadline (heard my_mac xid pre @ (heard my_mac xid ((t1, c) # post) @ rest)) [] =
      discover_loop my_mac xid done_p deadline (heard my_mac xid ((t1, c) # post) @ rest)
        ([] @ map (capture_frame my_mac xid) (map snd pre))"
    using * assms acc [OF t] by (intro discover_loop_prefix) force+
  moreover have "heard my_mac xid tcs = heard my_mac xid pre @ heard my_mac xid ((t1, c) # post)"
    using * by (simp add: heard_def)
  moreover have "accepted my_mac xid (map (capture_frame my_mac xid) (map snd pre) @ [capture_frame my_mac xid c]) =
      answers_of (map snd pre @ [c])"
    using acc [of "pre @ [(t1, c)]"] * by auto
  ultimately show "discover_until (Inr ()) (Inr my_mac) (Inr xid) (Inr ()) done_p deadline (heard my_mac xid tcs @ rest) =
      Some (Inr (latest (answers_of (map snd pre @ [c]))), Some (identify_all_request my_mac xid))"
    using * assms by (simp add: discover_until_def heard_def aggregate_latest)
qed

definition sample_device :: "u8 \<Rightarrow> bytes \<Rightarrow> dcp_device" where
  "sample_device k nm = \<lparr>dd_mac = [6, 7, 8, 9, 10, k], dd_name = nm, dd_device_type = [0x49],
     dd_ip = [10, 0, 0, 2], dd_netmask = [255, 255, 255, 0], dd_gateway = [0, 0, 0, 0], dd_vendor_id = 0x2A,
     dd_device_id = 0x301, dd_role = 1, dd_ip_block_info = Some 1\<rparr>"

lemma sample_device_ok: "length nm < 100 \<Longrightarrow> identify_ok [0, 1, 2, 3, 4, 5] [(0x8100, 0)] (sample_device k nm)"
  by (simp add: sample_device_def identify_ok_def frame_ok_def blocks_fit_def block_fits_def identify_blocks_def
      VLAN_TPIDS_def length_enc_block trim_nul_def)

theorem discovery_exact_witness:
  "discover (Inr ()) (Inr [0, 1, 2, 3, 4, 5]) (Inr 9) (Inr ()) 100
     (heard [0, 1, 2, 3, 4, 5] 9
        [(1, Answer [(0x8100, 0)] [] (sample_device 1 [0x61])), (2, Other [0, 1]),
         (3, Answer [(0x8100, 0)] [0] (sample_device 2 [0x62])), (4, Answer [(0x8100, 0)] [] (sample_device 1 [0x63]))]
      @ [(100, RecvNothing)]) =
   Some (Inr [sample_device 1 [0x63], sample_device 2 [0x62]], Some (identify_all_request [0, 1, 2, 3, 4, 5] 9))"
  using discovery_exact [of "[(1, Answer [(0x8100, 0)] [] (sample_device 1 [0x61])), (2, Other [0, 1]),
      (3, Answer [(0x8100, 0)] [0] (sample_device 2 [0x62])), (4, Answer [(0x8100, 0)] [] (sample_device 1 [0x63]))]"
      100 "[0, 1, 2, 3, 4, 5]" 9 100 "\<lambda>_. False" "[]"]
  by (simp add: sample_device_ok not_for_us_def answers_of_def List.map_filter_simps latest_def first_seen_macs_def)
     (simp add: sample_device_def)

section \<open>The source address\<close>

lemma map_filter_set: "y \<in> set (List.map_filter f xs) \<longleftrightarrow> (\<exists>x \<in> set xs. f x = Some y)"
  by (induction xs) (auto simp: List.map_filter_simps split: option.split)

lemma pick_source_none: "pick_source_ipv4 as dst = None \<longleftrightarrow> (\<forall>a \<in> set as. v4_address a = None)"
proof -
  have "List.map_filter v4_address as = [] \<longleftrightarrow> (\<forall>a \<in> set as. v4_address a = None)"
    by (induction as) (auto simp: List.map_filter_simps split: option.split)
  then show ?thesis
    by (auto simp: pick_source_ipv4_def Let_def split: option.split list.split)
qed

text \<open>
  The address picked is one of the interface's; it is marked as reaching the target exactly when
  some address with a known, non-zero netmask shares a network with it, and then it does itself.
\<close>

lemma pick_source_spec:
  assumes "pick_source_ipv4 as dst = Some s"
  shows "\<exists>a \<in> set as. \<exists>m. v4_address a = Some (sa_ip s, m) \<and> (sa_reaches_target s \<longrightarrow> holds_target dst (sa_ip s, m))"
    and "sa_reaches_target s \<longleftrightarrow> (\<exists>a \<in> set as. \<exists>x. v4_address a = Some x \<and> holds_target dst x)"
proof -
  let ?v = "List.map_filter v4_address as"
  consider (hit) ip m where "find (holds_target dst) ?v = Some (ip, m)" "s = \<lparr>sa_ip = ip, sa_reaches_target = True\<rparr>"
    | (first) ip m vs where "find (holds_target dst) ?v = None" "?v = (ip, m) # vs" "s = \<lparr>sa_ip = ip, sa_reaches_target = False\<rparr>"
    using assms by (auto simp: pick_source_ipv4_def Let_def split: option.splits list.splits)
  then have "(\<exists>a \<in> set as. \<exists>m. v4_address a = Some (sa_ip s, m) \<and> (sa_reaches_target s \<longrightarrow> holds_target dst (sa_ip s, m)))
    \<and> (sa_reaches_target s \<longleftrightarrow> (\<exists>a \<in> set as. \<exists>x. v4_address a = Some x \<and> holds_target dst x))"
  proof cases
    case hit
    then have "(ip, m) \<in> set ?v" "holds_target dst (ip, m)" by (auto simp: find_Some_iff)
    then show ?thesis using hit(2) by (auto simp: map_filter_set)
  next
    case first
    then have "(ip, m) \<in> set ?v" by simp
    then show ?thesis using first(1,3) by (auto simp: map_filter_set find_None_iff)
  qed
  then show "\<exists>a \<in> set as. \<exists>m. v4_address a = Some (sa_ip s, m) \<and> (sa_reaches_target s \<longrightarrow> holds_target dst (sa_ip s, m))"
    and "sa_reaches_target s \<longleftrightarrow> (\<exists>a \<in> set as. \<exists>x. v4_address a = Some x \<and> holds_target dst x)"
    by blast+
qed

end
