(* ===== verification/Device.thy ===== *)
theory Device
  imports Transport Epm Pcap Vendors Alarms
begin

text \<open>
  Model of \<open>src/device.rs\<close>: selecting a discovered device, the I\&M records that are written, and
  \<open>ProfinetDevice\<close>, which opens a connection on the first operation, keeps it, and releases it.

  A \<open>str\<close> is its UTF-8 byte string (\<open>Util\<close>); the argument of an I\&M writer, of which the source
  counts characters, is its list of code points. What a device opens is an oracle: the k-th
  transport and the random bytes of its constructor. Connections that were dropped are kept in
  a list, so that what happened to their ARs can be stated.
\<close>

definition CM_STATION_NAME :: bytes where "CM_STATION_NAME = [0x74, 0x70]"

section \<open>Selecting a device\<close>

definition lower_ascii :: "char \<Rightarrow> char" where
  "lower_ascii c = (if 65 \<le> byte_of c \<and> byte_of c \<le> 90 then char_of (byte_of c + 32) else c)"

definition parse_mac_flexible :: "string \<Rightarrow> bytes option" where
  "parse_mac_flexible s =
     (let normalized = map (\<lambda>c. if c = CHR ''-'' \<or> c = CHR ''.'' then CHR '':'' else c) (map lower_ascii (trim_utf8 s))
      in case s2mac normalized of Inr m \<Rightarrow> Some m | Inl _ \<Rightarrow> None)"

definition station_name :: "dcp_device \<Rightarrow> string" where
  "station_name d = string_of (from_utf8_lossy (dd_name d))"

definition find_by_identifier :: "dcp_device list \<Rightarrow> string \<Rightarrow> dcp_device option" where
  "find_by_identifier devices identifier =
     (case parse_mac_flexible identifier of
        Some mac \<Rightarrow> find (\<lambda>d. dd_mac d = mac) devices
      | None \<Rightarrow> find (\<lambda>d. station_name d = identifier) devices)"

definition ok_of :: "'e + 'a \<Rightarrow> 'a option" where
  "ok_of r = (case r of Inr x \<Rightarrow> Some x | Inl _ \<Rightarrow> None)"

definition find_by_ip :: "dcp_device list \<Rightarrow> string \<Rightarrow> dcp_device option" where
  "find_by_ip devices ip = find (\<lambda>d. ok_of (s2ip (dd_ip d)) = Some ip) devices"

section \<open>Records that are written\<close>

datatype dev_error = Rpc string | FieldTooLong string nat | NotLatin1 string nat

fun latin1_chars :: "string \<Rightarrow> nat list \<Rightarrow> dev_error + bytes" where
  "latin1_chars what [] = Inr []"
| "latin1_chars what (code # cs) =
     (if code > 0xFF then Inl (NotLatin1 what code)
      else rbind (latin1_chars what cs) (\<lambda>bs. Inr (of_nat code # bs)))"

definition latin1_field :: "nat list \<Rightarrow> nat \<Rightarrow> string \<Rightarrow> dev_error + bytes" where
  "latin1_field s width what =
     (if length s > width then Inl (FieldTooLong what width)
      else rbind (latin1_chars what s) (\<lambda>out. Inr (take width (out @ replicate (width - length out) 0x20))))"

definition im1_record :: "nat list \<Rightarrow> nat list \<Rightarrow> dev_error + bytes" where
  "im1_record tag_function tag_location =
     rbind (latin1_field tag_function 32 ''tag_function'') (\<lambda>f.
     rbind (latin1_field tag_location 22 ''tag_location'') (\<lambda>l.
       Inr (block_header 0x0021 58 1 0 @ [0, 0] @ f @ l)))"

definition im2_record :: "nat list \<Rightarrow> dev_error + bytes" where
  "im2_record date =
     rbind (latin1_field date 16 ''date'') (\<lambda>f. Inr (block_header 0x0022 20 1 0 @ [0, 0] @ f))"

definition im3_record :: "nat list \<Rightarrow> dev_error + bytes" where
  "im3_record descriptor =
     rbind (latin1_field descriptor 54 ''descriptor'') (\<lambda>f. Inr (block_header 0x0023 58 1 0 @ [0, 0] @ f))"

definition alarm_from_record :: "bytes \<Rightarrow> alarm_notification option option" where
  "alarm_from_record data =
     (if length data < 28 then Some None
      else do { r \<leftarrow> parse_alarm_notification data; Some (ok_of r) })"

section \<open>Data types\<close>

record write_item =
  wi_slot :: u16
  wi_subslot :: u16
  wi_index :: u16
  wi_data :: bytes

record all_im =
  ai_im0 :: "in_m0 option"
  ai_im1 :: "in_m1 option"
  ai_im2 :: "in_m2 option"
  ai_im3 :: "in_m3 option"

record device_info =
  di_name :: string
  di_ip :: string
  di_mac :: string
  di_vendor_id :: u16
  di_device_id :: u16
  di_device_type :: string
  di_netmask :: string
  di_gateway :: string
  di_role :: u8
  di_vendor_name :: string
  di_im0 :: "in_m0 option"
  di_topology :: "pd_real_data option"
  di_annotation :: string

definition ip_or_empty :: "bytes \<Rightarrow> string" where
  "ip_or_empty b = (case s2ip b of Inr s \<Rightarrow> s | Inl _ \<Rightarrow> [])"

definition from_dcp :: "dcp_device \<Rightarrow> device_info" where
  "from_dcp d =
     \<lparr>di_name = station_name d, di_ip = ip_or_empty (dd_ip d), di_mac = mac2s (dd_mac d),
      di_vendor_id = dd_vendor_id d, di_device_id = dd_device_id d,
      di_device_type = string_of (from_utf8_lossy (dd_device_type d)),
      di_netmask = ip_or_empty (dd_netmask d), di_gateway = ip_or_empty (dd_gateway d), di_role = dd_role d,
      di_vendor_name = get_vendor_name (dd_vendor_id d),
      di_im0 = None, di_topology = None, di_annotation = []\<rparr>"

definition di_serial_number :: "device_info \<Rightarrow> string" where
  "di_serial_number i = (case di_im0 i of None \<Rightarrow> [] | Some m \<Rightarrow> trim_utf8 (string_of (from_utf8_lossy (serial_number_str m))))"

definition di_order_id :: "device_info \<Rightarrow> string" where
  "di_order_id i = (case di_im0 i of None \<Rightarrow> [] | Some m \<Rightarrow> trim_utf8 (string_of (from_utf8_lossy (order_id_str m))))"

definition di_hardware_revision :: "device_info \<Rightarrow> u16" where
  "di_hardware_revision i = (case di_im0 i of None \<Rightarrow> 0 | Some m \<Rightarrow> im0_hardware_revision m)"

definition di_software_revision :: "device_info \<Rightarrow> string" where
  "di_software_revision i = (case di_im0 i of None \<Rightarrow> [] | Some m \<Rightarrow> software_revision m)"

section \<open>The device\<close>

text \<open>
  The k-th call of \<open>new_raw\<close>: the transport, or the error of its random port or its capture, and
  the random session key, activity UUID and AR UUID.
\<close>

record open_outcome =
  oo_transport :: "string + transport"
  oo_key :: "string + u16"
  oo_activity :: "string + bytes"
  oo_ar :: "string + bytes"

record profinet_device =
  pd_info :: dcp_device
  pd_interface :: string
  pd_src_mac :: bytes
  pd_src_ip :: bytes
  pd_timeout :: nat
  pd_rpc :: "rpc_conn option"
  pd_open :: "nat \<Rightarrow> open_outcome"
  pd_opened :: nat
  pd_closed :: "rpc_conn list"

type_synonym 'a dev = "profinet_device \<Rightarrow> ((string + 'a) \<times> profinet_device) option"

definition device_new ::
    "dcp_device \<Rightarrow> string \<Rightarrow> bytes \<Rightarrow> bytes \<Rightarrow> nat \<Rightarrow> (nat \<Rightarrow> open_outcome) \<Rightarrow> profinet_device" where
  "device_new info interface src_mac src_ip timeout opens =
     \<lparr>pd_info = info, pd_interface = interface, pd_src_mac = src_mac, pd_src_ip = src_ip, pd_timeout = timeout,
      pd_rpc = None, pd_open = opens, pd_opened = 0, pd_closed = []\<rparr>"

text \<open>
  The constructors. The result of the discovery, the interface's MAC and the list of interfaces
  are arguments, as in \<open>Pcap\<close>.
\<close>

datatype select_error = Capture pcap_error | DeviceNotFound string | NoDeviceAtIp string

definition from_dcp_info ::
    "dcp_device \<Rightarrow> string \<Rightarrow> nat \<Rightarrow> (string \<Rightarrow> string + bytes option) \<Rightarrow> string + (string \<times> pcap_address list) list
       \<Rightarrow> (nat \<Rightarrow> open_outcome) \<Rightarrow> pcap_error + profinet_device" where
  "from_dcp_info info interface timeout mac_of devices opens =
     rbind (get_mac mac_of interface) (\<lambda>src_mac.
     rbind (get_ipv4_toward devices interface (dd_ip info)) (\<lambda>a.
       Inr (device_new info interface src_mac (sa_ip a) timeout opens)))"

definition select_device ::
    "pcap_error + dcp_device list \<Rightarrow> (dcp_device list \<Rightarrow> dcp_device option) \<Rightarrow> select_error \<Rightarrow> string \<Rightarrow> nat
       \<Rightarrow> (string \<Rightarrow> string + bytes option) \<Rightarrow> string + (string \<times> pcap_address list) list
       \<Rightarrow> (nat \<Rightarrow> open_outcome) \<Rightarrow> select_error + profinet_device" where
  "select_device found pick missing interface timeout mac_of devices opens =
     (case found of
        Inl e \<Rightarrow> Inl (Capture e)
      | Inr ds \<Rightarrow>
          (case pick ds of
             None \<Rightarrow> Inl missing
           | Some info \<Rightarrow> map_sum Capture id (from_dcp_info info interface timeout mac_of devices opens)))"

definition dev_discover ::
    "pcap_error + dcp_device list \<Rightarrow> string \<Rightarrow> string \<Rightarrow> nat
       \<Rightarrow> (string \<Rightarrow> string + bytes option) \<Rightarrow> string + (string \<times> pcap_address list) list
       \<Rightarrow> (nat \<Rightarrow> open_outcome) \<Rightarrow> select_error + profinet_device" where
  "dev_discover found identifier =
     select_device found (\<lambda>ds. find_by_identifier ds identifier) (DeviceNotFound identifier)"

definition from_name ::
    "pcap_error + dcp_device list \<Rightarrow> string \<Rightarrow> string \<Rightarrow> nat
       \<Rightarrow> (string \<Rightarrow> string + bytes option) \<Rightarrow> string + (string \<times> pcap_address list) list
       \<Rightarrow> (nat \<Rightarrow> open_outcome) \<Rightarrow> select_error + profinet_device" where
  "from_name found name = select_device found (\<lambda>ds. find (\<lambda>d. station_name d = name) ds) (DeviceNotFound name)"

definition from_ip ::
    "pcap_error + dcp_device list \<Rightarrow> string \<Rightarrow> string \<Rightarrow> nat
       \<Rightarrow> (string \<Rightarrow> string + bytes option) \<Rightarrow> string + (string \<times> pcap_address list) list
       \<Rightarrow> (nat \<Rightarrow> open_outcome) \<Rightarrow> select_error + profinet_device" where
  "from_ip found ip = select_device found (\<lambda>ds. find_by_ip ds ip) (NoDeviceAtIp ip)"

definition scan ::
    "string \<Rightarrow> nat \<Rightarrow> (string \<Rightarrow> string + bytes option) \<Rightarrow> string + (string \<times> pcap_address list) list
       \<Rightarrow> pcap_error + dcp_device list \<Rightarrow> (nat \<Rightarrow> open_outcome) \<Rightarrow> pcap_error + profinet_device list" where
  "scan interface timeout mac_of devices found opens =
     rbind (get_mac mac_of interface) (\<lambda>src_mac.
     rbind (interface_addresses devices interface) (\<lambda>addresses.
     rbind found (\<lambda>infos.
       traverse (\<lambda>info.
         case pick_source_ipv4 addresses (dd_ip info) of
           None \<Rightarrow> Inl (NoIpv4Address interface)
         | Some a \<Rightarrow> Inr (device_new info interface src_mac (sa_ip a) timeout opens)) infos)))"

subsection \<open>Connection management\<close>

definition new_transport :: "profinet_device \<Rightarrow> (string + rpc_conn) \<times> profinet_device" where
  "new_transport d =
     (let o1 = pd_open d (pd_opened d) in
      (rbind (oo_transport o1) (\<lambda>t. with_transport t (dd_device_id (pd_info d)) (dd_vendor_id (pd_info d)) (pd_timeout d)
         (oo_key o1) (oo_activity o1) (oo_ar o1)),
       d\<lparr>pd_opened := pd_opened d + 1\<rparr>))"

text \<open>A connection that goes out of scope: its \<open>Drop\<close> runs.\<close>

definition drop_conn :: "rpc_conn \<Rightarrow> profinet_device \<Rightarrow> profinet_device option" where
  "drop_conn c d = do { c' \<leftarrow> rc_drop c; Some (d\<lparr>pd_closed := pd_closed d @ [c']\<rparr>) }"

definition dev_connect :: "unit dev" where
  "dev_connect d =
     (if pd_rpc d \<noteq> None then Some (Inr (), d)
      else (case new_transport d of
          (Inl e, d1) \<Rightarrow> Some (Inl e, d1)
        | (Inr conn, d1) \<Rightarrow> do {
            (r, conn1) \<leftarrow> connect_device_access (pd_src_mac d1) CM_STATION_NAME conn;
            (case r of
               Inl e \<Rightarrow> do {
                 d2 \<leftarrow> drop_conn conn1 d1;
                 Some (Inl (''Failed to connect to '' @ station_name (pd_info d) @ '': '' @ e), d2) }
             | Inr _ \<Rightarrow> Some (Inr (), d1\<lparr>pd_rpc := Some conn1\<rparr>)) }))"

definition disconnect :: "profinet_device \<Rightarrow> profinet_device option" where
  "disconnect d =
     (case pd_rpc d of
        None \<Rightarrow> Some d
      | Some rpc \<Rightarrow> do { rpc1 \<leftarrow> release rpc; drop_conn rpc1 (d\<lparr>pd_rpc := None\<rparr>) })"

definition dev_close :: "profinet_device \<Rightarrow> profinet_device option" where
  "dev_close d = disconnect d"

text \<open>\<open>Drop for ProfinetDevice\<close>.\<close>

definition dev_drop :: "profinet_device \<Rightarrow> profinet_device option" where
  "dev_drop d = dev_close d"

definition ensure_connected :: "unit dev" where
  "ensure_connected d = (if pd_rpc d = None then dev_connect d else Some (Inr (), d))"

text \<open>An operation on the connection that is there; \<open>expect\<close> panics where there is none.\<close>

definition on_rpc :: "(rpc_conn \<Rightarrow> ('r \<times> rpc_conn) option) \<Rightarrow> profinet_device \<Rightarrow> ('r \<times> profinet_device) option" where
  "on_rpc m d =
     (case pd_rpc d of
        None \<Rightarrow> None
      | Some c \<Rightarrow> do { (r, c') \<leftarrow> m c; Some (r, d\<lparr>pd_rpc := Some c'\<rparr>) })"

definition connected_op :: "'a io \<Rightarrow> 'a dev" where
  "connected_op m d = do {
     (r, d1) \<leftarrow> ensure_connected d;
     (case r of Inl e \<Rightarrow> Some (Inl e, d1) | Inr _ \<Rightarrow> on_rpc m d1) }"

definition is_connected :: "profinet_device \<Rightarrow> bool" where
  "is_connected d \<longleftrightarrow> pd_rpc d \<noteq> None"

definition dev_name :: "profinet_device \<Rightarrow> string" where
  "dev_name d = station_name (pd_info d)"

definition dev_ip :: "profinet_device \<Rightarrow> string" where
  "dev_ip d = ip_or_empty (dd_ip (pd_info d))"

definition dev_mac :: "profinet_device \<Rightarrow> string" where
  "dev_mac d = mac2s (dd_mac (pd_info d))"

subsection \<open>Records\<close>

definition read_record_implicit_len :: "u16 \<Rightarrow> u16 \<Rightarrow> u16 \<Rightarrow> u32 \<Rightarrow> bytes dev" where
  "read_record_implicit_len slot subslot index len d =
     (if pd_rpc d \<noteq> None then on_rpc (read_raw_implicit index slot subslot len) d
      else (case new_transport d of
          (Inl e, d1) \<Rightarrow> Some (Inl e, d1)
        | (Inr conn, d1) \<Rightarrow> do {
            (r, conn1) \<leftarrow> read_raw_implicit index slot subslot len conn;
            d2 \<leftarrow> drop_conn conn1 d1;
            Some (r, d2) }))"

definition read_record_implicit :: "u16 \<Rightarrow> u16 \<Rightarrow> u16 \<Rightarrow> bytes dev" where
  "read_record_implicit slot subslot index = read_record_implicit_len slot subslot index READ_LENGTH"

definition read_record_len :: "u16 \<Rightarrow> u16 \<Rightarrow> u16 \<Rightarrow> u32 \<Rightarrow> bytes dev" where
  "read_record_len slot subslot index len d = do {
     (r, d1) \<leftarrow> ensure_connected d;
     (case r of
        Inl _ \<Rightarrow> read_record_implicit_len slot subslot index len d1
      | Inr _ \<Rightarrow> on_rpc (read_raw index slot subslot len) d1) }"

definition read_record :: "u16 \<Rightarrow> u16 \<Rightarrow> u16 \<Rightarrow> bytes dev" where
  "read_record slot subslot index = read_record_len slot subslot index READ_LENGTH"

definition write_record :: "u16 \<Rightarrow> u16 \<Rightarrow> u16 \<Rightarrow> bytes \<Rightarrow> unit dev" where
  "write_record slot subslot index data = connected_op (rc_write index slot subslot data)"

definition dev_write_multiple :: "write_item list \<Rightarrow> write_multiple_result list dev" where
  "dev_write_multiple writes =
     connected_op (write_multiple (map (\<lambda>w. (wi_index w, wi_slot w, wi_subslot w, wi_data w)) writes))"
subsection \<open>I\&M, diagnosis, topology\<close>

text \<open>A read whose payload goes through a parser.\<close>

definition parsed :: "bytes dev \<Rightarrow> (bytes \<Rightarrow> (string + 'a) option) \<Rightarrow> 'a dev" where
  "parsed m p d = do {
     (r, d1) \<leftarrow> m d;
     (case r of Inl e \<Rightarrow> Some (Inl e, d1) | Inr payload \<Rightarrow> map_option (\<lambda>x. (x, d1)) (p payload)) }"

definition read_im0_at :: "u16 \<Rightarrow> u16 \<Rightarrow> in_m0 dev" where
  "read_im0_at slot subslot = parsed (read_record_len slot subslot IM0 READ_LENGTH) parse_im0"

definition read_im1_at :: "u16 \<Rightarrow> u16 \<Rightarrow> in_m1 dev" where
  "read_im1_at slot subslot = parsed (read_record_len slot subslot IM1 READ_LENGTH) parse_im1"

definition read_im2_at :: "u16 \<Rightarrow> u16 \<Rightarrow> in_m2 dev" where
  "read_im2_at slot subslot = parsed (read_record_len slot subslot IM2 READ_LENGTH) parse_im2"

definition read_im3_at :: "u16 \<Rightarrow> u16 \<Rightarrow> in_m3 dev" where
  "read_im3_at slot subslot = parsed (read_record_len slot subslot IM3 READ_LENGTH) parse_im3"

definition dev_read_im0 :: "in_m0 dev" where "dev_read_im0 = read_im0_at 0 1"
definition dev_read_im1 :: "in_m1 dev" where "dev_read_im1 = read_im1_at 0 1"
definition dev_read_im2 :: "in_m2 dev" where "dev_read_im2 = read_im2_at 0 1"
definition dev_read_im3 :: "in_m3 dev" where "dev_read_im3 = read_im3_at 0 1"

definition read_all_im :: "u16 \<Rightarrow> u16 \<Rightarrow> all_im dev" where
  "read_all_im slot subslot d = do {
     (r0, d0) \<leftarrow> read_im0_at slot subslot d;
     (r1, d1) \<leftarrow> read_im1_at slot subslot d0;
     (r2, d2) \<leftarrow> read_im2_at slot subslot d1;
     (r3, d3) \<leftarrow> read_im3_at slot subslot d2;
     Some (Inr \<lparr>ai_im0 = ok_of r0, ai_im1 = ok_of r1, ai_im2 = ok_of r2, ai_im3 = ok_of r3\<rparr>, d3) }"

text \<open>A writer of an I\&M record: the record is built first, then written.\<close>

definition write_built :: "u16 \<Rightarrow> dev_error + bytes \<Rightarrow> profinet_device \<Rightarrow> ((dev_error + unit) \<times> profinet_device) option" where
  "write_built index record d =
     (case record of
        Inl e \<Rightarrow> Some (Inl e, d)
      | Inr data \<Rightarrow> map_option (\<lambda>(r, d1). (map_sum Rpc id r, d1)) (write_record 0 1 index data d))"

definition write_im1 :: "nat list \<Rightarrow> nat list \<Rightarrow> profinet_device \<Rightarrow> ((dev_error + unit) \<times> profinet_device) option" where
  "write_im1 tag_function tag_location = write_built IM1 (im1_record tag_function tag_location)"

definition write_im2 :: "nat list \<Rightarrow> profinet_device \<Rightarrow> ((dev_error + unit) \<times> profinet_device) option" where
  "write_im2 date = write_built IM2 (im2_record date)"

definition write_im3 :: "nat list \<Rightarrow> profinet_device \<Rightarrow> ((dev_error + unit) \<times> profinet_device) option" where
  "write_im3 descriptor = write_built IM3 (im3_record descriptor)"

definition succeeds :: "(rpc_conn \<Rightarrow> ('a \<times> rpc_conn) option) \<Rightarrow> 'a io" where
  "succeeds m c = map_option (\<lambda>(x, c'). (Inr x, c')) (m c)"

definition dev_read_diagnosis :: "u16 \<Rightarrow> u16 \<Rightarrow> u16 \<Rightarrow> diagnosis_data dev" where
  "dev_read_diagnosis slot subslot index = connected_op (succeeds (read_diagnosis slot subslot index))"

definition dev_read_all_diagnosis :: "(u16 \<times> diagnosis_data) list dev" where
  "dev_read_all_diagnosis = connected_op (succeeds read_all_diagnosis)"

definition dev_discover_slots :: "device_slot list dev" where
  "dev_discover_slots = connected_op discover_slots"

definition read_topology :: "pd_real_data dev" where
  "read_topology = connected_op read_pd_real_data"

definition read_alarm :: "u16 \<Rightarrow> u16 \<Rightarrow> u16 \<Rightarrow> profinet_device \<Rightarrow> (alarm_notification option \<times> profinet_device) option" where
  "read_alarm slot subslot index d = do {
     (r, d1) \<leftarrow> read_record slot subslot index d;
     (case r of Inl _ \<Rightarrow> Some (None, d1) | Inr data \<Rightarrow> map_option (\<lambda>a. (a, d1)) (alarm_from_record data)) }"

subsection \<open>The summary\<close>

text \<open>
  The lookup at the endpoint mapper: random bytes, the capture it opens on a port, the outcome of
  the send, the clock and the frames that follow. The end of the frames is the deadline.
\<close>

record epm_env =
  ee_rnd :: "string + bytes"
  ee_raw :: "u16 \<Rightarrow> string + raw_udp"
  ee_sent :: "string + unit"
  ee_now :: nat
  ee_frames :: "(nat \<times> sock_recv) list"
  ee_recv_error :: string

definition epm_lookup :: "epm_env \<Rightarrow> nat \<Rightarrow> string option \<Rightarrow> (string + epm_endpoint list) option" where
  "epm_lookup env timeout interface_filter =
     (case ee_rnd env of
        Inl e \<Rightarrow> Some (Inl e)
      | Inr rnd \<Rightarrow> do {
          hi \<leftarrow> idx rnd 16; lo \<leftarrow> idx rnd 17;
          let local_port = 49152 + from_be16 hi lo mod 16384;
          r \<leftarrow> epm_lookup_request (take 16 rnd) interface_filter;
          (case r of
             Inl e \<Rightarrow> Some (Inl e)
           | Inr req \<Rightarrow>
               (case ee_raw env local_port of
                  Inl e \<Rightarrow> Some (Inl e)
                | Inr raw \<Rightarrow> do {
                    (_, raw1) \<leftarrow> send_to req RPC_PORT raw;
                    (case ee_sent env of
                       Inl e \<Rightarrow> Some (Inl e)
                     | Inr _ \<Rightarrow> do {
                         x \<leftarrow> recv_from (ee_now env) timeout (ee_frames env) raw1;
                         (case x of
                            RecvHit payload _ \<Rightarrow> map_option Inr (parse_epm_response payload)
                          | udp_recv.RecvError \<Rightarrow> Some (Inl (ee_recv_error env))
                          | _ \<Rightarrow> Some (Inr [])) }) })) })"

definition get_info :: "bool \<Rightarrow> epm_env \<Rightarrow> device_info dev" where
  "get_info include_topology env d = do {
     let info = from_dcp (pd_info d);
     (r, d1) \<leftarrow> ensure_connected d;
     (case r of
        Inl e \<Rightarrow> Some (Inl e, d1)
      | Inr _ \<Rightarrow> do {
          (i, d2) \<leftarrow> on_rpc (read_im0 0 1) d1;
          (t, d3) \<leftarrow> (if include_topology
             then do { (x, d3) \<leftarrow> on_rpc read_pd_real_data d2; Some (ok_of x, d3) } else Some (None, d2));
          eps \<leftarrow> epm_lookup env (pd_timeout d) None;
          let annotation = (case eps of
             Inl _ \<Rightarrow> []
           | Inr es \<Rightarrow> (case find (\<lambda>ep. ep_annotation ep \<noteq> []) es of None \<Rightarrow> [] | Some ep \<Rightarrow> ep_annotation ep));
          Some (Inr (info\<lparr>di_im0 := ok_of i, di_topology := t, di_annotation := string_of (from_utf8_lossy annotation)\<rparr>), d3) }) }"

section \<open>No application relationship is abandoned\<close>

text \<open>Operations of a connection that leave the AR as it is.\<close>

definition keeps :: "(rpc_conn \<Rightarrow> ('r \<times> rpc_conn) option) \<Rightarrow> bool" where
  "keeps m \<longleftrightarrow> (\<forall>c r c'. m c = Some (r, c') \<longrightarrow> co_connected c' = co_connected c)"

named_theorems keeps_rules

lemma keeps_cbind [keeps_rules]: "keeps m \<Longrightarrow> (\<And>x. keeps (f x)) \<Longrightarrow> keeps (cbind m f)"
  unfolding keeps_def cbind_def by (fastforce split: option.splits sum.splits)

lemma keeps_pure [keeps_rules]: "keeps (pure_io r)"
  by (auto simp: keeps_def pure_io_def)

lemma keeps_send_receive [keeps_rules]: "keeps (send_receive req)"
  by (auto simp: keeps_def send_receive_def split: option.splits sum.splits prod.splits Option.bind_splits)

lemma keeps_next_seq:
  "(\<And>sq. keeps (f sq)) \<Longrightarrow> keeps (\<lambda>c. Option.bind (next_seq c) (\<lambda>(sq, c1). f sq c1))"
  by (fastforce simp: keeps_def next_seq_def split: if_splits)

lemma keeps_send_read [keeps_rules]: "keeps (send_read req)"
  unfolding send_read_def by (intro keeps_rules)

lemma keeps_same: "keeps (\<lambda>c. f (g c) c)" if "\<And>x. keeps (f x)"
  using that by (auto simp: keeps_def)

lemma keeps_read [keeps_rules]: "keeps (read_raw i s t n)" "keeps (read_raw_implicit i s t n)"
proof -
  show "keeps (read_raw i s t n)"
    using keeps_send_read by (fastforce simp: keeps_def read_raw_def next_seq_def split: if_splits)
  show "keeps (read_raw_implicit i s t n)"
    using keeps_send_read by (fastforce simp: keeps_def read_raw_implicit_def next_seq_def split: if_splits)
qed

lemma keeps_write [keeps_rules]: "keeps (rc_write i s t d)" "keeps (write_multiple ws)"
proof -
  have "keeps (cbind (send_receive req) (\<lambda>resp. cbind (pure_io (p resp)) (\<lambda>x. pure_io (q resp x))))"
    for req and p :: "parsed_rpc \<Rightarrow> (string + bytes) option" and q :: "parsed_rpc \<Rightarrow> bytes \<Rightarrow> (string + 'z) option"
    by (intro keeps_rules)
  note k = this [unfolded keeps_def, rule_format]
  show "keeps (rc_write i s t d)"
    unfolding keeps_def rc_write_def by (auto simp: next_seq_def split: if_splits dest!: k)
  show "keeps (write_multiple ws)"
    unfolding keeps_def write_multiple_def by (auto simp: next_seq_def Let_def split: if_splits dest!: k)
qed

lemma keeps_records [keeps_rules]:
  "keeps (read_im0 s t)" "keeps read_pd_real_data" "keeps read_real_identification_data" "keeps discover_slots"
  unfolding read_im0_def read_pd_real_data_def discover_slots_def read_real_identification_data_def
  by (intro keeps_rules)+

lemma keeps_diagnosis: "keeps (read_diagnosis s t i)"
  unfolding keeps_def read_diagnosis_def
  using keeps_read(1) [of i s t READ_LENGTH, unfolded keeps_def]
  by (fastforce split: sum.splits if_splits Option.bind_splits prod.splits)

lemma keeps_diagnosis_loop: "diagnosis_loop xs res c = Some (r, c') \<Longrightarrow> co_connected c' = co_connected c"
proof (induction xs res c rule: diagnosis_loop.induct)
  case (2 i s t rest res c)
  from 2(2) obtain dg c1 where "read_diagnosis s t i c = Some (dg, c1)"
    "diagnosis_loop rest (if dd_entries dg \<noteq> [] then bt_insert i dg res else res) c1 = Some (r, c')"
    by (auto simp: bind_eq_Some_conv)
  moreover have "co_connected c1 = co_connected c" using keeps_diagnosis calculation(1) by (auto simp: keeps_def)
  ultimately show ?case using 2(1) by auto
qed simp

lemma keeps_succeeds [keeps_rules]:
  "keeps (succeeds (read_diagnosis s t i))" "keeps (succeeds read_all_diagnosis)"
  using keeps_diagnosis keeps_diagnosis_loop
  by (fastforce simp: keeps_def succeeds_def read_all_diagnosis_def)+

lemma connect_device_access_connected:
  assumes "connect_device_access m nm c = Some (r, c')"
  shows "co_connected c' = (co_connected c \<or> \<not> isl r)"
proof -
  obtain sq where n: "next_seq c = Some (sq, c\<lparr>co_sequence_number := co_sequence_number c + 1\<rparr>)"
    using assms by (auto simp: connect_device_access_def next_seq_def split: if_splits)
  show ?thesis
    using assms keeps_send_receive unfolding keeps_def
    by (fastforce simp: connect_device_access_def n cbind_def map_err_def pure_io_def Let_def
        split: option.splits sum.splits)
qed

lemma release_disconnects: "release c = Some c' \<Longrightarrow> \<not> co_connected c'"
  by (auto simp: release_def Let_def split: if_splits Option.bind_splits)

text \<open>
  The invariant: the connection that is kept has its AR, no connection that was dropped has one,
  and every transport that was opened is either kept or dropped.
\<close>

definition opens_at :: "profinet_device \<Rightarrow> nat \<Rightarrow> bool" where
  "opens_at d k = (\<not> isl (fst (new_transport (d\<lparr>pd_opened := k\<rparr>))))"

definition kept :: "profinet_device \<Rightarrow> nat" where
  "kept d = (if pd_rpc d = None then 0 else 1)"

definition dev_inv :: "profinet_device \<Rightarrow> bool" where
  "dev_inv d \<longleftrightarrow> (\<forall>c. pd_rpc d = Some c \<longrightarrow> co_connected c) \<and> (\<forall>c \<in> set (pd_closed d). \<not> co_connected c)
     \<and> length (pd_closed d) + kept d = length (filter (opens_at d) [0..<pd_opened d])"

definition same_device :: "profinet_device \<Rightarrow> profinet_device \<Rightarrow> bool" where
  "same_device d d' \<longleftrightarrow> pd_info d' = pd_info d \<and> pd_interface d' = pd_interface d \<and> pd_src_mac d' = pd_src_mac d
     \<and> pd_src_ip d' = pd_src_ip d \<and> pd_timeout d' = pd_timeout d \<and> pd_open d' = pd_open d"

text \<open>A connected device opens nothing.\<close>

definition dev_ok :: "profinet_device \<Rightarrow> profinet_device \<Rightarrow> bool" where
  "dev_ok d d' \<longleftrightarrow> dev_inv d' \<and> same_device d d' \<and> pd_opened d \<le> pd_opened d'
     \<and> (pd_rpc d \<noteq> None \<longrightarrow> pd_opened d' = pd_opened d)"

definition preserves :: "(profinet_device \<Rightarrow> ('r \<times> profinet_device) option) \<Rightarrow> bool" where
  "preserves m \<longleftrightarrow> (\<forall>d r d'. dev_inv d \<longrightarrow> m d = Some (r, d') \<longrightarrow> dev_ok d d' \<and> (pd_rpc d \<noteq> None \<longrightarrow> pd_rpc d' \<noteq> None))"

lemma preservesD:
  "preserves m \<Longrightarrow> dev_inv d \<Longrightarrow> m d = Some (r, d') \<Longrightarrow> dev_ok d d' \<and> (pd_rpc d \<noteq> None \<longrightarrow> pd_rpc d' \<noteq> None)"
  by (auto simp: preserves_def)

lemma same_device_opens: "same_device d d' \<Longrightarrow> opens_at d' = opens_at d"
  by (auto simp: same_device_def opens_at_def new_transport_def Let_def fun_eq_iff)

lemma dev_ok_refl: "dev_inv d \<Longrightarrow> dev_ok d d"
  by (simp add: dev_ok_def same_device_def)

lemma dev_ok_trans: "dev_ok d d' \<Longrightarrow> dev_ok d' d'' \<Longrightarrow> (pd_rpc d \<noteq> None \<longrightarrow> pd_rpc d' \<noteq> None) \<Longrightarrow> dev_ok d d''"
  by (auto simp: dev_ok_def same_device_def)

named_theorems dev_rules

lemma preserves_return [dev_rules]: "preserves (\<lambda>d. Some (r, d))"
  by (simp add: preserves_def dev_ok_refl)

lemma preserves_bind:
  assumes "preserves m" and "\<And>r. preserves (K r)"
  shows "preserves (\<lambda>d. Option.bind (m d) (\<lambda>(r, d1). K r d1))"
  unfolding preserves_def
proof (intro allI impI)
  fix d r d' assume i: "dev_inv d" and b: "Option.bind (m d) (\<lambda>(r, d1). K r d1) = Some (r, d')"
  then obtain q d1 where m: "m d = Some (q, d1)" and k: "K q d1 = Some (r, d')" by (auto simp: bind_eq_Some_conv)
  have 1: "dev_ok d d1 \<and> (pd_rpc d \<noteq> None \<longrightarrow> pd_rpc d1 \<noteq> None)" by (rule preservesD [OF assms(1) i m])
  then have "dev_inv d1" by (simp add: dev_ok_def)
  then show "dev_ok d d' \<and> (pd_rpc d \<noteq> None \<longrightarrow> pd_rpc d' \<noteq> None)"
    using 1 preservesD [OF assms(2) _ k] dev_ok_trans by blast
qed

lemma preserves_on_rpc [dev_rules]: "keeps m \<Longrightarrow> preserves (on_rpc m)"
  unfolding preserves_def
proof (intro allI impI)
  fix d r d' assume k: "keeps m" and i: "dev_inv d" and o: "on_rpc m d = Some (r, d')"
  then obtain c c' where c: "pd_rpc d = Some c" "m c = Some (r, c')" "d' = d\<lparr>pd_rpc := Some c'\<rparr>"
    by (auto simp: on_rpc_def bind_eq_Some_conv split: option.splits)
  have "opens_at d' = opens_at d" using c(3) by (intro same_device_opens) (simp add: same_device_def)
  then show "dev_ok d d' \<and> (pd_rpc d \<noteq> None \<longrightarrow> pd_rpc d' \<noteq> None)"
    using k i c by (auto simp: dev_inv_def dev_ok_def keeps_def kept_def same_device_def)
qed

text \<open>What opening a transport does to the count.\<close>

lemma new_transport_fields:
  assumes "new_transport d = (r, d1)"
  shows "d1 = d\<lparr>pd_opened := pd_opened d + 1\<rparr>" "opens_at d (pd_opened d) = (\<not> isl r)" "r = Inr c \<Longrightarrow> \<not> co_connected c"
proof -
  show "d1 = d\<lparr>pd_opened := pd_opened d + 1\<rparr>" using assms by (simp add: new_transport_def Let_def)
  show "opens_at d (pd_opened d) = (\<not> isl r)" using assms by (simp add: opens_at_def)
  show "\<not> co_connected c" if "r = Inr c"
    using assms that by (auto simp: new_transport_def Let_def with_transport_def rbind_Inr)
qed

lemma opens_count: "length (filter (opens_at d) [0..<Suc n]) = length (filter (opens_at d) [0..<n]) + (if opens_at d n then 1 else 0)"
  by simp

lemma rc_drop_disconnects: "rc_drop c = Some c' \<Longrightarrow> \<not> co_connected c'"
  unfolding rc_drop_def by (rule release_disconnects)

lemma opened_inv:
  assumes "dev_inv d" and "pd_rpc d = None" and "new_transport d = (r, d1)"
  shows "r = Inl e \<Longrightarrow> dev_ok d d1"
    and "r = Inr conn \<Longrightarrow> co_connected conn1 \<Longrightarrow> dev_ok d (d1\<lparr>pd_rpc := Some conn1\<rparr>)"
    and "r = Inr conn \<Longrightarrow> drop_conn conn1 d1 = Some d2 \<Longrightarrow> dev_ok d d2"
proof -
  note f = new_transport_fields [OF assms(3)]
  have o: "opens_at (d1\<lparr>pd_rpc := x, pd_closed := y\<rparr>) = opens_at d" for x y
    by (intro same_device_opens) (simp add: f(1) same_device_def)
  then have o': "opens_at d1 = opens_at d" "opens_at (d1\<lparr>pd_rpc := x\<rparr>) = opens_at d" "opens_at (d1\<lparr>pd_closed := y\<rparr>) = opens_at d" for x y
    by (metis profinet_device.surjective profinet_device.update_convs(6,9))+
  show "dev_ok d d1" if "r = Inl e"
    using that assms f(2) o'(1) unfolding dev_ok_def dev_inv_def same_device_def kept_def by (simp add: f(1))
  show "dev_ok d (d1\<lparr>pd_rpc := Some conn1\<rparr>)" if "r = Inr conn" "co_connected conn1"
    using that assms f(2) o'(2) unfolding dev_ok_def dev_inv_def same_device_def kept_def by (simp add: f(1))
  show "dev_ok d d2" if rr: "r = Inr conn" and dd: "drop_conn conn1 d1 = Some d2"
  proof -
    obtain c' where "rc_drop conn1 = Some c'" "d2 = d1\<lparr>pd_closed := pd_closed d1 @ [c']\<rparr>"
      using dd by (auto simp: drop_conn_def bind_eq_Some_conv)
    then show ?thesis
      using rr assms f(2) o'(3) rc_drop_disconnects
      unfolding dev_ok_def dev_inv_def same_device_def kept_def by (auto simp: f(1))
  qed
qed

lemma preserves_connect [dev_rules]: "preserves dev_connect"
  unfolding preserves_def
proof (intro allI impI)
  fix d r d' assume i: "dev_inv d" and c: "dev_connect d = Some (r, d')"
  show "dev_ok d d' \<and> (pd_rpc d \<noteq> None \<longrightarrow> pd_rpc d' \<noteq> None)"
  proof (cases "pd_rpc d = None")
    case True
    obtain q d1 where n: "new_transport d = (q, d1)" by (cases "new_transport d")
    show ?thesis
    proof (cases q)
      case (Inl e)
      then show ?thesis using c True n opened_inv(1) [OF i True n] by (auto simp: dev_connect_def)
    next
      case (Inr conn)
      obtain x conn1 where a: "connect_device_access (pd_src_mac d1) CM_STATION_NAME conn = Some (x, conn1)"
        using c True n Inr by (auto simp: dev_connect_def bind_eq_Some_conv)
      show ?thesis
      proof (cases x)
        case (Inl e)
        then show ?thesis
          using c True n Inr a opened_inv(3) [OF i True n Inr] by (auto simp: dev_connect_def bind_eq_Some_conv)
      next
        case r: (Inr u)
        then have "co_connected conn1" using connect_device_access_connected [OF a] by simp
        then show ?thesis
          using c True n Inr a r opened_inv(2) [OF i True n Inr] by (auto simp: dev_connect_def)
      qed
    qed
  qed (use c i dev_ok_refl in \<open>auto simp: dev_connect_def\<close>)
qed

lemma preserves_ensure [dev_rules]: "preserves ensure_connected"
  using preserves_connect dev_ok_refl unfolding preserves_def ensure_connected_def
  by (auto split: if_splits)

lemma preserves_implicit [dev_rules]: "preserves (read_record_implicit_len s t i n)"
  unfolding preserves_def
proof (intro allI impI)
  fix d r d' assume i: "dev_inv d" and c: "read_record_implicit_len s t i n d = Some (r, d')"
  show "dev_ok d d' \<and> (pd_rpc d \<noteq> None \<longrightarrow> pd_rpc d' \<noteq> None)"
  proof (cases "pd_rpc d = None")
    case True
    obtain q d1 where n: "new_transport d = (q, d1)" by (cases "new_transport d")
    show ?thesis
      using c True n opened_inv(1,3) [OF i True n]
      by (cases q) (auto simp: read_record_implicit_len_def bind_eq_Some_conv)
  next
    case False
    then show ?thesis
      using c preservesD [OF preserves_on_rpc [OF keeps_read(2)] i] by (auto simp: read_record_implicit_len_def)
  qed
qed

lemma preserves_case_sum [dev_rules]:
  "(\<And>e. preserves (f e)) \<Longrightarrow> (\<And>x. preserves (g x)) \<Longrightarrow> preserves (\<lambda>d. case r of Inl e \<Rightarrow> f e d | Inr x \<Rightarrow> g x d)"
  by (cases r) simp_all

lemma preserves_pure [dev_rules]: "preserves (\<lambda>d. map_option (\<lambda>x. (f x, d)) y)"
  by (cases y) (simp_all add: preserves_def dev_ok_refl)

lemma preserves_if [dev_rules]: "preserves f \<Longrightarrow> preserves g \<Longrightarrow> preserves (\<lambda>d. if b then f d else g d)"
  by (cases b) simp_all

lemma preserves_connected_op [dev_rules]: "keeps m \<Longrightarrow> preserves (connected_op m)"
  unfolding connected_op_def [abs_def] by (intro preserves_bind dev_rules)

lemma preserves_read [dev_rules]: "preserves (read_record_len s t i n)"
  unfolding read_record_len_def [abs_def] by (intro preserves_bind dev_rules keeps_rules)

lemma preserves_parsed [dev_rules]: "preserves m \<Longrightarrow> preserves (parsed m p)"
  unfolding parsed_def [abs_def] using preserves_pure [where f = "\<lambda>x. x"] by (intro preserves_bind dev_rules) auto

lemma preserves_composed [dev_rules]:
  "preserves (read_im0_at s t)" "preserves (read_im1_at s t)" "preserves (read_im2_at s t)" "preserves (read_im3_at s t)"
  "preserves (write_record s t i w)" "preserves (dev_write_multiple ws)" "preserves (dev_read_diagnosis s t i)"
  "preserves dev_read_all_diagnosis" "preserves dev_discover_slots" "preserves read_topology" "preserves (read_record s t i)"
  unfolding read_im0_at_def read_im1_at_def read_im2_at_def read_im3_at_def write_record_def dev_write_multiple_def
    dev_read_diagnosis_def dev_read_all_diagnosis_def dev_discover_slots_def read_topology_def read_record_def
  by (intro dev_rules keeps_rules)+

lemma preserves_read_all_im [dev_rules]: "preserves (read_all_im s t)"
  unfolding read_all_im_def [abs_def] by (intro preserves_bind dev_rules)

lemma preserves_write_built [dev_rules]: "preserves (write_built i rec)"
proof (cases rec)
  case (Inr w)
  have "preserves (\<lambda>d. Option.bind (write_record 0 1 i w d) (\<lambda>(r, d1). Some (map_sum Rpc id r, d1)))"
    by (intro preserves_bind dev_rules)
  moreover have "map_option (\<lambda>(r, d1). (map_sum Rpc id r, d1)) x = Option.bind x (\<lambda>(r, d1). Some (map_sum Rpc id r, d1))"
    for x :: "((string + unit) \<times> profinet_device) option"
    by (cases x) auto
  ultimately show ?thesis using Inr by (simp add: write_built_def [abs_def])
qed (simp add: write_built_def [abs_def] dev_rules)

lemma preserves_read_alarm [dev_rules]: "preserves (read_alarm s t i)"
  unfolding read_alarm_def [abs_def] by (intro preserves_bind dev_rules)

lemma preserves_info_tail [dev_rules]: "preserves (\<lambda>d. Option.bind x (\<lambda>e. Some (f e, d)))"
  by (cases x) (simp_all add: preserves_def dev_ok_refl)

lemma preserves_get_info [dev_rules]: "preserves (get_info b env)"
proof -
  have "preserves (\<lambda>d. Option.bind (ensure_connected d) (\<lambda>(r, d1). case r of Inl e \<Rightarrow> Some (Inl e, d1)
     | Inr _ \<Rightarrow> Option.bind (on_rpc (read_im0 0 1) d1) (\<lambda>(i, d2).
         Option.bind (if b then Option.bind (on_rpc read_pd_real_data d2) (\<lambda>(x, d3). Some (ok_of x, d3)) else Some (None, d2))
           (\<lambda>(t, d3). Option.bind (epm_lookup env tmo None) (\<lambda>eps. Some (Inr (F i t eps), d3))))))"
    for tmo and F :: "_ \<Rightarrow> _ \<Rightarrow> _ \<Rightarrow> device_info"
    by (intro preserves_bind dev_rules keeps_rules)
  note p = this [unfolded preserves_def, rule_format]
  show ?thesis
    unfolding preserves_def
  proof (intro allI impI)
    fix d r d' assume "dev_inv d" "get_info b env d = Some (r, d')"
    then show "dev_ok d d' \<and> (pd_rpc d \<noteq> None \<longrightarrow> pd_rpc d' \<noteq> None)"
      unfolding get_info_def Let_def by (rule p)
  qed
qed

lemma disconnect_ok:
  assumes "dev_inv d" and "disconnect d = Some d'"
  shows "dev_ok d d' \<and> pd_rpc d' = None"
proof (cases "pd_rpc d")
  case (Some c)
  then obtain c1 c2 where c: "rc_drop c1 = Some c2" "d' = d\<lparr>pd_rpc := None, pd_closed := pd_closed d @ [c2]\<rparr>"
    using assms(2) by (auto simp: disconnect_def drop_conn_def bind_eq_Some_conv)
  have "opens_at d' = opens_at d" using c(2) by (intro same_device_opens) (simp add: same_device_def)
  then show ?thesis
    using assms(1) Some c rc_drop_disconnects [OF c(1)] by (auto simp: dev_inv_def dev_ok_def kept_def same_device_def)
qed (use assms dev_ok_refl in \<open>auto simp: disconnect_def\<close>)

section \<open>The device as a state machine\<close>

inductive dev_step :: "profinet_device \<Rightarrow> profinet_device \<Rightarrow> bool" where
  Connect: "dev_connect d = Some (r1, d') \<Longrightarrow> dev_step d d'"
| Disconnect: "disconnect d = Some d' \<Longrightarrow> dev_step d d'"
| Close: "dev_close d = Some d' \<Longrightarrow> dev_step d d'"
| Info: "get_info b env d = Some (r2, d') \<Longrightarrow> dev_step d d'"
| Read: "read_record_len s t i n d = Some (r3, d') \<Longrightarrow> dev_step d d'"
| ReadImplicit: "read_record_implicit_len s t i n d = Some (r3, d') \<Longrightarrow> dev_step d d'"
| Write: "write_record s t i w d = Some (r1, d') \<Longrightarrow> dev_step d d'"
| WriteMultiple: "dev_write_multiple ws d = Some (r4, d') \<Longrightarrow> dev_step d d'"
| ReadIm0: "read_im0_at s t d = Some (m0, d') \<Longrightarrow> dev_step d d'"
| ReadIm1: "read_im1_at s t d = Some (m1, d') \<Longrightarrow> dev_step d d'"
| ReadIm2: "read_im2_at s t d = Some (m2, d') \<Longrightarrow> dev_step d d'"
| ReadIm3: "read_im3_at s t d = Some (m3, d') \<Longrightarrow> dev_step d d'"
| ReadAllIm: "read_all_im s t d = Some (m, d') \<Longrightarrow> dev_step d d'"
| WriteIm1: "write_im1 f l d = Some (r5, d') \<Longrightarrow> dev_step d d'"
| WriteIm2: "write_im2 f d = Some (r5, d') \<Longrightarrow> dev_step d d'"
| WriteIm3: "write_im3 f d = Some (r5, d') \<Longrightarrow> dev_step d d'"
| Diagnosis: "dev_read_diagnosis s t i d = Some (r6, d') \<Longrightarrow> dev_step d d'"
| AllDiagnosis: "dev_read_all_diagnosis d = Some (r7, d') \<Longrightarrow> dev_step d d'"
| Slots: "dev_discover_slots d = Some (r8, d') \<Longrightarrow> dev_step d d'"
| Topology: "read_topology d = Some (r9, d') \<Longrightarrow> dev_step d d'"
| Alarm: "read_alarm s t i d = Some (r10, d') \<Longrightarrow> dev_step d d'"

lemma dev_step_ok: "dev_step d d' \<Longrightarrow> dev_inv d \<Longrightarrow> dev_ok d d'"
  by (induction rule: dev_step.induct)
     (auto simp: dev_close_def write_im1_def write_im2_def write_im3_def
        dest: disconnect_ok preservesD [OF preserves_connect] preservesD [OF preserves_get_info] preservesD [OF preserves_read]
          preservesD [OF preserves_implicit] preservesD [OF preserves_read_all_im] preservesD [OF preserves_write_built]
          preservesD [OF preserves_read_alarm] preserves_composed [THEN preservesD])

lemma dev_steps_inv: "dev_step\<^sup>*\<^sup>* d0 d \<Longrightarrow> dev_inv d0 \<Longrightarrow> dev_inv d"
proof (induction rule: rtranclp_induct)
  case (step y z)
  then show ?case using dev_step_ok [of y z] by (simp add: dev_ok_def)
qed

lemma device_new_inv: "dev_inv (device_new info ifc mac ip timeout opens)"
  by (simp add: dev_inv_def device_new_def kept_def)


definition sample_opens :: "nat \<Rightarrow> open_outcome" where
  "sample_opens k = \<lparr>oo_transport = Inr (sample_transport []), oo_key = Inr 5, oo_activity = Inr (replicate 16 7),
     oo_ar = Inr (replicate 16 8)\<rparr>"

definition sample_dev :: profinet_device where
  "sample_dev = device_new (sample_device 1 [0x61]) ''en0'' (replicate 6 1) [10, 0, 0, 1] 5 sample_opens"

lemma sample_dev_opens:
  obtains conn where "new_transport sample_dev = (Inr conn, sample_dev\<lparr>pd_opened := 1\<rparr>)" "conn_ok conn"
    "co_sequence_number conn = 0" "\<not> co_connected conn"
proof -
  obtain conn where n: "with_transport (sample_transport []) (dd_device_id (sample_device 1 [0x61]))
      (dd_vendor_id (sample_device 1 [0x61])) 5 (Inr 5) (Inr (replicate 16 7)) (Inr (replicate 16 8)) = Inr conn"
    by (simp add: with_transport_def)
  note w = with_transport_inv [OF n]
  have "conn_ok conn" "co_sequence_number conn = 0" "\<not> co_connected conn"
    using w by (auto simp: sample_transport_def log_inv_def)
  then show thesis using that n by (auto simp: new_transport_def sample_dev_def device_new_def sample_opens_def)
qed

lemma sample_dev_connects:
  obtains r d where "dev_connect sample_dev = Some (r, d)" "pd_opened d = 1"
proof -
  obtain conn where n: "new_transport sample_dev = (Inr conn, sample_dev\<lparr>pd_opened := 1\<rparr>)" "conn_ok conn"
    "co_sequence_number conn = 0" "\<not> co_connected conn" by (rule sample_dev_opens)
  obtain x c1 where a: "connect_device_access (replicate 6 1) CM_STATION_NAME conn = Some (x, c1)"
    using connect_ops_call(2) [OF n(2)] n(3) by force
  have "isl x \<Longrightarrow> rc_drop c1 = Some c1"
    using connect_device_access_connected [OF a] n(4) by (simp add: rc_drop_def release_def)
  then show thesis
    using n a that by (cases x) (auto simp: dev_connect_def drop_conn_def sample_dev_def device_new_def)
qed


section \<open>Reading without an application relationship\<close>

definition implicit_request_of :: "rpc_conn \<Rightarrow> u16 \<Rightarrow> u16 \<Rightarrow> u16 \<Rightarrow> u32 \<Rightarrow> bytes" where
  "implicit_request_of c i s u l = read_record_implicit_request (co_object_uuid c) IFACE_UUID_DEVICE (co_activity_uuid c)
     (co_sequence_number c) 0 s u i l"

lemma implicit_answered:
  assumes "conn_ok c" and "co_sequence_number c \<noteq> 0xFFFFFFFF" and "sends_ok (co_transport c)"
    and "\<forall>d \<in> set ds. foreign (co_activity_uuid c) (co_sequence_number c) d"
    and "tp_rx (co_transport c) = map Datagram ds @ Datagram (enc_rpc h) # es"
    and h: "answers (co_activity_uuid c) (co_sequence_number c) h" "rpc_ok h"
  shows "read_raw_implicit i s u l c = pure_io (parse_read_response (pr_payload h) (pr_is_little_endian h))
    (after_call c (implicit_request_of c i s u l) es)"
proof -
  let ?req = "implicit_request_of c i s u l"
  let ?t = "(co_transport c)\<lparr>tp_tx := tl (tp_tx (co_transport c)), tp_sent := tp_sent (co_transport c) @ [?req]\<rparr>"
  have our: "our_request c (co_sequence_number c) ?req" unfolding implicit_request_of_def by (rule our_requests(3))
  have "send_receive ?req (c\<lparr>co_sequence_number := co_sequence_number c + 1\<rparr>) = Some (Inr h, after_call c ?req es)"
    using next_response_skips [OF assms(4), of ?t "Datagram (enc_rpc h) # es"] assms(5)
      next_response_hit [OF h, of "?t\<lparr>tp_rx := Datagram (enc_rpc h) # es\<rparr>" es]
    by (intro send_receive_stream [OF assms(1) our assms(3)]) simp
  then show ?thesis
    by (simp add: read_raw_implicit_def next_seq_call [OF assms(2)] send_read_def cbind_def implicit_request_of_def)
qed

lemma failed_connect:
  assumes "pd_rpc d = None" and "dev_connect d = Some (Inl e, d1)"
  shows "pd_rpc d1 = None"
proof -
  obtain q d0 where n: "new_transport d = (q, d0)" by (cases "new_transport d")
  have d0: "pd_rpc d0 = None" using new_transport_fields(1) [OF n] assms(1) by simp
  show ?thesis
  proof (cases q)
    case (Inl x)
    then show ?thesis using assms n d0 by (auto simp: dev_connect_def)
  next
    case (Inr conn)
    then obtain x conn1 where a: "connect_device_access (pd_src_mac d0) CM_STATION_NAME conn = Some (x, conn1)"
      using assms n by (auto simp: dev_connect_def bind_eq_Some_conv)
    then show ?thesis
      using assms n d0 Inr by (cases x) (auto simp: dev_connect_def drop_conn_def bind_eq_Some_conv)
  qed
qed

text \<open>
  A device that refuses the AR can still be read, but not written. When connecting fails, a
  record read opens a fresh transport without an AR and, whatever foreign traffic arrives first,
  returns the record the device answers with; the transport is dropped without a Release and the
  device stays unconnected, so that the next operation tries to connect again. A write in the
  same situation is the connect error and sends no write request.
\<close>

theorem refused_device_readable:
  assumes "pd_rpc d = None" and "dev_connect d = Some (Inl e, d1)" and "new_transport d1 = (Inr c, d2)"
    and "conn_ok c" and "co_sequence_number c \<noteq> 0xFFFFFFFF" and "sends_ok (co_transport c)"
    and "\<forall>x \<in> set ds. foreign (co_activity_uuid c) (co_sequence_number c) x"
    and "tp_rx (co_transport c) = map Datagram ds @ Datagram (enc_rpc h) # es"
    and "answers (co_activity_uuid c) (co_sequence_number c) h" and "rpc_ok h"
    and "pr_payload h = nrd_body (pr_is_little_endian h) 0 mx (iod @ rec)" and "length iod = 64"
  shows "(\<exists>c' d'. read_record_len s u i l d = Some (Inr rec, d') \<and> pd_rpc d' = None \<and> pd_closed d' = pd_closed d1 @ [c']
        \<and> tp_sent (co_transport c') = tp_sent (co_transport c) @ [implicit_request_of c i s u l])
    \<and> write_record s u i w d = Some (Inl e, d1)"
proof -
  let ?c = "after_call c (implicit_request_of c i s u l) es"
  have ens: "ensure_connected d = Some (Inl e, d1)" using assms(1,2) by (simp add: ensure_connected_def)
  have none: "pd_rpc d1 = None" by (rule failed_connect [OF assms(1,2)])
  have "read_raw_implicit i s u l c = Some (Inr rec, ?c)"
    using implicit_answered [OF assms(4-10), of i s u l] assms(11,12) by (simp add: pure_io_def read_response_body)
  moreover have "\<not> co_connected c" by (rule new_transport_fields(3) [OF assms(3) refl])
  then have "rc_drop ?c = Some ?c" by (simp add: rc_drop_def release_def after_call_def)
  moreover note new_transport_fields(1) [OF assms(3)]
  ultimately have "read_record_len s u i l d = Some (Inr rec, d2\<lparr>pd_closed := pd_closed d1 @ [?c]\<rparr>)"
    using none ens assms(3) by (simp add: read_record_len_def read_record_implicit_len_def drop_conn_def)
  moreover have "pd_rpc d2 = None" using none new_transport_fields(1) [OF assms(3)] by simp
  moreover have "tp_sent (co_transport ?c) = tp_sent (co_transport c) @ [implicit_request_of c i s u l]"
    by (simp add: after_call_def)
  moreover have "write_record s u i w d = Some (Inl e, d1)" using ens by (simp add: write_record_def connected_op_def)
  ultimately show ?thesis
    by (intro conjI exI [of _ ?c] exI [of _ "d2\<lparr>pd_closed := pd_closed d1 @ [?c]\<rparr>"]) simp_all
qed

section \<open>The written I\&M records\<close>

definition padded :: "nat \<Rightarrow> nat list \<Rightarrow> bytes" where
  "padded w s = map of_nat s @ replicate (w - length s) 0x20"

definition latin1 :: "nat \<Rightarrow> nat list \<Rightarrow> bool" where
  "latin1 w s \<longleftrightarrow> length s \<le> w \<and> list_all (\<lambda>c. c \<le> 0xFF) s"

lemma latin1_chars_ok: "list_all (\<lambda>c. c \<le> 0xFF) s \<Longrightarrow> latin1_chars what s = Inr (map of_nat s)"
  by (induction s) auto

lemma latin1_chars_bad: "\<not> list_all (\<lambda>c. c \<le> 0xFF) s \<Longrightarrow> isl (latin1_chars what s)"
  by (induction s) (auto simp: isl_def)

lemma length_padded: "latin1 w s \<Longrightarrow> length (padded w s) = w"
  by (simp add: padded_def latin1_def)

lemma latin1_field_ok: "latin1 w s \<Longrightarrow> latin1_field s w what = Inr (padded w s)"
  by (simp add: latin1_field_def latin1_def padded_def latin1_chars_ok)

lemma latin1_field_bad: "\<not> latin1 w s \<Longrightarrow> isl (latin1_field s w what)"
proof (cases "w < length s")
  case False
  assume "\<not> latin1 w s"
  then have "isl (latin1_chars what s)" using False by (intro latin1_chars_bad) (simp add: latin1_def)
  then show ?thesis using False by (auto simp: latin1_field_def isl_def)
qed (simp add: latin1_field_def)

lemma latin1_field_Inr: "latin1_field s w what = Inr f \<longleftrightarrow> latin1 w s \<and> f = padded w s"
  using latin1_field_ok [of w s what] latin1_field_bad [of w s what] by (cases "latin1 w s") (auto simp: isl_def)

text \<open>
  C32: What the I\&M writers write is not what the I\&M readers read. A record is built exactly for
  texts that fit their fields and are Latin-1, and it fills the fields with spaces; but behind the
  block header it carries two padding bytes that the parsers of the same crate do not skip. A
  device that stores the record and returns it is read with every field moved by two bytes: the
  tag function starts with two zero bytes and loses its last two characters to the tag location,
  and the date and the descriptor lose their last two characters.
\<close>

theorem im_records_shifted:
  "((\<exists>rec. im1_record f l = Inr rec) \<longleftrightarrow> latin1 32 f \<and> latin1 22 l)
   \<and> (im1_record f l = Inr rec1 \<longrightarrow> (\<exists>m. parse_im1 rec1 = Some (Inr m)
        \<and> im1_tag_function m = [0, 0] @ take 30 (padded 32 f)
        \<and> im1_tag_location m = drop 30 (padded 32 f) @ take 20 (padded 22 l)))
   \<and> (im2_record dt = Inr rec2 \<longrightarrow> (\<exists>m. parse_im2 rec2 = Some (Inr m) \<and> im2_date m = [0, 0] @ take 14 (padded 16 dt)))
   \<and> (im3_record ds = Inr rec3 \<longrightarrow> (\<exists>m. parse_im3 rec3 = Some (Inr m) \<and> im3_descriptor m = [0, 0] @ take 52 (padded 54 ds)))"
proof (intro conjI impI)
  have c: "rbind (latin1_field f 32 a) (\<lambda>x. rbind (latin1_field l 22 b) (\<lambda>y. Inr (g x y))) = Inr (r :: bytes) \<longleftrightarrow>
      latin1 32 f \<and> latin1 22 l \<and> r = g (padded 32 f) (padded 22 l)" for a b g r
    by (auto simp: rbind_Inr latin1_field_Inr)
  show "(\<exists>rec. im1_record f l = Inr rec) \<longleftrightarrow> latin1 32 f \<and> latin1 22 l" by (simp add: im1_record_def c)
  assume "im1_record f l = Inr rec1"
  then have r: "latin1 32 f" "latin1 22 l" "rec1 = block_header 0x0021 58 1 0 @ [0, 0] @ padded 32 f @ padded 22 l"
    by (simp_all add: im1_record_def c)
  then show "\<exists>m. parse_im1 rec1 = Some (Inr m) \<and> im1_tag_function m = [0, 0] @ take 30 (padded 32 f)
      \<and> im1_tag_location m = drop 30 (padded 32 f) @ take 20 (padded 22 l)"
    by (simp add: parse_im1_def need_def parse_block_header_eq length_padded copy_n_def sub_slice_def)
next
  assume "im2_record dt = Inr rec2"
  then have "latin1 16 dt" "rec2 = block_header 0x0022 20 1 0 @ [0, 0] @ padded 16 dt"
    by (auto simp: im2_record_def rbind_Inr latin1_field_Inr)
  then show "\<exists>m. parse_im2 rec2 = Some (Inr m) \<and> im2_date m = [0, 0] @ take 14 (padded 16 dt)"
    by (simp add: parse_im2_def need_def parse_block_header_eq length_padded copy_n_def sub_slice_def)
next
  assume "im3_record ds = Inr rec3"
  then have "latin1 54 ds" "rec3 = block_header 0x0023 58 1 0 @ [0, 0] @ padded 54 ds"
    by (auto simp: im3_record_def rbind_Inr latin1_field_Inr)
  then show "\<exists>m. parse_im3 rec3 = Some (Inr m) \<and> im3_descriptor m = [0, 0] @ take 52 (padded 54 ds)"
    by (simp add: parse_im3_def need_def parse_block_header_eq length_padded copy_n_def sub_slice_def)
qed

theorem im_records_shifted_witness:
  "\<exists>rec m. im2_record [50, 48, 50, 54] = Inr rec \<and> parse_im2 rec = Some (Inr m)
     \<and> im2_date m = [0, 0, 50, 48, 50, 54] @ replicate 10 0x20"
proof -
  have r: "im2_record [50, 48, 50, 54] = Inr (block_header 0x0022 20 1 0 @ [0, 0, 50, 48, 50, 54] @ replicate 12 0x20)"
    by (simp add: im2_record_def latin1_field_def)
  have "take 14 (padded 16 [50, 48, 50, 54]) = [50, 48, 50, 54] @ replicate 10 0x20" by (simp add: padded_def)
  then show ?thesis
    using r im_records_shifted [of "[]" "[]" "[]" "[50, 48, 50, 54]" "block_header 0x0022 20 1 0 @ [0, 0, 50, 48, 50, 54] @ replicate 12 0x20"]
    by auto
qed

definition refused_opens :: "nat \<Rightarrow> open_outcome" where
  "refused_opens k =
     (if k = 0 then (sample_opens 0)\<lparr>oo_transport := Inl ''no capture''\<rparr>
      else (sample_opens 0)\<lparr>oo_transport := Inr (sample_transport [Datagram (enc_rpc (sample_answer [5, 6]))])\<rparr>)"

definition refused_dev :: profinet_device where
  "refused_dev = sample_dev\<lparr>pd_open := refused_opens\<rparr>"

theorem refused_device_readable_witness:
  "\<exists>d'. read_record_len 0 1 0xAFF0 4096 refused_dev = Some (Inr [5, 6], d') \<and> pd_rpc d' = None"
proof -
  let ?d1 = "refused_dev\<lparr>pd_opened := 1\<rparr>"
  have c: "pd_rpc refused_dev = None" "dev_connect refused_dev = Some (Inl ''no capture'', ?d1)"
    by (simp_all add: refused_dev_def sample_dev_def device_new_def dev_connect_def new_transport_def refused_opens_def)
  obtain conn where n: "with_transport (sample_transport [Datagram (enc_rpc (sample_answer [5, 6]))])
      (dd_device_id (sample_device 1 [0x61])) (dd_vendor_id (sample_device 1 [0x61])) 5 (Inr 5) (Inr (replicate 16 7))
      (Inr (replicate 16 8)) = Inr conn"
    by (simp add: with_transport_def)
  then have t: "new_transport ?d1 = (Inr conn, refused_dev\<lparr>pd_opened := 2\<rparr>)"
    by (simp add: new_transport_def refused_dev_def sample_dev_def device_new_def refused_opens_def sample_opens_def)
  note w = with_transport_inv [OF n]
  have ok: "conn_ok conn" "co_sequence_number conn \<noteq> 0xFFFFFFFF" "sends_ok (co_transport conn)"
    "tp_rx (co_transport conn) = map Datagram [] @ Datagram (enc_rpc (sample_answer [5, 6])) # []"
    using w by (auto simp: log_inv_def sample_transport_def sends_ok_def)
  have a: "answers (co_activity_uuid conn) (co_sequence_number conn) (sample_answer [5, 6])"
    using w sample_answer_ok [of "[5, 6]"] sample_uuid by (simp add: sample_transport_def answers_def)
  have p: "pr_payload (sample_answer [5, 6]) = nrd_body (pr_is_little_endian (sample_answer [5, 6])) 0 4096 (replicate 64 0 @ [5, 6])"
    using sample_answer_ok [of "[5, 6]"] by simp
  show ?thesis
    using refused_device_readable [OF c t ok(1-3) _ ok(4) a sample_answer_ok(1) p, of 0 1 "0xAFF0" 4096 "[]"] by auto
qed

end
