(* ===== verification/Indices.thy ===== *)
theory Indices
  imports Prelude
begin

text \<open>
  Model of \<open>src/indices.rs\<close>: the constants of the block type, alarm type, relationship, user
  structure, module state and record index tables, the tables in the source's order, and the
  lookups by name and by range. A \<open>&str\<close> is its characters.
\<close>

section \<open>Constants\<close>

definition BLOCK_DIAGNOSIS_DATA :: u16 where "BLOCK_DIAGNOSIS_DATA = 0x0010"
definition BLOCK_EXPECTED_IDENTIFICATION_DATA :: u16 where "BLOCK_EXPECTED_IDENTIFICATION_DATA = 0x0012"
definition BLOCK_REAL_IDENTIFICATION_DATA :: u16 where "BLOCK_REAL_IDENTIFICATION_DATA = 0x0013"
definition BLOCK_IM0 :: u16 where "BLOCK_IM0 = 0x0020"
definition BLOCK_IM1 :: u16 where "BLOCK_IM1 = 0x0021"
definition BLOCK_IM2 :: u16 where "BLOCK_IM2 = 0x0022"
definition BLOCK_IM3 :: u16 where "BLOCK_IM3 = 0x0023"
definition BLOCK_IM4 :: u16 where "BLOCK_IM4 = 0x0024"
definition BLOCK_IM5 :: u16 where "BLOCK_IM5 = 0x0025"
definition BLOCK_IM6 :: u16 where "BLOCK_IM6 = 0x0026"
definition BLOCK_IM7 :: u16 where "BLOCK_IM7 = 0x0027"
definition BLOCK_IM8 :: u16 where "BLOCK_IM8 = 0x0028"
definition BLOCK_IM9 :: u16 where "BLOCK_IM9 = 0x0029"
definition BLOCK_IM10 :: u16 where "BLOCK_IM10 = 0x002A"
definition BLOCK_IM11 :: u16 where "BLOCK_IM11 = 0x002B"
definition BLOCK_IM12 :: u16 where "BLOCK_IM12 = 0x002C"
definition BLOCK_IM13 :: u16 where "BLOCK_IM13 = 0x002D"
definition BLOCK_IM14 :: u16 where "BLOCK_IM14 = 0x002E"
definition BLOCK_IM15 :: u16 where "BLOCK_IM15 = 0x002F"
definition BLOCK_ALARM_NOTIFICATION_HIGH :: u16 where "BLOCK_ALARM_NOTIFICATION_HIGH = 0x0001"
definition BLOCK_ALARM_ACK_HIGH :: u16 where "BLOCK_ALARM_ACK_HIGH = 0x8001"
definition BLOCK_ALARM_NOTIFICATION_LOW :: u16 where "BLOCK_ALARM_NOTIFICATION_LOW = 0x0002"
definition BLOCK_ALARM_ACK_LOW :: u16 where "BLOCK_ALARM_ACK_LOW = 0x8002"
definition BLOCK_IOD_WRITE_REQ :: u16 where "BLOCK_IOD_WRITE_REQ = 0x0008"
definition BLOCK_IOD_WRITE_RES :: u16 where "BLOCK_IOD_WRITE_RES = 0x8008"
definition BLOCK_IOD_READ_REQ :: u16 where "BLOCK_IOD_READ_REQ = 0x0009"
definition BLOCK_IOD_READ_RES :: u16 where "BLOCK_IOD_READ_RES = 0x8009"
definition BLOCK_AR_DATA :: u16 where "BLOCK_AR_DATA = 0x0018"
definition BLOCK_LOG_DATA :: u16 where "BLOCK_LOG_DATA = 0x0019"
definition BLOCK_API_DATA :: u16 where "BLOCK_API_DATA = 0x001A"
definition BLOCK_SRL_DATA :: u16 where "BLOCK_SRL_DATA = 0x001B"
definition BLOCK_AR_REQ :: u16 where "BLOCK_AR_REQ = 0x0101"
definition BLOCK_AR_RES :: u16 where "BLOCK_AR_RES = 0x8101"
definition BLOCK_IOCR_REQ :: u16 where "BLOCK_IOCR_REQ = 0x0102"
definition BLOCK_IOCR_RES :: u16 where "BLOCK_IOCR_RES = 0x8102"
definition BLOCK_ALARM_CR_REQ :: u16 where "BLOCK_ALARM_CR_REQ = 0x0103"
definition BLOCK_ALARM_CR_RES :: u16 where "BLOCK_ALARM_CR_RES = 0x8103"
definition BLOCK_EXPECTED_SUBMODULE_REQ :: u16 where "BLOCK_EXPECTED_SUBMODULE_REQ = 0x0104"
definition BLOCK_MODULE_DIFF_BLOCK :: u16 where "BLOCK_MODULE_DIFF_BLOCK = 0x8104"
definition BLOCK_IOD_CONTROL_PRM_END_REQ :: u16 where "BLOCK_IOD_CONTROL_PRM_END_REQ = 0x0110"
definition BLOCK_IOD_CONTROL_PRM_END_RES :: u16 where "BLOCK_IOD_CONTROL_PRM_END_RES = 0x8110"
definition BLOCK_IOD_CONTROL_APP_READY_REQ :: u16 where "BLOCK_IOD_CONTROL_APP_READY_REQ = 0x0112"
definition BLOCK_IOD_CONTROL_APP_READY_RES :: u16 where "BLOCK_IOD_CONTROL_APP_READY_RES = 0x8112"
definition BLOCK_IOD_RELEASE_REQ :: u16 where "BLOCK_IOD_RELEASE_REQ = 0x0114"
definition BLOCK_IOD_RELEASE_RES :: u16 where "BLOCK_IOD_RELEASE_RES = 0x8114"
definition BLOCK_IOD_CONTROL_RT_CLASS_3_REQ :: u16 where "BLOCK_IOD_CONTROL_RT_CLASS_3_REQ = 0x0117"
definition BLOCK_IOD_CONTROL_RT_CLASS_3_RES :: u16 where "BLOCK_IOD_CONTROL_RT_CLASS_3_RES = 0x8117"
definition BLOCK_PRM_BEGIN_REQ :: u16 where "BLOCK_PRM_BEGIN_REQ = 0x0118"
definition BLOCK_PRM_BEGIN_RES :: u16 where "BLOCK_PRM_BEGIN_RES = 0x8118"
definition BLOCK_SUBMODULE_LIST :: u16 where "BLOCK_SUBMODULE_LIST = 0x0119"
definition BLOCK_PD_PORT_DATA_CHECK :: u16 where "BLOCK_PD_PORT_DATA_CHECK = 0x0200"
definition BLOCK_PD_PORT_DATA_ADJUST :: u16 where "BLOCK_PD_PORT_DATA_ADJUST = 0x0202"
definition BLOCK_PD_PORT_DATA_REAL :: u16 where "BLOCK_PD_PORT_DATA_REAL = 0x020F"
definition BLOCK_PD_INTERFACE_MRP_DATA_ADJUST :: u16 where "BLOCK_PD_INTERFACE_MRP_DATA_ADJUST = 0x0211"
definition BLOCK_PD_INTERFACE_MRP_DATA_REAL :: u16 where "BLOCK_PD_INTERFACE_MRP_DATA_REAL = 0x0212"
definition BLOCK_PD_PORT_MRP_DATA_REAL :: u16 where "BLOCK_PD_PORT_MRP_DATA_REAL = 0x0215"
definition BLOCK_MRP_RING_STATE_DATA :: u16 where "BLOCK_MRP_RING_STATE_DATA = 0x0219"
definition BLOCK_PD_PORT_FO_DATA_REAL :: u16 where "BLOCK_PD_PORT_FO_DATA_REAL = 0x0220"
definition BLOCK_PD_PORT_FO_DATA_CHECK :: u16 where "BLOCK_PD_PORT_FO_DATA_CHECK = 0x0221"
definition BLOCK_PD_PORT_FO_DATA_ADJUST :: u16 where "BLOCK_PD_PORT_FO_DATA_ADJUST = 0x0222"
definition BLOCK_PD_PORT_DATA_REAL_EXTENDED :: u16 where "BLOCK_PD_PORT_DATA_REAL_EXTENDED = 0x022C"
definition BLOCK_PD_INTERFACE_DATA_REAL :: u16 where "BLOCK_PD_INTERFACE_DATA_REAL = 0x0240"
definition BLOCK_PD_PORT_STATISTIC :: u16 where "BLOCK_PD_PORT_STATISTIC = 0x0251"
definition BLOCK_MULTIPLE_HEADER :: u16 where "BLOCK_MULTIPLE_HEADER = 0x0400"
definition BLOCK_CO_CONTAINER_CONTENT :: u16 where "BLOCK_CO_CONTAINER_CONTENT = 0x0401"
definition BLOCK_AR_SERVER_BLOCK :: u16 where "BLOCK_AR_SERVER_BLOCK = 0xF820"
definition BLOCK_PD_REAL_DATA :: u16 where "BLOCK_PD_REAL_DATA = 0xF841"
definition BLOCK_PD_EXPECTED_DATA :: u16 where "BLOCK_PD_EXPECTED_DATA = 0xF842"
definition BLOCK_REAL_IDENTIFICATION_DATA_API :: u16 where "BLOCK_REAL_IDENTIFICATION_DATA_API = 0xF000"
definition ALARM_TYPE_DIAGNOSIS :: u16 where "ALARM_TYPE_DIAGNOSIS = 0x0001"
definition ALARM_TYPE_PROCESS :: u16 where "ALARM_TYPE_PROCESS = 0x0002"
definition ALARM_TYPE_PULL :: u16 where "ALARM_TYPE_PULL = 0x0003"
definition ALARM_TYPE_PLUG :: u16 where "ALARM_TYPE_PLUG = 0x0004"
definition ALARM_TYPE_STATUS :: u16 where "ALARM_TYPE_STATUS = 0x0005"
definition ALARM_TYPE_UPDATE :: u16 where "ALARM_TYPE_UPDATE = 0x0006"
definition ALARM_TYPE_REDUNDANCY :: u16 where "ALARM_TYPE_REDUNDANCY = 0x0007"
definition ALARM_TYPE_CONTROLLED_BY_SUPERVISOR :: u16 where "ALARM_TYPE_CONTROLLED_BY_SUPERVISOR = 0x0008"
definition ALARM_TYPE_RELEASED :: u16 where "ALARM_TYPE_RELEASED = 0x0009"
definition ALARM_TYPE_PLUG_WRONG_SUBMODULE :: u16 where "ALARM_TYPE_PLUG_WRONG_SUBMODULE = 0x000A"
definition ALARM_TYPE_RETURN_OF_SUBMODULE :: u16 where "ALARM_TYPE_RETURN_OF_SUBMODULE = 0x000B"
definition ALARM_TYPE_DIAGNOSIS_DISAPPEARS :: u16 where "ALARM_TYPE_DIAGNOSIS_DISAPPEARS = 0x000C"
definition ALARM_TYPE_MULTICAST_MISMATCH :: u16 where "ALARM_TYPE_MULTICAST_MISMATCH = 0x000D"
definition ALARM_TYPE_PORT_DATA_CHANGE :: u16 where "ALARM_TYPE_PORT_DATA_CHANGE = 0x000E"
definition ALARM_TYPE_SYNC_DATA_CHANGED :: u16 where "ALARM_TYPE_SYNC_DATA_CHANGED = 0x000F"
definition ALARM_TYPE_ISOCHRONOUS_MODE_PROBLEM :: u16 where "ALARM_TYPE_ISOCHRONOUS_MODE_PROBLEM = 0x0010"
definition ALARM_TYPE_NETWORK_COMPONENT_PROBLEM :: u16 where "ALARM_TYPE_NETWORK_COMPONENT_PROBLEM = 0x0011"
definition ALARM_TYPE_TIME_DATA_CHANGED :: u16 where "ALARM_TYPE_TIME_DATA_CHANGED = 0x0012"
definition ALARM_TYPE_DFP_PROBLEM :: u16 where "ALARM_TYPE_DFP_PROBLEM = 0x0013"
definition ALARM_TYPE_UPLOAD_RETRIEVAL :: u16 where "ALARM_TYPE_UPLOAD_RETRIEVAL = 0x001E"
definition ALARM_TYPE_PULL_MODULE :: u16 where "ALARM_TYPE_PULL_MODULE = 0x001F"
definition IOCR_TYPE_INPUT :: u16 where "IOCR_TYPE_INPUT = 0x0001"
definition IOCR_TYPE_OUTPUT :: u16 where "IOCR_TYPE_OUTPUT = 0x0002"
definition IOCR_TYPE_MULTICAST_PROVIDER :: u16 where "IOCR_TYPE_MULTICAST_PROVIDER = 0x0003"
definition IOCR_TYPE_MULTICAST_CONSUMER :: u16 where "IOCR_TYPE_MULTICAST_CONSUMER = 0x0004"
definition IOCR_RT_CLASS_1 :: u8 where "IOCR_RT_CLASS_1 = 0x01"
definition IOCR_RT_CLASS_2 :: u8 where "IOCR_RT_CLASS_2 = 0x02"
definition IOCR_RT_CLASS_3 :: u8 where "IOCR_RT_CLASS_3 = 0x03"
definition IOCR_RT_CLASS_UDP :: u8 where "IOCR_RT_CLASS_UDP = 0x04"
definition ALARM_CR_TYPE_ALARM :: u16 where "ALARM_CR_TYPE_ALARM = 0x0001"
definition ALARM_TRANSPORT_RTA_CLASS_1 :: u8 where "ALARM_TRANSPORT_RTA_CLASS_1 = 0x00"
definition ALARM_TRANSPORT_RTA_CLASS_UDP :: u8 where "ALARM_TRANSPORT_RTA_CLASS_UDP = 0x01"
definition AR_TYPE_IOCAR_SINGLE :: u16 where "AR_TYPE_IOCAR_SINGLE = 0x0001"
definition AR_TYPE_IOSAR :: u16 where "AR_TYPE_IOSAR = 0x0006"
definition AR_TYPE_IOCAR_SINGLE_RT_CLASS_3 :: u16 where "AR_TYPE_IOCAR_SINGLE_RT_CLASS_3 = 0x0010"
definition AR_TYPE_IOCARSR :: u16 where "AR_TYPE_IOCARSR = 0x0020"
definition USI_CHANNEL_DIAGNOSIS :: u16 where "USI_CHANNEL_DIAGNOSIS = 0x8000"
definition USI_MULTIPLE_DIAGNOSIS :: u16 where "USI_MULTIPLE_DIAGNOSIS = 0x8001"
definition USI_EXT_CHANNEL_DIAGNOSIS :: u16 where "USI_EXT_CHANNEL_DIAGNOSIS = 0x8002"
definition USI_QUALIFIED_CHANNEL_DIAGNOSIS :: u16 where "USI_QUALIFIED_CHANNEL_DIAGNOSIS = 0x8003"
definition USI_MAINTENANCE :: u16 where "USI_MAINTENANCE = 0x8100"
definition USI_UPLOAD :: u16 where "USI_UPLOAD = 0x8200"
definition USI_IPARAMETER :: u16 where "USI_IPARAMETER = 0x8201"
definition USI_RS_ALARM_LOW :: u16 where "USI_RS_ALARM_LOW = 0x8300"
definition USI_RS_ALARM_HIGH :: u16 where "USI_RS_ALARM_HIGH = 0x8301"
definition USI_RS_ALARM_SUBMODULE :: u16 where "USI_RS_ALARM_SUBMODULE = 0x8302"
definition USI_PE_ALARM :: u16 where "USI_PE_ALARM = 0x8310"
definition USI_PRAL_ALARM :: u16 where "USI_PRAL_ALARM = 0x8320"
definition MODULE_STATE_NO_MODULE :: u16 where "MODULE_STATE_NO_MODULE = 0x0000"
definition MODULE_STATE_WRONG_MODULE :: u16 where "MODULE_STATE_WRONG_MODULE = 0x0001"
definition MODULE_STATE_PROPER_MODULE :: u16 where "MODULE_STATE_PROPER_MODULE = 0x0002"
definition MODULE_STATE_SUBSTITUTE_MODULE :: u16 where "MODULE_STATE_SUBSTITUTE_MODULE = 0x0003"
definition SUBMODULE_STATE_NO_SUBMODULE :: u16 where "SUBMODULE_STATE_NO_SUBMODULE = 0x0000"
definition SUBMODULE_STATE_WRONG_SUBMODULE :: u16 where "SUBMODULE_STATE_WRONG_SUBMODULE = 0x0001"
definition SUBMODULE_STATE_LOCKED_BY_SUPERVISOR :: u16 where "SUBMODULE_STATE_LOCKED_BY_SUPERVISOR = 0x0002"
definition SUBMODULE_STATE_APPLICATION_READY_PENDING :: u16 where "SUBMODULE_STATE_APPLICATION_READY_PENDING = 0x0004"
definition SUBMODULE_STATE_OK :: u16 where "SUBMODULE_STATE_OK = 0x0007"
definition PE_MODE_POWER_OFF :: u8 where "PE_MODE_POWER_OFF = 0x00"
definition PE_MODE_ENERGY_SAVING_MIN :: u8 where "PE_MODE_ENERGY_SAVING_MIN = 0x01"
definition PE_MODE_ENERGY_SAVING_MAX :: u8 where "PE_MODE_ENERGY_SAVING_MAX = 0x1F"
definition PE_MODE_OPERATE :: u8 where "PE_MODE_OPERATE = 0xF0"
definition PE_MODE_SLEEP_MODE_WOL :: u8 where "PE_MODE_SLEEP_MODE_WOL = 0xFE"
definition PE_MODE_READY_TO_OPERATE :: u8 where "PE_MODE_READY_TO_OPERATE = 0xFF"
definition IM0 :: u16 where "IM0 = 0xAFF0"
definition IM1 :: u16 where "IM1 = 0xAFF1"
definition IM2 :: u16 where "IM2 = 0xAFF2"
definition IM3 :: u16 where "IM3 = 0xAFF3"
definition IM4 :: u16 where "IM4 = 0xAFF4"
definition IM5 :: u16 where "IM5 = 0xAFF5"
definition IM6 :: u16 where "IM6 = 0xAFF6"
definition IM7 :: u16 where "IM7 = 0xAFF7"
definition IM8 :: u16 where "IM8 = 0xAFF8"
definition IM9 :: u16 where "IM9 = 0xAFF9"
definition IM10 :: u16 where "IM10 = 0xAFFA"
definition IM11 :: u16 where "IM11 = 0xAFFB"
definition IM12 :: u16 where "IM12 = 0xAFFC"
definition IM13 :: u16 where "IM13 = 0xAFFD"
definition IM14 :: u16 where "IM14 = 0xAFFE"
definition IM15 :: u16 where "IM15 = 0xAFFF"
definition IM0_FILTER_DATA :: u16 where "IM0_FILTER_DATA = 0xF840"
definition DIAG_CHANNEL_SUBSLOT :: u16 where "DIAG_CHANNEL_SUBSLOT = 0x800A"
definition DIAG_ALL_SUBSLOT :: u16 where "DIAG_ALL_SUBSLOT = 0x800B"
definition DIAG_MAINTENANCE_SUBSLOT :: u16 where "DIAG_MAINTENANCE_SUBSLOT = 0x800C"
definition DIAG_CHANNEL_SLOT :: u16 where "DIAG_CHANNEL_SLOT = 0xC00A"
definition DIAG_ALL_SLOT :: u16 where "DIAG_ALL_SLOT = 0xC00B"
definition DIAG_MAINTENANCE_SLOT :: u16 where "DIAG_MAINTENANCE_SLOT = 0xC00C"
definition DIAG_CHANNEL_AR :: u16 where "DIAG_CHANNEL_AR = 0xE00A"
definition DIAG_ALL_AR :: u16 where "DIAG_ALL_AR = 0xE00B"
definition DIAG_MAINTENANCE_AR :: u16 where "DIAG_MAINTENANCE_AR = 0xE00C"
definition DIAG_CHANNEL_API :: u16 where "DIAG_CHANNEL_API = 0xF00A"
definition DIAG_ALL_API :: u16 where "DIAG_ALL_API = 0xF00B"
definition DIAG_MAINTENANCE_API :: u16 where "DIAG_MAINTENANCE_API = 0xF00C"
definition DIAG_DEVICE :: u16 where "DIAG_DEVICE = 0xF80C"
definition EXPECTED_ID_SUBSLOT :: u16 where "EXPECTED_ID_SUBSLOT = 0x8000"
definition REAL_ID_SUBSLOT :: u16 where "REAL_ID_SUBSLOT = 0x8001"
definition MODULE_DIFF_BLOCK :: u16 where "MODULE_DIFF_BLOCK = 0xE002"
definition AR_DATA :: u16 where "AR_DATA = 0xF820"
definition API_DATA :: u16 where "API_DATA = 0xF821"
definition PDEV_DATA :: u16 where "PDEV_DATA = 0xF831"
definition PD_REAL_DATA :: u16 where "PD_REAL_DATA = 0xF841"
definition PD_EXPECTED_DATA :: u16 where "PD_EXPECTED_DATA = 0xF842"
definition AUTO_CONFIG :: u16 where "AUTO_CONFIG = 0xF850"
definition LOG_DATA :: u16 where "LOG_DATA = 0xF830"
definition PD_PORT_DATA_REAL :: u16 where "PD_PORT_DATA_REAL = 0x802A"
definition PD_PORT_DATA_CHECK :: u16 where "PD_PORT_DATA_CHECK = 0x802B"
definition PD_PORT_DATA_ADJUST :: u16 where "PD_PORT_DATA_ADJUST = 0x802F"
definition PD_PORT_STATISTIC :: u16 where "PD_PORT_STATISTIC = 0x8072"
definition PD_NC_DATA_CHECK :: u16 where "PD_NC_DATA_CHECK = 0x8070"
definition PD_INTERFACE_DATA_REAL :: u16 where "PD_INTERFACE_DATA_REAL = 0x8080"
definition PD_INTERFACE_MRP_DATA_REAL :: u16 where "PD_INTERFACE_MRP_DATA_REAL = 0x8050"
definition PD_PORT_MRP_DATA_REAL :: u16 where "PD_PORT_MRP_DATA_REAL = 0x8054"
definition SUBSTITUTE_VALUES :: u16 where "SUBSTITUTE_VALUES = 0x801E"
definition RECORD_INPUT_DATA :: u16 where "RECORD_INPUT_DATA = 0x8028"
definition RECORD_OUTPUT_DATA :: u16 where "RECORD_OUTPUT_DATA = 0x8029"

section \<open>Tables\<close>

definition BLOCK_TYPE_NAMES :: "(u16 \<times> string) list" where
  "BLOCK_TYPE_NAMES =
     [(BLOCK_ALARM_NOTIFICATION_HIGH, ''AlarmNotificationHigh''),
      (BLOCK_ALARM_ACK_HIGH, ''AlarmAckHigh''),
      (BLOCK_ALARM_NOTIFICATION_LOW, ''AlarmNotificationLow''),
      (BLOCK_ALARM_ACK_LOW, ''AlarmAckLow''),
      (BLOCK_IOD_WRITE_REQ, ''IODWriteReqHeader''),
      (BLOCK_IOD_WRITE_RES, ''IODWriteResHeader''),
      (BLOCK_IOD_READ_REQ, ''IODReadReqHeader''),
      (BLOCK_IOD_READ_RES, ''IODReadResHeader''),
      (BLOCK_DIAGNOSIS_DATA, ''DiagnosisData''),
      (BLOCK_EXPECTED_IDENTIFICATION_DATA, ''ExpectedIdentificationData''),
      (BLOCK_REAL_IDENTIFICATION_DATA, ''RealIdentificationData''),
      (BLOCK_IM0, ''I&M0''),
      (BLOCK_IM1, ''I&M1''),
      (BLOCK_IM2, ''I&M2''),
      (BLOCK_IM3, ''I&M3''),
      (BLOCK_IM4, ''I&M4''),
      (BLOCK_IM5, ''I&M5''),
      (BLOCK_IM6, ''I&M6''),
      (BLOCK_IM7, ''I&M7''),
      (BLOCK_IM8, ''I&M8''),
      (BLOCK_IM9, ''I&M9''),
      (BLOCK_IM10, ''I&M10''),
      (BLOCK_IM11, ''I&M11''),
      (BLOCK_IM12, ''I&M12''),
      (BLOCK_IM13, ''I&M13''),
      (BLOCK_IM14, ''I&M14''),
      (BLOCK_IM15, ''I&M15''),
      (BLOCK_AR_REQ, ''ARBlockReq''),
      (BLOCK_AR_RES, ''ARBlockRes''),
      (BLOCK_IOCR_REQ, ''IOCRBlockReq''),
      (BLOCK_IOCR_RES, ''IOCRBlockRes''),
      (BLOCK_ALARM_CR_REQ, ''AlarmCRBlockReq''),
      (BLOCK_ALARM_CR_RES, ''AlarmCRBlockRes''),
      (BLOCK_EXPECTED_SUBMODULE_REQ, ''ExpectedSubmoduleBlockReq''),
      (BLOCK_MODULE_DIFF_BLOCK, ''ModuleDiffBlock''),
      (BLOCK_IOD_CONTROL_PRM_END_REQ, ''IODControlReqPrmEnd''),
      (BLOCK_IOD_CONTROL_PRM_END_RES, ''IODControlResPrmEnd''),
      (BLOCK_IOD_CONTROL_APP_READY_REQ, ''IODControlReqAppReady''),
      (BLOCK_IOD_CONTROL_APP_READY_RES, ''IODControlResAppReady''),
      (BLOCK_IOD_RELEASE_REQ, ''IODReleaseReq''),
      (BLOCK_IOD_RELEASE_RES, ''IODReleaseRes''),
      (BLOCK_IOD_CONTROL_RT_CLASS_3_REQ, ''IODControlReqRTClass3''),
      (BLOCK_IOD_CONTROL_RT_CLASS_3_RES, ''IODControlResRTClass3''),
      (BLOCK_PRM_BEGIN_REQ, ''PrmBeginReq''),
      (BLOCK_PRM_BEGIN_RES, ''PrmBeginRes''),
      (BLOCK_SUBMODULE_LIST, ''SubmoduleListBlock''),
      (BLOCK_AR_DATA, ''ARData''),
      (BLOCK_LOG_DATA, ''LogData''),
      (BLOCK_API_DATA, ''APIData''),
      (BLOCK_SRL_DATA, ''SRLData''),
      (BLOCK_PD_PORT_DATA_CHECK, ''PDPortDataCheck''),
      (BLOCK_PD_PORT_DATA_ADJUST, ''PDPortDataAdjust''),
      (BLOCK_PD_PORT_DATA_REAL, ''PDPortDataReal''),
      (BLOCK_PD_INTERFACE_MRP_DATA_ADJUST, ''PDInterfaceMrpDataAdjust''),
      (BLOCK_PD_INTERFACE_MRP_DATA_REAL, ''PDInterfaceMrpDataReal''),
      (BLOCK_PD_PORT_MRP_DATA_REAL, ''PDPortMrpDataReal''),
      (BLOCK_MRP_RING_STATE_DATA, ''MrpRingStateData''),
      (BLOCK_PD_PORT_FO_DATA_REAL, ''PDPortFODataReal''),
      (BLOCK_PD_PORT_FO_DATA_CHECK, ''PDPortFODataCheck''),
      (BLOCK_PD_PORT_FO_DATA_ADJUST, ''PDPortFODataAdjust''),
      (BLOCK_PD_PORT_DATA_REAL_EXTENDED, ''PDPortDataRealExtended''),
      (BLOCK_PD_INTERFACE_DATA_REAL, ''PDInterfaceDataReal''),
      (BLOCK_PD_PORT_STATISTIC, ''PDPortStatistic''),
      (BLOCK_MULTIPLE_HEADER, ''MultipleBlockHeader''),
      (BLOCK_CO_CONTAINER_CONTENT, ''COContainerContent''),
      (BLOCK_AR_SERVER_BLOCK, ''ARServerBlock''),
      (BLOCK_PD_REAL_DATA, ''PDRealData''),
      (BLOCK_PD_EXPECTED_DATA, ''PDExpectedData''),
      (BLOCK_REAL_IDENTIFICATION_DATA_API, ''RealIdentificationDataAPI'')]"

definition ALARM_TYPE_NAMES :: "(u16 \<times> string) list" where
  "ALARM_TYPE_NAMES =
     [(ALARM_TYPE_DIAGNOSIS, ''Diagnosis''),
      (ALARM_TYPE_PROCESS, ''Process''),
      (ALARM_TYPE_PULL, ''Pull''),
      (ALARM_TYPE_PLUG, ''Plug''),
      (ALARM_TYPE_STATUS, ''Status''),
      (ALARM_TYPE_UPDATE, ''Update''),
      (ALARM_TYPE_REDUNDANCY, ''Redundancy''),
      (ALARM_TYPE_CONTROLLED_BY_SUPERVISOR, ''ControlledBySupervisor''),
      (ALARM_TYPE_RELEASED, ''Released''),
      (ALARM_TYPE_PLUG_WRONG_SUBMODULE, ''PlugWrongSubmodule''),
      (ALARM_TYPE_RETURN_OF_SUBMODULE, ''ReturnOfSubmodule''),
      (ALARM_TYPE_DIAGNOSIS_DISAPPEARS, ''DiagnosisDisappears''),
      (ALARM_TYPE_MULTICAST_MISMATCH, ''MulticastMismatch''),
      (ALARM_TYPE_PORT_DATA_CHANGE, ''PortDataChange''),
      (ALARM_TYPE_SYNC_DATA_CHANGED, ''SyncDataChanged''),
      (ALARM_TYPE_ISOCHRONOUS_MODE_PROBLEM, ''IsochronousModeProblem''),
      (ALARM_TYPE_NETWORK_COMPONENT_PROBLEM, ''NetworkComponentProblem''),
      (ALARM_TYPE_TIME_DATA_CHANGED, ''TimeDataChanged''),
      (ALARM_TYPE_DFP_PROBLEM, ''DynamicFramePackingProblem''),
      (ALARM_TYPE_UPLOAD_RETRIEVAL, ''UploadAndRetrieval''),
      (ALARM_TYPE_PULL_MODULE, ''PullModule'')]"

definition IOCR_TYPE_NAMES :: "(u16 \<times> string) list" where
  "IOCR_TYPE_NAMES =
     [(IOCR_TYPE_INPUT, ''InputCR''),
      (IOCR_TYPE_OUTPUT, ''OutputCR''),
      (IOCR_TYPE_MULTICAST_PROVIDER, ''MulticastProviderCR''),
      (IOCR_TYPE_MULTICAST_CONSUMER, ''MulticastConsumerCR'')]"

definition IOCR_RT_CLASS_NAMES :: "(u8 \<times> string) list" where
  "IOCR_RT_CLASS_NAMES =
     [(IOCR_RT_CLASS_1, ''RT_CLASS_1''),
      (IOCR_RT_CLASS_2, ''RT_CLASS_2''),
      (IOCR_RT_CLASS_3, ''RT_CLASS_3''),
      (IOCR_RT_CLASS_UDP, ''RT_CLASS_UDP'')]"

definition ALARM_CR_TYPE_NAMES :: "(u16 \<times> string) list" where
  "ALARM_CR_TYPE_NAMES =
     [(ALARM_CR_TYPE_ALARM, ''AlarmCR'')]"

definition ALARM_TRANSPORT_NAMES :: "(u8 \<times> string) list" where
  "ALARM_TRANSPORT_NAMES =
     [(ALARM_TRANSPORT_RTA_CLASS_1, ''RTA_CLASS_1''),
      (ALARM_TRANSPORT_RTA_CLASS_UDP, ''RTA_CLASS_UDP'')]"

definition AR_TYPE_NAMES :: "(u16 \<times> string) list" where
  "AR_TYPE_NAMES =
     [(AR_TYPE_IOCAR_SINGLE, ''IOCARSingle''),
      (AR_TYPE_IOSAR, ''IOSAR''),
      (AR_TYPE_IOCAR_SINGLE_RT_CLASS_3, ''IOCARSingle_RT_CLASS_3''),
      (AR_TYPE_IOCARSR, ''IOCARSR'')]"

definition USI_NAMES :: "(u16 \<times> string) list" where
  "USI_NAMES =
     [(USI_CHANNEL_DIAGNOSIS, ''ChannelDiagnosis''),
      (USI_MULTIPLE_DIAGNOSIS, ''MultipleDiagnosis''),
      (USI_EXT_CHANNEL_DIAGNOSIS, ''ExtChannelDiagnosis''),
      (USI_QUALIFIED_CHANNEL_DIAGNOSIS, ''QualifiedChannelDiagnosis''),
      (USI_MAINTENANCE, ''MaintenanceItem''),
      (USI_UPLOAD, ''UploadRecord''),
      (USI_IPARAMETER, ''iParameterItem''),
      (USI_RS_ALARM_LOW, ''RS_AlarmItem_Low''),
      (USI_RS_ALARM_HIGH, ''RS_AlarmItem_High''),
      (USI_RS_ALARM_SUBMODULE, ''RS_AlarmItem_Submodule''),
      (USI_PE_ALARM, ''PE_AlarmItem''),
      (USI_PRAL_ALARM, ''PRAL_AlarmItem'')]"

definition MODULE_STATE_NAMES :: "(u16 \<times> string) list" where
  "MODULE_STATE_NAMES =
     [(MODULE_STATE_NO_MODULE, ''NoModule''),
      (MODULE_STATE_WRONG_MODULE, ''WrongModule''),
      (MODULE_STATE_PROPER_MODULE, ''ProperModule''),
      (MODULE_STATE_SUBSTITUTE_MODULE, ''SubstituteModule'')]"

definition SUBMODULE_STATE_NAMES :: "(u16 \<times> string) list" where
  "SUBMODULE_STATE_NAMES =
     [(SUBMODULE_STATE_NO_SUBMODULE, ''NoSubmodule''),
      (SUBMODULE_STATE_WRONG_SUBMODULE, ''WrongSubmodule''),
      (SUBMODULE_STATE_LOCKED_BY_SUPERVISOR, ''LockedBySupervisor''),
      (SUBMODULE_STATE_APPLICATION_READY_PENDING, ''ApplicationReadyPending''),
      (SUBMODULE_STATE_OK, ''OK'')]"

definition CRITICAL_INDICES :: "(u16 \<times> string) list" where
  "CRITICAL_INDICES =
     [(IM0, ''I&M0 (mandatory)''),
      (IM0_FILTER_DATA, ''I&M0FilterData''),
      (DIAG_DEVICE, ''Device Diagnosis''),
      (MODULE_DIFF_BLOCK, ''ModuleDiffBlock''),
      (PD_REAL_DATA, ''PDRealData''),
      (AR_DATA, ''ARData''),
      (LOG_DATA, ''LogData'')]"

definition IM_INDICES :: "(u16 \<times> string) list" where
  "IM_INDICES =
     [(IM0, ''I&M0''),
      (IM1, ''I&M1''),
      (IM2, ''I&M2''),
      (IM3, ''I&M3''),
      (IM4, ''I&M4''),
      (IM5, ''I&M5''),
      (IM6, ''I&M6''),
      (IM7, ''I&M7''),
      (IM8, ''I&M8''),
      (IM9, ''I&M9''),
      (IM10, ''I&M10''),
      (IM11, ''I&M11''),
      (IM12, ''I&M12''),
      (IM13, ''I&M13''),
      (IM14, ''I&M14''),
      (IM15, ''I&M15'')]"

definition DIAGNOSIS_INDICES_SUBSLOT :: "(u16 \<times> string) list" where
  "DIAGNOSIS_INDICES_SUBSLOT =
     [(DIAG_CHANNEL_SUBSLOT, ''DiagnosisChannel''),
      (DIAG_ALL_SUBSLOT, ''DiagnosisAll''),
      (DIAG_MAINTENANCE_SUBSLOT, ''DiagnosisMaintenance'')]"

definition DIAGNOSIS_INDICES_SLOT :: "(u16 \<times> string) list" where
  "DIAGNOSIS_INDICES_SLOT =
     [(DIAG_CHANNEL_SLOT, ''DiagnosisChannel''),
      (DIAG_ALL_SLOT, ''DiagnosisAll''),
      (DIAG_MAINTENANCE_SLOT, ''DiagnosisMaintenance'')]"

definition DIAGNOSIS_INDICES_AR :: "(u16 \<times> string) list" where
  "DIAGNOSIS_INDICES_AR =
     [(DIAG_CHANNEL_AR, ''DiagnosisChannel''),
      (DIAG_ALL_AR, ''DiagnosisAll''),
      (DIAG_MAINTENANCE_AR, ''DiagnosisMaintenance'')]"

definition DIAGNOSIS_INDICES_API :: "(u16 \<times> string) list" where
  "DIAGNOSIS_INDICES_API =
     [(DIAG_CHANNEL_API, ''DiagnosisChannel''),
      (DIAG_ALL_API, ''DiagnosisAll''),
      (DIAG_MAINTENANCE_API, ''DiagnosisMaintenance'')]"

definition DIAGNOSIS_INDICES_DEVICE :: "(u16 \<times> string) list" where
  "DIAGNOSIS_INDICES_DEVICE =
     [(DIAG_DEVICE, ''DeviceDiagnosis'')]"

definition PORT_INDICES :: "(u16 \<times> string) list" where
  "PORT_INDICES =
     [(PD_PORT_DATA_REAL, ''PDPortDataReal''),
      (PD_PORT_DATA_CHECK, ''PDPortDataCheck''),
      (PD_PORT_DATA_ADJUST, ''PDPortDataAdjust''),
      (PD_PORT_STATISTIC, ''PDPortStatistic''),
      (PD_PORT_MRP_DATA_REAL, ''PDPortMrpDataReal'')]"

definition INTERFACE_INDICES :: "(u16 \<times> string) list" where
  "INTERFACE_INDICES =
     [(PD_INTERFACE_DATA_REAL, ''PDInterfaceDataReal''),
      (PD_INTERFACE_MRP_DATA_REAL, ''PDInterfaceMrpDataReal''),
      (PD_NC_DATA_CHECK, ''PDNCDataCheck'')]"

definition DEVICE_INDICES :: "(u16 \<times> string) list" where
  "DEVICE_INDICES =
     [(AR_DATA, ''ARData''),
      (API_DATA, ''APIData''),
      (PDEV_DATA, ''PDevData''),
      (PD_REAL_DATA, ''PDRealData''),
      (PD_EXPECTED_DATA, ''PDExpectedData''),
      (LOG_DATA, ''LogData''),
      (AUTO_CONFIG, ''AutoConfiguration'')]"

section \<open>Lookups\<close>

text \<open>\<open>iter().find(|&&(t, _)| t == key)\<close>: the name in the first row with the key.\<close>

definition find_name :: "'k \<Rightarrow> ('k \<times> string) list \<Rightarrow> string option" where
  "find_name k table = map_option snd (List.find (\<lambda>r. fst r = k) table)"

text \<open>\<open>format!("{prefix}(0x{n:04X})")\<close> and its two-digit form.\<close>

definition tagged4 :: "string \<Rightarrow> u16 \<Rightarrow> string" where
  "tagged4 prefix n = prefix @ ''(0x'' @ hex_upper 4 (unat n) @ '')''"

definition tagged2 :: "string \<Rightarrow> u8 \<Rightarrow> string" where
  "tagged2 prefix n = prefix @ ''(0x'' @ hex_upper 2 (unat n) @ '')''"

definition get_block_type_name :: "u16 \<Rightarrow> string" where
  "get_block_type_name t =
     (case find_name t BLOCK_TYPE_NAMES of Some name \<Rightarrow> name | None \<Rightarrow> tagged4 ''Unknown'' t)"

definition get_alarm_type_name :: "u16 \<Rightarrow> string" where
  "get_alarm_type_name t =
     (case find_name t ALARM_TYPE_NAMES of Some name \<Rightarrow> name | None \<Rightarrow> tagged4 ''Unknown'' t)"

definition get_iocr_type_name :: "u16 \<Rightarrow> string" where
  "get_iocr_type_name t =
     (case find_name t IOCR_TYPE_NAMES of Some name \<Rightarrow> name | None \<Rightarrow> tagged4 ''Unknown'' t)"

definition get_iocr_rt_class_name :: "u8 \<Rightarrow> string" where
  "get_iocr_rt_class_name c =
     (case find_name c IOCR_RT_CLASS_NAMES of Some name \<Rightarrow> name | None \<Rightarrow> tagged2 ''Unknown'' c)"

definition get_usi_name :: "u16 \<Rightarrow> string" where
  "get_usi_name usi =
     (case find_name usi USI_NAMES of
        Some name \<Rightarrow> name
      | None \<Rightarrow>
          if usi \<le> 0x7FFF then tagged4 ''ManufacturerSpecific'' usi
          else if 0x9000 \<le> usi \<and> usi \<le> 0x9FFF then tagged4 ''ProfileSpecific'' usi
          else tagged4 ''Reserved'' usi)"

definition get_pe_mode_name :: "u8 \<Rightarrow> string" where
  "get_pe_mode_name mode =
     (if mode = PE_MODE_POWER_OFF then ''PE_PowerOff''
      else if PE_MODE_ENERGY_SAVING_MIN \<le> mode \<and> mode \<le> PE_MODE_ENERGY_SAVING_MAX
      then ''PE_EnergySavingMode_'' @ dec_nat (unat mode)
      else if mode = PE_MODE_OPERATE then ''PE_Operate''
      else if mode = PE_MODE_SLEEP_MODE_WOL then ''PE_SleepModeWOL''
      else if mode = PE_MODE_READY_TO_OPERATE then ''PE_ReadyToOperate''
      else tagged2 ''PE_Reserved'' mode)"

definition all_standard_indices :: "(u16 \<times> string) list" where
  "all_standard_indices =
     IM_INDICES @ DIAGNOSIS_INDICES_SUBSLOT @ DIAGNOSIS_INDICES_DEVICE @ PORT_INDICES
     @ INTERFACE_INDICES @ DEVICE_INDICES
     @ [(EXPECTED_ID_SUBSLOT, ''ExpectedIdentificationData''),
        (REAL_ID_SUBSLOT, ''RealIdentificationData''),
        (MODULE_DIFF_BLOCK, ''ModuleDiffBlock''),
        (SUBSTITUTE_VALUES, ''SubstituteValues''),
        (RECORD_INPUT_DATA, ''RecordInputData''),
        (RECORD_OUTPUT_DATA, ''RecordOutputData'')]"

definition get_index_name :: "u16 \<Rightarrow> string" where
  "get_index_name index =
     (case find_name index all_standard_indices of
        Some name \<Rightarrow> name
      | None \<Rightarrow>
          if index \<le> 0x7FFF then tagged4 ''User-specific '' index
          else if 0xAFF0 \<le> index \<and> index \<le> 0xAFFF then ''I&M'' @ dec_nat (unat index - 0xAFF0)
          else if 0x8000 \<le> index \<and> index \<le> 0x8FFF then tagged4 ''Subslot data '' index
          else if 0xC000 \<le> index \<and> index \<le> 0xCFFF then tagged4 ''Slot data '' index
          else if 0xE000 \<le> index \<and> index \<le> 0xEFFF then tagged4 ''AR data '' index
          else if 0xF000 \<le> index \<and> index \<le> 0xF7FF then tagged4 ''API data '' index
          else if 0xF800 \<le> index \<and> index \<le> 0xFBFF then tagged4 ''Device data '' index
          else tagged4 ''Unknown '' index)"

definition get_scope :: "u16 \<Rightarrow> string" where
  "get_scope index =
     (if index \<le> 0x7FFF then ''user''
      else if 0x8000 \<le> index \<and> index \<le> 0x8FFF then ''subslot''
      else if (0xA000 \<le> index \<and> index \<le> 0xAFFF) \<or> (0xC000 \<le> index \<and> index \<le> 0xCFFF) then ''slot''
      else if 0xE000 \<le> index \<and> index \<le> 0xEFFF then ''ar''
      else if 0xF000 \<le> index \<and> index \<le> 0xF7FF then ''api''
      else if 0xF800 \<le> index \<and> index \<le> 0xFBFF then ''device''
      else ''unknown'')"

section \<open>Names are unambiguous\<close>

lemma standard_keys_distinct: "distinct (map fst all_standard_indices)"
  by code_simp

lemma standard_names_distinct: "distinct (map snd all_standard_indices)"
  by code_simp

text \<open>No standard name contains a parenthesis, so none looks like a name made from a range.\<close>

lemma standard_names_plain: "list_all (\<lambda>r. CHR 0x28 \<notin> set (snd r)) all_standard_indices"
  by code_simp

lemma find_name_map_of: "find_name k table = map_of table k"
  by (induction table) (auto simp: find_name_def)

lemma hex_digit_upper_inj: "m < 16 \<Longrightarrow> n < 16 \<Longrightarrow> hex_digit_upper m = hex_digit_upper n \<Longrightarrow> m = n"
proof -
  assume a: "m < 16" "n < 16" "hex_digit_upper m = hex_digit_upper n"
  then have "(of_char (hex_digit_upper m) :: nat) = of_char (hex_digit_upper n)" by simp
  then show "m = n" using a(1,2) by (simp add: hex_digit_upper_def split: if_splits)
qed

lemma hex_upper_Suc: "hex_upper (Suc k) n = hex_upper k (n div 16) @ [hex_digit_upper (n mod 16)]"
proof -
  have "[0..<Suc k] = 0 # map Suc [0..<k]" by (simp add: map_Suc_upt upt_conv_Cons)
  then show ?thesis by (simp add: hex_upper_def rev_map div_mult2_eq)
qed

lemma hex_upper_inj: "m < 16 ^ k \<Longrightarrow> n < 16 ^ k \<Longrightarrow> hex_upper k m = hex_upper k n \<Longrightarrow> m = n"
proof (induction k arbitrary: m n)
  case (Suc k)
  have "m mod 16 = n mod 16" using Suc.prems(3) by (intro hex_digit_upper_inj) (simp_all add: hex_upper_Suc)
  moreover have "m div 16 = n div 16"
    using Suc.prems by (intro Suc.IH) (simp_all add: hex_upper_Suc less_mult_imp_div_less mult.commute)
  ultimately show ?case by (metis div_mult_mod_eq)
qed simp

lemma hex_upper_4_inj: "hex_upper 4 (unat a) = hex_upper 4 (unat (b :: u16)) \<Longrightarrow> a = b"
  using hex_upper_inj [of "unat a" 4 "unat b"] unsigned_less [of a, where 'a = nat] unsigned_less [of b, where 'a = nat] by (simp add: word_unat_eq_iff)

definition range_word :: "u16 \<Rightarrow> string" where
  "range_word i =
     (if i \<le> 0x7FFF then ''User-specific ''
      else if 0x8000 \<le> i \<and> i \<le> 0x8FFF then ''Subslot data ''
      else if 0xC000 \<le> i \<and> i \<le> 0xCFFF then ''Slot data ''
      else if 0xE000 \<le> i \<and> i \<le> 0xEFFF then ''AR data ''
      else if 0xF000 \<le> i \<and> i \<le> 0xF7FF then ''API data ''
      else if 0xF800 \<le> i \<and> i \<le> 0xFBFF then ''Device data ''
      else ''Unknown '')"

lemma im_indices_standard:
  assumes "0xAFF0 \<le> i" and "i \<le> (0xAFFF :: u16)"
  shows "i \<in> fst ` set all_standard_indices"
proof -
  have "list_all (\<lambda>k. k \<in> set (map fst all_standard_indices))
      [0xAFF0, 0xAFF1, 0xAFF2, 0xAFF3, 0xAFF4, 0xAFF5, 0xAFF6, 0xAFF7,
       0xAFF8, 0xAFF9, 0xAFFA, 0xAFFB, 0xAFFC, 0xAFFD, 0xAFFE, 0xAFFF]" by code_simp
  moreover have "unat i \<in> set [0xAFF0..<0xB000]"
    unfolding set_upt atLeastLessThan_iff using assms by (simp add: word_le_nat_alt)
  then have "i \<in> of_nat ` set [0xAFF0..<0xB000]" by (rule image_eqI [rotated]) simp
  then have "i \<in> set [0xAFF0, 0xAFF1, 0xAFF2, 0xAFF3, 0xAFF4, 0xAFF5, 0xAFF6, 0xAFF7,
       0xAFF8, 0xAFF9, 0xAFFA, 0xAFFB, 0xAFFC, 0xAFFD, 0xAFFE, 0xAFFF]"
    by (simp add: upt_rec_numeral)
  ultimately show ?thesis unfolding list_all_iff set_map by blast
qed

lemma index_name_cases:
  obtains (standard) "(i, get_index_name i) \<in> set all_standard_indices"
  | (range) "i \<notin> fst ` set all_standard_indices" "get_index_name i = tagged4 (range_word i) i"
proof (cases "map_of all_standard_indices i")
  case (Some n)
  then have "(i, get_index_name i) \<in> set all_standard_indices"
    by (simp add: get_index_name_def find_name_map_of map_of_SomeD)
  then show ?thesis by (rule standard)
next
  case None
  then have n: "i \<notin> fst ` set all_standard_indices" by (simp add: map_of_eq_None_iff)
  then have im: "\<not> (0xAFF0 \<le> i \<and> i \<le> 0xAFFF)" using im_indices_standard by blast
  have "get_index_name i = tagged4 (range_word i) i"
    unfolding get_index_name_def find_name_map_of None range_word_def option.case if_not_P [OF im]
      if_distrib [of "\<lambda>p. tagged4 p i"] ..
  then show ?thesis using n by (intro range)
qed

lemma range_word_plain: "CHR 0x28 \<notin> set (range_word i)"
  by (simp add: range_word_def)

lemma tagged4_inj:
  assumes "tagged4 p i = tagged4 q j"
  shows "p = q \<and> i = j"
proof -
  have "length (''(0x'' @ hex_upper 4 (unat i) @ '')'') = length (''(0x'' @ hex_upper 4 (unat j) @ '')'')"
    by (simp add: hex_upper_def)
  then have "p = q" "''(0x'' @ hex_upper 4 (unat i) @ '')'' = ''(0x'' @ hex_upper 4 (unat j) @ '')''"
    using assms append_eq_append_conv by (auto simp only: tagged4_def)
  then show ?thesis using hex_upper_4_inj [of i j] by simp
qed

lemma standard_name_plain: "(i, n) \<in> set all_standard_indices \<Longrightarrow> CHR 0x28 \<notin> set n"
  using standard_names_plain by (force simp: list_all_iff)

lemma standard_name_not_tagged: "(i, n) \<in> set all_standard_indices \<Longrightarrow> n \<noteq> tagged4 p j"
  using standard_name_plain [of i n] by (auto simp: tagged4_def)

lemma distinct_snd_unique:
  "distinct (map snd xs) \<Longrightarrow> (a, n) \<in> set xs \<Longrightarrow> (b, n) \<in> set xs \<Longrightarrow> a = b"
  by (induction xs) (force simp: image_iff)+

lemma unknown_scope:
  "range_word i = ''Unknown '' \<longleftrightarrow> get_scope i = ''unknown'' \<or> 0xA000 \<le> i \<and> i \<le> 0xAFFF"
  unfolding range_word_def get_scope_def by (simp split: if_splits) (auto simp: word_le_nat_alt)

lemma standard_scopes:
  "(i, n) \<in> set all_standard_indices \<Longrightarrow> get_scope i \<noteq> ''unknown'' \<and> \<not> (0xA000 \<le> i \<and> i < 0xAFF0)"
proof -
  have "list_all (\<lambda>r. get_scope (fst r) \<noteq> ''unknown'' \<and> \<not> (0xA000 \<le> fst r \<and> fst r < 0xAFF0)) all_standard_indices"
    by code_simp
  moreover assume "(i, n) \<in> set all_standard_indices"
  ultimately show ?thesis by (fastforce simp: list_all_iff)
qed

text \<open>
  The index names are unambiguous. Two indices have the same name only if they are the same
  index: the standard names are distinct, a range name carries its index in four hexadecimal
  digits and no standard name looks like one. Every I\&M index is a standard one. An index is
  named \<open>Unknown\<close> exactly when its scope is unknown, or when it lies in the I\&M range of the
  slot scope below 0xAFF0, for which the name table has no range.
\<close>

theorem index_names_unambiguous:
  "(get_index_name i = get_index_name j) = (i = j)
   \<and> (get_index_name i = tagged4 ''Unknown '' i) = (get_scope i = ''unknown'' \<or> 0xA000 \<le> i \<and> i < 0xAFF0)"
proof
  show "(get_index_name i = get_index_name j) = (i = j)"
  proof
    assume same: "get_index_name i = get_index_name j"
    show "i = j"
    proof (cases i rule: index_name_cases)
      case standard
      show ?thesis
      proof (cases j rule: index_name_cases)
        case s: standard
        then show ?thesis using standard same standard_names_distinct distinct_snd_unique by metis
      next
        case range
        then show ?thesis using standard same standard_name_not_tagged by metis
      qed
    next
      case range
      then show ?thesis using same standard_name_not_tagged tagged4_inj by (cases j rule: index_name_cases) metis+
    qed
  qed simp
next
  show "(get_index_name i = tagged4 ''Unknown '' i) = (get_scope i = ''unknown'' \<or> 0xA000 \<le> i \<and> i < 0xAFF0)"
  proof (cases i rule: index_name_cases)
    case standard
    then show ?thesis using standard_name_not_tagged standard_scopes by metis
  next
    case range
    have "\<not> (0xAFF0 \<le> i \<and> i \<le> 0xAFFF)" using range(1) im_indices_standard by blast
    moreover have "(get_index_name i = tagged4 ''Unknown '' i) = (range_word i = ''Unknown '')"
      using range(2) tagged4_inj by metis
    ultimately show ?thesis unfolding unknown_scope by (auto simp: word_le_nat_alt word_less_nat_alt)
  qed
qed

end
