(* ===== verification/Capture.thy ===== *)
theory Capture
  imports Control
begin

text \<open>
  Model of \<open>src/capture_check.rs\<close>: the verdicts of a capture attempt, the classification of
  libpcap's messages, the scan of the BSD capture nodes and the check itself. What the operating
  system and libpcap answer (each node's open, the device list, the capture's open) are arguments.
\<close>

datatype readiness = Ready | NoPermission | Busy | NoSuchInterface | NoDevices | Unknown string

definition readiness_as_str :: "readiness \<Rightarrow> string" where
  "readiness_as_str r =
     (case r of Ready \<Rightarrow> ''ready'' | NoPermission \<Rightarrow> ''no_permission'' | Busy \<Rightarrow> ''busy''
      | NoSuchInterface \<Rightarrow> ''no_such_interface'' | NoDevices \<Rightarrow> ''no_devices'' | Unknown _ \<Rightarrow> ''unknown'')"

definition classify_pcap_error :: "string \<Rightarrow> readiness" where
  "classify_pcap_error msg =
     (let m = map ascii_lower msg in
      if contains m ''permission denied'' \<or> contains m ''operation not permitted'' then NoPermission
      else if contains m ''busy'' then Busy
      else if contains m ''no such device'' \<or> contains m ''no such interface'' \<or> contains m ''not found''
        \<or> contains m ''syntax error in filter'' then NoSuchInterface
      else Unknown msg)"

definition fold_bpf_scan :: "bool \<Rightarrow> bool \<Rightarrow> bool \<Rightarrow> readiness option" where
  "fold_bpf_scan opened_any denied busy =
     (if denied then Some NoPermission
      else if opened_any then None
      else if busy then Some Busy
      else None)"

text \<open>
  What opening one node came to: a handle, a refusal, \<open>EBUSY\<close>, \<open>ENOENT\<close> or another error. The
  scan walks the nodes in order, at most \<open>SCAN_LIMIT\<close> of them.
\<close>

datatype node_open = NodeOpened | NodeDenied | NodeBusy | NodeAbsent | NodeFailed

definition SCAN_LIMIT :: nat where "SCAN_LIMIT = 256"

fun bpf_nodes :: "node_open list \<Rightarrow> bool \<times> bool \<times> bool \<Rightarrow> bool \<times> bool \<times> bool" where
  "bpf_nodes [] s = s"
| "bpf_nodes (n # ns) (opened_any, denied, busy) =
     (case n of
        NodeOpened \<Rightarrow> (True, denied, busy)
      | NodeDenied \<Rightarrow> bpf_nodes ns (opened_any, True, busy)
      | NodeBusy \<Rightarrow> bpf_nodes ns (opened_any, denied, True)
      | NodeAbsent \<Rightarrow> (opened_any, denied, busy)
      | NodeFailed \<Rightarrow> (opened_any, denied, busy))"

definition bpf_scan :: "node_open list \<Rightarrow> readiness option" where
  "bpf_scan nodes =
     (case bpf_nodes (take SCAN_LIMIT nodes) (False, False, False) of
        (opened_any, denied, busy) \<Rightarrow> fold_bpf_scan opened_any denied busy)"

text \<open>
  The check. \<open>scan\<close> is the verdict of the node scan (\<open>None\<close> on a system without such nodes),
  \<open>devices\<close> libpcap's device list and \<open>attempt\<close> the outcome of opening a capture on a device.
\<close>

definition check ::
    "readiness option \<Rightarrow> string + string list \<Rightarrow> (string \<Rightarrow> string + unit) \<Rightarrow> string option
      \<Rightarrow> readiness \<times> string option" where
  "check scan devices attempt iface =
     (case scan of
        Some verdict \<Rightarrow> (verdict, iface)
      | None \<Rightarrow>
          (let target = (case iface of
               Some name \<Rightarrow> Inr name
             | None \<Rightarrow> (case devices of
                 Inl e \<Rightarrow> Inl (classify_pcap_error e)
               | Inr ds \<Rightarrow> (case List.find (\<lambda>d. strip_prefix ''lo'' d = None) ds of
                   Some d \<Rightarrow> Inr d | None \<Rightarrow> Inl NoDevices)))
           in case target of
                Inl verdict \<Rightarrow> (verdict, None)
              | Inr t \<Rightarrow> (case attempt t of Inr _ \<Rightarrow> Ready | Inl e \<Rightarrow> classify_pcap_error e, Some t)))"

section \<open>The scan\<close>

text \<open>The nodes the scan gets to see: those before the first that ends it.\<close>

definition ends_scan :: "node_open \<Rightarrow> bool" where
  "ends_scan n \<longleftrightarrow> n = NodeOpened \<or> n = NodeAbsent \<or> n = NodeFailed"

definition seen_nodes :: "node_open list \<Rightarrow> node_open list" where
  "seen_nodes nodes = takeWhile (\<lambda>n. \<not> ends_scan n) (take SCAN_LIMIT nodes)"

lemma bpf_nodes_eq:
  "bpf_nodes ns (oa, d, b) =
     (oa \<or> (case dropWhile (\<lambda>n. \<not> ends_scan n) ns of NodeOpened # _ \<Rightarrow> True | _ \<Rightarrow> False),
      d \<or> NodeDenied \<in> set (takeWhile (\<lambda>n. \<not> ends_scan n) ns),
      b \<or> NodeBusy \<in> set (takeWhile (\<lambda>n. \<not> ends_scan n) ns))"
  by (induction ns arbitrary: oa d b) (auto simp: ends_scan_def split: node_open.splits)

lemma bpf_scan_verdict:
  "bpf_scan nodes = Some NoPermission \<longleftrightarrow> NodeDenied \<in> set (seen_nodes nodes)"
  "bpf_scan (NodeOpened # nodes) = None"
  by (auto simp: bpf_scan_def bpf_nodes_eq fold_bpf_scan_def seen_nodes_def SCAN_LIMIT_def ends_scan_def
      split: list.splits node_open.splits)

text \<open>A verdict about an interface names the interface it is about.\<close>

lemma check_ready:
  assumes "check scan devices attempt iface = (Ready, tried)" and "scan \<noteq> Some Ready"
  shows "\<exists>t. tried = Some t \<and> attempt t = Inr () \<and> (iface = None \<or> iface = Some t)"
  using assms by (auto simp: check_def classify_pcap_error_def Let_def split: option.splits sum.splits if_splits)

end
