(* ===== verification/Lines.thy ===== *)
theory Lines
  imports Capture Cyclic Dcp Vendors
begin

text \<open>
  The emitted line vocabulary of \<open>src/bin/profinet.rs\<close>. A line is the compact serialisation of
  a JSON document; the serialiser is a third-party crate, so a builder here yields the document:
  its fields in the order of the \<open>Serialize\<close> struct, under their serialised names. \<open>event\<close> has one
  constructor per builder, with the builder's arguments; it is what the serve loop emits.
\<close>

datatype json = JNull | JBool bool | JNum int | JStr string | JArr "json list" | JObj "(string \<times> json) list"

datatype tag =
    TagAck | TagAlarm | TagArLost | TagBye | TagControlActive | TagCurrentOutput | TagCyclic
  | TagCyclicState | TagCyclicStarted | TagData | TagDeadman | TagDevices | TagError | TagHello
  | TagInputStatus | TagOk | TagOutput | TagPong | TagReadError | TagRefused | TagResult
  | TagSafeShutdown | TagStatus | TagStopped | TagTransportError | TagWarning

text \<open>\<open>rename_all = "snake_case"\<close>\<close>

fun tag_str :: "tag \<Rightarrow> string" where
  "tag_str TagAck = ''ack''"
| "tag_str TagAlarm = ''alarm''"
| "tag_str TagArLost = ''ar_lost''"
| "tag_str TagBye = ''bye''"
| "tag_str TagControlActive = ''control_active''"
| "tag_str TagCurrentOutput = ''current_output''"
| "tag_str TagCyclic = ''cyclic''"
| "tag_str TagCyclicState = ''cyclic_state''"
| "tag_str TagCyclicStarted = ''cyclic_started''"
| "tag_str TagData = ''data''"
| "tag_str TagDeadman = ''deadman''"
| "tag_str TagDevices = ''devices''"
| "tag_str TagError = ''error''"
| "tag_str TagHello = ''hello''"
| "tag_str TagInputStatus = ''input_status''"
| "tag_str TagOk = ''ok''"
| "tag_str TagOutput = ''output''"
| "tag_str TagPong = ''pong''"
| "tag_str TagReadError = ''read_error''"
| "tag_str TagRefused = ''refused''"
| "tag_str TagResult = ''result''"
| "tag_str TagSafeShutdown = ''safe_shutdown''"
| "tag_str TagStatus = ''status''"
| "tag_str TagStopped = ''stopped''"
| "tag_str TagTransportError = ''transport_error''"
| "tag_str TagWarning = ''warning''"

definition jnat :: "nat \<Rightarrow> json" where "jnat n = JNum (int n)"

definition jword :: "'a :: len word \<Rightarrow> json" where "jword w = JNum (uint w)"

definition jtype :: "tag \<Rightarrow> string \<times> json" where "jtype t = (''type'', JStr (tag_str t))"

text \<open>\<open>skip_serializing_if = "Option::is_none"\<close>, and an \<open>Option\<close> written as \<open>null\<close>.\<close>

definition jskip :: "string \<Rightarrow> json option \<Rightarrow> (string \<times> json) list" where
  "jskip key v = (case v of None \<Rightarrow> [] | Some j \<Rightarrow> [(key, j)])"

definition jopt :: "json option \<Rightarrow> json" where
  "jopt v = (case v of None \<Rightarrow> JNull | Some j \<Rightarrow> j)"

definition SERVE_PROTO :: nat where "SERVE_PROTO = 9"

definition hex_encode :: "bytes \<Rightarrow> string" where
  "hex_encode data = concat (map hex2 data)"

section \<open>Errors and warnings\<close>

definition error_read_line :: "string \<Rightarrow> string \<Rightarrow> json" where
  "error_read_line rd err = JObj [jtype TagError, (''read'', JStr rd), (''msg'', JStr err)]"

definition error_msg_line :: "string \<Rightarrow> json" where
  "error_msg_line msg = JObj [jtype TagError, (''msg'', JStr msg)]"

definition bad_command_line :: "string \<Rightarrow> string \<Rightarrow> json" where
  "bad_command_line msg line =
     JObj [jtype TagError, (''msg'', JStr (''bad command: '' @ msg)), (''line'', JStr line)]"

definition warning_line :: "string \<Rightarrow> string \<Rightarrow> json" where
  "warning_line code msg = JObj [jtype TagWarning, (''code'', JStr code), (''msg'', JStr msg)]"

section \<open>What the binary and the machine are\<close>

definition capture_line :: "readiness \<Rightarrow> string option \<Rightarrow> json" where
  "capture_line verdict iface =
     (let detail = (case verdict of Unknown msg \<Rightarrow> Some (JStr msg) | _ \<Rightarrow> None) in
      JObj ([(''capture'', JStr (readiness_as_str verdict)), (''iface'', jopt (map_option JStr iface))]
        @ jskip ''detail'' detail))"

datatype dcp_action = SetName | SetIp | Signal | Reset | FactoryReset

definition dcp_action_str :: "dcp_action \<Rightarrow> string" where
  "dcp_action_str a =
     (case a of SetName \<Rightarrow> ''set_name'' | SetIp \<Rightarrow> ''set_ip'' | Signal \<Rightarrow> ''signal'' | Reset \<Rightarrow> ''reset''
      | FactoryReset \<Rightarrow> ''factory_reset'')"

datatype set_answer = SetDone | SetRefused "u8 option" string | SetTimeout

definition result_line :: "dcp_action \<Rightarrow> bytes \<Rightarrow> set_answer \<Rightarrow> json" where
  "result_line action mac answer =
     (let (error, dcp_error, detail) = (case answer of
          SetDone \<Rightarrow> (None, None, None)
        | SetRefused code text \<Rightarrow> (Some (JStr ''refused''), map_option jword code, Some (JStr text))
        | SetTimeout \<Rightarrow> (Some (JStr ''timeout''), None, None))
      in JObj ([(''proto'', jnat SERVE_PROTO), jtype TagResult, (''action'', JStr (dcp_action_str action)),
          (''mac'', JStr (mac2s mac)), (''ok'', JBool (answer = SetDone))]
        @ jskip ''error'' error @ jskip ''dcp_error'' dcp_error @ jskip ''detail'' detail))"

text \<open>\<open>s2ip(..).unwrap_or_default()\<close>; name and type went through \<open>from_utf8_lossy\<close>.\<close>

definition ip_or_default :: "bytes \<Rightarrow> string" where
  "ip_or_default b = (case s2ip b of Inr s \<Rightarrow> s | Inl _ \<Rightarrow> [])"

definition device_json :: "dcp_device \<Rightarrow> json" where
  "device_json d =
     JObj [(''mac'', JStr (mac2s (dd_mac d))),
       (''name'', JStr (string_of (from_utf8_lossy (dd_name d)))),
       (''device_type'', JStr (string_of (from_utf8_lossy (dd_device_type d)))),
       (''ip'', JStr (ip_or_default (dd_ip d))), (''netmask'', JStr (ip_or_default (dd_netmask d))),
       (''gateway'', JStr (ip_or_default (dd_gateway d))),
       (''ip_block_info'', jopt (map_option jword (dd_ip_block_info d))),
       (''vendor_id'', jword (dd_vendor_id d)), (''vendor_name'', JStr (get_vendor_name (dd_vendor_id d))),
       (''device_id'', jword (dd_device_id d)), (''role'', jword (dd_role d))]"

definition devices_line :: "string \<Rightarrow> dcp_device list \<Rightarrow> json" where
  "devices_line iface devices =
     JObj [(''proto'', jnat SERVE_PROTO), jtype TagDevices, (''iface'', JStr iface),
       (''devices'', JArr (map device_json devices))]"

text \<open>The crate version and the git hash are fixed when the binary is built.\<close>

definition proto_line :: "string \<Rightarrow> string \<Rightarrow> json" where
  "proto_line version git =
     JObj [(''proto'', jnat SERVE_PROTO), (''version'', JStr version), (''git'', JStr git)]"

definition hello_line :: "string \<Rightarrow> string \<Rightarrow> bool \<Rightarrow> nat \<Rightarrow> bool \<Rightarrow> u8 \<Rightarrow> json" where
  "hello_line version station read_only gap_ms cyclic allow_mask =
     JObj [(''proto'', jnat SERVE_PROTO), jtype TagHello, (''version'', JStr version),
       (''station'', JStr station), (''read_only'', JBool read_only), (''gap_ms'', jnat gap_ms),
       (''cyclic'', JBool cyclic), (''allow_mask'', jword allow_mask)]"

section \<open>Answers to requests\<close>

definition bye_line :: "nat \<Rightarrow> json" where
  "bye_line i = JObj [(''id'', jnat i), jtype TagBye]"

definition pong_line :: "nat \<Rightarrow> nat \<Rightarrow> json" where
  "pong_line i host_us = JObj [(''id'', jnat i), jtype TagPong, (''host_us'', jnat host_us)]"

definition data_line :: "nat \<Rightarrow> nat \<Rightarrow> nat \<Rightarrow> string \<Rightarrow> json" where
  "data_line i host_us len hex =
     JObj [(''id'', jnat i), jtype TagData, (''host_us'', jnat host_us), (''len'', jnat len), (''hex'', JStr hex)]"

definition ok_line :: "nat \<Rightarrow> nat \<Rightarrow> json" where
  "ok_line i host_us = JObj [(''id'', jnat i), jtype TagOk, (''host_us'', jnat host_us)]"

definition read_error_line :: "nat \<Rightarrow> nat \<Rightarrow> string \<Rightarrow> string \<Rightarrow> json" where
  "read_error_line i host_us pnio msg =
     JObj [(''id'', jnat i), jtype TagReadError, (''host_us'', jnat host_us), (''pnio'', JStr pnio), (''msg'', JStr msg)]"

definition transport_error_line :: "nat \<Rightarrow> nat \<Rightarrow> string \<Rightarrow> json" where
  "transport_error_line i host_us msg =
     JObj [(''id'', jnat i), jtype TagTransportError, (''host_us'', jnat host_us), (''msg'', JStr msg)]"

definition refused_read_only_line :: "nat \<Rightarrow> json" where
  "refused_read_only_line i =
     JObj [(''id'', jnat i), jtype TagRefused, (''reason'', JStr ''server is read-only'')]"

definition refused_setup_line :: "string \<Rightarrow> json" where
  "refused_setup_line reason = JObj [jtype TagRefused, (''reason'', JStr reason)]"

definition refused_needs_cyclic_line :: "string \<Rightarrow> json" where
  "refused_needs_cyclic_line line =
     JObj [jtype TagRefused, (''reason'', JStr ''control commands need --cyclic''), (''line'', JStr line)]"

definition refused_cmd_line :: "string \<Rightarrow> u8 \<Rightarrow> string \<Rightarrow> json" where
  "refused_cmd_line cmd m reason =
     JObj [jtype TagRefused, (''cmd'', JStr cmd), (''mask'', jword m), (''reason'', JStr reason)]"

definition ack_set_level_line :: "u8 \<Rightarrow> bool \<Rightarrow> u8 \<Rightarrow> json" where
  "ack_set_level_line m on level =
     JObj [jtype TagAck, (''cmd'', JStr ''set_level''), (''mask'', jword m), (''on'', JBool on), (''level'', jword level)]"

definition ack_pulse_line :: "u8 \<Rightarrow> json" where
  "ack_pulse_line m =
     JObj [jtype TagAck, (''cmd'', JStr ''pulse''), (''mask'', jword m), (''pulse_ticks'', jnat PULSE_TICKS)]"

definition ack_keepalive_line :: json where
  "ack_keepalive_line = JObj [jtype TagAck, (''cmd'', JStr ''keepalive'')]"

section \<open>The cyclic tier\<close>

definition current_output_line :: "nat \<Rightarrow> string \<Rightarrow> json" where
  "current_output_line len hex = JObj [jtype TagCurrentOutput, (''len'', jnat len), (''hex'', JStr hex)]"

definition cyclic_line :: "u16 \<Rightarrow> u16 \<Rightarrow> nat \<Rightarrow> nat \<Rightarrow> string \<Rightarrow> json" where
  "cyclic_line slot subslot host_us len hex =
     JObj [jtype TagCyclic, (''slot'', jword slot), (''subslot'', jword subslot), (''host_us'', jnat host_us),
       (''len'', jnat len), (''hex'', JStr hex)]"

definition cyclic_started_line :: "u16 \<Rightarrow> u16 \<Rightarrow> u16 \<Rightarrow> nat \<Rightarrow> u16 \<Rightarrow> u16 \<Rightarrow> json" where
  "cyclic_started_line cycle_ms input_frame_id output_frame_id input_len out_slot out_subslot =
     JObj [jtype TagCyclicStarted, (''cycle_ms'', jword cycle_ms), (''input_frame_id'', jword input_frame_id),
       (''output_frame_id'', jword output_frame_id), (''input_len'', jnat input_len),
       (''out_slot'', jword out_slot), (''out_subslot'', jword out_subslot)]"

definition cyclic_state_line :: "nat \<Rightarrow> string \<Rightarrow> string \<Rightarrow> json" where
  "cyclic_state_line host_us from_state to_state =
     JObj [jtype TagCyclicState, (''host_us'', jnat host_us), (''from'', JStr from_state), (''to'', JStr to_state)]"

definition input_status_line :: "nat \<Rightarrow> u16 \<Rightarrow> u16 \<Rightarrow> u8 \<Rightarrow> json" where
  "input_status_line host_us slot subslot iops =
     JObj [jtype TagInputStatus, (''host_us'', jnat host_us), (''slot'', jword slot), (''subslot'', jword subslot),
       (''iops'', jword iops), (''good'', JBool (iops AND IOXS_DATA_STATE_GOOD \<noteq> 0))]"

definition control_active_line :: "u8 \<Rightarrow> u8 \<Rightarrow> json" where
  "control_active_line output_byte allow_mask =
     JObj [jtype TagControlActive, (''output_byte'', jword output_byte), (''allow_mask'', jword allow_mask)]"

definition output_line :: "u8 \<Rightarrow> bool \<Rightarrow> string \<Rightarrow> json" where
  "output_line control_byte safe readback_hex =
     JObj [jtype TagOutput, (''control_byte'', jword control_byte), (''safe'', JBool safe),
       (''readback_hex'', JStr readback_hex)]"

definition deadman_line :: json where
  "deadman_line = JObj [jtype TagDeadman, (''msg'', JStr ''no command/keepalive while a level bit is held'')]"

definition status_line :: "nat \<Rightarrow> nat \<Rightarrow> nat \<Rightarrow> nat \<Rightarrow> nat \<Rightarrow> nat \<Rightarrow> u8 \<Rightarrow> json" where
  "status_line host_us tx rx missed invalid max_rx_gap_us out_byte =
     JObj [jtype TagStatus, (''host_us'', jnat host_us), (''tx'', jnat tx), (''rx'', jnat rx),
       (''missed'', jnat missed), (''invalid'', jnat invalid), (''max_rx_gap_us'', jnat max_rx_gap_us),
       (''out_byte'', jword out_byte)]"

section \<open>The end of a session\<close>

definition ar_lost_line :: "nat \<Rightarrow> string \<Rightarrow> json" where
  "ar_lost_line host_us msg = JObj [jtype TagArLost, (''host_us'', jnat host_us), (''msg'', JStr msg)]"

definition safe_shutdown_line :: "string \<Rightarrow> bool \<Rightarrow> string \<Rightarrow> json" where
  "safe_shutdown_line reason verified_safe readback_hex =
     JObj [jtype TagSafeShutdown, (''reason'', JStr reason), (''verified_safe'', JBool verified_safe),
       (''readback_hex'', JStr readback_hex)]"

definition alarm_line :: "string \<Rightarrow> string \<Rightarrow> json" where
  "alarm_line reason readback_hex =
     JObj [jtype TagAlarm, (''reason'', JStr ''safe output NOT verified''), (''shutdown_reason'', JStr reason),
       (''readback_hex'', JStr readback_hex)]"

definition stopped_exit_line :: "int \<Rightarrow> json" where
  "stopped_exit_line exit = JObj [jtype TagStopped, (''exit'', JNum exit)]"

definition stopped_stats_line :: "nat \<Rightarrow> nat \<Rightarrow> nat \<Rightarrow> json" where
  "stopped_stats_line tx rx missed =
     JObj [jtype TagStopped, (''tx'', jnat tx), (''rx'', jnat rx), (''missed'', jnat missed)]"

section \<open>Events\<close>

datatype event =
    LErrorRead string string
  | LErrorMsg string
  | LBadCommand string string
  | LWarning string string
  | LCapture readiness "string option"
  | LResult dcp_action bytes set_answer
  | LDevices string "dcp_device list"
  | LProto string string
  | LHello string string bool nat bool u8
  | LBye nat
  | LPong nat nat
  | LData nat nat nat string
  | LOk nat nat
  | LReadError nat nat string string
  | LTransportError nat nat string
  | LRefusedReadOnly nat
  | LRefusedSetup string
  | LRefusedNeedsCyclic string
  | LRefusedCmd string u8 string
  | LAckSetLevel u8 bool u8
  | LAckPulse u8
  | LAckKeepalive
  | LCurrentOutput nat string
  | LCyclic u16 u16 nat nat string
  | LCyclicStarted u16 u16 u16 nat u16 u16
  | LCyclicState nat string string
  | LInputStatus nat u16 u16 u8
  | LControlActive u8 u8
  | LOutput u8 bool string
  | LDeadman
  | LStatus nat nat nat nat nat nat u8
  | LArLost nat string
  | LSafeShutdown string bool string
  | LAlarm string string
  | LStoppedExit int
  | LStoppedStats nat nat nat

fun event_line :: "event \<Rightarrow> json" where
  "event_line (LErrorRead rd err) = error_read_line rd err"
| "event_line (LErrorMsg msg) = error_msg_line msg"
| "event_line (LBadCommand msg line) = bad_command_line msg line"
| "event_line (LWarning code msg) = warning_line code msg"
| "event_line (LCapture v iface) = capture_line v iface"
| "event_line (LResult a mac ans) = result_line a mac ans"
| "event_line (LDevices iface ds) = devices_line iface ds"
| "event_line (LProto v g) = proto_line v g"
| "event_line (LHello v st ro gap cyc am) = hello_line v st ro gap cyc am"
| "event_line (LBye i) = bye_line i"
| "event_line (LPong i us) = pong_line i us"
| "event_line (LData i us len hex) = data_line i us len hex"
| "event_line (LOk i us) = ok_line i us"
| "event_line (LReadError i us pnio msg) = read_error_line i us pnio msg"
| "event_line (LTransportError i us msg) = transport_error_line i us msg"
| "event_line (LRefusedReadOnly i) = refused_read_only_line i"
| "event_line (LRefusedSetup r) = refused_setup_line r"
| "event_line (LRefusedNeedsCyclic line) = refused_needs_cyclic_line line"
| "event_line (LRefusedCmd c m r) = refused_cmd_line c m r"
| "event_line (LAckSetLevel m on l) = ack_set_level_line m on l"
| "event_line (LAckPulse m) = ack_pulse_line m"
| "event_line LAckKeepalive = ack_keepalive_line"
| "event_line (LCurrentOutput len hex) = current_output_line len hex"
| "event_line (LCyclic s ss us len hex) = cyclic_line s ss us len hex"
| "event_line (LCyclicStarted c fi fo len s ss) = cyclic_started_line c fi fo len s ss"
| "event_line (LCyclicState us a b) = cyclic_state_line us a b"
| "event_line (LInputStatus us s ss iops) = input_status_line us s ss iops"
| "event_line (LControlActive b m) = control_active_line b m"
| "event_line (LOutput b safe hex) = output_line b safe hex"
| "event_line LDeadman = deadman_line"
| "event_line (LStatus us tx rx mi bad gap b) = status_line us tx rx mi bad gap b"
| "event_line (LArLost us msg) = ar_lost_line us msg"
| "event_line (LSafeShutdown r v hex) = safe_shutdown_line r v hex"
| "event_line (LAlarm r hex) = alarm_line r hex"
| "event_line (LStoppedExit n) = stopped_exit_line n"
| "event_line (LStoppedStats tx rx mi) = stopped_stats_line tx rx mi"

section \<open>Reading the lines back\<close>

text \<open>
  The consumer's side: the event a document stands for, told by its \<open>type\<close> field and, where a
  type is shared, by which fields are present.
\<close>

fun as_str :: "json \<Rightarrow> string option" where "as_str (JStr s) = Some s" | "as_str _ = None"
fun as_bool :: "json \<Rightarrow> bool option" where "as_bool (JBool b) = Some b" | "as_bool _ = None"
fun as_int :: "json \<Rightarrow> int option" where "as_int (JNum n) = Some n" | "as_int _ = None"

definition get_str :: "(string \<times> json) list \<Rightarrow> string \<Rightarrow> string option" where
  "get_str fs k = Option.bind (map_of fs k) as_str"
definition get_bool :: "(string \<times> json) list \<Rightarrow> string \<Rightarrow> bool option" where
  "get_bool fs k = Option.bind (map_of fs k) as_bool"
definition get_nat :: "(string \<times> json) list \<Rightarrow> string \<Rightarrow> nat option" where
  "get_nat fs k = map_option nat (Option.bind (map_of fs k) as_int)"
definition get_word :: "(string \<times> json) list \<Rightarrow> string \<Rightarrow> 'a :: len word option" where
  "get_word fs k = map_option word_of_int (Option.bind (map_of fs k) as_int)"
definition has :: "(string \<times> json) list \<Rightarrow> string \<Rightarrow> bool" where
  "has fs k = (map_of fs k \<noteq> None)"

definition read_error_type :: "(string \<times> json) list \<Rightarrow> event option" where
  "read_error_type fs = do {
     msg \<leftarrow> get_str fs ''msg'';
     (if has fs ''line'' then do {
        line \<leftarrow> get_str fs ''line'';
        m \<leftarrow> strip_prefix ''bad command: '' msg;
        Some (LBadCommand m line) }
      else if has fs ''read'' then do { rd \<leftarrow> get_str fs ''read''; Some (LErrorRead rd msg) }
      else Some (LErrorMsg msg)) }"

definition read_refused_type :: "(string \<times> json) list \<Rightarrow> event option" where
  "read_refused_type fs =
     (if has fs ''id'' then do { i \<leftarrow> get_nat fs ''id''; Some (LRefusedReadOnly i) }
      else if has fs ''line'' then do { line \<leftarrow> get_str fs ''line''; Some (LRefusedNeedsCyclic line) }
      else do {
        reason \<leftarrow> get_str fs ''reason'';
        (if has fs ''cmd'' then do {
           c \<leftarrow> get_str fs ''cmd'';
           m \<leftarrow> get_word fs ''mask'';
           Some (LRefusedCmd c m reason) }
         else Some (LRefusedSetup reason)) })"

definition read_ack_type :: "(string \<times> json) list \<Rightarrow> event option" where
  "read_ack_type fs =
     (if has fs ''on'' then do {
        m \<leftarrow> get_word fs ''mask''; on \<leftarrow> get_bool fs ''on''; l \<leftarrow> get_word fs ''level'';
        Some (LAckSetLevel m on l) }
      else if has fs ''mask'' then do { m \<leftarrow> get_word fs ''mask''; Some (LAckPulse m) }
      else Some LAckKeepalive)"

definition read_stopped_type :: "(string \<times> json) list \<Rightarrow> event option" where
  "read_stopped_type fs =
     (if has fs ''exit'' then map_option LStoppedExit (Option.bind (map_of fs ''exit'') as_int)
      else do {
        tx \<leftarrow> get_nat fs ''tx''; rx \<leftarrow> get_nat fs ''rx''; mi \<leftarrow> get_nat fs ''missed'';
        Some (LStoppedStats tx rx mi) })"

definition read_action :: "string \<Rightarrow> dcp_action option" where
  "read_action s = List.find (\<lambda>a. dcp_action_str a = s) [SetName, SetIp, Signal, Reset, FactoryReset]"

definition read_result_type :: "(string \<times> json) list \<Rightarrow> event option" where
  "read_result_type fs = do {
     a \<leftarrow> Option.bind (get_str fs ''action'') read_action;
     text \<leftarrow> get_str fs ''mac'';
     mac \<leftarrow> (case s2mac text of Inr m \<Rightarrow> Some m | Inl _ \<Rightarrow> None);
     ok \<leftarrow> get_bool fs ''ok'';
     (if ok then Some (LResult a mac SetDone)
      else if has fs ''detail'' then do {
        detail \<leftarrow> get_str fs ''detail'';
        Some (LResult a mac (SetRefused (get_word fs ''dcp_error'') detail)) }
      else Some (LResult a mac SetTimeout)) }"

definition read_untyped :: "(string \<times> json) list \<Rightarrow> event option" where
  "read_untyped fs =
     (case get_str fs ''capture'' of
        Some w \<Rightarrow>
          (if has fs ''detail'' then do {
             detail \<leftarrow> get_str fs ''detail'';
             Some (LCapture (Unknown detail) (get_str fs ''iface'')) }
           else do {
             v \<leftarrow> List.find (\<lambda>r. readiness_as_str r = w) [Ready, NoPermission, Busy, NoSuchInterface, NoDevices];
             Some (LCapture v (get_str fs ''iface'')) })
      | None \<Rightarrow> do {
          v \<leftarrow> get_str fs ''version''; g \<leftarrow> get_str fs ''git''; Some (LProto v g) })"

definition read_answer_type :: "string \<Rightarrow> (string \<times> json) list \<Rightarrow> event option" where
  "read_answer_type ty fs = do {
     i \<leftarrow> get_nat fs ''id'';
     (if ty = ''bye'' then Some (LBye i)
      else do {
        us \<leftarrow> get_nat fs ''host_us'';
        (if ty = ''pong'' then Some (LPong i us)
         else if ty = ''ok'' then Some (LOk i us)
         else if ty = ''data'' then do {
           len \<leftarrow> get_nat fs ''len''; hex \<leftarrow> get_str fs ''hex''; Some (LData i us len hex) }
         else do {
           msg \<leftarrow> get_str fs ''msg'';
           (if ty = ''transport_error'' then Some (LTransportError i us msg)
            else do { pnio \<leftarrow> get_str fs ''pnio''; Some (LReadError i us pnio msg) }) }) }) }"

definition read_cyclic_type :: "string \<Rightarrow> (string \<times> json) list \<Rightarrow> event option" where
  "read_cyclic_type ty fs =
     (if ty = ''current_output'' then do {
        len \<leftarrow> get_nat fs ''len''; hex \<leftarrow> get_str fs ''hex''; Some (LCurrentOutput len hex) }
      else if ty = ''cyclic'' then do {
        s \<leftarrow> get_word fs ''slot''; ss \<leftarrow> get_word fs ''subslot''; us \<leftarrow> get_nat fs ''host_us'';
        len \<leftarrow> get_nat fs ''len''; hex \<leftarrow> get_str fs ''hex''; Some (LCyclic s ss us len hex) }
      else if ty = ''cyclic_started'' then do {
        c \<leftarrow> get_word fs ''cycle_ms''; fi \<leftarrow> get_word fs ''input_frame_id''; fo \<leftarrow> get_word fs ''output_frame_id'';
        len \<leftarrow> get_nat fs ''input_len''; s \<leftarrow> get_word fs ''out_slot''; ss \<leftarrow> get_word fs ''out_subslot'';
        Some (LCyclicStarted c fi fo len s ss) }
      else if ty = ''cyclic_state'' then do {
        us \<leftarrow> get_nat fs ''host_us''; a \<leftarrow> get_str fs ''from''; b \<leftarrow> get_str fs ''to''; Some (LCyclicState us a b) }
      else if ty = ''input_status'' then do {
        us \<leftarrow> get_nat fs ''host_us''; s \<leftarrow> get_word fs ''slot''; ss \<leftarrow> get_word fs ''subslot'';
        iops \<leftarrow> get_word fs ''iops''; Some (LInputStatus us s ss iops) }
      else if ty = ''control_active'' then do {
        b \<leftarrow> get_word fs ''output_byte''; m \<leftarrow> get_word fs ''allow_mask''; Some (LControlActive b m) }
      else if ty = ''output'' then do {
        b \<leftarrow> get_word fs ''control_byte''; safe \<leftarrow> get_bool fs ''safe''; hex \<leftarrow> get_str fs ''readback_hex'';
        Some (LOutput b safe hex) }
      else if ty = ''deadman'' then Some LDeadman
      else do {
        us \<leftarrow> get_nat fs ''host_us''; tx \<leftarrow> get_nat fs ''tx''; rx \<leftarrow> get_nat fs ''rx'';
        mi \<leftarrow> get_nat fs ''missed''; bad \<leftarrow> get_nat fs ''invalid''; gap \<leftarrow> get_nat fs ''max_rx_gap_us'';
        b \<leftarrow> get_word fs ''out_byte''; Some (LStatus us tx rx mi bad gap b) })"

definition read_session_type :: "string \<Rightarrow> (string \<times> json) list \<Rightarrow> event option" where
  "read_session_type ty fs =
     (if ty = ''hello'' then do {
        v \<leftarrow> get_str fs ''version''; st \<leftarrow> get_str fs ''station''; ro \<leftarrow> get_bool fs ''read_only'';
        gap \<leftarrow> get_nat fs ''gap_ms''; cyc \<leftarrow> get_bool fs ''cyclic''; am \<leftarrow> get_word fs ''allow_mask'';
        Some (LHello v st ro gap cyc am) }
      else if ty = ''warning'' then do {
        c \<leftarrow> get_str fs ''code''; msg \<leftarrow> get_str fs ''msg''; Some (LWarning c msg) }
      else if ty = ''ar_lost'' then do {
        us \<leftarrow> get_nat fs ''host_us''; msg \<leftarrow> get_str fs ''msg''; Some (LArLost us msg) }
      else if ty = ''safe_shutdown'' then do {
        r \<leftarrow> get_str fs ''reason''; v \<leftarrow> get_bool fs ''verified_safe''; hex \<leftarrow> get_str fs ''readback_hex'';
        Some (LSafeShutdown r v hex) }
      else do {
        r \<leftarrow> get_str fs ''shutdown_reason''; hex \<leftarrow> get_str fs ''readback_hex''; Some (LAlarm r hex) })"

definition read_line :: "json \<Rightarrow> event option" where
  "read_line j =
     (case j of
        JObj fs \<Rightarrow>
          (case get_str fs ''type'' of
             None \<Rightarrow> read_untyped fs
           | Some ty \<Rightarrow>
               if ty = ''error'' then read_error_type fs
               else if ty = ''refused'' then read_refused_type fs
               else if ty = ''ack'' then read_ack_type fs
               else if ty = ''stopped'' then read_stopped_type fs
               else if ty = ''result'' then read_result_type fs
               else if ty \<in> set [''bye'', ''pong'', ''ok'', ''data'', ''transport_error'', ''read_error'']
               then read_answer_type ty fs
               else if ty \<in> set [''hello'', ''warning'', ''ar_lost'', ''safe_shutdown'', ''alarm'']
               then read_session_type ty fs
               else read_cyclic_type ty fs)
      | _ \<Rightarrow> None)"

definition readable :: "event \<Rightarrow> bool" where
  "readable e = (case e of LDevices _ _ \<Rightarrow> False | LResult _ mac _ \<Rightarrow> length mac = 6 | _ \<Rightarrow> True)"

lemmas line_defs =
  error_read_line_def error_msg_line_def bad_command_line_def warning_line_def capture_line_def result_line_def
  proto_line_def hello_line_def bye_line_def pong_line_def data_line_def ok_line_def read_error_line_def
  transport_error_line_def refused_read_only_line_def refused_setup_line_def refused_needs_cyclic_line_def
  refused_cmd_line_def ack_set_level_line_def ack_pulse_line_def ack_keepalive_line_def current_output_line_def
  cyclic_line_def cyclic_started_line_def cyclic_state_line_def input_status_line_def control_active_line_def
  output_line_def deadman_line_def status_line_def ar_lost_line_def safe_shutdown_line_def alarm_line_def
  stopped_exit_line_def stopped_stats_line_def

lemmas reader_defs =
  read_line_def read_untyped_def read_error_type_def read_refused_type_def read_ack_type_def read_stopped_type_def
  read_result_type_def read_answer_type_def read_session_type_def read_cyclic_type_def

lemmas field_defs = get_str_def get_bool_def get_nat_def get_word_def has_def jtype_def jnat_def jword_def jopt_def jskip_def

lemma read_action_str [simp]: "read_action (dcp_action_str a) = Some a"
  by (cases a) (simp_all add: read_action_def dcp_action_str_def)

lemma read_capture: "read_line (capture_line v iface) = Some (LCapture v iface)"
  by (cases v; cases iface)
     (simp_all add: capture_line_def read_line_def read_untyped_def field_defs readiness_as_str_def)

lemma read_result: "length mac = 6 \<Longrightarrow> read_line (result_line a mac ans) = Some (LResult a mac ans)"
  by (cases ans rule: set_answer.exhaust; cases "case ans of SetRefused c _ \<Rightarrow> c | _ \<Rightarrow> None")
     (auto simp: result_line_def read_line_def read_result_type_def field_defs s2mac_mac2s)



section \<open>Lines of the control layer and of the cyclic callbacks\<close>

definition pulse_error_text :: "pulse_error \<Rightarrow> string" where
  "pulse_error_text e = (case e of PulseActive \<Rightarrow> ''pulse already active'' | PulseCooling \<Rightarrow> ''pulse cooling down'')"

fun refusal_text :: "refusal \<Rightarrow> string" where
  "refusal_text (OutsideAllowMask m) = ''mask has bits outside --allow-mask (0x'' @ hex2 m @ '')''"
| "refusal_text (PulseRefused e) = pulse_error_text e"

fun control_event :: "control_line \<Rightarrow> event" where
  "control_event (AckSetLevel m on l) = LAckSetLevel m on l"
| "control_event (AckPulse m n) = LAckPulse m"
| "control_event AckKeepalive = LAckKeepalive"
| "control_event (RefusedCmd name m r) = LRefusedCmd name m (refusal_text r)"

definition rt_error_text :: "rt_error \<Rightarrow> string" where
  "rt_error_text e =
     (case e of
        RtFrameTooShort n \<Rightarrow> ''RT frame too short: '' @ dec_nat n @ '' bytes''
      | UnknownSlot s ss \<Rightarrow> ''Unknown slot/subslot: '' @ dec_nat (unat s) @ ''/'' @ dec_nat (unat ss))"

definition cyclic_error_text :: "cyclic_error \<Rightarrow> string" where
  "cyclic_error_text e =
     (case e of
        CommunicationLost n \<Rightarrow> ''Communication lost: '' @ dec_nat n @ '' consecutive watchdog timeouts''
      | SafeOutputNotApplied r \<Rightarrow> ''safe output not applied: '' @ rt_error_text r
      | TxError t \<Rightarrow> ''TX error: '' @ t
      | RxError t \<Rightarrow> ''RX error: '' @ t)"

text \<open>
  The four callbacks the tier registers; \<open>on_timeout\<close> stays unregistered. \<open>host_us\<close> is the wall
  clock when the callback runs.
\<close>

fun callback_event :: "nat \<Rightarrow> cyclic_event \<Rightarrow> event option" where
  "callback_event host_us (EvInputData s ss d) = Some (LCyclic s ss host_us (length d) (hex_encode d))"
| "callback_event host_us (EvInputStatus s ss iops) = Some (LInputStatus host_us s ss iops)"
| "callback_event host_us EvTimeout = None"
| "callback_event host_us (EvError e) = Some (LErrorMsg (cyclic_error_text e))"
| "callback_event host_us (EvStateChange a b) =
     Some (LCyclicState host_us (cyclic_state_as_str a) (cyclic_state_as_str b))"

end
