(* ===== verification/ServeCmd.thy ===== *)
theory ServeCmd
  imports Lines Epm Transport
begin

text \<open>
  The requests of the \<open>serve\<close> command of \<open>src/bin/profinet.rs\<close>: parsing one stdin line into a
  request or a control command, classifying an error as the device's answer or a transport
  failure, and issuing one request under the caller's pacing. A \<open>str\<close> is its UTF-8 byte string;
  \<open>None\<close> is a panic. How \<open>{:?}\<close> escapes a string in a message is an argument of the texts.
\<close>

section \<open>Fields\<close>

definition json_field_u64 :: "string \<Rightarrow> string \<Rightarrow> nat option" where
  "json_field_u64 line key = do {
     token \<leftarrow> json_token line key;
     (case strip_prefix ''0x'' token of
        Some hex \<Rightarrow> from_str_radix (2 ^ 64 - 1) 16 hex
      | None \<Rightarrow> (case strip_prefix ''0X'' token of
          Some hex \<Rightarrow> from_str_radix (2 ^ 64 - 1) 16 hex
        | None \<Rightarrow> from_str_radix (2 ^ 64 - 1) 10 token)) }"

text \<open>\<open>chars().filter(|c| !c.is_whitespace())\<close>\<close>

function drop_ws :: "string \<Rightarrow> string" where
  "drop_ws s =
     (let n = ws_len (map byte_of s) in
      if n \<noteq> 0 then drop_ws (drop n s)
      else (case s of [] \<Rightarrow> [] | c # rest \<Rightarrow> c # drop_ws rest))"
  by auto
termination
proof (relation "measure length")
  fix s :: string and n assume a: "n = ws_len (map byte_of s)" "n \<noteq> 0"
  then have "s \<noteq> []" by auto
  then show "(drop n s, s) \<in> measure length" using a(2) by simp
qed auto

declare drop_ws.simps [simp del]

datatype hex_error = HexOdd string | HexInvalid string

text \<open>
  The pairs, from a byte offset on: a slice that does not lie on character boundaries panics, and
  the first pair that is no number ends the walk.
\<close>

function hex_pairs :: "string \<Rightarrow> string \<Rightarrow> nat \<Rightarrow> (hex_error + bytes) option" where
  "hex_pairs s cleaned i =
     (if length cleaned \<le> i then Some (Inr [])
      else do {
        pair \<leftarrow> str_slice cleaned i (i + 2);
        (case from_str_radix 255 16 pair of
           None \<Rightarrow> Some (Inl (HexInvalid s))
         | Some v \<Rightarrow> do {
             r \<leftarrow> hex_pairs s cleaned (i + 2);
             Some (rbind r (\<lambda>bs. Inr (of_nat v # bs))) }) })"
  by auto
termination by (relation "measure (\<lambda>(s, c, i). length c - i)") auto

declare hex_pairs.simps [simp del]

definition parse_hex :: "string \<Rightarrow> (hex_error + bytes) option" where
  "parse_hex s =
     (let cleaned = drop_ws s in
      if length cleaned mod 2 \<noteq> 0 then Some (Inl (HexOdd s)) else hex_pairs s cleaned 0)"

section \<open>Lines\<close>

datatype serve_cmd =
    ServeRead nat u16 u16 u16 u32
  | ServeWrite nat u16 u16 u16 bytes
  | ServePing nat
  | ServeQuit nat

definition serve_cmd_id :: "serve_cmd \<Rightarrow> nat" where
  "serve_cmd_id c =
     (case c of ServeRead i _ _ _ _ \<Rightarrow> i | ServeWrite i _ _ _ _ \<Rightarrow> i | ServePing i \<Rightarrow> i | ServeQuit i \<Rightarrow> i)"

datatype serve_line = RpcLine serve_cmd | ControlLine control_cmd

datatype serve_error =
    NoId
  | NoCmd
  | NeedsU16 string string
  | ReadNeedsLen
  | WriteNeedsHex
  | BadHex hex_error
  | UnknownRequest string
  | BadControl cmd_error

definition field_u16 :: "string \<Rightarrow> string \<Rightarrow> string \<Rightarrow> serve_error + u16" where
  "field_u16 line cmd k =
     (case json_field_u64 line k of
        None \<Rightarrow> Inl (NeedsU16 cmd k)
      | Some v \<Rightarrow> if v < 2 ^ 16 then Inr (of_nat v) else Inl (NeedsU16 cmd k))"

definition parse_read_cmd :: "string \<Rightarrow> nat \<Rightarrow> serve_error + serve_cmd" where
  "parse_read_cmd line i =
     rbind (field_u16 line ''read'' ''index'') (\<lambda>index.
     rbind (field_u16 line ''read'' ''slot'') (\<lambda>slot.
     rbind (field_u16 line ''read'' ''subslot'') (\<lambda>subslot.
       (case json_field_u64 line ''len'' of
          None \<Rightarrow> Inl ReadNeedsLen
        | Some v \<Rightarrow> if v < 2 ^ 32 then Inr (ServeRead i index slot subslot (of_nat v)) else Inl ReadNeedsLen))))"

definition parse_write_cmd :: "string \<Rightarrow> nat \<Rightarrow> (serve_error + serve_cmd) option" where
  "parse_write_cmd line i =
     (case json_field_str line ''hex'' of
        None \<Rightarrow> Some (Inl WriteNeedsHex)
      | Some hex \<Rightarrow>
          (case field_u16 line ''write'' ''index'' of Inl e \<Rightarrow> Some (Inl e) | Inr index \<Rightarrow>
          (case field_u16 line ''write'' ''slot'' of Inl e \<Rightarrow> Some (Inl e) | Inr slot \<Rightarrow>
          (case field_u16 line ''write'' ''subslot'' of Inl e \<Rightarrow> Some (Inl e) | Inr subslot \<Rightarrow> do {
             r \<leftarrow> parse_hex hex;
             Some (case r of Inl e \<Rightarrow> Inl (BadHex e) | Inr d \<Rightarrow> Inr (ServeWrite i index slot subslot d)) }))))"

definition parse_serve_cmd :: "string \<Rightarrow> (serve_error + serve_cmd) option" where
  "parse_serve_cmd line =
     (case json_field_u64 line ''id'' of
        None \<Rightarrow> Some (Inl NoId)
      | Some i \<Rightarrow>
          (case json_field_str line ''cmd'' of
             None \<Rightarrow> Some (Inl NoCmd)
           | Some cmd \<Rightarrow>
               if cmd = ''read'' then Some (parse_read_cmd line i)
               else if cmd = ''write'' then parse_write_cmd line i
               else if cmd = ''ping'' then Some (Inr (ServePing i))
               else if cmd = ''quit'' then Some (Inr (ServeQuit i))
               else Some (Inl (UnknownRequest cmd))))"

definition parse_serve_line :: "string \<Rightarrow> (serve_error + serve_line) option" where
  "parse_serve_line line =
     (let cmd = json_field_str line ''cmd'' in
      if cmd = Some ''quit'' \<and> json_field_u64 line ''id'' = None then Some (Inr (ControlLine Quit))
      else if cmd = Some ''set_level'' \<or> cmd = Some ''pulse'' \<or> cmd = Some ''keepalive''
      then Some (case parse_control_cmd line of Inl e \<Rightarrow> Inl (BadControl e) | Inr c \<Rightarrow> Inr (ControlLine c))
      else map_option (map_sum id RpcLine) (parse_serve_cmd line))"

section \<open>Messages\<close>

definition quoted :: "string \<Rightarrow> string" where "quoted s = QUOTE # s @ [QUOTE]"

text \<open>\<open>dbg\<close> is the \<open>Debug\<close> form of a string.\<close>

fun cmd_error_text :: "(string \<Rightarrow> string) \<Rightarrow> cmd_error \<Rightarrow> string" where
  "cmd_error_text dbg MissingCmd = ''missing '' @ quoted ''cmd'' @ '' field''"
| "cmd_error_text dbg SetLevelNeedsMask = ''set_level needs '' @ quoted ''mask'' @ '':<byte>''"
| "cmd_error_text dbg SetLevelNeedsOn = ''set_level needs '' @ quoted ''on'' @ '':true|false''"
| "cmd_error_text dbg PulseNeedsMask = ''pulse needs '' @ quoted ''mask'' @ '':<byte>''"
| "cmd_error_text dbg (UnknownCmd c) = ''unknown cmd '' @ dbg c"

fun serve_error_text :: "(string \<Rightarrow> string) \<Rightarrow> serve_error \<Rightarrow> string" where
  "serve_error_text dbg NoId = ''missing '' @ quoted ''id'' @ '' field''"
| "serve_error_text dbg NoCmd = ''missing '' @ quoted ''cmd'' @ '' field''"
| "serve_error_text dbg (NeedsU16 cmd k) = cmd @ '' needs '' @ quoted k @ '' (0..=65535)''"
| "serve_error_text dbg ReadNeedsLen = ''read needs '' @ quoted ''len''"
| "serve_error_text dbg WriteNeedsHex = ''write needs '' @ quoted ''hex''"
| "serve_error_text dbg (BadHex (HexOdd s)) = ''odd-length hex string '' @ dbg s"
| "serve_error_text dbg (BadHex (HexInvalid s)) = ''invalid hex '' @ dbg s"
| "serve_error_text dbg (UnknownRequest c) = ''unknown cmd '' @ dbg c"
| "serve_error_text dbg (BadControl e) = cmd_error_text dbg e"

definition pnio_status_of :: "string \<Rightarrow> string option" where
  "pnio_status_of msg = do {
     rest \<leftarrow> after_first ''PNIO error status 0x'' msg;
     (let hex = takeWhile is_hexdigit rest in if length hex = 8 then Some hex else None) }"

definition serve_error_event :: "nat \<Rightarrow> nat \<Rightarrow> string \<Rightarrow> event" where
  "serve_error_event i host_us msg =
     (case pnio_status_of msg of
        Some pnio \<Rightarrow> LReadError i host_us pnio msg
      | None \<Rightarrow> LTransportError i host_us msg)"

section \<open>Pacing\<close>

definition SERVE_BUSY_RETRIES :: nat where "SERVE_BUSY_RETRIES = 5"

text \<open>
  \<open>serve_pace\<close>: the two clock readings are the one that measures the wait and the one taken after
  the sleep. The result is the time slept and the new mark.
\<close>

definition serve_pace :: "nat \<Rightarrow> nat \<Rightarrow> nat \<times> nat \<Rightarrow> nat \<times> nat" where
  "serve_pace last_mark gap clk =
     (let waited = fst clk - last_mark in (if waited < gap then gap - waited else 0, snd clk))"

fun serve_rpc_loop ::
    "nat \<Rightarrow> nat \<Rightarrow> string \<Rightarrow> (nat \<Rightarrow> nat \<times> nat) \<Rightarrow> nat \<Rightarrow> 'a io \<Rightarrow> nat \<Rightarrow> rpc_conn
      \<Rightarrow> ((string + 'a) \<times> nat \<times> rpc_conn) option" where
  "serve_rpc_loop 0 attempt busy clk gap op last_mark c = Some (Inl busy, last_mark, c)"
| "serve_rpc_loop (Suc n) attempt busy clk gap op last_mark c =
     (let mark = snd (serve_pace last_mark gap (clk attempt)) in do {
        (r, c') \<leftarrow> op c;
        (case r of
           Inr v \<Rightarrow> Some (Inr v, mark, c')
         | Inl e \<Rightarrow>
             if contains e PNIO_BUSY_STATUS then serve_rpc_loop n (attempt + 1) e clk gap op mark c'
             else Some (Inl e, mark, c')) })"

definition serve_rpc ::
    "(nat \<Rightarrow> nat \<times> nat) \<Rightarrow> nat \<Rightarrow> 'a io \<Rightarrow> nat \<Rightarrow> rpc_conn \<Rightarrow> ((string + 'a) \<times> nat \<times> rpc_conn) option" where
  "serve_rpc clk gap op last_mark c = serve_rpc_loop SERVE_BUSY_RETRIES 0 [] clk gap op last_mark c"

section \<open>Hexadecimal data\<close>

definition ascii :: "string \<Rightarrow> bool" where
  "ascii s \<longleftrightarrow> (\<forall>c \<in> set s. byte_of c < 128)"

lemma set_drop_ws: "set (drop_ws s) \<subseteq> set s"
proof (induction s rule: drop_ws.induct)
  case (1 s)
  show ?case
  proof (cases "ws_len (map byte_of s) = 0")
    case True
    show ?thesis
    proof (cases s)
      case (Cons c rest)
      have "set (drop_ws rest) \<subseteq> set rest" using 1(2) [OF refl _ Cons] True by simp
      then show ?thesis using True Cons by (subst drop_ws.simps) (auto simp del: ws_len.simps)
    qed (subst drop_ws.simps, simp)
  next
    case False
    then show ?thesis using 1(1) set_drop_subset [of "ws_len (map byte_of s)" s]
      by (subst drop_ws.simps) (auto simp: Let_def)
  qed
qed

lemma drop_ws_hex:
  assumes "\<forall>c \<in> set s. is_hexdigit c"
  shows "drop_ws s = s"
  using assms
proof (induction s)
  case Nil
  show ?case by (subst drop_ws.simps) simp
next
  case (Cons c s)
  have "48 \<le> byte_of c \<and> byte_of c < 128"
    using Cons.prems by (auto simp: is_hexdigit_def is_digit_def byte_of_def)
  then have "ws_len (map byte_of (c # s)) = 0" by (auto split: list.splits)
  then show ?case using Cons by (subst drop_ws.simps) (simp add: Let_def)
qed

lemma str_slice_ascii: "ascii s \<Longrightarrow> a \<le> b \<Longrightarrow> b \<le> length s \<Longrightarrow> str_slice s a b = Some (take (b - a) (drop a s))"
  using ascii_boundary [of s] by (auto simp: str_slice_def ascii_def byte_of_def)

lemma hex_pairs_ascii:
  "ascii cleaned \<Longrightarrow> even (length cleaned) \<Longrightarrow> even i \<Longrightarrow> hex_pairs s cleaned i \<noteq> None"
proof (induction s cleaned i rule: hex_pairs.induct)
  case (1 s cleaned i)
  show ?case
  proof (cases "length cleaned \<le> i")
    case False
    then have "i + 2 \<le> length cleaned" using 1(3,4) by presburger
    then have sl: "str_slice cleaned i (i + 2) = Some (take 2 (drop i cleaned))" using str_slice_ascii [OF 1(2)] by simp
    have ev: "even (i + 2)" using 1(4) by simp
    show ?thesis using False sl 1(1) [OF False sl _ 1(2,3) ev]
      by (subst hex_pairs.simps) (auto split: option.split)
  qed (subst hex_pairs.simps, simp)
qed

lemma parse_hex_ascii:
  assumes "ascii s"
  shows "parse_hex s \<noteq> None"
proof -
  have "ascii (drop_ws s)" using assms set_drop_ws [of s] by (auto simp: ascii_def)
  then show ?thesis using hex_pairs_ascii [of "drop_ws s" 0 s] by (auto simp: parse_hex_def Let_def even_iff_mod_2_eq_zero)
qed

lemma from_str_radix_hex2: "from_str_radix 255 16 (hex2 b) = Some (unat b)"
proof -
  have h: "hd (hex2 b) \<noteq> CHR ''+''"
    using hex2_facts(2) [of b] hexdigit_plain by (auto simp: hex2_def list_all_iff)
  have "parse_u8_radix 16 (hex2 b) = Some b" by (rule parse_hex2)
  then have "foldl (\<lambda>a c. a * 16 + digit_val c) 0 (hex2 b) = unat b"
    using unat_u8_lt [of b] by (auto simp: hex2_def digit_val_hex_char)
  then show ?thesis using h hex2_facts(2) [of b] unat_u8_lt [of b]
    by (simp add: from_str_radix_def hex2_def)
qed

lemma hex_encode_set: "c \<in> set (hex_encode d) \<Longrightarrow> is_hexdigit c"
  using hex2_facts(2) by (fastforce simp: hex_encode_def list_all_iff)

lemma hex_pairs_encode:
  "ascii pre \<Longrightarrow> hex_pairs s (pre @ hex_encode d) (length pre) = Some (Inr d)"
proof (induction d arbitrary: pre)
  case Nil
  show ?case by (subst hex_pairs.simps) (simp add: hex_encode_def)
next
  case (Cons b d)
  have e: "pre @ hex_encode (b # d) = (pre @ hex2 b) @ hex_encode d" by (simp add: hex_encode_def)
  have h: "\<forall>c \<in> set (hex2 b). byte_of c < 128"
    using hex2_facts(2) [of b] hexdigit_plain by (auto simp: list_all_iff byte_of_def)
  then have "ascii (pre @ hex2 b)" using Cons.prems by (auto simp: ascii_def)
  then have ih: "hex_pairs s ((pre @ hex2 b) @ hex_encode d) (length pre + 2) = Some (Inr d)"
    using Cons.IH [of "pre @ hex2 b"] by (simp add: hex2_facts)
  have "ascii (pre @ hex_encode (b # d))"
    using Cons.prems hex_encode_set hexdigit_plain by (fastforce simp: ascii_def byte_of_def)
  then have "str_slice (pre @ hex_encode (b # d)) (length pre) (length pre + 2) = Some (hex2 b)"
    by (simp add: str_slice_ascii hex_encode_def hex2_facts)
  then show ?case using ih unfolding e [symmetric]
    by (subst hex_pairs.simps) (simp add: from_str_radix_hex2 hex_encode_def hex2_facts)
qed

lemma length_hex_encode: "length (hex_encode d) = 2 * length d"
  by (induction d) (simp_all add: hex_encode_def hex2_facts)

lemma parse_hex_encode: "parse_hex (hex_encode d) = Some (Inr d)"
  using hex_pairs_encode [of "[]" "hex_encode d" d]
  by (simp add: parse_hex_def drop_ws_hex hex_encode_set length_hex_encode ascii_def)

section \<open>Lines of plain text\<close>

lemma set_strip_prefix: "strip_prefix p s = Some r \<Longrightarrow> set r \<subseteq> set s"
  by (induction p s rule: strip_prefix.induct) (auto split: if_splits)

lemma set_after_first: "after_first p s = Some r \<Longrightarrow> set r \<subseteq> set s"
proof (induction p s rule: after_first.induct)
  case (2 p c s)
  show ?case
  proof (cases "strip_prefix p (c # s)")
    case None
    then show ?thesis using 2 by auto
  next
    case (Some r')
    then show ?thesis using 2(2) set_strip_prefix [OF Some] by simp
  qed
qed (simp split: if_splits)

lemma set_trim_start: "set (trim_start s) \<subseteq> set s"
proof (induction s rule: trim_start.induct)
  case (1 s)
  then show ?case using set_drop_subset [of "ws_len (map byte_of s)" s]
    by (subst trim_start.simps) (auto simp: Let_def)
qed

lemma set_json_field_str: "json_field_str line key = Some v \<Longrightarrow> set v \<subseteq> set line"
  using set_trim_start
  by (fastforce simp: json_field_str_def json_field_raw_def split: bind_splits if_splits
      dest!: set_strip_prefix set_after_first set_takeWhileD)

lemma parse_serve_line_ascii:
  assumes "ascii line"
  shows "parse_serve_line line \<noteq> None"
proof -
  have "parse_hex hex \<noteq> None" if "json_field_str line ''hex'' = Some hex" for hex
    using set_json_field_str [OF that] assms by (intro parse_hex_ascii) (auto simp: ascii_def)
  then have "parse_write_cmd line i \<noteq> None" for i
    by (auto simp: parse_write_cmd_def split: option.split sum.split)
  then show ?thesis by (auto simp: parse_serve_line_def parse_serve_cmd_def Let_def split: option.split)
qed

text \<open>A write request with the given text as its data.\<close>

definition write_line :: "string \<Rightarrow> string" where
  "write_line hex = ''{'' @ quoted ''id'' @ '':1,'' @ quoted ''cmd'' @ '':'' @ quoted ''write'' @ '',''
     @ quoted ''index'' @ '':0,'' @ quoted ''slot'' @ '':0,'' @ quoted ''subslot'' @ '':0,'' @ quoted ''hex'' @ '':''
     @ quoted hex @ ''}''"



section \<open>The device's answer and a dead connection\<close>

lemma strip_prefix_append [simp]: "strip_prefix p (p @ r) = Some r"
  by (induction p) simp_all

lemma after_first_append: "after_first p (p @ r) = Some r"
proof (cases "p @ r")
  case (Cons c s)
  then show ?thesis using strip_prefix_append [of p r] by simp
qed simp

lemma strip_prefix_longer: "strip_prefix (p @ q) s \<noteq> None \<Longrightarrow> strip_prefix p s \<noteq> None"
  by (induction p s rule: strip_prefix.induct) (auto split: if_splits)

lemma after_first_longer: "after_first (p @ q) s \<noteq> None \<Longrightarrow> after_first p s \<noteq> None"
proof (induction "p @ q" s rule: after_first.induct)
  case (2 c s)
  then show ?case using strip_prefix_longer [of p q "c # s"] by (auto split: option.splits)
qed (auto split: if_splits)

lemma transport_failure_event:
  assumes "is_transport_failure e"
  shows "serve_error_event i us e = LTransportError i us e"
proof -
  have "after_first (''PNIO error status'' @ '' 0x'') e = None"
    using assms after_first_longer [of "''PNIO error status''" "'' 0x''" e]
    unfolding is_transport_failure_def contains_def by blast
  then show ?thesis by (simp add: serve_error_event_def pnio_status_of_def)
qed

lemma hex_upper_digits: "\<forall>c \<in> set (hex_upper k n). is_hexdigit c"
proof
  fix c assume "c \<in> set (hex_upper k n)"
  then obtain m where m: "c = hex_digit_upper m" "m < 16" by (auto simp: hex_upper_def)
  show "is_hexdigit c" unfolding m(1) using m(2) by (auto simp: is_hexdigit_def is_digit_def hex_digit_upper_def)
qed

lemma pnio_text_read:
  assumes "pnio_status_str st = Some t"
  shows "pnio_status_of (''PNIO error status '' @ t) = Some (hex_upper 8 (unat st))"
    and "\<not> is_transport_failure (''PNIO error status '' @ t)"
proof -
  obtain rest where t: "t = ''0x'' @ hex_upper 8 (unat st) @ '' ('' @ rest"
    using assms by (auto simp: pnio_status_str_def split: bind_splits)
  have "takeWhile is_hexdigit (hex_upper 8 (unat st) @ '' ('' @ rest) = hex_upper 8 (unat st)"
    using hex_upper_digits [of 8 "unat st"] by (simp add: takeWhile_append is_hexdigit_def is_digit_def)
  moreover have "after_first ''PNIO error status 0x'' (''PNIO error status '' @ t) = Some (hex_upper 8 (unat st) @ '' ('' @ rest)"
    using after_first_append [of "''PNIO error status 0x''" "hex_upper 8 (unat st) @ '' ('' @ rest"] t by simp
  ultimately show "pnio_status_of (''PNIO error status '' @ t) = Some (hex_upper 8 (unat st))"
    by (simp add: pnio_status_of_def hex_upper_def)
  show "\<not> is_transport_failure (''PNIO error status '' @ t)"
    using after_first_append [of "''PNIO error status''" "CHR '' '' # t"] by (simp add: is_transport_failure_def contains_def)
qed

text \<open>
  A device that says no is told from a dead connection. Whatever status word a read or write
  response carries, the error it becomes is read as the device's answer: the line for it is a
  \<open>read_error\<close> with exactly the eight hexadecimal digits of that word, and the session goes on. An
  error that is taken for a dead connection is never reported as a \<open>read_error\<close>. Either way the
  line carries the request's id and the full text.
\<close>

theorem device_no_exact:
  assumes "parse_nrd payload le = Some (Inr n)" and "pn_args_status n \<noteq> 0"
  shows "\<exists>e. parse_read_response payload le = Some (Inl e) \<and> parse_status_response payload le = Some (Inl e)
     \<and> \<not> is_transport_failure e
     \<and> serve_error_event i us e = LReadError i us (hex_upper 8 (unat (pn_args_status n))) e
     \<and> (\<forall>e'. is_transport_failure e' = (\<not> contains e' ''PNIO error status'')
          \<and> (is_transport_failure e' \<longrightarrow> serve_error_event i us e' = LTransportError i us e'))"
proof -
  obtain t where t: "pnio_status_str (pn_args_status n) = Some t" using pnio_status_str_total by blast
  show ?thesis
    using assms t pnio_text_read [OF t] transport_failure_event
    by (intro exI [of _ "''PNIO error status '' @ t"] conjI allI impI)
       (simp_all add: parse_read_response_def parse_status_response_def serve_error_event_def is_transport_failure_def)
qed

theorem device_no_exact_witness:
  "\<exists>e. parse_read_response (nrd_body True 0xDE80B000 0 []) True = Some (Inl e)
     \<and> serve_error_event 7 0 e = LReadError 7 0 (hex_upper 8 0xDE80B000) e"
proof -
  have n: "parse_nrd (nrd_body True 0xDE80B000 0 []) True = Some (Inr (nrd_of True (nrd_body True 0xDE80B000 0 [])))"
    by (simp add: parse_nrd_eq)
  have s: "pn_args_status (nrd_of True (nrd_body True 0xDE80B000 0 [])) = 0xDE80B000" by (simp add: nrd_of_body)
  show ?thesis using device_no_exact [OF n, of 7 0] by (auto simp: s)
qed

end
