(* ===== verification/Image.thy ===== *)
theory Image
  imports Cyclic
begin

text \<open>
  The output image of a controller under its own threads: receiving touches the consumer status
  bytes only and transmitting copies the image out, so the data bytes of a slot are those of the
  last accepted write, and every frame carries them.
\<close>

text \<open>The bytes of a slot's data in the image being written.\<close>

definition image_at :: "shared \<Rightarrow> io_data_object \<Rightarrow> bytes" where
  "image_at sh obj = take (obj_data_length obj) (drop (obj_frame_offset obj) (cdb_write_buffer (sh_output_builder sh)))"

lemma fill_iocs_other:
  "fill_iocs v objs (buf, d) = Some r \<Longrightarrow> \<forall>ob \<in> set objs. obj_iocs_offset ob \<noteq> Some k \<Longrightarrow>
   length (fst r) = length buf \<and> fst r ! k = buf ! k"
proof (induction objs arbitrary: buf d)
  case (Cons ob objs)
  show ?case
  proof (cases "obj_iocs_offset ob")
    case (Some off)
    then have "off \<noteq> k" using Cons.prems(2) by auto
    then show ?thesis using Cons Some
      by (fastforce simp: set_idx_def split: bind_splits if_splits)
  qed (use Cons in simp)
qed auto

lemma iocs_apart:
  assumes "config_ok c" and "x \<in> set (cfg_objects c)" and "y \<in> set (cfg_objects c)"
    and "obj_iocs_offset y = Some k"
  shows "k < obj_frame_offset x \<or> obj_frame_offset x + obj_data_length x \<le> k"
proof -
  have y: "obj_shape y" "obj_shape x" using chained_mem assms(1-3) unfolding config_ok_def by blast+
  then have k: "k = obj_frame_offset y" "obj_data_length y = 0" using assms(4) by (auto simp: obj_shape_def split: if_splits)
  show ?thesis
  proof (cases "x = y")
    case False
    then show ?thesis using chained_apart [OF assms(1-3)] k by (auto simp: obj_size_def split: if_splits)
  qed (use k in simp)
qed

lemma set_all_iocs_image:
  assumes "builder_ok b" and "obj \<in> set (cfg_objects (cdb_config b))" and "set_all_iocs v b = Some b'"
  shows "take (obj_data_length obj) (drop (obj_frame_offset obj) (cdb_write_buffer b'))
       = take (obj_data_length obj) (drop (obj_frame_offset obj) (cdb_write_buffer b))"
proof -
  obtain r where r: "fill_iocs v (cfg_objects (cdb_config b)) (cdb_write_buffer b, cdb_dirty b) = Some r"
    "cdb_write_buffer b' = fst r" using assms(3) by (auto simp: set_all_iocs_def split: bind_splits)
  have c: "config_ok (cdb_config b)" using assms(1) by (simp add: builder_ok_def)
  have same: "cdb_write_buffer b' ! k = cdb_write_buffer b ! k"
    if "obj_frame_offset obj \<le> k" "k < obj_frame_offset obj + obj_data_length obj" for k
    unfolding r(2) using fill_iocs_other [OF r(1), of k] iocs_apart [OF c assms(2)] that by fastforce
  have "length (cdb_write_buffer b') = length (cdb_write_buffer b)"
    using set_all_iocs_runs [OF assms(1), of v] assms(1,3) by (simp add: builder_ok_def)
  then show ?thesis using same by (intro nth_equalityI) auto
qed

text \<open>A state change that leaves the data of every slot of the output relationship alone.\<close>

definition image_kept :: "shared \<Rightarrow> shared \<Rightarrow> bool" where
  "image_kept sh sh' \<longleftrightarrow> (\<forall>obj \<in> set (cfg_objects (sh_output_iocr sh)). image_at sh' obj = image_at sh obj)"

lemma image_kept_refl [simp]: "image_kept sh sh"
  by (simp add: image_kept_def)

lemma image_kept_builder: "sh_output_builder sh' = sh_output_builder sh \<Longrightarrow> image_kept sh sh'"
  by (simp add: image_kept_def image_at_def)

lemma image_kept_trans:
  "image_kept a b \<Longrightarrow> image_kept b c \<Longrightarrow> sh_output_iocr b = sh_output_iocr a \<Longrightarrow> image_kept a c"
  by (simp add: image_kept_def)

lemma iocs_image_kept:
  assumes "shared_ok sh" and "set_all_iocs v (sh_output_builder sh) = Some b" and "sh_output_builder sh' = b"
  shows "image_kept sh sh'"
  using assms set_all_iocs_image [of "sh_output_builder sh" _ v b]
  by (auto simp: image_kept_def image_at_def shared_ok_def)

lemma accept_frame_image:
  assumes "shared_ok sh" and "accept_frame now frame sh = Some sh'"
  shows "image_kept sh sh'"
proof (cases "frame_is_alive frame")
  case False
  then have "sh_output_builder sh' = sh_output_builder sh" using assms(2) by (auto simp: accept_frame_def Let_def)
  then show ?thesis by (rule image_kept_builder)
next
  case True
  then obtain b where "set_all_iocs IOXS_GOOD (sh_output_builder sh) = Some b" "sh_output_builder sh' = b"
    using assms(2) by (cases "sh_state sh = Fault") (auto simp: accept_frame_def Let_def split_def split: bind_splits)
  then show ?thesis using iocs_image_kept [OF assms(1)] by blast
qed

lemma process_input_frame_image:
  assumes "shared_ok sh" and "process_input_frame now d sh = Some sh'"
  shows "image_kept sh sh'"
  by (rule process_input_frame_cases [of now d sh]) (use assms accept_frame_image in auto)

lemma handle_watchdog_image:
  assumes "shared_ok sh" and "handle_watchdog_timeout sh = Some sh'"
  shows "image_kept sh sh'"
proof (cases "0 < sh_max_consecutive_timeouts sh")
  case True
  then obtain b where "set_all_iocs IOXS_BAD (sh_output_builder sh) = Some b" "sh_output_builder sh' = b"
    using assms(2) by (auto simp: handle_watchdog_timeout_def Let_def split: bind_splits if_splits)
  then show ?thesis using iocs_image_kept [OF assms(1)] by blast
next
  case False
  then have "sh_output_builder sh' = sh_output_builder sh"
    using assms(2) by (auto simp: handle_watchdog_timeout_def Let_def)
  then show ?thesis by (rule image_kept_builder)
qed

lemma watchdog_check_image:
  assumes "shared_ok sh" and "check_receive_watchdog now rearm w sh = Some sh'"
  shows "image_kept sh sh'"
  using assms handle_watchdog_image [OF assms(1)]
  by (auto simp: check_receive_watchdog_def image_kept_def image_at_def split: if_splits bind_splits)

lemma rx_pass_image:
  assumes "shared_ok sh" and "rx_pass t i sh = Some (go, sh')"
  shows "image_kept sh sh'"
proof (cases i)
  case (RxFrame d)
  then obtain sh1 where 1: "process_input_frame (at_frame t) d sh = Some sh1"
    "check_receive_watchdog (at_check t) (at_rearm t) (watchdog_time_us (sh_input_iocr sh)) sh1 = Some sh'"
    using assms(2) by (auto simp: rx_pass_def Let_def split: bind_splits)
  moreover have "shared_ok sh1" "same_link sh sh1"
    using process_input_frame_runs [OF assms(1), of "at_frame t" d] 1(1) by simp_all
  ultimately show ?thesis
    using image_kept_trans process_input_frame_image [OF assms(1)] watchdog_check_image by (metis same_link_def)
next
  case RxIdle
  then show ?thesis using assms watchdog_check_image [OF assms(1)] by (auto simp: rx_pass_def Let_def split: bind_splits)
next
  case (RxFailed e)
  then have "sh_output_builder sh' = sh_output_builder sh"
    using assms(2) by (auto simp: rx_pass_def Let_def split: if_splits)
  then show ?thesis by (rule image_kept_builder)
qed

lemma tx_pass_image:
  assumes "shared_ok sh" and "tx_pass now err loc sh = Some (f, loc', sh')"
  shows "image_kept sh sh'"
    and "f = Some frame \<Longrightarrow>
      frame = output_frame sh (next_counter sh) RUN_STATUS (cdb_write_buffer (sh_output_builder sh))"
proof -
  obtain b where b: "next_output_frame None sh = Some
      (output_frame sh (next_counter sh) RUN_STATUS (cdb_write_buffer (sh_output_builder sh)),
       sh\<lparr>sh_cycle_counter := next_counter sh, sh_output_builder := b\<rparr>)"
    "cdb_write_buffer b = cdb_write_buffer (sh_output_builder sh)"
    using next_output_frame_eq [OF assms(1), of None] by auto
  show "image_kept sh sh'" using assms(2) b(2)
    by (auto simp: tx_pass_def b(1) image_kept_def image_at_def Let_def split: if_splits option.splits)
  show "f = Some frame \<Longrightarrow>
      frame = output_frame sh (next_counter sh) RUN_STATUS (cdb_write_buffer (sh_output_builder sh))"
    using assms(2) by (auto simp: tx_pass_def b(1) Let_def split: if_splits option.splits)
qed

text \<open>An accepted write puts exactly its bytes at the front of the slot.\<close>

lemma set_output_image:
  assumes "shared_ok sh" and "find_obj (sh_output_builder sh) s ss = Some obj" and "length d \<le> obj_data_length obj"
    and "set_output_data s ss d sh = Some (r, sh')"
  shows "r = Inr () \<Longrightarrow> take (length d) (image_at sh' obj) = d" and "r = Inl e \<Longrightarrow> sh' = sh"
proof -
  have ok: "builder_ok (sh_output_builder sh)" "config_ok (cdb_config (sh_output_builder sh))"
    "length (cdb_write_buffer (sh_output_builder sh)) = cfg_data_length (cdb_config (sh_output_builder sh))"
    using assms(1) by (auto simp: shared_ok_def builder_ok_def)
  obtain b1 b2 where w: "set_data s ss d (sh_output_builder sh) = Some (Inr (), b1)"
    "set_iops s ss IOXS_GOOD b1 = Some b2"
    "cdb_write_buffer b2 = good_output obj d (cdb_write_buffer (sh_output_builder sh))"
    using write_good [OF ok(1) assms(2), of d] by blast
  have "obj \<in> set (cfg_objects (cdb_config (sh_output_builder sh)))" using find_obj_mem [OF assms(2)] by blast
  note front = good_output_front [OF ok(2) this ok(3) assms(3)]
  then show "r = Inr () \<Longrightarrow> take (length d) (image_at sh' obj) = d" and "r = Inl e \<Longrightarrow> sh' = sh"
    using assms(3,4) w by (auto simp: set_output_data_def image_at_def min_absorb1 split: if_splits)
qed

end
