(* ===== verification/Room.thy ===== *)
theory Room
  imports Transport
begin

text \<open>
  Calls on a connection while its sequence number has room: each returns, uses at most one number
  and is a step of the connection. A caller that knows how many calls it makes discharges the one
  way a call can fail to return, the overflow of the counter.
\<close>

section \<open>The connection has room\<close>

text \<open>At least \<open>n\<close> more calls before the sequence number runs out.\<close>

definition conn_room :: "nat \<Rightarrow> rpc_conn \<Rightarrow> bool" where
  "conn_room n c \<longleftrightarrow> conn_ok c \<and> unat (co_sequence_number c) + n < 2 ^ 32"

lemma conn_room_le: "conn_room n c \<Longrightarrow> m \<le> n \<Longrightarrow> conn_room m c"
  by (simp add: conn_room_def)

lemma conn_room_call:
  assumes "conn_room (Suc n) c" and "call_ok c c'"
  shows "conn_room n c'"
proof -
  have "unat (co_sequence_number c + 1) = unat (co_sequence_number c) + 1"
    using assms(1) by (simp add: unat_word_ariths conn_room_def)
  then show ?thesis using assms by (auto simp: call_ok_def conn_room_def conn_ok_def)
qed

lemma conn_room_number: "conn_room (Suc n) c \<Longrightarrow> co_sequence_number c \<noteq> 0xFFFFFFFF"
  by (auto simp: conn_room_def)

lemma read_room: "conn_room (Suc n) c \<Longrightarrow> \<exists>r c'. read_raw i s t l c = Some (r, c') \<and> conn_room n c'"
  using read_ops_call(1) [of c i s t l] conn_room_call conn_room_number by (metis conn_room_def)

lemma write_room: "conn_room (Suc n) c \<Longrightarrow> \<exists>r c'. rc_write i s t d c = Some (r, c') \<and> conn_room n c'"
  using read_ops_call(3) [of c i s t d] conn_room_call conn_room_number by (metis conn_room_def)

lemma release_room: "conn_room (Suc n) c \<Longrightarrow> \<exists>c'. release c = Some c' \<and> conn_room n c' \<and> \<not> co_connected c'"
proof -
  assume a: "conn_room (Suc n) c"
  then obtain c' where c: "release c = Some c'" "call_ok c c'" using release_call conn_room_number by blast
  then have "\<not> co_connected c'" by (auto simp: release_def Let_def split: if_splits bind_splits)
  then show ?thesis using c conn_room_call [OF a] by blast
qed

definition op_ok :: "'a io \<Rightarrow> bool" where
  "op_ok op \<longleftrightarrow> (\<forall>n c. conn_room (Suc n) c \<longrightarrow> (\<exists>r c'. op c = Some (r, c') \<and> conn_room n c' \<and> conn_step c c'))"

lemma read_op_ok: "op_ok (read_raw i s t l)"
  unfolding op_ok_def using read_room conn_step.Read by meson

lemma write_op_ok: "op_ok (rc_write i s t d)"
  unfolding op_ok_def using write_room conn_step.Write by meson

lemma op_okD:
  "op_ok op \<Longrightarrow> conn_room (Suc n) c \<Longrightarrow> \<exists>r c'. op c = Some (r, c') \<and> conn_room n c' \<and> conn_step c c'"
  by (simp add: op_ok_def)

lemma implicit_op_ok: "op_ok (read_raw_implicit i s t l)"
  unfolding op_ok_def
proof (intro allI impI)
  fix n c assume a: "conn_room (Suc n) c"
  then obtain r c' where "read_raw_implicit i s t l c = Some (r, c')" "call_ok c c'"
    using read_ops_call(2) [of c i s t l] conn_room_number by (auto simp: conn_room_def)
  then show "\<exists>r c'. read_raw_implicit i s t l c = Some (r, c') \<and> conn_room n c' \<and> conn_step c c'"
    using conn_room_call [OF a] conn_step.ReadImplicit by blast
qed

lemma access_op_ok: "op_ok (connect_device_access m nm)"
  unfolding op_ok_def
proof (intro allI impI)
  fix n c assume a: "conn_room (Suc n) c"
  then obtain r c' where "connect_device_access m nm c = Some (r, c')" "call_ok c c'"
    using connect_ops_call(2) [of c m nm] conn_room_number by (auto simp: conn_room_def)
  then show "\<exists>r c'. connect_device_access m nm c = Some (r, c') \<and> conn_room n c' \<and> conn_step c c'"
    using conn_room_call [OF a] conn_step.DeviceAccess by blast
qed

lemma control_op_ok: "op_ok (send_control bt cmd sub)"
  unfolding op_ok_def
proof (intro allI impI)
  fix n c assume a: "conn_room (Suc n) c"
  then obtain r c' where "send_control bt cmd sub c = Some (r, c')" "call_ok c c'"
    using connect_ops_call(3) [of c bt cmd sub] conn_room_number by (auto simp: conn_room_def)
  then show "\<exists>r c'. send_control bt cmd sub c = Some (r, c') \<and> conn_room n c' \<and> conn_step c c'"
    using conn_room_call [OF a] conn_step.Control by blast
qed

lemma ready_op_ok: "op_ok (application_ready t)"
  unfolding op_ok_def
proof (intro allI impI)
  fix n c assume a: "conn_room (Suc n) c"
  then obtain r c' where "application_ready t c = Some (r, c')" "call_ok c c'"
    using application_ready_returns [of c t] by (auto simp: conn_room_def)
  then show "\<exists>r c'. application_ready t c = Some (r, c') \<and> conn_room n c' \<and> conn_step c c'"
    using conn_room_call [OF a] conn_step.AppReady by blast
qed

text \<open>A pure step behind an operation, and a rewording of its error, use no further number.\<close>

lemma op_ok_pure:
  assumes "op_ok m" and "\<And>x. f x \<noteq> None"
  shows "op_ok (cbind m (\<lambda>x. pure_io (f x)))"
  unfolding op_ok_def
proof (intro allI impI)
  fix n c assume a: "conn_room (Suc n) c"
  obtain r c' where m: "m c = Some (r, c')" "conn_room n c'" "conn_step c c'" using op_okD [OF assms(1) a] by blast
  then show "\<exists>r c'. cbind m (\<lambda>x. pure_io (f x)) c = Some (r, c') \<and> conn_room n c' \<and> conn_step c c'"
    using assms(2) by (cases r) (auto simp: cbind_def pure_io_def)
qed

lemma op_ok_map_err:
  assumes "op_ok m"
  shows "op_ok (map_err p m)"
  unfolding op_ok_def
proof (intro allI impI)
  fix n c assume a: "conn_room (Suc n) c"
  obtain r c' where m: "m c = Some (r, c')" "conn_room n c'" "conn_step c c'" using op_okD [OF assms a] by blast
  then show "\<exists>r c'. map_err p m c = Some (r, c') \<and> conn_room n c' \<and> conn_step c c'"
    by (cases r) (simp_all add: map_err_def)
qed

end
