(* ===== verification/Serve.thy ===== *)
theory Serve
  imports ServeCmd Image Room
begin

text \<open>
  The \<open>serve\<close> loop of \<open>src/bin/profinet.rs\<close> and the commanded safe shutdown that ends every
  cyclic session. A pass of the loop is a function of the session's state and of what the outside
  does in it: the shutdown flag, the line received, the clock readings, and the operations of the
  controller's own threads between the calls of the main thread. Clocks count microseconds.
  The lines put on stdout by the main thread are the list \<open>sv_out\<close>; those of the controller's
  callbacks stay in the controller's log (\<open>callback_event\<close> gives their form).
\<close>

section \<open>The session\<close>

datatype serve_stop = StopReason string | StopArLost string

definition stop_reason :: "serve_stop \<Rightarrow> string" where
  "stop_reason s = (case s of StopReason r \<Rightarrow> r | StopArLost _ \<Rightarrow> ''ar_lost'')"

definition exit_code :: "serve_stop \<Rightarrow> int" where
  "exit_code s = (case s of StopArLost _ \<Rightarrow> 1 | StopReason _ \<Rightarrow> 0)"

definition cyclic_abort_reason :: "cyclic_state \<Rightarrow> bool \<Rightarrow> string option" where
  "cyclic_abort_reason state ever_faulted =
     (if ever_faulted then Some ''cyclic_fault''
      else (case state of Fault \<Rightarrow> Some ''cyclic_fault'' | Stopped \<Rightarrow> Some ''cyclic_stopped'' | _ \<Rightarrow> None))"

record serve_cfg =
  sf_read_only :: bool
  sf_gap :: nat
  sf_keepalive_ms :: nat
  sf_allow_mask :: u8
  sf_cycle_ms :: u16
  sf_seconds :: nat
  sf_out_slot :: u16
  sf_out_subslot :: u16
  sf_start :: nat
  sf_debug :: "string \<Rightarrow> string"

record serve_state =
  sv_conn :: rpc_conn
  sv_ctl :: "cyclic_controller option"
  sv_last_request :: nat
  sv_last_traffic :: nat
  sv_control :: control_state
  sv_driven :: u8
  sv_last_activity :: nat
  sv_last_status :: nat
  sv_last_tick :: nat
  sv_hard_exit_ok :: bool
  sv_out :: "event list"

definition say :: "event list \<Rightarrow> serve_state \<Rightarrow> serve_state" where
  "say es s = s\<lparr>sv_out := sv_out s @ es\<rparr>"

datatype recv_in = RecvLine string | RecvTimeout | RecvClosed

text \<open>
  What a pass sees: the flag, the clock for the session timer, what the threads do before the
  state check, while the line is handled and around the readback, the line, the clock and the wall
  clock when it is handled, the pacing clocks of the request's attempts, and the later readings.
\<close>

record pass_in =
  pa_shutdown :: bool
  pa_clock :: nat
  pa_threads :: "cyclic_op list"
  pa_recv :: recv_in
  pa_recv_clock :: nat
  pa_host_us :: nat
  pa_paces :: "nat \<Rightarrow> nat \<times> nat"
  pa_done_clock :: nat
  pa_threads_req :: "cyclic_op list"
  pa_threads_drive :: "cyclic_op list"
  pa_tick_clock :: nat
  pa_tick_mark :: nat
  pa_dead_clock :: nat
  pa_status_clock :: nat
  pa_status_mark :: nat

definition run_threads :: "cyclic_op list \<Rightarrow> cyclic_controller option \<Rightarrow> cyclic_controller option option" where
  "run_threads ops ctl =
     (case ctl of None \<Rightarrow> Some None | Some c \<Rightarrow> map_option Some (fold cyclic_step ops (Some c)))"

definition tick_us :: "serve_cfg \<Rightarrow> nat" where
  "tick_us cfg = (if sf_cycle_ms cfg = 0 then 100000 else unat (sf_cycle_ms cfg) * 1000)"

section \<open>Requests\<close>

text \<open>A request that goes to the device: its answer line, or the error's, or the end of the session.\<close>

definition serve_answer ::
    "serve_cfg \<Rightarrow> pass_in \<Rightarrow> nat \<Rightarrow> 'a io \<Rightarrow> ('a \<Rightarrow> event) \<Rightarrow> serve_state \<Rightarrow> (serve_stop option \<times> serve_state) option" where
  "serve_answer cfg p i op answer s = do {
     (r, mark, c) \<leftarrow> serve_rpc (pa_paces p) (sf_gap cfg) op (sv_last_request s) (sv_conn s);
     let s1 = s\<lparr>sv_conn := c, sv_last_request := mark\<rparr>;
     (case r of
        Inr v \<Rightarrow> Some (None, (say [answer v] s1)\<lparr>sv_last_traffic := pa_done_clock p\<rparr>)
      | Inl e \<Rightarrow>
          (let s2 = say [serve_error_event i (pa_host_us p) e] s1 in
           if is_transport_failure e then Some (Some (StopArLost e), s2)
           else Some (None, s2\<lparr>sv_last_traffic := pa_done_clock p\<rparr>))) }"

definition serve_request :: "serve_cfg \<Rightarrow> pass_in \<Rightarrow> serve_cmd \<Rightarrow> serve_state \<Rightarrow> (serve_stop option \<times> serve_state) option" where
  "serve_request cfg p cmd s =
     (case cmd of
        ServeQuit i \<Rightarrow> Some (Some (StopReason ''quit''), say [LBye i] s)
      | ServePing i \<Rightarrow> Some (None, say [LPong i (pa_host_us p)] s)
      | ServeWrite i index slot subslot data \<Rightarrow>
          (if sf_read_only cfg then Some (None, say [LRefusedReadOnly i] s)
           else serve_answer cfg p i (rc_write index slot subslot data) (\<lambda>_. LOk i (pa_host_us p)) s)
      | ServeRead i index slot subslot len \<Rightarrow>
          serve_answer cfg p i (read_raw index slot subslot len)
            (\<lambda>d. LData i (pa_host_us p) (length d) (hex_encode d)) s)"

definition serve_line_in :: "serve_cfg \<Rightarrow> pass_in \<Rightarrow> string \<Rightarrow> serve_state \<Rightarrow> (serve_stop option \<times> serve_state) option" where
  "serve_line_in cfg p line s0 =
     (let s = s0\<lparr>sv_last_activity := pa_recv_clock p\<rparr> in do {
        r \<leftarrow> parse_serve_line line;
        (case r of
           Inl e \<Rightarrow> Some (None, say [LBadCommand (serve_error_text (sf_debug cfg) e) line] s)
         | Inr (ControlLine cmd) \<Rightarrow>
             (if cmd = Quit then Some (Some (StopReason ''quit''), s)
              else if sv_ctl s = None then Some (None, say [LRefusedNeedsCyclic line] s)
              else
                (let (ls, quit, cs) = apply_control_cmd cmd (sf_allow_mask cfg) (sv_control s);
                     s1 = say (map control_event ls) (s\<lparr>sv_control := cs\<rparr>)
                 in Some (if quit then Some (StopReason ''quit'') else None, s1)))
         | Inr (RpcLine cmd) \<Rightarrow> serve_request cfg p cmd s) })"

text \<open>The idle keepalive of an acyclic session.\<close>

definition serve_idle :: "serve_cfg \<Rightarrow> pass_in \<Rightarrow> serve_state \<Rightarrow> (serve_stop option \<times> serve_state) option" where
  "serve_idle cfg p s =
     (if sv_ctl s = None \<and> 0 < sf_keepalive_ms cfg
         \<and> sf_keepalive_ms cfg * 1000 \<le> pa_recv_clock p - sv_last_traffic s
      then do {
        (r, mark, c) \<leftarrow> serve_rpc (pa_paces p) (sf_gap cfg) (read_raw 0x8028 1 1 128) (sv_last_request s) (sv_conn s);
        let s1 = s\<lparr>sv_conn := c, sv_last_request := mark\<rparr>;
        (case r of
           Inl e \<Rightarrow> if is_transport_failure e then Some (Some (StopArLost e), s1)
                    else Some (None, s1\<lparr>sv_last_traffic := pa_done_clock p\<rparr>)
         | Inr _ \<Rightarrow> Some (None, s1\<lparr>sv_last_traffic := pa_done_clock p\<rparr>)) }
      else Some (None, s))"

definition serve_recv :: "serve_cfg \<Rightarrow> pass_in \<Rightarrow> serve_state \<Rightarrow> (serve_stop option \<times> serve_state) option" where
  "serve_recv cfg p s =
     (case pa_recv p of
        RecvLine line \<Rightarrow> serve_line_in cfg p line s
      | RecvTimeout \<Rightarrow> serve_idle cfg p s
      | RecvClosed \<Rightarrow> Some (Some (StopReason ''stdin_eof''), s))"

section \<open>Driving the output\<close>

text \<open>The text of a rejected output write; the other errors of the controller have no place here.\<close>

definition set_output_error_text :: "controller_error \<Rightarrow> string" where
  "set_output_error_text e =
     (case e of
        CannotSetOutput st \<Rightarrow> ''Cannot set output data in '' @ cyclic_state_as_str st @ '' state''
      | OutputRejected r \<Rightarrow> rt_error_text r
      | _ \<Rightarrow> [])"

text \<open>Put the commanded byte into the output image and read it back.\<close>

definition serve_drive ::
    "serve_cfg \<Rightarrow> pass_in \<Rightarrow> cyclic_controller \<Rightarrow> serve_state \<Rightarrow> (serve_stop option \<times> serve_state) option" where
  "serve_drive cfg p ctl s =
     (let byte = effective (sv_control s) in
      if byte = sv_driven s then Some (None, s)
      else do {
        (r, sh) \<leftarrow> set_output_data (sf_out_slot cfg) (sf_out_subslot cfg) [byte] (cc_shared ctl);
        (case r of
           Inl e \<Rightarrow> Some (Some (StopReason ''io_error''),
                      say [LErrorMsg (''set_output_data failed: '' @ set_output_error_text e)]
                        (s\<lparr>sv_ctl := Some (ctl\<lparr>cc_shared := sh\<rparr>)\<rparr>))
         | Inr _ \<Rightarrow> do {
             ctl1 \<leftarrow> run_threads (pa_threads_drive p) (Some (ctl\<lparr>cc_shared := sh\<rparr>));
             (rb, c) \<leftarrow> read_raw 0x8029 (sf_out_slot cfg) (sf_out_subslot cfg) 128 (sv_conn s);
             let readback = (case rb of Inr d \<Rightarrow> hex_encode d | Inl _ \<Rightarrow> []);
             Some (None, say [LOutput byte (byte = SAFE_OUTPUT_BYTE) readback]
               (s\<lparr>sv_ctl := ctl1, sv_conn := c, sv_driven := byte\<rparr>)) }) })"

text \<open>The elapsed output cycles, as a \<open>u32\<close>.\<close>

definition serve_tick :: "serve_cfg \<Rightarrow> pass_in \<Rightarrow> serve_state \<Rightarrow> serve_state" where
  "serve_tick cfg p s =
     (let elapsed = pa_tick_clock p - sv_last_tick s in
      if tick_us cfg \<le> elapsed
      then s\<lparr>sv_last_tick := pa_tick_mark p,
             sv_control := control_tick (elapsed div max (tick_us cfg) 1 mod 2 ^ 32) (sv_control s)\<rparr>
      else s)"

definition serve_status :: "pass_in \<Rightarrow> serve_state \<Rightarrow> serve_state" where
  "serve_status p s =
     (case sv_ctl s of
        None \<Rightarrow> s
      | Some ctl \<Rightarrow>
          (if 1000000 \<le> pa_status_clock p - sv_last_status s
           then (let st = sh_stats (cc_shared ctl) in
             say [LStatus (pa_host_us p) (frames_sent st) (frames_received st) (frames_missed st)
                    (frames_invalid st) (max_rx_interval_us st) (effective (sv_control s))]
               (s\<lparr>sv_last_status := pa_status_mark p\<rparr>))
           else s))"

definition serve_cyclic :: "serve_cfg \<Rightarrow> pass_in \<Rightarrow> serve_state \<Rightarrow> (serve_stop option \<times> serve_state) option" where
  "serve_cyclic cfg p s =
     (case sv_ctl s of
        None \<Rightarrow> Some (None, s)
      | Some ctl \<Rightarrow> do {
          (st, s1) \<leftarrow> serve_drive cfg p ctl s;
          (if st \<noteq> None then Some (st, s1)
           else
             (let s2 = serve_tick cfg p s1 in
              if cs_level (sv_control s2) \<noteq> 0 \<and> CONTROL_DEADMAN \<le> pa_dead_clock p - sv_last_activity s2
              then Some (Some (StopReason ''deadman''), say [LDeadman] s2)
              else Some (None, serve_status p s2))) })"

section \<open>The loop\<close>

definition serve_pass :: "serve_cfg \<Rightarrow> pass_in \<Rightarrow> serve_state \<Rightarrow> (serve_stop option \<times> serve_state) option" where
  "serve_pass cfg p s0 =
     (if pa_shutdown p then Some (Some (StopReason ''signal''), s0)
      else if 0 < sf_seconds cfg \<and> sf_seconds cfg \<le> (pa_clock p - sf_start cfg) div 1000000
      then Some (Some (StopReason ''timer''), s0)
      else do {
        ctl \<leftarrow> run_threads (pa_threads p) (sv_ctl s0);
        let s = s0\<lparr>sv_ctl := ctl\<rparr>;
        let abort = Option.bind ctl (\<lambda>c. cyclic_abort_reason (sh_state (cc_shared c)) (sh_ever_faulted (cc_shared c)));
        (case abort of
           Some reason \<Rightarrow> Some (Some (StopReason reason), s)
         | None \<Rightarrow> do {
             (st, s1) \<leftarrow> serve_recv cfg p s;
             (if st \<noteq> None then Some (st, s1)
              else do {
                ctl1 \<leftarrow> run_threads (pa_threads_req p) (sv_ctl s1);
                serve_cyclic cfg p (s1\<lparr>sv_ctl := ctl1\<rparr>) }) }) })"

text \<open>The passes of a session so far; \<open>None\<close> as a stop is a session still running.\<close>

fun serve_loop :: "serve_cfg \<Rightarrow> pass_in list \<Rightarrow> serve_state \<Rightarrow> (serve_stop option \<times> serve_state) option" where
  "serve_loop cfg [] s = Some (None, s)"
| "serve_loop cfg (p # ps) s = do {
     (st, s1) \<leftarrow> serve_pass cfg p s;
     (if st \<noteq> None then Some (st, s1) else serve_loop cfg ps s1) }"

section \<open>Safe shutdown\<close>

text \<open>
  What the controller's threads do during the shutdown: before each write attempt of a round,
  while the safe image is held, and between the last read and the stop; then whether the transmit
  thread handed its socket back, and the outcomes of the STOP sends.
\<close>

record shutdown_in =
  sd_threads :: "nat \<Rightarrow> nat \<Rightarrow> cyclic_op list"
  sd_hold :: "nat \<Rightarrow> cyclic_op list"
  sd_final :: "cyclic_op list"
  sd_tx_joined :: bool
  sd_sends :: "bool list"

text \<open>Up to three writes of the safe byte.\<close>

fun command_safe ::
    "serve_cfg \<Rightarrow> (nat \<Rightarrow> cyclic_op list) \<Rightarrow> nat \<Rightarrow> nat \<Rightarrow> cyclic_controller \<Rightarrow> (event list \<times> cyclic_controller) option" where
  "command_safe cfg threads attempt 0 ctl = Some ([], ctl)"
| "command_safe cfg threads attempt (Suc n) ctl = do {
     c \<leftarrow> fold cyclic_step (threads attempt) (Some ctl);
     (r, sh) \<leftarrow> set_output_data (sf_out_slot cfg) (sf_out_subslot cfg) [0x00] (cc_shared c);
     let c1 = c\<lparr>cc_shared := sh\<rparr>;
     (case r of
        Inr _ \<Rightarrow> Some ([], c1)
      | Inl e \<Rightarrow> do {
          (es, c2) \<leftarrow> command_safe cfg threads (attempt + 1) n c1;
          Some (LErrorMsg (''safe shutdown set_output_data failed: '' @ set_output_error_text e) # es, c2) }) }"

text \<open>Whether a readback proves that our safe byte is the one in effect.\<close>

definition proves_safe :: "bytes \<Rightarrow> bool option" where
  "proves_safe d = do {
     sub \<leftarrow> output_substitute_active d;
     (if sub then Some False
      else do { b \<leftarrow> parse_output_control_byte d; Some (b = Some SAFE_OUTPUT_BYTE) }) }"

text \<open>Up to three readbacks: whether one proved the output safe, and the last one's text.\<close>

fun verify_safe ::
    "serve_cfg \<Rightarrow> nat \<Rightarrow> string \<Rightarrow> rpc_conn \<Rightarrow> (bool \<times> string \<times> event list \<times> rpc_conn) option" where
  "verify_safe cfg 0 readback c = Some (False, readback, [], c)"
| "verify_safe cfg (Suc n) readback c = do {
     (r, c1) \<leftarrow> read_raw 0x8029 (sf_out_slot cfg) (sf_out_subslot cfg) 128 c;
     (case r of
        Inr d \<Rightarrow> do {
          ok \<leftarrow> proves_safe d;
          (if ok then Some (True, hex_encode d, [], c1) else verify_safe cfg n (hex_encode d) c1) }
      | Inl e \<Rightarrow> do {
          (v, rb, es, c2) \<leftarrow> verify_safe cfg n readback c1;
          Some (v, rb, LErrorRead ''safe_shutdown_readback'' e # es, c2) }) }"

fun shutdown_rounds ::
    "serve_cfg \<Rightarrow> shutdown_in \<Rightarrow> nat \<Rightarrow> nat \<Rightarrow> string \<Rightarrow> rpc_conn \<Rightarrow> cyclic_controller
      \<Rightarrow> (bool \<times> string \<times> event list \<times> rpc_conn \<times> cyclic_controller) option" where
  "shutdown_rounds cfg inp rnd 0 readback c ctl = Some (False, readback, [], c, ctl)"
| "shutdown_rounds cfg inp rnd (Suc n) readback c ctl = do {
     (es1, ctl1) \<leftarrow> command_safe cfg (sd_threads inp rnd) 0 3 ctl;
     ctl2 \<leftarrow> fold cyclic_step (sd_hold inp rnd) (Some ctl1);
     (v, rb, es2, c1) \<leftarrow> verify_safe cfg 3 readback c;
     (if v then Some (True, rb, es1 @ es2, c1, ctl2)
      else do {
        (v', rb', es3, c2, ctl3) \<leftarrow> shutdown_rounds cfg inp (rnd + 1) n rb c1 ctl2;
        Some (v', rb', es1 @ es2 @ es3, c2, ctl3) }) }"

text \<open>The result: whether the safe image was verified, the frames sent while stopping, the session.\<close>

definition safe_shutdown ::
    "serve_cfg \<Rightarrow> shutdown_in \<Rightarrow> string \<Rightarrow> cyclic_controller \<Rightarrow> serve_state \<Rightarrow> (bool \<times> bytes list \<times> serve_state) option" where
  "safe_shutdown cfg inp reason ctl s = do {
     (v, rb, es, c, ctl1) \<leftarrow> shutdown_rounds cfg inp 0 3 [] (sv_conn s) ctl;
     ctl2 \<leftarrow> fold cyclic_step (sd_final inp) (Some ctl1);
     (frames, ctl3) \<leftarrow> stop_safe (sf_out_slot cfg) (sf_out_subslot cfg) [0x00] (sd_tx_joined inp) (sd_sends inp) ctl2;
     c1 \<leftarrow> release c;
     let st = sh_stats (cc_shared ctl3);
     Some (v, frames,
       say (es @ [LSafeShutdown reason v rb] @ (if v then [] else [LAlarm reason rb])
              @ [LStoppedStats (frames_sent st) (frames_received st) (frames_missed st)])
         (s\<lparr>sv_conn := c1, sv_ctl := Some ctl3\<rparr>)) }"

text \<open>The process result and the flag that unlocks the hard exit.\<close>

definition safe_shutdown_verdict :: "bool \<Rightarrow> serve_state \<Rightarrow> (string + int) \<times> serve_state" where
  "safe_shutdown_verdict verified s =
     (if verified then (Inr 0, s\<lparr>sv_hard_exit_ok := True\<rparr>)
      else (Inl (''safe shutdown could not verify the safe output (see the '' @ quoted ''alarm'' @ '' NDJSON ''
              @ ''line); the device may still hold the last commanded output''), s))"

definition serve_end ::
    "serve_cfg \<Rightarrow> shutdown_in \<Rightarrow> nat \<Rightarrow> serve_stop \<Rightarrow> serve_state \<Rightarrow> ((string + int) \<times> bytes list \<times> serve_state) option" where
  "serve_end cfg inp host_us halt s0 =
     (let s = (case halt of StopArLost msg \<Rightarrow> say [LArLost host_us msg] s0 | _ \<Rightarrow> s0) in
      case sv_ctl s of
        Some ctl \<Rightarrow> do {
          (v, frames, s1) \<leftarrow> safe_shutdown cfg inp (stop_reason halt) ctl s;
          (case safe_shutdown_verdict v s1 of
             (Inr _, s2) \<Rightarrow> Some (Inr (exit_code halt), frames, s2)
           | (Inl e, s2) \<Rightarrow> Some (Inl e, frames, s2)) }
      | None \<Rightarrow> do {
          c \<leftarrow> release (sv_conn s);
          Some (Inr (exit_code halt), [], say [LStoppedExit (exit_code halt)] (s\<lparr>sv_conn := c\<rparr>)) })"

text \<open>
  The session from the first pass on: \<open>cmd_serve\<close> behind the set-up of the connection, with the
  lines said before it. \<open>now\<close> is the clock when the loop is entered, and the request mark lies one
  gap before it.
\<close>

definition serve_allow_mask :: "bool \<Rightarrow> u8 option \<Rightarrow> u8" where
  "serve_allow_mask read_only cyclic_mask =
     (case cyclic_mask of Some m \<Rightarrow> if read_only then 0 else m | None \<Rightarrow> 0)"

definition serve_begin :: "serve_cfg \<Rightarrow> nat \<Rightarrow> event list \<Rightarrow> rpc_conn \<Rightarrow> cyclic_controller option \<Rightarrow> serve_state" where
  "serve_begin cfg now said c ctl =
     \<lparr>sv_conn = c, sv_ctl = ctl, sv_last_request = (if sf_gap cfg \<le> now then now - sf_gap cfg else now), sv_last_traffic = now,
      sv_control = control_state_default, sv_driven = SAFE_OUTPUT_BYTE, sv_last_activity = now,
      sv_last_status = now, sv_last_tick = now, sv_hard_exit_ok = (sf_allow_mask cfg = 0),
      sv_out = said @ (if ctl \<noteq> None then [LControlActive SAFE_OUTPUT_BYTE (sf_allow_mask cfg)] else [])\<rparr>"

text \<open>A whole session that stops: its passes, then its end.\<close>

definition serve_session ::
    "serve_cfg \<Rightarrow> pass_in list \<Rightarrow> shutdown_in \<Rightarrow> nat \<Rightarrow> serve_state
      \<Rightarrow> ((string + int) \<times> bytes list \<times> serve_state) option option" where
  "serve_session cfg ps inp host_us s = do {
     (st, s1) \<leftarrow> serve_loop cfg ps s;
     (case st of
        None \<Rightarrow> Some None
      | Some halt \<Rightarrow> map_option Some (serve_end cfg inp host_us halt s1)) }"

section \<open>The controller under its threads\<close>

fun thread_op :: "cyclic_op \<Rightarrow> bool" where
  "thread_op (OpReceive t i) = True"
| "thread_op (OpTransmit now e loc) = True"
| "thread_op _ = False"

text \<open>
  A running tier on the output relationship \<open>oc\<close>: the output submodule has at least one byte in
  it, and the threads are up.
\<close>

definition out_obj :: "serve_cfg \<Rightarrow> iocr_config \<Rightarrow> io_data_object option" where
  "out_obj cfg oc =
     List.find (\<lambda>ob. obj_slot ob = sf_out_slot cfg \<and> obj_subslot ob = sf_out_subslot cfg) (cfg_objects oc)"

definition tier_ok :: "serve_cfg \<Rightarrow> iocr_config \<Rightarrow> cyclic_controller \<Rightarrow> bool" where
  "tier_ok cfg oc c \<longleftrightarrow> shared_ok (cc_shared c) \<and> sh_running (cc_shared c) \<and> cc_tx_thread c
     \<and> sh_output_iocr (cc_shared c) = oc \<and> (\<exists>obj. out_obj cfg oc = Some obj \<and> 1 \<le> obj_data_length obj)
     \<and> length (sh_dst_mac (cc_shared c)) = 6 \<and> length (sh_src_mac (cc_shared c)) = 6"

lemma tier_find_obj:
  "tier_ok cfg oc c \<Longrightarrow> find_obj (sh_output_builder (cc_shared c)) (sf_out_slot cfg) (sf_out_subslot cfg) = out_obj cfg oc"
  by (simp add: tier_ok_def find_obj_def shared_ok_def out_obj_def)

lemma tier_ok_link:
  "tier_ok cfg oc c \<Longrightarrow> shared_ok (cc_shared c') \<Longrightarrow> same_link (cc_shared c) (cc_shared c') \<Longrightarrow>
   cc_tx_thread c' = cc_tx_thread c \<Longrightarrow> tier_ok cfg oc c'"
  by (simp add: tier_ok_def same_link_def)

lemma thread_op_keeps:
  assumes "tier_ok cfg oc c" and "thread_op op"
  shows "\<exists>c'. cyclic_exec op c = Some c' \<and> tier_ok cfg oc c'"
proof -
  have ok: "shared_ok (cc_shared c)" using assms(1) by (simp add: tier_ok_def)
  show ?thesis
  proof (cases op)
    case (OpReceive t i)
    then show ?thesis using rx_pass_runs [OF ok, of t i] tier_ok_link [OF assms(1)] by (fastforce simp: runs_iff)
  next
    case (OpTransmit now e loc)
    then show ?thesis using tx_pass_runs [OF ok, of now e loc] tier_ok_link [OF assms(1)] by (fastforce simp: runs_iff)
  qed (use assms(2) in simp_all)
qed

lemma threads_keep:
  "tier_ok cfg oc c \<Longrightarrow> list_all thread_op ops \<Longrightarrow> \<exists>c'. fold cyclic_step ops (Some c) = Some c' \<and> tier_ok cfg oc c'"
proof (induction ops arbitrary: c)
  case (Cons op ops)
  then obtain c1 where "cyclic_exec op c = Some c1" "tier_ok cfg oc c1" using thread_op_keeps [of cfg oc c op] by auto
  then show ?case using Cons by (simp add: cyclic_step_def)
qed simp

lemma set_output_keeps:
  assumes "tier_ok cfg oc c"
  shows "\<exists>r sh. set_output_data s ss d (cc_shared c) = Some (r, sh) \<and> tier_ok cfg oc (c\<lparr>cc_shared := sh\<rparr>)"
proof -
  obtain r sh where r: "set_output_data s ss d (cc_shared c) = Some (r, sh)" "shared_ok sh"
    using set_output_data_runs [of "cc_shared c" s ss d] assms by (auto simp: runs_iff tier_ok_def)
  then have "same_link (cc_shared c) sh"
    by (auto simp: set_output_data_def same_link_def split: if_splits bind_splits sum.splits)
  then show ?thesis using r tier_ok_link [OF assms, of "c\<lparr>cc_shared := sh\<rparr>"] by auto
qed

text \<open>The control byte of the output image, the first of the output submodule.\<close>

definition shows_byte :: "serve_cfg \<Rightarrow> iocr_config \<Rightarrow> u8 \<Rightarrow> cyclic_controller \<Rightarrow> bool" where
  "shows_byte cfg oc b c \<longleftrightarrow> (\<forall>obj. out_obj cfg oc = Some obj \<longrightarrow> take 1 (image_at (cc_shared c) obj) = [b])"

lemma out_obj_mem: "out_obj cfg oc = Some obj \<Longrightarrow> obj \<in> set (cfg_objects oc)"
  by (auto simp: out_obj_def find_Some_iff)

lemma shows_byte_kept:
  "tier_ok cfg oc c \<Longrightarrow> image_kept (cc_shared c) (cc_shared c') \<Longrightarrow> shows_byte cfg oc b c \<Longrightarrow> shows_byte cfg oc b c'"
  using out_obj_mem by (fastforce simp: shows_byte_def tier_ok_def image_kept_def)

lemma thread_op_shows:
  assumes "tier_ok cfg oc c" and "thread_op op" and "cyclic_exec op c = Some c'" and "shows_byte cfg oc b c"
  shows "shows_byte cfg oc b c'"
proof -
  have ok: "shared_ok (cc_shared c)" using assms(1) by (simp add: tier_ok_def)
  have "image_kept (cc_shared c) (cc_shared c')"
    using assms(2,3) rx_pass_image [OF ok] tx_pass_image(1) [OF ok] by (cases op) auto
  then show ?thesis by (rule shows_byte_kept [OF assms(1) _ assms(4)])
qed

lemma threads_show:
  "tier_ok cfg oc c \<Longrightarrow> list_all thread_op ops \<Longrightarrow> fold cyclic_step ops (Some c) = Some c' \<Longrightarrow>
   shows_byte cfg oc b c \<Longrightarrow> shows_byte cfg oc b c'"
proof (induction ops arbitrary: c)
  case (Cons op ops)
  then obtain c1 where "cyclic_exec op c = Some c1" "tier_ok cfg oc c1" using thread_op_keeps [of cfg oc c op] by auto
  then show ?case using Cons thread_op_shows [of cfg oc c op c1 b] by (simp add: cyclic_step_def)
qed simp

lemma set_output_shows:
  assumes "tier_ok cfg oc c" and "set_output_data (sf_out_slot cfg) (sf_out_subslot cfg) [b] (cc_shared c) = Some (r, sh)"
  shows "r = Inr () \<Longrightarrow> shows_byte cfg oc b (c\<lparr>cc_shared := sh\<rparr>)" and "r = Inl e \<Longrightarrow> sh = cc_shared c"
proof -
  obtain obj where obj: "out_obj cfg oc = Some obj" "length [b] \<le> obj_data_length obj"
    using assms(1) by (auto simp: tier_ok_def)
  have ok: "shared_ok (cc_shared c)" using assms(1) by (simp add: tier_ok_def)
  note s = set_output_image [OF ok tier_find_obj [OF assms(1), unfolded obj(1)] obj(2) assms(2)]
  show "r = Inr () \<Longrightarrow> shows_byte cfg oc b (c\<lparr>cc_shared := sh\<rparr>)" using s(1) obj(1) by (simp add: shows_byte_def)
  show "r = Inl e \<Longrightarrow> sh = cc_shared c" using s(2) by blast
qed

section \<open>The safe shutdown\<close>

lemma proves_safe_eq:
  "proves_safe d = Some (12 \<le> length d \<and> d ! 0 = 0 \<and> d ! 1 = 0x16 \<and> rd16 d 6 = 0 \<and> rd16 d 10 \<noteq> 0
     \<and> 12 + unat (d ! 8) < length d \<and> d ! (12 + unat (d ! 8)) = 0)"
proof (cases "12 \<le> length d")
  case True
  then have "0 < length d" by linarith
  then have i: "idx d 0 = Some (d ! 0)" "idx d 1 = Some (d ! 1)" "idx d 8 = Some (d ! 8)"
    "be16_at d 6 = Some (rd16 d 6)" "be16_at d 10 = Some (rd16 d 10)"
    using True by (simp_all only: idx_in be16_at_in)
  then show ?thesis using True
    by (auto simp: proves_safe_def output_substitute_active_def parse_output_control_byte_def i idx_def SAFE_OUTPUT_BYTE_def)
qed (simp add: proves_safe_def output_substitute_active_def parse_output_control_byte_def)

lemma command_safe_runs:
  "tier_ok cfg oc c \<Longrightarrow> \<forall>k. list_all thread_op (thr k) \<Longrightarrow>
   \<exists>es c'. command_safe cfg thr k n c = Some (es, c') \<and> tier_ok cfg oc c'"
proof (induction n arbitrary: k c)
  case (Suc n)
  obtain c1 where 1: "fold cyclic_step (thr k) (Some c) = Some c1" "tier_ok cfg oc c1"
    using threads_keep Suc.prems by blast
  obtain r sh where 2: "set_output_data (sf_out_slot cfg) (sf_out_subslot cfg) [0] (cc_shared c1) = Some (r, sh)"
    "tier_ok cfg oc (c1\<lparr>cc_shared := sh\<rparr>)" using set_output_keeps [OF 1(2)] by blast
  show ?case
  proof (cases r)
    case (Inl e)
    obtain es c' where "command_safe cfg thr (k + 1) n (c1\<lparr>cc_shared := sh\<rparr>) = Some (es, c')" "tier_ok cfg oc c'"
      using Suc.IH [OF 2(2)] Suc.prems(2) by blast
    then show ?thesis using 1 2 Inl by simp
  qed (use 1 2 in simp)
qed simp

text \<open>A record the device returned for the output submodule, on the connection or a later state of it.\<close>

definition read_back :: "serve_cfg \<Rightarrow> rpc_conn \<Rightarrow> bytes \<Rightarrow> bool" where
  "read_back cfg c d \<longleftrightarrow> (\<exists>c1 c2. conn_step\<^sup>*\<^sup>* c c1
     \<and> read_raw 0x8029 (sf_out_slot cfg) (sf_out_subslot cfg) 128 c1 = Some (Inr d, c2))"

lemma read_back_later: "conn_step\<^sup>*\<^sup>* c c1 \<Longrightarrow> read_back cfg c1 d \<Longrightarrow> read_back cfg c d"
  unfolding read_back_def by (meson rtranclp_trans)

lemma verify_safe_runs:
  "conn_room (n + m) c \<Longrightarrow> \<exists>v rb es c'. verify_safe cfg n rb0 c = Some (v, rb, es, c') \<and> conn_room m c'
     \<and> conn_step\<^sup>*\<^sup>* c c' \<and> (v \<longrightarrow> (\<exists>d. rb = hex_encode d \<and> proves_safe d = Some True \<and> read_back cfg c d))"
proof (induction n arbitrary: c rb0)
  case (Suc n)
  obtain r c1 where 1: "read_raw 0x8029 (sf_out_slot cfg) (sf_out_subslot cfg) 128 c = Some (r, c1)"
    "conn_room (n + m) c1" using read_room [of "n + m" c] Suc.prems by (metis add_Suc)
  then have st: "conn_step c c1" by (rule_tac conn_step.Read)
  have more: ?case if e: "verify_safe cfg (Suc n) rb0 c = do {
      (v, rb, es, c2) \<leftarrow> verify_safe cfg n rb1 c1; Some (v, rb, es0 @ es, c2) }" for rb1 es0
  proof -
    obtain v rb es c' where ih: "verify_safe cfg n rb1 c1 = Some (v, rb, es, c')" "conn_room m c'" "conn_step\<^sup>*\<^sup>* c1 c'"
      "v \<longrightarrow> (\<exists>d. rb = hex_encode d \<and> proves_safe d = Some True \<and> read_back cfg c1 d)"
      using Suc.IH [OF 1(2), of rb1] by blast
    have "conn_step\<^sup>*\<^sup>* c c1" using st by (rule r_into_rtranclp)
    then show ?thesis using ih e read_back_later rtranclp_trans [OF _ ih(3)] by (simp, blast)
  qed
  show ?case
  proof (cases r)
    case (Inl e)
    then show ?thesis using 1 by (intro more [of rb0 "[LErrorRead ''safe_shutdown_readback'' e]"]) simp
  next
    case (Inr d)
    obtain b where b: "proves_safe d = Some b" using proves_safe_eq by blast
    show ?thesis
    proof (cases b)
      case True
      have "read_back cfg c d" using 1(1) Inr unfolding read_back_def by blast
      then show ?thesis using 1 Inr b True st conn_room_le [OF 1(2), of m] by auto
    next
      case False
      then show ?thesis using 1 Inr b by (intro more [of "hex_encode d" "[]"]) (simp add: split_def)
    qed
  qed
qed auto

lemma shutdown_rounds_runs:
  "conn_room (3 * n + m) c \<Longrightarrow> tier_ok cfg oc ctl \<Longrightarrow> \<forall>k a. list_all thread_op (sd_threads inp k a) \<Longrightarrow>
   \<forall>k. list_all thread_op (sd_hold inp k) \<Longrightarrow>
   \<exists>v rb es c' ctl'. shutdown_rounds cfg inp k n rb0 c ctl = Some (v, rb, es, c', ctl') \<and> conn_room m c'
     \<and> tier_ok cfg oc ctl' \<and> conn_step\<^sup>*\<^sup>* c c'
     \<and> (v \<longrightarrow> (\<exists>d. rb = hex_encode d \<and> proves_safe d = Some True \<and> read_back cfg c d))"
proof (induction n arbitrary: k c ctl rb0)
  case (Suc n)
  obtain es1 ctl1 where 1: "command_safe cfg (sd_threads inp k) 0 3 ctl = Some (es1, ctl1)" "tier_ok cfg oc ctl1"
    using command_safe_runs [OF Suc.prems(2), of "sd_threads inp k" 0 3] Suc.prems(3) by blast
  obtain ctl2 where 2: "fold cyclic_step (sd_hold inp k) (Some ctl1) = Some ctl2" "tier_ok cfg oc ctl2"
    using threads_keep [OF 1(2), of "sd_hold inp k"] Suc.prems(4) by blast
  have room: "conn_room (3 + (3 * n + m)) c" using Suc.prems(1) by (simp add: add.assoc)
  obtain v rb es2 c1 where 3: "verify_safe cfg 3 rb0 c = Some (v, rb, es2, c1)" "conn_room (3 * n + m) c1" "conn_step\<^sup>*\<^sup>* c c1"
    "v \<longrightarrow> (\<exists>d. rb = hex_encode d \<and> proves_safe d = Some True \<and> read_back cfg c d)"
    using verify_safe_runs [OF room, of cfg rb0] by blast
  show ?case
  proof (cases v)
    case True
    have "conn_room m c1" using 3(2) by (rule conn_room_le) simp
    then show ?thesis using 1 2 3 True by auto
  next
    case False
    obtain v' rb' es' c' ctl' where 4: "shutdown_rounds cfg inp (k + 1) n rb c1 ctl2 = Some (v', rb', es', c', ctl')"
      "conn_room m c'" "tier_ok cfg oc ctl'" "conn_step\<^sup>*\<^sup>* c1 c'"
      "v' \<longrightarrow> (\<exists>d. rb' = hex_encode d \<and> proves_safe d = Some True \<and> read_back cfg c1 d)"
      using Suc.IH [OF 3(2) 2(2) Suc.prems(3,4)] by blast
    have "conn_step\<^sup>*\<^sup>* c c'" using 3(3) 4(4) by (rule rtranclp_trans)
    then show ?thesis using 1 2 3(1) 4 False read_back_later [OF 3(3)] by (simp, blast)
  qed
qed auto

text \<open>The STOP frames put on the wire carry the safe byte, marked good, with ProviderRun cleared.\<close>

definition safe_stop_frame :: "serve_cfg \<Rightarrow> iocr_config \<Rightarrow> bytes \<Rightarrow> bool" where
  "safe_stop_frame cfg oc f \<longleftrightarrow> (\<exists>rt obj. parse_ethernet_frame f = Some (Some rt) \<and> out_obj cfg oc = Some obj
     \<and> rf_frame_id rt = cfg_frame_id oc \<and> is_valid rt \<and> \<not> is_running rt
     \<and> take 1 (drop (obj_frame_offset obj) (rf_payload rt)) = [SAFE_OUTPUT_BYTE]
     \<and> rf_payload rt ! obj_iops_offset obj = IOXS_GOOD)"

lemma stop_safe_tier:
  assumes "tier_ok cfg oc ctl"
  shows "\<exists>frames ctl'. stop_safe (sf_out_slot cfg) (sf_out_subslot cfg) [0] j sends ctl = Some (frames, ctl')
     \<and> sh_state (cc_shared ctl') = Stopped
     \<and> (j \<longrightarrow> frames \<noteq> []) \<and> list_all (safe_stop_frame cfg oc) frames"
proof (cases j)
  case True
  obtain obj where obj: "out_obj cfg oc = Some obj" "length [0 :: u8] \<le> obj_data_length obj"
    using assms by (auto simp: tier_ok_def)
  have sh: "shared_ok (cc_shared ctl)" "sh_running (cc_shared ctl)" "cc_tx_thread ctl" "sh_output_iocr (cc_shared ctl) = oc"
    "length (sh_dst_mac (cc_shared ctl)) = 6" "length (sh_src_mac (cc_shared ctl)) = 6"
    using assms by (simp_all add: tier_ok_def)
  show ?thesis
    using stop_safe_sends [OF sh(1-3) tier_find_obj [OF assms, unfolded obj(1)] obj(2) _ sh(5,6), of sends] True obj(1) sh(4)
    by (auto simp: safe_stop_frame_def list_all_iff SAFE_OUTPUT_BYTE_def)
next
  case False
  let ?sh = "set_safe_output (sf_out_slot cfg) (sf_out_subslot cfg) [0] (cc_shared ctl)"
  have "shared_ok ?sh" using assms by (simp add: tier_ok_def shared_ok_def set_safe_output_def)
  then obtain sh where "apply_safe_output ?sh = Some sh" using apply_safe_output_runs by (auto simp: runs_iff)
  moreover have "sh_running sh"
  proof -
    have "sh_running ?sh" using assms by (simp add: tier_ok_def set_safe_output_def)
    then show ?thesis using calculation
      by (auto simp: apply_safe_output_def split: option.splits prod.splits sum.splits bind_splits)
  qed
  ultimately show ?thesis using False
    by (simp add: stop_safe_def stop_def stop_rest_def Let_def)
qed

lemma safe_shutdown_runs:
  assumes "tier_ok cfg oc ctl" and "conn_room 11 (sv_conn s)"
    and "\<forall>k a. list_all thread_op (sd_threads inp k a)" and "\<forall>k. list_all thread_op (sd_hold inp k)"
    and "list_all thread_op (sd_final inp)"
  shows "\<exists>v frames s' ctl' es rb. safe_shutdown cfg inp reason ctl s = Some (v, frames, s')
     \<and> sv_ctl s' = Some ctl' \<and> sh_state (cc_shared ctl') = Stopped
     \<and> \<not> co_connected (sv_conn s') \<and> (sd_tx_joined inp \<longrightarrow> frames \<noteq> [])
     \<and> list_all (safe_stop_frame cfg oc) frames
     \<and> sv_out s' = sv_out s @ es @ [LSafeShutdown reason v rb] @ (if v then [] else [LAlarm reason rb])
          @ [LStoppedStats (frames_sent (sh_stats (cc_shared ctl'))) (frames_received (sh_stats (cc_shared ctl')))
               (frames_missed (sh_stats (cc_shared ctl')))]
     \<and> sv_hard_exit_ok s' = sv_hard_exit_ok s
     \<and> (v \<longrightarrow> (\<exists>d. rb = hex_encode d \<and> proves_safe d = Some True \<and> read_back cfg (sv_conn s) d))"
proof -
  have "conn_room (3 * 3 + 2) (sv_conn s)" using assms(2) by simp
  then obtain v rb es c ctl1 where 1: "shutdown_rounds cfg inp 0 3 [] (sv_conn s) ctl = Some (v, rb, es, c, ctl1)"
    "conn_room 2 c" "tier_ok cfg oc ctl1"
    "v \<longrightarrow> (\<exists>d. rb = hex_encode d \<and> proves_safe d = Some True \<and> read_back cfg (sv_conn s) d)"
    using shutdown_rounds_runs [OF _ assms(1,3,4), of 3 2] by blast
  obtain ctl2 where 2: "fold cyclic_step (sd_final inp) (Some ctl1) = Some ctl2" "tier_ok cfg oc ctl2"
    using threads_keep [OF 1(3) assms(5)] by blast
  obtain frames ctl3 where 3: "stop_safe (sf_out_slot cfg) (sf_out_subslot cfg) [0] (sd_tx_joined inp) (sd_sends inp) ctl2
      = Some (frames, ctl3)" "sh_state (cc_shared ctl3) = Stopped"
    "sd_tx_joined inp \<longrightarrow> frames \<noteq> []" "list_all (safe_stop_frame cfg oc) frames"
    using stop_safe_tier [OF 2(2)] by blast
  obtain c1 where 4: "release c = Some c1" "\<not> co_connected c1"
    using release_room [of 1 c] 1(2) by (auto simp: numeral_2_eq_2)
  show ?thesis using 1 2 3 4
    by (intro exI [of _ v] exI [of _ frames] exI [of _ ctl3] exI [of _ es] exI [of _ rb])
       (auto simp: safe_shutdown_def say_def Let_def)
qed

section \<open>A pass keeps the session well formed\<close>

lemma serve_rpc_loop_runs:
  "op_ok op \<Longrightarrow> conn_room (n + m) c \<Longrightarrow>
   \<exists>r mark c'. serve_rpc_loop n k busy clk gap op mk c = Some (r, mark, c') \<and> conn_room m c' \<and> conn_step\<^sup>*\<^sup>* c c'"
proof (induction n arbitrary: k busy mk c)
  case (Suc n)
  obtain r c1 where 1: "op c = Some (r, c1)" "conn_room (n + m) c1" "conn_step c c1"
    using Suc.prems unfolding op_ok_def by (metis add_Suc)
  have st: "conn_step\<^sup>*\<^sup>* c c1" using 1(3) by (rule r_into_rtranclp)
  have m: "conn_room m c1" using 1(2) by (rule conn_room_le) simp
  show ?case
  proof (cases "\<exists>e. r = Inl e \<and> contains e PNIO_BUSY_STATUS")
    case True
    then obtain e where e: "r = Inl e" "contains e PNIO_BUSY_STATUS" by blast
    obtain r' mark c' where "serve_rpc_loop n (k + 1) e clk gap op (snd (serve_pace mk gap (clk k))) c1 = Some (r', mark, c')"
      "conn_room m c'" "conn_step\<^sup>*\<^sup>* c1 c'" using Suc.IH [OF Suc.prems(1) 1(2)] by blast
    then show ?thesis using 1 e rtranclp_trans [OF st] by auto
  next
    case False
    then show ?thesis using 1 m st by (cases r) (auto simp: Let_def)
  qed
qed auto

lemma serve_rpc_runs:
  "op_ok op \<Longrightarrow> conn_room (5 + m) c \<Longrightarrow>
   \<exists>r mark c'. serve_rpc clk gap op mk c = Some (r, mark, c') \<and> conn_room m c' \<and> conn_step\<^sup>*\<^sup>* c c'"
  unfolding serve_rpc_def SERVE_BUSY_RETRIES_def by (rule serve_rpc_loop_runs)

fun output_ok :: "u8 \<Rightarrow> event \<Rightarrow> bool" where
  "output_ok allow (LOutput b safe hex) = (within allow b \<and> safe = (b = SAFE_OUTPUT_BYTE))"
| "output_ok allow _ = True"

definition serve_ok :: "serve_cfg \<Rightarrow> iocr_config \<Rightarrow> serve_state \<Rightarrow> bool" where
  "serve_ok cfg oc s \<longleftrightarrow>
     (\<forall>c. sv_ctl s = Some c \<longrightarrow> tier_ok cfg oc c \<and> shows_byte cfg oc (sv_driven s) c)
     \<and> control_ok (sf_allow_mask cfg) (sv_control s) \<and> within (sf_allow_mask cfg) (sv_driven s)
     \<and> list_all (output_ok (sf_allow_mask cfg)) (sv_out s) \<and> sv_hard_exit_ok s = (sf_allow_mask cfg = 0)"

text \<open>What a step of the session keeps: the invariant, the tier, the connection's history and room.\<close>

definition serves :: "serve_cfg \<Rightarrow> iocr_config \<Rightarrow> nat \<Rightarrow> serve_state \<Rightarrow> serve_state \<Rightarrow> bool" where
  "serves cfg oc m s s' \<longleftrightarrow> serve_ok cfg oc s' \<and> (sv_ctl s' = None) = (sv_ctl s = None)
     \<and> conn_room m (sv_conn s') \<and> conn_step\<^sup>*\<^sup>* (sv_conn s) (sv_conn s')"

lemma serves_trans: "serves cfg oc n s s1 \<Longrightarrow> serves cfg oc m s1 s2 \<Longrightarrow> serves cfg oc m s s2"
  unfolding serves_def by (meson rtranclp_trans)

lemma serves_refl: "serve_ok cfg oc s \<Longrightarrow> conn_room m (sv_conn s) \<Longrightarrow> serves cfg oc m s s"
  by (simp add: serves_def)

definition plain_event :: "event \<Rightarrow> bool" where
  "plain_event e \<longleftrightarrow> (\<forall>allow. output_ok allow e)"

lemma plain_events [simp]:
  "plain_event (LBye i)" "plain_event (LPong i u)" "plain_event (LOk i u)" "plain_event (LData i u n h)"
  "plain_event (LRefusedReadOnly i)" "plain_event (LBadCommand a b)" "plain_event (LRefusedNeedsCyclic l)"
  "plain_event (serve_error_event i u e)" "plain_event (control_event cl)" "plain_event (LErrorMsg t)"
  "plain_event LDeadman" "plain_event (LStatus n1 n2 n3 n4 n5 n6 w)" "plain_event (LArLost u t)"
  by (simp_all add: plain_event_def serve_error_event_def split: option.splits) (cases cl; simp)

lemma say_fields [simp]:
  "sv_conn (say es s) = sv_conn s" "sv_ctl (say es s) = sv_ctl s" "sv_control (say es s) = sv_control s"
  "sv_driven (say es s) = sv_driven s" "sv_hard_exit_ok (say es s) = sv_hard_exit_ok s"
  "sv_out (say es s) = sv_out s @ es" "sv_last_activity (say es s) = sv_last_activity s"
  "sv_last_status (say es s) = sv_last_status s"
  by (simp_all add: say_def)

lemma serve_ok_say: "list_all (output_ok (sf_allow_mask cfg)) es \<Longrightarrow> serve_ok cfg oc s \<Longrightarrow> serve_ok cfg oc (say es s)"
  by (simp add: serve_ok_def)

lemma serve_ok_fields [simp]:
  "serve_ok cfg oc (s\<lparr>sv_conn := c\<rparr>) = serve_ok cfg oc s"
  "serve_ok cfg oc (s\<lparr>sv_last_request := n\<rparr>) = serve_ok cfg oc s"
  "serve_ok cfg oc (s\<lparr>sv_last_traffic := n\<rparr>) = serve_ok cfg oc s"
  "serve_ok cfg oc (s\<lparr>sv_last_activity := n\<rparr>) = serve_ok cfg oc s"
  "serve_ok cfg oc (s\<lparr>sv_last_tick := n\<rparr>) = serve_ok cfg oc s"
  "serve_ok cfg oc (s\<lparr>sv_last_status := n\<rparr>) = serve_ok cfg oc s"
  by (simp_all add: serve_ok_def)

lemma serve_ok_say_plain [simp]: "list_all plain_event es \<Longrightarrow> serve_ok cfg oc (say es s) = serve_ok cfg oc s"
  by (auto simp: serve_ok_def plain_event_def list_all_iff)

lemma serve_answer_runs:
  assumes "serve_ok cfg oc s" and "conn_room (5 + m) (sv_conn s)" and "op_ok op" and "\<And>v. plain_event (answer v)"
  shows "\<exists>st s'. serve_answer cfg p i op answer s = Some (st, s') \<and> serves cfg oc m s s'"
proof -
  obtain r mark c where 1: "serve_rpc (pa_paces p) (sf_gap cfg) op (sv_last_request s) (sv_conn s) = Some (r, mark, c)"
    "conn_room m c" "conn_step\<^sup>*\<^sup>* (sv_conn s) c" using serve_rpc_runs [OF assms(3,2)] by blast
  then show ?thesis using assms(1,4) by (cases r) (auto simp: serve_answer_def serves_def Let_def)
qed

lemma serve_request_runs:
  assumes "serve_ok cfg oc s" and "conn_room (5 + m) (sv_conn s)"
  shows "\<exists>st s'. serve_request cfg p cmd s = Some (st, s') \<and> serves cfg oc m s s'"
proof -
  have r: "conn_room m (sv_conn s)" using assms(2) by (rule conn_room_le) simp
  show ?thesis
  proof (cases cmd)
    case (ServeRead i index slot subslot len)
    then show ?thesis using serve_answer_runs [OF assms read_op_ok] by (simp add: serve_request_def)
  next
    case (ServeWrite i index slot subslot data)
    then show ?thesis using serve_answer_runs [OF assms write_op_ok] assms(1) r
      by (cases "sf_read_only cfg") (auto simp: serve_request_def serves_def)
  qed (use assms(1) r in \<open>auto simp: serve_request_def serves_def\<close>)
qed

lemma serve_line_runs:
  assumes "serve_ok cfg oc s" and "conn_room (5 + m) (sv_conn s)" and "parse_serve_line line \<noteq> None"
  shows "\<exists>st s'. serve_line_in cfg p line s = Some (st, s') \<and> serves cfg oc m s s'"
proof -
  let ?s = "s\<lparr>sv_last_activity := pa_recv_clock p\<rparr>"
  have r: "conn_room m (sv_conn s)" using assms(2) by (rule conn_room_le) simp
  obtain x where x: "parse_serve_line line = Some x" using assms(3) by blast
  have req: "\<exists>st s'. serve_request cfg p cmd ?s = Some (st, s') \<and> serves cfg oc m s s'" for cmd
    using serve_request_runs [of cfg oc ?s m p cmd] assms(1,2) by (simp add: serves_def)
  have ctl: "control_ok (sf_allow_mask cfg) (snd (snd (apply_control_cmd cmd (sf_allow_mask cfg) (sv_control s))))" for cmd
    using assms(1) by (intro apply_control_cmd_ok) (simp add: serve_ok_def)
  show ?thesis
  proof (cases x)
    case (Inr sl)
    show ?thesis
    proof (cases sl)
      case (ControlLine cmd)
      obtain ls q cs where a: "apply_control_cmd cmd (sf_allow_mask cfg) (sv_control s) = (ls, q, cs)" by (metis prod_cases3)
      have "list_all plain_event (map control_event ls)" by (simp add: list_all_iff)
      moreover have "serve_ok cfg oc (?s\<lparr>sv_control := cs\<rparr>)" using assms(1) ctl [of cmd] a by (simp add: serve_ok_def)
      ultimately show ?thesis using x Inr ControlLine a assms(1) r
        by (auto simp: serve_line_in_def serves_def Let_def)
    qed (use x Inr req in \<open>simp add: serve_line_in_def Let_def\<close>)
  qed (use x assms(1) r in \<open>auto simp: serve_line_in_def serves_def Let_def\<close>)
qed

lemma serve_recv_runs:
  assumes "serve_ok cfg oc s" and "conn_room (5 + m) (sv_conn s)"
    and "\<And>line. pa_recv p = RecvLine line \<Longrightarrow> parse_serve_line line \<noteq> None"
  shows "\<exists>st s'. serve_recv cfg p s = Some (st, s') \<and> serves cfg oc m s s'"
proof -
  have r: "conn_room m (sv_conn s)" using assms(2) by (rule conn_room_le) simp
  obtain x mark c where 1: "serve_rpc (pa_paces p) (sf_gap cfg) (read_raw 0x8028 1 1 128) (sv_last_request s) (sv_conn s) = Some (x, mark, c)"
    "conn_room m c" "conn_step\<^sup>*\<^sup>* (sv_conn s) c" using serve_rpc_runs [OF read_op_ok assms(2)] by blast
  show ?thesis
  proof (cases "pa_recv p")
    case (RecvLine line)
    then show ?thesis using serve_line_runs [OF assms(1,2) assms(3)] by (simp add: serve_recv_def)
  next
    case RecvTimeout
    then show ?thesis using 1 assms(1) r
      by (cases x) (auto simp: serve_recv_def serve_idle_def serves_def Let_def)
  qed (use assms(1) r in \<open>auto simp: serve_recv_def serves_def\<close>)
qed

lemma serve_drive_runs:
  assumes "serve_ok cfg oc s" and "sv_ctl s = Some ctl" and "conn_room (1 + m) (sv_conn s)"
    and "list_all thread_op (pa_threads_drive p)"
  shows "\<exists>st s'. serve_drive cfg p ctl s = Some (st, s') \<and> serves cfg oc m s s'"
proof (cases "effective (sv_control s) = sv_driven s")
  case True
  have "conn_room m (sv_conn s)" using assms(3) by (rule conn_room_le) simp
  then show ?thesis using True assms(1) by (simp add: serve_drive_def serves_def)
next
  case False
  let ?b = "effective (sv_control s)"
  have t: "tier_ok cfg oc ctl" "within (sf_allow_mask cfg) ?b" "shows_byte cfg oc (sv_driven s) ctl"
    using assms(1,2) effective_within by (auto simp: serve_ok_def)
  obtain r sh where 1: "set_output_data (sf_out_slot cfg) (sf_out_subslot cfg) [?b] (cc_shared ctl) = Some (r, sh)"
    "tier_ok cfg oc (ctl\<lparr>cc_shared := sh\<rparr>)" using set_output_keeps [OF t(1)] by blast
  show ?thesis
  proof (cases r)
    case (Inl e)
    have "conn_room m (sv_conn s)" using assms(3) by (rule conn_room_le) simp
    moreover have "sh = cc_shared ctl" using set_output_shows(2) [OF t(1) 1(1)] Inl by blast
    ultimately show ?thesis using False 1 Inl assms(1,2) by (auto simp: serve_drive_def serves_def serve_ok_def Let_def)
  next
    case (Inr u)
    obtain ctl1 where 2: "fold cyclic_step (pa_threads_drive p) (Some (ctl\<lparr>cc_shared := sh\<rparr>)) = Some ctl1" "tier_ok cfg oc ctl1"
      using threads_keep [OF 1(2) assms(4)] by blast
    obtain rb c where 3: "read_raw 0x8029 (sf_out_slot cfg) (sf_out_subslot cfg) 128 (sv_conn s) = Some (rb, c)" "conn_room m c"
      using read_room [OF assms(3) [unfolded plus_1_eq_Suc]] by blast
    then have st: "conn_step\<^sup>*\<^sup>* (sv_conn s) c" by (metis conn_step.Read r_into_rtranclp)
    have "shows_byte cfg oc ?b (ctl\<lparr>cc_shared := sh\<rparr>)" using set_output_shows(1) [OF t(1) 1(1)] Inr by simp
    then have "shows_byte cfg oc ?b ctl1" using threads_show [OF 1(2) assms(4) 2(1)] by blast
    then show ?thesis using False 1 2 3 st Inr assms(1,2) t(2)
      by (auto simp: serve_drive_def serves_def serve_ok_def run_threads_def Let_def)
  qed
qed

lemma serve_tick_ok: "serve_ok cfg oc s \<Longrightarrow> conn_room m (sv_conn s) \<Longrightarrow> serves cfg oc m s (serve_tick cfg p s)"
  by (auto simp: serve_tick_def serves_def serve_ok_def Let_def intro: control_tick_ok)

lemma serve_status_ok: "serve_ok cfg oc s \<Longrightarrow> conn_room m (sv_conn s) \<Longrightarrow> serves cfg oc m s (serve_status p s)"
  by (auto simp: serve_status_def serves_def Let_def split: option.splits)

lemma serve_cyclic_runs:
  assumes "serve_ok cfg oc s" and "conn_room (1 + m) (sv_conn s)" and "list_all thread_op (pa_threads_drive p)"
  shows "\<exists>st s'. serve_cyclic cfg p s = Some (st, s') \<and> serves cfg oc m s s'"
proof (cases "sv_ctl s")
  case None
  have "conn_room m (sv_conn s)" using assms(2) by (rule conn_room_le) simp
  then show ?thesis using None assms(1) by (simp add: serve_cyclic_def serves_refl)
next
  case (Some ctl)
  obtain st s1 where 1: "serve_drive cfg p ctl s = Some (st, s1)" "serves cfg oc m s s1"
    using serve_drive_runs [OF assms(1) Some assms(2,3)] by blast
  then have ok1: "serve_ok cfg oc s1" "conn_room m (sv_conn s1)" by (simp_all add: serves_def)
  have 2: "serves cfg oc m s (serve_tick cfg p s1)" using serves_trans [OF 1(2) serve_tick_ok [OF ok1]] .
  then have ok2: "serve_ok cfg oc (serve_tick cfg p s1)" "conn_room m (sv_conn (serve_tick cfg p s1))" by (simp_all add: serves_def)
  have 3: "serves cfg oc m s (serve_status p (serve_tick cfg p s1))" using serves_trans [OF 2 serve_status_ok [OF ok2]] .
  have 4: "serves cfg oc m s (say [LDeadman] (serve_tick cfg p s1))" using 2 by (simp add: serves_def)
  show ?thesis using Some 1 2 3 4 by (auto simp: serve_cyclic_def Let_def)
qed

text \<open>The passes the theorems are about: the threads only receive and transmit, and no line makes the parser panic.\<close>

definition pass_ok :: "pass_in \<Rightarrow> bool" where
  "pass_ok p \<longleftrightarrow> list_all thread_op (pa_threads p) \<and> list_all thread_op (pa_threads_req p)
     \<and> list_all thread_op (pa_threads_drive p)
     \<and> (case pa_recv p of RecvLine line \<Rightarrow> parse_serve_line line \<noteq> None | _ \<Rightarrow> True)"

lemma run_threads_ok:
  assumes "serve_ok cfg oc s" and "list_all thread_op ops"
  shows "\<exists>ctl. run_threads ops (sv_ctl s) = Some ctl \<and> serve_ok cfg oc (s\<lparr>sv_ctl := ctl\<rparr>) \<and> (ctl = None) = (sv_ctl s = None)"
proof (cases "sv_ctl s")
  case (Some c)
  then have c: "tier_ok cfg oc c" "shows_byte cfg oc (sv_driven s) c" using assms(1) by (auto simp: serve_ok_def)
  obtain c' where "fold cyclic_step ops (Some c) = Some c'" "tier_ok cfg oc c'"
    using threads_keep [OF c(1) assms(2)] by blast
  moreover have "shows_byte cfg oc (sv_driven s) c'" using threads_show [OF c(1) assms(2) calculation(1) c(2)] .
  ultimately show ?thesis using Some assms(1) by (simp add: run_threads_def serve_ok_def)
qed (use assms(1) in \<open>simp add: run_threads_def serve_ok_def\<close>)

lemma serve_pass_runs:
  assumes "serve_ok cfg oc s" and "conn_room (6 + m) (sv_conn s)" and "pass_ok p"
  shows "\<exists>st s'. serve_pass cfg p s = Some (st, s') \<and> serves cfg oc m s s'"
proof -
  have r: "conn_room m (sv_conn s)" using assms(2) by (rule conn_room_le) simp
  obtain ctl where t: "run_threads (pa_threads p) (sv_ctl s) = Some ctl" "serve_ok cfg oc (s\<lparr>sv_ctl := ctl\<rparr>)"
    "(ctl = None) = (sv_ctl s = None)" using run_threads_ok [OF assms(1)] assms(3) unfolding pass_ok_def by blast
  let ?s = "s\<lparr>sv_ctl := ctl\<rparr>"
  have room: "conn_room (5 + (1 + m)) (sv_conn ?s)" using assms(2) by simp
  have line: "\<And>line. pa_recv p = RecvLine line \<Longrightarrow> parse_serve_line line \<noteq> None"
    using assms(3) by (auto simp: pass_ok_def)
  obtain st s1 where 1: "serve_recv cfg p ?s = Some (st, s1)" "serves cfg oc (1 + m) ?s s1"
    using serve_recv_runs [OF t(2) room line] by blast
  have s1: "serve_ok cfg oc s1" "conn_room (1 + m) (sv_conn s1)" "(sv_ctl s1 = None) = (sv_ctl s = None)"
    "conn_step\<^sup>*\<^sup>* (sv_conn s) (sv_conn s1)" using 1(2) t(3) by (simp_all add: serves_def)
  obtain ctl1 where t1: "run_threads (pa_threads_req p) (sv_ctl s1) = Some ctl1" "serve_ok cfg oc (s1\<lparr>sv_ctl := ctl1\<rparr>)"
    "(ctl1 = None) = (sv_ctl s1 = None)" using run_threads_ok [OF s1(1)] assms(3) unfolding pass_ok_def by blast
  obtain st2 s2 where 2: "serve_cyclic cfg p (s1\<lparr>sv_ctl := ctl1\<rparr>) = Some (st2, s2)" "serves cfg oc m (s1\<lparr>sv_ctl := ctl1\<rparr>) s2"
    using serve_cyclic_runs [OF t1(2), of m p] s1(2) assms(3) unfolding pass_ok_def by auto
  have e: "serves cfg oc m s s0" "serves cfg oc m s ?s" if "s0 = s" for s0
    using that assms(1) r t by (simp_all add: serves_def)
  have m1: "conn_room m (sv_conn s1)" using s1(2) by (rule conn_room_le) simp
  have f: "serves cfg oc m s s1" using s1 m1 by (simp add: serves_def)
  have g: "serves cfg oc m s s2" using 2(2) s1(3,4) t1(3) rtranclp_trans [OF s1(4)] by (auto simp: serves_def)
  show ?thesis using t(1) 1(1) t1(1) 2(1) e f g
    by (auto simp: serve_pass_def Let_def split: option.split)
qed

lemma serve_loop_runs:
  "serve_ok cfg oc s \<Longrightarrow> conn_room (6 * length ps + m) (sv_conn s) \<Longrightarrow> list_all pass_ok ps \<Longrightarrow>
   \<exists>st s'. serve_loop cfg ps s = Some (st, s') \<and> serves cfg oc m s s'"
proof (induction ps arbitrary: s)
  case (Cons p ps)
  have "conn_room (6 + (6 * length ps + m)) (sv_conn s)" using Cons.prems(2) by (simp add: add.assoc)
  then obtain st s1 where 1: "serve_pass cfg p s = Some (st, s1)" "serves cfg oc (6 * length ps + m) s s1"
    using serve_pass_runs [OF Cons.prems(1)] Cons.prems(3) by fastforce
  then have ok: "serve_ok cfg oc s1" "conn_room (6 * length ps + m) (sv_conn s1)" by (simp_all add: serves_def)
  show ?case
  proof (cases st)
    case None
    obtain st2 s2 where "serve_loop cfg ps s1 = Some (st2, s2)" "serves cfg oc m s1 s2"
      using Cons.IH [OF ok] Cons.prems(3) by auto
    then show ?thesis using 1 None serves_trans by auto
  next
    case (Some h)
    have "serves cfg oc m s s1" using 1(2) conn_room_le [of _ "sv_conn s1" m] by (auto simp: serves_def)
    then show ?thesis using 1 Some by simp
  qed
qed (simp add: serves_refl)

section \<open>Whole sessions\<close>

definition shutdown_ok :: "shutdown_in \<Rightarrow> bool" where
  "shutdown_ok inp \<longleftrightarrow> (\<forall>k a. list_all thread_op (sd_threads inp k a)) \<and> (\<forall>k. list_all thread_op (sd_hold inp k))
     \<and> list_all thread_op (sd_final inp)"

lemma serve_begin_ok:
  "(\<forall>c. ctl = Some c \<longrightarrow> tier_ok cfg oc c \<and> shows_byte cfg oc SAFE_OUTPUT_BYTE c) \<Longrightarrow> list_all plain_event said \<Longrightarrow>
   serve_ok cfg oc (serve_begin cfg now said c ctl)"
  by (auto simp: serve_begin_def serve_ok_def control_ok_default within_def SAFE_OUTPUT_BYTE_def plain_event_def list_all_iff)

lemma serve_end_runs:
  assumes "serve_ok cfg oc s" and "sv_ctl s = Some ctl" and "conn_room 11 (sv_conn s)" and "shutdown_ok inp"
  shows "\<exists>res frames s' ctl' front v rb back. serve_end cfg inp us halt s = Some (res, frames, s')
     \<and> sv_ctl s' = Some ctl' \<and> sh_state (cc_shared ctl') = Stopped \<and> \<not> co_connected (sv_conn s')
     \<and> (sd_tx_joined inp \<longrightarrow> frames \<noteq> []) \<and> list_all (safe_stop_frame cfg oc) frames
     \<and> sv_out s' = front @ [LSafeShutdown (stop_reason halt) v rb]
          @ (if v then [] else [LAlarm (stop_reason halt) rb]) @ back
     \<and> sv_hard_exit_ok s' = (v \<or> sf_allow_mask cfg = 0)
     \<and> (case res of Inr code \<Rightarrow> v \<and> code = exit_code halt | Inl _ \<Rightarrow> \<not> v)
     \<and> (v \<longrightarrow> (\<exists>d. rb = hex_encode d \<and> proves_safe d = Some True \<and> read_back cfg (sv_conn s) d))"
proof -
  obtain s0 where s0: "s0 = (case halt of StopArLost msg \<Rightarrow> say [LArLost us msg] s | _ \<Rightarrow> s)" by blast
  have c: "sv_ctl s0 = Some ctl" "sv_conn s0 = sv_conn s" "sv_hard_exit_ok s0 = (sf_allow_mask cfg = 0)"
    "tier_ok cfg oc ctl" "conn_room 11 (sv_conn s0)"
    using assms(1-3) by (auto simp: s0 serve_ok_def split: serve_stop.split)
  have sd: "\<forall>k a. list_all thread_op (sd_threads inp k a)" "\<forall>k. list_all thread_op (sd_hold inp k)"
    "list_all thread_op (sd_final inp)" using assms(4) by (simp_all add: shutdown_ok_def)
  have e: "serve_end cfg inp us halt s = do {
      (v, frames, s1) \<leftarrow> safe_shutdown cfg inp (stop_reason halt) ctl s0;
      (case safe_shutdown_verdict v s1 of
         (Inr _, s2) \<Rightarrow> Some (Inr (exit_code halt), frames, s2)
       | (Inl e, s2) \<Rightarrow> Some (Inl e, frames, s2)) }"
    using c(1) by (simp add: serve_end_def s0 [symmetric])
  obtain v frames s' ctl' es rb where 1: "safe_shutdown cfg inp (stop_reason halt) ctl s0 = Some (v, frames, s')"
    "sv_ctl s' = Some ctl'" "sh_state (cc_shared ctl') = Stopped" "\<not> co_connected (sv_conn s')"
    "sd_tx_joined inp \<longrightarrow> frames \<noteq> []" "list_all (safe_stop_frame cfg oc) frames"
    "sv_out s' = sv_out s0 @ es @ [LSafeShutdown (stop_reason halt) v rb] @ (if v then [] else [LAlarm (stop_reason halt) rb])
          @ [LStoppedStats (frames_sent (sh_stats (cc_shared ctl'))) (frames_received (sh_stats (cc_shared ctl')))
               (frames_missed (sh_stats (cc_shared ctl')))]"
    "sv_hard_exit_ok s' = sv_hard_exit_ok s0"
    "v \<longrightarrow> (\<exists>d. rb = hex_encode d \<and> proves_safe d = Some True \<and> read_back cfg (sv_conn s0) d)"
    using safe_shutdown_runs [OF c(4,5) sd, of "stop_reason halt"] by blast
  let ?front = "sv_out s0 @ es"
  let ?bk = "[LStoppedStats (frames_sent (sh_stats (cc_shared ctl'))) (frames_received (sh_stats (cc_shared ctl')))
               (frames_missed (sh_stats (cc_shared ctl')))]"
  show ?thesis
  proof (cases v)
    case True
    have "serve_end cfg inp us halt s = Some (Inr (exit_code halt), frames, s'\<lparr>sv_hard_exit_ok := True\<rparr>)"
      using 1(1) True by (simp add: e safe_shutdown_verdict_def)
    then show ?thesis using 1 c(2) True
      by (intro exI [of _ "Inr (exit_code halt)"] exI [of _ frames] exI [of _ "s'\<lparr>sv_hard_exit_ok := True\<rparr>"]
            exI [of _ ctl'] exI [of _ ?front] exI [of _ v] exI [of _ rb] exI [of _ ?bk]) simp
  next
    case False
    obtain msg where "serve_end cfg inp us halt s = Some (Inl msg, frames, s')"
      using 1(1) False by (simp add: e safe_shutdown_verdict_def)
    then show ?thesis using 1 c(3) False
      by (intro exI [of _ "Inl msg"] exI [of _ frames] exI [of _ s'] exI [of _ ctl'] exI [of _ ?front] exI [of _ v]
            exI [of _ rb] exI [of _ ?bk]) simp
  qed
qed

text \<open>A tier for the examples: one output submodule of one byte, in slot 1 subslot 1.\<close>

definition tier_output :: iocr_config where
  "tier_output = snd (build_iocr_configs [\<lparr>ios_slot = 1, ios_subslot = 1, ios_module_ident = 1,
     ios_submodule_ident = 1, ios_input_length = 1, ios_output_length = 1\<rparr>] 0x8001 0x8002 32 32 3)"

definition tier_controller :: cyclic_controller where
  "tier_controller = sample_controller\<lparr>cc_shared := (cc_shared sample_controller)\<lparr>sh_output_iocr := tier_output,
     sh_output_builder := builder_new tier_output\<rparr>\<rparr>"

definition tier_cfg :: serve_cfg where
  "tier_cfg = \<lparr>sf_read_only = False, sf_gap = 0, sf_keepalive_ms = 0, sf_allow_mask = 0x03, sf_cycle_ms = 32,
     sf_seconds = 0, sf_out_slot = 1, sf_out_subslot = 1, sf_start = 0, sf_debug = (\<lambda>s. quoted s)\<rparr>"

definition quiet_shutdown :: shutdown_in where
  "quiet_shutdown = \<lparr>sd_threads = (\<lambda>k a. []), sd_hold = (\<lambda>k. []), sd_final = [], sd_tx_joined = True,
     sd_sends = [True, True, True]\<rparr>"

definition pass_with :: "recv_in \<Rightarrow> pass_in" where
  "pass_with r = \<lparr>pa_shutdown = False, pa_clock = 0, pa_threads = [], pa_recv = r, pa_recv_clock = 0, pa_host_us = 0,
     pa_paces = (\<lambda>k. (0, 0)), pa_done_clock = 0, pa_threads_req = [], pa_threads_drive = [], pa_tick_clock = 0,
     pa_tick_mark = 0, pa_dead_clock = 0, pa_status_clock = 0, pa_status_mark = 0\<rparr>"

lemma tier_output_ok: "config_ok tier_output"
  unfolding tier_output_def using build_iocr_configs_ok(2) by (metis prod.collapse)

lemma tier_out_obj:
  "out_obj tier_cfg tier_output = Some \<lparr>obj_slot = 1, obj_subslot = 1, obj_frame_offset = 0, obj_data_length = 1,
     obj_iops_offset = 1, obj_iocs_offset = None\<rparr>" "cfg_data_length tier_output = 40"
  by (simp_all add: out_obj_def tier_cfg_def tier_output_def build_iocr_configs_def Let_def)

lemma tier_controller_ok: "tier_ok tier_cfg tier_output tier_controller"
  "shows_byte tier_cfg tier_output SAFE_OUTPUT_BYTE tier_controller"
proof -
  have b: "builder_ok (builder_new tier_output)" "cdb_config (builder_new tier_output) = tier_output"
    using builder_new_ok [OF tier_output_ok] by (simp_all add: builder_new_def Let_def)
  then show "tier_ok tier_cfg tier_output tier_controller"
    by (simp add: tier_ok_def tier_controller_def sample_controller_def shared_ok_def tier_out_obj)
  show "shows_byte tier_cfg tier_output SAFE_OUTPUT_BYTE tier_controller"
    by (simp add: shows_byte_def tier_controller_def tier_out_obj image_at_def builder_new_def SAFE_OUTPUT_BYTE_def Let_def)
qed

lemma sample_room: "conn_room n (sample_conn rx)" if "n < 2 ^ 32"
  using that sample_conn_ok by (simp add: conn_room_def)

lemma quiet_shutdown_ok: "shutdown_ok quiet_shutdown"
  by (simp add: shutdown_ok_def quiet_shutdown_def)

text \<open>
  C1: A cyclic session never leaves the output held. Whatever the caller sends, the device answers
  and the controller's threads do, the passes of a session run; and when the session stops, for
  any reason, it goes through the safe shutdown: the controller ends Stopped, the AR is released,
  every STOP frame is a valid frame of the output relationship that carries the safe byte with good
  status and ProviderRun cleared, and at least one goes out if the transmit thread handed its socket
  back. The shutdown is reported, with its reason; the process result is success exactly when the
  output was verified, and only if a record read back from the device says so: an output data
  record of full length whose substitute flag is clear and whose control byte is zero. Otherwise
  the alarm line is out and the result is an error. A hard exit is allowed afterwards only if the
  session could never drive a bit or the output was verified.
\<close>

theorem cyclic_session_ends_safe:
  assumes "tier_ok cfg oc ctl" and "shows_byte cfg oc SAFE_OUTPUT_BYTE ctl" and "conn_room (6 * length ps + 11) c"
    and "list_all pass_ok ps" and "shutdown_ok inp" and "list_all plain_event said"
  shows "\<exists>halt s1. serve_loop cfg ps (serve_begin cfg now said c (Some ctl)) = Some (halt, s1)
     \<and> (case halt of
          None \<Rightarrow> serve_session cfg ps inp us (serve_begin cfg now said c (Some ctl)) = Some None
        | Some h \<Rightarrow> (\<exists>res frames s' ctl' front v rb rest.
            serve_session cfg ps inp us (serve_begin cfg now said c (Some ctl)) = Some (Some (res, frames, s'))
          \<and> sv_ctl s' = Some ctl' \<and> sh_state (cc_shared ctl') = Stopped \<and> \<not> co_connected (sv_conn s')
          \<and> (sd_tx_joined inp \<longrightarrow> frames \<noteq> []) \<and> list_all (safe_stop_frame cfg oc) frames
          \<and> sv_out s' = front @ [LSafeShutdown (stop_reason h) v rb]
               @ (if v then [] else [LAlarm (stop_reason h) rb]) @ rest
          \<and> sv_hard_exit_ok s' = (v \<or> sf_allow_mask cfg = 0)
          \<and> (case res of Inr code \<Rightarrow> v \<and> code = exit_code h | Inl _ \<Rightarrow> \<not> v)
          \<and> (v \<longrightarrow> (\<exists>d. rb = hex_encode d \<and> read_back cfg c d \<and> 12 \<le> length d \<and> d ! 0 = 0 \<and> d ! 1 = 0x16
               \<and> rd16 d 6 = 0 \<and> rd16 d 10 \<noteq> 0 \<and> 12 + unat (d ! 8) < length d \<and> d ! (12 + unat (d ! 8)) = 0))))"
proof -
  let ?s = "serve_begin cfg now said c (Some ctl)"
  have b: "serve_ok cfg oc ?s" using serve_begin_ok [of "Some ctl"] assms(1,2,6) by blast
  have r: "conn_room (6 * length ps + 11) (sv_conn ?s)" using assms(3) by (simp add: serve_begin_def)
  obtain halt s1 where 1: "serve_loop cfg ps ?s = Some (halt, s1)" "serves cfg oc 11 ?s s1"
    using serve_loop_runs [OF b r assms(4)] by blast
  have s1: "serve_ok cfg oc s1" "conn_room 11 (sv_conn s1)" "conn_step\<^sup>*\<^sup>* c (sv_conn s1)" "sv_ctl s1 \<noteq> None"
    using 1(2) by (simp_all add: serves_def serve_begin_def)
  then obtain ctl1 where c1: "sv_ctl s1 = Some ctl1" by blast
  show ?thesis
  proof (cases halt)
    case None
    then show ?thesis using 1(1) by (simp add: serve_session_def)
  next
    case (Some h)
    obtain res frames s' ctl' front v rb rest where e: "serve_end cfg inp us h s1 = Some (res, frames, s')"
      "sv_ctl s' = Some ctl'" "sh_state (cc_shared ctl') = Stopped" "\<not> co_connected (sv_conn s')"
      "sd_tx_joined inp \<longrightarrow> frames \<noteq> []" "list_all (safe_stop_frame cfg oc) frames"
      "sv_out s' = front @ [LSafeShutdown (stop_reason h) v rb] @ (if v then [] else [LAlarm (stop_reason h) rb]) @ rest"
      "sv_hard_exit_ok s' = (v \<or> sf_allow_mask cfg = 0)"
      "case res of Inr code \<Rightarrow> v \<and> code = exit_code h | Inl _ \<Rightarrow> \<not> v"
      "v \<longrightarrow> (\<exists>d. rb = hex_encode d \<and> proves_safe d = Some True \<and> read_back cfg (sv_conn s1) d)"
      using serve_end_runs [OF s1(1) c1 s1(2) assms(5), of us h] by (elim exE conjE) (rule that)
    have v: "v \<longrightarrow> (\<exists>d. rb = hex_encode d \<and> read_back cfg c d \<and> 12 \<le> length d \<and> d ! 0 = 0 \<and> d ! 1 = 0x16
               \<and> rd16 d 6 = 0 \<and> rd16 d 10 \<noteq> 0 \<and> 12 + unat (d ! 8) < length d \<and> d ! (12 + unat (d ! 8)) = 0)"
      using e(10) read_back_later [OF s1(3)] unfolding proves_safe_eq by auto
    have "serve_session cfg ps inp us ?s = Some (Some (res, frames, s'))"
      using 1(1) Some e(1) by (simp add: serve_session_def)
    then show ?thesis unfolding 1(1) Some
      by (intro exI [of _ "Some h"] exI [of _ s1] conjI refl, unfold option.case, intro exI conjI) (rule e(2-9) v | assumption)+
  qed
qed

lemma run_status_bits: "RUN_STATUS AND DATA_STATUS_PROVIDER_RUN \<noteq> 0" "RUN_STATUS AND DATA_STATUS_VALID \<noteq> 0"
  by (simp_all add: RUN_STATUS_def DATA_STATUS_VALID_def DATA_STATUS_STATION_OK_def
      DATA_STATUS_STATE_def DATA_STATUS_PROVIDER_RUN_def)


lemma closed_session:
  "serve_loop tier_cfg [pass_with RecvClosed] (serve_begin tier_cfg now said c (Some tier_controller))
     = Some (Some (StopReason ''stdin_eof''), serve_begin tier_cfg now said c (Some tier_controller))"
  by (simp add: serve_pass_def pass_with_def run_threads_def serve_begin_def tier_cfg_def cyclic_abort_reason_def
      tier_controller_def sample_controller_def serve_recv_def Let_def)

theorem cyclic_session_ends_safe_witness:
  "\<exists>res frames s'. serve_session tier_cfg [pass_with RecvClosed] quiet_shutdown 0
       (serve_begin tier_cfg 0 [] (sample_conn []) (Some tier_controller)) = Some (Some (res, frames, s'))
     \<and> frames \<noteq> [] \<and> \<not> co_connected (sv_conn s')"
proof -
  have p: "list_all pass_ok [pass_with RecvClosed]" by (simp add: pass_ok_def pass_with_def)
  have r: "conn_room (6 * length [pass_with RecvClosed] + 11) (sample_conn [])" by (intro sample_room) simp
  have j: "sd_tx_joined quiet_shutdown" by (simp add: quiet_shutdown_def)
  obtain halt s1 where 1: "serve_loop tier_cfg [pass_with RecvClosed] (serve_begin tier_cfg 0 [] (sample_conn []) (Some tier_controller))
      = Some (halt, s1)"
    and 2: "case halt of None \<Rightarrow> True
      | Some h \<Rightarrow> (\<exists>res frames s'. serve_session tier_cfg [pass_with RecvClosed] quiet_shutdown 0
          (serve_begin tier_cfg 0 [] (sample_conn []) (Some tier_controller)) = Some (Some (res, frames, s'))
          \<and> frames \<noteq> [] \<and> \<not> co_connected (sv_conn s'))"
    using cyclic_session_ends_safe [OF tier_controller_ok r p quiet_shutdown_ok, of "[]" 0 0] j
    by (auto split: option.splits)
  then show ?thesis using closed_session [of 0 "[]" "sample_conn []"] by simp
qed

text \<open>A session in which the caller sets bit 0, and one transmission after it.\<close>

definition set_bit_line :: string where
  "set_bit_line = ''{'' @ quoted ''cmd'' @ '':'' @ quoted ''set_level'' @ '','' @ quoted ''mask'' @ '':1,''
     @ quoted ''on'' @ '':true}''"

lemma set_bit_parses: "parse_serve_line set_bit_line = Some (Inr (ControlLine (SetLevel 1 True)))"
  by code_simp


section \<open>One answer to every request\<close>

text \<open>The request id a line carries.\<close>

definition answer_id :: "event \<Rightarrow> nat option" where
  "answer_id e =
     (case e of LBye i \<Rightarrow> Some i | LPong i _ \<Rightarrow> Some i | LData i _ _ _ \<Rightarrow> Some i | LOk i _ \<Rightarrow> Some i
      | LReadError i _ _ _ \<Rightarrow> Some i | LTransportError i _ _ \<Rightarrow> Some i | LRefusedReadOnly i \<Rightarrow> Some i | _ \<Rightarrow> None)"

lemma answer_id_error [simp]: "answer_id (serve_error_event i us e) = Some i"
  by (simp add: answer_id_def serve_error_event_def split: option.split)

text \<open>How a request ends: the answer line, and what becomes of the session.\<close>

definition answered :: "nat \<Rightarrow> serve_stop option \<Rightarrow> event \<Rightarrow> bool" where
  "answered i st ev \<longleftrightarrow> answer_id ev = Some i
     \<and> (case st of
          None \<Rightarrow> ev \<noteq> LBye i \<and> (\<forall>us e. ev \<noteq> LTransportError i us e \<or> \<not> is_transport_failure e)
        | Some (StopReason r) \<Rightarrow> ev = LBye i
        | Some (StopArLost e) \<Rightarrow> is_transport_failure e \<and> (\<exists>us. ev = LTransportError i us e))"

lemma serve_answer_answered:
  assumes "op_ok op" and "conn_room (5 + m) (sv_conn s)"
    and "\<And>v. answer_id (answer v) = Some i \<and> answer v \<noteq> LBye i \<and> (\<forall>us e. answer v \<noteq> LTransportError i us e)"
  shows "\<exists>st s' ev. serve_answer cfg p i op answer s = Some (st, s') \<and> sv_out s' = sv_out s @ [ev] \<and> answered i st ev"
proof -
  obtain r mark c where 1: "serve_rpc (pa_paces p) (sf_gap cfg) op (sv_last_request s) (sv_conn s) = Some (r, mark, c)"
    using serve_rpc_runs [OF assms(1,2)] by blast
  show ?thesis
  proof (cases r)
    case (Inr v)
    then show ?thesis using 1 assms(3) [of v] by (auto simp: serve_answer_def answered_def Let_def)
  next
    case (Inl e)
    show ?thesis
    proof (cases "is_transport_failure e")
      case True
      then show ?thesis using 1 Inl transport_failure_event [OF True]
        by (auto simp: serve_answer_def answered_def answer_id_def Let_def)
    next
      case False
      then show ?thesis using 1 Inl
        by (auto simp: serve_answer_def answered_def Let_def)
           (auto simp: serve_error_event_def split: option.splits)
    qed
  qed
qed

text \<open>
  C35: Every request gets exactly one answer. Whatever the device does, handling a request ends, puts
  exactly one line on stdout, and that line carries the request's id. The session goes on after
  data, an acknowledgment, a pong, a refusal and the device's own no; it ends only after a \<open>quit\<close>
  (answered by \<open>bye\<close>) or an error that means the connection is gone (answered by \<open>transport_error\<close>
  with that error). A write to a read-only server is refused without touching the connection.
\<close>

theorem request_answered_once:
  assumes "conn_room 5 (sv_conn s)"
  shows "\<exists>st s' ev. serve_request cfg p cmd s = Some (st, s') \<and> sv_out s' = sv_out s @ [ev]
     \<and> answered (serve_cmd_id cmd) st ev
     \<and> (sf_read_only cfg \<and> (\<exists>i x sl ss d. cmd = ServeWrite i x sl ss d) \<longrightarrow>
          st = None \<and> s' = say [LRefusedReadOnly (serve_cmd_id cmd)] s)"
proof -
  have r: "conn_room (5 + 0) (sv_conn s)" using assms by simp
  show ?thesis
  proof (cases cmd)
    case (ServeRead i index slot subslot len)
    then show ?thesis
      using serve_answer_answered [OF read_op_ok r, of "\<lambda>d. LData i (pa_host_us p) (length d) (hex_encode d)" i cfg p index slot subslot len]
      by (simp add: serve_request_def serve_cmd_id_def answer_id_def)
  next
    case (ServeWrite i index slot subslot data)
    show ?thesis
    proof (cases "sf_read_only cfg")
      case True
      then show ?thesis using ServeWrite
        by (simp add: serve_request_def serve_cmd_id_def answered_def answer_id_def)
    next
      case False
      then show ?thesis
        using ServeWrite serve_answer_answered [OF write_op_ok r, of "\<lambda>_. LOk i (pa_host_us p)" i cfg p index slot subslot data]
        by (simp add: serve_request_def serve_cmd_id_def answer_id_def)
    qed
  qed (auto simp: serve_request_def serve_cmd_id_def answered_def answer_id_def)
qed

theorem request_answered_once_witness:
  "\<exists>st s' ev. serve_request tier_cfg (pass_with RecvTimeout) (ServeRead 7 0xAFF0 0 1 64)
       (serve_begin tier_cfg 0 [] (sample_conn []) None) = Some (st, s') \<and> sv_out s' = [ev] \<and> answer_id ev = Some 7"
proof -
  have "conn_room 5 (sv_conn (serve_begin tier_cfg 0 [] (sample_conn []) None))"
    using sample_room [of 5 "[]"] by (simp add: serve_begin_def)
  from request_answered_once [OF this, of tier_cfg "pass_with RecvTimeout" "ServeRead 7 0xAFF0 0 1 64"]
  show ?thesis by (auto simp: serve_begin_def answered_def serve_cmd_id_def)
qed

end
