(* ===== verification/Cli.thy ===== *)
theory Cli
  imports ServeCmd Device Room
begin

text \<open>
  The one-shot commands of \<open>src/bin/profinet.rs\<close>: the DCP SET and GET commands, discovery, the
  record reads and writes, and the set-up every command shares (resolving a station, choosing a
  source address, opening a connection). What a command puts out is a list of lines, each on
  stdout as text, on stderr, or an event of \<open>Lines\<close>. What the network and the operating system do
  is an argument: the outcomes of the socket calls, the captured frames with the clock, the random
  numbers. \<open>None\<close> is a panic.
\<close>

datatype out_line = Out string | Warn string | Json event

section \<open>Arguments\<close>

datatype cli_error =
    CText string
  | CIndex string
  | CHex hex_error
  | CAddr util_error
  | CCapture pcap_error
  | CNotFound string
  | CNameTooLong nat
  | CFailed string cli_error
  | CGsdml gsdml_error
  | CArg arg_error
  | CPaced string paced_error
  | CController controller_error
  | CNoInputs string
  | CNoSubmodule string u16 u16
  | CMismatch string nat u16 u16 nat
  | CNoOutputFrame u16

definition prefixed :: "string \<Rightarrow> string option" where
  "prefixed s = (case strip_prefix ''0x'' s of Some r \<Rightarrow> Some r | None \<Rightarrow> strip_prefix ''0X'' s)"

definition parse_index :: "string \<Rightarrow> cli_error + u16" where
  "parse_index s =
     (case (case prefixed s of Some hex \<Rightarrow> from_str_radix 65535 16 hex | None \<Rightarrow> from_str_radix 65535 10 s) of
        Some v \<Rightarrow> Inr (of_nat v)
      | None \<Rightarrow> Inl (CIndex s))"

definition parse_ipv4 :: "string \<Rightarrow> cli_error + bytes" where
  "parse_ipv4 s = map_sum CAddr id (ip2s s)"

definition target_mac :: "string \<Rightarrow> cli_error + bytes" where
  "target_mac s = map_sum CAddr id (s2mac s)"

definition random_error :: "string \<Rightarrow> string" where
  "random_error e = ''getrandom failed: '' @ e"

text \<open>\<open>gen_xid\<close>, from the generator's bytes.\<close>

definition gen_xid :: "string + bytes \<Rightarrow> cli_error + u32" where
  "gen_xid rnd = (case rnd of Inl e \<Rightarrow> Inl (CText (random_error e)) | Inr b \<Rightarrow> Inr (from_be32 (b ! 0) (b ! 1) (b ! 2) (b ! 3)))"

datatype param = ParamName | ParamIp

definition param_name :: "param \<Rightarrow> string" where
  "param_name p = (case p of ParamName \<Rightarrow> ''name'' | ParamIp \<Rightarrow> ''ip'')"

definition RESET_QUALIFIER_APPLICATION_DATA :: u16 where "RESET_QUALIFIER_APPLICATION_DATA = 0x0002"
definition RESET_QUALIFIER_COMMUNICATION_PARAM :: u16 where "RESET_QUALIFIER_COMMUNICATION_PARAM = 0x0004"
definition RESET_QUALIFIER_ENGINEERING_PARAM :: u16 where "RESET_QUALIFIER_ENGINEERING_PARAM = 0x0006"
definition RESET_QUALIFIER_ALL_STORED_DATA :: u16 where "RESET_QUALIFIER_ALL_STORED_DATA = 0x0008"
definition RESET_QUALIFIER_TO_FACTORY :: u16 where "RESET_QUALIFIER_TO_FACTORY = 0x0010"
definition RESET_QUALIFIER_AND_RESTORE :: u16 where "RESET_QUALIFIER_AND_RESTORE = 0x0012"
definition DCP_MAX_NAME_LENGTH :: nat where "DCP_MAX_NAME_LENGTH = 240"

datatype reset_mode = Application | Communication | Engineering | AllData | Factory | Restore | LegacyFactory

definition reset_qualifier :: "reset_mode \<Rightarrow> u16 option" where
  "reset_qualifier m =
     (case m of
        Application \<Rightarrow> Some RESET_QUALIFIER_APPLICATION_DATA
      | Communication \<Rightarrow> Some RESET_QUALIFIER_COMMUNICATION_PARAM
      | Engineering \<Rightarrow> Some RESET_QUALIFIER_ENGINEERING_PARAM
      | AllData \<Rightarrow> Some RESET_QUALIFIER_ALL_STORED_DATA
      | Factory \<Rightarrow> Some RESET_QUALIFIER_TO_FACTORY
      | Restore \<Rightarrow> Some RESET_QUALIFIER_AND_RESTORE
      | LegacyFactory \<Rightarrow> None)"

definition reset_mode_request :: "reset_mode \<Rightarrow> bytes \<Rightarrow> bytes \<Rightarrow> u32 \<Rightarrow> bytes" where
  "reset_mode_request m src_mac dst_mac xid =
     (case reset_qualifier m of
        Some q \<Rightarrow> reset_request src_mac dst_mac xid q
      | None \<Rightarrow> factory_reset_request src_mac dst_mac xid)"

definition reset_action :: "reset_mode \<Rightarrow> dcp_action" where
  "reset_action m = (case m of LegacyFactory \<Rightarrow> FactoryReset | _ \<Rightarrow> Reset)"

definition reset_mode_str :: "reset_mode \<Rightarrow> string" where
  "reset_mode_str m =
     (case m of
        Application \<Rightarrow> ''application'' | Communication \<Rightarrow> ''communication'' | Engineering \<Rightarrow> ''engineering''
      | AllData \<Rightarrow> ''all-data'' | Factory \<Rightarrow> ''factory'' | Restore \<Rightarrow> ''restore'' | LegacyFactory \<Rightarrow> ''legacy-factory'')"

section \<open>DCP SET commands\<close>

text \<open>The error texts of \<open>dcp.rs\<close> and \<open>util.rs\<close> a SET response can be refused with.\<close>

definition eth_error_text :: "util_error \<Rightarrow> string" where
  "eth_error_text e =
     (case e of
        FrameTooShort n \<Rightarrow> ''frame too short for Ethernet header: '' @ dec_nat n @ '' bytes''
      | VlanTooShort \<Rightarrow> ''VLAN frame too short''
      | UnexpectedInnerEtherType t \<Rightarrow> ''unexpected inner EtherType: 0x'' @ hex_upper 4 (unat t)
      | UnexpectedEtherType t \<Rightarrow> ''unexpected EtherType: 0x'' @ hex_upper 4 (unat t)
      | _ \<Rightarrow> [])"

definition set_error_text :: "dcp_error \<Rightarrow> string" where
  "set_error_text e =
     (case e of
        EthError u \<Rightarrow> eth_error_text u
      | ServiceNotSupported \<Rightarrow> ''DCP SET: service not supported by device''
      | _ \<Rightarrow> [])"

definition block_error_text :: "u8 \<Rightarrow> string" where
  "block_error_text code =
     (case block_error_name code of KnownName s \<Rightarrow> s | UnknownName n \<Rightarrow> ''Unknown error (0x'' @ hex_upper 2 n @ '')'')"

definition set_code_answer :: "u8 \<Rightarrow> set_answer" where
  "set_code_answer code =
     (if code = DCP_BLOCK_ERROR_OK then SetDone else SetRefused (Some code) (block_error_text code))"

text \<open>
  The link of one command: opening the capture and sending succeed or not, and the receive calls
  are the clock at the top of the loop with the outcome, as in \<open>Pcap\<close>. The list ends when the clock
  has reached the deadline.
\<close>

record dcp_link =
  dl_open :: "pcap_error + unit"
  dl_send :: "pcap_error + unit"
  dl_deadline :: nat
  dl_events :: "(nat \<times> recv_event) list"

fun set_loop :: "bytes \<Rightarrow> u32 \<Rightarrow> nat \<Rightarrow> (nat \<times> recv_event) list \<Rightarrow> (cli_error + set_answer) option" where
  "set_loop my_mac xid deadline [] = Some (Inr SetTimeout)"
| "set_loop my_mac xid deadline ((now, ev) # rest) =
     (if deadline \<le> now then Some (Inr SetTimeout)
      else (case ev of
          RecvError e \<Rightarrow> Some (Inl (CCapture e))
        | RecvNothing \<Rightarrow> Some (Inr SetTimeout)
        | RecvFrame frame \<Rightarrow>
            (if length frame < 14 then set_loop my_mac xid deadline rest
             else do {
               dst \<leftarrow> sub_slice frame 0 6;
               (if dst \<noteq> my_mac then set_loop my_mac xid deadline rest
                else do {
                  r \<leftarrow> parse_set_response frame xid;
                  (case r of
                     Inr (Some code) \<Rightarrow> Some (Inr (set_code_answer code))
                   | Inr None \<Rightarrow> set_loop my_mac xid deadline rest
                   | Inl e \<Rightarrow> Some (Inr (SetRefused None (set_error_text e)))) }) })))"

text \<open>The result and the frames handed to the socket.\<close>

definition dcp_set_roundtrip :: "dcp_link \<Rightarrow> bytes \<Rightarrow> bytes \<Rightarrow> ((cli_error + set_answer) \<times> bytes list) option" where
  "dcp_set_roundtrip l my_mac request = do {
     x \<leftarrow> parse_dcp_xid request;
     (case x of
        None \<Rightarrow> Some (Inl (CText ''malformed DCP request''), [])
      | Some xid \<Rightarrow>
          (case rbind (dl_open l) (\<lambda>_. dl_send l) of
             Inl e \<Rightarrow> Some (Inl (CCapture e), if isl (dl_open l) then [] else [request])
           | Inr _ \<Rightarrow> map_option (\<lambda>r. (r, [request])) (set_loop my_mac xid (dl_deadline l) (dl_events l)))) }"

definition report_set ::
    "bool \<Rightarrow> dcp_action \<Rightarrow> bytes \<Rightarrow> set_answer \<Rightarrow> string \<Rightarrow> string \<Rightarrow> (cli_error + int) \<times> out_line list" where
  "report_set json action mac answer done_text failed =
     (if json then (Inr 0, [Json (LResult action mac answer)])
      else (case answer of
          SetDone \<Rightarrow> (Inr 0, [Out done_text])
        | SetRefused _ text \<Rightarrow> (Inl (CText (failed @ '': '' @ text)), [])
        | SetTimeout \<Rightarrow> (Inr 1, [Out (failed @ '' (timeout)'')])))"

text \<open>What a command does: its result, its lines, the frames it sent.\<close>

type_synonym dcp_run = "((cli_error + int) \<times> out_line list \<times> bytes list) option"

record dcp_set =
  ds_my_mac :: bytes
  ds_json :: bool

definition banner :: "dcp_set \<Rightarrow> string \<Rightarrow> out_line list" where
  "banner st text = (if ds_json st then [] else [Out text])"

definition set_send ::
    "dcp_set \<Rightarrow> dcp_link \<Rightarrow> dcp_action \<Rightarrow> bytes \<Rightarrow> bytes \<Rightarrow> out_line list \<Rightarrow> string \<Rightarrow> string \<Rightarrow> dcp_run" where
  "set_send st l action dst request said done_text failed = do {
     (r, frames) \<leftarrow> dcp_set_roundtrip l (ds_my_mac st) request;
     (case r of
        Inl e \<Rightarrow> Some (Inl (CFailed failed e), said, frames)
      | Inr answer \<Rightarrow>
          (let (res, ls) = report_set (ds_json st) action dst answer done_text failed in Some (res, said @ ls, frames))) }"

text \<open>A step before the request fails the command without a line or a frame.\<close>

definition set_prep :: "cli_error + 'a \<Rightarrow> ('a \<Rightarrow> dcp_run) \<Rightarrow> dcp_run" where
  "set_prep r f = (case r of Inl e \<Rightarrow> Some (Inl e, [], []) | Inr x \<Rightarrow> f x)"

definition string_bytes :: "string \<Rightarrow> bytes" where
  "string_bytes s = map (\<lambda>c. of_nat (byte_of c)) s"

definition cmd_set_param :: "dcp_set \<Rightarrow> dcp_link \<Rightarrow> string + bytes \<Rightarrow> string \<Rightarrow> string \<Rightarrow> bool \<Rightarrow> dcp_run" where
  "cmd_set_param st l rnd target val permanent =
     set_prep (target_mac target) (\<lambda>dst.
       if DCP_MAX_NAME_LENGTH < length val then Some (Inl (CNameTooLong (length val)), [], [])
       else set_prep (gen_xid rnd) (\<lambda>xid.
         set_send st l SetName dst (set_name_request_qualified (ds_my_mac st) dst xid (string_bytes val) permanent) []
           (''Set name = '' @ val) ''Failed to set name''))"

definition cmd_set_ip ::
    "dcp_set \<Rightarrow> dcp_link \<Rightarrow> string + bytes \<Rightarrow> string \<Rightarrow> string \<Rightarrow> string \<Rightarrow> string \<Rightarrow> bool \<Rightarrow> dcp_run" where
  "cmd_set_ip st l rnd target ip netmask gateway permanent =
     set_prep (target_mac target) (\<lambda>dst.
     set_prep (gen_xid rnd) (\<lambda>xid.
     set_prep (parse_ipv4 ip) (\<lambda>i.
     set_prep (parse_ipv4 netmask) (\<lambda>m.
     set_prep (parse_ipv4 gateway) (\<lambda>g.
       set_send st l SetIp dst (set_ip_request_qualified (ds_my_mac st) dst xid i m g permanent)
         (banner st (''Setting IP '' @ ip @ '' on '' @ target @ ''...''))
         (''Set IP='' @ ip @ '' netmask='' @ netmask @ '' gateway='' @ gateway) ''Failed to set IP'')))))"

definition cmd_signal :: "dcp_set \<Rightarrow> dcp_link \<Rightarrow> string + bytes \<Rightarrow> string \<Rightarrow> dcp_run" where
  "cmd_signal st l rnd target =
     set_prep (target_mac target) (\<lambda>dst.
     set_prep (gen_xid rnd) (\<lambda>xid.
       set_send st l Signal dst (signal_request (ds_my_mac st) dst xid 3000)
         (banner st (''Signalling device '' @ target @ ''...'')) ''Device LED flash triggered'' ''Failed to signal device''))"

definition cmd_reset :: "dcp_set \<Rightarrow> dcp_link \<Rightarrow> string + bytes \<Rightarrow> string \<Rightarrow> reset_mode \<Rightarrow> dcp_run" where
  "cmd_reset st l rnd target mode =
     set_prep (target_mac target) (\<lambda>dst.
     set_prep (gen_xid rnd) (\<lambda>xid.
       set_send st l (reset_action mode) dst (reset_mode_request mode (ds_my_mac st) dst xid)
         (banner st (''Resetting device '' @ target @ '' (mode: '' @ reset_mode_str mode @ '')...''))
         ''Reset command acknowledged'' ''Failed to reset device''))"

section \<open>DCP GET\<close>

fun get_loop :: "bytes \<Rightarrow> u8 \<Rightarrow> u8 \<Rightarrow> u32 \<Rightarrow> nat \<Rightarrow> (nat \<times> recv_event) list \<Rightarrow> (cli_error + bytes option) option" where
  "get_loop my_mac opt subopt xid deadline [] = Some (Inr None)"
| "get_loop my_mac opt subopt xid deadline ((now, ev) # rest) =
     (if deadline \<le> now then Some (Inr None)
      else (case ev of
          RecvError e \<Rightarrow> Some (Inl (CCapture e))
        | RecvNothing \<Rightarrow> Some (Inr None)
        | RecvFrame frame \<Rightarrow>
            (if length frame < 14 then get_loop my_mac opt subopt xid deadline rest
             else do {
               dst \<leftarrow> sub_slice frame 0 6;
               (if dst \<noteq> my_mac then get_loop my_mac opt subopt xid deadline rest
                else do {
                  r \<leftarrow> parse_get_response frame opt subopt xid;
                  (case r of
                     Inr (Some v) \<Rightarrow> Some (Inr (Some v))
                   | Inr None \<Rightarrow> get_loop my_mac opt subopt xid deadline rest
                   | Inl _ \<Rightarrow> get_loop my_mac opt subopt xid deadline rest) }) })))"

definition param_selector :: "param \<Rightarrow> u8 \<times> u8" where
  "param_selector p =
     (case p of
        ParamName \<Rightarrow> (DCP_OPTION_DEVICE, DCP_SUBOPTION_DEVICE_NAME)
      | ParamIp \<Rightarrow> (DCP_OPTION_IP, DCP_SUBOPTION_IP_PARAMETER))"

definition param_text :: "param \<Rightarrow> bytes \<Rightarrow> string" where
  "param_text p val =
     (case p of
        ParamName \<Rightarrow> string_of (from_utf8_lossy val)
      | ParamIp \<Rightarrow> (case s2ip (take (min (length val) 4) val) of Inr s \<Rightarrow> s | Inl _ \<Rightarrow> ''?''))"

definition cmd_get_param :: "bytes \<Rightarrow> dcp_link \<Rightarrow> string + bytes \<Rightarrow> string \<Rightarrow> param \<Rightarrow> dcp_run" where
  "cmd_get_param my_mac l rnd target p =
     set_prep (target_mac target) (\<lambda>dst.
     set_prep (gen_xid rnd) (\<lambda>xid.
       let (opt, subopt) = param_selector p;
           request = get_request my_mac dst xid opt subopt
       in case rbind (dl_open l) (\<lambda>_. dl_send l) of
            Inl e \<Rightarrow> Some (Inl (CCapture e), [], if isl (dl_open l) then [] else [request])
          | Inr _ \<Rightarrow> do {
              r \<leftarrow> get_loop my_mac opt subopt xid (dl_deadline l) (dl_events l);
              Some (case r of
                  Inl e \<Rightarrow> (Inl e, [], [request])
                | Inr (Some v) \<Rightarrow> (Inr 0, [Out (param_text p v)], [request])
                | Inr None \<Rightarrow> (Inr 1, [Out (''Could not read parameter '' @ [CHR 0x27] @ param_name p @ [CHR 0x27])], [request])) }))"

section \<open>Discovery\<close>

definition decode_device_role :: "u8 \<Rightarrow> string list" where
  "decode_device_role role =
     (if role AND 0x01 \<noteq> 0 then [''IO-Device''] else [])
     @ (if role AND 0x02 \<noteq> 0 then [''IO-Controller''] else [])
     @ (if role AND 0x04 \<noteq> 0 then [''IO-Multidevice''] else [])
     @ (if role AND 0x08 \<noteq> 0 then [''PN-Supervisor''] else [])"

definition ip_info_text :: "u16 \<Rightarrow> string" where
  "ip_info_text info =
     (case ip_block_info_name info of KnownName s \<Rightarrow> s | UnknownName n \<Rightarrow> ''Unknown (0x'' @ hex_upper 4 n @ '')'')"

fun join_text :: "string \<Rightarrow> string list \<Rightarrow> string" where
  "join_text sep [] = []"
| "join_text sep [s] = s"
| "join_text sep (s # ss) = s @ sep @ join_text sep ss"

definition print_device :: "dcp_device \<Rightarrow> out_line list" where
  "print_device d =
     (let kind = string_of (from_utf8_lossy (dd_device_type d)); roles = decode_device_role (dd_role d) in
      [Out (''PROFINET Device: '' @ station_name d), Out (''  MAC:     '' @ mac2s (dd_mac d))]
      @ (if kind \<noteq> [] then [Out (''  Type:    '' @ kind)] else [])
      @ [Out (''  IP:      '' @ ip_or_default (dd_ip d)), Out (''  Netmask: '' @ ip_or_default (dd_netmask d)),
         Out (''  Gateway: '' @ ip_or_default (dd_gateway d))]
      @ (case dd_ip_block_info d of
           None \<Rightarrow> [] | Some info \<Rightarrow> if info \<noteq> 0 then [Out (''  IP Info: '' @ ip_info_text info)] else [])
      @ [Out (''  Vendor:  '' @ get_vendor_name (dd_vendor_id d) @ '' (0x'' @ hex_upper 4 (unat (dd_vendor_id d)) @ '')''),
         Out (''  Device:  0x'' @ hex_upper 4 (unat (dd_device_id d)))]
      @ (if roles \<noteq> [] then [Out (''  Role:    '' @ join_text '', '' roles)] else []))"

text \<open>A line break at the front of a printed text is a line of its own.\<close>

definition cmd_discover :: "string \<Rightarrow> bool \<Rightarrow> pcap_error + dcp_device list \<Rightarrow> (cli_error + int) \<times> out_line list" where
  "cmd_discover iface json found =
     (let said = (if json then [] else [Out (''Discovering PROFINET devices on '' @ iface @ ''...'')]) in
      case found of
        Inl e \<Rightarrow> (Inl (CCapture e), said)
      | Inr devices \<Rightarrow>
          (if json then (Inr 0, [Json (LDevices iface devices)])
           else if devices = [] then (Inr 0, said @ [Out ''No devices found''])
           else (Inr 0, said @ [Out [], Out (''Found '' @ dec_nat (length devices) @ '' device(s):''), Out []]
                   @ concat (map (\<lambda>d. print_device d @ [Out []]) devices))))"

section \<open>Stations and source addresses\<close>

text \<open>
  \<open>str::parse::<Ipv4Addr>\<close>: four decimal octets without leading zeros, the same texts as the
  crate's own \<open>ip2s\<close>.
\<close>

definition device_matches :: "dcp_device \<Rightarrow> string \<Rightarrow> bool" where
  "device_matches d target \<longleftrightarrow> station_name d = target \<or> ip2s target = Inr (dd_ip d)"

definition match_device :: "dcp_device list \<Rightarrow> string \<Rightarrow> dcp_device option" where
  "match_device devices target = find (\<lambda>d. device_matches d target) devices"

text \<open>
  What a command finds outside: the operating system's interface list and MAC lookup, the pinned
  source address, whether the process speaks NDJSON, what its k-th scan of the network hears and
  what opening its k-th transport, to a device from a source MAC and address, yields.
\<close>

record scan_link =
  sc_open :: "pcap_error + unit"
  sc_random :: "pcap_error + u32"
  sc_send :: "pcap_error + unit"
  sc_deadline :: nat
  sc_events :: "(nat \<times> recv_event) list"

record net =
  nt_iface :: string
  nt_mac_of :: "string \<Rightarrow> string + bytes option"
  nt_devices :: "string + (string \<times> pcap_address list) list"
  nt_pinned :: "bytes option"
  nt_serve_mode :: bool
  nt_scan :: "nat \<Rightarrow> scan_link"
  nt_open :: "nat \<Rightarrow> bytes \<Rightarrow> bytes \<Rightarrow> dcp_device \<Rightarrow> open_outcome"

text \<open>
  A running command: its lines, whether the note on the source address is out, how many scans and
  openings it has used, how many of the latter gave a transport, the connections it has dropped, and
  the controllers it has stopped on the way out with the frames they sent then.
\<close>

record cli_state =
  cl_out :: "out_line list"
  cl_note_said :: bool
  cl_scans :: nat
  cl_opens :: nat
  cl_opened :: nat
  cl_closed :: "rpc_conn list"
  cl_stopped :: "(bytes list \<times> cyclic_controller) list"

type_synonym 'a cli = "cli_state \<Rightarrow> ((cli_error + 'a) \<times> cli_state) option"

definition ret :: "'a \<Rightarrow> 'a cli" where "ret x s = Some (Inr x, s)"

definition bail :: "cli_error \<Rightarrow> 'a cli" where "bail e s = Some (Inl e, s)"

definition andthen :: "'a cli \<Rightarrow> ('a \<Rightarrow> 'b cli) \<Rightarrow> 'b cli" where
  "andthen m f s = (case m s of None \<Rightarrow> None | Some (Inl e, s1) \<Rightarrow> Some (Inl e, s1) | Some (Inr x, s1) \<Rightarrow> f x s1)"

definition lift :: "cli_error + 'a \<Rightarrow> 'a cli" where "lift r s = Some (r, s)"

definition put :: "out_line list \<Rightarrow> unit cli" where "put ls s = Some (Inr (), s\<lparr>cl_out := cl_out s @ ls\<rparr>)"

definition net_mac :: "net \<Rightarrow> cli_error + bytes" where
  "net_mac n = map_sum CCapture id (get_mac (nt_mac_of n) (nt_iface n))"

definition resolve_device :: "net \<Rightarrow> string \<Rightarrow> dcp_device cli" where
  "resolve_device n target s =
     (let k = nt_scan n (cl_scans s) in do {
        (r, frame) \<leftarrow> discover_until (sc_open k) (get_mac (nt_mac_of n) (nt_iface n)) (sc_random k) (sc_send k)
          (\<lambda>found. list_ex (\<lambda>d. device_matches d target) found) (sc_deadline k) (sc_events k);
        Some (case r of
            Inl e \<Rightarrow> Inl (CCapture e)
          | Inr devices \<Rightarrow> (case match_device devices target of Some d \<Rightarrow> Inr d | None \<Rightarrow> Inl (CNotFound target)),
          s\<lparr>cl_scans := cl_scans s + 1\<rparr>) })"

definition source_address_note :: "source_address \<Rightarrow> bytes \<Rightarrow> string option" where
  "source_address_note chosen dst =
     (if sa_reaches_target chosen then None
      else Some (''source address '' @ ip_or_default (sa_ip chosen) @ '' shares no network with '' @ ip_or_default dst
             @ '': the device answers only if it accepts a source outside its own network''))"

definition chosen_source :: "net \<Rightarrow> bytes \<Rightarrow> cli_error + bytes \<times> string option" where
  "chosen_source n dst =
     (case nt_pinned n of
        Some ip \<Rightarrow> Inr (ip, None)
      | None \<Rightarrow>
          (case get_ipv4_toward (nt_devices n) (nt_iface n) dst of
             Inl e \<Rightarrow> Inl (CCapture e)
           | Inr chosen \<Rightarrow> Inr (sa_ip chosen, source_address_note chosen dst)))"

definition report_source_note :: "net \<Rightarrow> string \<Rightarrow> unit cli" where
  "report_source_note n note s =
     (if cl_note_said s then Some (Inr (), s)
      else put [if nt_serve_mode n then Json (LWarning ''source_address'' note) else Warn (''warning: '' @ note)]
             (s\<lparr>cl_note_said := True\<rparr>))"

definition source_address :: "net \<Rightarrow> bytes \<Rightarrow> bytes cli" where
  "source_address n dst =
     andthen (lift (chosen_source n dst)) (\<lambda>(ip, note).
     andthen (case note of None \<Rightarrow> ret () | Some t \<Rightarrow> report_source_note n t) (\<lambda>_. ret ip))"

section \<open>Connections\<close>

definition RPC_TIMEOUT :: nat where "RPC_TIMEOUT = 5000000000"

definition APP_READY_TIMEOUT :: nat where "APP_READY_TIMEOUT = 15000000000"

definition open_raw :: "net \<Rightarrow> bytes \<Rightarrow> bytes \<Rightarrow> dcp_device \<Rightarrow> rpc_conn cli" where
  "open_raw n cm_mac cm_ip dev s =
     (let k = nt_open n (cl_opens s) cm_mac cm_ip dev; s1 = s\<lparr>cl_opens := cl_opens s + 1\<rparr> in
      Some (case rbind (oo_transport k) (\<lambda>t. with_transport t (dd_device_id dev) (dd_vendor_id dev) RPC_TIMEOUT
                    (oo_key k) (oo_activity k) (oo_ar k)) of
              Inl e \<Rightarrow> (Inl (CText e), s1)
            | Inr c \<Rightarrow> (Inr c, s1\<lparr>cl_opened := cl_opened s1 + 1\<rparr>)))"

text \<open>A connection goes out of scope, or is released and then goes out of scope.\<close>

definition drop_cli :: "rpc_conn \<Rightarrow> unit cli" where
  "drop_cli c s = do { c' \<leftarrow> rc_drop c; Some (Inr (), s\<lparr>cl_closed := cl_closed s @ [c']\<rparr>) }"

definition finish :: "rpc_conn \<Rightarrow> unit cli" where
  "finish c s = do { c' \<leftarrow> release c; drop_cli c' s }"

text \<open>
  A step beside the connection, and an operation of it, under \<open>?\<close>: its error drops the connection.
\<close>

definition guard_conn :: "cli_error + 'a \<Rightarrow> rpc_conn \<Rightarrow> 'a cli" where
  "guard_conn r c = (case r of Inl e \<Rightarrow> andthen (drop_cli c) (\<lambda>_. bail e) | Inr x \<Rightarrow> ret x)"

definition use :: "('e \<Rightarrow> cli_error) \<Rightarrow> (rpc_conn \<Rightarrow> (('e + 'a) \<times> rpc_conn) option) \<Rightarrow> rpc_conn \<Rightarrow> ('a \<times> rpc_conn) cli" where
  "use err m c s = do {
     (r, c') \<leftarrow> m c;
     (case r of
        Inr v \<Rightarrow> Some (Inr (v, c'), s)
      | Inl e \<Rightarrow> andthen (drop_cli c') (\<lambda>_. bail (err e)) s) }"

definition rpc_transport :: "net \<Rightarrow> string \<Rightarrow> rpc_conn cli" where
  "rpc_transport n target =
     andthen (lift (net_mac n)) (\<lambda>cm_mac.
     andthen (resolve_device n target) (\<lambda>dev.
     andthen (source_address n (dd_ip dev)) (\<lambda>cm_ip.
       open_raw n cm_mac cm_ip dev)))"

definition rpc_connect :: "net \<Rightarrow> string \<Rightarrow> rpc_conn cli" where
  "rpc_connect n target =
     andthen (lift (net_mac n)) (\<lambda>cm_mac.
     andthen (rpc_transport n target) (\<lambda>conn.
     andthen (use (\<lambda>e. CText (''Failed to connect to '' @ target @ '': '' @ e))
                (connect_device_access cm_mac CM_STATION_NAME) conn) (\<lambda>(_, c). ret c)))"

section \<open>Record commands\<close>

definition dec16 :: "u16 \<Rightarrow> string" where "dec16 w = dec_nat (unat w)"

definition hex04 :: "u16 \<Rightarrow> string" where "hex04 w = ''0x'' @ hex_upper 4 (unat w)"

definition record_lines :: "bytes \<Rightarrow> out_line list" where
  "record_lines d = [Out (''Read '' @ dec_nat (length d) @ '' bytes:''), Out (hex_encode d)]"

definition cmd_read :: "net \<Rightarrow> string \<Rightarrow> u16 \<Rightarrow> u16 \<Rightarrow> string \<Rightarrow> u32 \<Rightarrow> bool \<Rightarrow> int cli" where
  "cmd_read n target slot subslot index len implicit =
     andthen (lift (parse_index index)) (\<lambda>i.
       if implicit then
         andthen (put [Out (''Reading '' @ target @ '' without an AR (Read Implicit)...'')]) (\<lambda>_.
         andthen (rpc_transport n target) (\<lambda>conn.
         andthen (use CText (read_raw_implicit i slot subslot len) conn) (\<lambda>(d, c).
         andthen (put (record_lines d)) (\<lambda>_.
         andthen (drop_cli c) (\<lambda>_. ret 0)))))
       else
         andthen (put [Out (''Connecting to '' @ target @ ''...'')]) (\<lambda>_.
         andthen (rpc_connect n target) (\<lambda>conn.
         andthen (use CText (read_raw i slot subslot len) conn) (\<lambda>(d, c).
         andthen (finish c) (\<lambda>_.
         andthen (put (record_lines d)) (\<lambda>_. ret 0))))))"

definition cmd_write :: "net \<Rightarrow> string \<Rightarrow> u16 \<Rightarrow> u16 \<Rightarrow> string \<Rightarrow> string \<Rightarrow> int cli" where
  "cmd_write n target slot subslot index data_hex =
     andthen (put [Out (''Connecting to '' @ target @ ''...'')]) (\<lambda>_.
     andthen (lift (parse_index index)) (\<lambda>i s.
       do { h \<leftarrow> parse_hex data_hex;
            andthen (lift (map_sum CHex id h)) (\<lambda>d.
            andthen (rpc_connect n target) (\<lambda>conn.
            andthen (use CText (rc_write i slot subslot d) conn) (\<lambda>(_, c).
            andthen (finish c) (\<lambda>_.
            andthen (put [Out (''Wrote '' @ dec_nat (length d) @ '' bytes to slot='' @ dec16 slot @ '' subslot=''
                       @ dec16 subslot @ '' index='' @ hex04 i)]) (\<lambda>_. ret 0))))) s }))"

definition print_filter :: "inm0_filter \<Rightarrow> out_line list" where
  "print_filter m =
     [Out [], Out ''Device Topology:'']
     @ concat (map (\<lambda>(api, modules).
         [Out [], Out (''API '' @ dec_nat (unat api) @ '':'')]
         @ concat (map (\<lambda>(slot, ident, subslots).
             Out (''  Slot '' @ dec16 slot @ '': Module 0x'' @ hex_min 4 (unat ident))
             # map (\<lambda>(subslot, sident).
                 Out (''    Subslot '' @ dec16 subslot @ '': Submodule 0x'' @ hex_min 4 (unat sident))) subslots) modules)) m)"

definition cmd_read_inm0_filter :: "net \<Rightarrow> string \<Rightarrow> int cli" where
  "cmd_read_inm0_filter n target =
     andthen (put [Out (''Connecting to '' @ target @ ''...'')]) (\<lambda>_.
     andthen (rpc_connect n target) (\<lambda>conn.
     andthen (use CText read_inm0_filter conn) (\<lambda>(m, c).
     andthen (finish c) (\<lambda>_.
     andthen (put (print_filter m)) (\<lambda>_. ret 0)))))"

definition lossy :: "bytes \<Rightarrow> string" where "lossy b = string_of (from_utf8_lossy b)"

definition print_im0 :: "in_m0 \<Rightarrow> out_line list" where
  "print_im0 m =
     [Out ''IM0 (identification):'',
      Out (''  Vendor ID:         '' @ hex04 (im0_vendor_id m) @ '' ('' @ get_vendor_name (im0_vendor_id m) @ '')''),
      Out (''  Order ID:          '' @ lossy (order_id_str m)),
      Out (''  Serial number:     '' @ lossy (serial_number_str m)),
      Out (''  Hardware revision: '' @ dec16 (im0_hardware_revision m)),
      Out (''  Software revision: '' @ software_revision m),
      Out (''  Revision counter:  '' @ dec16 (im0_revision_counter m)),
      Out (''  Profile ID:        '' @ hex04 (im0_profile_id m)),
      Out (''  IM supported:      '' @ hex04 (im0_supported m))]"

definition print_im1 :: "in_m1 \<Rightarrow> out_line list" where
  "print_im1 m =
     [Out ''IM1 (tag):'', Out (''  Tag function:      '' @ lossy (tag_function_str m)),
      Out (''  Tag location:      '' @ lossy (tag_location_str m))]"

definition print_im2 :: "in_m2 \<Rightarrow> out_line list" where
  "print_im2 m = [Out ''IM2 (date):'', Out (''  Installation date: '' @ lossy (date_str m))]"

definition print_im3 :: "in_m3 \<Rightarrow> out_line list" where
  "print_im3 m = [Out ''IM3 (descriptor):'', Out (''  Descriptor:        '' @ lossy (descriptor_str m))]"

text \<open>The read of one of the four records, as the lines it prints.\<close>

definition read_inm :: "u16 \<Rightarrow> u16 \<Rightarrow> u16 \<Rightarrow> out_line list io" where
  "read_inm index slot subslot =
     (if index = IM0 then cbind (read_im0 slot subslot) (\<lambda>m. pure_io (Some (Inr (print_im0 m))))
      else if index = IM1 then cbind (read_im1 slot subslot) (\<lambda>m. pure_io (Some (Inr (print_im1 m))))
      else if index = IM2 then cbind (read_im2 slot subslot) (\<lambda>m. pure_io (Some (Inr (print_im2 m))))
      else cbind (read_im3 slot subslot) (\<lambda>m. pure_io (Some (Inr (print_im3 m)))))"

text \<open>\<open>debug_env\<close>: whether \<open>PROFINET_DEBUG\<close> is set. \<open>idx - im::IM0\<close> is at most 3 for the four commands.\<close>

definition cmd_read_inm :: "net \<Rightarrow> bool \<Rightarrow> string \<Rightarrow> u16 \<Rightarrow> u16 \<Rightarrow> u16 \<Rightarrow> int cli" where
  "cmd_read_inm n debug_env target slot subslot index =
     andthen (put [Out (''Connecting to '' @ target @ ''...'')]) (\<lambda>_.
     andthen (rpc_connect n target) (\<lambda>conn s.
       do { (r, c) \<leftarrow> read_inm index slot subslot conn;
            (case r of
               Inr ls \<Rightarrow> andthen (put ls) (\<lambda>_. andthen (finish c) (\<lambda>_. ret 0)) s
             | Inl e \<Rightarrow>
                 andthen (finish c) (\<lambda>_.
                 andthen (put (Out (''No IM'' @ dec_nat (unat index - unat IM0) @ '' data available'')
                            # (if debug_env then [Warn (''(read failed: '' @ e @ '')'')] else []))) (\<lambda>_. ret 0)) s) }))"

text \<open>\<open>main\<close>: the exit code of the process.\<close>

definition process_exit :: "cli_error + int \<Rightarrow> int" where
  "process_exit r = (case r of Inr code \<Rightarrow> code | Inl _ \<Rightarrow> 1)"

section \<open>A SET succeeds exactly when the device says so\<close>

text \<open>
  The header of an answer to the SET request with the given transaction id, and what is passed
  over while waiting for it: short frames, frames for someone else, and frames of our own that are
  no response to this request.
\<close>

definition set_ack :: "bytes \<Rightarrow> u32 \<Rightarrow> bytes \<Rightarrow> bool" where
  "set_ack my_mac xid f \<longleftrightarrow> take 6 f = my_mac \<and> (\<exists>p. strip_eth f 0x8892 = Some (Inr p) \<and> 12 \<le> length p
     \<and> rd16 p 0 = 0xFEFD \<and> p ! 2 = 4 \<and> p ! 3 = 1 \<and> rd32 p 4 = xid)"

definition passed_over :: "bytes \<Rightarrow> u32 \<Rightarrow> bytes \<Rightarrow> bool" where
  "passed_over my_mac xid f \<longleftrightarrow> length f < 14 \<or> take 6 f \<noteq> my_mac
     \<or> (\<exists>p. strip_eth f 0x8892 = Some (Inr p)
          \<and> (length p < 12 \<or> rd16 p 0 \<noteq> 0xFEFD \<or> p ! 2 \<noteq> 4 \<or> rd32 p 4 \<noteq> xid \<or> p ! 3 \<noteq> 1 \<and> p ! 3 \<noteq> 5))"

lemma set_response_skipped:
  assumes "strip_eth f 0x8892 = Some (Inr p)"
    and "length p < 12 \<or> rd16 p 0 \<noteq> 0xFEFD \<or> p ! 2 \<noteq> 4 \<or> rd32 p 4 \<noteq> xid \<or> p ! 3 \<noteq> 1 \<and> p ! 3 \<noteq> 5"
  shows "parse_set_response f xid = Some (Inr None)"
  using assms
  by (auto simp: parse_set_response_def dcp_payload_def PROFINET_ETHERTYPE_def be16_at_in be32_at_in
      DCP_GET_SET_FRAME_ID_def DCP_SERVICE_ID_SET_def DCP_SERVICE_TYPE_RESPONSE_SUCCESS_def
      DCP_SERVICE_TYPE_RESPONSE_UNSUPPORTED_def)

lemma set_response_code:
  assumes "parse_set_response f xid = Some (Inr (Some code))"
  shows "\<exists>p. strip_eth f 0x8892 = Some (Inr p) \<and> 12 \<le> length p
     \<and> rd16 p 0 = 0xFEFD \<and> p ! 2 = 4 \<and> p ! 3 = 1 \<and> rd32 p 4 = xid"
proof -
  obtain r where r: "dcp_payload f = Some r" using strip_runs by blast
  obtain p where p: "r = Inr p" using assms by (cases r) (auto simp: parse_set_response_def r)
  then have "strip_eth f 0x8892 = Some (Inr p)"
    using r by (auto simp: dcp_payload_def PROFINET_ETHERTYPE_def split: Option.bind_splits sum.splits)
  with assms p show ?thesis
    by (auto simp: parse_set_response_def r DCP_GET_SET_FRAME_ID_def DCP_SERVICE_ID_SET_def
        DCP_SERVICE_TYPE_RESPONSE_SUCCESS_def split: if_splits)
qed

lemma passed_step:
  assumes "passed_over my_mac xid f" and "t < deadline"
  shows "set_loop my_mac xid deadline ((t, RecvFrame f) # rest) = set_loop my_mac xid deadline rest"
  using assms set_response_skipped [of f _ xid] by (auto simp: passed_over_def)

lemma set_loop_passes:
  assumes "list_all (\<lambda>(t, f). t < deadline \<and> passed_over my_mac xid f) seen"
  shows "set_loop my_mac xid deadline (map (\<lambda>(t, f). (t, RecvFrame f)) seen @ rest) = set_loop my_mac xid deadline rest"
  using assms by (induction seen) (auto simp del: set_loop.simps simp: passed_step)

lemma set_loop_done:
  "\<exists>r. set_loop my_mac xid deadline evs = Some r
     \<and> (r = Inr SetDone \<longrightarrow> (\<exists>t f. (t, RecvFrame f) \<in> set evs \<and> t < deadline \<and> set_ack my_mac xid f
          \<and> parse_set_response f xid = Some (Inr (Some 0))))"
proof (induction evs)
  case (Cons x evs)
  obtain t ev where x: "x = (t, ev)" by (cases x)
  show ?case
  proof (cases "deadline \<le> t")
    case False
    show ?thesis
    proof (cases ev)
      case (RecvFrame f)
      have tot: "parse_set_response f xid \<noteq> None" by (simp add: dcp_parsers_total)
      show ?thesis
      proof (cases "length f < 14 \<or> take 6 f \<noteq> my_mac \<or> parse_set_response f xid = Some (Inr None)")
        case True
        then have "set_loop my_mac xid deadline (x # evs) = set_loop my_mac xid deadline evs"
          using False x RecvFrame by auto
        then show ?thesis using Cons by auto
      next
        case ours: False
        then obtain y where y: "parse_set_response f xid = Some y" "y \<noteq> Inr None" using tot by auto
        have s: "set_loop my_mac xid deadline (x # evs) =
            Some (case y of Inr (Some c) \<Rightarrow> Inr (set_code_answer c) | Inr None \<Rightarrow> Inr SetTimeout
                  | Inl e \<Rightarrow> Inr (SetRefused None (set_error_text e)))"
          using False x RecvFrame ours y by (auto split: sum.split option.split)
        show ?thesis
        proof (cases "\<exists>c. y = Inr (Some c)")
          case True
          then obtain c where c: "y = Inr (Some c)" by blast
          have "set_ack my_mac xid f" using ours set_response_code [of f xid c] y c by (simp add: set_ack_def)
          moreover have "set_code_answer c = SetDone \<Longrightarrow> c = 0" by (auto simp: set_code_answer_def DCP_BLOCK_ERROR_OK_def split: if_splits)
          ultimately show ?thesis using s c y(1) False x RecvFrame
            by (intro exI [of _ "Inr (set_code_answer c)"] conjI impI exI [of _ t] exI [of _ f])
               (simp_all del: set_loop.simps)
        next
          case no: False
          then obtain e where "y = Inl e" using y(2) by (cases y) auto
          then show ?thesis using s by auto
        qed
      qed
    qed (use False x in auto)
  qed (use x in auto)
qed simp

text \<open>The answer of a device to a SET of one block, with the code of the block.\<close>

definition set_answer_frame :: "bytes \<Rightarrow> bytes \<Rightarrow> (u16 \<times> u16) list \<Rightarrow> u32 \<Rightarrow> u8 \<Rightarrow> u8 \<Rightarrow> u8 \<Rightarrow> bytes \<Rightarrow> bytes" where
  "set_answer_frame my_mac dev ts xid opt subopt code pad =
     answer_frame my_mac dev ts DCP_GET_SET_FRAME_ID DCP_SERVICE_ID_SET xid
       [(DCP_OPTION_CONTROL, DCP_SUBOPTION_CONTROL_RESPONSE, from_be16 opt subopt, [code])] pad"

lemma parse_set_answer:
  assumes "length my_mac = 6" and "length dev = 6" and "\<forall>t \<in> set ts. fst t \<in> set VLAN_TPIDS"
  shows "parse_set_response (set_answer_frame my_mac dev ts xid opt subopt code pad) xid = Some (Inr (Some code))"
proof -
  let ?bs = "[(DCP_OPTION_CONTROL, DCP_SUBOPTION_CONTROL_RESPONSE, from_be16 opt subopt, [code])]"
  have ok: "frame_ok my_mac dev ts ?bs"
    using assms by (simp add: frame_ok_def blocks_fit_def block_fits_def length_enc_block)
  have w: "set_response_walk (uint (as_u16 (length (concat (map enc_block ?bs))))) (concat (map enc_block ?bs) @ pad) = Some code"
    by (subst set_response_walk.simps)
       (simp add: enc_block_def to_be16_def as_u16_def be16_at_def from_be16_def sub_slice_def idx_def Let_def)
  show ?thesis
    unfolding parse_set_response_def set_answer_frame_def answer_frame_payload [OF ok] bind.bind_lunit sum.case
      dcp_header_accesses if_False w
    by (simp add: DCP_SERVICE_TYPE_RESPONSE_SUCCESS_def DCP_SERVICE_TYPE_RESPONSE_UNSUPPORTED_def dcp_header_accesses(1) del: not_less)
qed

text \<open>
  C37: A DCP SET command succeeds exactly when the device says so. The request that goes out is the
  only frame sent, and waiting for its answer always ends. It ends in success only on a frame
  received before the deadline that is addressed to us, is a success response to a SET with the
  transaction id of this very request and carries error code 0. Behind any traffic that is no
  response to the request (our own echoed request included) the device's answer decides: its code
  is reported, as success or as a refusal with that code; when nothing else arrives the command
  times out. On the command line exit code 0 means success, and under \<open>--json\<close> the answer is the
  line that is written.
\<close>

theorem dcp_set_exact:
  assumes "length my_mac = 6" and "length dst = 6" and "length v < 65529"
    and "dl_open l = Inr ()" and "dl_send l = Inr ()"
    and "req = set_request my_mac dst xid opt subopt q v"
    and "length dev = 6" and "\<forall>t \<in> set ts. fst t \<in> set VLAN_TPIDS" and "t < dl_deadline l"
    and "list_all (\<lambda>(t, f). t < dl_deadline l \<and> passed_over my_mac xid f) seen"
  shows "(\<exists>r. dcp_set_roundtrip l my_mac req = Some (r, [req])
         \<and> (r = Inr SetDone \<longrightarrow> (\<exists>t f. (t, RecvFrame f) \<in> set (dl_events l) \<and> t < dl_deadline l
              \<and> set_ack my_mac xid f \<and> parse_set_response f xid = Some (Inr (Some 0)))))
     \<and> dcp_set_roundtrip (l\<lparr>dl_events := map (\<lambda>(t, f). (t, RecvFrame f)) seen
           @ (t, RecvFrame (set_answer_frame my_mac dev ts xid opt subopt code pad)) # rest\<rparr>) my_mac req
         = Some (Inr (set_code_answer code), [req])
     \<and> dcp_set_roundtrip (l\<lparr>dl_events := map (\<lambda>(t, f). (t, RecvFrame f)) seen\<rparr>) my_mac req = Some (Inr SetTimeout, [req])
     \<and> passed_over my_mac xid req
     \<and> (\<forall>act ans ok no. (process_exit (fst (report_set False act dst ans ok no)) = 0) = (ans = SetDone)
          \<and> report_set True act dst ans ok no = (Inr 0, [Json (LResult act dst ans)]))"
proof -
  obtain p where p: "strip_eth req 0x8892 = Some (Inr p)" "p ! 3 = 0" "parse_dcp_xid req = Some (Some xid)"
    using dcp_set_request_framed [OF assms(2,1,3), of xid opt subopt q] assms(6) by auto
  have run: "dcp_set_roundtrip (l\<lparr>dl_events := evs\<rparr>) my_mac req
      = map_option (\<lambda>r. (r, [req])) (set_loop my_mac xid (dl_deadline l) evs)" for evs
    using p(3) assms(4,5) by (simp add: dcp_set_roundtrip_def)
  note seen = set_loop_passes [OF assms(10)]
  have x: "take 6 (set_answer_frame my_mac dev ts xid opt subopt code pad) = my_mac"
      "14 \<le> length (set_answer_frame my_mac dev ts xid opt subopt code pad)"
    using assms(1,7) by (simp_all add: set_answer_frame_def answer_frame_def)
  have a: "set_loop my_mac xid (dl_deadline l)
      ((t, RecvFrame (set_answer_frame my_mac dev ts xid opt subopt code pad)) # rest) = Some (Inr (set_code_answer code))"
    using assms(9) x parse_set_answer [OF assms(1,7,8), of xid opt subopt code pad] by simp
  have e: "(process_exit (fst (report_set False act dst ans ok no)) = 0) = (ans = SetDone)" for act ans ok no
    by (cases ans) (simp_all add: report_set_def process_exit_def)
  show ?thesis
  proof (intro conjI allI)
    show "\<exists>r. dcp_set_roundtrip l my_mac req = Some (r, [req])
         \<and> (r = Inr SetDone \<longrightarrow> (\<exists>t f. (t, RecvFrame f) \<in> set (dl_events l) \<and> t < dl_deadline l
              \<and> set_ack my_mac xid f \<and> parse_set_response f xid = Some (Inr (Some 0))))"
      using set_loop_done [of my_mac xid "dl_deadline l" "dl_events l"] run [of "dl_events l"] by auto
    show "passed_over my_mac xid req" using p by (auto simp: passed_over_def)
  qed (use run seen a seen [of "[]"] e in \<open>simp_all add: report_set_def\<close>)
qed

text \<open>Signalling a device: our own request is heard, then a frame of another controller, then its answer.\<close>

lemma dcp_set_exact_witness:
  "let my = [2, 0, 0, 0, 0, 1]; dev = [2, 0, 0, 0, 0, 2]; req = signal_request my dev 7 3000;
       l = \<lparr>dl_open = Inr (), dl_send = Inr (), dl_deadline = 5, dl_events = []\<rparr> in
   dcp_set_roundtrip (l\<lparr>dl_events := [(0, RecvFrame req), (1, RecvFrame (replicate 60 0)),
       (2, RecvFrame (set_answer_frame my dev [] 7 5 3 6 []))]\<rparr>) my req
     = Some (Inr (SetRefused (Some 6) ''In operation, SET not possible''), [req])"
proof -
  let ?my = "[2, 0, 0, 0, 0, 1] :: bytes" and ?dev = "[2, 0, 0, 0, 0, 2] :: bytes"
  let ?l = "\<lparr>dl_open = Inr (), dl_send = Inr (), dl_deadline = 5, dl_events = []\<rparr>"
  have r: "signal_request ?my ?dev 7 3000 = set_request ?my ?dev 7 5 3 1 [0, 30]"
    by (simp add: signal_request_def to_be16_def DCP_OPTION_CONTROL_def DCP_SUBOPTION_CONTROL_SIGNAL_def)
  have o: "passed_over ?my 7 (replicate 60 0)" by (simp add: passed_over_def numeral_eq_Suc)
  have own: "passed_over ?my 7 (set_request ?my ?dev 7 5 3 1 [0, 30])"
  proof -
    obtain p where "strip_eth (set_request ?my ?dev 7 5 3 1 [0, 30]) 0x8892 = Some (Inr p)" "p ! 3 = 0"
      using dcp_set_request_framed [of ?dev ?my "[0, 30]" 7 5 3 1] by auto
    then show ?thesis by (auto simp: passed_over_def)
  qed
  have "list_all (\<lambda>(t, f). t < dl_deadline ?l \<and> passed_over ?my 7 f)
      [(0, set_request ?my ?dev 7 5 3 1 [0, 30]), (1, replicate 60 0)]"
    using o own by simp
  from dcp_set_exact [where dst = ?dev and v = "[0, 30]" and opt = 5 and subopt = 3 and q = 1 and dev = ?dev and ts = "[]"
      and t = 2 and code = 6 and pad = "[]" and rest = "[]", OF _ _ _ _ _ refl _ _ _ this]
  show ?thesis by (simp add: r Let_def set_code_answer_def DCP_BLOCK_ERROR_OK_def block_error_text_def block_error_name_def)
qed

section \<open>Resolving a station\<close>

lemma find_upsert:
  "\<forall>x \<in> set ds. \<not> P x \<Longrightarrow> find P (upsert d ds) = (if P d then Some d else None)"
  by (induction ds) (auto simp: find_None_iff)

lemma answers_of_Cons [simp]: "answers_of [] = []"
  "answers_of (c # cs) = (case answering c of None \<Rightarrow> answers_of cs | Some d \<Rightarrow> d # answers_of cs)"
  by (simp_all add: answers_of_def List.map_filter_simps split: option.split)

text \<open>The loop with the stop condition returns at the first answer that matches.\<close>

lemma discover_first_match:
  assumes "\<forall>x \<in> set tcs. fst x < deadline \<and> capture_ok my_mac xid (snd x)"
    and "\<forall>d \<in> set (accepted my_mac xid frames). \<not> P d"
  shows "\<exists>ds. discover_loop my_mac xid (list_ex P) deadline (heard my_mac xid tcs) frames = Some (Inr ds)
     \<and> find P ds = find P (answers_of (map snd tcs))"
  using assms
proof (induction tcs arbitrary: frames)
  case Nil
  have "\<forall>d \<in> set (latest (accepted my_mac xid frames)). \<not> P d" using Nil.prems(2) latest_facts(3) by blast
  then have "find P (latest (accepted my_mac xid frames)) = None" by (simp add: find_None_iff)
  then show ?case by (simp add: heard_def aggregate_latest)
next
  case (Cons x tcs)
  obtain t c where x: "x = (t, c)" by (cases x)
  let ?f = "capture_frame my_mac xid c" and ?A = "accepted my_mac xid frames"
  have c: "capture_ok my_mac xid c" "\<not> deadline \<le> t" using Cons.prems(1) x by auto
  have acc: "accepted my_mac xid (frames @ [?f]) = ?A @ answers_of [c]"
    using c(1) accepted_captures [of "[c]" my_mac xid] by (simp add: accepted_def List.map_filter_def)
  have none: "\<forall>d \<in> set (latest ?A). \<not> P d" using Cons.prems(2) latest_facts(3) by blast
  have step: "discover_loop my_mac xid (list_ex P) deadline (heard my_mac xid (x # tcs)) frames =
     (if list_ex P (latest (?A @ answers_of [c])) then Some (Inr (latest (?A @ answers_of [c])))
      else discover_loop my_mac xid (list_ex P) deadline (heard my_mac xid tcs) (frames @ [?f]))"
    using c(2) by (simp add: x heard_def aggregate_latest acc)
  show ?case
  proof (cases "\<exists>d. answering c = Some d \<and> P d")
    case True
    then obtain d where d: "answering c = Some d" "P d" by blast
    have f: "find P (latest (?A @ [d])) = Some d" using find_upsert [OF none, of d] d(2) by (simp add: latest_snoc)
    then have "list_ex P (latest (?A @ [d]))" by (auto simp: list_ex_iff find_Some_iff dest: nth_mem)
    then show ?thesis using step f d by (simp add: x)
  next
    case False
    then have A: "\<forall>d \<in> set (accepted my_mac xid (frames @ [?f])). \<not> P d"
      using Cons.prems(2) acc by (auto split: option.splits)
    then have "\<not> list_ex P (latest (?A @ answers_of [c]))"
      using latest_facts(3) [of "?A @ answers_of [c]"] acc by (auto simp: list_ex_iff)
    moreover have "find P (answers_of (map snd (x # tcs))) = find P (answers_of (map snd tcs))"
      using False by (auto simp: x split: option.split)
    ultimately show ?thesis using step Cons.IH [OF _ A] Cons.prems(1) by simp
  qed
qed

text \<open>
  A station is resolved to the first device that answers to its name or address. Among whatever
  else is captured, the devices that answer our Identify request before the deadline are looked at
  as they come in, and the first one whose station name or IPv4 address is the target is returned
  at once; a later answer of the same or another device makes no difference. If none of them is
  the target the result is that it was not found, and never another device.
\<close>

theorem station_resolved:
  assumes "k = nt_scan n (cl_scans s)" and "get_mac (nt_mac_of n) (nt_iface n) = Inr my_mac"
    and "sc_open k = Inr ()" and "sc_random k = Inr xid" and "sc_send k = Inr ()"
    and "sc_events k = heard my_mac xid tcs"
    and "\<forall>x \<in> set tcs. fst x < sc_deadline k \<and> capture_ok my_mac xid (snd x)"
  shows "resolve_device n target s =
     Some (case find (\<lambda>d. station_name d = target \<or> ip2s target = Inr (dd_ip d)) (answers_of (map snd tcs)) of
             Some d \<Rightarrow> Inr d | None \<Rightarrow> Inl (CNotFound target),
           s\<lparr>cl_scans := cl_scans s + 1\<rparr>)"
proof -
  let ?P = "\<lambda>d. device_matches d target"
  obtain ds where "discover_loop my_mac xid (list_ex ?P) (sc_deadline k) (heard my_mac xid tcs) [] = Some (Inr ds)"
    "find ?P ds = find ?P (answers_of (map snd tcs))"
    using discover_first_match [OF assms(7), of "[]" ?P] by (auto simp: accepted_def List.map_filter_simps)
  then show ?thesis
    using assms(1-6) by (simp add: resolve_device_def discover_until_def match_device_def device_matches_def)
qed

definition sample_net :: net where
  "sample_net = \<lparr>nt_iface = ''en0'', nt_mac_of = (\<lambda>_. Inr (Some [0, 1, 2, 3, 4, 5])),
     nt_devices = Inr [(''en0'', [\<lparr>pa_addr = V4 [10, 0, 0, 1], pa_netmask = Some (V4 [255, 255, 255, 0])\<rparr>])],
     nt_pinned = None, nt_serve_mode = False,
     nt_scan = (\<lambda>_. \<lparr>sc_open = Inr (), sc_random = Inr 9, sc_send = Inr (), sc_deadline = 100,
        sc_events = heard [0, 1, 2, 3, 4, 5] 9
          [(1, Answer [(0x8100, 0)] [] (Pcap.sample_device 1 [0x61])), (2, Other [0, 1]),
           (3, Answer [(0x8100, 0)] [0] (Pcap.sample_device 2 [0x62]))]\<rparr>),
     nt_open = (\<lambda>_ _ _ _. \<lparr>oo_transport = Inr (sample_transport []), oo_key = Inr 1, oo_activity = Inr (replicate 16 7),
        oo_ar = Inr (replicate 16 8)\<rparr>)\<rparr>"

definition fresh_cli :: cli_state where
  "fresh_cli = \<lparr>cl_out = [], cl_note_said = False, cl_scans = 0, cl_opens = 0, cl_opened = 0, cl_closed = [],
     cl_stopped = []\<rparr>"

lemma station_resolved_witness:
  "resolve_device sample_net ''b'' fresh_cli = Some (Inr (Pcap.sample_device 2 [0x62]), fresh_cli\<lparr>cl_scans := 1\<rparr>)"
proof -
  have m: "get_mac (nt_mac_of sample_net) (nt_iface sample_net) = Inr [0, 1, 2, 3, 4, 5]"
    by (simp add: sample_net_def get_mac_def mac_lookup_names_def)
  let ?tcs = "[(1, Answer [(0x8100, 0)] [] (Pcap.sample_device 1 [0x61])), (2, Other [0, 1]),
           (3, Answer [(0x8100, 0)] [0] (Pcap.sample_device 2 [0x62]))]"
  have n: "station_name (Pcap.sample_device 1 [0x61]) = ''a''" "station_name (Pcap.sample_device 2 [0x62]) = ''b''"
    "ip2s ''b'' = Inl (IpInvalid ''b'')" by code_simp+
  have "\<forall>x \<in> set ?tcs. fst x < sc_deadline (nt_scan sample_net (cl_scans fresh_cli)) \<and> capture_ok [0, 1, 2, 3, 4, 5] 9 (snd x)"
    by (simp add: sample_net_def sample_device_ok not_for_us_def)
  from station_resolved [OF refl m _ _ _ _ this, of "''b''"]
  show ?thesis by (simp add: n) (simp add: sample_net_def fresh_cli_def n)
qed

section \<open>Every connection is released\<close>

text \<open>
  The books of a command: no connection that was dropped holds an AR, and every transport opened
  was dropped, or all but one that can still make \<open>k\<close> calls.
\<close>

definition balanced :: "cli_state \<Rightarrow> bool" where
  "balanced s \<longleftrightarrow> cl_opened s = length (cl_closed s) \<and> list_all (\<lambda>c. \<not> co_connected c) (cl_closed s)"

definition holds :: "nat \<Rightarrow> rpc_conn \<Rightarrow> cli_state \<Rightarrow> bool" where
  "holds k c s \<longleftrightarrow> cl_opened s = Suc (length (cl_closed s)) \<and> list_all (\<lambda>c. \<not> co_connected c) (cl_closed s)
     \<and> conn_room k c"

definition ends :: "(cli_state \<Rightarrow> bool) \<Rightarrow> 'a cli \<Rightarrow> ('a \<Rightarrow> cli_state \<Rightarrow> bool) \<Rightarrow> bool" where
  "ends P m N \<longleftrightarrow> (\<forall>s. P s \<longrightarrow> (\<exists>r s'. m s = Some (r, s') \<and> (case r of Inl _ \<Rightarrow> balanced s' | Inr x \<Rightarrow> N x s')))"

definition net_ok :: "net \<Rightarrow> bool" where
  "net_ok n \<longleftrightarrow> (\<forall>i m. nt_mac_of n i = Inr (Some m) \<longrightarrow> length m = 6) \<and> (\<forall>k m i d. (\<forall>a. oo_activity (nt_open n k m i d) = Inr a \<longrightarrow> length a = 16)
     \<and> (\<forall>a. oo_ar (nt_open n k m i d) = Inr a \<longrightarrow> length a = 16))"

named_theorems ends_rules

lemma ends_andthen:
  assumes "ends P m N" and "\<And>x. ends (N x) (f x) R"
  shows "ends P (andthen m f) R"
  unfolding ends_def
proof (intro allI impI)
  fix s assume "P s"
  then obtain r s1 where 1: "m s = Some (r, s1)" "case r of Inl _ \<Rightarrow> balanced s1 | Inr x \<Rightarrow> N x s1"
    using assms(1) by (auto simp: ends_def)
  show "\<exists>r s'. andthen m f s = Some (r, s') \<and> (case r of Inl _ \<Rightarrow> balanced s' | Inr x \<Rightarrow> R x s')"
  proof (cases r)
    case (Inr x)
    then show ?thesis using 1 assms(2) [of x] by (auto simp: ends_def andthen_def)
  qed (use 1 in \<open>simp add: andthen_def\<close>)
qed

lemma ends_ret [ends_rules]: "ends (N x) (ret x) N"
  by (simp add: ends_def ret_def)

lemma ends_lift [ends_rules]: "ends balanced (lift r) (\<lambda>_. balanced)"
  by (simp add: ends_def lift_def split: sum.split)

lemma ends_put [ends_rules]: "ends balanced (put ls) (\<lambda>_. balanced)" "ends (holds k c) (put ls) (\<lambda>_. holds k c)"
  by (simp_all add: ends_def put_def balanced_def holds_def)

lemma ends_case_option: "ends P m N \<Longrightarrow> (\<And>x. ends P (f x) N) \<Longrightarrow> ends P (case y of None \<Rightarrow> m | Some x \<Rightarrow> f x) N"
  by (cases y) simp_all

lemma discover_loop_total: "discover_loop my_mac xid p deadline es frames \<noteq> None"
  by (induction es arbitrary: frames) (auto simp: aggregate_latest split: recv_event.split)

lemma ends_resolve [ends_rules]: "ends balanced (resolve_device n target) (\<lambda>_. balanced)"
proof -
  have "discover_until o' m r sd p dl es \<noteq> None" for o' m r sd p dl es
    using discover_loop_total by (auto simp: discover_until_def Let_def split: sum.split)
  note tot = this
  show ?thesis
    unfolding ends_def
  proof (intro allI impI)
    fix s assume b: "balanced s"
    let ?k = "nt_scan n (cl_scans s)"
    obtain r f where "discover_until (sc_open ?k) (get_mac (nt_mac_of n) (nt_iface n)) (sc_random ?k) (sc_send ?k)
          (\<lambda>found. list_ex (\<lambda>d. device_matches d target) found) (sc_deadline ?k) (sc_events ?k) = Some (r, f)"
      using tot by fast
    then show "\<exists>r s'. resolve_device n target s = Some (r, s') \<and> (case r of Inl _ \<Rightarrow> balanced s' | Inr _ \<Rightarrow> balanced s')"
      using b by (simp add: resolve_device_def balanced_def split: sum.split)
  qed
qed

lemma ends_note [ends_rules]: "ends balanced (report_source_note n t) (\<lambda>_. balanced)"
  by (auto simp: ends_def report_source_note_def put_def balanced_def)

lemma ends_source [ends_rules]: "ends balanced (source_address n dst) (\<lambda>_. balanced)"
  unfolding source_address_def
proof (rule ends_andthen [OF ends_lift])
  fix x :: "bytes \<times> string option"
  show "ends balanced (case x of (ip, note) \<Rightarrow>
      andthen (case note of None \<Rightarrow> ret () | Some t \<Rightarrow> report_source_note n t) (\<lambda>_. ret ip)) (\<lambda>_. balanced)"
    by (cases x; cases "snd x") (auto intro!: ends_andthen [OF _ ends_ret] ends_rules)
qed

lemma ends_open:
  assumes "net_ok n" and "k < 2 ^ 32"
  shows "ends balanced (open_raw n m i d) (\<lambda>c. holds k c)"
  unfolding ends_def
proof (intro allI impI)
  fix s assume b: "balanced s"
  let ?k = "nt_open n (cl_opens s) m i d"
  let ?r = "rbind (oo_transport ?k) (\<lambda>t. with_transport t (dd_device_id d) (dd_vendor_id d) RPC_TIMEOUT
                    (oo_key ?k) (oo_activity ?k) (oo_ar ?k))"
  show "\<exists>r s'. open_raw n m i d s = Some (r, s') \<and> (case r of Inl _ \<Rightarrow> balanced s' | Inr c \<Rightarrow> holds k c s')"
  proof (cases ?r)
    case (Inl e)
    then show ?thesis using b by (simp add: open_raw_def Let_def balanced_def)
  next
    case (Inr c)
    have "conn_room k c"
      using Inr assms by (auto simp: rbind_Inr with_transport_def conn_room_def conn_ok_def net_ok_def
          object_uuid_def OBJECT_UUID_PREFIX_def split: if_splits)
    then show ?thesis using b Inr by (simp add: open_raw_def Let_def balanced_def holds_def)
  qed
qed

lemma ends_drop: "ends (holds (Suc k) c) (drop_cli c) (\<lambda>_. balanced)"
  unfolding ends_def
proof (intro allI impI)
  fix s assume h: "holds (Suc k) c s"
  then obtain c' where "rc_drop c = Some c'" "\<not> co_connected c'"
    using release_room [of k c] by (auto simp: holds_def rc_drop_def)
  then show "\<exists>r s'. drop_cli c s = Some (r, s') \<and> (case r of Inl _ \<Rightarrow> balanced s' | Inr _ \<Rightarrow> balanced s')"
    using h by (simp add: drop_cli_def holds_def balanced_def)
qed

lemma ends_finish: "ends (holds (Suc k) c) (finish c) (\<lambda>_. balanced)"
  unfolding ends_def
proof (intro allI impI)
  fix s assume h: "holds (Suc k) c s"
  then obtain c' where c: "release c = Some c'" "\<not> co_connected c'"
    using release_room [of k c] by (auto simp: holds_def)
  then have "rc_drop c' = Some c'" by (simp add: rc_drop_def uncalled(3))
  then show "\<exists>r s'. finish c s = Some (r, s') \<and> (case r of Inl _ \<Rightarrow> balanced s' | Inr _ \<Rightarrow> balanced s')"
    using h c by (simp add: finish_def drop_cli_def holds_def balanced_def)
qed

lemma ends_use:
  assumes "op_ok m"
  shows "ends (holds (Suc (Suc k)) c) (use err m c) (\<lambda>(v, c'). holds (Suc k) c')"
  unfolding ends_def
proof (intro allI impI)
  fix s assume h: "holds (Suc (Suc k)) c s"
  then obtain r c1 where m: "m c = Some (r, c1)" "conn_room (Suc k) c1"
    using op_okD [OF assms, of "Suc k" c] by (auto simp: holds_def)
  show "\<exists>r s'. use err m c s = Some (r, s') \<and> (case r of Inl _ \<Rightarrow> balanced s' | Inr x \<Rightarrow> (case x of (v, c') \<Rightarrow> holds (Suc k) c') s')"
  proof (cases r)
    case (Inr v)
    then show ?thesis using h m by (simp add: use_def holds_def)
  next
    case (Inl e)
    have "holds (Suc k) c1 s" using h m(2) by (simp add: holds_def)
    then show ?thesis
      using Inl m(1) ends_drop [of k c1] by (fastforce simp: use_def ends_def andthen_def bail_def split: sum.splits)
  qed
qed

lemma ends_transport: "net_ok n \<Longrightarrow> k < 2 ^ 32 \<Longrightarrow> ends balanced (rpc_transport n target) (\<lambda>c. holds k c)"
  unfolding rpc_transport_def by (intro ends_andthen [OF ends_lift] ends_andthen [OF ends_resolve] ends_andthen [OF ends_source] ends_open)

lemma ends_connect:
  assumes "net_ok n" and "Suc (Suc k) < 2 ^ 32"
  shows "ends balanced (rpc_connect n target) (\<lambda>c. holds (Suc k) c)"
  unfolding rpc_connect_def
proof (intro ends_andthen [OF ends_lift] ends_andthen [OF ends_transport [OF assms]] ends_andthen [OF ends_use [OF access_op_ok]])
  fix x :: "unit \<times> rpc_conn"
  show "ends (case x of (v, c') \<Rightarrow> holds (Suc k) c') (case x of (uu, c) \<Rightarrow> ret c) (\<lambda>c. holds (Suc k) c)"
    using ends_ret [of "\<lambda>c. holds (Suc k) c" "snd x"] by (simp add: split_def)
qed

lemma cbind_assoc: "cbind (cbind m f) g = cbind m (\<lambda>x. cbind (f x) g)"
  by (rule ext) (simp add: cbind_def split: option.split sum.split prod.split)

lemma pure_then: "cbind (pure_io y) (\<lambda>x. pure_io (Some (Inr (h x)))) = pure_io (map_option (map_sum id h) y)"
  by (rule ext) (cases y, simp_all add: cbind_def pure_io_def split: sum.split)

lemma inm_op_ok: "op_ok (read_inm index slot subslot)"
proof -
  note t = identification_parsers_total
  have i: "op_ok (cbind (cbind (read_raw x slot subslot READ_LENGTH) (\<lambda>p. pure_io (f p))) (\<lambda>m. pure_io (Some (Inr (g m)))))"
    if "\<And>p. f p \<noteq> None" for x and f :: "bytes \<Rightarrow> (string + 'm) option" and g :: "'m \<Rightarrow> out_line list"
    unfolding cbind_assoc pure_then by (rule op_ok_pure [OF read_op_ok]) (simp add: that)
  show ?thesis
    unfolding read_inm_def read_im0_def read_im1_def read_im2_def read_im3_def using t by (simp add: i)
qed

lemma filter_op_ok: "op_ok read_inm0_filter"
  unfolding read_inm0_filter_def by (rule op_ok_pure [OF read_op_ok]) (use identification_parsers_total in blast)

lemma ends_bind_conn:
  "(\<And>v c. ends (holds k c) (f (v, c)) N) \<Longrightarrow> ends ((\<lambda>(v, c'). holds k c') x) (f x) N"
  by (cases x) simp

lemma ends_finish_put_ret:
  "ends (holds (Suc k) c) (andthen (finish c) (\<lambda>_. andthen (put ls) (\<lambda>_. ret (code :: int)))) (\<lambda>_. balanced)"
  by (intro ends_andthen [OF ends_finish] ends_andthen [OF ends_put(1)] ends_ret)

text \<open>The shape of an AR-bound command: connect, one operation, release, print.\<close>

lemma ends_one_op:
  assumes "net_ok n" and "op_ok m"
  shows "ends balanced (andthen (rpc_connect n target) (\<lambda>conn.
     andthen (use err m conn) (\<lambda>(v, c). andthen (finish c) (\<lambda>_. andthen (put (ls v)) (\<lambda>_. ret (code :: int)))))) (\<lambda>_. balanced)"
proof (rule ends_andthen [OF ends_connect [OF assms(1), of "Suc 0"]])
  show "ends (holds (Suc (Suc 0)) x) (andthen (use err m x)
      (\<lambda>(v, c). andthen (finish c) (\<lambda>_. andthen (put (ls v)) (\<lambda>_. ret code)))) (\<lambda>_. balanced)" for x
    by (rule ends_andthen [OF ends_use [OF assms(2)]]) (rule ends_bind_conn, simp add: ends_finish_put_ret)
qed simp

lemma ends_cmd_read: "net_ok n \<Longrightarrow> ends balanced (cmd_read n target slot subslot index len implicit) (\<lambda>_. balanced)"
proof -
  assume n: "net_ok n"
  have imp: "ends balanced (andthen (rpc_transport n target) (\<lambda>conn.
         andthen (use CText (read_raw_implicit i slot subslot len) conn) (\<lambda>(d, c).
         andthen (put (record_lines d)) (\<lambda>_. andthen (drop_cli c) (\<lambda>_. ret (0 :: int)))))) (\<lambda>_. balanced)" for i
  proof (rule ends_andthen [OF ends_transport [OF n, of "Suc (Suc 0)"]])
    show "ends (holds (Suc (Suc 0)) x) (andthen (use CText (read_raw_implicit i slot subslot len) x) (\<lambda>(d, c).
         andthen (put (record_lines d)) (\<lambda>_. andthen (drop_cli c) (\<lambda>_. ret (0 :: int))))) (\<lambda>_. balanced)" for x
      by (rule ends_andthen [OF ends_use [OF implicit_op_ok]])
         (rule ends_bind_conn, simp, intro ends_andthen [OF ends_put(2)] ends_andthen [OF ends_drop] ends_ret)
  qed simp
  show ?thesis
    unfolding cmd_read_def
    by (rule ends_andthen [OF ends_lift], cases implicit)
       (simp_all add: ends_andthen [OF ends_put(1)] imp ends_one_op [OF n read_op_ok])
qed

lemma ends_cmd_write:
  assumes "net_ok n" and "ascii data_hex"
  shows "ends balanced (cmd_write n target slot subslot index data_hex) (\<lambda>_. balanced)"
proof -
  obtain h where h: "parse_hex data_hex = Some h" using parse_hex_ascii [OF assms(2)] by blast
  show ?thesis
    unfolding cmd_write_def h bind.bind_lunit
    by (intro ends_andthen [OF ends_put(1)] ends_andthen [OF ends_lift] ends_one_op [OF assms(1) write_op_ok])
qed

lemma ends_cmd_read_inm:
  assumes "net_ok n"
  shows "ends balanced (cmd_read_inm n debug_env target slot subslot index) (\<lambda>_. balanced)"
  unfolding cmd_read_inm_def
proof (intro ends_andthen [OF ends_put(1)] ends_andthen [OF ends_connect [OF assms, of "Suc 0"]])
  fix conn
  let ?no = "\<lambda>e. Out (''No IM'' @ dec_nat (unat index - unat IM0) @ '' data available'')
                            # (if debug_env then [Warn (''(read failed: '' @ e @ '')'')] else [])"
  show "ends (holds (Suc (Suc 0)) conn) (\<lambda>s. Option.bind (read_inm index slot subslot conn) (\<lambda>(r, c).
      case r of Inl e \<Rightarrow> andthen (finish c) (\<lambda>_. andthen (put (?no e)) (\<lambda>_. ret 0)) s
        | Inr ls \<Rightarrow> andthen (put ls) (\<lambda>_. andthen (finish c) (\<lambda>_. ret (0 :: int))) s)) (\<lambda>_. balanced)"
    unfolding ends_def
  proof (intro allI impI)
    fix s assume h: "holds (Suc (Suc 0)) conn s"
    then obtain r c where m: "read_inm index slot subslot conn = Some (r, c)" "conn_room (Suc 0) c"
      using op_okD [OF inm_op_ok, of "Suc 0" conn index slot subslot] by (auto simp: holds_def)
    have c: "holds (Suc 0) c s" using h m(2) by (simp add: holds_def)
    have a: "ends (holds (Suc 0) c) (andthen (put ls) (\<lambda>_. andthen (finish c) (\<lambda>_. ret (0 :: int)))) (\<lambda>_. balanced)" for ls
      by (intro ends_andthen [OF ends_put(2)] ends_andthen [OF ends_finish] ends_ret)
    show "\<exists>r s'. Option.bind (read_inm index slot subslot conn) (\<lambda>(r, c).
      case r of Inl e \<Rightarrow> andthen (finish c) (\<lambda>_. andthen (put (?no e)) (\<lambda>_. ret 0)) s
        | Inr ls \<Rightarrow> andthen (put ls) (\<lambda>_. andthen (finish c) (\<lambda>_. ret (0 :: int))) s) = Some (r, s')
      \<and> (case r of Inl _ \<Rightarrow> balanced s' | Inr _ \<Rightarrow> balanced s')"
      using m(1) a c ends_finish_put_ret [of 0 c] unfolding ends_def by (cases r) auto
  qed
qed simp

lemma ends_cmd_filter: "net_ok n \<Longrightarrow> ends balanced (cmd_read_inm0_filter n target) (\<lambda>_. balanced)"
  unfolding cmd_read_inm0_filter_def
  by (intro ends_andthen [OF ends_put(1)] ends_one_op [OF _ filter_op_ok])

text \<open>
  No one-shot command leaves an AR behind. Whatever the device, the network and the operating
  system do, each of the record commands (read with and without an AR, write, I\&M0FilterData and
  the four I\&M reads) ends, every transport it opened is closed again, and none of the closed
  ones holds an AR: on success, when the station is not found, when the connect or the operation
  fails, at whatever point.
\<close>

theorem record_commands_release:
  assumes "net_ok n" and "ascii data_hex"
    and "cmd \<in> {cmd_read n target slot subslot index len implicit, cmd_write n target slot subslot index data_hex,
      cmd_read_inm0_filter n target, cmd_read_inm n debug_env target slot subslot i}"
  shows "\<exists>r s. cmd fresh_cli = Some (r, s) \<and> length (cl_closed s) = cl_opened s
     \<and> (\<forall>c \<in> set (cl_closed s). \<not> co_connected c)"
proof -
  have "ends balanced cmd (\<lambda>_. balanced)"
    using assms ends_cmd_filter ends_cmd_read ends_cmd_write ends_cmd_read_inm by auto
  moreover have "balanced fresh_cli" by (simp add: balanced_def fresh_cli_def)
  ultimately obtain r s where "cmd fresh_cli = Some (r, s)" "balanced s"
    by (auto simp: ends_def split: sum.splits)
  then show ?thesis by (simp add: balanced_def list_all_iff)
qed

lemma record_commands_release_witness:
  "\<exists>r s. cmd_write sample_net ''b'' 0 1 ''0xAFF0'' ''00 ff'' fresh_cli = Some (r, s) \<and> length (cl_closed s) = cl_opened s"
proof -
  have "net_ok sample_net" by (simp add: net_ok_def sample_net_def)
  moreover have "ascii ''00 ff''" unfolding ascii_def by code_simp
  ultimately show ?thesis
    using record_commands_release [of sample_net "''00 ff''" "cmd_write sample_net ''b'' 0 1 ''0xAFF0'' ''00 ff''"
        "''b''" 0 1 "''0xAFF0''"] by blast
qed

end
