(* ===== verification/Tier.thy ===== *)
theory Tier
  imports Serve Cli
begin

text \<open>
  Taking over a device's IO AR: \<open>start_cyclic_tier\<close> of \<open>src/bin/profinet.rs\<close>, and \<open>cmd_serve\<close> around
  it, from the arguments of the process to its result. Reading and decoding the GSDML file is an
  argument, as are the outcomes of the controller's sockets and thread spawns, what its threads do
  while the parameter phase runs, and, should it have to be stopped then, the outcomes of its STOP
  sends.
\<close>

section \<open>Starting the cyclic tier\<close>

record tier_args =
  ta_gsdml_path :: string
  ta_gsdml :: "cli_error + gsdml_device"
  ta_cycle_ms :: u16
  ta_watchdog_factor :: u16
  ta_exclude_zero_io :: bool
  ta_input :: "(u16 \<times> u16) option"

record tier_world =
  tw_now :: nat
  tw_tx_open :: "string option"
  tw_rx_open :: "string option"
  tw_tx_spawn :: "string option"
  tw_rx_spawn :: "string option"
  tw_param :: "cyclic_op list"
  tw_ready :: "cyclic_op list"
  tw_tx_joined :: bool
  tw_sends :: "bool list"

record cyclic_tier =
  ct_conn :: rpc_conn
  ct_cyclic :: cyclic_controller
  ct_out_slot :: u16
  ct_out_subslot :: u16

text \<open>A controller that goes out of scope: its \<open>Drop\<close> stops it.\<close>

definition drop_ctl :: "tier_world \<Rightarrow> cyclic_controller \<Rightarrow> unit cli" where
  "drop_ctl w ctl s = do {
     r \<leftarrow> stop (tw_tx_joined w) (tw_sends w) ctl;
     Some (Inr (), s\<lparr>cl_stopped := cl_stopped s @ [r]\<rparr>) }"

text \<open>\<open>paced_read\<close> on a connection; \<open>Control\<close> has the same loop over an oracle of answers.\<close>

fun paced_io :: "nat \<Rightarrow> u16 \<Rightarrow> u16 \<Rightarrow> u16 \<Rightarrow> u32 \<Rightarrow> string \<Rightarrow> rpc_conn \<Rightarrow> ((paced_error + bytes) \<times> rpc_conn) option" where
  "paced_io 0 index slot subslot len busy c = Some (Inl (StillBusy (unat index) busy), c)"
| "paced_io (Suc n) index slot subslot len busy c = do {
     (r, c1) \<leftarrow> read_raw index slot subslot len c;
     (case r of
        Inr d \<Rightarrow> Some (Inr d, c1)
      | Inl e \<Rightarrow> if contains e PNIO_BUSY_STATUS then paced_io n index slot subslot len e c1
                else Some (Inl (ReadFailed e), c1)) }"

definition tier_layout :: "tier_args \<Rightarrow> rpc_conn \<Rightarrow> (io_slot list \<times> rpc_conn) cli" where
  "tier_layout a conn =
     andthen (use CText discover_slots conn) (\<lambda>(device_slots, c1).
     andthen (guard_conn (ta_gsdml a) c1) (\<lambda>g.
     andthen (guard_conn (map_sum CGsdml id (build_io_slots_from_device g device_slots None)) c1) (\<lambda>slots.
       ret (apply_zero_io_exclusion slots (ta_exclude_zero_io a), c1))))"

text \<open>The input submodule to verify, with the length the GSDML declares for it.\<close>

definition input_submodule :: "tier_args \<Rightarrow> io_slot list \<Rightarrow> cli_error + u16 \<times> u16 \<times> nat" where
  "input_submodule a slots =
     rbind (case ta_input a of
         Some p \<Rightarrow> Inr p
       | None \<Rightarrow> (case find (\<lambda>s. 0 < ios_input_length s) slots of
             Some s \<Rightarrow> Inr (ios_slot s, ios_subslot s) | None \<Rightarrow> Inl (CNoInputs (ta_gsdml_path a)))) (\<lambda>(in_slot, in_subslot).
       case find (\<lambda>s. ios_slot s = in_slot \<and> ios_subslot s = in_subslot) slots of
         Some s \<Rightarrow> Inr (in_slot, in_subslot, ios_input_length s)
       | None \<Rightarrow> Inl (CNoSubmodule (ta_gsdml_path a) in_slot in_subslot))"

definition tier_preflight :: "tier_args \<Rightarrow> io_slot list \<Rightarrow> rpc_conn \<Rightarrow> ((u16 \<times> u16 \<times> nat) \<times> rpc_conn) cli" where
  "tier_preflight a slots conn =
     andthen (guard_conn (input_submodule a slots) conn) (\<lambda>(in_slot, in_subslot, declared).
     andthen (use (CPaced ''could not read the input image (0x8028) to verify the GSDML: '')
                (paced_io PACED_READ_RETRIES 0x8028 in_slot in_subslot 128 []) conn) (\<lambda>(rec, c1).
     andthen (guard_conn (case parse_input_data_length rec of
           Some n \<Rightarrow> Inr n | None \<Rightarrow> Inl (CText ''could not parse the input image record (0x8028)'')) c1) (\<lambda>actual.
       if declared \<noteq> actual
       then andthen (finish c1) (\<lambda>_. bail (CMismatch (ta_gsdml_path a) declared in_slot in_subslot actual))
       else ret ((in_slot, in_subslot, actual), c1))))"

definition output_submodule :: "io_slot list \<Rightarrow> u16 \<times> u16 \<Rightarrow> u16 \<times> u16" where
  "output_submodule slots input =
     (case find (\<lambda>s. 0 < ios_output_length s) slots of
        Some s \<Rightarrow> (ios_slot s, ios_subslot s) | None \<Rightarrow> input)"

text \<open>
  The ownership probe: with outputs to command, the takeover is refused unless the device's output
  image reads back as the safe one.
\<close>

definition probe_safe :: "string + bytes \<Rightarrow> (bool \<times> event) option" where
  "probe_safe r =
     (case r of
        Inl e \<Rightarrow> Some (False, LErrorRead ''current_output'' e)
      | Inr d \<Rightarrow> do {
          b \<leftarrow> parse_output_control_byte d;
          Some (b = Some SAFE_OUTPUT_BYTE, LCurrentOutput (length d) (hex_encode d)) })"

definition tier_gate :: "bool \<Rightarrow> u16 \<Rightarrow> u16 \<Rightarrow> rpc_conn \<Rightarrow> rpc_conn cli" where
  "tier_gate require_safe out_slot out_subslot conn s =
     (if \<not> require_safe then ret conn s
      else do {
        (r, c1) \<leftarrow> read_raw 0x8029 out_slot out_subslot 128 conn;
        (safe, ev) \<leftarrow> probe_safe r;
        (if safe then andthen (put [Json ev]) (\<lambda>_. ret c1) s
         else
           andthen (put [Json ev]) (\<lambda>_.
           andthen (finish c1) (\<lambda>_.
           andthen (put [Json (LRefusedSetup ''output is not at the safe image or state unknown; refusing takeover'')]) (\<lambda>_.
             bail (CText (''ownership probe failed: output is not at the safe image or state unknown; ''
                @ ''refusing to take over the cyclic AR''))))) s) })"

definition TIER_SEND_CLOCK :: u16 where "TIER_SEND_CLOCK = 32"

definition tier_setup :: "tier_args \<Rightarrow> io_slot list \<Rightarrow> iocr_setup" where
  "tier_setup a slots =
     \<lparr>is_io_slots = slots, is_send_clock_factor = TIER_SEND_CLOCK, is_reduction_ratio = ta_cycle_ms a,
      is_watchdog_factor = ta_watchdog_factor a, is_data_hold_factor = ta_watchdog_factor a\<rparr>"

text \<open>The new AR towards a resolved device: it is only taken with cyclic IO on a usable output frame.\<close>

definition open_ar ::
    "net \<Rightarrow> bytes \<Rightarrow> bytes \<Rightarrow> dcp_device \<Rightarrow> iocr_setup \<Rightarrow> (connect_result \<times> rpc_conn) cli" where
  "open_ar n cm_mac cm_ip dev setup_iocrs =
     andthen (open_raw n cm_mac cm_ip dev) (\<lambda>conn.
     andthen (use CText (rc_connect cm_mac CM_STATION_NAME setup_iocrs) conn) (\<lambda>(result, c1).
       if \<not> cr_has_cyclic result
       then andthen (finish c1) (\<lambda>_. bail (CText ''cyclic IO not established by device''))
       else if \<not> is_rt_class_1_frame_id (cr_output_frame_id result)
       then andthen (finish c1) (\<lambda>_. bail (CNoOutputFrame (cr_output_frame_id result)))
       else ret (result, c1)))"

definition tier_connect ::
    "net \<Rightarrow> string \<Rightarrow> tier_args \<Rightarrow> io_slot list \<Rightarrow> bytes \<Rightarrow> (dcp_device \<times> connect_result \<times> rpc_conn) cli" where
  "tier_connect n target a slots cm_mac =
     andthen (resolve_device n target) (\<lambda>dev.
     andthen (source_address n (dd_ip dev)) (\<lambda>cm_ip.
     andthen (open_ar n cm_mac cm_ip dev (tier_setup a slots)) (\<lambda>(result, c1). ret (dev, result, c1))))"

definition tier_iocrs :: "tier_args \<Rightarrow> io_slot list \<Rightarrow> connect_result \<Rightarrow> iocr_config \<times> iocr_config" where
  "tier_iocrs a slots result =
     build_iocr_configs slots (cr_input_frame_id result) (cr_output_frame_id result) TIER_SEND_CLOCK (ta_cycle_ms a)
       (ta_watchdog_factor a)"

definition tier_callbacks :: callbacks where
  "tier_callbacks =
     \<lparr>on_input_data = True, on_input_status = True, on_timeout = False, on_error = True, on_state_change = True\<rparr>"

text \<open>
  From the new controller to the end of the parameter phase, with the frames flowing from \<open>start\<close> on.
  \<open>prep\<close> is what is registered on the controller before the start.
\<close>

definition ar_run ::
    "net \<Rightarrow> tier_world \<Rightarrow> bytes \<Rightarrow> bytes \<Rightarrow> iocr_config \<times> iocr_config \<Rightarrow> (shared \<Rightarrow> shared) \<Rightarrow> rpc_conn
      \<Rightarrow> (rpc_conn \<times> cyclic_controller) cli" where
  "ar_run n w cm_mac mac2 iocrs prep conn s = do {
     r \<leftarrow> controller_new (tw_now w) (nt_iface n) cm_mac mac2 (fst iocrs) (snd iocrs) 3;
     (case r of
        Inl e \<Rightarrow> andthen (drop_cli conn) (\<lambda>_. bail (CController e)) s
      | Inr c0 \<Rightarrow> do {
          (st, c2) \<leftarrow> start (tw_now w) (tw_tx_open w) (tw_rx_open w) (tw_tx_spawn w) (tw_rx_spawn w)
            (c0\<lparr>cc_shared := prep (cc_shared c0)\<rparr>);
          (case st of
             Inl e \<Rightarrow> andthen (drop_ctl w c2) (\<lambda>_. andthen (drop_cli conn) (\<lambda>_. bail (CController e))) s
           | Inr _ \<Rightarrow> do {
               (p, conn1) \<leftarrow> prm_end conn;
               c3 \<leftarrow> fold cyclic_step (tw_param w) (Some c2);
               (q, conn2) \<leftarrow> (case p of Inl e \<Rightarrow> Some (Inl e, conn1) | Inr _ \<Rightarrow> application_ready APP_READY_TIMEOUT conn1);
               c4 \<leftarrow> fold cyclic_step (tw_ready w) (Some c3);
               (case q of
                  Inl e \<Rightarrow> andthen (drop_ctl w c4) (\<lambda>_. andthen (finish conn2) (\<lambda>_. bail (CText e))) s
                | Inr _ \<Rightarrow> Some (Inr (conn2, c4), s)) }) }) }"

definition tier_run ::
    "net \<Rightarrow> tier_world \<Rightarrow> bytes \<Rightarrow> bytes \<Rightarrow> iocr_config \<times> iocr_config \<Rightarrow> u16 \<times> u16 \<Rightarrow> rpc_conn
      \<Rightarrow> (rpc_conn \<times> cyclic_controller) cli" where
  "tier_run n w cm_mac mac2 iocrs out =
     ar_run n w cm_mac mac2 iocrs
       (\<lambda>sh. (set_safe_output (fst out) (snd out) [SAFE_OUTPUT_BYTE] sh)\<lparr>sh_callbacks := tier_callbacks\<rparr>)"

definition start_cyclic_tier ::
    "net \<Rightarrow> tier_world \<Rightarrow> string \<Rightarrow> tier_args \<Rightarrow> bool \<Rightarrow> rpc_conn \<Rightarrow> cyclic_tier cli" where
  "start_cyclic_tier n w target a require_safe conn =
     andthen (guard_conn (map_sum CArg id (validate_cycle_ms (ta_cycle_ms a))) conn) (\<lambda>_.
     andthen (guard_conn (net_mac n) conn) (\<lambda>cm_mac.
     andthen (tier_layout a conn) (\<lambda>(slots, c1).
     andthen (tier_preflight a slots c1) (\<lambda>((in_slot, in_subslot, actual), c2).
       let out = output_submodule slots (in_slot, in_subslot) in
     andthen (tier_gate require_safe (fst out) (snd out) c2) (\<lambda>c3.
     andthen (finish c3) (\<lambda>_.
     andthen (tier_connect n target a slots cm_mac) (\<lambda>(dev, result, c4).
     andthen (tier_run n w cm_mac (dd_mac dev) (tier_iocrs a slots result) out c4) (\<lambda>(c5, ctl).
     andthen (put [Json (LCyclicStarted (ta_cycle_ms a) (cr_input_frame_id result) (cr_output_frame_id result) actual
                (fst out) (snd out))]) (\<lambda>_.
       ret \<lparr>ct_conn = c5, ct_cyclic = ctl, ct_out_slot = fst out, ct_out_subslot = snd out\<rparr>)))))))))"

section \<open>The steps of a takeover return\<close>

lemma ends_apply:
  "ends P m N \<Longrightarrow> P s \<Longrightarrow> \<exists>r s'. m s = Some (r, s') \<and> (case r of Inl _ \<Rightarrow> balanced s' | Inr x \<Rightarrow> N x s')"
  by (simp add: ends_def)

text \<open>Facts about the result join a contract.\<close>

lemma ends_fact:
  assumes "ends P m N" and "\<And>s x s'. P s \<Longrightarrow> m s = Some (Inr x, s') \<Longrightarrow> F x"
  shows "ends P m (\<lambda>x s. N x s \<and> F x)"
  unfolding ends_def
proof (intro allI impI)
  fix s assume p: "P s"
  then obtain r s' where "m s = Some (r, s')" "case r of Inl _ \<Rightarrow> balanced s' | Inr x \<Rightarrow> N x s'"
    using assms(1) by (auto simp: ends_def)
  then show "\<exists>r s'. m s = Some (r, s') \<and> (case r of Inl _ \<Rightarrow> balanced s' | Inr x \<Rightarrow> N x s' \<and> F x)"
    using assms(2) [OF p] by (cases r) auto
qed

lemma ends_given: "(F \<Longrightarrow> ends P m N) \<Longrightarrow> ends (\<lambda>s. P s \<and> F) m N"
  by (auto simp: ends_def)

lemma ends_post:
  assumes "ends P m N" and "\<And>x s. N x s \<Longrightarrow> N' x s"
  shows "ends P m N'"
  unfolding ends_def
proof (intro allI impI)
  fix s assume "P s"
  then obtain r s' where "m s = Some (r, s')" "case r of Inl _ \<Rightarrow> balanced s' | Inr x \<Rightarrow> N x s'"
    using assms(1) by (auto simp: ends_def)
  then show "\<exists>r s'. m s = Some (r, s') \<and> (case r of Inl _ \<Rightarrow> balanced s' | Inr x \<Rightarrow> N' x s')"
    using assms(2) by (cases r) auto
qed

lemma ends_pre: "ends P m N \<Longrightarrow> (\<And>s. P' s \<Longrightarrow> P s) \<Longrightarrow> ends P' m N"
  by (simp add: ends_def)

lemma holds_le: "holds k c s \<Longrightarrow> m \<le> k \<Longrightarrow> holds m c s"
  by (auto simp: holds_def conn_room_def)

text \<open>An operation of several calls under \<open>?\<close>: it leaves room for the release.\<close>

lemma ends_use_many:
  assumes "\<And>c. conn_room (n + Suc k) c \<Longrightarrow> \<exists>r c'. m c = Some (r, c') \<and> conn_room (Suc k) c' \<and> conn_step\<^sup>*\<^sup>* c c'"
  shows "ends (holds (n + Suc k) c) (use err m c)
    (\<lambda>x s. holds (Suc k) (snd x) s \<and> m c = Some (Inr (fst x), snd x) \<and> conn_step\<^sup>*\<^sup>* c (snd x))"
  unfolding ends_def
proof (intro allI impI)
  fix s assume h: "holds (n + Suc k) c s"
  then obtain r c1 where m: "m c = Some (r, c1)" "conn_room (Suc k) c1" "conn_step\<^sup>*\<^sup>* c c1"
    using assms [of c] by (auto simp: holds_def)
  have h1: "holds (Suc k) c1 s" using h m(2) by (simp add: holds_def)
  show "\<exists>r s'. use err m c s = Some (r, s') \<and> (case r of Inl _ \<Rightarrow> balanced s'
      | Inr x \<Rightarrow> holds (Suc k) (snd x) s' \<and> m c = Some (Inr (fst x), snd x) \<and> conn_step\<^sup>*\<^sup>* c (snd x))"
  proof (cases r)
    case (Inr v)
    then show ?thesis using h1 m by (simp add: use_def)
  next
    case (Inl e)
    then show ?thesis
      using h1 m(1) ends_drop [of k c1] by (fastforce simp: use_def ends_def andthen_def bail_def split: sum.splits)
  qed
qed

lemma op_ok_room:
  "op_ok m \<Longrightarrow> conn_room (Suc 0 + Suc k) c \<Longrightarrow> \<exists>r c'. m c = Some (r, c') \<and> conn_room (Suc k) c' \<and> conn_step\<^sup>*\<^sup>* c c'"
  using op_okD [of m "Suc k" c] by auto

lemma ends_guard: "ends (holds (Suc k) c) (guard_conn r c) (\<lambda>x s. holds (Suc k) c s \<and> r = Inr x)"
proof (cases r)
  case (Inl e)
  then show ?thesis using ends_drop [of k c]
    by (fastforce simp: guard_conn_def ends_def andthen_def bail_def split: sum.splits)
qed (simp add: guard_conn_def ends_def ret_def)

lemma ends_bail: "ends balanced (bail e) N"
  by (simp add: ends_def bail_def)

lemma ends_ret_ok: "(\<And>s. P s \<Longrightarrow> N x s) \<Longrightarrow> ends P (ret x) N"
  by (simp add: ends_def ret_def)

lemma ends_finish_bail: "ends (holds (Suc k) c) (andthen (finish c) (\<lambda>_. bail e)) N"
  by (rule ends_andthen [OF ends_finish ends_bail])

lemma paced_io_room:
  "conn_room (n + k) c \<Longrightarrow>
   \<exists>r c'. paced_io n index slot subslot len busy c = Some (r, c') \<and> conn_room k c' \<and> conn_step\<^sup>*\<^sup>* c c'"
proof (induction n arbitrary: c busy)
  case (Suc n)
  obtain r c1 where 1: "read_raw index slot subslot len c = Some (r, c1)" "conn_room (n + k) c1" "conn_step c c1"
    using op_okD [OF read_op_ok, of "n + k" c] Suc.prems by (metis add_Suc)
  show ?case
  proof (cases r)
    case (Inr d)
    then show ?thesis using 1 conn_room_le [OF 1(2), of k] by auto
  next
    case (Inl e)
    show ?thesis
    proof (cases "contains e PNIO_BUSY_STATUS")
      case True
      then show ?thesis using 1 Inl Suc.IH [OF 1(2), of e] by (fastforce intro: converse_rtranclp_into_rtranclp)
    next
      case False
      then show ?thesis using 1 Inl conn_room_le [OF 1(2), of k] by auto
    qed
  qed
qed simp

lemma discover_op_ok: "op_ok discover_slots"
proof -
  have "op_ok (cbind (cbind (read_raw REAL_ID_API 0 1 READ_LENGTH) (\<lambda>p. pure_io (map_option Inr (parse_real_identification_data p))))
      (\<lambda>r. pure_io (Some (Inr (map to_device_slot (ri_slots r))))))"
    unfolding cbind_assoc pure_then by (rule op_ok_pure [OF read_op_ok]) (use identification_parsers_total in auto)
  then show ?thesis by (simp add: discover_slots_def read_real_identification_data_def)
qed

lemma connect_op_ok:
  assumes "length (is_io_slots st) < 65536"
  shows "op_ok (rc_connect m nm st)"
  unfolding op_ok_def
proof (intro allI impI)
  fix n c assume a: "conn_room (Suc n) c"
  have "build_connect_request ou iu au ar key m nm st sq \<noteq> None" for ou iu au ar key sq
    using iocr_block_req_eq [of 1 1 st] iocr_block_req_eq [of 2 2 st] expected_apis_grouped [OF assms] assms
    by (simp add: build_connect_request_def expected_submodule_block_def Let_def)
  then obtain r c' where "rc_connect m nm st c = Some (r, c')" "call_ok c c'"
    using connect_ops_call(1) [of c m nm st] a conn_room_number by (auto simp: conn_room_def)
  then show "\<exists>r c'. rc_connect m nm st c = Some (r, c') \<and> conn_room n c' \<and> conn_step c c'"
    using conn_room_call [OF a] conn_step.Connect by blast
qed

lemma prm_end_op_ok: "op_ok prm_end"
  unfolding prm_end_def by (rule op_ok_map_err [OF control_op_ok])

section \<open>What is known before the takeover\<close>

text \<open>The device was asked, on the old AR, and it shows the safe image.\<close>

definition shown_safe :: "rpc_conn \<Rightarrow> u16 \<times> u16 \<Rightarrow> bool" where
  "shown_safe conn out \<longleftrightarrow> (\<exists>c c1 d. conn_step\<^sup>*\<^sup>* conn c \<and> read_raw 0x8029 (fst out) (snd out) 128 c = Some (Inr d, c1)
     \<and> parse_output_control_byte d = Some (Some SAFE_OUTPUT_BYTE))"

lemma shown_safe_later: "conn_step\<^sup>*\<^sup>* conn c \<Longrightarrow> shown_safe c out \<Longrightarrow> shown_safe conn out"
  unfolding shown_safe_def by (meson rtranclp_trans)

lemma probe_safe_runs: "\<exists>safe ev. probe_safe r = Some (safe, ev)
     \<and> (safe \<longrightarrow> (\<exists>d. r = Inr d \<and> parse_output_control_byte d = Some (Some SAFE_OUTPUT_BYTE)))"
proof (cases r)
  case (Inr d)
  have "\<exists>b. parse_output_control_byte d = Some b"
  proof (cases "12 \<le> length d")
    case True
    then have "0 < length d" by linarith
    then have "idx d 0 = Some (d ! 0)" "idx d 1 = Some (d ! 1)" "idx d 8 = Some (d ! 8)"
      "be16_at d 10 = Some (rd16 d 10)" using True by (simp_all only: idx_in be16_at_in)
    then show ?thesis by (auto simp: parse_output_control_byte_def)
  qed (simp add: parse_output_control_byte_def)
  then show ?thesis using Inr by (auto simp: probe_safe_def)
qed (auto simp: probe_safe_def)

lemma ends_gate:
  "ends (holds (Suc (Suc k)) c) (tier_gate rq os oss c)
     (\<lambda>c1 s. holds (Suc k) c1 s \<and> (rq \<longrightarrow> shown_safe c (os, oss)))"
  unfolding ends_def
proof (intro allI impI)
  fix s assume h: "holds (Suc (Suc k)) c s"
  show "\<exists>r s'. tier_gate rq os oss c s = Some (r, s') \<and> (case r of Inl _ \<Rightarrow> balanced s'
      | Inr c1 \<Rightarrow> holds (Suc k) c1 s' \<and> (rq \<longrightarrow> shown_safe c (os, oss)))"
  proof (cases rq)
    case False
    then show ?thesis using holds_le [OF h, of "Suc k"] by (simp add: tier_gate_def ret_def)
  next
    case True
    obtain r c1 where r: "read_raw 0x8029 os oss 128 c = Some (r, c1)" "conn_room (Suc k) c1"
      using op_okD [OF read_op_ok, of "Suc k" c] h by (fastforce simp: holds_def)
    obtain safe ev where p: "probe_safe r = Some (safe, ev)"
      "safe \<Longrightarrow> \<exists>d. r = Inr d \<and> parse_output_control_byte d = Some (Some SAFE_OUTPUT_BYTE)"
      using probe_safe_runs [of r] by auto
    have h1: "holds (Suc k) c1 s" using h r(2) by (simp add: holds_def)
    show ?thesis
    proof (cases safe)
      case True
      then have "shown_safe c (os, oss)" using p(2) r(1) unfolding shown_safe_def by auto
      then show ?thesis using \<open>rq\<close> r(1) p(1) True h1 by (simp add: tier_gate_def andthen_def put_def ret_def holds_def)
    next
      case False
      have "ends (holds (Suc k) c1) (andthen (put l1) (\<lambda>_. andthen (finish c1) (\<lambda>_. andthen (put l2) (\<lambda>_. bail e)))) N"
        for l1 l2 e and N :: "rpc_conn \<Rightarrow> cli_state \<Rightarrow> bool"
        by (intro ends_andthen [OF ends_put(2)] ends_andthen [OF ends_finish] ends_andthen [OF ends_put(1)] ends_bail)
      then show ?thesis using \<open>rq\<close> r(1) p(1) False h1 by (simp add: tier_gate_def ends_def)
    qed
  qed
qed

lemma ends_layout:
  "ends (holds (Suc (Suc k)) c) (tier_layout a c) (\<lambda>x s. holds (Suc k) (snd x) s \<and> conn_step\<^sup>*\<^sup>* c (snd x))"
  unfolding tier_layout_def
proof (rule ends_andthen)
  show "ends (holds (Suc (Suc k)) c) (use CText discover_slots c)
    (\<lambda>x s. holds (Suc k) (snd x) s \<and> discover_slots c = Some (Inr (fst x), snd x) \<and> conn_step\<^sup>*\<^sup>* c (snd x))"
    using ends_use_many [where n = "Suc 0" and k = k and m = discover_slots and c = c and err = CText] op_ok_room [OF discover_op_ok] by simp
next
  fix x :: "device_slot list \<times> rpc_conn"
  show "ends (\<lambda>s. holds (Suc k) (snd x) s \<and> discover_slots c = Some (Inr (fst x), snd x) \<and> conn_step\<^sup>*\<^sup>* c (snd x))
      (case x of (device_slots, c1) \<Rightarrow>
        andthen (guard_conn (ta_gsdml a) c1) (\<lambda>g.
        andthen (guard_conn (map_sum CGsdml id (build_io_slots_from_device g device_slots None)) c1) (\<lambda>slots.
          ret (apply_zero_io_exclusion slots (ta_exclude_zero_io a), c1))))
      (\<lambda>x s. holds (Suc k) (snd x) s \<and> conn_step\<^sup>*\<^sup>* c (snd x))"
    unfolding split_def
    by (intro ends_given ends_andthen [OF ends_guard]) (simp add: ends_def ret_def)
qed

lemma ends_preflight:
  "ends (holds (PACED_READ_RETRIES + Suc k) c) (tier_preflight a slots c)
     (\<lambda>x s. holds (Suc k) (snd x) s \<and> conn_step\<^sup>*\<^sup>* c (snd x))"
  unfolding tier_preflight_def
proof (rule ends_andthen)
  have n: "PACED_READ_RETRIES + Suc k = Suc (PACED_READ_RETRIES + k)" by simp
  show "ends (holds (PACED_READ_RETRIES + Suc k) c) (guard_conn (input_submodule a slots) c)
    (\<lambda>x s. holds (PACED_READ_RETRIES + Suc k) c s \<and> input_submodule a slots = Inr x)"
    unfolding n by (rule ends_guard)
next
  fix x :: "u16 \<times> u16 \<times> nat"
  obtain si ss dl where x: "x = (si, ss, dl)" by (cases x)
  let ?err = "CPaced ''could not read the input image (0x8028) to verify the GSDML: ''"
  show "ends (\<lambda>s. holds (PACED_READ_RETRIES + Suc k) c s \<and> input_submodule a slots = Inr x)
     (case x of (in_slot, in_subslot, declared) \<Rightarrow>
     andthen (use ?err (paced_io PACED_READ_RETRIES 0x8028 in_slot in_subslot 128 []) c) (\<lambda>(rec, c1).
     andthen (guard_conn (case parse_input_data_length rec of
           Some n \<Rightarrow> Inr n | None \<Rightarrow> Inl (CText ''could not parse the input image record (0x8028)'')) c1) (\<lambda>actual.
       if declared \<noteq> actual
       then andthen (finish c1) (\<lambda>_. bail (CMismatch (ta_gsdml_path a) declared in_slot in_subslot actual))
       else ret ((in_slot, in_subslot, actual), c1))))
     (\<lambda>x s. holds (Suc k) (snd x) s \<and> conn_step\<^sup>*\<^sup>* c (snd x))"
    unfolding x prod.case
  proof (rule ends_given, rule ends_andthen [OF ends_use_many [OF paced_io_room]])
    fix y :: "bytes \<times> rpc_conn"
    show "ends (\<lambda>s. holds (Suc k) (snd y) s
          \<and> paced_io PACED_READ_RETRIES 0x8028 si ss 128 [] c = Some (Inr (fst y), snd y) \<and> conn_step\<^sup>*\<^sup>* c (snd y))
        (case y of (rec, c1) \<Rightarrow>
          andthen (guard_conn (case parse_input_data_length rec of
             Some n \<Rightarrow> Inr n | None \<Rightarrow> Inl (CText ''could not parse the input image record (0x8028)'')) c1) (\<lambda>actual.
           if dl \<noteq> actual then andthen (finish c1) (\<lambda>_. bail (CMismatch (ta_gsdml_path a) dl si ss actual))
           else ret ((si, ss, actual), c1)))
        (\<lambda>x s. holds (Suc k) (snd x) s \<and> conn_step\<^sup>*\<^sup>* c (snd x))"
      unfolding split_def
    proof (rule ends_given, rule ends_andthen [OF ends_guard], rule ends_given)
      fix actual
      assume "paced_io PACED_READ_RETRIES 0x8028 si ss 128 [] c = Some (Inr (fst y), snd y) \<and> conn_step\<^sup>*\<^sup>* c (snd y)"
      then show "ends (holds (Suc k) (snd y))
         (if dl \<noteq> actual then andthen (finish (snd y)) (\<lambda>_. bail (CMismatch (ta_gsdml_path a) dl si ss actual))
          else ret ((si, ss, actual), snd y)) (\<lambda>x s. holds (Suc k) (snd x) s \<and> conn_step\<^sup>*\<^sup>* c (snd x))"
        by (cases "dl = actual") (simp add: ends_def ret_def, simp add: ends_finish_bail)
    qed
  qed
qed

section \<open>A resolved device has a MAC address\<close>

lemma apply_block_mac: "apply_block opt subopt info p dev = Some dev' \<Longrightarrow> dd_mac dev' = dd_mac dev"
  by (auto simp: apply_block_def split: if_splits bind_splits)

lemma identify_walk_mac: "identify_walk len blocks dev = Some dev' \<Longrightarrow> dd_mac dev' = dd_mac dev"
proof (induction len blocks dev rule: identify_walk.induct)
  case (1 len blocks dev)
  show ?case
  proof (cases "6 < len \<and> 6 \<le> length blocks")
    case True
    obtain o' s' i p rest n where x: "response_block blocks = Some (o', s', i, p, rest, n)"
      using response_block_total [of blocks] True by (metis prod_cases6)
    obtain d1 where d: "apply_block o' s' i p dev = Some d1" using apply_block_total by blast
    have "identify_walk (len - int n) rest d1 = Some dev'"
      using 1 (2) True x d by (subst (asm) identify_walk.simps) simp
    then show ?thesis using 1 (1) [OF True x refl refl refl refl refl d] apply_block_mac [OF d] by simp
  next
    case False
    then show ?thesis using 1 (2) by (subst (asm) identify_walk.simps) auto
  qed
qed

lemma identify_response_mac: "parse_identify_response frame = Some (Inr d) \<Longrightarrow> length (dd_mac d) = 6"
  by (auto simp: parse_identify_response_def sub_slice_def split: if_splits bind_splits sum.splits dest!: identify_walk_mac)

lemma accepted_mac: "d \<in> set (accepted my_mac xid frames) \<Longrightarrow> length (dd_mac d) = 6"
proof -
  assume "d \<in> set (accepted my_mac xid frames)"
  then obtain f where "the (accept_response my_mac xid f) = Some d" by (auto simp: accepted_def List.map_filter_def)
  then have "accept_response my_mac xid f = Some (Some d)"
    using accept_response_total [of my_mac xid f] by (cases "accept_response my_mac xid f") simp_all
  then show ?thesis
    using identify_response_mac by (auto simp: accept_response_def split: if_splits bind_splits sum.splits)
qed

lemma discover_loop_accepted:
  "discover_loop my_mac xid p deadline es frames = Some (Inr ds) \<Longrightarrow> \<exists>fs. ds = latest (accepted my_mac xid fs)"
  by (induction es arbitrary: frames) (auto simp: aggregate_latest split: if_splits recv_event.splits)

lemma resolve_mac: "resolve_device n target s = Some (Inr d, s') \<Longrightarrow> length (dd_mac d) = 6"
proof -
  assume a: "resolve_device n target s = Some (Inr d, s')"
  obtain my_mac xid p dl es ds where "discover_loop my_mac xid p dl es [] = Some (Inr ds)" "match_device ds target = Some d"
    using a by (auto simp: resolve_device_def discover_until_def Let_def split: bind_splits sum.splits option.splits)
  then obtain fs where "ds = latest (accepted my_mac xid fs)" "d \<in> set ds"
    using discover_loop_accepted by (metis match_device_def find_Some_iff nth_mem)
  then show ?thesis using latest_facts(3) accepted_mac by blast
qed

section \<open>A new controller starts with a zero image\<close>

text \<open>A running controller on the output relationship \<open>oc\<close> that will stop on the safe byte, and whose data bytes are all zero.\<close>

definition starts_safe :: "iocr_config \<Rightarrow> u16 \<times> u16 \<Rightarrow> cyclic_controller \<Rightarrow> bool" where
  "starts_safe oc out c \<longleftrightarrow> shared_ok (cc_shared c) \<and> sh_running (cc_shared c) \<and> cc_tx_thread c
     \<and> sh_output_iocr (cc_shared c) = oc \<and> length (sh_dst_mac (cc_shared c)) = 6 \<and> length (sh_src_mac (cc_shared c)) = 6
     \<and> sh_safe_output (cc_shared c) = Some (fst out, snd out, [SAFE_OUTPUT_BYTE])
     \<and> (\<forall>obj \<in> set (cfg_objects oc). image_at (cc_shared c) obj = replicate (obj_data_length obj) 0)"

lemma starts_safe_kept:
  "starts_safe oc out c \<Longrightarrow> shared_ok (cc_shared c') \<Longrightarrow> same_link (cc_shared c) (cc_shared c') \<Longrightarrow>
   cc_tx_thread c' = cc_tx_thread c \<Longrightarrow> image_kept (cc_shared c) (cc_shared c') \<Longrightarrow> starts_safe oc out c'"
  by (simp add: starts_safe_def same_link_def image_kept_def)

lemma threads_start_safe:
  "starts_safe oc out c \<Longrightarrow> list_all thread_op ops \<Longrightarrow> \<exists>c'. fold cyclic_step ops (Some c) = Some c' \<and> starts_safe oc out c'"
proof (induction ops arbitrary: c)
  case (Cons op ops)
  have ok: "shared_ok (cc_shared c)" using Cons.prems(1) by (simp add: starts_safe_def)
  have "\<exists>c'. cyclic_exec op c = Some c' \<and> starts_safe oc out c'"
  proof (cases op)
    case (OpReceive t i)
    obtain go sh where r: "rx_pass t i (cc_shared c) = Some (go, sh)" "shared_ok sh" "same_link (cc_shared c) sh"
      using rx_pass_runs [OF ok, of t i] by (auto simp: runs_iff)
    then show ?thesis using OpReceive starts_safe_kept [OF Cons.prems(1), of "c\<lparr>cc_shared := sh\<rparr>"] rx_pass_image [OF ok r(1)] by simp
  next
    case (OpTransmit now e loc)
    obtain f l sh where r: "tx_pass now e loc (cc_shared c) = Some (f, l, sh)" "shared_ok sh" "same_link (cc_shared c) sh"
      using tx_pass_runs [OF ok, of now e loc] by (auto simp: runs_iff)
    then show ?thesis using OpTransmit starts_safe_kept [OF Cons.prems(1), of "c\<lparr>cc_shared := sh\<rparr>"] tx_pass_image(1) [OF ok r(1)] by simp
  qed (use Cons.prems(2) in simp_all)
  then show ?case using Cons by (auto simp: cyclic_step_def)
qed simp

lemma fill_iops_other:
  "fill_iops v objs buf = Some r \<Longrightarrow> \<forall>ob \<in> set objs. 0 < obj_data_length ob \<longrightarrow> obj_iops_offset ob \<noteq> k \<Longrightarrow>
   length r = length buf \<and> r ! k = buf ! k"
proof (induction objs arbitrary: buf)
  case (Cons ob objs)
  show ?case
  proof (cases "0 < obj_data_length ob")
    case True
    then show ?thesis using Cons by (fastforce simp: set_idx_def split: bind_splits if_splits)
  qed (use Cons in simp)
qed simp

lemma iops_apart:
  assumes "config_ok c" and "x \<in> set (cfg_objects c)" and "y \<in> set (cfg_objects c)" and "0 < obj_data_length y"
  shows "obj_iops_offset y < obj_frame_offset x \<or> obj_frame_offset x + obj_data_length x \<le> obj_iops_offset y"
proof -
  have "obj_shape y" using chained_mem assms(1,3) unfolding config_ok_def by blast
  then have k: "obj_iops_offset y = obj_frame_offset y + obj_data_length y" using assms(4) by (simp add: obj_shape_def)
  show ?thesis
  proof (cases "x = y")
    case False
    then show ?thesis using chained_apart [OF assms(1-3)] k assms(4) by (auto simp: obj_size_def split: if_splits)
  qed (use k in simp)
qed

lemma new_image_zero:
  assumes "config_ok oc" and "set_all_iops v (builder_new oc) = Some b" and "obj \<in> set (cfg_objects oc)"
  shows "take (obj_data_length obj) (drop (obj_frame_offset obj) (cdb_write_buffer b)) = replicate (obj_data_length obj) 0"
proof -
  obtain r where r: "fill_iops v (cfg_objects oc) (replicate (cfg_data_length oc) 0) = Some r" "cdb_write_buffer b = r"
    using assms(2) by (auto simp: set_all_iops_def builder_new_def Let_def split: bind_splits)
  have len: "length r = cfg_data_length oc"
    using set_all_iops_runs [OF builder_new_ok [OF assms(1)], of v] assms(2) r(2)
    by (simp add: builder_ok_def builder_new_def Let_def)
  have b: "obj_frame_offset obj + obj_data_length obj \<le> cfg_data_length oc" using obj_in_bounds(1) [OF assms(1,3)] .
  have "r ! k = 0" if "obj_frame_offset obj \<le> k" "k < obj_frame_offset obj + obj_data_length obj" for k
    using fill_iops_other [OF r(1), of k] iops_apart [OF assms(1,3)] that b by fastforce
  then show ?thesis unfolding r(2) using len b by (intro nth_equalityI) auto
qed

lemma controller_starts_safe:
  assumes "config_ok oc" and "length m1 = 6" and "length m2 = 6"
    and "controller_new now ifn m1 m2 ic oc mx = Some (Inr c0)"
    and "c1 = c0\<lparr>cc_shared := (set_safe_output (fst out) (snd out) [SAFE_OUTPUT_BYTE] (cc_shared c0))\<lparr>sh_callbacks := cb\<rparr>\<rparr>"
  shows "\<exists>r c2. start now to ro ts rs c1 = Some (r, c2) \<and> shared_ok (cc_shared c2) \<and> (r = Inr () \<longrightarrow> starts_safe oc out c2)"
proof -
  obtain b where b: "set_all_iops IOXS_GOOD (builder_new oc) = Some b" "sh_output_builder (cc_shared c0) = b"
    "sh_output_iocr (cc_shared c0) = oc" "sh_dst_mac (cc_shared c0) = m2" "sh_src_mac (cc_shared c0) = m1"
    using assms(4) by (auto simp: controller_new_def Let_def split: if_splits bind_splits)
  have ok: "shared_ok (cc_shared c1)"
    using controller_new_ok [OF assms(1,4)] by (simp add: assms(5) set_safe_output_def shared_ok_def)
  obtain r c2 where s: "start now to ro ts rs c1 = Some (r, c2)" "shared_ok (cc_shared c2)"
    using start_runs [OF ok, of now to ro ts rs] by (auto simp: runs_iff)
  have "builder_ok b" using ok b(2) by (simp add: assms(5) set_safe_output_def shared_ok_def)
  then obtain b' where w: "swap b = Some b'" "cdb_write_buffer b' = cdb_write_buffer b"
    using swap_runs unfolding runs_iff by blast
  have "starts_safe oc out c2" if "r = Inr ()"
  proof -
    have "sh_running (cc_shared c2)" "cc_tx_thread c2" "sh_output_iocr (cc_shared c2) = oc"
      "sh_dst_mac (cc_shared c2) = m2" "sh_src_mac (cc_shared c2) = m1" "sh_output_builder (cc_shared c2) = b'"
      "sh_safe_output (cc_shared c2) = Some (fst out, snd out, [SAFE_OUTPUT_BYTE])"
      using s(1) that b w by (auto simp: start_def assms(5) set_safe_output_def Let_def split: if_splits option.splits)
    then show ?thesis
      using s(2) assms(2,3) w(2) new_image_zero [OF assms(1) b(1)] by (simp add: starts_safe_def image_at_def)
  qed
  then show ?thesis using s by blast
qed

section \<open>The new AR\<close>

lemma ends_drop_ctl:
  assumes "shared_ok (cc_shared ctl)"
  shows "ends (holds k c) (drop_ctl w ctl) (\<lambda>_. holds k c)"
proof -
  obtain r where "stop (tw_tx_joined w) (tw_sends w) ctl = Some r"
    using cyclic_exec_runs [OF assms, of "OpStop (tw_tx_joined w) (tw_sends w)"] by (auto simp: runs_iff)
  then show ?thesis by (simp add: ends_def drop_ctl_def holds_def)
qed

lemma ends_drop_bail: "ends (holds (Suc k) c) (andthen (drop_cli c) (\<lambda>_. bail e)) N"
  by (rule ends_andthen [OF ends_drop ends_bail])

text \<open>\<open>G\<close>: what is known of the running controller, kept by its threads.\<close>

lemma ends_ar_run:
  assumes "config_ok (snd iocrs)"
    and "\<forall>c0. controller_new (tw_now w) (nt_iface n) m1 m2 (fst iocrs) (snd iocrs) 3 = Some (Inr c0) \<longrightarrow>
      (\<exists>st c2. start (tw_now w) (tw_tx_open w) (tw_rx_open w) (tw_tx_spawn w) (tw_rx_spawn w)
          (c0\<lparr>cc_shared := prep (cc_shared c0)\<rparr>) = Some (st, c2) \<and> shared_ok (cc_shared c2) \<and> (st = Inr () \<longrightarrow> G c2))"
    and "\<forall>c. G c \<longrightarrow> shared_ok (cc_shared c)"
    and "\<forall>ops c. G c \<and> ops \<in> {tw_param w, tw_ready w} \<longrightarrow> (\<exists>c'. fold cyclic_step ops (Some c) = Some c' \<and> G c')"
  shows "ends (holds (Suc (Suc (Suc k))) conn) (ar_run n w m1 m2 iocrs prep conn)
     (\<lambda>x s. holds (Suc k) (fst x) s \<and> G (snd x))"
  unfolding ends_def
proof (intro allI impI)
  fix s assume h: "holds (Suc (Suc (Suc k))) conn s"
  let ?new = "controller_new (tw_now w) (nt_iface n) m1 m2 (fst iocrs) (snd iocrs) 3"
  let ?post = "\<lambda>r s'. case r of Inl _ \<Rightarrow> balanced s'
      | Inr x \<Rightarrow> holds (Suc k) (fst x) s' \<and> G (snd x)"
  have drop1: "\<exists>r s'. andthen (drop_cli conn) (\<lambda>_. bail e) s = Some (r, s') \<and> ?post r s'" for e
    by (rule ends_apply [OF ends_drop_bail h])
  have drop2: "\<exists>r s'. andthen (drop_ctl w c) (\<lambda>_. andthen (drop_cli conn) (\<lambda>_. bail e)) s = Some (r, s') \<and> ?post r s'"
    if "shared_ok (cc_shared c)" for c e
    by (rule ends_apply [OF ends_andthen [OF ends_drop_ctl [OF that] ends_drop_bail] h])
  have drop3: "\<exists>r s'. andthen (drop_ctl w c) (\<lambda>_. andthen (finish conn') (\<lambda>_. bail e)) s = Some (r, s') \<and> ?post r s'"
    if "shared_ok (cc_shared c)" "conn_room (Suc k) conn'" for c e conn'
  proof -
    have "holds (Suc k) conn' s" using h that(2) by (simp add: holds_def)
    then show ?thesis by (rule ends_apply [OF ends_andthen [OF ends_drop_ctl [OF that(1)] ends_finish_bail]])
  qed
  obtain bl where "set_all_iops IOXS_GOOD (builder_new (snd iocrs)) = Some bl"
    using set_all_iops_runs [OF builder_new_ok [OF assms(1)], of IOXS_GOOD] by (auto simp: runs_iff)
  then have "?new \<noteq> None" by (simp add: controller_new_def)
  then obtain r where r: "?new = Some r" by blast
  show "\<exists>r s'. ar_run n w m1 m2 iocrs prep conn s = Some (r, s') \<and> ?post r s'"
  proof (cases r)
    case (Inl e)
    then show ?thesis using r drop1 by (simp add: ar_run_def)
  next
    case (Inr c0)
    let ?c1 = "c0\<lparr>cc_shared := prep (cc_shared c0)\<rparr>"
    obtain st c2 where st: "start (tw_now w) (tw_tx_open w) (tw_rx_open w) (tw_tx_spawn w) (tw_rx_spawn w) ?c1 = Some (st, c2)"
      "shared_ok (cc_shared c2)" "st = Inr () \<longrightarrow> G c2"
      using assms(2) r [unfolded Inr] by blast
    show ?thesis
    proof (cases st)
      case (Inl e)
      then show ?thesis using r \<open>r = Inr c0\<close> st drop2 by (simp add: ar_run_def Let_def)
    next
      case (Inr u)
      obtain p conn1 where p: "prm_end conn = Some (p, conn1)" "conn_room (Suc (Suc k)) conn1"
        using op_okD [OF prm_end_op_ok, of "Suc (Suc k)" conn] h by (auto simp: holds_def)
      obtain c3 where c3: "fold cyclic_step (tw_param w) (Some c2) = Some c3" "G c3"
        using assms(4) st(3) Inr by auto
      obtain c4 where c4: "fold cyclic_step (tw_ready w) (Some c3) = Some c4" "G c4"
        using assms(4) c3(2) by blast
      obtain q' conn' where q': "application_ready APP_READY_TIMEOUT conn1 = Some (q', conn')" "conn_room (Suc k) conn'"
        using op_okD [OF ready_op_ok [of APP_READY_TIMEOUT] p(2)] by blast
      then obtain q conn2 where q: "(case p of Inl e \<Rightarrow> Some (Inl e, conn1) | Inr _ \<Rightarrow> application_ready APP_READY_TIMEOUT conn1)
          = Some (q, conn2)" "conn_room (Suc k) conn2"
        using conn_room_le [OF p(2), of "Suc k"] by (cases p) auto
      have ok4: "shared_ok (cc_shared c4)" "holds (Suc k) conn2 s"
        using assms(3) c4(2) q(2) h by (auto simp: holds_def)
      have "ar_run n w m1 m2 iocrs prep conn s = (case q of
          Inl e \<Rightarrow> andthen (drop_ctl w c4) (\<lambda>_. andthen (finish conn2) (\<lambda>_. bail (CText e))) s
        | Inr _ \<Rightarrow> Some (Inr (conn2, c4), s))"
        using r \<open>r = Inr c0\<close> st(1) Inr p(1) c3(1) c4(1) q(1) by (simp add: ar_run_def Let_def)
      then show ?thesis using drop3 [OF ok4(1) q(2)] ok4(2) c4(2) by (cases q) simp_all
    qed
  qed
qed

lemma ends_run:
  assumes "config_ok (snd iocrs)" and "length m1 = 6" and "length m2 = 6"
    and "list_all thread_op (tw_param w)" and "list_all thread_op (tw_ready w)"
  shows "ends (holds (Suc (Suc (Suc k))) conn) (tier_run n w m1 m2 iocrs out conn)
     (\<lambda>x s. holds (Suc k) (fst x) s \<and> starts_safe (snd iocrs) out (snd x))"
  unfolding tier_run_def
proof (rule ends_ar_run [OF assms(1)], goal_cases)
  case 1
  then show ?case using controller_starts_safe [OF assms(1-3) _ refl] by blast
next
  case 2
  then show ?case by (simp add: starts_safe_def)
next
  case 3
  then show ?case using threads_start_safe assms(4,5) by blast
qed

lemma ends_open_ar:
  assumes "net_ok n" and "length (is_io_slots su) < 65536" and "Suc (Suc k) < 2 ^ 32"
  shows "ends balanced (open_ar n mac ip dev su)
     (\<lambda>x s. holds (Suc k) (snd x) s \<and> is_rt_class_1_frame_id (cr_output_frame_id (fst x)))"
  unfolding open_ar_def
proof (rule ends_andthen [OF ends_open [OF assms(1), of "Suc 0 + Suc k"]])
  show "Suc 0 + Suc k < 2 ^ 32" using assms(3) by simp
next
  fix conn
  have op: "\<exists>r c'. rc_connect mac CM_STATION_NAME su c = Some (r, c') \<and> conn_room (Suc k) c' \<and> conn_step\<^sup>*\<^sup>* c c'"
    if "conn_room (Suc 0 + Suc k) c" for c
    by (rule op_ok_room [OF connect_op_ok that]) (simp add: assms(2))
  show "ends (holds (Suc 0 + Suc k) conn) (andthen (use CText (rc_connect mac CM_STATION_NAME su) conn) (\<lambda>(result, c1).
       if \<not> cr_has_cyclic result
       then andthen (finish c1) (\<lambda>_. bail (CText ''cyclic IO not established by device''))
       else if \<not> is_rt_class_1_frame_id (cr_output_frame_id result)
       then andthen (finish c1) (\<lambda>_. bail (CNoOutputFrame (cr_output_frame_id result)))
       else ret (result, c1)))
     (\<lambda>x s. holds (Suc k) (snd x) s \<and> is_rt_class_1_frame_id (cr_output_frame_id (fst x)))"
    by (rule ends_andthen [OF ends_use_many [OF op]], assumption, rule ends_given)
       (auto simp: split_def ends_finish_bail intro!: ends_ret_ok)
qed

lemma ends_tier_connect:
  assumes "net_ok n" and "length slots < 65536" and "Suc (Suc k) < 2 ^ 32"
  shows "ends balanced (tier_connect n target a slots mac) (\<lambda>x s. holds (Suc k) (snd (snd x)) s
     \<and> length (dd_mac (fst x)) = 6 \<and> is_rt_class_1_frame_id (cr_output_frame_id (fst (snd x))))"
  unfolding tier_connect_def
proof (rule ends_andthen [OF ends_fact [OF ends_resolve, where F = "\<lambda>d. length (dd_mac d) = 6"]], erule resolve_mac, rule ends_given)
  fix dev :: dcp_device
  assume "length (dd_mac dev) = 6"
  then show "ends balanced (andthen (source_address n (dd_ip dev)) (\<lambda>cm_ip.
     andthen (open_ar n mac cm_ip dev (tier_setup a slots)) (\<lambda>(result, c1). ret (dev, result, c1))))
     (\<lambda>x s. holds (Suc k) (snd (snd x)) s
       \<and> length (dd_mac (fst x)) = 6 \<and> is_rt_class_1_frame_id (cr_output_frame_id (fst (snd x))))"
    using assms by (intro ends_andthen [OF ends_source] ends_andthen [OF ends_open_ar])
      (auto simp: tier_setup_def split_def intro!: ends_ret_ok)
qed

lemma out_obj_zero_image:
  assumes "starts_safe oc out ctl" and "sf_out_slot cfg = fst out" and "sf_out_subslot cfg = snd out"
    and "out_obj cfg oc = Some obj" and "1 \<le> obj_data_length obj"
  shows "tier_ok cfg oc ctl" and "shows_byte cfg oc SAFE_OUTPUT_BYTE ctl"
proof -
  show "tier_ok cfg oc ctl" using assms by (auto simp: starts_safe_def tier_ok_def)
  have "image_at (cc_shared ctl) obj = replicate (obj_data_length obj) 0"
    using assms(1) out_obj_mem [OF assms(4)] by (simp add: starts_safe_def)
  then show "shows_byte cfg oc SAFE_OUTPUT_BYTE ctl"
    using assms(4,5) by (cases "obj_data_length obj") (simp_all add: shows_byte_def SAFE_OUTPUT_BYTE_def)
qed

section \<open>A takeover is gated and leaves nothing behind\<close>

text \<open>The calls a takeover makes on the old AR at most: discovery, the paced read, the probe and the release.\<close>

definition tier_room :: nat where "tier_room = PACED_READ_RETRIES + 3"

text \<open>A layout with outputs, and an output relationship that carries the submodule to drive.\<close>

definition has_output :: "io_slot list \<Rightarrow> bool" where
  "has_output slots \<longleftrightarrow> list_ex (\<lambda>s. 0 < ios_output_length s) slots"

definition drives :: "iocr_config \<Rightarrow> u16 \<times> u16 \<Rightarrow> bool" where
  "drives oc out \<longleftrightarrow> (\<exists>obj. find (\<lambda>ob. obj_slot ob = fst out \<and> obj_subslot ob = snd out) (cfg_objects oc) = Some obj
     \<and> 1 \<le> obj_data_length obj)"

lemma first_data_object:
  "find (\<lambda>s. 0 < len s) slots = Some sl \<Longrightarrow>
   \<exists>obj rest. fst (data_objects len off slots) = obj # rest \<and> obj_slot obj = ios_slot sl \<and> obj_subslot obj = ios_subslot sl
     \<and> obj_data_length obj = len sl"
  by (induction slots arbitrary: off) (auto simp: Let_def split: if_splits)

lemma output_drives:
  assumes "has_output slots"
  shows "drives (snd (tier_iocrs a slots result)) (output_submodule slots p)"
proof -
  have "find (\<lambda>s. 0 < ios_output_length s) slots \<noteq> None"
    using assms by (auto simp: has_output_def find_None_iff list_ex_iff)
  then obtain sl where sl: "find (\<lambda>s. 0 < ios_output_length s) slots = Some sl" by blast
  obtain obj rest where "fst (data_objects ios_output_length 0 slots) = obj # rest" "obj_slot obj = ios_slot sl"
    "obj_subslot obj = ios_subslot sl" "obj_data_length obj = ios_output_length sl"
    using first_data_object [OF sl] by blast
  moreover have "0 < ios_output_length sl" using sl by (auto simp: find_Some_iff)
  ultimately show ?thesis
    by (simp add: drives_def output_submodule_def sl tier_iocrs_def build_iocr_configs_def Let_def split_def)
qed

definition tier_starts :: "nat \<Rightarrow> bool \<Rightarrow> bool \<Rightarrow> rpc_conn \<Rightarrow> cyclic_tier \<Rightarrow> cli_state \<Rightarrow> bool" where
  "tier_starts k rq od conn t s \<longleftrightarrow> holds (Suc k) (ct_conn t) s
     \<and> (rq \<longrightarrow> shown_safe conn (ct_out_slot t, ct_out_subslot t))
     \<and> (\<exists>oc. is_rt_class_1_frame_id (cfg_frame_id oc) \<and> starts_safe oc (ct_out_slot t, ct_out_subslot t) (ct_cyclic t)
          \<and> (od \<longrightarrow> drives oc (ct_out_slot t, ct_out_subslot t)))"

text \<open>The last steps, from the running controller back to the gate.\<close>

definition tier_of :: "u16 \<times> u16 \<Rightarrow> out_line list \<Rightarrow> rpc_conn \<times> cyclic_controller \<Rightarrow> cyclic_tier cli" where
  "tier_of out ls = (\<lambda>(c, ctl). andthen (put ls) (\<lambda>_.
     ret \<lparr>ct_conn = c, ct_cyclic = ctl, ct_out_slot = fst out, ct_out_subslot = snd out\<rparr>))"

lemma ends_tier_of:
  assumes "rq \<longrightarrow> shown_safe conn out" and "is_rt_class_1_frame_id (cfg_frame_id oc)" and "od \<longrightarrow> drives oc out"
  shows "ends (\<lambda>s. holds (Suc k) (fst x) s \<and> starts_safe oc out (snd x)) (tier_of out ls x) (tier_starts k rq od conn)"
  unfolding tier_of_def split_def
  by (rule ends_given, rule ends_andthen [OF ends_put(2)], rule ends_ret_ok) (use assms in \<open>auto simp: tier_starts_def\<close>)

lemma ends_started:
  assumes "rq \<longrightarrow> shown_safe conn out" and "is_rt_class_1_frame_id (cr_output_frame_id result)"
    and "length cm_mac = 6" and "length (dd_mac dev) = 6"
    and "list_all thread_op (tw_param w)" and "list_all thread_op (tw_ready w)"
    and "od \<longrightarrow> drives (snd (tier_iocrs a slots result)) out"
  shows "ends (holds (Suc (Suc (Suc k))) c) (andthen (tier_run n w cm_mac (dd_mac dev) (tier_iocrs a slots result) out c)
     (tier_of out ls)) (tier_starts k rq od conn)"
proof (rule ends_andthen [OF ends_run [OF _ assms(3-6)] ends_tier_of [OF assms(1) _ assms(7)]])
  show "config_ok (snd (tier_iocrs a slots result))"
    unfolding tier_iocrs_def using build_iocr_configs_ok(2) by (metis prod.collapse)
  show "is_rt_class_1_frame_id (cfg_frame_id (snd (tier_iocrs a slots result)))"
    using assms(2) by (simp add: tier_iocrs_def build_iocr_configs_def Let_def split_def)
qed

text \<open>From the ownership probe on.\<close>

definition tier_rebind ::
    "net \<Rightarrow> tier_world \<Rightarrow> string \<Rightarrow> tier_args \<Rightarrow> bool \<Rightarrow> bytes \<Rightarrow> io_slot list \<Rightarrow> u16 \<times> u16 \<Rightarrow> nat \<Rightarrow> rpc_conn \<Rightarrow> cyclic_tier cli" where
  "tier_rebind n w target a rq cm_mac slots out actual c =
     andthen (tier_gate rq (fst out) (snd out) c) (\<lambda>c3.
     andthen (finish c3) (\<lambda>_.
     andthen (tier_connect n target a slots cm_mac) (\<lambda>(dev, result, c4).
     andthen (tier_run n w cm_mac (dd_mac dev) (tier_iocrs a slots result) out c4)
       (tier_of out [Json (LCyclicStarted (ta_cycle_ms a) (cr_input_frame_id result) (cr_output_frame_id result) actual
                (fst out) (snd out))]))))"

lemma start_cyclic_tier_eq:
  "start_cyclic_tier n w target a rq conn =
     andthen (guard_conn (map_sum CArg id (validate_cycle_ms (ta_cycle_ms a))) conn) (\<lambda>_.
     andthen (guard_conn (net_mac n) conn) (\<lambda>cm_mac.
     andthen (tier_layout a conn) (\<lambda>x.
     andthen (tier_preflight a (fst x) (snd x)) (\<lambda>y.
       tier_rebind n w target a rq cm_mac (fst x) (output_submodule (fst x) (fst (fst y), fst (snd (fst y))))
         (snd (snd (fst y))) (snd y)))))"
  by (simp add: start_cyclic_tier_def tier_rebind_def tier_of_def split_def Let_def)

lemma ends_rebind:
  assumes "net_ok n" and "list_all thread_op (tw_param w)" and "list_all thread_op (tw_ready w)"
    and "k < 2 ^ 32 - 4" and "conn_step\<^sup>*\<^sup>* conn c" and "length slots < 65536" and "length cm_mac = 6"
    and "od \<longrightarrow> has_output slots"
  shows "ends (holds (Suc (Suc 0)) c) (tier_rebind n w target a rq cm_mac slots (output_submodule slots p) actual c) (tier_starts k rq od conn)"
  unfolding tier_rebind_def
proof (rule ends_andthen [OF ends_gate], rule ends_given, rule ends_andthen [OF ends_finish],
    rule ends_andthen [OF ends_tier_connect [OF assms(1,6), of "Suc (Suc k)"]], goal_cases)
  case 1
  then show ?case using assms(4) by simp
next
  case (2 c3 u x)
  then have "rq \<longrightarrow> shown_safe conn (output_submodule slots p)" using shown_safe_later [OF assms(5)] by simp
  moreover have "od \<longrightarrow> drives (snd (tier_iocrs a slots r)) (output_submodule slots p)" for r
    using assms(8) output_drives by blast
  ultimately show ?case unfolding split_def using ends_started [OF _ _ assms(7) _ assms(2,3)] by (intro ends_given) blast
qed

lemma ends_taken:
  assumes "net_ok n" and "list_all thread_op (tw_param w)" and "list_all thread_op (tw_ready w)" and "k < 2 ^ 32 - 4"
    and "\<And>slots c s1. tier_layout a conn s = Some (Inr (slots, c), s1) \<Longrightarrow>
      length slots < 65536 \<and> (od \<longrightarrow> has_output slots)" and "length cm_mac = 6"
  shows "ends (\<lambda>s'. holds tier_room conn s' \<and> s' = s)
     (andthen (tier_layout a conn) (\<lambda>x.
      andthen (tier_preflight a (fst x) (snd x)) (\<lambda>y.
       tier_rebind n w target a rq cm_mac (fst x) (output_submodule (fst x) (fst (fst y), fst (snd (fst y))))
         (snd (snd (fst y))) (snd y)))) (tier_starts k rq od conn)"
proof (rule ends_andthen)
  have "tier_room = Suc (Suc (PACED_READ_RETRIES + 1))" by (simp add: tier_room_def)
  then show "ends (\<lambda>s'. holds tier_room conn s' \<and> s' = s) (tier_layout a conn)
     (\<lambda>x s'. (holds (Suc (PACED_READ_RETRIES + 1)) (snd x) s' \<and> conn_step\<^sup>*\<^sup>* conn (snd x)) \<and> length (fst x) < 65536 \<and> (od \<longrightarrow> has_output (fst x)))"
    using assms(5) by (intro ends_fact [OF ends_pre [OF ends_layout]]) auto
next
  fix x :: "io_slot list \<times> rpc_conn"
  have r: "Suc (PACED_READ_RETRIES + 1) = PACED_READ_RETRIES + Suc (Suc 0)" by simp
  show "ends (\<lambda>s'. (holds (Suc (PACED_READ_RETRIES + 1)) (snd x) s' \<and> conn_step\<^sup>*\<^sup>* conn (snd x)) \<and> length (fst x) < 65536 \<and> (od \<longrightarrow> has_output (fst x)))
     (andthen (tier_preflight a (fst x) (snd x)) (\<lambda>y.
       tier_rebind n w target a rq cm_mac (fst x) (output_submodule (fst x) (fst (fst y), fst (snd (fst y))))
         (snd (snd (fst y))) (snd y))) (tier_starts k rq od conn)"
    unfolding r
  proof (rule ends_given, rule ends_given, rule ends_andthen [OF ends_preflight], rule ends_given)
    fix y :: "(u16 \<times> u16 \<times> nat) \<times> rpc_conn"
    assume "length (fst x) < 65536 \<and> (od \<longrightarrow> has_output (fst x))" "conn_step\<^sup>*\<^sup>* conn (snd x)" "conn_step\<^sup>*\<^sup>* (snd x) (snd y)"
    then show "ends (holds (Suc (Suc 0)) (snd y)) (tier_rebind n w target a rq cm_mac (fst x)
        (output_submodule (fst x) (fst (fst y), fst (snd (fst y)))) (snd (snd (fst y))) (snd y)) (tier_starts k rq od conn)"
      by (intro ends_rebind [OF assms(1-4) _ _ assms(6)]) auto
  qed
qed

lemma guard_ok: "andthen (guard_conn (Inr x) c) f = f x"
  by (rule ext) (simp add: guard_conn_def andthen_def ret_def)

lemma ends_guard_error: "ends (holds (Suc k) c) (andthen (guard_conn (Inl e) c) f) N"
  by (rule ends_andthen [OF ends_guard], rule ends_given) simp

lemma get_mac_loop_length:
  "get_mac_loop mac_of iface names err = Inr mac \<Longrightarrow> \<forall>i m. mac_of i = Inr (Some m) \<longrightarrow> length m = 6 \<Longrightarrow> length mac = 6"
  by (induction names arbitrary: err) (auto split: sum.splits option.splits)

lemma net_mac_length: "net_ok n \<Longrightarrow> net_mac n = Inr mac \<Longrightarrow> length mac = 6"
  using get_mac_loop_length
  by (cases "get_mac (nt_mac_of n) (nt_iface n)") (auto simp: net_ok_def net_mac_def get_mac_def)

lemma ends_tier:
  assumes "net_ok n" and "list_all thread_op (tw_param w)" and "list_all thread_op (tw_ready w)" and "k < 2 ^ 32 - 4"
    and "\<And>slots c s1. tier_layout a conn s = Some (Inr (slots, c), s1) \<Longrightarrow>
      length slots < 65536 \<and> (od \<longrightarrow> has_output slots)"
  shows "ends (\<lambda>s'. holds tier_room conn s' \<and> s' = s) (start_cyclic_tier n w target a rq conn) (tier_starts k rq od conn)"
proof -
  have r: "tier_room = Suc (PACED_READ_RETRIES + 2)" by (simp add: tier_room_def)
  have bad: "ends (\<lambda>s'. holds tier_room conn s' \<and> s' = s) (andthen (guard_conn (Inl e) conn) f) N"
    for e f and N :: "cyclic_tier \<Rightarrow> cli_state \<Rightarrow> bool"
    unfolding r by (rule ends_pre [OF ends_guard_error]) simp
  show ?thesis
  proof (cases "validate_cycle_ms (ta_cycle_ms a)")
    case (Inl e)
    then show ?thesis unfolding start_cyclic_tier_eq Inl by (simp add: bad)
  next
    case (Inr u)
    show ?thesis
    proof (cases "net_mac n")
      case (Inl e)
      then show ?thesis unfolding start_cyclic_tier_eq Inr Inl by (simp add: guard_ok bad)
    next
      case (Inr cm_mac)
      then have "length cm_mac = 6" by (rule net_mac_length [OF assms(1)])
      then show ?thesis unfolding start_cyclic_tier_eq \<open>validate_cycle_ms (ta_cycle_ms a) = Inr u\<close> Inr
        using ends_taken [OF assms] by (simp add: guard_ok)
    qed
  qed
qed


text \<open>
  A takeover for the examples. The device of \<open>Gsdml.sample_device\<close>, with one submodule of three
  input and four output bytes, answers with its topology, its input image and an output image whose
  control byte is \<open>b\<close>.
\<close>

definition device_answer :: "u32 \<Rightarrow> bytes \<Rightarrow> rx_event" where
  "device_answer sq body = Datagram (enc_rpc ((sample_answer [])\<lparr>pr_sequence_number := sq, pr_payload := body\<rparr>))"

definition old_answers :: "u8 \<Rightarrow> rx_event list" where
  "old_answers b =
     (let rec = \<lambda>r. nrd_body True 0 4096 (replicate 64 0 @ r) in
      [device_answer 0 (rec (topo_record 0xF000 30 1 1 [(0, [(1, 1, [(1, 2)])])])),
       device_answer 1 (rec [0, 0x15, 0, 9, 1, 0, 0, 0, 0, 3, 7, 7, 7]),
       device_answer 2 (rec [0, 0x16, 0, 13, 1, 0, 0, 0, 0, 0, 0, 4, b, 0, 0, 0])])"

definition tier_sample_args :: tier_args where
  "tier_sample_args = \<lparr>ta_gsdml_path = ''d.xml'', ta_gsdml = Inr Gsdml.sample_device, ta_cycle_ms = 32,
     ta_watchdog_factor = 3, ta_exclude_zero_io = False, ta_input = None\<rparr>"

definition tier_sample_world :: tier_world where
  "tier_sample_world = \<lparr>tw_now = 0, tw_tx_open = None, tw_rx_open = None, tw_tx_spawn = None, tw_rx_spawn = None,
     tw_param = [], tw_ready = [], tw_tx_joined = True, tw_sends = [True, True, True]\<rparr>"

definition one_open :: cli_state where "one_open = fresh_cli\<lparr>cl_opens := 1, cl_opened := 1\<rparr>"

text \<open>A connection whose next answers are \<open>es\<close>, and one without an AR.\<close>

definition next_answers :: "u32 \<Rightarrow> rx_event list \<Rightarrow> rpc_conn \<Rightarrow> bool" where
  "next_answers sq es c \<longleftrightarrow> conn_ok c \<and> co_sequence_number c = sq \<and> co_activity_uuid c = replicate 16 7
     \<and> tp_rx (co_transport c) = es \<and> tp_tx (co_transport c) = []"

definition answering_conn :: "u32 \<Rightarrow> rx_event list \<Rightarrow> rpc_conn \<Rightarrow> bool" where
  "answering_conn sq es c \<longleftrightarrow> next_answers sq es c \<and> \<not> co_connected c"

lemma next_read:
  assumes "next_answers sq (device_answer sq (nrd_body True 0 4096 (replicate 64 0 @ rec)) # es) c" and "sq \<noteq> 0xFFFFFFFF"
  shows "\<exists>c'. read_raw i s u l c = Some (Inr rec, c') \<and> next_answers (sq + 1) es c' \<and> co_connected c' = co_connected c"
proof -
  let ?h = "(sample_answer [])\<lparr>pr_sequence_number := sq, pr_payload := nrd_body True 0 4096 (replicate 64 0 @ rec)\<rparr>"
  have h: "rpc_ok ?h" "answers (co_activity_uuid c) (co_sequence_number c) ?h"
    using sample_answer_ok [of "[]"] sample_uuid assms(1) by (simp_all add: rpc_ok_def answers_def next_answers_def)
  have "read_raw i s u l c = pure_io (parse_read_response (pr_payload ?h) (pr_is_little_endian ?h))
      (after_call c (read_request_of c i s u l) es)"
    using assms h by (intro read_raw_stream(1) [where ds = "[]"]) (auto simp: next_answers_def device_answer_def sends_ok_def)
  then show ?thesis
    using assms(1) sample_answer_ok(5) [of "[]"]
    by (auto simp: pure_io_def read_response_body next_answers_def after_call_def conn_ok_def)
qed

lemma answering_read:
  assumes "answering_conn sq (device_answer sq (nrd_body True 0 4096 (replicate 64 0 @ rec)) # es) c" and "sq \<noteq> 0xFFFFFFFF"
  shows "\<exists>c'. read_raw i s u l c = Some (Inr rec, c') \<and> answering_conn (sq + 1) es c'"
  using next_read assms unfolding answering_conn_def by blast

definition sample_slot :: io_slot where
  "sample_slot = \<lparr>ios_slot = 1, ios_subslot = 1, ios_module_ident = 1, ios_submodule_ident = 2, ios_input_length = 3,
     ios_output_length = 4\<rparr>"

lemma sample_records:
  "parse_real_identification_data (topo_record 0xF000 30 1 1 [(0, [(1, 1, [(1, 2)])])]) =
     Some \<lparr>ri_slots = flat_topo [(0, [(1, 1, [(1, 2)])])], ri_version = (1, 1)\<rparr>"
  "build_io_slots_from_device Gsdml.sample_device (map to_device_slot (flat_topo [(0, [(1, 1, [(1, 2)])])])) None
     = Inr [sample_slot]"
  "parse_input_data_length [0, 0x15, 0, 9, 1, 0, 0, 0, 0, 3, 7, 7, 7] = Some 3"
  "parse_output_control_byte [0, 0x16, 0, 13, 1, 0, 0, 0, 0, 0, 0, 4, b, 0, 0, 0] = Some (Some b)"
  by code_simp+

lemma sample_layout:
  "\<exists>c. tier_layout tier_sample_args (sample_conn (old_answers b)) s = Some (Inr ([sample_slot], c), s)
     \<and> answering_conn 1 (List.tl (old_answers b)) c"
proof -
  have "answering_conn 0 (old_answers b) (sample_conn (old_answers b))"
    using sample_conn_ok [of "old_answers b"] by (simp add: answering_conn_def next_answers_def sample_transport_def sample_conn_def with_transport_def)
  then obtain c where c: "read_raw REAL_ID_API 0 1 READ_LENGTH (sample_conn (old_answers b))
      = Some (Inr (topo_record 0xF000 30 1 1 [(0, [(1, 1, [(1, 2)])])]), c)" "answering_conn 1 (List.tl (old_answers b)) c"
    using answering_read [of 0] by (fastforce simp: old_answers_def Let_def)
  show ?thesis using c
    by (simp add: tier_layout_def use_def discover_slots_def read_real_identification_data_def cbind_def pure_io_def
        sample_records tier_sample_args_def guard_conn_def andthen_def ret_def apply_zero_io_exclusion_def)
qed

lemma sample_gate:
  assumes "answering_conn 1 (List.tl (old_answers b)) c"
  shows "\<exists>c1 c2. tier_preflight tier_sample_args [sample_slot] c s = Some (Inr ((1, 1, 3), c1), s)
     \<and> read_raw 0x8029 1 1 128 c1 = Some (Inr [0, 0x16, 0, 13, 1, 0, 0, 0, 0, 0, 0, 4, b, 0, 0, 0], c2)
     \<and> answering_conn 3 [] c2"
proof -
  obtain c1 where c1: "read_raw 0x8028 1 1 128 c = Some (Inr [0, 0x15, 0, 9, 1, 0, 0, 0, 0, 3, 7, 7, 7], c1)"
    "answering_conn 2 (List.tl (List.tl (old_answers b))) c1"
    using answering_read [of 1] assms by (fastforce simp: old_answers_def Let_def)
  obtain c2 where "read_raw 0x8029 1 1 128 c1 = Some (Inr [0, 0x16, 0, 13, 1, 0, 0, 0, 0, 0, 0, 4, b, 0, 0, 0], c2)"
    "answering_conn 3 [] c2"
    using answering_read [of 2] c1(2) by (fastforce simp: old_answers_def Let_def)
  moreover have "tier_preflight tier_sample_args [sample_slot] c s = Some (Inr ((1, 1, 3), c1), s)"
    using c1(1) by (simp add: tier_preflight_def input_submodule_def tier_sample_args_def sample_slot_def guard_conn_def
        use_def PACED_READ_RETRIES_def eval_nat_numeral sample_records andthen_def ret_def)
  ultimately show ?thesis by blast
qed

lemma sample_refused:
  "\<exists>e s'. start_cyclic_tier sample_net tier_sample_world ''b'' tier_sample_args True (sample_conn (old_answers 1)) one_open
     = Some (Inl e, s') \<and> length (cl_out s') = 2"
proof -
  obtain c where c: "tier_layout tier_sample_args (sample_conn (old_answers 1)) one_open = Some (Inr ([sample_slot], c), one_open)"
    "answering_conn 1 (List.tl (old_answers 1)) c" using sample_layout by blast
  obtain c1 c2 where g: "tier_preflight tier_sample_args [sample_slot] c one_open = Some (Inr ((1, 1, 3), c1), one_open)"
    "read_raw 0x8029 1 1 128 c1 = Some (Inr [0, 0x16, 0, 13, 1, 0, 0, 0, 0, 0, 0, 4, 1, 0, 0, 0], c2)" "answering_conn 3 [] c2"
    using sample_gate [OF c(2)] by blast
  have v: "validate_cycle_ms (ta_cycle_ms tier_sample_args) = Inr ()"
    using image_eqI [of "32 :: nat" "\<lambda>k. 2 ^ k" 5 "{0..<16 :: nat}"]
    by (simp add: tier_sample_args_def validate_cycle_ms_def is_power_of_two_def)
  have m: "net_mac sample_net = Inr [0, 1, 2, 3, 4, 5]"
    by (simp add: net_mac_def sample_net_def get_mac_def mac_lookup_names_def)
  have o: "output_submodule [sample_slot] p = (1, 1)" for p by (simp add: output_submodule_def sample_slot_def)
  have p: "probe_safe (Inr [0, 0x16, 0, 13, 1, 0, 0, 0, 0, 0, 0, 4, 1, 0, 0, 0])
      = Some (False, LCurrentOutput 16 (hex_encode [0, 0x16, 0, 13, 1, 0, 0, 0, 0, 0, 0, 4, 1, 0, 0, 0]))"
    by (simp add: probe_safe_def sample_records SAFE_OUTPUT_BYTE_def)
  have f: "finish c2 t = Some (Inr (), t\<lparr>cl_closed := cl_closed t @ [c2]\<rparr>)" for t
    using g(3) by (simp add: finish_def drop_cli_def rc_drop_def uncalled answering_conn_def)
  have gate: "\<exists>e t'. tier_gate True 1 1 c1 t = Some (Inl e, t') \<and> length (cl_out t') = length (cl_out t) + 2" for t
    by (simp add: tier_gate_def g(2) p f andthen_def put_def bail_def)
  obtain e t' where t: "tier_gate True 1 1 c1 one_open = Some (Inl e, t')" "length (cl_out t') = 2"
    using gate [of one_open] by (auto simp: one_open_def fresh_cli_def)
  have "start_cyclic_tier sample_net tier_sample_world ''b'' tier_sample_args True (sample_conn (old_answers 1)) one_open = Some (Inl e, t')"
    unfolding start_cyclic_tier_eq v m map_sum.simps(2) guard_ok
    by (simp only: andthen_def c(1) g(1) t(1) tier_rebind_def o option.case prod.case sum.case fst_conv snd_conv)
  then show ?thesis using t(2) by blast
qed


end
