(* ===== verification/Process.thy ===== *)
theory Process
  imports Tier
begin

text \<open>
  The \<open>serve\<close> process and the \<open>cyclic\<close> command of \<open>src/bin/profinet.rs\<close>, from their arguments to
  their result, and the dispatch of the command line (\<open>run\<close>). The text read from stdin, the signals,
  the clocks and what the controller's threads do arrive through the passes; the outcome of
  installing the signal handler and the reading of GSDML files are arguments too. A session that has
  not stopped after the given passes is a value of its own, so the theorems speak of every prefix of
  a session.
\<close>

section \<open>The serve process\<close>

record serve_cyclic_opts =
  sy_gsdml_path :: string
  sy_cycle_ms :: u16
  sy_watchdog_factor :: u16
  sy_exclude_zero_io :: bool
  sy_allow_mask :: u8
  sy_seconds :: nat

record serve_args =
  pr_read_only :: bool
  pr_gap_ms :: nat
  pr_keepalive_ms :: nat
  pr_cyclic :: "serve_cyclic_opts option"

record process_world =
  pw_handler :: "string + unit"
  pw_version :: string
  pw_gsdml :: "string \<Rightarrow> cli_error + gsdml_device"
  pw_tier :: tier_world
  pw_now :: nat
  pw_passes :: "pass_in list"
  pw_shutdown :: shutdown_in
  pw_host_us :: nat
  pw_debug :: "string \<Rightarrow> string"

text \<open>A session still being served, or the result it ended with.\<close>

datatype serve_outcome = Serving serve_state | Served "string + int"

definition process_mask :: "serve_args \<Rightarrow> u8" where
  "process_mask a = serve_allow_mask (pr_read_only a) (map_option sy_allow_mask (pr_cyclic a))"

definition install_shutdown_handler :: "process_world \<Rightarrow> cli_error + unit" where
  "install_shutdown_handler w = map_sum (\<lambda>e. CText (''failed to install Ctrl+C handler: '' @ e)) id (pw_handler w)"

definition serve_tier_args :: "process_world \<Rightarrow> serve_cyclic_opts \<Rightarrow> tier_args" where
  "serve_tier_args w y =
     \<lparr>ta_gsdml_path = sy_gsdml_path y, ta_gsdml = pw_gsdml w (sy_gsdml_path y), ta_cycle_ms = sy_cycle_ms y,
      ta_watchdog_factor = sy_watchdog_factor y, ta_exclude_zero_io = sy_exclude_zero_io y, ta_input = None\<rparr>"

definition io_controller_warning :: string where
  "io_controller_warning =
     ''--cyclic claims the device''@ [CHR 0x27] @ ''s single IO AR: this process is now its ''
     @ ''IO-controller and provides the outputs. Any controller that held that ''
     @ ''AR has been displaced. Bench and commissioning only.''"

text \<open>The optional tier: the connection, rebound onto the IO AR if there is one, and the controller with its output.\<close>

definition serve_tier ::
    "net \<Rightarrow> process_world \<Rightarrow> string \<Rightarrow> serve_args \<Rightarrow> rpc_conn \<Rightarrow> (rpc_conn \<times> cyclic_controller option \<times> u16 \<times> u16) cli" where
  "serve_tier n w target a conn =
     (case pr_cyclic a of
        None \<Rightarrow> ret (conn, None, 0, 0)
      | Some y \<Rightarrow>
          andthen (put [Json (LWarning ''io_controller_mode'' io_controller_warning)]) (\<lambda>_.
          andthen (start_cyclic_tier n (pw_tier w) target (serve_tier_args w y) (process_mask a \<noteq> 0) conn) (\<lambda>t.
            ret (ct_conn t, Some (ct_cyclic t), ct_out_slot t, ct_out_subslot t))))"

definition serve_cfg_of :: "process_world \<Rightarrow> serve_args \<Rightarrow> u16 \<times> u16 \<Rightarrow> serve_cfg" where
  "serve_cfg_of w a out =
     \<lparr>sf_read_only = pr_read_only a, sf_gap = pr_gap_ms a * 1000, sf_keepalive_ms = pr_keepalive_ms a,
      sf_allow_mask = process_mask a, sf_cycle_ms = (case pr_cyclic a of Some y \<Rightarrow> sy_cycle_ms y | None \<Rightarrow> 0),
      sf_seconds = (case pr_cyclic a of Some y \<Rightarrow> sy_seconds y | None \<Rightarrow> 0),
      sf_out_slot = fst out, sf_out_subslot = snd out, sf_start = pw_now w, sf_debug = pw_debug w\<rparr>"

text \<open>
  The end of the process: the shutdown or release, then the connection and the controller go out of
  scope, in that order, and the result is the shutdown's.
\<close>

definition serve_finish :: "serve_cfg \<Rightarrow> process_world \<Rightarrow> serve_stop \<Rightarrow> serve_state \<Rightarrow> serve_outcome cli" where
  "serve_finish cfg w halt st s = do {
     (res, frames, st1) \<leftarrow> serve_end cfg (pw_shutdown w) (pw_host_us w) halt st;
     andthen (put (map Json (sv_out st1))) (\<lambda>_.
     andthen (drop_cli (sv_conn st1)) (\<lambda>_.
     andthen (case sv_ctl st1 of None \<Rightarrow> ret () | Some ctl \<Rightarrow> drop_ctl (pw_tier w) ctl) (\<lambda>_.
       ret (Served res))))
       (s\<lparr>cl_stopped := cl_stopped s @ (case sv_ctl st1 of None \<Rightarrow> [] | Some ctl \<Rightarrow> [(frames, ctl)])\<rparr>) }"

definition serve_body ::
    "serve_cfg \<Rightarrow> process_world \<Rightarrow> rpc_conn \<Rightarrow> cyclic_controller option \<Rightarrow> serve_outcome cli" where
  "serve_body cfg w conn ctl s = do {
     (halt, st) \<leftarrow> serve_loop cfg (pw_passes w) (serve_begin cfg (pw_now w) [] conn ctl);
     (case halt of
        None \<Rightarrow> andthen (put (map Json (sv_out st))) (\<lambda>_. ret (Serving st)) s
      | Some h \<Rightarrow> serve_finish cfg w h st s) }"

definition cmd_serve :: "net \<Rightarrow> process_world \<Rightarrow> string \<Rightarrow> serve_args \<Rightarrow> serve_outcome cli" where
  "cmd_serve n w target a =
     andthen (lift (install_shutdown_handler w)) (\<lambda>_.
     andthen (rpc_connect n target) (\<lambda>conn.
     andthen (put [Json (LHello (pw_version w) target (pr_read_only a) (pr_gap_ms a) (pr_cyclic a \<noteq> None) (process_mask a))]) (\<lambda>_.
     andthen (serve_tier n w target a conn) (\<lambda>(c, ctl, out).
       serve_body (serve_cfg_of w a out) w c ctl))))"

section \<open>The cyclic command\<close>

text \<open>
  A pass of the monitor loop: what the controller's threads do while the main thread sleeps, the
  elapsed time in microseconds and its text (a float in a fixed format).
\<close>

record cyclic_pass =
  cy_threads :: "cyclic_op list"
  cy_elapsed :: nat
  cy_elapsed_text :: string

record cyclic_args =
  cy_gsdml_path :: string
  cy_cycle_ms :: u16
  cy_duration :: nat
  cy_submodules :: "string list"
  cy_exclude_zero_io :: bool

record cyclic_world =
  cw_gsdml :: "string \<Rightarrow> cli_error + gsdml_device"
  cw_tier :: tier_world
  cw_passes :: "cyclic_pass list"

datatype cyclic_outcome = Cycling rpc_conn cyclic_controller | Cycled int

definition bad_submodule :: "string \<Rightarrow> bool" where
  "bad_submodule spec \<longleftrightarrow> length (filter (\<lambda>c. c = CHR '':'') spec) + 1 \<noteq> 3"

definition bad_submodule_text :: "string \<Rightarrow> string" where
  "bad_submodule_text spec =
     ''invalid --submodule format '' @ [CHR 0x27] @ spec @ [CHR 0x27] @ '', expected slot:subslot:submodule_id''"

definition layout_lines :: "io_slot list \<Rightarrow> out_line list" where
  "layout_lines slots =
     Out ''Matching against GSDML...''
     # concat (map (\<lambda>s.
         if 0 < ios_input_length s \<or> 0 < ios_output_length s
         then [Out (''  slot='' @ dec16 (ios_slot s) @ '' sub='' @ dec16 (ios_subslot s) @ '': ''
           @ join_text '', ''
               ((if 0 < ios_input_length s then [dec_nat (ios_input_length s) @ ''B in''] else [])
                @ (if 0 < ios_output_length s then [dec_nat (ios_output_length s) @ ''B out''] else [])))]
         else []) slots)
     @ [Out (''Total: '' @ dec_nat (sum_list (map ios_input_length slots)) @ ''B input, ''
          @ dec_nat (sum_list (map ios_output_length slots)) @ ''B output'')]"

text \<open>
  From the connection to the layout. The first part of the discovery line is out before the
  discovery, so it stands alone when that fails.
\<close>

definition cyclic_layout :: "cyclic_world \<Rightarrow> cyclic_args \<Rightarrow> rpc_conn \<Rightarrow> (io_slot list \<times> rpc_conn) cli" where
  "cyclic_layout w a conn =
     andthen (put [Out ''Discovering slots... '']) (\<lambda>_.
     andthen (use CText discover_slots conn) (\<lambda>(device_slots, c1).
     andthen (put [Out (dec_nat (length device_slots) @ '' entries'')]) (\<lambda>_.
       case find bad_submodule (cy_submodules a) of
         Some spec \<Rightarrow> andthen (finish c1) (\<lambda>_. bail (CText (bad_submodule_text spec)))
       | None \<Rightarrow>
           andthen (guard_conn (cw_gsdml w (cy_gsdml_path a)) c1) (\<lambda>g.
           andthen (guard_conn (map_sum CGsdml id (build_io_slots_from_device g device_slots None)) c1) (\<lambda>slots.
             ret (apply_zero_io_exclusion slots (cy_exclude_zero_io a), c1))))))"

definition cyclic_setup :: "cyclic_args \<Rightarrow> io_slot list \<Rightarrow> iocr_setup" where
  "cyclic_setup a slots =
     \<lparr>is_io_slots = slots, is_send_clock_factor = 32, is_reduction_ratio = cy_cycle_ms a, is_watchdog_factor = 6,
      is_data_hold_factor = 6\<rparr>"

definition cyclic_iocrs :: "cyclic_args \<Rightarrow> io_slot list \<Rightarrow> connect_result \<Rightarrow> iocr_config \<times> iocr_config" where
  "cyclic_iocrs a slots result =
     build_iocr_configs slots (cr_input_frame_id result) (cr_output_frame_id result) 32 (cy_cycle_ms a) 6"

definition cyclic_callbacks :: callbacks where
  "cyclic_callbacks =
     \<lparr>on_input_data = False, on_input_status = True, on_timeout = False, on_error = False, on_state_change = False\<rparr>"

definition input_text :: "shared \<Rightarrow> u16 \<times> u16 \<Rightarrow> string" where
  "input_text sh = (\<lambda>(slot, subslot).
     dec16 slot @ '':'' @ dec16 subslot @ ''='' @
     (case get_input_data slot subslot sh of
        Some (b # bs) \<Rightarrow> hex_encode (b # bs)
      | _ \<Rightarrow> (case get_input_status slot subslot sh of
                Some iops \<Rightarrow> ''BAD(0x'' @ hex_upper 2 (unat iops) @ '')''
              | None \<Rightarrow> ''--'')))"

definition monitor_line :: "(u16 \<times> u16) list \<Rightarrow> cyclic_pass \<Rightarrow> shared \<Rightarrow> out_line" where
  "monitor_line inputs p sh =
     Out (''['' @ cy_elapsed_text p @ ''s] '' @ join_text '' '' (map (input_text sh) inputs) @ '' | TX=''
       @ dec_nat (frames_sent (sh_stats sh)) @ '' RX='' @ dec_nat (frames_received (sh_stats sh)))"

text \<open>The monitor: whether it has reached its duration, its lines, the controller.\<close>

fun monitor_loop ::
    "nat \<Rightarrow> (u16 \<times> u16) list \<Rightarrow> cyclic_pass list \<Rightarrow> cyclic_controller \<Rightarrow> (bool \<times> out_line list \<times> cyclic_controller) option" where
  "monitor_loop duration inputs [] ctl = Some (False, [], ctl)"
| "monitor_loop duration inputs (p # ps) ctl = do {
     c \<leftarrow> fold cyclic_step (cy_threads p) (Some ctl);
     (if 0 < duration \<and> duration * 1000000 \<le> cy_elapsed p then Some (True, [], c)
      else do {
        (done, ls, c') \<leftarrow> monitor_loop duration inputs ps c;
        Some (done, monitor_line inputs p (cc_shared c) # ls, c') }) }"

definition cyclic_monitor ::
    "cyclic_world \<Rightarrow> cyclic_args \<Rightarrow> io_slot list \<Rightarrow> rpc_conn \<Rightarrow> cyclic_controller \<Rightarrow> cyclic_outcome cli" where
  "cyclic_monitor w a slots conn ctl s = do {
     (done, ls, c) \<leftarrow> monitor_loop (cy_duration a)
       (map (\<lambda>s. (ios_slot s, ios_subslot s)) (filter (\<lambda>s. 0 < ios_input_length s) slots)) (cw_passes w) ctl;
     (if \<not> done then andthen (put ls) (\<lambda>_. ret (Cycling conn c)) s
      else do {
        (frames, c1) \<leftarrow> stop (tw_tx_joined (cw_tier w)) (tw_sends (cw_tier w)) c;
        let st = sh_stats (cc_shared c1);
        andthen (put (ls @ [Out [], Out (''Stopped. TX='' @ dec_nat (frames_sent st) @ '' RX='' @ dec_nat (frames_received st)
            @ '' missed='' @ dec_nat (frames_missed st))])) (\<lambda>_.
        andthen (finish conn) (\<lambda>_. ret (Cycled 0)))
          (s\<lparr>cl_stopped := cl_stopped s @ [(frames, c1)]\<rparr>) }) }"

text \<open>Up to the AR that the slots are discovered on: the MAC, the device, the source address, the connection.\<close>

definition cyclic_connect :: "net \<Rightarrow> string \<Rightarrow> (bytes \<times> dcp_device \<times> bytes \<times> rpc_conn) cli" where
  "cyclic_connect n target =
     andthen (lift (net_mac n)) (\<lambda>cm_mac.
     andthen (resolve_device n target) (\<lambda>dev.
     andthen (source_address n (dd_ip dev)) (\<lambda>cm_ip.
     andthen (put [Out (''Connecting to '' @ target @ '' ('' @ ip_or_default (dd_ip dev) @ '')...'')]) (\<lambda>_.
     andthen (open_raw n cm_mac cm_ip dev) (\<lambda>conn.
     andthen (use (\<lambda>e. CText (''Failed to connect to '' @ target @ '': '' @ e))
                (connect_device_access cm_mac CM_STATION_NAME) conn) (\<lambda>(_, c0).
       ret (cm_mac, dev, cm_ip, c0)))))))"

text \<open>The cyclic AR with its frames, from the released connection on.\<close>

definition cyclic_start ::
    "net \<Rightarrow> cyclic_world \<Rightarrow> cyclic_args \<Rightarrow> io_slot list \<Rightarrow> bytes \<Rightarrow> dcp_device \<Rightarrow> bytes \<Rightarrow> (rpc_conn \<times> cyclic_controller) cli" where
  "cyclic_start n w a slots cm_mac dev cm_ip =
     andthen (open_ar n cm_mac cm_ip dev (cyclic_setup a slots)) (\<lambda>(result, c2).
     andthen (put [Out [], Out (''Cyclic IO ('' @ dec16 (cy_cycle_ms a) @ ''ms cycle)...''),
                Out (''  Input frame: '' @ hex04 (cr_input_frame_id result) @ '', Output frame: '' @ hex04 (cr_output_frame_id result))]) (\<lambda>_.
       ar_run n (cw_tier w) cm_mac (dd_mac dev) (cyclic_iocrs a slots result) (\<lambda>sh. sh\<lparr>sh_callbacks := cyclic_callbacks\<rparr>) c2))"

text \<open>
  The connection of the discovery stays in scope to the end, but it is released before the new one
  is opened and its \<open>Drop\<close> then finds nothing to do, so it is counted as closed at the release.
  Likewise a controller that was stopped is stopped once more when it goes out of scope, without effect.
\<close>

definition cmd_cyclic :: "net \<Rightarrow> cyclic_world \<Rightarrow> string \<Rightarrow> cyclic_args \<Rightarrow> cyclic_outcome cli" where
  "cmd_cyclic n w target a =
     andthen (lift (map_sum CArg id (validate_cycle_ms (cy_cycle_ms a)))) (\<lambda>_.
     andthen (cyclic_connect n target) (\<lambda>(cm_mac, dev, cm_ip, c0).
     andthen (cyclic_layout w a c0) (\<lambda>(slots, c1).
     andthen (put (layout_lines slots)) (\<lambda>_.
     andthen (finish c1) (\<lambda>_.
     andthen (cyclic_start n w a slots cm_mac dev cm_ip) (\<lambda>(c3, ctl).
     andthen (put [Out ''  PrmEnd OK'', Out ''  ApplicationReady OK'', Out [], Out ''Running (Ctrl+C to stop)'']) (\<lambda>_.
       cyclic_monitor w a slots c3 ctl)))))))"

section \<open>The end of a process\<close>

lemma stop_keeps_ok:
  assumes "shared_ok (cc_shared c)"
  shows "\<exists>fs c'. stop j sends c = Some (fs, c') \<and> shared_ok (cc_shared c')"
  using cyclic_exec_runs [OF assms, of "OpStop j sends"] by (auto simp: runs_iff)

lemma serve_end_kept:
  assumes "serve_end cfg inp us halt s = Some (res, frames, s')" and "sv_ctl s = Some ctl" and "tier_ok cfg oc ctl"
    and "conn_room 11 (sv_conn s)" and "shutdown_ok inp" and "sv_ctl s' = Some ctl'"
  shows "shared_ok (cc_shared ctl')"
proof -
  obtain s0 where s0: "s0 = (case halt of StopArLost msg \<Rightarrow> say [LArLost us msg] s | _ \<Rightarrow> s)" by blast
  then have c: "sv_ctl s0 = Some ctl" "sv_conn s0 = sv_conn s" using assms(2) by (simp_all split: serve_stop.split)
  have sd: "\<forall>k a. list_all thread_op (sd_threads inp k a)" "\<forall>k. list_all thread_op (sd_hold inp k)"
    "list_all thread_op (sd_final inp)" using assms(5) by (simp_all add: shutdown_ok_def)
  have "conn_room (3 * 3 + 2) (sv_conn s0)" using assms(4) c(2) by simp
  then obtain v rb es cn ctl1 where 1: "shutdown_rounds cfg inp 0 3 [] (sv_conn s0) ctl = Some (v, rb, es, cn, ctl1)" "tier_ok cfg oc ctl1"
    using shutdown_rounds_runs [OF _ assms(3) sd(1,2), of 3 2] by blast
  obtain ctl2 where 2: "fold cyclic_step (sd_final inp) (Some ctl1) = Some ctl2" "tier_ok cfg oc ctl2"
    using threads_keep [OF 1(2) sd(3)] by blast
  have "shared_ok (cc_shared (ctl2\<lparr>cc_shared := set_safe_output (sf_out_slot cfg) (sf_out_subslot cfg) [0] (cc_shared ctl2)\<rparr>))"
    using 2(2) by (simp add: tier_ok_def shared_ok_def set_safe_output_def)
  then obtain fs ctl3 where 3: "stop_safe (sf_out_slot cfg) (sf_out_subslot cfg) [0] (sd_tx_joined inp) (sd_sends inp) ctl2 = Some (fs, ctl3)"
    "shared_ok (cc_shared ctl3)" using stop_keeps_ok by (fastforce simp: stop_safe_def)
  have sh: "sv_ctl s1 = Some ctl3" if "safe_shutdown cfg inp (stop_reason halt) ctl s0 = Some (v, fr, s1)" for v fr s1
    using that 1(1) 2(1) 3(1) by (simp add: safe_shutdown_def say_def Let_def split: bind_splits) force?
  have "serve_end cfg inp us halt s = do {
      (v, frames, s1) \<leftarrow> safe_shutdown cfg inp (stop_reason halt) ctl s0;
      (case safe_shutdown_verdict v s1 of
         (Inr _, s2) \<Rightarrow> Some (Inr (exit_code halt), frames, s2)
       | (Inl e, s2) \<Rightarrow> Some (Inl e, frames, s2)) }"
    using c(1) by (simp add: serve_end_def s0 [symmetric])
  then obtain v fr s1 where "safe_shutdown cfg inp (stop_reason halt) ctl s0 = Some (v, fr, s1)" "sv_ctl s' = sv_ctl s1"
    using assms(1) by (auto simp: safe_shutdown_verdict_def split: bind_splits if_splits)
  then have "ctl' = ctl3" using sh assms(6) by simp
  then show ?thesis using 3(2) by simp
qed

text \<open>
  What a process that ended leaves of its tier: the stopped controller with its STOP frames, the
  report, the alarm if the output could not be verified, and a result that says which.
\<close>

definition tier_ended :: "serve_cfg \<Rightarrow> iocr_config \<Rightarrow> process_world \<Rightarrow> string + int \<Rightarrow> cli_state \<Rightarrow> bool" where
  "tier_ended cfg oc w res s \<longleftrightarrow> (\<exists>frames ctl reason v rb. (frames, ctl) \<in> set (cl_stopped s) \<and> sh_state (cc_shared ctl) = Stopped
     \<and> (sd_tx_joined (pw_shutdown w) \<longrightarrow> frames \<noteq> []) \<and> list_all (safe_stop_frame cfg oc) frames
     \<and> Json (LSafeShutdown reason v rb) \<in> set (cl_out s) \<and> (\<not> v \<longrightarrow> Json (LAlarm reason rb) \<in> set (cl_out s))
     \<and> (case res of Inr _ \<Rightarrow> v | Inl _ \<Rightarrow> \<not> v))"

definition process_left :: "serve_cfg \<Rightarrow> iocr_config \<Rightarrow> process_world \<Rightarrow> bool \<Rightarrow> serve_outcome \<Rightarrow> cli_state \<Rightarrow> bool" where
  "process_left cfg oc w cyclic out s =
     (case out of
        Serving st \<Rightarrow> holds 1 (sv_conn st) s \<and> serve_ok cfg oc st \<and> (sv_ctl st \<noteq> None) = cyclic
      | Served res \<Rightarrow> balanced s \<and> (if cyclic then tier_ended cfg oc w res s else \<not> isl res))"

lemma drop_released: "\<not> co_connected c \<Longrightarrow> drop_cli c s = Some (Inr (), s\<lparr>cl_closed := cl_closed s @ [c]\<rparr>)"
  by (simp add: drop_cli_def rc_drop_def uncalled(3))

lemma serve_finish_ends:
  assumes "serve_ok cfg oc st" and "holds 11 (sv_conn st) s" and "shutdown_ok (pw_shutdown w)"
  shows "\<exists>r s'. serve_finish cfg w halt st s = Some (Inr (Served r), s') \<and> process_left cfg oc w (sv_ctl st \<noteq> None) (Served r) s'"
proof (cases "sv_ctl st")
  case None
  obtain c where c: "release (sv_conn st) = Some c" "\<not> co_connected c"
    using release_room [of 10 "sv_conn st"] assms(2) by (auto simp: holds_def)
  then show ?thesis using None assms(2)
    by (cases halt) (simp_all add: serve_finish_def serve_end_def say_def Let_def andthen_def put_def ret_def drop_released
        process_left_def balanced_def holds_def)
next
  case (Some ctl)
  have room: "conn_room 11 (sv_conn st)" using assms(2) by (simp add: holds_def)
  obtain res frames st' ctl' front v rb bk where e: "serve_end cfg (pw_shutdown w) (pw_host_us w) halt st = Some (res, frames, st')"
    "sv_ctl st' = Some ctl'" "sh_state (cc_shared ctl') = Stopped" "\<not> co_connected (sv_conn st')"
    "sd_tx_joined (pw_shutdown w) \<longrightarrow> frames \<noteq> []" "list_all (safe_stop_frame cfg oc) frames"
    "sv_out st' = front @ [LSafeShutdown (stop_reason halt) v rb] @ (if v then [] else [LAlarm (stop_reason halt) rb]) @ bk"
    "case res of Inr code \<Rightarrow> v \<and> code = exit_code halt | Inl _ \<Rightarrow> \<not> v"
    using serve_end_runs [OF assms(1) Some room assms(3), of "pw_host_us w" halt] by (elim exE conjE) (rule that)
  have "tier_ok cfg oc ctl" using assms(1) Some by (simp add: serve_ok_def)
  then have "shared_ok (cc_shared ctl')" using serve_end_kept [OF e(1) Some _ room assms(3) e(2)] by blast
  then obtain fs c2 where d: "stop (tw_tx_joined (pw_tier w)) (tw_sends (pw_tier w)) ctl' = Some (fs, c2)" using stop_keeps_ok by blast
  let ?s' = "s\<lparr>cl_stopped := cl_stopped s @ [(frames, ctl'), (fs, c2)], cl_out := cl_out s @ map Json (sv_out st'),
      cl_closed := cl_closed s @ [sv_conn st']\<rparr>"
  have "serve_finish cfg w halt st s = Some (Inr (Served res), ?s')"
    by (simp add: serve_finish_def e(1,2) andthen_def put_def ret_def drop_released [OF e(4)] drop_ctl_def d)
  moreover have "tier_ended cfg oc w res ?s'"
  proof -
    have "(frames, ctl') \<in> set (cl_stopped ?s')" by simp
    moreover have "Json (LSafeShutdown (stop_reason halt) v rb) \<in> set (cl_out ?s')" unfolding e(7) by simp
    moreover have "\<not> v \<longrightarrow> Json (LAlarm (stop_reason halt) rb) \<in> set (cl_out ?s')" unfolding e(7) by simp
    moreover have "case res of Inr _ \<Rightarrow> v | Inl _ \<Rightarrow> \<not> v" using e(8) by (cases res) simp_all
    ultimately show ?thesis unfolding tier_ended_def using e(3,5,6) by blast
  qed
  ultimately show ?thesis using assms(2) e(4) Some by (auto simp: process_left_def balanced_def holds_def)
qed

lemma ends_body:
  assumes "\<forall>c. ctl = Some c \<longrightarrow> tier_ok cfg oc c \<and> shows_byte cfg oc SAFE_OUTPUT_BYTE c"
    and "list_all pass_ok (pw_passes w)" and "shutdown_ok (pw_shutdown w)"
  shows "ends (holds (6 * length (pw_passes w) + 11) conn) (serve_body cfg w conn ctl) (process_left cfg oc w (ctl \<noteq> None))"
  unfolding ends_def
proof (intro allI impI)
  fix s assume h: "holds (6 * length (pw_passes w) + 11) conn s"
  let ?b = "serve_begin cfg (pw_now w) [] conn ctl"
  have b: "serve_ok cfg oc ?b" using assms(1) by (intro serve_begin_ok) simp_all
  have "conn_room (6 * length (pw_passes w) + 11) (sv_conn ?b)" using h by (simp add: serve_begin_def holds_def)
  then obtain halt st where 1: "serve_loop cfg (pw_passes w) ?b = Some (halt, st)" "serves cfg oc 11 ?b st"
    using serve_loop_runs [OF b _ assms(2)] by blast
  then have st: "serve_ok cfg oc st" "(sv_ctl st = None) = (ctl = None)" "holds 11 (sv_conn st) s"
    using h by (simp_all add: serves_def serve_begin_def holds_def)
  show "\<exists>r s'. serve_body cfg w conn ctl s = Some (r, s')
     \<and> (case r of Inl _ \<Rightarrow> balanced s' | Inr x \<Rightarrow> process_left cfg oc w (ctl \<noteq> None) x s')"
  proof (cases halt)
    case None
    have "holds 1 (sv_conn st) s" by (rule holds_le [OF st(3)]) simp
    then show ?thesis using 1(1) None st by (simp add: serve_body_def andthen_def put_def ret_def process_left_def holds_def)
  next
    case (Some hl)
    obtain r s' where "serve_finish cfg w hl st s = Some (Inr (Served r), s')" "process_left cfg oc w (sv_ctl st \<noteq> None) (Served r) s'"
      using serve_finish_ends [OF st(1,3) assms(3)] by blast
    then show ?thesis using 1(1) Some st(2) by (simp add: serve_body_def)
  qed
qed

section \<open>A serve process from start to end\<close>

lemma drives_tier:
  assumes "starts_safe oc out ctl" and "drives oc out"
  shows "tier_ok (serve_cfg_of w a out) oc ctl" and "shows_byte (serve_cfg_of w a out) oc SAFE_OUTPUT_BYTE ctl"
proof -
  obtain obj where "out_obj (serve_cfg_of w a out) oc = Some obj" "1 \<le> obj_data_length obj"
    using assms(2) by (auto simp: drives_def out_obj_def serve_cfg_of_def)
  from out_obj_zero_image [OF assms(1) _ _ this]
  show "tier_ok (serve_cfg_of w a out) oc ctl" "shows_byte (serve_cfg_of w a out) oc SAFE_OUTPUT_BYTE ctl"
    by (simp_all add: serve_cfg_of_def)
qed

text \<open>What the GSDML makes of the device: not too many submodules, one with outputs.\<close>

definition layout_fits :: "process_world \<Rightarrow> serve_args \<Rightarrow> rpc_conn \<Rightarrow> bool" where
  "layout_fits w a conn \<longleftrightarrow> (\<forall>y s slots c s1. pr_cyclic a = Some y \<longrightarrow>
     tier_layout (serve_tier_args w y) conn s = Some (Inr (slots, c), s1) \<longrightarrow> length slots < 65536 \<and> has_output slots)"

definition tier_ready :: "nat \<Rightarrow> bool \<Rightarrow> rpc_conn \<times> cyclic_controller option \<times> u16 \<times> u16 \<Rightarrow> cli_state \<Rightarrow> bool" where
  "tier_ready k cyclic = (\<lambda>(c, ctl, out) s. holds (Suc k) c s \<and> (ctl \<noteq> None) = cyclic
     \<and> (\<forall>t. ctl = Some t \<longrightarrow> (\<exists>oc. starts_safe oc out t \<and> drives oc out)))"

lemma ends_serve_tier:
  assumes "net_ok n" and "list_all thread_op (tw_param (pw_tier w))" and "list_all thread_op (tw_ready (pw_tier w))"
    and "k < 2 ^ 32 - 4" and "layout_fits w a conn"
  shows "ends (holds (tier_room + Suc k) conn) (serve_tier n w target a conn) (tier_ready k (pr_cyclic a \<noteq> None))"
proof (cases "pr_cyclic a")
  case None
  then show ?thesis unfolding serve_tier_def
    by (auto intro!: ends_ret_ok simp: tier_ready_def intro: holds_le)
next
  case (Some y)
  have t: "ends (holds (tier_room + Suc k) conn)
      (start_cyclic_tier n (pw_tier w) target (serve_tier_args w y) (process_mask a \<noteq> 0) conn)
      (tier_starts k (process_mask a \<noteq> 0) True conn)"
    unfolding ends_def
  proof (intro allI impI)
    fix s assume h: "holds (tier_room + Suc k) conn s"
    have l: "length slots < 65536 \<and> (True \<longrightarrow> has_output slots)"
      if "tier_layout (serve_tier_args w y) conn s = Some (Inr (slots, c), s1)" for slots c s1
      using assms(5) Some that by (auto simp: layout_fits_def)
    have "holds tier_room conn s" by (rule holds_le [OF h]) simp
    then show "\<exists>r s'. start_cyclic_tier n (pw_tier w) target (serve_tier_args w y) (process_mask a \<noteq> 0) conn s = Some (r, s')
      \<and> (case r of Inl _ \<Rightarrow> balanced s' | Inr x \<Rightarrow> tier_starts k (process_mask a \<noteq> 0) True conn x s')"
      by (intro ends_apply [OF ends_tier [OF assms(1-4) l]]) simp_all
  qed
  have r: "ends (tier_starts k (process_mask a \<noteq> 0) True conn t)
      (ret (ct_conn t, Some (ct_cyclic t), ct_out_slot t, ct_out_subslot t)) (tier_ready k True)" for t
    by (rule ends_ret_ok) (auto simp: tier_ready_def tier_starts_def)
  show ?thesis unfolding serve_tier_def
    unfolding Some option.case by (rule ends_andthen [OF ends_put(2)], rule ends_andthen [OF t]) (simp only: r option.simps simp_thms not_False_eq_True)
qed

lemma ends_ready_body:
  assumes "list_all pass_ok (pw_passes w)" and "shutdown_ok (pw_shutdown w)" and "k = 6 * length (pw_passes w) + 10"
  shows "ends (tier_ready k cyclic x) (case x of (c, ctl, out) \<Rightarrow> serve_body (serve_cfg_of w a out) w c ctl)
     (\<lambda>out s. \<exists>oc at. process_left (serve_cfg_of w a at) oc w cyclic out s)"
proof -
  obtain c ctl out where x: "x = (c, ctl, out)" by (cases x) blast
  show ?thesis
    unfolding ends_def
  proof (intro allI impI)
    fix s assume h: "tier_ready k cyclic x s"
    then have h1: "holds (6 * length (pw_passes w) + 11) c s" "(ctl \<noteq> None) = cyclic"
      by (simp_all add: tier_ready_def x assms(3) add.commute)
    obtain oc where "\<forall>t. ctl = Some t \<longrightarrow> starts_safe oc out t \<and> drives oc out"
      using h by (cases ctl) (auto simp: tier_ready_def x)
    then have oc: "\<forall>t. ctl = Some t \<longrightarrow> tier_ok (serve_cfg_of w a out) oc t \<and> shows_byte (serve_cfg_of w a out) oc SAFE_OUTPUT_BYTE t"
      using drives_tier by blast
    obtain r s' where "serve_body (serve_cfg_of w a out) w c ctl s = Some (r, s')"
      "case r of Inl _ \<Rightarrow> balanced s' | Inr y \<Rightarrow> process_left (serve_cfg_of w a out) oc w (ctl \<noteq> None) y s'"
      using ends_apply [OF ends_body [OF oc assms(1,2)] h1(1)] by blast
    then show "\<exists>r s'. (case x of (c, ctl, out) \<Rightarrow> serve_body (serve_cfg_of w a out) w c ctl) s = Some (r, s')
      \<and> (case r of Inl _ \<Rightarrow> balanced s' | Inr y \<Rightarrow> \<exists>oc at. process_left (serve_cfg_of w a at) oc w cyclic y s')"
      unfolding x h1(2) [symmetric] by (cases r) (auto simp del: split_paired_Ex)
  qed
qed

text \<open>The passes the request counter has room for, with the calls of the takeover and of the shutdown.\<close>

definition process_fits :: "process_world \<Rightarrow> bool" where
  "process_fits w \<longleftrightarrow> 6 * length (pw_passes w) + tier_room + 12 < 2 ^ 32"

lemma ends_serve:
  assumes "net_ok n" and "list_all thread_op (tw_param (pw_tier w))" and "list_all thread_op (tw_ready (pw_tier w))"
    and "list_all pass_ok (pw_passes w)" and "shutdown_ok (pw_shutdown w)" and "process_fits w"
    and "\<forall>conn s1. rpc_connect n target s = Some (Inr conn, s1) \<longrightarrow> layout_fits w a conn"
  shows "ends (\<lambda>s'. balanced s' \<and> s' = s) (cmd_serve n w target a)
     (\<lambda>out s. \<exists>oc at. process_left (serve_cfg_of w a at) oc w (pr_cyclic a \<noteq> None) out s)"
  unfolding cmd_serve_def
proof (rule ends_andthen)
  show "ends (\<lambda>s'. balanced s' \<and> s' = s) (lift (install_shutdown_handler w)) (\<lambda>_ s'. balanced s' \<and> s' = s)"
    by (auto simp: ends_def lift_def split: sum.split)
next
  fix u :: unit
  let ?k = "6 * length (pw_passes w) + 10"
  have k: "?k < 2 ^ 32 - 4" "Suc (Suc (tier_room + ?k)) < 2 ^ 32" using assms(6) unfolding process_fits_def tier_room_def PACED_READ_RETRIES_def by linarith+
  have c: "ends (\<lambda>s'. balanced s' \<and> s' = s) (rpc_connect n target) (\<lambda>conn s'. holds (tier_room + Suc ?k) conn s' \<and> layout_fits w a conn)"
    unfolding add_Suc_right by (rule ends_fact [OF ends_pre [OF ends_connect [OF assms(1) k(2)]]]) (use assms(7) in auto)
  show "ends (\<lambda>s'. balanced s' \<and> s' = s) (andthen (rpc_connect n target) (\<lambda>conn.
     andthen (put [Json (LHello (pw_version w) target (pr_read_only a) (pr_gap_ms a) (pr_cyclic a \<noteq> None) (process_mask a))]) (\<lambda>_.
     andthen (serve_tier n w target a conn) (\<lambda>(c, ctl, out). serve_body (serve_cfg_of w a out) w c ctl))))
     (\<lambda>out s. \<exists>oc at. process_left (serve_cfg_of w a at) oc w (pr_cyclic a \<noteq> None) out s)"
    by (rule ends_andthen [OF c], rule ends_given, rule ends_andthen [OF ends_put(2)],
        rule ends_andthen [OF ends_serve_tier [OF assms(1-3) k(1)]], assumption, rule ends_ready_body [OF assms(4,5) refl])
qed


text \<open>
  The station \<open>b\<close> of \<open>Cli.sample_net\<close>, whose first connection grants the AR and answers like the
  device of \<open>Tier\<close>, with one bit armed.
\<close>

definition process_answers :: "rx_event list" where
  "process_answers =
     (let rec = \<lambda>r. nrd_body True 0 4096 (replicate 64 0 @ r) in
      [device_answer 0 (nrd_body True 0 4096 []),
       device_answer 1 (rec (topo_record 0xF000 30 1 1 [(0, [(1, 1, [(1, 2)])])])),
       device_answer 2 (rec [0, 0x15, 0, 9, 1, 0, 0, 0, 0, 3, 7, 7, 7]),
       device_answer 3 (rec [0, 0x16, 0, 13, 1, 0, 0, 0, 0, 0, 0, 4, 0, 0, 0, 0])])"

definition process_net :: net where
  "process_net = sample_net\<lparr>nt_serve_mode := True,
     nt_open := (\<lambda>_ _ _ _. \<lparr>oo_transport = Inr (sample_transport process_answers), oo_key = Inr 1,
       oo_activity = Inr (replicate 16 7), oo_ar = Inr (replicate 16 8)\<rparr>)\<rparr>"

definition process_sample :: process_world where
  "process_sample = \<lparr>pw_handler = Inr (), pw_version = ''0.1.0'', pw_gsdml = (\<lambda>_. Inr Gsdml.sample_device),
     pw_tier = tier_sample_world, pw_now = 0, pw_passes = [pass_with RecvClosed], pw_shutdown = quiet_shutdown,
     pw_host_us = 0, pw_debug = id\<rparr>"

definition process_sample_args :: serve_args where
  "process_sample_args = \<lparr>pr_read_only = False, pr_gap_ms = 0, pr_keepalive_ms = 2000,
     pr_cyclic = Some \<lparr>sy_gsdml_path = ''d.xml'', sy_cycle_ms = 32, sy_watchdog_factor = 3, sy_exclude_zero_io = False,
       sy_allow_mask = 1, sy_seconds = 0\<rparr>\<rparr>"

lemma granted_connect:
  assumes "next_answers sq (device_answer sq (nrd_body True 0 4096 []) # es) c" and "sq \<noteq> 0xFFFFFFFF"
  shows "\<exists>c'. connect_device_access m nm c = Some (Inr (), c') \<and> next_answers (sq + 1) es c'"
proof -
  let ?h = "(sample_answer [])\<lparr>pr_sequence_number := sq, pr_payload := nrd_body True 0 4096 []\<rparr>"
  let ?req = "build_device_access_connect_request (co_object_uuid c) IFACE_UUID_DEVICE (co_activity_uuid c)
       (co_ar_uuid c) (co_session_key c) m nm (co_sequence_number c)"
  have h: "rpc_ok ?h" "answers (co_activity_uuid c) (co_sequence_number c) ?h"
    using sample_answer_ok [of "[]"] sample_uuid assms(1) by (simp_all add: rpc_ok_def answers_def next_answers_def)
  have "send_receive ?req (c\<lparr>co_sequence_number := co_sequence_number c + 1\<rparr>) = Some (Inr ?h, after_call c ?req es)"
    using assms(1) by (intro send_receive_stream our_requests(7) next_response_hit [OF h(2,1), THEN trans])
      (auto simp: next_answers_def device_answer_def sends_ok_def)
  moreover have "next_seq c = Some (sq, c\<lparr>co_sequence_number := co_sequence_number c + 1\<rparr>)"
    using assms by (simp add: next_seq_def next_answers_def)
  moreover have "parse_status_response (pr_payload ?h) (pr_is_little_endian ?h) = Some (Inr [])"
    using sample_answer_ok(5) [of "[]"] by (simp add: parse_status_response_def parse_nrd_eq nrd_of_body)
  ultimately show ?thesis
    using assms(1) by (auto simp: connect_device_access_def cbind_def map_err_def pure_io_def next_answers_def after_call_def
        conn_ok_def Let_def)
qed

lemma process_connects:
  "\<exists>conn s1. rpc_connect process_net ''b'' fresh_cli = Some (Inr conn, s1) \<and> next_answers 1 (List.tl process_answers) conn"
proof -
  have m: "net_mac process_net = Inr [0, 1, 2, 3, 4, 5]"
    by (simp add: net_mac_def process_net_def sample_net_def get_mac_def mac_lookup_names_def)
  have r: "resolve_device process_net ''b'' fresh_cli = Some (Inr (Pcap.sample_device 2 [0x62]), fresh_cli\<lparr>cl_scans := 1\<rparr>)"
    using station_resolved_witness by (simp add: resolve_device_def process_net_def)
  have "get_ipv4_toward (Inr [(''en0'', [\<lparr>pa_addr = V4 [10, 0, 0, 1], pa_netmask = Some (V4 [255, 255, 255, 0])\<rparr>])]) ''en0''
      [10, 0, 0, 2] = Inr \<lparr>sa_ip = [10, 0, 0, 1], sa_reaches_target = True\<rparr>" by code_simp
  then have s: "source_address process_net [10, 0, 0, 2] t = Some (Inr [10, 0, 0, 1], t)" for t
    by (simp add: source_address_def chosen_source_def process_net_def sample_net_def andthen_def lift_def ret_def source_address_note_def)
  obtain c where c: "with_transport (sample_transport process_answers) 0x301 0x2A RPC_TIMEOUT (Inr 1) (Inr (replicate 16 7)) (Inr (replicate 16 8)) = Inr c"
    by (simp add: with_transport_def)
  then have n: "next_answers 0 process_answers c"
    by (auto simp: with_transport_def next_answers_def sample_transport_def conn_ok_def object_uuid_def OBJECT_UUID_PREFIX_def)
  then obtain c1 where c1: "connect_device_access [0, 1, 2, 3, 4, 5] CM_STATION_NAME c = Some (Inr (), c1)"
    "next_answers 1 (List.tl process_answers) c1"
    using granted_connect [of 0 "List.tl process_answers" c] by (auto simp: process_answers_def Let_def)
  have o: "nt_open process_net k mm ip d = \<lparr>oo_transport = Inr (sample_transport process_answers), oo_key = Inr 1,
       oo_activity = Inr (replicate 16 7), oo_ar = Inr (replicate 16 8)\<rparr>" for k mm ip d
    by (simp add: process_net_def)
  have "rpc_transport process_net ''b'' fresh_cli = Some (Inr c, fresh_cli\<lparr>cl_scans := 1, cl_opens := 1, cl_opened := 1\<rparr>)"
  proof -
    have d: "dd_ip (Pcap.sample_device 2 [0x62]) = [10, 0, 0, 2]" "dd_device_id (Pcap.sample_device 2 [0x62]) = 0x301"
      "dd_vendor_id (Pcap.sample_device 2 [0x62]) = 0x2A" by (simp_all add: Pcap.sample_device_def)
    have f: "cl_opens fresh_cli = 0" "cl_opened fresh_cli = 0" by (simp_all add: fresh_cli_def)
    show ?thesis using c by (simp add: rpc_transport_def m andthen_def lift_def r s o d f open_raw_def)
  qed
  then have "rpc_connect process_net ''b'' fresh_cli = Some (Inr c1, fresh_cli\<lparr>cl_scans := 1, cl_opens := 1, cl_opened := 1\<rparr>)"
    using c1(1) by (simp add: rpc_connect_def m andthen_def lift_def use_def ret_def)
  then show ?thesis using c1(2) by blast
qed

lemma process_layout:
  assumes "next_answers 1 (List.tl process_answers) conn"
  shows "layout_fits process_sample process_sample_args conn"
proof -
  obtain c where c: "read_raw REAL_ID_API 0 1 READ_LENGTH conn
      = Some (Inr (topo_record 0xF000 30 1 1 [(0, [(1, 1, [(1, 2)])])]), c)"
    using next_read [of 1] assms by (fastforce simp: process_answers_def Let_def)
  have "serve_tier_args process_sample \<lparr>sy_gsdml_path = ''d.xml'', sy_cycle_ms = 32, sy_watchdog_factor = 3,
      sy_exclude_zero_io = False, sy_allow_mask = 1, sy_seconds = 0\<rparr> = tier_sample_args"
    by (simp add: serve_tier_args_def process_sample_def tier_sample_args_def)
  moreover have "tier_layout tier_sample_args conn s = Some (Inr ([sample_slot], c), s)" for s
    using c by (simp add: tier_layout_def use_def discover_slots_def read_real_identification_data_def cbind_def pure_io_def
        sample_records tier_sample_args_def guard_conn_def andthen_def ret_def apply_zero_io_exclusion_def)
  ultimately show ?thesis
    by (auto simp: layout_fits_def process_sample_args_def has_output_def sample_slot_def)
qed


section \<open>The cyclic command releases what it opened\<close>

lemma ops_keep_ok:
  "shared_ok (cc_shared c) \<Longrightarrow> \<exists>c'. fold cyclic_step ops (Some c) = Some c' \<and> shared_ok (cc_shared c')"
proof (induction ops arbitrary: c)
  case (Cons op ops)
  obtain c1 where "cyclic_exec op c = Some c1" "shared_ok (cc_shared c1)"
    using cyclic_exec_runs [OF Cons.prems, of op] by (auto simp: runs_iff)
  then show ?case using Cons.IH by (simp add: cyclic_step_def)
qed simp

lemma ends_cyclic_connect:
  assumes "net_ok n" and "Suc (Suc k) < 2 ^ 32"
  shows "ends balanced (cyclic_connect n target) (\<lambda>(mac, dev, ip, c) s. holds (Suc k) c s \<and> length mac = 6 \<and> length (dd_mac dev) = 6)"
  unfolding cyclic_connect_def
proof (rule ends_andthen [OF ends_fact [OF ends_lift, where F = "\<lambda>m. length m = 6"]], goal_cases)
  case (1 s m s')
  then show ?case using net_mac_length [OF assms(1)] by (simp add: lift_def)
next
  case (2 mac)
  show ?case
  proof (rule ends_given, rule ends_andthen [OF ends_fact [OF ends_resolve, where F = "\<lambda>d. length (dd_mac d) = 6"]],
      erule resolve_mac, rule ends_given)
    fix dev :: dcp_device
    assume "length mac = 6" "length (dd_mac dev) = 6"
    then show "ends balanced (andthen (source_address n (dd_ip dev)) (\<lambda>cm_ip.
     andthen (put [Out (''Connecting to '' @ target @ '' ('' @ ip_or_default (dd_ip dev) @ '')...'')]) (\<lambda>_.
     andthen (open_raw n mac cm_ip dev) (\<lambda>conn.
     andthen (use (\<lambda>e. CText (''Failed to connect to '' @ target @ '': '' @ e))
                (connect_device_access mac CM_STATION_NAME) conn) (\<lambda>(_, c0).
       ret (mac, dev, cm_ip, c0))))))
     (\<lambda>(mac, dev, ip, c) s. holds (Suc k) c s \<and> length mac = 6 \<and> length (dd_mac dev) = 6)"
      by (intro ends_andthen [OF ends_source] ends_andthen [OF ends_put(1)] ends_andthen [OF ends_open [OF assms]]
          ends_andthen [OF ends_use [OF access_op_ok]]) (auto simp: split_def intro!: ends_ret_ok)
  qed
qed

lemma ends_cyclic_layout:
  "ends (holds (Suc (Suc k)) c) (cyclic_layout w a c) (\<lambda>x. holds (Suc k) (snd x))"
  unfolding cyclic_layout_def
proof (intro ends_andthen [OF ends_put(2)] ends_andthen [OF ends_use [OF discover_op_ok]])
  fix x :: "device_slot list \<times> rpc_conn"
  have g: "ends (holds (Suc k) c) (guard_conn r c) (\<lambda>_. holds (Suc k) c)" for r :: "cli_error + 'x" and c
    by (rule ends_post [OF ends_guard]) simp
  show "ends (case x of (v, c') \<Rightarrow> holds (Suc k) c') (case x of (device_slots, c1) \<Rightarrow>
     andthen (put [Out (dec_nat (length device_slots) @ '' entries'')]) (\<lambda>_.
       case find bad_submodule (cy_submodules a) of
         None \<Rightarrow>
           andthen (guard_conn (cw_gsdml w (cy_gsdml_path a)) c1) (\<lambda>g.
           andthen (guard_conn (map_sum CGsdml id (build_io_slots_from_device g device_slots None)) c1) (\<lambda>slots.
             ret (apply_zero_io_exclusion slots (cy_exclude_zero_io a), c1)))
       | Some spec \<Rightarrow> andthen (finish c1) (\<lambda>_. bail (CText (bad_submodule_text spec))))) (\<lambda>x. holds (Suc k) (snd x))"
    unfolding split_def
    by (intro ends_andthen [OF ends_put(2)] ends_case_option ends_finish_bail ends_andthen [OF g]) (auto intro!: ends_ret_ok)
qed

lemma ends_cyclic_start:
  assumes "net_ok n" and "length slots < 65536" and "k < 2 ^ 32 - 4"
  shows "ends balanced (cyclic_start n w a slots mac dev ip) (\<lambda>x s. holds (Suc k) (fst x) s \<and> shared_ok (cc_shared (snd x)))"
  unfolding cyclic_start_def
proof (rule ends_andthen [OF ends_open_ar [OF assms(1), of _ "Suc (Suc k)"]], goal_cases)
  case 1
  then show ?case using assms(2) by (simp add: cyclic_setup_def)
next
  case 2
  then show ?case using assms(3) by simp
next
  case (3 x)
  have cfg: "config_ok (snd (cyclic_iocrs a slots r))" for r
    unfolding cyclic_iocrs_def using build_iocr_configs_ok(2) by (metis prod.collapse)
  have st: "\<exists>st c2. start now to ro ts rs (c0\<lparr>cc_shared := (cc_shared c0)\<lparr>sh_callbacks := cyclic_callbacks\<rparr>\<rparr>) = Some (st, c2)
      \<and> shared_ok (cc_shared c2)"
    if "controller_new now' ifn m1 m2 (fst (cyclic_iocrs a slots r)) (snd (cyclic_iocrs a slots r)) 3 = Some (Inr c0)"
    for now to ro ts rs c0 now' ifn m1 m2 r
  proof -
    have "shared_ok (cc_shared (c0\<lparr>cc_shared := (cc_shared c0)\<lparr>sh_callbacks := cyclic_callbacks\<rparr>\<rparr>))"
      using controller_new_ok [OF cfg that] by (simp add: shared_ok_def)
    then show ?thesis using start_runs by (fastforce simp: runs_iff)
  qed
  have "ends (holds (Suc (Suc (Suc k))) c) (andthen (put ls) (\<lambda>_.
      ar_run n (cw_tier w) mac (dd_mac dev) (cyclic_iocrs a slots r) (\<lambda>sh. sh\<lparr>sh_callbacks := cyclic_callbacks\<rparr>) c))
      (\<lambda>x s. holds (Suc k) (fst x) s \<and> shared_ok (cc_shared (snd x)))" for c r ls
    by (rule ends_andthen [OF ends_put(2) ends_ar_run [OF cfg]]) (use st ops_keep_ok in blast)+
  then show ?case unfolding split_def by (intro ends_given) blast
qed

lemma monitor_runs:
  "shared_ok (cc_shared ctl) \<Longrightarrow> \<exists>done ls c. monitor_loop d inputs ps ctl = Some (done, ls, c) \<and> shared_ok (cc_shared c)"
proof (induction ps arbitrary: ctl)
  case (Cons p ps)
  obtain c where c: "fold cyclic_step (cy_threads p) (Some ctl) = Some c" "shared_ok (cc_shared c)"
    using ops_keep_ok [OF Cons.prems] by blast
  then show ?case using Cons.IH [OF c(2)] by auto
qed auto

text \<open>What the command leaves: a connection while it runs, none when it has ended.\<close>

definition cyclic_left :: "cyclic_outcome \<Rightarrow> cli_state \<Rightarrow> bool" where
  "cyclic_left out s = (case out of Cycling c ctl \<Rightarrow> holds 1 c s | Cycled code \<Rightarrow> balanced s)"

lemma ends_monitor:
  "ends (\<lambda>s. holds 1 c s \<and> shared_ok (cc_shared ctl)) (cyclic_monitor w a slots c ctl) cyclic_left"
  unfolding ends_def
proof (intro allI impI)
  fix s assume h: "holds 1 c s \<and> shared_ok (cc_shared ctl)"
  obtain fin ls c1 where m: "monitor_loop (cy_duration a)
      (map (\<lambda>s. (ios_slot s, ios_subslot s)) (filter (\<lambda>s. 0 < ios_input_length s) slots)) (cw_passes w) ctl = Some (fin, ls, c1)"
    "shared_ok (cc_shared c1)" using monitor_runs h by blast
  obtain fs c2 where st: "stop (tw_tx_joined (cw_tier w)) (tw_sends (cw_tier w)) c1 = Some (fs, c2)"
    using stop_keeps_ok [OF m(2)] by blast
  let ?s = "s\<lparr>cl_stopped := cl_stopped s @ [(fs, c2)]\<rparr>"
  have f: "ends (holds (Suc 0) c) (andthen (put xs) (\<lambda>_. andthen (finish c) (\<lambda>_. ret (Cycled 0)))) cyclic_left" for xs
    by (rule ends_andthen [OF ends_put(2)], rule ends_andthen [OF ends_finish], rule ends_ret_ok) (simp add: cyclic_left_def)
  show "\<exists>r s'. cyclic_monitor w a slots c ctl s = Some (r, s') \<and> (case r of Inl _ \<Rightarrow> balanced s' | Inr x \<Rightarrow> cyclic_left x s')"
  proof (cases fin)
    case True
    have "holds (Suc 0) c ?s" using h by (simp add: holds_def)
    then show ?thesis using ends_apply [OF f] by (simp add: cyclic_monitor_def m(1) True st Let_def)
  qed (use h in \<open>simp add: cyclic_monitor_def m(1) andthen_def put_def ret_def cyclic_left_def holds_def\<close>)
qed

end
