(* ===== verification/Dispatch.thy ===== *)
theory Dispatch
  imports Process Capture
begin

text \<open>
  The command line of \<open>src/bin/profinet.rs\<close> behind its parser: the options and commands, what is
  refused before anything is touched, and which command function an accepted line runs (\<open>run\<close>).
\<close>

section \<open>Options\<close>

record im_args =
  ia_target :: string
  ia_slot :: u16
  ia_subslot :: u16

record serve_opts =
  so_target :: string
  so_read_only :: bool
  so_gap_ms :: nat
  so_keepalive_ms :: nat
  so_cyclic :: bool
  so_gsdml :: "string option"
  so_cycle_ms :: u16
  so_watchdog_factor :: u16
  so_exclude_zero_io :: bool
  so_allow_mask :: u8
  so_on_the_bench :: bool
  so_seconds :: nat

text \<open>The commands; the API of a read or write is accepted and not used, the settable parameter is always the name.\<close>

datatype command =
    Proto
  | CaptureCheck
  | Discover
  | GetParam string param
  | SetParam string string bool
  | ReadRecord string u16 u16 string u32 bool
  | WriteRecord string u16 u16 string string
  | ReadInm0Filter string
  | ReadInm0 im_args
  | ReadInm1 im_args
  | ReadInm2 im_args
  | ReadInm3 im_args
  | SetIpSuite string string string string bool
  | SignalLed string
  | ResetDevice string reset_mode
  | CyclicIo string cyclic_args
  | ServeStation serve_opts

record cli_opts =
  op_interface :: "string option"
  op_source_ip :: "bytes option"
  op_json :: bool
  op_command :: command

definition speaks_json :: "command \<Rightarrow> bool" where
  "speaks_json c =
     (case c of
        Proto \<Rightarrow> True | CaptureCheck \<Rightarrow> True | Discover \<Rightarrow> True | SetParam _ _ _ \<Rightarrow> True
      | SetIpSuite _ _ _ _ _ \<Rightarrow> True | SignalLed _ \<Rightarrow> True | ResetDevice _ _ \<Rightarrow> True | _ \<Rightarrow> False)"

definition is_serve :: "command \<Rightarrow> bool" where
  "is_serve c = (case c of ServeStation _ \<Rightarrow> True | _ \<Rightarrow> False)"

section \<open>The environment of the process\<close>

text \<open>
  The network, the link and the random bytes of a DCP command, the build's version, the outcome of
  the capture check's parts, whether \<open>PROFINET_DEBUG\<close> is set, and the worlds of the two long-running
  commands.
\<close>

record run_world =
  rw_net :: net
  rw_link :: dcp_link
  rw_random :: "string + bytes"
  rw_version :: string
  rw_git :: string
  rw_nodes :: "node_open list option"
  rw_devices :: "string + string list"
  rw_attempt :: "string \<Rightarrow> string + unit"
  rw_debug_env :: bool
  rw_cyclic :: cyclic_world
  rw_process :: process_world

datatype run_outcome = Exits int | CyclesOn rpc_conn cyclic_controller | ServesOn serve_state

definition exits :: "int cli \<Rightarrow> run_outcome cli" where
  "exits m = andthen m (\<lambda>code. ret (Exits code))"

text \<open>A DCP command puts out its lines; \<open>dcp_set\<close> looks up the source MAC first.\<close>

definition dcp_run_cli :: "dcp_run \<Rightarrow> int cli" where
  "dcp_run_cli r s = map_option (\<lambda>(res, ls, frames). (res, s\<lparr>cl_out := cl_out s @ ls\<rparr>)) r"

definition with_dcp_set :: "net \<Rightarrow> bool \<Rightarrow> (dcp_set \<Rightarrow> dcp_run) \<Rightarrow> run_outcome cli" where
  "with_dcp_set n json f =
     exits (andthen (lift (net_mac n)) (\<lambda>mac. dcp_run_cli (f \<lparr>ds_my_mac = mac, ds_json = json\<rparr>)))"

definition run_discover :: "net \<Rightarrow> bool \<Rightarrow> int cli" where
  "run_discover n json s =
     (let k = nt_scan n (cl_scans s) in do {
        (found, frame) \<leftarrow> discover (sc_open k) (get_mac (nt_mac_of n) (nt_iface n)) (sc_random k) (sc_send k) (sc_deadline k) (sc_events k);
        (case cmd_discover (nt_iface n) json found of
           (res, ls) \<Rightarrow> Some (res, s\<lparr>cl_scans := cl_scans s + 1, cl_out := cl_out s @ ls\<rparr>)) })"

section \<open>Refusals and dispatch\<close>

text \<open>The options of \<open>serve\<close>: what is refused, and the cyclic part that is passed on.\<close>

definition serve_gate :: "serve_opts \<Rightarrow> serve_cyclic_opts option cli" where
  "serve_gate so =
     (if \<not> so_cyclic so then
        if so_allow_mask so \<noteq> 0
        then bail (CText ''--allow-mask only applies to the output image, which needs --cyclic'')
        else if so_exclude_zero_io so
        then bail (CText (''--exclude-zero-io-submodules only applies to the cyclic AR, which ''
               @ ''needs --cyclic''))
        else ret None
      else (case so_gsdml so of
          None \<Rightarrow> bail (CText (''--cyclic needs --gsdml: the submodule layout sizes the IOCRs, and ''
                   @ ''the input length is checked against the firmware before starting''))
        | Some path \<Rightarrow>
            if so_allow_mask so \<noteq> 0 \<and> \<not> so_on_the_bench so
            then andthen (put [Json (LRefusedSetup ''missing --i-am-on-the-bench'')]) (\<lambda>_.
                   bail (CText (''refusing to drive outputs: pass --i-am-on-the-bench to confirm ''
                     @ ''the device is on a bench with no other IO-controller attached'')))
            else ret (Some \<lparr>sy_gsdml_path = path, sy_cycle_ms = so_cycle_ms so, sy_watchdog_factor = so_watchdog_factor so,
                   sy_exclude_zero_io = so_exclude_zero_io so, sy_allow_mask = so_allow_mask so, sy_seconds = so_seconds so\<rparr>)))"

definition run_serve :: "net \<Rightarrow> process_world \<Rightarrow> serve_opts \<Rightarrow> run_outcome cli" where
  "run_serve n w so =
     andthen (serve_gate so) (\<lambda>cyclic.
     andthen (cmd_serve n w (so_target so)
                \<lparr>pr_read_only = so_read_only so, pr_gap_ms = so_gap_ms so, pr_keepalive_ms = so_keepalive_ms so, pr_cyclic = cyclic\<rparr>)
       (\<lambda>out. case out of
          Serving st \<Rightarrow> ret (ServesOn st)
        | Served res \<Rightarrow> exits (lift (map_sum CText id res))))"

definition run_cyclic :: "net \<Rightarrow> cyclic_world \<Rightarrow> string \<Rightarrow> cyclic_args \<Rightarrow> run_outcome cli" where
  "run_cyclic n w target a =
     andthen (cmd_cyclic n w target a) (\<lambda>out. case out of
       Cycling c ctl \<Rightarrow> ret (CyclesOn c ctl) | Cycled code \<Rightarrow> ret (Exits code))"

definition run_command :: "run_world \<Rightarrow> net \<Rightarrow> bool \<Rightarrow> command \<Rightarrow> run_outcome cli" where
  "run_command w n json cmd =
     (case cmd of
        Proto \<Rightarrow> ret (Exits 0)
      | CaptureCheck \<Rightarrow> ret (Exits 0)
      | Discover \<Rightarrow> exits (run_discover n json)
      | GetParam target p \<Rightarrow>
          exits (andthen (lift (net_mac n)) (\<lambda>mac. dcp_run_cli (cmd_get_param mac (rw_link w) (rw_random w) target p)))
      | SetParam target val permanent \<Rightarrow>
          with_dcp_set n json (\<lambda>st. cmd_set_param st (rw_link w) (rw_random w) target val permanent)
      | ReadRecord target slot subslot index len implicit \<Rightarrow> exits (cmd_read n target slot subslot index len implicit)
      | WriteRecord target slot subslot index data \<Rightarrow> exits (cmd_write n target slot subslot index data)
      | ReadInm0Filter target \<Rightarrow> exits (cmd_read_inm0_filter n target)
      | ReadInm0 a \<Rightarrow> exits (cmd_read_inm n (rw_debug_env w) (ia_target a) (ia_slot a) (ia_subslot a) IM0)
      | ReadInm1 a \<Rightarrow> exits (cmd_read_inm n (rw_debug_env w) (ia_target a) (ia_slot a) (ia_subslot a) IM1)
      | ReadInm2 a \<Rightarrow> exits (cmd_read_inm n (rw_debug_env w) (ia_target a) (ia_slot a) (ia_subslot a) IM2)
      | ReadInm3 a \<Rightarrow> exits (cmd_read_inm n (rw_debug_env w) (ia_target a) (ia_slot a) (ia_subslot a) IM3)
      | SetIpSuite target ip netmask gateway permanent \<Rightarrow>
          with_dcp_set n json (\<lambda>st. cmd_set_ip st (rw_link w) (rw_random w) target ip netmask gateway permanent)
      | SignalLed target \<Rightarrow> with_dcp_set n json (\<lambda>st. cmd_signal st (rw_link w) (rw_random w) target)
      | ResetDevice target mode \<Rightarrow> with_dcp_set n json (\<lambda>st. cmd_reset st (rw_link w) (rw_random w) target mode)
      | CyclicIo target a \<Rightarrow> run_cyclic n (rw_cyclic w) target a
      | ServeStation so \<Rightarrow> run_serve n (rw_process w) so)"

text \<open>
  \<open>run\<close>: the refusals common to all commands, the two commands that need no interface, and the rest
  on the interface and with the pinned source address.
\<close>

definition net_for :: "run_world \<Rightarrow> cli_opts \<Rightarrow> string \<Rightarrow> net" where
  "net_for w opts iface =
     (rw_net w)\<lparr>nt_iface := iface, nt_pinned := op_source_ip opts, nt_serve_mode := is_serve (op_command opts)\<rparr>"

definition run :: "run_world \<Rightarrow> cli_opts \<Rightarrow> run_outcome cli" where
  "run w opts =
     (if op_source_ip opts = Some [0, 0, 0, 0]
      then bail (CText ''--source-ip 0.0.0.0 is not a usable source address'')
      else if op_json opts \<and> \<not> speaks_json (op_command opts)
      then bail (CText ''--json is not answered by this command; see --help for the ones that do'')
      else if op_command opts = Proto
      then andthen (put [Json (LProto (rw_version w) (rw_git w))]) (\<lambda>_. ret (Exits 0))
      else if op_command opts = CaptureCheck
      then
        (let (verdict, tried) = check (Option.bind (rw_nodes w) bpf_scan) (rw_devices w) (rw_attempt w) (op_interface opts)
         in andthen (put [Json (LCapture verdict tried)]) (\<lambda>_. ret (Exits 0)))
      else (case op_interface opts of
          None \<Rightarrow> bail (CText ''--interface <IFACE> is required for this command'')
        | Some iface \<Rightarrow> run_command w (net_for w opts iface) (op_json opts) (op_command opts)))"

section \<open>Every command returns and leaves nothing open\<close>

lemma ends_cyclic:
  assumes "net_ok n"
    and "\<forall>mac dev ip c s1. cyclic_connect n target s = Some (Inr (mac, dev, ip, c), s1) \<longrightarrow>
      (\<forall>s2 slots c1 s3. cyclic_layout w a c s2 = Some (Inr (slots, c1), s3) \<longrightarrow> length slots < 65536)"
  shows "ends (\<lambda>s'. balanced s' \<and> s' = s) (cmd_cyclic n w target a) cyclic_left"
  unfolding cmd_cyclic_def
proof (rule ends_andthen [where N = "\<lambda>_ s'. balanced s' \<and> s' = s"], goal_cases)
  case 1
  show ?case
    by (auto simp: ends_def lift_def split: sum.split)
next
  case (2 u)
  let ?F = "\<lambda>x. \<forall>s2 slots c1 s3. cyclic_layout w a (snd (snd (snd x))) s2 = Some (Inr (slots, c1), s3) \<longrightarrow> length slots < 65536"
  let ?N = "\<lambda>(mac, dev, ip, c) s'. holds (Suc (Suc 0)) c s' \<and> length mac = 6 \<and> length (dd_mac dev) = 6"
  have c0: "ends (\<lambda>s'. balanced s' \<and> s' = s) (cyclic_connect n target) ?N"
    by (rule ends_pre [OF ends_cyclic_connect [OF assms(1)]]) simp_all
  have c: "ends (\<lambda>s'. balanced s' \<and> s' = s) (cyclic_connect n target) (\<lambda>x s'. ?N x s' \<and> ?F x)"
    by (rule ends_fact [OF c0, where F = ?F]) (use assms(2) in \<open>clarsimp, blast\<close>)
  have l: "ends (holds (Suc (Suc 0)) c) (cyclic_layout w a c) (\<lambda>x s. holds (Suc 0) (snd x) s \<and> length (fst x) < 65536)"
    if "?F (mac, dev, ip, c)" for mac dev ip c
    by (rule ends_fact [OF ends_cyclic_layout]) (use that in \<open>clarsimp, blast\<close>)
  have t: "ends balanced (andthen (cyclic_start n w a slots mac dev ip) (\<lambda>(c3, ctl).
     andthen (put ls) (\<lambda>_. cyclic_monitor w a slots c3 ctl))) cyclic_left"
    if "length slots < 65536" for slots mac dev ip ls
  proof (rule ends_andthen [OF ends_cyclic_start [OF assms(1) that, of 0]])
    show "ends (\<lambda>s. holds (Suc 0) (fst x) s \<and> shared_ok (cc_shared (snd x)))
        (case x of (c3, ctl) \<Rightarrow> andthen (put ls) (\<lambda>_. cyclic_monitor w a slots c3 ctl)) cyclic_left" for x
      unfolding split_def
      by (rule ends_given, rule ends_andthen [OF ends_put(2)]) (use ends_monitor in \<open>simp add: ends_def\<close>)
  qed simp
  have f: "ends (\<lambda>s. holds (Suc 0) (snd y) s \<and> length (fst y) < 65536)
     (case y of (slots, c1) \<Rightarrow> andthen (put (layout_lines slots)) (\<lambda>_. andthen (finish c1) (\<lambda>_.
        andthen (cyclic_start n w a slots mac dev ip) (\<lambda>(c3, ctl).
        andthen (put [Out ''  PrmEnd OK'', Out ''  ApplicationReady OK'', Out [], Out ''Running (Ctrl+C to stop)'']) (\<lambda>_.
          cyclic_monitor w a slots c3 ctl))))) cyclic_left" for y mac dev ip
    by (rule ends_given, cases y, simp only: prod.case fst_conv snd_conv)
       (rule ends_andthen [OF ends_put(2)], rule ends_andthen [OF ends_finish], rule t)
  show ?case
  proof (rule ends_andthen [OF c], rule ends_given)
    fix x :: "bytes \<times> dcp_device \<times> bytes \<times> rpc_conn"
    assume F: "?F x"
    obtain mac dev ip c where x: "x = (mac, dev, ip, c)" by (cases x) blast
    have h: "ends (?N (mac, dev, ip, c)) (cyclic_layout w a c) (\<lambda>x s. holds (Suc 0) (snd x) s \<and> length (fst x) < 65536)"
      by (rule ends_pre [OF l]) (use F in \<open>simp_all add: x\<close>)
    show "ends (?N x) (case x of (cm_mac, dev, cm_ip, c0) \<Rightarrow>
       andthen (cyclic_layout w a c0) (\<lambda>(slots, c1).
       andthen (put (layout_lines slots)) (\<lambda>_.
       andthen (finish c1) (\<lambda>_.
       andthen (cyclic_start n w a slots cm_mac dev cm_ip) (\<lambda>(c3, ctl).
       andthen (put [Out ''  PrmEnd OK'', Out ''  ApplicationReady OK'', Out [], Out ''Running (Ctrl+C to stop)'']) (\<lambda>_.
         cyclic_monitor w a slots c3 ctl)))))) cyclic_left"
      unfolding x by (simp only: prod.case) (rule ends_andthen [OF h [unfolded prod.case] f])
  qed
qed

lemma set_loop_total: "set_loop m xid dl es \<noteq> None"
proof (induction es)
  case (Cons e es)
  obtain now ev where e: "e = (now, ev)" by (cases e)
  show ?case
  proof (cases ev)
    case (RecvFrame f)
    obtain r where "parse_set_response f xid = Some r" using dcp_parsers_total by blast
    then show ?thesis using Cons e RecvFrame by (cases r) (auto split: option.split)
  qed (use Cons e in simp_all)
qed simp

lemma get_loop_total: "get_loop m op sub xid dl es \<noteq> None"
proof (induction es)
  case (Cons e es)
  obtain now ev where e: "e = (now, ev)" by (cases e)
  show ?case
  proof (cases ev)
    case (RecvFrame f)
    obtain r where "parse_get_response f op sub xid = Some r" using dcp_parsers_total by blast
    then show ?thesis using Cons e RecvFrame by (cases r) (auto split: option.split)
  qed (use Cons e in simp_all)
qed simp

lemma set_send_total: "set_send st l act dst req said d f \<noteq> None"
proof -
  obtain x where "parse_dcp_xid req = Some x" using dcp_parsers_total by blast
  then have "dcp_set_roundtrip l (ds_my_mac st) req \<noteq> None"
    using set_loop_total by (auto simp: dcp_set_roundtrip_def split: option.split sum.split)
  then obtain r fs where "dcp_set_roundtrip l (ds_my_mac st) req = Some (r, fs)" by auto
  then show ?thesis by (cases r) (simp_all add: set_send_def split_def Let_def)
qed

lemma set_prep_total: "(\<And>x. f x \<noteq> None) \<Longrightarrow> set_prep r f \<noteq> None"
  by (cases r) (simp_all add: set_prep_def)

lemma dcp_commands_total:
  "cmd_set_param st l rnd target val permanent \<noteq> None" "cmd_set_ip st l rnd target ip netmask gateway permanent \<noteq> None"
  "cmd_signal st l rnd target \<noteq> None" "cmd_reset st l rnd target mode \<noteq> None" "cmd_get_param m l rnd target p \<noteq> None"
proof -
  show "cmd_set_param st l rnd target val permanent \<noteq> None"
    unfolding cmd_set_param_def by (intro set_prep_total) (simp add: set_prep_total set_send_total del: not_None_eq)
  show "cmd_get_param m l rnd target p \<noteq> None"
    unfolding cmd_get_param_def
    by (intro set_prep_total) (auto simp: split_def Let_def bind_eq_None_conv get_loop_total simp del: not_None_eq split: sum.split)
qed (unfold cmd_set_ip_def cmd_signal_def cmd_reset_def, (intro set_prep_total set_send_total)+)

text \<open>What a run leaves: nothing open when it exits, the one connection of a session that goes on.\<close>

definition run_left :: "run_outcome \<Rightarrow> cli_state \<Rightarrow> bool" where
  "run_left out s =
     (case out of Exits _ \<Rightarrow> balanced s | CyclesOn c _ \<Rightarrow> holds 1 c s | ServesOn st \<Rightarrow> holds 1 (sv_conn st) s)"

lemma ends_exits: "ends P m (\<lambda>_. balanced) \<Longrightarrow> ends P (exits m) run_left"
  unfolding exits_def by (rule ends_andthen, assumption, rule ends_ret_ok) (simp add: run_left_def)

lemma ends_dcp_cli: "r \<noteq> None \<Longrightarrow> ends balanced (dcp_run_cli r) (\<lambda>_. balanced)"
  by (auto simp: ends_def dcp_run_cli_def balanced_def split: sum.split)

lemma ends_dcp_set: "(\<And>st. f st \<noteq> None) \<Longrightarrow> ends balanced (with_dcp_set n json f) run_left"
  unfolding with_dcp_set_def by (intro ends_exits ends_andthen [OF ends_lift] ends_dcp_cli)

lemma ends_discover: "ends balanced (run_discover n json) (\<lambda>_. balanced)"
  unfolding ends_def
proof (intro allI impI)
  fix s assume b: "balanced s"
  let ?k = "nt_scan n (cl_scans s)"
  have "discover (sc_open ?k) (get_mac (nt_mac_of n) (nt_iface n)) (sc_random ?k) (sc_send ?k) (sc_deadline ?k) (sc_events ?k) \<noteq> None"
    using discover_loop_total by (auto simp: discover_def discover_until_def Let_def split: sum.split)
  then obtain found f where "discover (sc_open ?k) (get_mac (nt_mac_of n) (nt_iface n)) (sc_random ?k) (sc_send ?k) (sc_deadline ?k)
      (sc_events ?k) = Some (found, f)" by auto
  then show "\<exists>r s'. run_discover n json s = Some (r, s') \<and> (case r of Inl _ \<Rightarrow> balanced s' | Inr _ \<Rightarrow> balanced s')"
    using b by (simp add: run_discover_def Let_def split_def balanced_def split: sum.split)
qed

text \<open>
  What is asked of the rest of the world: data arguments in ASCII, GSDML files that make at most 65,535
  submodules of a device (and at least one with outputs for a cyclic session), threads that only
  receive and transmit, and no more passes than the request counter has room for.
\<close>

definition serve_args_for :: "serve_opts \<Rightarrow> serve_cyclic_opts option \<Rightarrow> serve_args" where
  "serve_args_for so cyclic =
     \<lparr>pr_read_only = so_read_only so, pr_gap_ms = so_gap_ms so, pr_keepalive_ms = so_keepalive_ms so, pr_cyclic = cyclic\<rparr>"

definition command_ok :: "net \<Rightarrow> run_world \<Rightarrow> command \<Rightarrow> bool" where
  "command_ok n w cmd \<longleftrightarrow>
     (case cmd of
        WriteRecord target slot subslot index data \<Rightarrow> ascii data
      | CyclicIo target a \<Rightarrow>
          (\<forall>mac dev ip c s1. cyclic_connect n target fresh_cli = Some (Inr (mac, dev, ip, c), s1) \<longrightarrow>
             (\<forall>s2 slots c1 s3. cyclic_layout (rw_cyclic w) a c s2 = Some (Inr (slots, c1), s3) \<longrightarrow> length slots < 65536))
      | ServeStation so \<Rightarrow>
          (let p = rw_process w in
             list_all thread_op (tw_param (pw_tier p)) \<and> list_all thread_op (tw_ready (pw_tier p))
           \<and> list_all pass_ok (pw_passes p) \<and> shutdown_ok (pw_shutdown p) \<and> process_fits p
           \<and> (\<forall>cyclic conn s1. rpc_connect n (so_target so) fresh_cli = Some (Inr conn, s1) \<longrightarrow>
                layout_fits p (serve_args_for so cyclic) conn))
      | _ \<Rightarrow> True)"

lemma ends_serve_gate: "ends (\<lambda>s'. balanced s' \<and> s' = s) (serve_gate so) (\<lambda>_ s'. balanced s' \<and> s' = s)"
proof -
  have b: "ends (\<lambda>s'. balanced s' \<and> s' = s) (bail e) N" for e and N :: "serve_cyclic_opts option \<Rightarrow> cli_state \<Rightarrow> bool"
    by (rule ends_pre [OF ends_bail]) simp
  have r: "ends (\<lambda>s'. balanced s' \<and> s' = s) (ret x) (\<lambda>_ s'. balanced s' \<and> s' = s)" for x :: "serve_cyclic_opts option"
    by (rule ends_ret_ok)
  have p: "ends (\<lambda>s'. balanced s' \<and> s' = s) (andthen (put ls) (\<lambda>_. bail e)) N"
    for ls e and N :: "serve_cyclic_opts option \<Rightarrow> cli_state \<Rightarrow> bool"
    by (rule ends_pre [OF ends_andthen [OF ends_put(1) ends_bail]]) simp
  show ?thesis by (auto simp: serve_gate_def intro: b r p split: option.split)
qed

lemma ends_run_serve:
  assumes "net_ok n" and "command_ok n w (ServeStation so)"
  shows "ends (\<lambda>s'. balanced s' \<and> s' = fresh_cli) (run_serve n (rw_process w) so) run_left"
  unfolding run_serve_def
proof (rule ends_andthen [OF ends_serve_gate], rule ends_andthen)
  fix cyclic
  show "ends (\<lambda>s'. balanced s' \<and> s' = fresh_cli) (cmd_serve n (rw_process w) (so_target so)
      \<lparr>pr_read_only = so_read_only so, pr_gap_ms = so_gap_ms so, pr_keepalive_ms = so_keepalive_ms so, pr_cyclic = cyclic\<rparr>)
     (\<lambda>out s. \<exists>oc at. process_left (serve_cfg_of (rw_process w) (serve_args_for so cyclic) at) oc (rw_process w) (cyclic \<noteq> None) out s)"
    using ends_serve [of n "rw_process w" "so_target so" fresh_cli "serve_args_for so cyclic"] assms
    by (simp add: command_ok_def serve_args_for_def Let_def del: split_paired_Ex)
next
  fix cyclic out
  show "ends (\<lambda>s. \<exists>oc at. process_left (serve_cfg_of (rw_process w) (serve_args_for so cyclic) at) oc (rw_process w) (cyclic \<noteq> None) out s)
     (case out of Serving st \<Rightarrow> ret (ServesOn st) | Served res \<Rightarrow> exits (lift (map_sum CText id res))) run_left"
  proof (cases out)
    case (Served res)
    have "ends balanced (exits (lift (map_sum CText id res))) run_left" by (rule ends_exits [OF ends_lift])
    then show ?thesis unfolding Served by (auto simp: process_left_def intro: ends_pre)
  qed (auto simp: process_left_def run_left_def intro!: ends_ret_ok)
qed

lemma ends_run_cyclic:
  assumes "net_ok n" and "command_ok n w (CyclicIo target a)"
  shows "ends (\<lambda>s'. balanced s' \<and> s' = fresh_cli) (run_cyclic n (rw_cyclic w) target a) run_left"
  unfolding run_cyclic_def
proof (rule ends_andthen [OF ends_cyclic [OF assms(1)]])
  show "\<forall>mac dev ip c s1. cyclic_connect n target fresh_cli = Some (Inr (mac, dev, ip, c), s1) \<longrightarrow>
      (\<forall>s2 slots c1 s3. cyclic_layout (rw_cyclic w) a c s2 = Some (Inr (slots, c1), s3) \<longrightarrow> length slots < 65536)"
    using assms(2) by (simp add: command_ok_def)
  show "ends (cyclic_left out) (case out of Cycling c ctl \<Rightarrow> ret (CyclesOn c ctl) | Cycled code \<Rightarrow> ret (Exits code)) run_left" for out
    by (cases out) (auto simp: cyclic_left_def run_left_def intro!: ends_ret_ok)
qed

lemma ends_run_command:
  assumes "net_ok n" and "command_ok n w cmd"
  shows "ends (\<lambda>s'. balanced s' \<and> s' = fresh_cli) (run_command w n json cmd) run_left"
proof -
  have b: "ends balanced (run_command w n json cmd) run_left" if "\<forall>t a. cmd \<noteq> CyclicIo t a" "\<forall>so. cmd \<noteq> ServeStation so"
    using that assms(2)
    by (cases cmd) (auto simp: run_command_def command_ok_def run_left_def intro!: ends_exits ends_ret_ok ends_discover ends_andthen [OF ends_lift]
          ends_dcp_set [OF dcp_commands_total(1)] ends_dcp_set [OF dcp_commands_total(2)] ends_dcp_set [OF dcp_commands_total(3)]
          ends_dcp_set [OF dcp_commands_total(4)] ends_dcp_cli [OF dcp_commands_total(5)]
          ends_cmd_read [OF assms(1)] ends_cmd_write [OF assms(1)] ends_cmd_filter [OF assms(1)] ends_cmd_read_inm [OF assms(1)])
  show ?thesis
  proof (cases cmd)
    case (CyclicIo t a)
    then show ?thesis using ends_run_cyclic assms by (simp add: run_command_def)
  next
    case (ServeStation so)
    then show ?thesis using ends_run_serve assms by (simp add: run_command_def)
  qed (rule ends_pre [OF b]; simp)+
qed


text \<open>A command line for the examples.\<close>

definition sample_run :: run_world where
  "sample_run = \<lparr>rw_net = process_net, rw_link = \<lparr>dl_open = Inr (), dl_send = Inr (), dl_deadline = 100, dl_events = []\<rparr>,
     rw_random = Inr [0, 0, 0, 9], rw_version = ''0.1.0'', rw_git = ''abc'', rw_nodes = None, rw_devices = Inr [''en0''],
     rw_attempt = (\<lambda>_. Inr ()), rw_debug_env = False,
     rw_cyclic = \<lparr>cw_gsdml = (\<lambda>_. Inr Gsdml.sample_device), cw_tier = tier_sample_world, cw_passes = []\<rparr>,
     rw_process = process_sample\<rparr>"

definition sample_serve :: serve_opts where
  "sample_serve = \<lparr>so_target = ''b'', so_read_only = False, so_gap_ms = 0, so_keepalive_ms = 2000, so_cyclic = True,
     so_gsdml = Some ''d.xml'', so_cycle_ms = 32, so_watchdog_factor = 3, so_exclude_zero_io = False, so_allow_mask = 1,
     so_on_the_bench = False, so_seconds = 0\<rparr>"

definition sample_line :: "command \<Rightarrow> cli_opts" where
  "sample_line c = \<lparr>op_interface = Some ''en0'', op_source_ip = None, op_json = False, op_command = c\<rparr>"


section \<open>Arming outputs takes three flags\<close>

text \<open>
  C39: No output bit is armed by accident. A serve command line with an allow mask is refused unless it
  also has \<open>--cyclic\<close>, \<open>--gsdml\<close> and \<open>--i-am-on-the-bench\<close>, and the refusal comes before the network is
  touched: no scan is made and no connection opened. With all three the mask reaches the session
  exactly when it is not read-only, and otherwise the session gets the mask 0.
\<close>

theorem arming_confirmed:
  assumes "op_command opts = ServeStation so" and "so_allow_mask so \<noteq> 0"
  shows "(if so_cyclic so \<and> so_gsdml so \<noteq> None \<and> so_on_the_bench so
     then (\<exists>y. serve_gate so s = Some (Inr (Some y), s)
         \<and> process_mask (serve_args_for so (Some y)) = (if so_read_only so then 0 else so_allow_mask so))
     else (\<exists>e s'. run w opts s = Some (Inl e, s') \<and> cl_scans s' = cl_scans s \<and> cl_opens s' = cl_opens s
         \<and> cl_opened s' = cl_opened s))"
proof (cases "so_cyclic so \<and> so_gsdml so \<noteq> None \<and> so_on_the_bench so")
  case True
  then show ?thesis
    using assms(2) by (auto simp: serve_gate_def ret_def process_mask_def serve_args_for_def serve_allow_mask_def)
next
  case False
  then have "\<exists>e s'. run_serve n p so s = Some (Inl e, s') \<and> cl_scans s' = cl_scans s \<and> cl_opens s' = cl_opens s
      \<and> cl_opened s' = cl_opened s" for n p
    using assms(2) by (auto simp: run_serve_def serve_gate_def andthen_def bail_def put_def split: option.split)
  then show ?thesis
    using False assms(1) by (auto simp: run_def run_command_def bail_def split: option.split)
qed

lemma arming_confirmed_witness:
  "\<exists>e s. run sample_run (sample_line (ServeStation sample_serve)) fresh_cli = Some (Inl e, s) \<and> cl_scans s = 0 \<and> cl_opens s = 0"
  using arming_confirmed [of "sample_line (ServeStation sample_serve)" sample_serve fresh_cli sample_run]
  by (auto simp: sample_line_def sample_serve_def fresh_cli_def)

end
